(* ===== verification/Bus_Prelude.thy ===== *)
theory Bus_Prelude
  imports Complex_Main "HOL-Library.AList" "HOL-Library.Multiset" "HOL-Library.Word"
    "HOL-Library.Product_Lexorder" "HOL-Library.Sublist"
begin

text \<open>
  Shared vocabulary of the development: Python's dictionaries, slices, truth values, numbers,
  times and identifiers as the modules of the bus use them, with the lemmas and hint
  collections the component theories share.

  Time is an integer number of microseconds, the resolution of Python's datetime; every
  operation that reads the clock takes the reading as its argument \<open>now\<close>. A Python float is
  modelled by the rational number it denotes (rounding of intermediate results is not modelled).
  A UUID is its 128-bit value.
\<close>

named_theorems dict_simps \<open>lookups, keys and sizes of updated dictionaries\<close>
named_theorems bus_defs \<open>definitions of operations, unfolded on demand\<close>
named_theorems inv_intros \<open>preservation lemmas for component invariants\<close>

section \<open>Dictionaries\<close>

text \<open>
  A Python dict keeps its keys in insertion order and overwrites in place, which is what
  \<open>AList.update\<close> does: an association list with distinct keys.
\<close>

type_synonym ('k, 'v) pydict = "('k \<times> 'v) list"

abbreviation dget :: "('k, 'v) pydict \<Rightarrow> 'k \<Rightarrow> 'v option" where
  "dget d k \<equiv> map_of d k"

abbreviation dset :: "'k \<Rightarrow> 'v \<Rightarrow> ('k, 'v) pydict \<Rightarrow> ('k, 'v) pydict" where
  "dset k v d \<equiv> AList.update k v d"

abbreviation dpop :: "'k \<Rightarrow> ('k, 'v) pydict \<Rightarrow> ('k, 'v) pydict" where
  "dpop k d \<equiv> AList.delete k d"

definition dkeys :: "('k, 'v) pydict \<Rightarrow> 'k list" where
  "dkeys d = map fst d"

definition dvalues :: "('k, 'v) pydict \<Rightarrow> 'v list" where
  "dvalues d = map snd d"

definition din :: "'k \<Rightarrow> ('k, 'v) pydict \<Rightarrow> bool" where
  "din k d = (dget d k \<noteq> None)"

definition dict_ok :: "('k, 'v) pydict \<Rightarrow> bool" where
  "dict_ok d = distinct (map fst d)"

definition dget_or :: "('k, 'v) pydict \<Rightarrow> 'k \<Rightarrow> 'v \<Rightarrow> 'v" where
  "dget_or d k v = (case dget d k of None \<Rightarrow> v | Some w \<Rightarrow> w)"

lemma dget_dset [simp, dict_simps]: "dget (dset k v d) j = (if j = k then Some v else dget d j)"
  by (simp add: update_conv)

lemma dget_dpop [simp, dict_simps]: "dget (dpop k d) j = (if j = k then None else dget d j)"
  by (simp add: delete_conv)

lemma dict_ok_Nil [simp]: "dict_ok []"
  by (simp add: dict_ok_def)

lemma dict_ok_dset [simp, intro]: "dict_ok d \<Longrightarrow> dict_ok (dset k v d)"
  by (simp add: dict_ok_def distinct_update)

lemma dict_ok_dpop [simp, intro]: "dict_ok d \<Longrightarrow> dict_ok (dpop k d)"
  by (simp add: dict_ok_def distinct_delete)

lemma din_dset [simp, dict_simps]: "din j (dset k v d) = (j = k \<or> din j d)"
  by (simp add: din_def)

lemma din_dpop [simp, dict_simps]: "din j (dpop k d) = (j \<noteq> k \<and> din j d)"
  by (simp add: din_def)

lemma din_Nil [simp]: "\<not> din k []"
  by (simp add: din_def)

lemma din_iff_mem: "din k d \<longleftrightarrow> k \<in> set (map fst d)"
  by (simp add: din_def map_of_eq_None_iff)

lemma dpop_absent: "dget d k = None \<Longrightarrow> dpop k d = d"
  by (simp add: map_of_eq_None_iff)

lemma set_dkeys: "set (dkeys d) = {k. din k d}"
  by (auto simp: dkeys_def din_iff_mem)

lemma length_dset: "length (dset k v d) = (if din k d then length d else Suc (length d))"
  by (induction d) (auto simp: din_def)

lemma length_dset_le: "length d \<le> length (dset k v d)"
  by (simp add: length_dset)

lemma dget_in_values: "dget d k = Some v \<Longrightarrow> v \<in> set (dvalues d)"
  by (force simp: dvalues_def dest: map_of_SomeD)

lemma dvalues_dget: "dict_ok d \<Longrightarrow> v \<in> set (dvalues d) \<longleftrightarrow> (\<exists>k. dget d k = Some v)"
  by (force simp: dvalues_def dict_ok_def image_iff)

lemma dict_mem_iff: "dict_ok d \<Longrightarrow> (k, v) \<in> set d \<longleftrightarrow> dget d k = Some v"
  by (simp add: dict_ok_def)

lemma distinct_dvalues:
  assumes ok: "dict_ok d" and inj: "\<And>i j v. dget d i = Some v \<Longrightarrow> dget d j = Some v \<Longrightarrow> i = j"
  shows "distinct (dvalues d)"
proof -
  have "inj_on snd (set d)" using ok inj by (force simp: inj_on_def dict_mem_iff)
  moreover have "distinct d" using ok by (simp add: dict_ok_def distinct_map)
  ultimately show ?thesis by (simp add: dvalues_def distinct_map)
qed

lemma length_filter_dict:
  assumes ok: "dict_ok d"
  shows "length (filter P d) = card {k. \<exists>v. dget d k = Some v \<and> P (k, v)}"
proof -
  have "distinct (filter P d)" using ok by (simp add: dict_ok_def distinct_map)
  then have "length (filter P d) = card (set (filter P d))" by (rule distinct_card [symmetric])
  also have "\<dots> = card (fst ` set (filter P d))"
    using ok by (intro card_image [symmetric]) (auto simp: dict_ok_def distinct_map inj_on_def)
  also have "fst ` set (filter P d) = {k. \<exists>v. dget d k = Some v \<and> P (k, v)}"
    using ok by (force simp: dict_mem_iff [symmetric])
  finally show ?thesis .
qed

lemma length_eq_card_dict:
  "dict_ok d \<Longrightarrow> length (filter P (dvalues d)) = card {k. \<exists>v. dget d k = Some v \<and> P v}"
  using length_filter_dict [of d "\<lambda>kv. P (snd kv)"] by (simp add: dvalues_def filter_map comp_def)

text \<open>In-place change of every value of a dict (a loop over \<open>values()\<close> that mutates them).\<close>

definition dmap :: "('v \<Rightarrow> 'w) \<Rightarrow> ('k, 'v) pydict \<Rightarrow> ('k, 'w) pydict" where
  "dmap f d = map (\<lambda>(k, v). (k, f v)) d"

lemma dget_dmap [simp, dict_simps]: "dget (dmap f d) k = map_option f (dget d k)"
  by (induction d) (auto simp: dmap_def)

lemma dict_ok_dmap [simp]: "dict_ok (dmap f d) = dict_ok d"
  by (simp add: dict_ok_def dmap_def comp_def case_prod_beta)

lemma din_dmap [simp, dict_simps]: "din k (dmap f d) = din k d"
  by (simp add: din_def)

lemma find_SomeD: "find P xs = Some x \<Longrightarrow> x \<in> set xs \<and> P x"
  by (induction xs) (auto split: if_splits)

section \<open>Slices\<close>

text \<open>
  \<open>xs[-n:]\<close>. For \<open>n = 0\<close> this is \<open>xs[0:]\<close>, the whole list; for a negative \<open>n\<close> it is
  \<open>xs[k:]\<close> with \<open>k = -n\<close>.
\<close>

definition py_last :: "int \<Rightarrow> 'a list \<Rightarrow> 'a list" where
  "py_last n xs = (if 0 < n then drop (length xs - nat n) xs else drop (nat (- n)) xs)"

text \<open>\<open>xs[:n]\<close>; a negative \<open>n\<close> counts from the end.\<close>

definition py_first :: "int \<Rightarrow> 'a list \<Rightarrow> 'a list" where
  "py_first n xs = (if 0 \<le> n then take (nat n) xs else take (length xs - nat (- n)) xs)"

lemma length_py_last_pos: "0 < n \<Longrightarrow> length (py_last n xs) = min (length xs) (nat n)"
  by (simp add: py_last_def)

lemma py_last_zero [simp]: "py_last 0 xs = xs"
  by (simp add: py_last_def)

lemma py_last_suffix: "suffix (py_last n xs) xs"
  by (simp add: py_last_def suffix_drop)

lemma py_last_all: "int (length xs) \<le> n \<Longrightarrow> py_last n xs = xs"
  by (auto simp: py_last_def)

lemma length_py_first: "0 \<le> n \<Longrightarrow> length (py_first n xs) = min (length xs) (nat n)"
  by (simp add: py_first_def)

lemma set_py_first: "set (py_first n xs) \<subseteq> set xs"
  by (auto simp: py_first_def dest: in_set_takeD)

text \<open>\<open>xs[n:]\<close>, and what \<open>del xs[:n]\<close> leaves.\<close>

definition py_from :: "int \<Rightarrow> 'a list \<Rightarrow> 'a list" where
  "py_from n xs = (if 0 \<le> n then drop (nat n) xs else drop (length xs - nat (- n)) xs)"

lemma suffix_py_from: "suffix (py_from n xs) xs"
  by (simp add: py_from_def suffix_drop)

lemma length_py_from: "0 \<le> n \<Longrightarrow> length (py_from n xs) = length xs - nat n"
  by (simp add: py_from_def)

text \<open>
  A loop that appends the elements that pass and breaks as soon as \<open>limit\<close> of them are there; the
  test comes after the append, so a limit below one still lets one element through.
\<close>

fun collect :: "int \<Rightarrow> ('a \<Rightarrow> bool) \<Rightarrow> 'a list \<Rightarrow> 'a list \<Rightarrow> 'a list" where
  "collect limit p acc [] = acc"
| "collect limit p acc (x # xs) =
     (if p x then
        if limit \<le> int (length (acc @ [x])) then acc @ [x] else collect limit p (acc @ [x]) xs
      else collect limit p acc xs)"

lemma collect_eq:
  "acc = [] \<or> int (length acc) < limit \<Longrightarrow>
     collect limit p acc xs = acc @ take (nat (max 1 limit) - length acc) (filter p xs)"
proof (induction limit p acc xs rule: collect.induct)
  case (2 limit p acc x xs)
  show ?case
  proof (cases "p x \<and> \<not> limit \<le> int (length (acc @ [x]))")
    case True
    then have "nat (max 1 limit) - length acc = Suc (nat (max 1 limit) - length (acc @ [x]))" by auto
    with True 2 show ?thesis by auto
  next
    case False
    have "nat (max 1 limit) - length acc = 1" if "limit \<le> int (length (acc @ [x]))"
      using that 2(3) by auto
    with False 2 show ?thesis by auto
  qed
qed simp

lemma collect_all: "collect limit p [] xs = take (nat (max 1 limit)) (filter p xs)"
  by (simp add: collect_eq)

section \<open>Truth values\<close>

text \<open>\<open>if s:\<close> for a value of type \<open>str | None\<close>: false for None and for the empty string.\<close>

definition str_true :: "string option \<Rightarrow> bool" where
  "str_true s = (case s of None \<Rightarrow> False | Some t \<Rightarrow> t \<noteq> [])"

lemma str_true_simps [simp]: "\<not> str_true None" "str_true (Some t) \<longleftrightarrow> t \<noteq> []"
  by (simp_all add: str_true_def)

lemma str_trueE: "str_true s \<Longrightarrow> (\<And>t. s = Some t \<Longrightarrow> t \<noteq> [] \<Longrightarrow> P) \<Longrightarrow> P"
  by (cases s) auto

text \<open>\<open>if tenant_id and x != tenant_id: continue\<close>: an optional filter lets everything pass when unset.\<close>

definition str_filter :: "string option \<Rightarrow> string \<Rightarrow> bool" where
  "str_filter f x = (str_true f \<longrightarrow> f = Some x)"

lemma str_filter_None [simp]: "str_filter None x"
  by (simp add: str_filter_def)

section \<open>Time\<close>

type_synonym datetime = int

text \<open>\<open>timedelta(seconds=n)\<close> for an int, and for a float (rounded half to even microseconds).\<close>

definition td_sec :: "int \<Rightarrow> int" where
  "td_sec n = n * 1000000"

definition round_half_even :: "rat \<Rightarrow> int" where
  "round_half_even x =
     (let f = \<lfloor>x\<rfloor>; d = x - of_int f in
      if d < 1 / 2 then f else if 1 / 2 < d then f + 1 else if even f then f else f + 1)"

definition td_secf :: "rat \<Rightarrow> int" where
  "td_secf x = round_half_even (x * 1000000)"

lemma round_half_even_ge: "of_int n \<le> x \<Longrightarrow> n \<le> round_half_even x"
  using le_floor_iff [of n x] by (auto simp: round_half_even_def Let_def)

lemma round_half_even_le: "x \<le> of_int n \<Longrightarrow> round_half_even x \<le> n"
proof -
  assume x: "x \<le> of_int n"
  then have f: "\<lfloor>x\<rfloor> \<le> n" using floor_mono [OF x] by simp
  show ?thesis
  proof (cases "\<lfloor>x\<rfloor> = n")
    case True
    with x have "x = of_int n" by (metis antisym of_int_floor_le)
    then show ?thesis by (simp add: round_half_even_def)
  next
    case False
    with f show ?thesis by (auto simp: round_half_even_def Let_def)
  qed
qed

lemma round_half_even_of_int [simp]: "round_half_even (of_int n) = n"
  by (simp add: round_half_even_def)

lemma round_half_even_mono: "x \<le> y \<Longrightarrow> round_half_even x \<le> round_half_even y"
proof (cases "\<lfloor>x\<rfloor> = \<lfloor>y\<rfloor>")
  case True
  assume "x \<le> y"
  with True show ?thesis by (auto simp: round_half_even_def Let_def)
next
  case False
  assume "x \<le> y"
  with False have "\<lfloor>x\<rfloor> + 1 \<le> \<lfloor>y\<rfloor>" using floor_mono [of x y] by linarith
  then have "round_half_even x \<le> \<lfloor>y\<rfloor>"
    by (intro round_half_even_le) linarith
  also have "\<dots> \<le> round_half_even y" by (simp add: round_half_even_ge)
  finally show ?thesis .
qed

lemma td_secf_nonneg: "0 \<le> x \<Longrightarrow> 0 \<le> td_secf x"
  unfolding td_secf_def by (rule round_half_even_ge) simp

lemma td_secf_mono: "x \<le> y \<Longrightarrow> td_secf x \<le> td_secf y"
  unfolding td_secf_def by (rule round_half_even_mono) simp

lemma td_secf_of_int [simp]: "td_secf (of_int n) = td_sec n"
proof -
  have "(of_int n :: rat) * 1000000 = of_int (n * 1000000)" by simp
  then show ?thesis
    by (simp only: td_secf_def td_sec_def round_half_even_of_int)
qed

end
