(* ===== verification/Py_Values.thy ===== *)
theory Py_Values
  imports Bus_Prelude
begin

text \<open>
  Values the bus passes around untyped: JSON-like Python objects (\<open>dict[str, Any]\<close>), their truth
  values, decimal and UUID strings. A float is the rational it denotes. A dict inside a value is
  an association list in insertion order.
\<close>

datatype json =
    JNone
  | JBool bool
  | JInt int
  | JFloat rat
  | JStr string
  | JList "json list"
  | JDict "(string \<times> json) list"

type_synonym payload = "(string, json) pydict"

text \<open>\<open>bool(v)\<close>.\<close>

fun py_bool :: "json \<Rightarrow> bool" where
  "py_bool JNone = False"
| "py_bool (JBool b) = b"
| "py_bool (JInt i) = (i \<noteq> 0)"
| "py_bool (JFloat x) = (x \<noteq> 0)"
| "py_bool (JStr s) = (s \<noteq> [])"
| "py_bool (JList xs) = (xs \<noteq> [])"
| "py_bool (JDict d) = (d \<noteq> [])"

text \<open>\<open>payload.get(key, default)\<close>.\<close>

abbreviation pget :: "payload \<Rightarrow> string \<Rightarrow> json \<Rightarrow> json" where
  "pget p k v \<equiv> dget_or p k v"

text \<open>A value of type \<open>str | None\<close> as a JSON value.\<close>

definition jopt :: "string option \<Rightarrow> json" where
  "jopt s = (case s of None \<Rightarrow> JNone | Some t \<Rightarrow> JStr t)"

text \<open>\<open>{**a, **b}\<close>: the entries of the second dict overwrite those of the first.\<close>

definition dict_merge :: "('k, 'v) pydict \<Rightarrow> ('k, 'v) pydict \<Rightarrow> ('k, 'v) pydict" where
  "dict_merge a b = foldl (\<lambda>d (k, v). dset k v d) a b"

lemma dget_dict_merge:
  "dict_ok b \<Longrightarrow> dget (dict_merge a b) k = (case dget b k of None \<Rightarrow> dget a k | Some v \<Rightarrow> Some v)"
proof (induction b arbitrary: a)
  case Nil
  then show ?case by (simp add: dict_merge_def)
next
  case (Cons e b)
  obtain j v where e: "e = (j, v)" by fastforce
  have "dict_ok b" "\<not> din j b" using Cons.prems e by (simp_all add: dict_ok_def din_iff_mem)
  moreover have "dict_merge a (e # b) = dict_merge (dset j v a) b" by (simp add: dict_merge_def e)
  ultimately show ?case using Cons.IH [of "dset j v a"]
    by (auto simp: e din_def split: option.splits)
qed

section \<open>Decimal numbers\<close>

definition dec_digit :: "nat \<Rightarrow> char" where
  "dec_digit n = ''0123456789'' ! (n mod 10)"

fun nat_str :: "nat \<Rightarrow> string" where
  "nat_str n = (if n < 10 then [dec_digit n] else nat_str (n div 10) @ [dec_digit n])"

declare nat_str.simps [simp del]

definition int_str :: "int \<Rightarrow> string" where
  "int_str i = (if i < 0 then ''-'' @ nat_str (nat (- i)) else nat_str (nat i))"

definition dec_digits :: "char set" where
  "dec_digits = set ''0123456789''"

lemma dec_digit_in [simp]: "dec_digit n \<in> dec_digits"
proof -
  have "n mod 10 < length ''0123456789''" by simp
  then show ?thesis unfolding dec_digit_def dec_digits_def by (rule nth_mem)
qed

lemma set_nat_str: "set (nat_str n) \<subseteq> dec_digits"
  by (induction n rule: nat_str.induct) (subst nat_str.simps, auto)

section \<open>UUID strings\<close>

type_synonym uuid = "128 word"

definition hex_alphabet :: string where
  "hex_alphabet = ''0123456789abcdef''"

fun hex_digits :: "nat \<Rightarrow> nat \<Rightarrow> string" where
  "hex_digits 0 n = []"
| "hex_digits (Suc k) n = hex_digits k (n div 16) @ [hex_alphabet ! (n mod 16)]"

text \<open>\<open>str(u)\<close>: 32 lower-case hexadecimal digits in groups of 8, 4, 4, 4 and 12.\<close>

definition uuid_str :: "uuid \<Rightarrow> string" where
  "uuid_str u = (let h = hex_digits 32 (unat u) in
     take 8 h @ ''-'' @ take 4 (drop 8 h) @ ''-'' @ take 4 (drop 12 h) @ ''-'' @
     take 4 (drop 16 h) @ ''-'' @ drop 20 h)"

lemma length_hex_digits [simp]: "length (hex_digits k n) = k"
  by (induction k arbitrary: n) auto

lemma length_hex_alphabet: "length hex_alphabet = 16"
  by (simp add: hex_alphabet_def)

lemma set_hex_digits: "set (hex_digits k n) \<subseteq> set hex_alphabet"
proof (induction k arbitrary: n)
  case (Suc k)
  have "hex_alphabet ! (n mod 16) \<in> set hex_alphabet"
    by (rule nth_mem) (simp add: length_hex_alphabet)
  with Suc show ?case by simp
qed simp

lemma distinct_hex_alphabet: "distinct hex_alphabet"
  by (simp add: hex_alphabet_def)

lemma hex_digits_inject:
  "m < 16 ^ k \<Longrightarrow> n < 16 ^ k \<Longrightarrow> hex_digits k m = hex_digits k n \<Longrightarrow> m = n"
proof (induction k arbitrary: m n)
  case (Suc k)
  have "m mod 16 = n mod 16"
    using Suc.prems(3) distinct_hex_alphabet
    by (simp add: nth_eq_iff_index_eq length_hex_alphabet)
  moreover have "m div 16 = n div 16"
    using Suc.prems by (intro Suc.IH) (auto simp: less_mult_imp_div_less mult.commute)
  ultimately show ?case by (metis div_mult_mod_eq)
qed simp

lemma length_uuid_str [simp]: "length (uuid_str u) = 36"
  by (simp add: uuid_str_def Let_def)

lemma uuid_str_not_Nil [simp]: "uuid_str u \<noteq> []"
  using length_uuid_str [of u] by (metis list.size(3) zero_neq_numeral)

lemma regroup:
  "take 8 h @ take 4 (drop 8 h) @ take 4 (drop 12 h) @ take 4 (drop 16 h) @ drop 20 h = h"
proof -
  have "take 4 (drop 16 h) @ drop 20 h = drop 16 h"
    using append_take_drop_id [of 4 "drop 16 h"] by simp
  moreover have "take 4 (drop 12 h) @ drop 16 h = drop 12 h"
    using append_take_drop_id [of 4 "drop 12 h"] by simp
  moreover have "take 4 (drop 8 h) @ drop 12 h = drop 8 h"
    using append_take_drop_id [of 4 "drop 8 h"] by simp
  ultimately show ?thesis by simp
qed

lemma uuid_str_undashed: "filter (\<lambda>c. c \<noteq> CHR ''-'') (uuid_str u) = hex_digits 32 (unat u)"
proof -
  define h where "h = hex_digits 32 (unat u)"
  have "CHR ''-'' \<notin> set h"
    using set_hex_digits [of 32 "unat u"] by (auto simp: h_def hex_alphabet_def)
  then have keep: "set xs \<subseteq> set h \<Longrightarrow> filter (\<lambda>c. c \<noteq> CHR ''-'') xs = xs" for xs
    by (auto intro: filter_True)
  have "set (take n (drop m h)) \<subseteq> set h" "set (take n h) \<subseteq> set h" "set (drop n h) \<subseteq> set h" for m n
    by (auto dest: in_set_takeD in_set_dropD)
  then show ?thesis using regroup [of h]
    by (simp add: uuid_str_def Let_def keep flip: h_def)
qed

lemma uuid_str_inject [simp]: "uuid_str u = uuid_str v \<longleftrightarrow> u = v"
proof
  assume "uuid_str u = uuid_str v"
  then have "hex_digits 32 (unat u) = hex_digits 32 (unat v)"
    by (simp flip: uuid_str_undashed)
  moreover have "unat u < 16 ^ 32" "unat v < 16 ^ 32"
    using unsigned_less [of u] unsigned_less [of v] by simp_all
  ultimately have "unat u = unat v" using hex_digits_inject by blast
  then show "u = v" by (simp add: word_unat_eq_iff)
qed simp

end
