(* ===== verification/Task_Ports.thy ===== *)
theory Task_Ports
  imports Py_Values
begin

text \<open>
  \<open>src/queue/ports.py\<close>: the task record, its status and priority enums, results and errors, and the
  contract of the abstract class \<open>TaskQueue\<close> as the locale \<open>task_queue\<close>, which the worker's lemmas
  are proved in.

  A task is a Python object that the queue, its heap and the caller share by reference; the code
  mutates its \<open>retry_count\<close>. Tasks are therefore addressed by a reference \<open>addr\<close> into a store.
\<close>

section \<open>Data\<close>

datatype task_status =
    TASK_PENDING
  | TASK_PROCESSING
  | TASK_COMPLETED
  | TASK_FAILED
  | TASK_CANCELLED
  | TASK_EXPIRED

fun task_status_value :: "task_status \<Rightarrow> string" where
  "task_status_value TASK_PENDING = ''pending''"
| "task_status_value TASK_PROCESSING = ''processing''"
| "task_status_value TASK_COMPLETED = ''completed''"
| "task_status_value TASK_FAILED = ''failed''"
| "task_status_value TASK_CANCELLED = ''cancelled''"
| "task_status_value TASK_EXPIRED = ''expired''"

datatype task_priority =
    PRIO_CRITICAL
  | PRIO_HIGH
  | PRIO_NORMAL
  | PRIO_LOW
  | PRIO_BACKGROUND

fun task_priority_value :: "task_priority \<Rightarrow> int" where
  "task_priority_value PRIO_CRITICAL = 0"
| "task_priority_value PRIO_HIGH = 1"
| "task_priority_value PRIO_NORMAL = 2"
| "task_priority_value PRIO_LOW = 3"
| "task_priority_value PRIO_BACKGROUND = 4"

record task_payload =
  tp_task_id :: uuid
  tp_tenant_id :: string
  tp_target_agent_id :: "uuid option"
  tp_target_conn_id :: "string option"
  tp_message_type :: string
  tp_envelope_json :: string
  tp_session_id :: "uuid option"
  tp_exec_id :: "uuid option"
  tp_priority :: task_priority
  tp_created_at :: datetime
  tp_ttl_seconds :: int
  tp_retry_count :: int
  tp_max_retries :: int
  tp_correlation_id :: "uuid option"
  tp_metadata :: payload

text \<open>The dataclass defaults; the fresh id and the creation time come from outside.\<close>

definition new_task_payload :: "uuid \<Rightarrow> datetime \<Rightarrow> task_payload" where
  "new_task_payload fresh now =
     \<lparr>tp_task_id = fresh, tp_tenant_id = [], tp_target_agent_id = None, tp_target_conn_id = None,
      tp_message_type = [], tp_envelope_json = [], tp_session_id = None, tp_exec_id = None,
      tp_priority = PRIO_NORMAL, tp_created_at = now, tp_ttl_seconds = 300, tp_retry_count = 0,
      tp_max_retries = 3, tp_correlation_id = None, tp_metadata = []\<rparr>"

definition task_is_expired :: "datetime \<Rightarrow> task_payload \<Rightarrow> bool" where
  "task_is_expired now t = (td_sec (tp_ttl_seconds t) < now - tp_created_at t)"

definition task_attempts :: "task_payload \<Rightarrow> int" where
  "task_attempts t = tp_retry_count t + 1"

definition task_can_retry :: "task_payload \<Rightarrow> bool" where
  "task_can_retry t = (tp_retry_count t < tp_max_retries t)"

record task_result =
  tr_task_id :: uuid
  tr_status :: task_status
  tr_result :: json
  tr_error_code :: "string option"
  tr_error_message :: "string option"
  tr_processed_at :: datetime
  tr_duration_ms :: rat
  tr_retry_count :: int

definition new_task_result :: "uuid \<Rightarrow> task_status \<Rightarrow> datetime \<Rightarrow> task_result" where
  "new_task_result tid st now =
     \<lparr>tr_task_id = tid, tr_status = st, tr_result = JNone, tr_error_code = None,
      tr_error_message = None, tr_processed_at = now, tr_duration_ms = 0, tr_retry_count = 0\<rparr>"

datatype task_queue_error =
    TaskNotFoundError
  | QueueFullError int int
  | QueueClosedError string

lemma task_status_value_inject: "task_status_value s = task_status_value t \<longleftrightarrow> s = t"
  by (cases s; cases t) simp_all

lemma task_priority_value_inject: "task_priority_value p = task_priority_value q \<longleftrightarrow> p = q"
  by (cases p; cases q) simp_all

type_synonym addr = nat

type_synonym task_store = "addr \<Rightarrow> task_payload"

section \<open>The contract of \<open>TaskQueue\<close>\<close>

text \<open>
  What a client may rely on: \<open>dequeue\<close> hands out a pending task and marks it as processing;
  \<open>complete\<close> and \<open>fail\<close> answer whether the task is known, \<open>complete\<close> stores the result, and
  \<open>fail\<close> puts the task back when a retry is asked for and left, and marks it failed otherwise;
  \<open>cancel\<close> touches pending tasks only. \<open>status_of\<close> and \<open>payload_of\<close> observe the state.
\<close>

locale task_queue =
  fixes inv :: "'q \<Rightarrow> bool"
    and status_of :: "'q \<Rightarrow> uuid \<Rightarrow> task_status option"
    and payload_of :: "'q \<Rightarrow> uuid \<Rightarrow> task_payload option"
    and result_of :: "'q \<Rightarrow> uuid \<Rightarrow> task_result option"
    and deq :: "datetime \<Rightarrow> string option \<Rightarrow> 'q \<Rightarrow> task_payload option \<times> 'q"
    and complete :: "uuid \<Rightarrow> task_result \<Rightarrow> 'q \<Rightarrow> bool \<times> 'q"
    and fail :: "datetime \<Rightarrow> uuid \<Rightarrow> string \<Rightarrow> string \<Rightarrow> bool \<Rightarrow> 'q \<Rightarrow> bool \<times> 'q"
    and cancel :: "datetime \<Rightarrow> uuid \<Rightarrow> 'q \<Rightarrow> bool \<times> 'q"
  assumes known: "inv q \<Longrightarrow> status_of q t \<noteq> None \<longleftrightarrow> payload_of q t \<noteq> None"
    and deq_inv: "inv q \<Longrightarrow> deq now tenant q = (r, q') \<Longrightarrow> inv q'"
    and complete_inv: "inv q \<Longrightarrow> complete t res q = (b, q') \<Longrightarrow> inv q'"
    and fail_inv: "inv q \<Longrightarrow> fail now t code msg retry q = (b, q') \<Longrightarrow> inv q'"
    and cancel_inv: "inv q \<Longrightarrow> cancel now t q = (b, q') \<Longrightarrow> inv q'"
    and deq_claims: "inv q \<Longrightarrow> deq now tenant q = (Some p, q') \<Longrightarrow>
      status_of q (tp_task_id p) = Some TASK_PENDING \<and>
      status_of q' (tp_task_id p) = Some TASK_PROCESSING \<and>
      \<not> task_is_expired now p \<and> str_filter tenant (tp_tenant_id p)"
    and complete_iff: "inv q \<Longrightarrow> complete t res q = (b, q') \<Longrightarrow> b \<longleftrightarrow> status_of q t \<noteq> None"
    and complete_effect: "inv q \<Longrightarrow> complete t res q = (True, q') \<Longrightarrow>
      status_of q' = (status_of q)(t \<mapsto> TASK_COMPLETED) \<and> result_of q' t = Some res"
    and fail_iff: "inv q \<Longrightarrow> fail now t code msg retry q = (b, q') \<Longrightarrow> b \<longleftrightarrow> status_of q t \<noteq> None"
    and fail_effect: "inv q \<Longrightarrow> payload_of q t = Some p \<Longrightarrow> fail now t code msg retry q = (b, q') \<Longrightarrow>
      status_of q' = (status_of q)(t \<mapsto> (if retry \<and> task_can_retry p then TASK_PENDING else TASK_FAILED))"
    and fail_count: "inv q \<Longrightarrow> payload_of q t = Some p \<Longrightarrow> fail now t code msg retry q = (b, q') \<Longrightarrow>
      map_option (\<lambda>p. (tp_retry_count p, tp_max_retries p)) (payload_of q' t) =
        Some (if retry \<and> task_can_retry p then tp_retry_count p + 1 else tp_retry_count p, tp_max_retries p)"
    and cancel_iff: "inv q \<Longrightarrow> cancel now t q = (b, q') \<Longrightarrow> b \<longleftrightarrow> status_of q t = Some TASK_PENDING"
    and cancel_effect: "inv q \<Longrightarrow> cancel now t q = (True, q') \<Longrightarrow>
      status_of q' = (status_of q)(t \<mapsto> TASK_CANCELLED)"

end
