(* ===== verification/Heapq.thy ===== *)
theory Heapq
  imports Bus_Prelude
begin

text \<open>
  Python's \<open>heapq\<close> (standard library), which \<open>src/queue/memory.py\<close> keeps its tasks in: the two
  sift loops on an array of items, \<open>heappush\<close> and \<open>heappop\<close>, over an arbitrary \<open>__lt__\<close>. For a
  strict weak order the array stays a binary heap, no item is lost, and \<open>heappop\<close> returns an
  item no other item is less than.
\<close>

section \<open>The sift loops\<close>

function siftdown_loop :: "('a \<Rightarrow> 'a \<Rightarrow> bool) \<Rightarrow> nat \<Rightarrow> 'a \<Rightarrow> nat \<Rightarrow> 'a list \<Rightarrow> 'a list" where
  "siftdown_loop lt start x pos h =
     (if start < pos then
        let parentpos = (pos - 1) div 2; parent = h ! parentpos in
        if lt x parent then siftdown_loop lt start x parentpos (h[pos := parent])
        else h[pos := x]
      else h[pos := x])"
  by pat_completeness auto
termination
  by (relation "measure (\<lambda>(lt, start, x, pos, h). pos)") auto

declare siftdown_loop.simps [simp del]

definition siftdown :: "('a \<Rightarrow> 'a \<Rightarrow> bool) \<Rightarrow> 'a list \<Rightarrow> nat \<Rightarrow> nat \<Rightarrow> 'a list" where
  "siftdown lt h start pos = siftdown_loop lt start (h ! pos) pos h"

definition smaller_child :: "('a \<Rightarrow> 'a \<Rightarrow> bool) \<Rightarrow> 'a list \<Rightarrow> nat \<Rightarrow> nat" where
  "smaller_child lt h pos =
     (let childpos = 2 * pos + 1; rightpos = childpos + 1 in
      if rightpos < length h \<and> \<not> lt (h ! childpos) (h ! rightpos) then rightpos else childpos)"

lemma smaller_child_gt: "pos < smaller_child lt h pos"
  by (simp add: smaller_child_def Let_def)

lemma smaller_child_less: "2 * pos + 1 < length h \<Longrightarrow> smaller_child lt h pos < length h"
  by (simp add: smaller_child_def Let_def)

function siftup_loop :: "('a \<Rightarrow> 'a \<Rightarrow> bool) \<Rightarrow> nat \<Rightarrow> 'a list \<Rightarrow> nat \<times> 'a list" where
  "siftup_loop lt pos h =
     (if 2 * pos + 1 < length h then
        let childpos = smaller_child lt h pos in
        siftup_loop lt childpos (h[pos := h ! childpos])
      else (pos, h))"
  by pat_completeness auto
termination
  by (relation "measure (\<lambda>(lt, pos, h). length h - pos)")
     (auto simp: smaller_child_less intro!: diff_less_mono2 smaller_child_gt)

declare siftup_loop.simps [simp del]

definition siftup :: "('a \<Rightarrow> 'a \<Rightarrow> bool) \<Rightarrow> 'a list \<Rightarrow> nat \<Rightarrow> 'a list" where
  "siftup lt h start =
     (let newitem = h ! start; (pos, h') = siftup_loop lt start h
      in siftdown lt (h'[pos := newitem]) start pos)"

definition heappush :: "('a \<Rightarrow> 'a \<Rightarrow> bool) \<Rightarrow> 'a list \<Rightarrow> 'a \<Rightarrow> 'a list" where
  "heappush lt h x = siftdown lt (h @ [x]) 0 (length h)"

text \<open>\<open>None\<close> is the IndexError of popping an empty heap.\<close>

definition heappop :: "('a \<Rightarrow> 'a \<Rightarrow> bool) \<Rightarrow> 'a list \<Rightarrow> ('a \<times> 'a list) option" where
  "heappop lt h =
     (if h = [] then None
      else let lastelt = last h; h' = butlast h in
        if h' \<noteq> [] then Some (h' ! 0, siftup lt (h'[0 := lastelt]) 0)
        else Some (lastelt, h'))"

section \<open>Contents\<close>

lemma length_siftdown_loop [simp]: "length (siftdown_loop lt start x pos h) = length h"
  by (induction lt start x pos h rule: siftdown_loop.induct)
     (subst siftdown_loop.simps, auto simp: Let_def)

lemma length_siftup_loop [simp]: "length (snd (siftup_loop lt pos h)) = length h"
  by (induction lt pos h rule: siftup_loop.induct) (subst siftup_loop.simps, auto simp: Let_def)

lemma length_siftdown [simp]: "length (siftdown lt h start pos) = length h"
  by (simp add: siftdown_def)

lemma length_siftup [simp]: "length (siftup lt h start) = length h"
  using length_siftup_loop [of lt start h]
  by (cases "siftup_loop lt start h") (simp add: siftup_def)

lemma mset_update_update:
  assumes "p < length h" and "q < length h" and "p \<noteq> q"
  shows "mset (h[p := h ! q, q := x]) = mset (h[p := x])"
proof -
  have "h[p := h ! q, q := x] = (h[p := x])[q := h[p := x] ! p, p := h[p := x] ! q]"
    using assms by (intro nth_equalityI) (auto simp: nth_list_update)
  then show ?thesis using assms mset_swap [of q "h[p := x]" p] by simp
qed

lemma mset_siftdown_loop:
  "pos < length h \<Longrightarrow> mset (siftdown_loop lt start x pos h) = mset (h[pos := x])"
proof (induction lt start x pos h rule: siftdown_loop.induct)
  case (1 lt start x pos h)
  let ?pp = "(pos - 1) div 2"
  show ?case
  proof (cases "start < pos \<and> lt x (h ! ?pp)")
    case True
    then have pp: "?pp < pos" by auto
    with True "1" have "mset (siftdown_loop lt start x ?pp (h[pos := h ! ?pp]))
        = mset (h[pos := h ! ?pp, ?pp := x])" by simp
    also have "\<dots> = mset (h[pos := x])"
      using pp "1.prems" by (intro mset_update_update) auto
    finally show ?thesis using True by (subst siftdown_loop.simps) (simp add: Let_def)
  next
    case False
    then show ?thesis by (subst siftdown_loop.simps) (auto simp: Let_def)
  qed
qed

lemma siftup_loop_bound: "pos < length h \<Longrightarrow> fst (siftup_loop lt pos h) < length h"
proof (induction lt pos h rule: siftup_loop.induct)
  case (1 lt pos h)
  then show ?case
    by (subst siftup_loop.simps) (auto simp: Let_def smaller_child_less)
qed

lemma mset_siftup_loop:
  "pos < length h \<Longrightarrow> siftup_loop lt pos h = (pos', h') \<Longrightarrow> mset (h'[pos' := x]) = mset (h[pos := x])"
proof (induction lt pos h arbitrary: pos' h' rule: siftup_loop.induct)
  case (1 lt pos h)
  let ?c = "smaller_child lt h pos"
  show ?case
  proof (cases "2 * pos + 1 < length h")
    case True
    then have c: "?c < length h" "pos < ?c"
      by (simp_all add: smaller_child_less smaller_child_gt)
    from True "1.prems"(2) have "siftup_loop lt ?c (h[pos := h ! ?c]) = (pos', h')"
      by (subst (asm) siftup_loop.simps) (simp add: Let_def)
    with True c have "mset (h'[pos' := x]) = mset (h[pos := h ! ?c, ?c := x])"
      using "1.IH" by simp
    also have "\<dots> = mset (h[pos := x])"
      using c by (intro mset_update_update) auto
    finally show ?thesis .
  next
    case False
    with "1.prems" show ?thesis by (subst (asm) siftup_loop.simps) simp
  qed
qed

lemma mset_siftdown: "pos < length h \<Longrightarrow> mset (siftdown lt h start pos) = mset h"
  by (simp add: siftdown_def mset_siftdown_loop)

lemma mset_siftup:
  assumes "start < length h" shows "mset (siftup lt h start) = mset h"
proof -
  obtain pos h' where s: "siftup_loop lt start h = (pos, h')" by fastforce
  then have "pos < length h" "length h' = length h"
    using siftup_loop_bound [OF assms, of lt] length_siftup_loop [of lt start h] by auto
  then show ?thesis
    using mset_siftup_loop [OF assms s, of "h ! start"] by (simp add: siftup_def s mset_siftdown)
qed

lemma mset_heappush [simp]: "mset (heappush lt h x) = add_mset x (mset h)"
  by (simp add: heappush_def mset_siftdown)

lemma set_heappush [simp]: "set (heappush lt h x) = insert x (set h)"
  by (metis mset_heappush set_mset_add_mset_insert set_mset_mset)

lemma heappop_None [simp]: "heappop lt h = None \<longleftrightarrow> h = []"
  by (simp add: heappop_def Let_def)

lemma mset_heappop:
  assumes "heappop lt h = Some (x, h')" shows "mset h = add_mset x (mset h')"
proof (cases "butlast h = []")
  case True
  with assms show ?thesis
    by (cases h rule: rev_cases) (auto simp: heappop_def split: if_splits)
next
  case False
  then obtain a as y where h: "h = (a # as) @ [y]"
    by (metis append_butlast_last_id butlast.simps(1) list.exhaust)
  with assms have "x = a" "h' = siftup lt (y # as) 0"
    by (auto simp: heappop_def butlast_append)
  then show ?thesis using h by (simp add: mset_siftup)
qed

lemma length_heappop: "heappop lt h = Some (x, h') \<Longrightarrow> length h = Suc (length h')"
  by (metis mset_heappop size_add_mset size_mset)

lemma set_heappop: "heappop lt h = Some (x, h') \<Longrightarrow> set h = insert x (set h')"
  by (metis mset_heappop set_mset_add_mset_insert set_mset_mset)

section \<open>Order\<close>

text \<open>
  The order a heap needs of \<open>__lt__\<close>: asymmetric, with an asymmetric and transitive "not less"
  (a strict weak order, which every order on a key is).
\<close>

locale strict_weak_order =
  fixes lt :: "'a \<Rightarrow> 'a \<Rightarrow> bool"
  assumes asym: "lt x y \<Longrightarrow> \<not> lt y x"
    and not_lt_trans: "\<not> lt y x \<Longrightarrow> \<not> lt z y \<Longrightarrow> \<not> lt z x"

definition parent_of :: "nat \<Rightarrow> nat" where
  "parent_of i = (i - 1) div 2"

definition is_heap :: "('a \<Rightarrow> 'a \<Rightarrow> bool) \<Rightarrow> 'a list \<Rightarrow> bool" where
  "is_heap lt h = (\<forall>i < length h. 0 < i \<longrightarrow> \<not> lt (h ! i) (h ! parent_of i))"

text \<open>A heap but for the item at \<open>pos\<close>, which may be less than its parent.\<close>

definition heap_up :: "('a \<Rightarrow> 'a \<Rightarrow> bool) \<Rightarrow> 'a list \<Rightarrow> nat \<Rightarrow> bool" where
  "heap_up lt g pos \<longleftrightarrow>
     (\<forall>i < length g. 0 < i \<longrightarrow> i \<noteq> pos \<longrightarrow> \<not> lt (g ! i) (g ! parent_of i)) \<and>
     (0 < pos \<longrightarrow> (\<forall>i < length g. 0 < i \<longrightarrow> parent_of i = pos \<longrightarrow>
        \<not> lt (g ! i) (g ! parent_of pos)))"

text \<open>A heap with a hole at \<open>pos\<close>: the item there counts for nothing.\<close>

definition heap_hole :: "('a \<Rightarrow> 'a \<Rightarrow> bool) \<Rightarrow> 'a list \<Rightarrow> nat \<Rightarrow> bool" where
  "heap_hole lt g pos \<longleftrightarrow>
     (\<forall>i < length g. 0 < i \<longrightarrow> i \<noteq> pos \<longrightarrow> parent_of i \<noteq> pos \<longrightarrow> \<not> lt (g ! i) (g ! parent_of i)) \<and>
     (0 < pos \<longrightarrow> (\<forall>i < length g. 0 < i \<longrightarrow> parent_of i = pos \<longrightarrow>
        \<not> lt (g ! i) (g ! parent_of pos)))"

lemma is_heap_Nil [simp]: "is_heap lt []"
  by (simp add: is_heap_def)

lemma parent_of_less: "0 < i \<Longrightarrow> parent_of i < i"
  by (simp add: parent_of_def)

lemma parent_of_neq [simp]: "0 < i \<Longrightarrow> parent_of i \<noteq> i" "0 < i \<Longrightarrow> i \<noteq> parent_of i"
  by (simp_all add: parent_of_def)

lemma parent_of_eq_iff: "0 < i \<Longrightarrow> parent_of i = p \<longleftrightarrow> i = 2 * p + 1 \<or> i = 2 * p + 2"
  by (auto simp: parent_of_def)

lemma is_heapD: "is_heap lt h \<Longrightarrow> i < length h \<Longrightarrow> 0 < i \<Longrightarrow> \<not> lt (h ! i) (h ! parent_of i)"
  by (simp add: is_heap_def)

context strict_weak_order
begin

lemma irrefl: "\<not> lt x x"
  using asym by blast

lemma trans: "lt x y \<Longrightarrow> lt y z \<Longrightarrow> lt x z"
  using asym not_lt_trans by blast

lemma heap_root_least:
  assumes "is_heap lt h" and "i < length h" shows "\<not> lt (h ! i) (h ! 0)"
  using assms(2)
proof (induction i rule: less_induct)
  case (less i)
  show ?case
  proof (cases "i = 0")
    case True
    then show ?thesis by (simp add: irrefl)
  next
    case False
    then have p: "parent_of i < i" by (simp add: parent_of_less)
    with less have "\<not> lt (h ! parent_of i) (h ! 0)" by auto
    moreover have "\<not> lt (h ! i) (h ! parent_of i)"
      using is_heapD [OF assms(1) less.prems] False by simp
    ultimately show ?thesis using not_lt_trans by blast
  qed
qed

lemma heap_up_step:
  assumes up: "heap_up lt (h[pos := x]) pos" and pos: "0 < pos" "pos < length h"
    and lt: "lt x (h ! parent_of pos)"
  shows "heap_up lt (h[pos := h ! parent_of pos, parent_of pos := x]) (parent_of pos)"
proof -
  let ?pp = "parent_of pos" and ?g = "h[pos := x]"
  let ?g' = "h[pos := h ! parent_of pos, parent_of pos := x]"
  have pp: "?pp < pos" using pos by (simp add: parent_of_less)
  have len: "?pp < length h" using pp pos(2) by (rule less_trans)
  have edge: "\<not> lt (?g ! i) (?g ! parent_of i)" if "i < length h" "0 < i" "i \<noteq> pos" for i
    using up that by (simp add: heap_up_def)
  have grand: "\<not> lt (?g ! i) (?g ! ?pp)" if "i < length h" "0 < i" "parent_of i = pos" for i
    using up that pos by (simp add: heap_up_def)
  have below: "\<not> lt (h ! i) x" if "i < length h" "0 < i" "parent_of i = ?pp" "i \<noteq> pos" for i
  proof -
    have "\<not> lt (h ! i) (h ! ?pp)" using edge [of i] that pp by simp
    then show ?thesis using lt trans by blast
  qed
  have above: "\<not> lt (h ! ?pp) (h ! parent_of ?pp)" if "0 < ?pp"
  proof -
    have "parent_of ?pp < ?pp" using that by (rule parent_of_less)
    with edge [of ?pp] that pp len show ?thesis by simp
  qed
  have "\<not> lt (?g' ! i) (?g' ! parent_of i)" if i: "i < length h" "0 < i" "i \<noteq> ?pp" for i
  proof -
    consider "i = pos" | "i \<noteq> pos" "parent_of i = pos" | "i \<noteq> pos" "parent_of i = ?pp"
      | "i \<noteq> pos" "parent_of i \<noteq> pos" "parent_of i \<noteq> ?pp" by blast
    then show ?thesis
    proof cases
      case 1
      with pp len pos lt show ?thesis by (simp add: asym)
    next
      case 2
      with grand [of i] i pp len pos show ?thesis by simp
    next
      case 3
      with below [of i] i pp len show ?thesis by simp
    next
      case 4
      with edge [of i] i show ?thesis by simp
    qed
  qed
  moreover have "\<not> lt (?g' ! i) (?g' ! parent_of ?pp)"
    if i: "0 < ?pp" "i < length h" "0 < i" "parent_of i = ?pp" for i
  proof -
    have q: "parent_of ?pp < ?pp" using i(1) by (rule parent_of_less)
    have "\<not> lt (h ! i) (h ! ?pp)" if "i \<noteq> pos" using edge [of i] i that pp by simp
    then have "\<not> lt (h ! i) (h ! parent_of ?pp)" if "i \<noteq> pos"
      using above i(1) that not_lt_trans by blast
    moreover have "i \<noteq> ?pp" using i by auto
    ultimately show ?thesis using above i q pp len pos by (cases "i = pos") auto
  qed
  ultimately show ?thesis by (simp add: heap_up_def)
qed

lemma siftdown_loop_heap:
  "pos < length h \<Longrightarrow> heap_up lt (h[pos := x]) pos \<Longrightarrow> is_heap lt (siftdown_loop lt 0 x pos h)"
proof (induction pos arbitrary: h rule: less_induct)
  case (less pos)
  show ?case
  proof (cases "0 < pos \<and> lt x (h ! parent_of pos)")
    case True
    then have pp: "parent_of pos < pos" by (simp add: parent_of_less)
    let ?h = "h[pos := h ! parent_of pos]"
    from True less.prems have "heap_up lt (?h[parent_of pos := x]) (parent_of pos)"
      by (intro heap_up_step) auto
    with less.IH [OF pp, of ?h] pp less.prems(1) have "is_heap lt (siftdown_loop lt 0 x (parent_of pos) ?h)"
      by simp
    with True show ?thesis by (subst siftdown_loop.simps) (simp add: Let_def parent_of_def)
  next
    case False
    have "\<not> lt (h[pos := x] ! i) (h[pos := x] ! parent_of i)" if "i < length h" "0 < i" for i
    proof (cases "i = pos")
      case True
      with that have "parent_of pos \<noteq> pos" using parent_of_less [of pos] by simp
      with True that False less.prems(1) show ?thesis by simp
    next
      case False
      with that less.prems(2) show ?thesis by (simp add: heap_up_def)
    qed
    then have "is_heap lt (h[pos := x])" by (simp add: is_heap_def)
    with False show ?thesis by (subst siftdown_loop.simps) (auto simp: Let_def parent_of_def)
  qed
qed

lemma siftdown_heap:
  "pos < length h \<Longrightarrow> heap_up lt h pos \<Longrightarrow> is_heap lt (siftdown lt h 0 pos)"
  by (simp add: siftdown_def siftdown_loop_heap)

lemma heap_hole_step:
  assumes hole: "heap_hole lt h pos" and pos: "2 * pos + 1 < length h"
  shows "heap_hole lt (h[pos := h ! smaller_child lt h pos]) (smaller_child lt h pos)"
proof -
  let ?c = "smaller_child lt h pos"
  let ?g = "h[pos := h ! ?c]"
  have c: "?c < length h" "pos < ?c" "parent_of ?c = pos"
    using pos by (auto simp: smaller_child_less smaller_child_gt)
      (auto simp: smaller_child_def Let_def parent_of_def)
  have edge: "\<not> lt (h ! i) (h ! parent_of i)"
    if "i < length h" "0 < i" "i \<noteq> pos" "parent_of i \<noteq> pos" for i
    using hole that by (simp add: heap_hole_def)
  have grand: "\<not> lt (h ! i) (h ! parent_of pos)"
    if "i < length h" "0 < i" "parent_of i = pos" "0 < pos" for i
    using hole that by (simp add: heap_hole_def)
  have least: "\<not> lt (h ! i) (h ! ?c)" if i: "i < length h" "0 < i" "parent_of i = pos" for i
  proof -
    have "i = 2 * pos + 1 \<or> i = 2 * pos + 2" using i by (simp add: parent_of_eq_iff)
    then show ?thesis
      using i by (auto simp: smaller_child_def Let_def irrefl asym)
  qed
  have "\<not> lt (?g ! i) (?g ! parent_of i)"
    if i: "i < length h" "0 < i" "i \<noteq> ?c" "parent_of i \<noteq> ?c" for i
  proof -
    consider "i = pos" | "i \<noteq> pos" "parent_of i = pos" | "i \<noteq> pos" "parent_of i \<noteq> pos" by blast
    then show ?thesis
    proof cases
      case 1
      with i(2) have "parent_of pos < pos" by (simp add: parent_of_less)
      with 1 grand [of ?c] c i show ?thesis by simp
    next
      case 2
      with least [of i] i pos show ?thesis by simp
    next
      case 3
      with edge [of i] i show ?thesis by simp
    qed
  qed
  moreover have "\<not> lt (?g ! i) (?g ! parent_of ?c)"
    if i: "i < length h" "0 < i" "parent_of i = ?c" for i
  proof -
    have "i \<noteq> pos" "parent_of i \<noteq> pos" using i c parent_of_less [of pos] by auto
    with edge [of i] i c pos show ?thesis by simp
  qed
  ultimately show ?thesis by (simp add: heap_hole_def)
qed

lemma siftup_loop_hole:
  "heap_hole lt h pos \<Longrightarrow> siftup_loop lt pos h = (pos', h') \<Longrightarrow>
     heap_hole lt h' pos' \<and> length h' \<le> 2 * pos' + 1"
proof (induction "length h - pos" arbitrary: pos h rule: less_induct)
  case less
  show ?case
  proof (cases "2 * pos + 1 < length h")
    case True
    let ?c = "smaller_child lt h pos"
    have c: "?c < length h" "pos < ?c" using True by (simp_all add: smaller_child_less smaller_child_gt)
    from True less.prems(2) have "siftup_loop lt ?c (h[pos := h ! ?c]) = (pos', h')"
      by (subst (asm) siftup_loop.simps) (simp add: Let_def)
    moreover have "length h - ?c < length h - pos" using c by simp
    ultimately show ?thesis
      using less.hyps [of "h[pos := h ! ?c]" ?c] heap_hole_step [OF less.prems(1) True] by simp
  next
    case False
    with less.prems show ?thesis by (subst (asm) siftup_loop.simps) simp
  qed
qed

lemma siftup_heap:
  assumes "h \<noteq> []" and hole: "heap_hole lt h 0"
  shows "is_heap lt (siftup lt h 0)"
proof -
  obtain pos h' where s: "siftup_loop lt 0 h = (pos, h')" by fastforce
  have bound: "pos < length h" "length h' = length h"
    using siftup_loop_bound [of 0 h lt] length_siftup_loop [of lt 0 h] s assms(1) by auto
  from siftup_loop_hole [OF hole s] have h': "heap_hole lt h' pos" "length h' \<le> 2 * pos + 1"
    by auto
  have childless: "parent_of i \<noteq> pos" if "i < length h'" "0 < i" for i
    using that h'(2) parent_of_eq_iff [of i pos] by auto
  have kept: "h'[pos := h ! 0] ! parent_of i = h' ! parent_of i" if "i < length h'" "0 < i" for i
    using childless [OF that] by (metis nth_list_update_neq)
  have "heap_up lt (h'[pos := h ! 0]) pos"
    using h'(1) childless kept by (simp add: heap_up_def heap_hole_def)
  then show ?thesis using bound by (simp add: siftup_def s siftdown_heap)
qed

lemma heappush_heap: "is_heap lt h \<Longrightarrow> is_heap lt (heappush lt h x)"
  unfolding heappush_def
  by (rule siftdown_heap)
     (auto simp: heap_up_def is_heap_def nth_append less_Suc_eq parent_of_eq_iff
       intro: less_trans [OF parent_of_less])

lemma heappop_heap:
  assumes heap: "is_heap lt h" and pop: "heappop lt h = Some (x, h')"
  shows "is_heap lt h'"
proof (cases "butlast h = []")
  case True
  with pop show ?thesis by (auto simp: heappop_def split: if_splits)
next
  case False
  let ?g = "(butlast h)[0 := last h]"
  have "\<not> lt (?g ! i) (?g ! parent_of i)" if "i < length ?g" "0 < i" "parent_of i \<noteq> 0" for i
  proof -
    have "parent_of i < length h - 1" using that parent_of_less [of i] by simp
    with heap that show ?thesis by (simp add: is_heap_def nth_butlast)
  qed
  then have "heap_hole lt ?g 0" by (simp add: heap_hole_def)
  with False have "is_heap lt (siftup lt ?g 0)" by (intro siftup_heap) auto
  with False pop show ?thesis by (auto simp: heappop_def Let_def split: if_splits)
qed

lemma heappop_head: "heappop lt h = Some (x, h') \<Longrightarrow> x = h ! 0"
  by (cases h rule: rev_cases) (auto simp: heappop_def Let_def nth_append split: if_splits)

lemma heappop_least:
  assumes "is_heap lt h" and "heappop lt h = Some (x, h')" and "y \<in> set h"
  shows "\<not> lt y x"
  using assms heap_root_least heappop_head [OF assms(2)] by (metis in_set_conv_nth)

lemmas heap_laws = heappush_heap heappop_heap heappop_least

end

text \<open>An order on a key is a strict weak order.\<close>

lemma strict_weak_order_key: "strict_weak_order (\<lambda>x y. (f x :: 'k :: linorder) < f y)"
  by unfold_locales auto

end
