(* ===== verification/Task_Queue.thy ===== *)
theory Task_Queue
  imports Task_Ports Heapq
begin

text \<open>
  \<open>src/queue/memory.py\<close>, the in-memory task queue: a binary heap of priority items, the tasks,
  statuses and results by id, two indexes and counters. Every method runs under one
  \<open>asyncio.Lock\<close>, so it is one transition; the clock reading of a method is its argument
  \<open>now\<close>. The waiting loop of \<open>dequeue\<close> is a run over wake-ups of the condition.
\<close>

section \<open>State\<close>

record priority_item =
  pi_priority :: int
  pi_created_at :: datetime
  pi_task :: addr
  pi_visible_at :: datetime

text \<open>\<open>@dataclass(order=True)\<close> with \<open>task\<close> and \<open>visible_at\<close> left out of the comparison.\<close>

definition item_lt :: "priority_item \<Rightarrow> priority_item \<Rightarrow> bool" where
  "item_lt x y = ((pi_priority x, pi_created_at x) < (pi_priority y, pi_created_at y))"

record mem_queue =
  mq_objs :: task_store
  mq_max_size :: int
  mq_retry_base_delay :: rat
  mq_retry_max_delay :: rat
  mq_heap :: "priority_item list"
  mq_tasks :: "(uuid, addr) pydict"
  mq_status :: "(uuid, task_status) pydict"
  mq_results :: "(uuid, task_result) pydict"
  mq_by_tenant :: "string \<Rightarrow> uuid set"
  mq_by_agent :: "uuid \<Rightarrow> uuid set"
  mq_closed :: bool
  mq_enqueued_count :: int
  mq_completed_count :: int
  mq_failed_count :: int

definition mq_init :: "task_store \<Rightarrow> int \<Rightarrow> rat \<Rightarrow> rat \<Rightarrow> mem_queue" where
  "mq_init objs max_size base_delay max_delay =
     \<lparr>mq_objs = objs, mq_max_size = max_size, mq_retry_base_delay = base_delay,
      mq_retry_max_delay = max_delay, mq_heap = [], mq_tasks = [], mq_status = [],
      mq_results = [], mq_by_tenant = (\<lambda>_. {}), mq_by_agent = (\<lambda>_. {}), mq_closed = False,
      mq_enqueued_count = 0, mq_completed_count = 0, mq_failed_count = 0\<rparr>"

definition index_add :: "('k \<Rightarrow> uuid set) \<Rightarrow> 'k \<Rightarrow> uuid \<Rightarrow> ('k \<Rightarrow> uuid set)" where
  "index_add ix k t = ix(k := insert t (ix k))"

definition index_discard :: "('k \<Rightarrow> uuid set) \<Rightarrow> 'k \<Rightarrow> uuid \<Rightarrow> ('k \<Rightarrow> uuid set)" where
  "index_discard ix k t = ix(k := ix k - {t})"

text \<open>The two-line index clean-up that four of the methods repeat.\<close>

definition mq_unindex :: "task_payload \<Rightarrow> uuid \<Rightarrow> mem_queue \<Rightarrow> mem_queue" where
  "mq_unindex task tid q =
     q\<lparr>mq_by_tenant := index_discard (mq_by_tenant q) (tp_tenant_id task) tid,
       mq_by_agent := (case tp_target_agent_id task of
           None \<Rightarrow> mq_by_agent q
         | Some a \<Rightarrow> index_discard (mq_by_agent q) a tid)\<rparr>"

section \<open>Operations\<close>

definition mq_enqueue ::
  "datetime \<Rightarrow> addr \<Rightarrow> rat \<Rightarrow> mem_queue \<Rightarrow> (task_queue_error + addr) \<times> mem_queue" where
  "mq_enqueue now a delay_seconds q =
     (if mq_closed q then (Inl (QueueClosedError ''Queue is shutdown''), q)
      else if mq_max_size q \<le> int (length (mq_tasks q)) then
        (Inl (QueueFullError (int (length (mq_tasks q))) (mq_max_size q)), q)
      else
        let task = mq_objs q a;
            visible_at = (if 0 < delay_seconds then now + td_secf delay_seconds else now);
            item = \<lparr>pi_priority = task_priority_value (tp_priority task),
                    pi_created_at = tp_created_at task, pi_task = a, pi_visible_at = visible_at\<rparr>
        in (Inr a,
            q\<lparr>mq_heap := heappush item_lt (mq_heap q) item,
              mq_tasks := dset (tp_task_id task) a (mq_tasks q),
              mq_status := dset (tp_task_id task) TASK_PENDING (mq_status q),
              mq_by_tenant := index_add (mq_by_tenant q) (tp_tenant_id task) (tp_task_id task),
              mq_by_agent := (case tp_target_agent_id task of
                  None \<Rightarrow> mq_by_agent q
                | Some ag \<Rightarrow> index_add (mq_by_agent q) ag (tp_task_id task)),
              mq_enqueued_count := mq_enqueued_count q + 1\<rparr>))"

definition mq_mark_expired :: "datetime \<Rightarrow> uuid \<Rightarrow> mem_queue \<Rightarrow> mem_queue" where
  "mq_mark_expired now tid q =
     (let q = q\<lparr>mq_status := dset tid TASK_EXPIRED (mq_status q)\<rparr> in
      case dget (mq_tasks q) tid of
        None \<Rightarrow> q
      | Some a \<Rightarrow>
          let task = mq_objs q a; q = mq_unindex task tid q in
          q\<lparr>mq_results := dset tid
             ((new_task_result tid TASK_EXPIRED now)
                \<lparr>tr_error_code := Some ''TASK_EXPIRED'',
                 tr_error_message :=
                   Some (''Task exceeded TTL of '' @ int_str (tp_ttl_seconds task) @ ''s'')\<rparr>)
             (mq_results q)\<rparr>)"

lemma mq_heap_unindex [simp]: "mq_heap (mq_unindex task tid q) = mq_heap q"
  by (simp add: mq_unindex_def)

lemma mq_heap_mark_expired [simp]: "mq_heap (mq_mark_expired now tid q) = mq_heap q"
  by (simp add: mq_mark_expired_def Let_def split: option.split)

text \<open>
  The \<open>while self._heap\<close> loop of \<open>_find_next_visible\<close>; \<open>checked\<close> collects the items to put back.
\<close>

function mq_find_loop ::
  "datetime \<Rightarrow> string option \<Rightarrow> priority_item list \<Rightarrow> mem_queue \<Rightarrow>
     addr option \<times> priority_item list \<times> mem_queue" where
  "mq_find_loop now tenant checked q =
     (case heappop item_lt (mq_heap q) of
        None \<Rightarrow> (None, checked, q)
      | Some (item, h) \<Rightarrow>
          let q' = q\<lparr>mq_heap := h\<rparr>; task = mq_objs q (pi_task item); tid = tp_task_id task in
          if \<not> din tid (mq_tasks q) then mq_find_loop now tenant checked q'
          else if now < pi_visible_at item then mq_find_loop now tenant (checked @ [item]) q'
          else if task_is_expired now task then
            mq_find_loop now tenant checked (mq_mark_expired now tid q')
          else if \<not> str_filter tenant (tp_tenant_id task) then
            mq_find_loop now tenant (checked @ [item]) q'
          else if dget (mq_status q) tid \<noteq> Some TASK_PENDING then
            mq_find_loop now tenant checked q'
          else (Some (pi_task item), checked,
                q'\<lparr>mq_status := dset tid TASK_PROCESSING (mq_status q)\<rparr>))"
  by pat_completeness auto
termination
  by (relation "measure (\<lambda>(now, tenant, checked, q). length (mq_heap q))")
     (auto dest: length_heappop)

declare mq_find_loop.simps [simp del]

definition mq_find_next_visible ::
  "datetime \<Rightarrow> string option \<Rightarrow> mem_queue \<Rightarrow> addr option \<times> mem_queue" where
  "mq_find_next_visible now tenant q =
     (let (result, checked, q) = mq_find_loop now tenant [] q in
      (result, q\<lparr>mq_heap := foldl (heappush item_lt) (mq_heap q) checked\<rparr>))"

text \<open>
  One pass of the \<open>while True\<close> of \<open>dequeue\<close>, from acquiring the lock to returning or waiting:
  \<open>Some r\<close> is \<open>return r\<close>, \<open>None\<close> is a wait on the condition.
\<close>

definition mq_dequeue_pass ::
  "datetime \<Rightarrow> string option \<Rightarrow> datetime option \<Rightarrow> mem_queue \<Rightarrow> addr option option \<times> mem_queue" where
  "mq_dequeue_pass now tenant deadline q =
     (if mq_closed q then (Some None, q)
      else let (task, q) = mq_find_next_visible now tenant q in
        case task of
          Some a \<Rightarrow> (Some (Some a), q)
        | None \<Rightarrow>
            (case deadline of
               None \<Rightarrow> (Some None, q)
             | Some d \<Rightarrow> if d - now \<le> 0 then (Some None, q) else (None, q)))"

text \<open>
  While \<open>dequeue\<close> waits the lock is free: a wake-up is a notification at some time, after the
  other coroutines changed the state, or the timeout of \<open>wait_for\<close>.
\<close>

datatype wakeup = Notified datetime "mem_queue \<Rightarrow> mem_queue" | TimedOut "mem_queue \<Rightarrow> mem_queue"

fun mq_dequeue_wait ::
  "string option \<Rightarrow> datetime option \<Rightarrow> addr option option \<times> mem_queue \<Rightarrow> wakeup list \<Rightarrow>
     addr option option \<times> mem_queue" where
  "mq_dequeue_wait tenant deadline (Some r, q) ws = (Some r, q)"
| "mq_dequeue_wait tenant deadline (None, q) [] = (None, q)"
| "mq_dequeue_wait tenant deadline (None, q) (TimedOut env # ws) = (Some None, env q)"
| "mq_dequeue_wait tenant deadline (None, q) (Notified now env # ws) =
     mq_dequeue_wait tenant deadline (mq_dequeue_pass now tenant deadline (env q)) ws"

definition mq_dequeue ::
  "datetime \<Rightarrow> string option \<Rightarrow> rat \<Rightarrow> wakeup list \<Rightarrow> mem_queue \<Rightarrow> addr option option \<times> mem_queue" where
  "mq_dequeue now tenant timeout ws q =
     (let deadline = (if 0 < timeout then Some (now + td_secf timeout) else None)
      in mq_dequeue_wait tenant deadline (mq_dequeue_pass now tenant deadline q) ws)"

definition mq_complete :: "uuid \<Rightarrow> task_result \<Rightarrow> mem_queue \<Rightarrow> bool \<times> mem_queue" where
  "mq_complete tid result q =
     (case dget (mq_tasks q) tid of
        None \<Rightarrow> (False, q)
      | Some a \<Rightarrow>
          let task = mq_objs q a;
              q = q\<lparr>mq_status := dset tid TASK_COMPLETED (mq_status q),
                    mq_results := dset tid result (mq_results q)\<rparr>;
              q = mq_unindex task tid q
          in (True, q\<lparr>mq_completed_count := mq_completed_count q + 1\<rparr>))"

definition mq_backoff :: "mem_queue \<Rightarrow> int \<Rightarrow> rat" where
  "mq_backoff q retry_count =
     min (mq_retry_base_delay q * power_int 2 retry_count) (mq_retry_max_delay q)"

definition mq_fail ::
  "datetime \<Rightarrow> uuid \<Rightarrow> string \<Rightarrow> string \<Rightarrow> bool \<Rightarrow> mem_queue \<Rightarrow> bool \<times> mem_queue" where
  "mq_fail now tid error_code error_message retry q =
     (case dget (mq_tasks q) tid of
        None \<Rightarrow> (False, q)
      | Some a \<Rightarrow>
          let task = mq_objs q a in
          if retry \<and> task_can_retry task then
            let task = task\<lparr>tp_retry_count := tp_retry_count task + 1\<rparr>;
                delay = mq_backoff q (tp_retry_count task);
                item = \<lparr>pi_priority = task_priority_value (tp_priority task),
                        pi_created_at = tp_created_at task, pi_task = a,
                        pi_visible_at = now + td_secf delay\<rparr>
            in (True, q\<lparr>mq_objs := (mq_objs q)(a := task),
                        mq_status := dset tid TASK_PENDING (mq_status q),
                        mq_heap := heappush item_lt (mq_heap q) item\<rparr>)
          else
            let q = q\<lparr>mq_status := dset tid TASK_FAILED (mq_status q),
                      mq_results := dset tid
                        ((new_task_result tid TASK_FAILED now)
                           \<lparr>tr_error_code := Some error_code, tr_error_message := Some error_message,
                            tr_retry_count := tp_retry_count task\<rparr>) (mq_results q)\<rparr>;
                q = mq_unindex task tid q
            in (True, q\<lparr>mq_failed_count := mq_failed_count q + 1\<rparr>))"

definition mq_get :: "uuid \<Rightarrow> mem_queue \<Rightarrow> addr option" where
  "mq_get tid q = dget (mq_tasks q) tid"

definition mq_get_result :: "uuid \<Rightarrow> mem_queue \<Rightarrow> task_result option" where
  "mq_get_result tid q = dget (mq_results q) tid"

definition mq_cancel :: "datetime \<Rightarrow> uuid \<Rightarrow> mem_queue \<Rightarrow> bool \<times> mem_queue" where
  "mq_cancel now tid q =
     (case dget (mq_tasks q) tid of
        None \<Rightarrow> (False, q)
      | Some a \<Rightarrow>
          if dget (mq_status q) tid \<noteq> Some TASK_PENDING then (False, q)
          else
            let task = mq_objs q a;
                q = q\<lparr>mq_status := dset tid TASK_CANCELLED (mq_status q)\<rparr>;
                q = mq_unindex task tid q
            in (True, q\<lparr>mq_results := dset tid
                 ((new_task_result tid TASK_CANCELLED now)
                    \<lparr>tr_error_code := Some ''TASK_CANCELLED'',
                     tr_error_message := Some ''Task cancelled by user''\<rparr>) (mq_results q)\<rparr>))"

definition is_pending :: "mem_queue \<Rightarrow> uuid \<Rightarrow> bool" where
  "is_pending q tid = (dget (mq_status q) tid = Some TASK_PENDING)"

definition mq_size :: "string option \<Rightarrow> mem_queue \<Rightarrow> int" where
  "mq_size tenant q =
     (case tenant of
        Some (c # cs) \<Rightarrow> int (card (Set.filter (is_pending q) (mq_by_tenant q (c # cs))))
      | _ \<Rightarrow> int (length (filter (\<lambda>s. s = TASK_PENDING) (dvalues (mq_status q)))))"

definition mq_pending_by_agent :: "uuid \<Rightarrow> mem_queue \<Rightarrow> int" where
  "mq_pending_by_agent agent q = int (card (Set.filter (is_pending q) (mq_by_agent q agent)))"

text \<open>The loop of \<open>clear_expired\<close> over a copy of the task table.\<close>

fun mq_clear_loop :: "datetime \<Rightarrow> (uuid \<times> addr) list \<Rightarrow> int \<times> mem_queue \<Rightarrow> int \<times> mem_queue" where
  "mq_clear_loop now [] (n, q) = (n, q)"
| "mq_clear_loop now ((tid, a) # rest) (n, q) =
     (if dget (mq_status q) tid = Some TASK_PENDING \<and> task_is_expired now (mq_objs q a)
      then mq_clear_loop now rest (n + 1, mq_mark_expired now tid q)
      else mq_clear_loop now rest (n, q))"

definition mq_clear_expired :: "datetime \<Rightarrow> mem_queue \<Rightarrow> int \<times> mem_queue" where
  "mq_clear_expired now q = mq_clear_loop now (mq_tasks q) (0, q)"

definition mq_shutdown :: "mem_queue \<Rightarrow> mem_queue" where
  "mq_shutdown q = q\<lparr>mq_closed := True\<rparr>"

definition mq_stats :: "mem_queue \<Rightarrow> payload" where
  "mq_stats q =
     [(''total_tasks'', JInt (int (length (mq_tasks q)))),
      (''pending'', JInt (int (length (filter (\<lambda>s. s = TASK_PENDING) (dvalues (mq_status q)))))),
      (''processing'', JInt (int (length (filter (\<lambda>s. s = TASK_PROCESSING) (dvalues (mq_status q)))))),
      (''completed'', JInt (mq_completed_count q)),
      (''failed'', JInt (mq_failed_count q)),
      (''max_size'', JInt (mq_max_size q)),
      (''closed'', JBool (mq_closed q))]"

end
