(* ===== verification/Task_Queue_Inv.thy ===== *)
theory Task_Queue_Inv
  imports Task_Queue
begin

text \<open>
  The invariant of the in-memory task queue and its preservation by every operation, the
  characterisation of the task that \<open>dequeue\<close> hands out, and the queue as an instance of the
  contract \<open>task_queue\<close>.
\<close>

section \<open>Invariant\<close>

interpretation pq: strict_weak_order item_lt
  unfolding item_lt_def by (rule strict_weak_order_key)

abbreviation item_tid :: "mem_queue \<Rightarrow> priority_item \<Rightarrow> uuid" where
  "item_tid q it \<equiv> tp_task_id (mq_objs q (pi_task it))"

text \<open>A heap item carries the registered task object and that object's sort key.\<close>

definition item_ok :: "mem_queue \<Rightarrow> priority_item \<Rightarrow> bool" where
  "item_ok q it =
     (let t = mq_objs q (pi_task it) in
      dget (mq_tasks q) (tp_task_id t) = Some (pi_task it) \<and>
      pi_priority it = task_priority_value (tp_priority t) \<and> pi_created_at it = tp_created_at t)"

definition mq_wf :: "mem_queue \<Rightarrow> priority_item set \<Rightarrow> bool" where
  "mq_wf q S =
     (dict_ok (mq_tasks q) \<and> dict_ok (mq_status q) \<and> dict_ok (mq_results q) \<and>
      (\<forall>t. din t (mq_status q) = din t (mq_tasks q)) \<and>
      (\<forall>t a. dget (mq_tasks q) t = Some a \<longrightarrow> tp_task_id (mq_objs q a) = t) \<and>
      (\<forall>it\<in>S. item_ok q it) \<and>
      (\<forall>t. is_pending q t \<longrightarrow> (\<exists>it\<in>S. item_tid q it = t)))"

definition mq_inv :: "mem_queue \<Rightarrow> bool" where
  "mq_inv q = (is_heap item_lt (mq_heap q) \<and> mq_wf q (set (mq_heap q)))"

lemma mq_unindex_simps [simp]:
  "mq_objs (mq_unindex t i q) = mq_objs q" "mq_tasks (mq_unindex t i q) = mq_tasks q"
  "mq_status (mq_unindex t i q) = mq_status q" "mq_results (mq_unindex t i q) = mq_results q"
  "mq_closed (mq_unindex t i q) = mq_closed q" "mq_max_size (mq_unindex t i q) = mq_max_size q"
  "mq_completed_count (mq_unindex t i q) = mq_completed_count q"
  "mq_failed_count (mq_unindex t i q) = mq_failed_count q"
  "mq_enqueued_count (mq_unindex t i q) = mq_enqueued_count q"
  by (simp_all add: mq_unindex_def)

lemma mq_mark_expired_simps [simp]:
  "mq_objs (mq_mark_expired now i q) = mq_objs q" "mq_tasks (mq_mark_expired now i q) = mq_tasks q"
  "mq_status (mq_mark_expired now i q) = dset i TASK_EXPIRED (mq_status q)"
  "mq_closed (mq_mark_expired now i q) = mq_closed q"
  "mq_max_size (mq_mark_expired now i q) = mq_max_size q"
  by (simp_all add: mq_mark_expired_def Let_def split: option.split)

lemma mq_unindex_indexes [simp]:
  "mq_by_tenant (mq_unindex t i q) = index_discard (mq_by_tenant q) (tp_tenant_id t) i"
  "mq_by_agent (mq_unindex t i q) =
     (case tp_target_agent_id t of None \<Rightarrow> mq_by_agent q | Some a \<Rightarrow> index_discard (mq_by_agent q) a i)"
  by (simp_all add: mq_unindex_def split: option.split)

lemma dict_ok_results_expired: "dict_ok (mq_results q) \<Longrightarrow> dict_ok (mq_results (mq_mark_expired now i q))"
  by (simp add: mq_mark_expired_def Let_def split: option.split)

lemma is_pending_heap [simp]: "is_pending (q\<lparr>mq_heap := h\<rparr>) t = is_pending q t"
  by (simp add: is_pending_def)

lemma item_ok_heap [simp]: "item_ok (q\<lparr>mq_heap := h\<rparr>) it = item_ok q it"
  by (simp add: item_ok_def)

lemma mq_wf_heap [simp]: "mq_wf (q\<lparr>mq_heap := h\<rparr>) S = mq_wf q S"
  by (simp add: mq_wf_def)

lemma item_ok_cong:
  "mq_objs q' = mq_objs q \<Longrightarrow> mq_tasks q' = mq_tasks q \<Longrightarrow> item_ok q' it = item_ok q it"
  by (simp add: item_ok_def)

lemma mq_wf_drop: "mq_wf q (insert it S) \<Longrightarrow> \<not> is_pending q (item_tid q it) \<Longrightarrow> mq_wf q S"
  by (auto simp: mq_wf_def)

text \<open>Every status change except a return to pending keeps the queue well formed.\<close>

lemma mq_wf_status:
  assumes wf: "mq_wf q S" and known: "din tid (mq_tasks q)" and s: "s \<noteq> TASK_PENDING"
    and same: "mq_objs q' = mq_objs q" "mq_tasks q' = mq_tasks q" "mq_status q' = dset tid s (mq_status q)"
    and res: "dict_ok (mq_results q')"
  shows "mq_wf q' S"
proof -
  have ok: "item_ok q' it = item_ok q it" for it
    by (rule item_ok_cong) (simp_all add: same)
  have pend: "is_pending q' t = (t \<noteq> tid \<and> is_pending q t)" for t
    using s by (simp add: is_pending_def same)
  have "\<forall>t. is_pending q' t \<longrightarrow> (\<exists>it\<in>S. item_tid q' it = t)"
    using wf by (simp add: mq_wf_def pend same)
  moreover have "\<forall>t. din t (mq_status q') = din t (mq_tasks q')"
    using wf known by (auto simp: mq_wf_def same)
  ultimately show ?thesis using wf res by (simp add: mq_wf_def ok same)
qed

lemma mq_wf_mark_expired:
  "mq_wf q S \<Longrightarrow> din tid (mq_tasks q) \<Longrightarrow> mq_wf (mq_mark_expired now tid q) S"
  by (rule mq_wf_status [where q = q and tid = tid and s = TASK_EXPIRED])
     (auto simp: mq_wf_def dict_ok_results_expired)

lemma mq_wf_item: "mq_wf q S \<Longrightarrow> it \<in> S \<Longrightarrow> dget (mq_tasks q) (item_tid q it) = Some (pi_task it)"
  by (auto simp: mq_wf_def item_ok_def Let_def)

section \<open>The scan of the heap\<close>

definition mq_eligible :: "datetime \<Rightarrow> string option \<Rightarrow> mem_queue \<Rightarrow> priority_item \<Rightarrow> bool" where
  "mq_eligible now tenant q it =
     (let t = mq_objs q (pi_task it) in
      pi_visible_at it \<le> now \<and> \<not> task_is_expired now t \<and> str_filter tenant (tp_tenant_id t) \<and>
      is_pending q (tp_task_id t))"

lemma mq_eligible_heap [simp]: "mq_eligible now tenant (q\<lparr>mq_heap := h\<rparr>) it = mq_eligible now tenant q it"
  by (simp add: mq_eligible_def)

lemma mq_eligible_expired:
  assumes "mq_wf q S" and "it \<in> S" and "x \<in> S" and "task_is_expired now (mq_objs q (pi_task x))"
  shows "mq_eligible now tenant (mq_mark_expired now (item_tid q x) q) it = mq_eligible now tenant q it"
proof (cases "item_tid q it = item_tid q x")
  case True
  then have "pi_task it = pi_task x" using assms mq_wf_item by (metis option.inject)
  with assms show ?thesis by (simp add: mq_eligible_def)
next
  case False
  then show ?thesis by (simp add: mq_eligible_def is_pending_def)
qed

text \<open>One lemma for the five ways an iteration can go on.\<close>

lemma mq_find_loop_rule:
  assumes "mq_find_loop now tenant checked q = (r, c, q')"
    and stop: "\<And>q checked. mq_heap q = [] \<Longrightarrow> P checked q None checked q"
    and drop: "\<And>q checked item h r c q'. heappop item_lt (mq_heap q) = Some (item, h) \<Longrightarrow>
        \<not> din (item_tid q item) (mq_tasks q) \<or>
          \<not> now < pi_visible_at item \<and> \<not> task_is_expired now (mq_objs q (pi_task item)) \<and>
          \<not> is_pending q (item_tid q item) \<Longrightarrow>
        P checked (q\<lparr>mq_heap := h\<rparr>) r c q' \<Longrightarrow> P checked q r c q'"
    and keep: "\<And>q checked item h r c q'. heappop item_lt (mq_heap q) = Some (item, h) \<Longrightarrow>
        now < pi_visible_at item \<or> \<not> task_is_expired now (mq_objs q (pi_task item)) \<and>
          \<not> str_filter tenant (tp_tenant_id (mq_objs q (pi_task item))) \<Longrightarrow>
        P (checked @ [item]) (q\<lparr>mq_heap := h\<rparr>) r c q' \<Longrightarrow> P checked q r c q'"
    and expire: "\<And>q checked item h r c q'. heappop item_lt (mq_heap q) = Some (item, h) \<Longrightarrow>
        din (item_tid q item) (mq_tasks q) \<Longrightarrow> task_is_expired now (mq_objs q (pi_task item)) \<Longrightarrow>
        P checked (mq_mark_expired now (item_tid q item) (q\<lparr>mq_heap := h\<rparr>)) r c q' \<Longrightarrow> P checked q r c q'"
    and claim: "\<And>q checked item h. heappop item_lt (mq_heap q) = Some (item, h) \<Longrightarrow>
        mq_eligible now tenant q item \<Longrightarrow> din (item_tid q item) (mq_tasks q) \<Longrightarrow>
        P checked q (Some (pi_task item)) checked
          (q\<lparr>mq_heap := h, mq_status := dset (item_tid q item) TASK_PROCESSING (mq_status q)\<rparr>)"
  shows "P checked q r c q'"
  using assms(1)
proof (induction "length (mq_heap q)" arbitrary: checked q rule: less_induct)
  case less
  note IH = less.hyps and loop = less.prems
  show ?case
  proof (cases "heappop item_lt (mq_heap q)")
    case None
    with loop show ?thesis by (subst (asm) mq_find_loop.simps) (auto intro: stop)
  next
    case (Some p)
    then obtain item h where pop: "heappop item_lt (mq_heap q) = Some (item, h)" by (cases p) auto
    have len: "length h < length (mq_heap q)" using length_heappop [OF pop] by simp
    let ?q = "q\<lparr>mq_heap := h\<rparr>" and ?t = "mq_objs q (pi_task item)"
    let ?tid = "tp_task_id ?t"
    have unfolded: "mq_find_loop now tenant checked q =
      (if \<not> din ?tid (mq_tasks q) then mq_find_loop now tenant checked ?q
       else if now < pi_visible_at item then mq_find_loop now tenant (checked @ [item]) ?q
       else if task_is_expired now ?t then mq_find_loop now tenant checked (mq_mark_expired now ?tid ?q)
       else if \<not> str_filter tenant (tp_tenant_id ?t) then mq_find_loop now tenant (checked @ [item]) ?q
       else if \<not> is_pending q ?tid then mq_find_loop now tenant checked ?q
       else (Some (pi_task item), checked, ?q\<lparr>mq_status := dset ?tid TASK_PROCESSING (mq_status q)\<rparr>))"
      by (subst mq_find_loop.simps) (simp add: pop Let_def is_pending_def)
    consider (drop) "\<not> din ?tid (mq_tasks q) \<or> \<not> now < pi_visible_at item \<and>
          \<not> task_is_expired now ?t \<and> \<not> is_pending q ?tid"
          "mq_find_loop now tenant checked ?q = (r, c, q')"
      | (keep) "now < pi_visible_at item \<or> \<not> task_is_expired now ?t \<and> \<not> str_filter tenant (tp_tenant_id ?t)"
          "mq_find_loop now tenant (checked @ [item]) ?q = (r, c, q')"
      | (expire) "din ?tid (mq_tasks q)" "task_is_expired now ?t"
          "mq_find_loop now tenant checked (mq_mark_expired now ?tid ?q) = (r, c, q')"
      | (claim) "din ?tid (mq_tasks q)" "mq_eligible now tenant q item" "r = Some (pi_task item)"
          "c = checked" "q' = ?q\<lparr>mq_status := dset ?tid TASK_PROCESSING (mq_status q)\<rparr>"
      using loop unfolding unfolded
      by (auto simp: mq_eligible_def not_less split: if_split_asm)
    then show ?thesis
    proof cases
      case drop
      then show ?thesis using IH [OF _ drop(2)] len assms(3) [OF pop drop(1)] by simp
    next
      case keep
      then show ?thesis using IH [OF _ keep(2)] len assms(4) [OF pop keep(1)] by simp
    next
      case expire
      then show ?thesis using IH [OF _ expire(3)] len assms(5) [OF pop expire(1,2)] by simp
    next
      case claim
      then show ?thesis using assms(6) [OF pop] by simp
    qed
  qed
qed

lemma mq_find_loop_frame:
  assumes "mq_find_loop now tenant checked q = (r, c, q')"
  shows "mq_objs q' = mq_objs q \<and> mq_tasks q' = mq_tasks q \<and> mq_closed q' = mq_closed q \<and>
    mq_max_size q' = mq_max_size q"
  using assms by (rule mq_find_loop_rule) simp_all

text \<open>What the loop maintains, and each kind of iteration as a lemma.\<close>

definition loop_ok :: "mem_queue \<Rightarrow> priority_item list \<Rightarrow> bool" where
  "loop_ok q checked = (is_heap item_lt (mq_heap q) \<and> mq_wf q (set (mq_heap q) \<union> set checked))"

lemma loop_ok_drop:
  assumes ok: "loop_ok q checked" and pop: "heappop item_lt (mq_heap q) = Some (item, h)"
    and un: "\<not> din (item_tid q item) (mq_tasks q) \<or> \<not> now < pi_visible_at item \<and>
        \<not> task_is_expired now (mq_objs q (pi_task item)) \<and> \<not> is_pending q (item_tid q item)"
  shows "loop_ok (q\<lparr>mq_heap := h\<rparr>) checked" and "\<not> is_pending q (item_tid q item)"
proof -
  have wf: "mq_wf q (insert item (set h \<union> set checked))"
    using ok by (simp add: loop_ok_def set_heappop [OF pop])
  then have "din (item_tid q item) (mq_tasks q)"
    using mq_wf_item [OF wf, of item] by (simp add: din_def)
  then show np: "\<not> is_pending q (item_tid q item)" using un by blast
  have "mq_wf q (set h \<union> set checked)" using wf np by (rule mq_wf_drop)
  then show "loop_ok (q\<lparr>mq_heap := h\<rparr>) checked"
    using ok pq.heappop_heap [OF _ pop] by (simp add: loop_ok_def)
qed

lemma loop_ok_keep:
  assumes "loop_ok q checked" and "heappop item_lt (mq_heap q) = Some (item, h)"
  shows "loop_ok (q\<lparr>mq_heap := h\<rparr>) (checked @ [item])"
  using assms pq.heappop_heap [OF _ assms(2)] by (simp add: loop_ok_def set_heappop [OF assms(2)])

lemma loop_ok_status:
  assumes ok: "loop_ok q checked" and pop: "heappop item_lt (mq_heap q) = Some (item, h)"
    and known: "din (item_tid q item) (mq_tasks q)" and s: "s \<noteq> TASK_PENDING"
    and same: "mq_objs q' = mq_objs q" "mq_tasks q' = mq_tasks q" "mq_heap q' = h"
      "mq_status q' = dset (item_tid q item) s (mq_status q)"
    and res: "dict_ok (mq_results q')"
  shows "loop_ok q' checked"
proof -
  have "mq_wf q (insert item (set h \<union> set checked))"
    using ok by (simp add: loop_ok_def set_heappop [OF pop])
  then have "mq_wf q' (insert item (set h \<union> set checked))"
    by (rule mq_wf_status) (fact known s same res)+
  then have "mq_wf q' (set h \<union> set checked)"
    by (rule mq_wf_drop) (simp add: is_pending_def same s)
  then show ?thesis using ok pq.heappop_heap [OF _ pop] by (simp add: loop_ok_def same)
qed

lemma loop_ok_expire:
  assumes ok: "loop_ok q checked" and pop: "heappop item_lt (mq_heap q) = Some (item, h)"
    and known: "din (item_tid q item) (mq_tasks q)"
  shows "loop_ok (mq_mark_expired now (item_tid q item) (q\<lparr>mq_heap := h\<rparr>)) checked"
proof -
  have "dict_ok (mq_results q)" using ok by (simp add: loop_ok_def mq_wf_def)
  then show ?thesis
    by (intro loop_ok_status [OF ok pop known, where s = TASK_EXPIRED])
      (simp_all add: dict_ok_results_expired)
qed

lemma loop_ok_claim:
  assumes ok: "loop_ok q checked" and pop: "heappop item_lt (mq_heap q) = Some (item, h)"
    and known: "din (item_tid q item) (mq_tasks q)"
  shows "loop_ok (q\<lparr>mq_heap := h, mq_status := dset (item_tid q item) TASK_PROCESSING (mq_status q)\<rparr>) checked"
proof -
  have "dict_ok (mq_results q)" using ok by (simp add: loop_ok_def mq_wf_def)
  then show ?thesis by (intro loop_ok_status [OF ok pop known, where s = TASK_PROCESSING]) simp_all
qed

lemma mq_find_loop_ok:
  assumes "mq_find_loop now tenant checked q = (r, c, q')" and "loop_ok q checked"
  shows "loop_ok q' c"
proof -
  let ?P = "\<lambda>checked q (r :: addr option) c q'. loop_ok q checked \<longrightarrow> loop_ok q' c"
  have "?P checked q r c q'"
    using assms(1)
    by (rule mq_find_loop_rule [where P = ?P])
      (simp, blast dest: loop_ok_drop(1), blast dest: loop_ok_keep, blast dest: loop_ok_expire,
       blast dest: loop_ok_claim)
  with assms(2) show ?thesis by simp
qed

lemma foldl_heappush:
  "is_heap item_lt h \<Longrightarrow> is_heap item_lt (foldl (heappush item_lt) h c)"
  "set (foldl (heappush item_lt) h c) = set h \<union> set c"
  by (induction c arbitrary: h) (auto simp: pq.heappush_heap)

text \<open>The item the scan claims, and when it claims none.\<close>

definition mq_best :: "datetime \<Rightarrow> string option \<Rightarrow> mem_queue \<Rightarrow> addr option \<Rightarrow> bool" where
  "mq_best now tenant q r =
     (case r of
        None \<Rightarrow> \<forall>it\<in>set (mq_heap q). \<not> mq_eligible now tenant q it
      | Some a \<Rightarrow> \<exists>it\<in>set (mq_heap q). pi_task it = a \<and> mq_eligible now tenant q it \<and>
          (\<forall>y\<in>set (mq_heap q). mq_eligible now tenant q y \<longrightarrow> \<not> item_lt y it))"

text \<open>An item that is not eligible and is removed first does not change which one is best.\<close>

lemma mq_best_skip:
  assumes "mq_best now tenant q1 r" and "set (mq_heap q) = insert x (set (mq_heap q1))"
    and "\<not> mq_eligible now tenant q x"
    and "\<And>y. y \<in> set (mq_heap q) \<Longrightarrow> mq_eligible now tenant q1 y = mq_eligible now tenant q y"
  shows "mq_best now tenant q r"
  using assms by (auto simp: mq_best_def split: option.splits)

lemma mq_best_pop:
  assumes "mq_best now tenant (q\<lparr>mq_heap := h\<rparr>) r" and "heappop item_lt (mq_heap q) = Some (item, h)"
    and "\<not> mq_eligible now tenant q item"
  shows "mq_best now tenant q r"
  using assms(1) by (rule mq_best_skip [where x = item]) (simp_all add: set_heappop [OF assms(2)] assms(3))

lemma not_eligible:
  "\<not> is_pending q (item_tid q it) \<Longrightarrow> \<not> mq_eligible now tenant q it"
  "now < pi_visible_at it \<or> \<not> str_filter tenant (tp_tenant_id (mq_objs q (pi_task it))) \<Longrightarrow>
     \<not> mq_eligible now tenant q it"
  "task_is_expired now (mq_objs q (pi_task it)) \<Longrightarrow> \<not> mq_eligible now tenant q it"
  by (auto simp: mq_eligible_def Let_def)

lemma mq_best_expire:
  assumes ok: "loop_ok q checked" and pop: "heappop item_lt (mq_heap q) = Some (item, h)"
    and old: "task_is_expired now (mq_objs q (pi_task item))"
    and best: "mq_best now tenant (mq_mark_expired now (item_tid q item) (q\<lparr>mq_heap := h\<rparr>)) r"
      (is "mq_best _ _ ?q1 r")
  shows "mq_best now tenant q r"
proof -
  have wf: "mq_wf (q\<lparr>mq_heap := h\<rparr>) (set (mq_heap q) \<union> set checked)"
    using ok by (simp add: loop_ok_def)
  have same: "mq_eligible now tenant ?q1 y = mq_eligible now tenant q y" if "y \<in> set (mq_heap q)" for y
    using mq_eligible_expired [OF wf, of y item now tenant] old that
    by (auto simp: set_heappop [OF pop])
  show ?thesis
    using best by (rule mq_best_skip [where x = item])
      (simp_all add: same set_heappop [OF pop] not_eligible(3) old)
qed

lemma mq_find_loop_best:
  assumes "mq_find_loop now tenant checked q = (r, c, q')" and "loop_ok q checked"
  shows "mq_best now tenant q r"
proof -
  let ?P = "\<lambda>checked q r (c :: priority_item list) (q' :: mem_queue).
    loop_ok q checked \<longrightarrow> mq_best now tenant q r"
  have "?P checked q r c q'"
    using assms(1)
  proof (rule mq_find_loop_rule [where P = ?P])
    fix q :: mem_queue and checked :: "priority_item list"
    assume "mq_heap q = []"
    then show "?P checked q None checked q" by (simp add: mq_best_def)
  next
    fix q checked item h r c q'
    assume pop: "heappop item_lt (mq_heap q) = Some (item, h)"
      and un: "\<not> din (item_tid q item) (mq_tasks q) \<or> \<not> now < pi_visible_at item \<and>
        \<not> task_is_expired now (mq_objs q (pi_task item)) \<and> \<not> is_pending q (item_tid q item)"
      and IH: "?P checked (q\<lparr>mq_heap := h\<rparr>) r c q'"
    show "?P checked q r c q'"
      using IH loop_ok_drop [OF _ pop un] mq_best_pop [OF _ pop] not_eligible(1) by blast
  next
    fix q checked item h r c q'
    assume pop: "heappop item_lt (mq_heap q) = Some (item, h)"
      and "now < pi_visible_at item \<or> \<not> task_is_expired now (mq_objs q (pi_task item)) \<and>
        \<not> str_filter tenant (tp_tenant_id (mq_objs q (pi_task item)))"
      and IH: "?P (checked @ [item]) (q\<lparr>mq_heap := h\<rparr>) r c q'"
    then have no: "now < pi_visible_at item \<or> \<not> str_filter tenant (tp_tenant_id (mq_objs q (pi_task item)))" by blast
    show "?P checked q r c q'"
      using IH loop_ok_keep [OF _ pop] mq_best_pop [OF _ pop] not_eligible(2) [OF no] by blast
  next
    fix q checked item h r c q'
    assume "heappop item_lt (mq_heap q) = Some (item, h)"
      and "din (item_tid q item) (mq_tasks q)" and "task_is_expired now (mq_objs q (pi_task item))"
      and "?P checked (mq_mark_expired now (item_tid q item) (q\<lparr>mq_heap := h\<rparr>)) r c q'"
    then show "?P checked q r c q'" using loop_ok_expire mq_best_expire by blast
  next
    fix q checked item h
    assume pop: "heappop item_lt (mq_heap q) = Some (item, h)" and "mq_eligible now tenant q item"
    then show "?P checked q (Some (pi_task item)) checked
      (q\<lparr>mq_heap := h, mq_status := dset (item_tid q item) TASK_PROCESSING (mq_status q)\<rparr>)"
      using pq.heappop_least [OF _ pop] set_heappop [OF pop] by (auto simp: mq_best_def loop_ok_def)
  qed
  with assms(2) show ?thesis by simp
qed

lemma mq_find_next_visible_inv:
  assumes "mq_find_next_visible now tenant q = (r, q')" and "mq_inv q"
  shows "mq_inv q'"
proof -
  obtain r1 c q1 where loop: "mq_find_loop now tenant [] q = (r1, c, q1)" by (cases "mq_find_loop now tenant [] q")
  then have "loop_ok q1 c" using mq_find_loop_ok assms(2) by (simp add: loop_ok_def mq_inv_def)
  then show ?thesis
    using assms(1) loop by (auto simp: mq_find_next_visible_def mq_inv_def loop_ok_def foldl_heappush)
qed

lemma mq_find_next_visible_best:
  assumes "mq_find_next_visible now tenant q = (r, q')" and "mq_inv q"
  shows "mq_best now tenant q r"
proof -
  obtain r1 c q1 where loop: "mq_find_loop now tenant [] q = (r1, c, q1)" by (cases "mq_find_loop now tenant [] q")
  then have "mq_best now tenant q r1" using mq_find_loop_best assms(2) by (simp add: loop_ok_def mq_inv_def)
  then show ?thesis using assms(1) loop by (simp add: mq_find_next_visible_def)
qed

lemma mq_find_next_visible_frame:
  assumes "mq_find_next_visible now tenant q = (r, q')"
  shows "mq_objs q' = mq_objs q" "mq_tasks q' = mq_tasks q" "mq_closed q' = mq_closed q"
    "mq_max_size q' = mq_max_size q"
  using assms mq_find_loop_frame [of now tenant "[]" q]
  by (auto simp: mq_find_next_visible_def split: prod.splits)

text \<open>What a scan does to the statuses: the claimed task becomes processing, expired ones expired.\<close>

definition scan_status :: "datetime \<Rightarrow> mem_queue \<Rightarrow> addr option \<Rightarrow> mem_queue \<Rightarrow> bool" where
  "scan_status now q r q' =
     ((\<forall>a. r = Some a \<longrightarrow> dget (mq_status q') (tp_task_id (mq_objs q a)) = Some TASK_PROCESSING) \<and>
      (\<forall>t. r \<noteq> None \<and> t = tp_task_id (mq_objs q (the r)) \<or>
        dget (mq_status q') t = dget (mq_status q) t \<and> dget (mq_results q') t = dget (mq_results q) t \<or>
        dget (mq_status q') t = Some TASK_EXPIRED \<and>
          (\<exists>it\<in>set (mq_heap q). item_tid q it = t \<and> task_is_expired now (mq_objs q (pi_task it)))))"

lemma scan_status_pop:
  assumes "scan_status now (q\<lparr>mq_heap := h\<rparr>) r q'" and "heappop item_lt (mq_heap q) = Some (item, h)"
  shows "scan_status now q r q'"
  using assms(1) by (auto simp: scan_status_def set_heappop [OF assms(2)])

lemma dget_results_expired: "t \<noteq> i \<Longrightarrow> dget (mq_results (mq_mark_expired now i q)) t = dget (mq_results q) t"
  by (simp add: mq_mark_expired_def Let_def split: option.split)

lemma scan_status_expire:
  assumes "scan_status now (mq_mark_expired now (item_tid q item) (q\<lparr>mq_heap := h\<rparr>)) r q'"
    and "heappop item_lt (mq_heap q) = Some (item, h)" and "task_is_expired now (mq_objs q (pi_task item))"
  shows "scan_status now q r q'"
proof -
  let ?i = "item_tid q item"
  note at = assms(1) [unfolded scan_status_def, THEN conjunct2, THEN spec]
  have "r \<noteq> None \<and> t = tp_task_id (mq_objs q (the r)) \<or>
        dget (mq_status q') t = dget (mq_status q) t \<and> dget (mq_results q') t = dget (mq_results q) t \<or>
        dget (mq_status q') t = Some TASK_EXPIRED \<and>
          (\<exists>it\<in>set (mq_heap q). item_tid q it = t \<and> task_is_expired now (mq_objs q (pi_task it)))" for t
  proof (cases "t = ?i")
    case True
    then show ?thesis
      using at [of t] assms(3) by (auto simp: set_heappop [OF assms(2)])
  next
    case False
    then have "dget (mq_results (mq_mark_expired now ?i (q\<lparr>mq_heap := h\<rparr>))) t = dget (mq_results q) t"
      by (simp add: dget_results_expired)
    with False show ?thesis
      using at [of t] by (auto simp: set_heappop [OF assms(2)])
  qed
  moreover have "\<forall>a. r = Some a \<longrightarrow> dget (mq_status q') (tp_task_id (mq_objs q a)) = Some TASK_PROCESSING"
    using assms(1) by (simp add: scan_status_def)
  ultimately show ?thesis unfolding scan_status_def by blast
qed

lemma mq_find_loop_status:
  assumes "mq_find_loop now tenant checked q = (r, c, q')"
  shows "scan_status now q r q'"
proof -
  let ?P = "\<lambda>(checked :: priority_item list) q r (c :: priority_item list) q'. scan_status now q r q'"
  show ?thesis
    using assms
  proof (rule mq_find_loop_rule [where P = ?P])
    fix q :: mem_queue and checked :: "priority_item list"
    show "?P checked q None checked q" by (simp add: scan_status_def)
  next
    fix q checked item h
    show "?P checked q (Some (pi_task item)) checked
      (q\<lparr>mq_heap := h, mq_status := dset (item_tid q item) TASK_PROCESSING (mq_status q)\<rparr>)"
      by (simp add: scan_status_def)
  qed (blast intro: scan_status_pop scan_status_expire)+
qed

lemma mq_find_next_visible_status:
  "mq_find_next_visible now tenant q = (r, q') \<Longrightarrow> scan_status now q r q'"
  using mq_find_loop_status [of now tenant "[]" q]
  by (auto simp: mq_find_next_visible_def scan_status_def split: prod.splits)

section \<open>The other operations keep the invariant\<close>

lemma mq_wf_enqueue:
  assumes wf: "mq_wf q S" and fresh: "\<not> din (tp_task_id (mq_objs q a)) (mq_tasks q)"
    and same: "mq_objs q' = mq_objs q" "mq_results q' = mq_results q"
      "mq_tasks q' = dset (tp_task_id (mq_objs q a)) a (mq_tasks q)"
      "mq_status q' = dset (tp_task_id (mq_objs q a)) TASK_PENDING (mq_status q)"
    and item: "pi_task it = a" "pi_priority it = task_priority_value (tp_priority (mq_objs q a))"
      "pi_created_at it = tp_created_at (mq_objs q a)"
  shows "mq_wf q' (insert it S)"
proof -
  let ?t = "tp_task_id (mq_objs q a)"
  have old: "item_ok q' y" if "y \<in> S" for y
  proof -
    have ok: "item_ok q y" using wf that by (simp add: mq_wf_def)
    then have "item_tid q y \<noteq> ?t" using fresh by (auto simp: item_ok_def Let_def din_def)
    with ok show ?thesis by (simp add: item_ok_def same)
  qed
  have new: "item_ok q' it" by (simp add: item_ok_def same item)
  have pend: "\<exists>y\<in>insert it S. item_tid q' y = t" if "is_pending q' t" for t
    using that wf by (auto simp: is_pending_def same item mq_wf_def split: if_splits)
  show ?thesis using wf old new pend unfolding mq_wf_def by (simp add: same)
qed

lemma mq_wf_retry:
  assumes wf: "mq_wf q S" and a: "dget (mq_tasks q) t = Some a"
    and same: "mq_objs q' = (mq_objs q)(a := (mq_objs q a)\<lparr>tp_retry_count := n\<rparr>)"
      "mq_results q' = mq_results q" "mq_tasks q' = mq_tasks q"
      "mq_status q' = dset t TASK_PENDING (mq_status q)"
    and item: "pi_task it = a" "pi_priority it = task_priority_value (tp_priority (mq_objs q a))"
      "pi_created_at it = tp_created_at (mq_objs q a)"
  shows "mq_wf q' (insert it S)"
proof -
  have tid: "tp_task_id (mq_objs q a) = t" using wf a by (simp add: mq_wf_def)
  have keep: "tp_task_id (mq_objs q' b) = tp_task_id (mq_objs q b)" for b by (simp add: same)
  have ok: "item_ok q' y = item_ok q y" for y by (simp add: item_ok_def same Let_def)
  have new: "item_ok q' it" by (simp add: item_ok_def same item tid a)
  have pend: "\<exists>y\<in>insert it S. item_tid q' y = s" if "is_pending q' s" for s
    using that wf tid by (auto simp: is_pending_def keep same(4) item mq_wf_def split: if_splits)
  have known: "din t (mq_tasks q)" using a by (simp add: din_def)
  have sync: "\<forall>s. din s (mq_status q') = din s (mq_tasks q')"
    using wf known by (auto simp: mq_wf_def same(3,4))
  show ?thesis using wf new pend sync unfolding mq_wf_def keep ok by (simp add: same(2-4))
qed

lemma mq_enqueue_inv [inv_intros]:
  assumes "mq_inv q" and "\<not> din (tp_task_id (mq_objs q a)) (mq_tasks q)"
  shows "mq_inv (snd (mq_enqueue now a delay q))"
  using assms
  by (auto simp: mq_inv_def mq_enqueue_def Let_def pq.heappush_heap intro!: mq_wf_enqueue)

lemma mq_find_inv [inv_intros]: "mq_inv q \<Longrightarrow> mq_inv (snd (mq_find_next_visible now tenant q))"
  by (metis mq_find_next_visible_inv prod.collapse)

lemma mq_dequeue_pass_inv [inv_intros]: "mq_inv q \<Longrightarrow> mq_inv (snd (mq_dequeue_pass now tenant deadline q))"
  using mq_find_inv [of q now tenant]
  by (auto simp: mq_dequeue_pass_def Let_def split: prod.split option.split)

lemma mq_inv_status:
  assumes "mq_inv q" and "din tid (mq_tasks q)" and "s \<noteq> TASK_PENDING"
    and "mq_objs q' = mq_objs q" "mq_tasks q' = mq_tasks q" "mq_status q' = dset tid s (mq_status q)"
    and "mq_heap q' = mq_heap q" "dict_ok (mq_results q')"
  shows "mq_inv q'"
  using assms mq_wf_status [of q "set (mq_heap q)" tid s q'] by (simp add: mq_inv_def)

lemma mq_inv_results: "mq_inv q \<Longrightarrow> dict_ok (mq_results q)"
  by (simp add: mq_inv_def mq_wf_def)

lemma mq_complete_inv [inv_intros]: "mq_inv q \<Longrightarrow> mq_inv (snd (mq_complete tid res q))"
  by (auto simp: mq_complete_def Let_def din_def mq_inv_results split: option.split
      intro!: mq_inv_status [where q = q and tid = tid and s = TASK_COMPLETED])

lemma mq_cancel_inv [inv_intros]: "mq_inv q \<Longrightarrow> mq_inv (snd (mq_cancel now tid q))"
  by (auto simp: mq_cancel_def Let_def din_def mq_inv_results split: option.split
      intro!: mq_inv_status [where q = q and tid = tid and s = TASK_CANCELLED])

lemma mq_mark_expired_inv [inv_intros]:
  "mq_inv q \<Longrightarrow> din tid (mq_tasks q) \<Longrightarrow> mq_inv (mq_mark_expired now tid q)"
  by (rule mq_inv_status [where q = q and tid = tid and s = TASK_EXPIRED])
    (simp_all add: dict_ok_results_expired mq_inv_results)

lemma mq_fail_inv [inv_intros]: "mq_inv q \<Longrightarrow> mq_inv (snd (mq_fail now tid code msg retry q))"
proof (cases "dget (mq_tasks q) tid")
  case (Some a)
  assume inv: "mq_inv q"
  show ?thesis
  proof (cases "retry \<and> task_can_retry (mq_objs q a)")
    case True
    have "mq_wf q (set (mq_heap q))" using inv by (simp add: mq_inv_def)
    with True Some inv show ?thesis
      by (auto simp: mq_fail_def Let_def mq_inv_def pq.heappush_heap intro!: mq_wf_retry [where q = q])
  next
    case False
    with inv Some show ?thesis
      by (auto simp: mq_fail_def Let_def din_def mq_inv_results
          intro!: mq_inv_status [where q = q and tid = tid and s = TASK_FAILED])
  qed
qed (simp add: mq_fail_def)

lemma mq_clear_loop_inv:
  "mq_inv q \<Longrightarrow> \<forall>(t, a)\<in>set ts. din t (mq_tasks q) \<Longrightarrow> mq_inv (snd (mq_clear_loop now ts (n, q)))"
  by (induction now ts "(n, q)" arbitrary: n q rule: mq_clear_loop.induct)
    (auto intro: mq_mark_expired_inv)

lemma mq_clear_expired_inv [inv_intros]: "mq_inv q \<Longrightarrow> mq_inv (snd (mq_clear_expired now q))"
  unfolding mq_clear_expired_def by (rule mq_clear_loop_inv) (force simp: din_iff_mem)+

lemma mq_shutdown_inv [inv_intros]: "mq_inv q \<Longrightarrow> mq_inv (mq_shutdown q)"
  by (simp add: mq_inv_def mq_shutdown_def mq_wf_def item_ok_def is_pending_def)

lemma mq_init_inv [inv_intros]: "mq_inv (mq_init objs n b m)"
  by (simp add: mq_inv_def mq_init_def mq_wf_def is_pending_def)

end
