(* ===== verification/Task_Queue_Life.thy ===== *)
theory Task_Queue_Life
  imports Task_Queue_Inv
begin

text \<open>
  The in-memory queue as a state machine: the steps its callers can make it take, with the
  discipline the worker follows (only a task that is being processed is completed or failed), and
  what then holds in every reachable state: one heap item per pending task, exact tenant and agent
  indexes, stable outcomes.
\<close>

inductive mq_step :: "mem_queue \<Rightarrow> mem_queue \<Rightarrow> bool" where
  create: "a \<notin> set (dvalues (mq_tasks q)) \<Longrightarrow> mq_step q (q\<lparr>mq_objs := (mq_objs q)(a := t)\<rparr>)"
| enqueue: "\<not> din (tp_task_id (mq_objs q a)) (mq_tasks q) \<Longrightarrow> mq_step q (snd (mq_enqueue now a delay q))"
| dequeue: "mq_step q (snd (mq_dequeue_pass now tenant deadline q))"
| complete: "dget (mq_status q) tid = Some TASK_PROCESSING \<Longrightarrow> mq_step q (snd (mq_complete tid res q))"
| fail: "dget (mq_status q) tid = Some TASK_PROCESSING \<Longrightarrow>
    mq_step q (snd (mq_fail now tid code msg retry q))"
| cancel: "mq_step q (snd (mq_cancel now tid q))"
| clear: "mq_step q (snd (mq_clear_expired now q))"
| shutdown: "mq_step q (mq_shutdown q)"

inductive mq_reachable :: "mem_queue \<Rightarrow> bool" where
  init: "mq_reachable (mq_init objs n b m)"
| step: "mq_reachable q \<Longrightarrow> mq_step q q' \<Longrightarrow> mq_reachable q'"

section \<open>Life of a task\<close>

definition items_of :: "mem_queue \<Rightarrow> priority_item multiset \<Rightarrow> uuid \<Rightarrow> nat" where
  "items_of q M t = size {#it \<in># M. item_tid q it = t#}"

definition live :: "task_status option \<Rightarrow> bool" where
  "live s = (s = Some TASK_PENDING \<or> s = Some TASK_PROCESSING)"

definition stale :: "task_status option \<Rightarrow> bool" where
  "stale s = (s = Some TASK_CANCELLED \<or> s = Some TASK_EXPIRED)"

definition items_exact :: "mem_queue \<Rightarrow> priority_item multiset \<Rightarrow> bool" where
  "items_exact q M =
     (\<forall>t. items_of q M t = (if is_pending q t then 1 else 0) \<or>
          items_of q M t = 1 \<and> stale (dget (mq_status q) t))"

definition index_exact :: "mem_queue \<Rightarrow> bool" where
  "index_exact q =
     ((\<forall>ten t. t \<in> mq_by_tenant q ten \<longleftrightarrow> live (dget (mq_status q) t) \<and>
         (\<exists>a. dget (mq_tasks q) t = Some a \<and> tp_tenant_id (mq_objs q a) = ten)) \<and>
      (\<forall>ag t. t \<in> mq_by_agent q ag \<longleftrightarrow> live (dget (mq_status q) t) \<and>
         (\<exists>a. dget (mq_tasks q) t = Some a \<and> tp_target_agent_id (mq_objs q a) = Some ag)))"

definition mq_life :: "mem_queue \<Rightarrow> bool" where
  "mq_life q = (mq_inv q \<and> items_exact q (mset (mq_heap q)) \<and> index_exact q)"

lemma items_of_add [simp]:
  "items_of q (add_mset it M) t = items_of q M t + (if item_tid q it = t then 1 else 0)"
  by (simp add: items_of_def)

lemma items_of_cong: "mq_objs q' = mq_objs q \<Longrightarrow> items_of q' M t = items_of q M t"
  by (simp add: items_of_def)

lemma items_of_pos: "it \<in># M \<Longrightarrow> 0 < items_of q M (item_tid q it)"
  by (auto simp: items_of_def size_eq_0_iff_empty simp flip: neq0_conv)

lemma items_exact_heap [simp]: "items_exact (q\<lparr>mq_heap := h\<rparr>) M = items_exact q M"
  by (simp add: items_exact_def items_of_cong [of "q\<lparr>mq_heap := h\<rparr>" q])

lemma index_exact_heap [simp]: "index_exact (q\<lparr>mq_heap := h\<rparr>) = index_exact q"
  by (simp add: index_exact_def)

lemma live_simps [simp]:
  "live (Some TASK_PENDING)" "live (Some TASK_PROCESSING)" "\<not> live (Some TASK_COMPLETED)"
  "\<not> live (Some TASK_FAILED)" "\<not> live (Some TASK_CANCELLED)" "\<not> live (Some TASK_EXPIRED)" "\<not> live None"
  by (simp_all add: live_def)

lemma stale_simps [simp]:
  "\<not> stale (Some TASK_PENDING)" "\<not> stale (Some TASK_PROCESSING)" "\<not> stale (Some TASK_COMPLETED)"
  "\<not> stale (Some TASK_FAILED)" "stale (Some TASK_CANCELLED)" "stale (Some TASK_EXPIRED)" "\<not> stale None"
  by (simp_all add: stale_def)

text \<open>Dropping the item of a task that is not pending, and ending a task.\<close>

lemma items_exact_drop:
  "items_exact q (add_mset it M) \<Longrightarrow> \<not> is_pending q (item_tid q it) \<Longrightarrow> items_exact q M"
  unfolding items_exact_def by (erule all_forward) (auto split: if_splits)

lemma items_exact_status:
  assumes "items_exact q M" and "mq_objs q' = mq_objs q" "mq_status q' = dset tid s (mq_status q)"
    and "stale (Some s) \<and> s \<noteq> TASK_PENDING \<or> items_of q M tid = (if s = TASK_PENDING then 1 else 0)"
    and "items_of q M tid \<le> 1"
  shows "items_exact q' M"
proof -
  have i: "items_of q' M t = items_of q M t" for t by (rule items_of_cong) (fact assms(2))
  have "items_of q M t = (if is_pending q' t then 1 else 0) \<or>
      items_of q M t = 1 \<and> stale (dget (mq_status q') t)" for t
  proof (cases "t = tid")
    case True
    then show ?thesis using assms(3-5) by (auto simp: is_pending_def)
  next
    case False
    then show ?thesis using assms(1) by (simp add: items_exact_def is_pending_def assms(3))
  qed
  then show ?thesis by (simp add: items_exact_def i)
qed

lemma items_exact_le: "items_exact q M \<Longrightarrow> items_of q M t \<le> 1"
  unfolding items_exact_def by (drule spec [of _ t]) (auto split: if_splits)

text \<open>Ending a task takes it out of both indexes.\<close>

lemma index_exact_end:
  assumes ix: "index_exact q" and a: "dget (mq_tasks q) tid = Some a" and s: "\<not> live (Some s)"
    and same: "mq_objs q' = mq_objs q" "mq_tasks q' = mq_tasks q" "mq_status q' = dset tid s (mq_status q)"
      "mq_by_tenant q' = index_discard (mq_by_tenant q) (tp_tenant_id (mq_objs q a)) tid"
      "mq_by_agent q' = (case tp_target_agent_id (mq_objs q a) of None \<Rightarrow> mq_by_agent q
         | Some ag \<Rightarrow> index_discard (mq_by_agent q) ag tid)"
  shows "index_exact q'"
proof -
  have "t \<in> mq_by_tenant q' ten \<longleftrightarrow> t \<noteq> tid \<and> t \<in> mq_by_tenant q ten" for t ten
    using ix a by (auto simp: same index_discard_def index_exact_def)
  moreover have "t \<in> mq_by_agent q' ag \<longleftrightarrow> t \<noteq> tid \<and> t \<in> mq_by_agent q ag" for t ag
    using ix a by (auto simp: same index_discard_def index_exact_def split: option.split)
  ultimately show ?thesis
    using ix s unfolding index_exact_def by (simp add: same(1-3))
qed

lemma index_exact_live:
  assumes "index_exact q" and "live (dget (mq_status q) tid)" and "live (Some s)"
    and "mq_tasks q' = mq_tasks q" "mq_status q' = dset tid s (mq_status q)"
      "mq_by_tenant q' = mq_by_tenant q" "mq_by_agent q' = mq_by_agent q"
    and "\<And>a. tp_tenant_id (mq_objs q' a) = tp_tenant_id (mq_objs q a)"
      "\<And>a. tp_target_agent_id (mq_objs q' a) = tp_target_agent_id (mq_objs q a)"
  shows "index_exact q'"
  using assms unfolding index_exact_def by simp

section \<open>The scan\<close>

definition loop_life :: "mem_queue \<Rightarrow> priority_item list \<Rightarrow> bool" where
  "loop_life q checked =
     (loop_ok q checked \<and> items_exact q (mset (mq_heap q) + mset checked) \<and> index_exact q)"

lemma loop_life_drop:
  assumes life: "loop_life q checked" and pop: "heappop item_lt (mq_heap q) = Some (item, h)"
    and un: "\<not> din (item_tid q item) (mq_tasks q) \<or> \<not> now < pi_visible_at item \<and>
        \<not> task_is_expired now (mq_objs q (pi_task item)) \<and> \<not> is_pending q (item_tid q item)"
  shows "loop_life (q\<lparr>mq_heap := h\<rparr>) checked"
proof -
  have ok: "loop_ok q checked" using life by (simp add: loop_life_def)
  have "items_exact q (add_mset item (mset h + mset checked))"
    using life by (simp add: loop_life_def mset_heappop [OF pop])
  then have "items_exact q (mset h + mset checked)"
    using loop_ok_drop(2) [OF ok pop un] by (rule items_exact_drop)
  then show ?thesis using life loop_ok_drop(1) [OF ok pop un] by (simp add: loop_life_def)
qed

lemma loop_life_keep:
  assumes "loop_life q checked" and pop: "heappop item_lt (mq_heap q) = Some (item, h)"
  shows "loop_life (q\<lparr>mq_heap := h\<rparr>) (checked @ [item])"
  using assms(1) loop_ok_keep [OF _ pop] by (simp add: loop_life_def mset_heappop [OF pop])

lemma index_exact_expired:
  assumes "index_exact q" and "dget (mq_tasks q) tid = Some a"
  shows "index_exact (mq_mark_expired now tid q)"
  using assms(1,2)
  by (rule index_exact_end [where s = TASK_EXPIRED])
    (simp_all add: mq_mark_expired_def Let_def assms(2) split: option.split)

lemma loop_life_expire:
  assumes life: "loop_life q checked" and pop: "heappop item_lt (mq_heap q) = Some (item, h)"
    and known: "din (item_tid q item) (mq_tasks q)"
  shows "loop_life (mq_mark_expired now (item_tid q item) (q\<lparr>mq_heap := h\<rparr>)) checked"
    (is "loop_life ?q checked")
proof -
  let ?M = "mset h + mset checked"
  have ok: "loop_ok q checked" and ix: "index_exact q"
    and it: "items_exact q (add_mset item ?M)"
    using life by (simp_all add: loop_life_def mset_heappop [OF pop])
  have "items_exact ?q (add_mset item ?M)"
    using it by (rule items_exact_status [where tid = "item_tid q item" and s = TASK_EXPIRED])
      (simp_all del: items_of_add One_nat_def add: items_exact_le [OF it])
  then have "items_exact ?q ?M" by (rule items_exact_drop) (simp add: is_pending_def)
  moreover obtain a where "dget (mq_tasks q) (item_tid q item) = Some a" using known by (auto simp: din_def)
  then have "index_exact ?q" using ix by (intro index_exact_expired [of _ _ a]) simp_all
  moreover have "mq_heap ?q = h" by simp
  ultimately show ?thesis using loop_ok_expire [OF ok pop known] by (simp add: loop_life_def)
qed

lemma loop_life_claim:
  assumes life: "loop_life q checked" and pop: "heappop item_lt (mq_heap q) = Some (item, h)"
    and known: "din (item_tid q item) (mq_tasks q)" and pend: "is_pending q (item_tid q item)"
  shows "loop_life (q\<lparr>mq_heap := h, mq_status := dset (item_tid q item) TASK_PROCESSING (mq_status q)\<rparr>) checked"
    (is "loop_life ?q checked")
proof -
  let ?M = "mset h + mset checked" and ?i = "item_tid q item"
  have ok: "loop_ok q checked" and ix: "index_exact q" and it: "items_exact q (add_mset item ?M)"
    using life by (simp_all add: loop_life_def mset_heappop [OF pop])
  have st: "dget (mq_status q) ?i = Some TASK_PENDING" using pend by (simp add: is_pending_def)
  have zero: "items_of q ?M ?i = 0"
    using it st by (auto simp: items_exact_def is_pending_def dest!: spec [of _ ?i])
  have same: "items_of ?q ?M t = items_of q ?M t" for t by (rule items_of_cong) simp
  have "items_of ?q ?M t = (if is_pending ?q t then 1 else 0) \<or>
      items_of ?q ?M t = 1 \<and> stale (dget (mq_status ?q) t)" for t
  proof (cases "t = ?i")
    case True
    then show ?thesis using zero by (simp add: same is_pending_def)
  next
    case False
    then show ?thesis using it
      by (auto simp: same is_pending_def items_exact_def dest!: spec [of _ t])
  qed
  then have "items_exact ?q ?M" by (simp add: items_exact_def)
  moreover have "index_exact ?q"
    using ix by (rule index_exact_live [where s = TASK_PROCESSING]) (simp_all add: st)
  ultimately show ?thesis using loop_ok_claim [OF ok pop known] by (simp add: loop_life_def)
qed

lemma mq_find_loop_life:
  assumes "mq_find_loop now tenant checked q = (r, c, q')" and "loop_life q checked"
  shows "loop_life q' c"
proof -
  let ?P = "\<lambda>checked q (r :: addr option) c q'. loop_life q checked \<longrightarrow> loop_life q' c"
  have "?P checked q r c q'"
    using assms(1)
    by (rule mq_find_loop_rule [where P = ?P])
      (simp, blast dest: loop_life_drop, blast dest: loop_life_keep, blast dest: loop_life_expire,
       auto dest: loop_life_claim simp: mq_eligible_def Let_def)
  with assms(2) show ?thesis by simp
qed

lemma mset_foldl_heappush: "mset (foldl (heappush item_lt) h c) = mset h + mset c"
  by (induction c arbitrary: h) auto

lemma mq_find_next_visible_life:
  assumes "mq_life q" shows "mq_life (snd (mq_find_next_visible now tenant q))"
proof -
  obtain r c q1 where loop: "mq_find_loop now tenant [] q = (r, c, q1)" by (cases "mq_find_loop now tenant [] q")
  have "loop_life q []" using assms by (simp add: mq_life_def loop_life_def loop_ok_def mq_inv_def)
  then have "loop_life q1 c" using mq_find_loop_life [OF loop] by simp
  then show ?thesis using mq_find_inv [of q now tenant] assms
    by (simp add: mq_life_def loop_life_def mq_find_next_visible_def loop mset_foldl_heappush)
qed

section \<open>The other steps\<close>

lemma mq_inv_known: "mq_inv q \<Longrightarrow> din t (mq_status q) = din t (mq_tasks q)"
  by (simp add: mq_inv_def mq_wf_def)

lemma mq_inv_fresh: "mq_inv q \<Longrightarrow> \<not> din t (mq_tasks q) \<Longrightarrow> dget (mq_status q) t = None"
  using mq_inv_known [of q t] by (simp add: din_def)

lemma mq_inv_item: "mq_inv q \<Longrightarrow> it \<in> set (mq_heap q) \<Longrightarrow> dget (mq_tasks q) (item_tid q it) = Some (pi_task it)"
  unfolding mq_inv_def by (blast intro: mq_wf_item)

lemma items_exact_none:
  "items_exact q M \<Longrightarrow> \<not> is_pending q t \<Longrightarrow> \<not> stale (dget (mq_status q) t) \<Longrightarrow> items_of q M t = 0"
  unfolding items_exact_def by (drule spec [of _ t]) simp

lemma items_exact_processing:
  "items_exact q M \<Longrightarrow> dget (mq_status q) t = Some TASK_PROCESSING \<Longrightarrow> items_of q M t = 0"
  unfolding items_exact_def by (drule spec [of _ t]) (simp add: is_pending_def)

lemma mq_life_end:
  assumes life: "mq_life q" and a: "dget (mq_tasks q) tid = Some a" and s: "\<not> live (Some s)"
    and st: "stale (Some s) \<or> dget (mq_status q) tid = Some TASK_PROCESSING"
    and same: "mq_objs q' = mq_objs q" "mq_tasks q' = mq_tasks q" "mq_heap q' = mq_heap q"
      "mq_status q' = dset tid s (mq_status q)"
      "mq_by_tenant q' = index_discard (mq_by_tenant q) (tp_tenant_id (mq_objs q a)) tid"
      "mq_by_agent q' = (case tp_target_agent_id (mq_objs q a) of None \<Rightarrow> mq_by_agent q
         | Some ag \<Rightarrow> index_discard (mq_by_agent q) ag tid)"
    and res: "dict_ok (mq_results q')"
  shows "mq_life q'"
proof -
  have it: "items_exact q (mset (mq_heap q))" and ix: "index_exact q" and inv: "mq_inv q"
    using life by (simp_all add: mq_life_def)
  have pend: "s \<noteq> TASK_PENDING" using s by auto
  have "mq_inv q'"
    using inv _ pend same(1,2,4,3) res by (rule mq_inv_status) (simp add: din_def a)
  moreover have "items_exact q' (mset (mq_heap q'))"
    unfolding same(3) using it same(1,4)
    by (rule items_exact_status) (use st pend items_exact_processing [OF it] items_exact_le [OF it] in auto)
  moreover have "index_exact q'" using ix a s same(1,2,4-6) by (rule index_exact_end)
  ultimately show ?thesis by (simp add: mq_life_def)
qed

lemma mq_life_inv: "mq_life q \<Longrightarrow> mq_inv q"
  by (simp add: mq_life_def)

lemma mq_life_expire:
  assumes "mq_life q" and "dget (mq_tasks q) tid = Some a" shows "mq_life (mq_mark_expired now tid q)"
  using assms
  by (rule mq_life_end [where s = TASK_EXPIRED])
    (auto simp: dict_ok_results_expired mq_inv_results mq_life_inv assms mq_mark_expired_def Let_def
      split: option.split)

lemma mq_life_complete:
  assumes "mq_life q" and "dget (mq_status q) tid = Some TASK_PROCESSING"
  shows "mq_life (snd (mq_complete tid res q))"
proof (cases "dget (mq_tasks q) tid")
  case (Some a)
  show ?thesis
    using assms(1) Some
    by (rule mq_life_end [where s = TASK_COMPLETED])
      (simp_all add: mq_complete_def Let_def Some assms(2) mq_inv_results mq_life_inv [OF assms(1)] split: option.split)
qed (simp add: mq_complete_def assms)

lemma mq_life_cancel:
  assumes "mq_life q" shows "mq_life (snd (mq_cancel now tid q))"
proof (cases "dget (mq_tasks q) tid")
  case (Some a)
  show ?thesis
  proof (cases "dget (mq_status q) tid = Some TASK_PENDING")
    case True
    show ?thesis
      using assms(1) Some
      by (rule mq_life_end [where s = TASK_CANCELLED])
        (simp_all add: mq_cancel_def Let_def Some True mq_inv_results mq_life_inv [OF assms(1)] split: option.split)
  qed (simp add: mq_cancel_def Some assms)
qed (simp add: mq_cancel_def assms)

lemma mq_life_retry:
  assumes life: "mq_life q" and a: "dget (mq_tasks q) t = Some a"
    and st: "dget (mq_status q) t = Some TASK_PROCESSING"
    and inv: "mq_inv q'"
    and same: "mq_objs q' = (mq_objs q)(a := (mq_objs q a)\<lparr>tp_retry_count := n\<rparr>)"
      "mq_tasks q' = mq_tasks q" "mq_status q' = dset t TASK_PENDING (mq_status q)"
      "mq_by_tenant q' = mq_by_tenant q" "mq_by_agent q' = mq_by_agent q"
      "mset (mq_heap q') = add_mset it (mset (mq_heap q))" and item: "pi_task it = a"
  shows "mq_life q'"
proof -
  have it: "items_exact q (mset (mq_heap q))" and ix: "index_exact q"
    using life by (simp_all add: mq_life_def)
  have tid: "tp_task_id (mq_objs q a) = t" using life a by (simp add: mq_life_def mq_inv_def mq_wf_def)
  have keep: "tp_task_id (mq_objs q' b) = tp_task_id (mq_objs q b)" for b by (simp add: same)
  have new: "item_tid q' it = t" by (simp add: same item tid)
  have items: "items_of q' M u = items_of q M u" for M u by (simp add: items_of_def keep)
  have "items_of q' (mset (mq_heap q')) u = (if is_pending q' u then 1 else 0) \<or>
      items_of q' (mset (mq_heap q')) u = 1 \<and> stale (dget (mq_status q') u)" for u
    using it items_exact_processing [OF it st] unfolding items_exact_def
    by (drule_tac spec [of _ u]) (auto simp: items same(3,6) new is_pending_def split: if_split_asm)
  then have "items_exact q' (mset (mq_heap q'))" by (simp add: items_exact_def)
  moreover have "index_exact q'"
    using ix by (rule index_exact_live [where s = TASK_PENDING and tid = t]) (simp_all add: st same)
  ultimately show ?thesis using inv by (simp add: mq_life_def)
qed

lemma mq_life_fail:
  assumes "mq_life q" and "dget (mq_status q) tid = Some TASK_PROCESSING"
  shows "mq_life (snd (mq_fail now tid code msg retry q))"
proof (cases "dget (mq_tasks q) tid")
  case (Some a)
  show ?thesis
  proof (cases "retry \<and> task_can_retry (mq_objs q a)")
    case True
    show ?thesis
      using assms(1) Some assms(2) mq_fail_inv [OF mq_life_inv [OF assms(1)]]
      by (rule mq_life_retry) (simp_all add: mq_fail_def Let_def Some True, simp)
  next
    case False
    then have no: "(retry \<and> task_can_retry (mq_objs q a)) = False" by blast
    show ?thesis
      using assms(1) Some
      by (rule mq_life_end [where s = TASK_FAILED])
        (simp_all add: mq_fail_def Let_def Some no assms(2) mq_inv_results
          mq_life_inv [OF assms(1)] split: option.split)
  qed
qed (simp add: mq_fail_def assms)

lemma mq_life_clear_loop:
  "mq_life q \<Longrightarrow> \<forall>(t, a)\<in>set ts. din t (mq_tasks q) \<Longrightarrow> mq_life (snd (mq_clear_loop now ts (n, q)))"
  by (induction now ts "(n, q)" arbitrary: n q rule: mq_clear_loop.induct)
    (auto intro: mq_life_expire simp: din_def)

lemma mq_life_clear: "mq_life q \<Longrightarrow> mq_life (snd (mq_clear_expired now q))"
  unfolding mq_clear_expired_def by (rule mq_life_clear_loop) (force simp: din_iff_mem)+

lemma mq_life_shutdown: "mq_life q \<Longrightarrow> mq_life (mq_shutdown q)"
  using mq_shutdown_inv [of q]
  by (simp add: mq_life_def mq_shutdown_def items_exact_def items_of_def is_pending_def index_exact_def)

lemma mq_life_dequeue_pass: "mq_life q \<Longrightarrow> mq_life (snd (mq_dequeue_pass now tenant deadline q))"
  using mq_find_next_visible_life [of q now tenant]
  by (auto simp: mq_dequeue_pass_def Let_def split: prod.split option.split)

lemma mq_life_enqueue:
  assumes life: "mq_life q" and fresh: "\<not> din (tp_task_id (mq_objs q a)) (mq_tasks q)"
  shows "mq_life (snd (mq_enqueue now a delay q))" (is "mq_life ?q")
proof (cases "mq_closed q \<or> mq_max_size q \<le> int (length (mq_tasks q))")
  case True
  then show ?thesis using life by (auto simp: mq_enqueue_def)
next
  case False
  let ?t = "tp_task_id (mq_objs q a)"
  have it: "items_exact q (mset (mq_heap q))" and ix: "index_exact q" and inv: "mq_inv q"
    using life by (simp_all add: mq_life_def)
  have no: "dget (mq_status q) ?t = None" using inv fresh by (rule mq_inv_fresh)
  have none: "dget (mq_tasks q) ?t = None" using fresh by (simp add: din_def)
  have zero: "items_of q (mset (mq_heap q)) ?t = 0"
    using it no unfolding items_exact_def by (auto simp: is_pending_def dest!: spec [of _ ?t])
  have same: "mq_objs ?q = mq_objs q" "mq_status ?q = dset ?t TASK_PENDING (mq_status q)"
      "mq_tasks ?q = dset ?t a (mq_tasks q)"
      "mq_by_tenant ?q = index_add (mq_by_tenant q) (tp_tenant_id (mq_objs q a)) ?t"
      "mq_by_agent ?q = (case tp_target_agent_id (mq_objs q a) of None \<Rightarrow> mq_by_agent q
         | Some ag \<Rightarrow> index_add (mq_by_agent q) ag ?t)"
    using False by (auto simp: mq_enqueue_def Let_def)
  obtain it where heap: "mset (mq_heap ?q) = add_mset it (mset (mq_heap q))" "pi_task it = a"
    using False by (auto simp: mq_enqueue_def Let_def)
  have items: "items_of ?q M u = items_of q M u" for M u by (rule items_of_cong) (fact same(1))
  have "items_of ?q (mset (mq_heap ?q)) u = (if is_pending ?q u then 1 else 0) \<or>
      items_of ?q (mset (mq_heap ?q)) u = 1 \<and> stale (dget (mq_status ?q) u)" for u
    using it zero unfolding items_exact_def
    by (drule_tac spec [of _ u]) (auto simp: heap items same is_pending_def split: if_split_asm)
  then have "items_exact ?q (mset (mq_heap ?q))" by (simp add: items_exact_def)
  moreover have "index_exact ?q"
    using ix no none unfolding index_exact_def same
    by (auto simp: index_add_def split: option.split)
  ultimately show ?thesis using mq_enqueue_inv [OF inv fresh] by (simp add: mq_life_def)
qed

lemma mq_inv_create:
  assumes inv: "mq_inv q" and new: "a \<notin> set (dvalues (mq_tasks q))"
  shows "mq_inv (q\<lparr>mq_objs := (mq_objs q)(a := t)\<rparr>)" (is "mq_inv ?q")
    and "dget (mq_tasks q) u = Some b \<Longrightarrow> b \<noteq> a" and "it \<in> set (mq_heap q) \<Longrightarrow> pi_task it \<noteq> a"
proof -
  show old: "b \<noteq> a" if "dget (mq_tasks q) u = Some b" for b u
    using that new dget_in_values by metis
  show reg: "pi_task it \<noteq> a" if "it \<in> set (mq_heap q)" for it
    using mq_inv_item [OF inv that] by (rule old)
  have ok: "item_ok ?q it" if "it \<in> set (mq_heap q)" for it
    using inv that reg [OF that] by (simp add: mq_inv_def mq_wf_def item_ok_def)
  have pend: "is_pending ?q u = is_pending q u" for u by (simp add: is_pending_def)
  show "mq_inv ?q"
    using inv ok old reg unfolding mq_inv_def mq_wf_def pend by auto
qed

lemma mq_life_create:
  assumes life: "mq_life q" and new: "a \<notin> set (dvalues (mq_tasks q))"
  shows "mq_life (q\<lparr>mq_objs := (mq_objs q)(a := t)\<rparr>)" (is "mq_life ?q")
proof -
  have inv: "mq_inv q" using life by (simp add: mq_life_def)
  note created = mq_inv_create [OF inv new]
  have "items_of ?q (mset (mq_heap q)) u = items_of q (mset (mq_heap q)) u" for u
    unfolding items_of_def by (rule arg_cong [where f = size], rule filter_mset_cong) (simp_all add: created(3))
  moreover have "index_exact ?q" using life created(2) by (auto simp: mq_life_def index_exact_def)
  ultimately show ?thesis using life created(1) by (simp add: mq_life_def items_exact_def is_pending_def)
qed

lemma mq_life_init: "mq_life (mq_init objs n b m)"
  using mq_init_inv [of objs n b m]
  by (simp add: mq_life_def mq_init_def items_exact_def items_of_def is_pending_def index_exact_def)

lemma mq_step_life: "mq_step q q' \<Longrightarrow> mq_life q \<Longrightarrow> mq_life q'"
  by (induction rule: mq_step.induct)
    (blast intro: mq_life_create mq_life_enqueue mq_life_dequeue_pass mq_life_complete mq_life_fail
      mq_life_cancel mq_life_clear mq_life_shutdown)+

lemma mq_reachable_life: "mq_reachable q \<Longrightarrow> mq_life q"
  by (induction rule: mq_reachable.induct) (blast intro: mq_life_init mq_step_life)+

section \<open>Outcomes are stable\<close>

definition settled :: "mem_queue \<Rightarrow> uuid \<Rightarrow> bool" where
  "settled q t = (dget (mq_status q) t = Some TASK_COMPLETED \<or> dget (mq_status q) t = Some TASK_FAILED)"

lemma scan_keeps_settled:
  assumes life: "mq_life q" and settled: "settled q t"
    and find: "mq_find_next_visible now tenant q = (r, q')"
  shows "dget (mq_status q') t = dget (mq_status q) t \<and> dget (mq_results q') t = dget (mq_results q) t"
proof -
  have zero: "items_of q (mset (mq_heap q)) t = 0"
    using life settled by (auto simp: mq_life_def settled_def is_pending_def intro: items_exact_none)
  have none: "item_tid q it \<noteq> t" if "it \<in> set (mq_heap q)" for it
    using items_of_pos [of it "mset (mq_heap q)" q] that zero by auto
  have best: "mq_best now tenant q r" using find life by (simp add: mq_find_next_visible_best mq_life_def)
  have "t \<noteq> tp_task_id (mq_objs q a)" if "r = Some a" for a
    using best none that by (auto simp: mq_best_def)
  then show ?thesis
    using mq_find_next_visible_status [OF find, unfolded scan_status_def, THEN conjunct2, THEN spec, of t] none
    by fastforce
qed

lemma mq_step_keeps_settled:
  assumes "mq_step q q'" and "mq_life q" and "settled q t"
  shows "dget (mq_status q') t = dget (mq_status q) t \<and> dget (mq_results q') t = dget (mq_results q) t"
  using assms
proof cases
  case (enqueue a now delay)
  have "dget (mq_status q) (tp_task_id (mq_objs q a)) = None"
    using enqueue assms(2) by (simp add: mq_life_def mq_inv_fresh)
  then show ?thesis using enqueue assms(3) by (auto simp: mq_enqueue_def Let_def settled_def)
next
  case (dequeue now tenant deadline)
  then show ?thesis
    using scan_keeps_settled [OF assms(2,3), of now tenant]
    by (auto simp: mq_dequeue_pass_def split: prod.split option.split)
next
  case (complete tid res)
  then show ?thesis using assms(3) by (auto simp: mq_complete_def Let_def settled_def split: option.split)
next
  case (fail tid now code msg retry)
  then show ?thesis using assms(3) by (auto simp: mq_fail_def Let_def settled_def split: option.split)
next
  case (cancel now tid)
  then show ?thesis using assms(3) by (auto simp: mq_cancel_def Let_def settled_def split: option.split)
next
  case (clear now)
  have "dget (mq_status (snd (mq_clear_loop now ts (n, p)))) t = dget (mq_status p) t \<and>
    dget (mq_results (snd (mq_clear_loop now ts (n, p)))) t = dget (mq_results p) t"
    if "settled p t" for ts n p
    using that
  proof (induction now ts "(n, p)" arbitrary: n p rule: mq_clear_loop.induct)
    case (2 now tid a rest n p)
    then have ne: "t \<noteq> tid" if "dget (mq_status p) tid = Some TASK_PENDING"
      using that by (auto simp: settled_def)
    show ?case using 2 ne by (auto simp: settled_def dget_results_expired [OF ne])
  qed simp
  then show ?thesis using clear assms(3) by (simp add: mq_clear_expired_def)
qed (simp_all add: mq_shutdown_def)

end
