(* ===== verification/Task_Queue_Props.thy ===== *)
theory Task_Queue_Props
  imports Task_Queue_Life
begin

text \<open>
  The properties of the in-memory task queue, each over the states its callers can reach, the outcome of a task
  under calls without discipline (\<open>other_step\<close>), and the queue as an instance of the contract \<open>task_queue\<close>.
\<close>

section \<open>Lemmas\<close>

lemma mq_step_tasks:
  assumes "mq_step q q'"
  shows "length (mq_tasks q) \<le> length (mq_tasks q')" "mq_max_size q' = mq_max_size q"
proof -
  have cl: "mq_tasks (snd (mq_clear_loop now ts (n, p))) = mq_tasks p \<and>
      mq_max_size (snd (mq_clear_loop now ts (n, p))) = mq_max_size p" for now ts n p
    by (induction now ts "(n, p)" arbitrary: n p rule: mq_clear_loop.induct) auto
  have fd: "mq_tasks (snd (mq_find_next_visible now tn q)) = mq_tasks q \<and>
      mq_max_size (snd (mq_find_next_visible now tn q)) = mq_max_size q" for now tn
    using mq_find_next_visible_frame [of now tn q] by (cases "mq_find_next_visible now tn q") auto
  have "length (mq_tasks q) \<le> length (mq_tasks q') \<and> mq_max_size q' = mq_max_size q"
    using assms
  proof cases
    case (dequeue now tenant deadline)
    then show ?thesis using fd [of now tenant]
      by (auto simp: mq_dequeue_pass_def split: prod.split option.split)
  qed (auto simp: mq_enqueue_def mq_complete_def mq_fail_def mq_cancel_def mq_clear_expired_def cl
      mq_shutdown_def Let_def length_dset_le split: option.split)
  then show "length (mq_tasks q) \<le> length (mq_tasks q')" "mq_max_size q' = mq_max_size q" by simp_all
qed

lemma mq_step_capacity:
  assumes "mq_step q q'" and "int (length (mq_tasks q)) \<le> max 0 (mq_max_size q)"
  shows "int (length (mq_tasks q')) \<le> max 0 (mq_max_size q')"
proof -
  have cl: "mq_tasks (snd (mq_clear_loop now ts (n, p))) = mq_tasks p" for now ts n p
    by (induction now ts "(n, p)" arbitrary: n p rule: mq_clear_loop.induct) auto
  have fd: "mq_tasks (snd (mq_find_next_visible now tn q)) = mq_tasks q" for now tn
    using mq_find_next_visible_frame [of now tn q] by (cases "mq_find_next_visible now tn q") auto
  have "int (length (mq_tasks q')) \<le> max 0 (mq_max_size q)"
    using assms(1)
  proof cases
    case (dequeue now tenant deadline)
    then show ?thesis using fd [of now tenant] assms(2)
      by (auto simp: mq_dequeue_pass_def split: prod.split option.split)
  qed (use assms(2) in \<open>auto simp: mq_enqueue_def mq_complete_def mq_fail_def mq_cancel_def
      mq_clear_expired_def cl mq_shutdown_def Let_def length_dset split: option.split\<close>)
  then show ?thesis using mq_step_tasks(2) [OF assms(1)] by simp
qed

lemma mq_reachable_inv: "mq_reachable q \<Longrightarrow> mq_inv q"
  by (simp add: mq_reachable_life mq_life_inv)

lemma mq_clear_loop_spec:
  assumes "distinct (map fst ts)" and "mq_clear_loop now ts (n, q) = (n', q')"
  shows "n' = n + int (length (filter (\<lambda>(t, a). is_pending q t \<and> task_is_expired now (mq_objs q a)) ts)) \<and>
    (\<forall>t. dget (mq_status q') t =
      (if \<exists>a. (t, a) \<in> set ts \<and> is_pending q t \<and> task_is_expired now (mq_objs q a)
       then Some TASK_EXPIRED else dget (mq_status q) t)) \<and>
    mq_tasks q' = mq_tasks q \<and> mq_objs q' = mq_objs q \<and> mq_heap q' = mq_heap q"
  using assms
proof (induction now ts "(n, q)" arbitrary: n q rule: mq_clear_loop.induct)
  case (2 now tid a rest n q)
  show ?case
  proof (cases "dget (mq_status q) tid = Some TASK_PENDING \<and> task_is_expired now (mq_objs q a)")
    case True
    let ?q = "mq_mark_expired now tid q"
    have pend: "is_pending ?q t = is_pending q t" if "t \<noteq> tid" for t
      using that by (simp add: is_pending_def)
    have tid: "tid \<notin> fst ` set rest" using 2(3) by simp
    have same: "filter (\<lambda>(t, b). is_pending ?q t \<and> task_is_expired now (mq_objs q b)) rest =
        filter (\<lambda>(t, b). is_pending q t \<and> task_is_expired now (mq_objs q b)) rest"
      by (rule filter_cong) (use tid pend in \<open>force+\<close>)
    have IH: "n' = n + 1 + int (length (filter (\<lambda>(t, b). is_pending ?q t \<and> task_is_expired now (mq_objs q b)) rest)) \<and>
      (\<forall>t. dget (mq_status q') t =
        (if \<exists>b. (t, b) \<in> set rest \<and> is_pending ?q t \<and> task_is_expired now (mq_objs q b)
         then Some TASK_EXPIRED else dget (mq_status ?q) t)) \<and>
      mq_tasks q' = mq_tasks q \<and> mq_objs q' = mq_objs q \<and> mq_heap q' = mq_heap q"
      using 2(1) [OF True] 2(3,4) True by simp
    have "dget (mq_status q') t =
        (if \<exists>b. (t, b) \<in> set ((tid, a) # rest) \<and> is_pending q t \<and> task_is_expired now (mq_objs q b)
         then Some TASK_EXPIRED else dget (mq_status q) t)" for t
      using IH True tid pend [of t] by (cases "t = tid") (auto simp: is_pending_def)
    with IH same True show ?thesis by (simp add: is_pending_def)
  next
    case False
    have tid: "tid \<notin> fst ` set rest" using 2(3) by simp
    have "dget (mq_status q') t =
        (if \<exists>b. (t, b) \<in> set ((tid, a) # rest) \<and> is_pending q t \<and> task_is_expired now (mq_objs q b)
         then Some TASK_EXPIRED else dget (mq_status q) t)" for t
      using 2(2) [OF False] 2(3,4) False tid by (cases "t = tid") (auto simp: is_pending_def)
    then show ?thesis using 2(2) [OF False] 2(3,4) False by (auto simp: is_pending_def)
  qed
qed simp

section \<open>The contract\<close>

text \<open>A non-blocking \<open>dequeue\<close>, with the task object it returns read from the store.\<close>

definition mq_deq :: "datetime \<Rightarrow> string option \<Rightarrow> mem_queue \<Rightarrow> task_payload option \<times> mem_queue" where
  "mq_deq now tenant q =
     (let (r, q') = mq_dequeue now tenant 0 [] q
      in (case r of Some (Some a) \<Rightarrow> Some (mq_objs q' a) | _ \<Rightarrow> None, q'))"

definition mq_payload :: "mem_queue \<Rightarrow> uuid \<Rightarrow> task_payload option" where
  "mq_payload q t = map_option (mq_objs q) (mq_get t q)"

lemma mq_dequeue_now:
  "mq_dequeue now tenant 0 ws q =
     (if mq_closed q then (Some None, q)
      else let (r, q') = mq_find_next_visible now tenant q in (Some r, q'))"
  by (auto simp: mq_dequeue_def mq_dequeue_pass_def Let_def split: prod.split option.split)

lemma mq_deq_inv: "mq_inv q \<Longrightarrow> mq_deq now tenant q = (r, q') \<Longrightarrow> mq_inv q'"
  using mq_find_inv [of q now tenant]
  by (auto simp: mq_deq_def mq_dequeue_now split: prod.splits if_splits)

lemma mq_deq_claims:
  assumes inv: "mq_inv q" and deq: "mq_deq now tenant q = (Some p, q')"
  shows "dget (mq_status q) (tp_task_id p) = Some TASK_PENDING \<and>
    dget (mq_status q') (tp_task_id p) = Some TASK_PROCESSING \<and>
    \<not> task_is_expired now p \<and> str_filter tenant (tp_tenant_id p)"
proof -
  obtain a where find: "mq_find_next_visible now tenant q = (Some a, q')" and p: "p = mq_objs q' a"
    using deq by (auto simp: mq_deq_def mq_dequeue_now split: prod.splits if_splits option.splits)
  have same: "mq_objs q' = mq_objs q" using mq_find_next_visible_frame [OF find] by simp
  show ?thesis
    using mq_find_next_visible_best [OF find inv] mq_find_next_visible_status [OF find]
    by (auto simp: p same mq_best_def mq_eligible_def Let_def is_pending_def scan_status_def)
qed

interpretation mem: task_queue mq_inv "\<lambda>q. dget (mq_status q)" mq_payload "\<lambda>q t. mq_get_result t q"
  mq_deq mq_complete mq_fail mq_cancel
proof
  fix q t assume "mq_inv q"
  then show "dget (mq_status q) t \<noteq> None \<longleftrightarrow> mq_payload q t \<noteq> None"
    using mq_inv_known [of q t] by (simp add: mq_payload_def mq_get_def din_def)
next
  fix q now tenant r q' assume "mq_inv q" "mq_deq now tenant q = (r, q')"
  then show "mq_inv q'" by (rule mq_deq_inv)
next
  fix q t res b q' assume "mq_inv q" "mq_complete t res q = (b, q')"
  then show "mq_inv q'" "b \<longleftrightarrow> dget (mq_status q) t \<noteq> None"
    using mq_complete_inv [of q t res] mq_inv_known [of q t]
    by (auto simp: mq_complete_def Let_def din_def split: option.splits)
next
  fix q now t code msg retry b q' assume "mq_inv q" "mq_fail now t code msg retry q = (b, q')"
  then show "mq_inv q'" "b \<longleftrightarrow> dget (mq_status q) t \<noteq> None"
    using mq_fail_inv [of q now t code msg retry] mq_inv_known [of q t]
    by (auto simp: mq_fail_def Let_def din_def split: option.splits if_splits)
next
  fix q now t b q' assume "mq_inv q" "mq_cancel now t q = (b, q')"
  then show "mq_inv q'" "b \<longleftrightarrow> dget (mq_status q) t = Some TASK_PENDING"
    using mq_cancel_inv [of q now t] mq_inv_known [of q t]
    by (auto simp: mq_cancel_def Let_def din_def split: option.splits if_splits)
next
  fix q now tenant p q' assume "mq_inv q" "mq_deq now tenant q = (Some p, q')"
  then show "dget (mq_status q) (tp_task_id p) = Some TASK_PENDING \<and>
      dget (mq_status q') (tp_task_id p) = Some TASK_PROCESSING \<and>
      \<not> task_is_expired now p \<and> str_filter tenant (tp_tenant_id p)"
    by (rule mq_deq_claims)
next
  fix q t res q' assume "mq_inv q" "mq_complete t res q = (True, q')"
  then show "dget (mq_status q') = (dget (mq_status q))(t \<mapsto> TASK_COMPLETED) \<and> mq_get_result t q' = Some res"
    by (auto simp: mq_complete_def Let_def mq_get_result_def update_conv' split: option.splits)
next
  fix q t p now code msg retry b q'
  assume "mq_inv q" "mq_payload q t = Some p" "mq_fail now t code msg retry q = (b, q')"
  then show "dget (mq_status q') =
      (dget (mq_status q))(t \<mapsto> (if retry \<and> task_can_retry p then TASK_PENDING else TASK_FAILED))"
    and "map_option (\<lambda>p. (tp_retry_count p, tp_max_retries p)) (mq_payload q' t) =
      Some (if retry \<and> task_can_retry p then tp_retry_count p + 1 else tp_retry_count p, tp_max_retries p)"
    by (auto simp: mq_fail_def mq_payload_def mq_get_def Let_def update_conv' split: option.splits if_splits)
next
  fix q now t q' assume "mq_inv q" "mq_cancel now t q = (True, q')"
  then show "dget (mq_status q') = (dget (mq_status q))(t \<mapsto> TASK_CANCELLED)"
    by (auto simp: mq_cancel_def Let_def update_conv' split: option.splits if_splits)
qed

section \<open>A concrete queue\<close>

text \<open>Two tasks of one tenant in a queue of capacity two; the witnesses evaluate it.\<close>

definition ex_store :: task_store where
  "ex_store a = (if a = 0 then (new_task_payload 1 0)\<lparr>tp_tenant_id := ''acme''\<rparr>
     else (new_task_payload 2 5)\<lparr>tp_tenant_id := ''acme'', tp_priority := PRIO_HIGH,
       tp_target_agent_id := Some 7\<rparr>)"

definition ex_queue1 :: mem_queue where
  "ex_queue1 = snd (mq_enqueue 0 0 0 (mq_init ex_store 2 1 60))"

definition ex_queue :: mem_queue where
  "ex_queue = snd (mq_enqueue 0 1 0 ex_queue1)"

definition ex_done :: mem_queue where
  "ex_done = snd (mq_complete 2 (new_task_result 2 TASK_COMPLETED 20) (snd (mq_dequeue_pass 10 None None ex_queue)))"

lemma ex_queue_reachable: "mq_reachable ex_queue"
proof -
  have "\<not> din (tp_task_id (mq_objs (mq_init ex_store 2 1 60) 0)) (mq_tasks (mq_init ex_store 2 1 60))"
    by code_simp
  then have "mq_reachable ex_queue1"
    unfolding ex_queue1_def by (blast intro: mq_reachable.intros mq_step.enqueue)
  moreover have "\<not> din (tp_task_id (mq_objs ex_queue1 1)) (mq_tasks ex_queue1)" by code_simp
  ultimately show ?thesis
    unfolding ex_queue_def by (blast intro: mq_reachable.intros mq_step.enqueue)
qed

lemma ex_done_reachable: "mq_reachable ex_done"
proof -
  have "dget (mq_status (snd (mq_dequeue_pass 10 None None ex_queue))) 2 = Some TASK_PROCESSING"
    by code_simp
  then show ?thesis
    unfolding ex_done_def by (blast intro: mq_reachable.step ex_queue_reachable mq_step.dequeue mq_step.complete)
qed

lemmas ex_queue_inv = mq_reachable_inv [OF ex_queue_reachable]

section \<open>The properties\<close>

text \<open>C5: \<open>dequeue\<close> with no waiting time on an open queue hands out the least item by (priority,
  creation time) among those whose task is pending, visible, not expired and of the asked tenant,
  marks its task as processing and leaves tasks untouched; it answers None only when there is none.\<close>

theorem mq_dequeue_least:
  assumes "mq_reachable q" and "\<not> mq_closed q" and "timeout \<le> 0"
    and "mq_dequeue now tenant timeout ws q = (out, q')"
  shows "\<exists>r. out = Some r \<and>
    (case r of
       None \<Rightarrow> \<forall>it\<in>set (mq_heap q). \<not> mq_eligible now tenant q it
     | Some a \<Rightarrow> dget (mq_status q') (tp_task_id (mq_objs q a)) = Some TASK_PROCESSING \<and>
         (\<exists>it\<in>set (mq_heap q). pi_task it = a \<and> mq_eligible now tenant q it \<and>
           (\<forall>y\<in>set (mq_heap q). mq_eligible now tenant q y \<longrightarrow>
              (pi_priority it, pi_created_at it) \<le> (pi_priority y, pi_created_at y)))) \<and>
    mq_tasks q' = mq_tasks q \<and> mq_objs q' = mq_objs q"
proof -
  obtain r q1 where find: "mq_find_next_visible now tenant q = (r, q1)"
    by (cases "mq_find_next_visible now tenant q")
  have out: "out = Some r" "q' = q1"
    using assms(2-4) find by (auto simp: mq_dequeue_def mq_dequeue_pass_def split: option.splits)
  have best: "mq_best now tenant q r" using find assms(1) by (simp add: mq_find_next_visible_best mq_reachable_inv)
  have claimed: "dget (mq_status q') (tp_task_id (mq_objs q a)) = Some TASK_PROCESSING" if "r = Some a" for a
    using mq_find_next_visible_status [OF find] that by (simp add: scan_status_def out)
  show ?thesis
  proof (cases r)
    case None
    with best show ?thesis
      using mq_find_next_visible_frame [OF find] by (simp add: mq_best_def out)
  next
    case (Some a)
    then obtain it where it: "it \<in> set (mq_heap q)" "pi_task it = a" "mq_eligible now tenant q it"
      and least: "\<forall>y\<in>set (mq_heap q). mq_eligible now tenant q y \<longrightarrow> \<not> item_lt y it"
      using best by (auto simp: mq_best_def)
    have ex: "\<exists>it\<in>set (mq_heap q). pi_task it = a \<and> mq_eligible now tenant q it \<and>
        (\<forall>y\<in>set (mq_heap q). mq_eligible now tenant q y \<longrightarrow>
          (pi_priority it, pi_created_at it) \<le> (pi_priority y, pi_created_at y))"
      using it least unfolding item_lt_def not_less by blast
    have "mq_tasks q' = mq_tasks q" "mq_objs q' = mq_objs q"
      using mq_find_next_visible_frame [OF find] by (simp_all add: out(2))
    then show ?thesis
      using ex claimed [OF Some] by (intro exI [of _ r] conjI) (simp_all only: out(1) Some option.case simp_thms)
  qed
qed

theorem mq_dequeue_least_witness:
  "fst (mq_dequeue 10 None 0 [] ex_queue) = Some (Some 1) \<and>
   (\<exists>it\<in>set (mq_heap ex_queue). pi_task it = 1 \<and> mq_eligible 10 None ex_queue it) \<and>
   mq_tasks (snd (mq_dequeue 10 None 0 [] ex_queue)) = mq_tasks ex_queue"
proof -
  have out: "fst (mq_dequeue 10 None 0 [] ex_queue) = Some (Some 1)" by code_simp
  have op: "\<not> mq_closed ex_queue" by code_simp
  show ?thesis
    using mq_dequeue_least [OF ex_queue_reachable op, of 0 10 None "[]" _ "snd (mq_dequeue 10 None 0 [] ex_queue)"] out
    by (cases "mq_dequeue 10 None 0 [] ex_queue") auto
qed

text \<open>C6: in every reachable state the heap is ordered, the tables agree, every pending task has
  exactly one heap item and one that is processing, completed or failed has none.\<close>

theorem mq_reachable_consistent:
  assumes "mq_reachable q"
  shows "is_heap item_lt (mq_heap q) \<and>
    (\<forall>t. din t (mq_status q) = din t (mq_tasks q)) \<and>
    (\<forall>it\<in>set (mq_heap q). item_ok q it) \<and>
    (\<forall>t. is_pending q t \<longrightarrow> items_of q (mset (mq_heap q)) t = 1) \<and>
    (\<forall>t. dget (mq_status q) t \<in> {Some TASK_PROCESSING, Some TASK_COMPLETED, Some TASK_FAILED} \<longrightarrow>
       items_of q (mset (mq_heap q)) t = 0)"
proof -
  have life: "mq_life q" using assms by (rule mq_reachable_life)
  have it: "items_exact q (mset (mq_heap q))" using life by (simp add: mq_life_def)
  have "items_of q (mset (mq_heap q)) t = 1" if "is_pending q t" for t
    using it that unfolding items_exact_def by (auto dest!: spec [of _ t])
  moreover have "items_of q (mset (mq_heap q)) t = 0"
    if "dget (mq_status q) t \<in> {Some TASK_PROCESSING, Some TASK_COMPLETED, Some TASK_FAILED}" for t
    using that by (auto intro!: items_exact_none [OF it] simp: is_pending_def)
  ultimately show ?thesis using life by (simp add: mq_life_def mq_inv_def mq_wf_def)
qed

theorem mq_reachable_consistent_witness:
  "items_of ex_queue (mset (mq_heap ex_queue)) 2 = 1 \<and> items_of ex_done (mset (mq_heap ex_done)) 2 = 0"
proof -
  have "is_pending ex_queue 2" "dget (mq_status ex_done) 2 = Some TASK_COMPLETED" by code_simp+
  then show ?thesis
    using mq_reachable_consistent [OF ex_queue_reachable] mq_reachable_consistent [OF ex_done_reachable] by simp
qed

lemma mq_counts:
  assumes "mq_reachable q"
  shows "mq_size None q = int (card {t. is_pending q t}) \<and>
    (tenant \<noteq> [] \<longrightarrow> mq_size (Some tenant) q =
      int (card {t. is_pending q t \<and> (\<exists>a. dget (mq_tasks q) t = Some a \<and> tp_tenant_id (mq_objs q a) = tenant)})) \<and>
    mq_pending_by_agent agent q =
      int (card {t. is_pending q t \<and> (\<exists>a. dget (mq_tasks q) t = Some a \<and> tp_target_agent_id (mq_objs q a) = Some agent)})"
proof -
  have life: "mq_life q" using assms by (rule mq_reachable_life)
  then have ix: "index_exact q" and ok: "dict_ok (mq_status q)"
    by (simp_all add: mq_life_def mq_inv_def mq_wf_def)
  have pend: "live (dget (mq_status q) t)" if "is_pending q t" for t using that by (simp add: is_pending_def)
  have "mq_size None q = int (card {t. is_pending q t})"
    using length_eq_card_dict [OF ok, of "\<lambda>s. s = TASK_PENDING"] by (simp add: mq_size_def is_pending_def)
  moreover have "Set.filter (is_pending q) (mq_by_tenant q tenant) =
      {t. is_pending q t \<and> (\<exists>a. dget (mq_tasks q) t = Some a \<and> tp_tenant_id (mq_objs q a) = tenant)}"
    using ix pend unfolding index_exact_def by auto
  moreover have "Set.filter (is_pending q) (mq_by_agent q agent) =
      {t. is_pending q t \<and> (\<exists>a. dget (mq_tasks q) t = Some a \<and> tp_target_agent_id (mq_objs q a) = Some agent)}"
    using ix pend unfolding index_exact_def by auto
  ultimately show ?thesis by (auto simp: mq_size_def mq_pending_by_agent_def neq_Nil_conv)
qed

text \<open>The counts are exact: \<open>size()\<close> is the number of pending tasks, \<open>size(tenant)\<close> the number
  of that tenant's and \<open>pending_by_agent\<close> the number addressed to that agent.\<close>

theorem mq_counts_exact:
  assumes "mq_reachable q"
  shows "mq_size None q = int (card {t. is_pending q t}) \<and>
    (tenant \<noteq> [] \<longrightarrow> mq_size (Some tenant) q =
      int (card {t. is_pending q t \<and> (\<exists>a. dget (mq_tasks q) t = Some a \<and> tp_tenant_id (mq_objs q a) = tenant)})) \<and>
    mq_pending_by_agent agent q =
      int (card {t. is_pending q t \<and> (\<exists>a. dget (mq_tasks q) t = Some a \<and> tp_target_agent_id (mq_objs q a) = Some agent)})"
  using assms by (rule mq_counts)

theorem mq_counts_exact_witness:
  "mq_size (Some ''acme'') ex_queue = 2 \<and> card {t. is_pending ex_queue t \<and>
     (\<exists>a. dget (mq_tasks ex_queue) t = Some a \<and> tp_tenant_id (mq_objs ex_queue a) = ''acme'')} = 2"
proof -
  have "mq_size (Some ''acme'') ex_queue = 2" by code_simp
  then show ?thesis using mq_counts_exact [OF ex_queue_reachable, of "''acme''" 7] by simp
qed

text \<open>
  What anyone may do to the queue beside settling the task \<open>t\<close> again or enqueuing its id again: here \<open>complete\<close> and
  \<open>fail\<close> of other tasks are called in any status, known ids are enqueued again, anything is cancelled.
\<close>

inductive other_step :: "uuid \<Rightarrow> mem_queue \<Rightarrow> mem_queue \<Rightarrow> bool" for t where
  create: "a \<notin> set (dvalues (mq_tasks q)) \<Longrightarrow> a \<notin> pi_task ` set (mq_heap q) \<Longrightarrow>
    other_step t q (q\<lparr>mq_objs := (mq_objs q)(a := task)\<rparr>)"
| enqueue: "tp_task_id (mq_objs q a) \<noteq> t \<Longrightarrow> other_step t q (snd (mq_enqueue now a delay q))"
| dequeue: "other_step t q (snd (mq_dequeue_pass now tenant deadline q))"
| complete: "tid \<noteq> t \<Longrightarrow> other_step t q (snd (mq_complete tid res q))"
| fail: "tid \<noteq> t \<Longrightarrow> other_step t q (snd (mq_fail now tid code msg retry q))"
| cancel: "other_step t q (snd (mq_cancel now tid q))"
| clear: "other_step t q (snd (mq_clear_expired now q))"
| shutdown: "other_step t q (mq_shutdown q)"

text \<open>The task is settled and out of the heap; known tasks are under their ids.\<close>

definition put_away :: "uuid \<Rightarrow> mem_queue \<Rightarrow> bool" where
  "put_away t q =
     (settled q t \<and> (\<forall>it\<in>set (mq_heap q). item_tid q it \<noteq> t) \<and>
      (\<forall>i a. dget (mq_tasks q) i = Some a \<longrightarrow> tp_task_id (mq_objs q a) = i))"

lemma mq_find_loop_other:
  assumes "mq_find_loop now tenant checked q = (r, c, q')" and "\<forall>it\<in>set (mq_heap q). item_tid q it \<noteq> t"
  shows "dget (mq_status q') t = dget (mq_status q) t \<and> dget (mq_results q') t = dget (mq_results q) t \<and>
    mq_tasks q' = mq_tasks q \<and> mq_objs q' = mq_objs q \<and>
    set (mq_heap q') \<union> set c \<subseteq> set (mq_heap q) \<union> set checked"
proof -
  let ?R = "\<lambda>checked q (r :: addr option) c q'. dget (mq_status q') t = dget (mq_status q) t \<and>
    dget (mq_results q') t = dget (mq_results q) t \<and> mq_tasks q' = mq_tasks q \<and> mq_objs q' = mq_objs q \<and>
    set (mq_heap q') \<union> set c \<subseteq> set (mq_heap q) \<union> set checked"
  let ?P = "\<lambda>checked q r c q'. (\<forall>it\<in>set (mq_heap q). item_tid q it \<noteq> t) \<longrightarrow> ?R checked q r c q'"
  have "?P checked q r c q'"
    using assms(1)
  proof (rule mq_find_loop_rule [where P = ?P], goal_cases)
    case (4 q checked item h r c q')
    have heap: "set (mq_heap q) = insert item (set h)" by (rule set_heappop [OF 4(1)])
    show ?case
    proof
      assume none: "\<forall>it\<in>set (mq_heap q). item_tid q it \<noteq> t"
      then have "t \<noteq> item_tid q item" by (auto simp: heap)
      from dget_results_expired [OF this] 4(4) none show "?R checked q r c q'" by (auto simp: heap)
    qed
  qed (auto dest!: set_heappop)
  then show ?thesis using assms(2) by simp
qed

lemma mq_find_other:
  assumes "mq_find_next_visible now tenant q = (r, q')" and "\<forall>it\<in>set (mq_heap q). item_tid q it \<noteq> t"
  shows "dget (mq_status q') t = dget (mq_status q) t \<and> dget (mq_results q') t = dget (mq_results q) t \<and>
    mq_tasks q' = mq_tasks q \<and> mq_objs q' = mq_objs q \<and> set (mq_heap q') \<subseteq> set (mq_heap q)"
proof -
  obtain c q1 where loop: "mq_find_loop now tenant [] q = (r, c, q1)"
    and q': "q' = q1\<lparr>mq_heap := foldl (heappush item_lt) (mq_heap q1) c\<rparr>"
    using assms(1) by (auto simp: mq_find_next_visible_def split: prod.splits)
  have "set (mq_heap q') = set (mq_heap q1) \<union> set c"
    using arg_cong [where f = set_mset, OF mset_foldl_heappush [of "mq_heap q1" c]] by (simp add: q')
  then show ?thesis using mq_find_loop_other [OF loop assms(2)] by (simp add: q')
qed

lemma other_step_put_away:
  assumes "other_step t q q'" and "put_away t q"
  shows "put_away t q' \<and> dget (mq_status q') t = dget (mq_status q) t \<and> dget (mq_results q') t = dget (mq_results q) t"
  using assms
proof cases
  case (create a task)
  have "b \<noteq> a" if "dget (mq_tasks q) i = Some b" for i b
    using create(2) map_of_SomeD [of "mq_tasks q" i b] that by (force simp: dvalues_def)
  then show ?thesis using assms(2) create by (auto simp: put_away_def settled_def)
next
  case (enqueue a now delay)
  then show ?thesis using assms(2) by (auto simp: put_away_def settled_def mq_enqueue_def Let_def)
next
  case (dequeue now tenant deadline)
  obtain r q1 where find: "mq_find_next_visible now tenant q = (r, q1)" by fastforce
  have "\<forall>it\<in>set (mq_heap q). item_tid q it \<noteq> t" using assms(2) by (simp add: put_away_def)
  from mq_find_other [OF find this] assms(2) have "put_away t q1 \<and> dget (mq_status q1) t = dget (mq_status q) t \<and>
      dget (mq_results q1) t = dget (mq_results q) t"
    by (auto simp: put_away_def settled_def)
  then show ?thesis using assms(2) dequeue find by (auto simp: mq_dequeue_pass_def split: option.split)
next
  case (complete tid res)
  then show ?thesis using assms(2) by (auto simp: put_away_def settled_def mq_complete_def Let_def split: option.split)
next
  case (fail tid now code msg retry)
  then show ?thesis using assms(2)
    by (auto simp: put_away_def settled_def mq_fail_def Let_def split: option.split)
next
  case (cancel now tid)
  then show ?thesis using assms(2) by (auto simp: put_away_def settled_def mq_cancel_def Let_def split: option.split)
next
  case (clear now)
  have "put_away t (snd (mq_clear_loop now ts (n, p))) \<and>
    dget (mq_status (snd (mq_clear_loop now ts (n, p)))) t = dget (mq_status p) t \<and>
    dget (mq_results (snd (mq_clear_loop now ts (n, p)))) t = dget (mq_results p) t"
    if "put_away t p" for ts n p
    using that
  proof (induction now ts "(n, p)" arbitrary: n p rule: mq_clear_loop.induct)
    case (2 now tid a rest n p)
    then have ne: "t \<noteq> tid" if "dget (mq_status p) tid = Some TASK_PENDING"
      using that by (auto simp: put_away_def settled_def)
    have "put_away t (mq_mark_expired now tid p)" if "dget (mq_status p) tid = Some TASK_PENDING"
      using 2(3) ne [OF that] by (simp add: put_away_def settled_def)
    with 2 ne show ?case by (auto simp: dget_results_expired [OF ne])
  qed simp
  then show ?thesis using clear assms(2) by (simp add: mq_clear_expired_def)
qed (use assms(2) in \<open>simp_all add: put_away_def settled_def mq_shutdown_def\<close>)

text \<open>What this leaves out does change the outcome: nothing looks at the status of a task that is completed or failed
  again.\<close>

lemma mq_settled_again:
  assumes "dget (mq_tasks q) t = Some a"
  shows "mq_get_result t (snd (mq_complete t r q)) = Some r"
    "task_can_retry (mq_objs q a) \<Longrightarrow> is_pending (snd (mq_fail now t code msg True q)) t"
  using assms by (simp_all add: mq_complete_def mq_fail_def mq_get_result_def is_pending_def Let_def)

text \<open>C21: once a worker has completed or failed a task that it was handed, its status and its stored result stay as they
  are, whatever else is called on the queue in whatever order, with no discipline asked of these calls: only
  another \<open>complete\<close> or \<open>fail\<close> of this very task, or enqueuing its id again, is left out.\<close>

theorem mq_outcome_stable:
  assumes "mq_reachable q" and "dget (mq_status q) t \<in> {Some TASK_COMPLETED, Some TASK_FAILED}"
    and "(other_step t)\<^sup>*\<^sup>* q q'"
  shows "dget (mq_status q') t = dget (mq_status q) t \<and> mq_get_result t q' = mq_get_result t q"
proof -
  have life: "mq_life q" using assms(1) by (rule mq_reachable_life)
  then have "items_of q (mset (mq_heap q)) t = 0"
    using assms(2) by (intro items_exact_none) (auto simp: mq_life_def is_pending_def)
  then have "item_tid q it \<noteq> t" if "it \<in> set (mq_heap q)" for it
    using items_of_pos [of it "mset (mq_heap q)" q] that by auto
  moreover have "settled q t" using assms(2) by (auto simp: settled_def)
  moreover have "tp_task_id (mq_objs q a) = i" if "dget (mq_tasks q) i = Some a" for i a
    using life that by (simp add: mq_life_def mq_inv_def mq_wf_def)
  ultimately have "put_away t q" by (simp add: put_away_def)
  with assms(3) have "put_away t q' \<and> dget (mq_status q') t = dget (mq_status q) t \<and> dget (mq_results q') t = dget (mq_results q) t"
  proof induction
    case (step q1 q2)
    from step.IH [OF step.prems] other_step_put_away [OF step.hyps(2)] show ?case by simp
  qed simp
  then show ?thesis by (simp add: mq_get_result_def)
qed

theorem mq_outcome_stable_witness:
  "dget (mq_status (snd (mq_complete 1 (new_task_result 1 TASK_COMPLETED 30) (snd (mq_cancel 25 2 ex_done))))) 2 = Some TASK_COMPLETED \<and>
   mq_get_result 2 (snd (mq_complete 1 (new_task_result 1 TASK_COMPLETED 30) (snd (mq_cancel 25 2 ex_done)))) = mq_get_result 2 ex_done"
proof -
  have st: "dget (mq_status ex_done) 2 = Some TASK_COMPLETED" by code_simp
  have "(other_step 2)\<^sup>*\<^sup>* ex_done (snd (mq_complete 1 (new_task_result 1 TASK_COMPLETED 30) (snd (mq_cancel 25 2 ex_done))))"
    by (rule converse_rtranclp_into_rtranclp, rule other_step.cancel, rule r_into_rtranclp, rule other_step.complete) simp
  from mq_outcome_stable [OF ex_done_reachable _ this] st show ?thesis by simp
qed

text \<open>The table of tasks never exceeds the capacity, never shrinks, and once it is full every later
  \<open>enqueue\<close> is refused and leaves the queue as it is, whatever has been completed meanwhile.\<close>

theorem mq_capacity:
  assumes "mq_reachable q" and "mq_step\<^sup>*\<^sup>* q q'"
  shows "int (length (mq_tasks q)) \<le> max 0 (mq_max_size q) \<and> length (mq_tasks q) \<le> length (mq_tasks q') \<and>
    (mq_max_size q \<le> int (length (mq_tasks q)) \<longrightarrow>
       (\<exists>e. mq_enqueue now a delay q' = (Inl e, q') \<and>
          (e = QueueClosedError ''Queue is shutdown'' \<or>
           e = QueueFullError (int (length (mq_tasks q'))) (mq_max_size q))))"
proof -
  have "int (length (mq_tasks q)) \<le> max 0 (mq_max_size q)"
    using assms(1) by induction (simp add: mq_init_def, rule mq_step_capacity)
  moreover have "length (mq_tasks q) \<le> length (mq_tasks q') \<and> mq_max_size q' = mq_max_size q"
    using assms(2) by induction (auto dest: mq_step_tasks)
  ultimately show ?thesis by (auto simp: mq_enqueue_def)
qed

theorem mq_capacity_witness:
  "mq_enqueue 30 5 0 ex_done = (Inl (QueueFullError 2 2), ex_done)"
proof -
  have "length (mq_tasks ex_done) = 2 \<and> mq_max_size ex_done = 2 \<and>
    fst (mq_enqueue 30 5 0 ex_done) \<noteq> Inl (QueueClosedError ''Queue is shutdown'')" by code_simp
  then show ?thesis
    using mq_capacity [OF ex_done_reachable rtranclp.rtrancl_refl, of 30 5 0] by auto
qed

text \<open>\<open>fail\<close> on a known task either schedules a retry, only when it was asked for and the retries
  are not used up, as pending, not visible before the back-off that the maximal delay bounds; or it
  records the failure with its error and takes the task out of the indexes. The retry count never
  exceeds the allowance.\<close>

theorem mq_fail_spec:
  assumes "mq_inv q" and "dget (mq_tasks q) tid = Some a"
    and "mq_fail now tid code msg retry q = (ok, q')"
  shows "ok \<and> (let task = mq_objs q a in
    if retry \<and> tp_retry_count task < tp_max_retries task then
      dget (mq_status q') tid = Some TASK_PENDING \<and>
      tp_retry_count (mq_objs q' a) = tp_retry_count task + 1 \<and>
      tp_retry_count (mq_objs q' a) \<le> tp_max_retries (mq_objs q' a) \<and>
      (\<exists>it. mset (mq_heap q') = add_mset it (mset (mq_heap q)) \<and> pi_task it = a \<and>
         pi_visible_at it \<le> now + td_secf (mq_retry_max_delay q) \<and>
         (0 \<le> mq_retry_base_delay q \<longrightarrow> 0 \<le> mq_retry_max_delay q \<longrightarrow> now \<le> pi_visible_at it)) \<and>
      mq_results q' = mq_results q
    else
      dget (mq_status q') tid = Some TASK_FAILED \<and> mq_heap q' = mq_heap q \<and> mq_objs q' = mq_objs q \<and>
      mq_failed_count q' = mq_failed_count q + 1 \<and> tid \<notin> mq_by_tenant q' (tp_tenant_id task) \<and>
      (\<exists>r. mq_get_result tid q' = Some r \<and> tr_status r = TASK_FAILED \<and>
         tr_error_code r = Some code \<and> tr_error_message r = Some msg \<and>
         tr_retry_count r = tp_retry_count task))"
proof (cases "retry \<and> tp_retry_count (mq_objs q a) < tp_max_retries (mq_objs q a)")
  case True
  let ?d = "mq_backoff q (tp_retry_count (mq_objs q a) + 1)"
  have "td_secf ?d \<le> td_secf (mq_retry_max_delay q)"
    by (rule td_secf_mono) (simp add: mq_backoff_def)
  moreover have "0 \<le> td_secf ?d" if "0 \<le> mq_retry_base_delay q" "0 \<le> mq_retry_max_delay q"
    using that by (intro td_secf_nonneg) (simp add: mq_backoff_def)
  ultimately show ?thesis
    using True assms(2,3) by (auto simp: mq_fail_def task_can_retry_def Let_def)
next
  case False
  then show ?thesis
    using assms(2,3)
    by (auto simp: mq_fail_def task_can_retry_def Let_def mq_get_result_def new_task_result_def index_discard_def)
qed

theorem mq_fail_spec_witness:
  "dget (mq_status (snd (mq_fail 10 1 ''E'' ''msg'' True ex_queue))) 1 = Some TASK_PENDING \<and>
   tp_retry_count (mq_objs (snd (mq_fail 10 1 ''E'' ''msg'' True ex_queue)) 0) = 1 \<and>
   dget (mq_status (snd (mq_fail 10 1 ''E'' ''msg'' False ex_queue))) 1 = Some TASK_FAILED"
proof -
  have a: "dget (mq_tasks ex_queue) 1 = Some 0"
    and c: "tp_retry_count (mq_objs ex_queue 0) = 0" "tp_max_retries (mq_objs ex_queue 0) = 3" by code_simp+
  show ?thesis
    using mq_fail_spec [OF ex_queue_inv a prod.collapse [symmetric], of 10 "''E''" "''msg''" True]
      mq_fail_spec [OF ex_queue_inv a prod.collapse [symmetric], of 10 "''E''" "''msg''" False]
    by (simp add: c Let_def)
qed

text \<open>\<open>cancel\<close> succeeds exactly on a pending task, stores the outcome, and the task is not handed
  out by any later \<open>dequeue\<close> pass of the cancelled queue.\<close>

theorem mq_cancel_spec:
  assumes "mq_inv q" and "mq_cancel now tid q = (ok, q')"
  shows "(ok \<longleftrightarrow> dget (mq_status q) tid = Some TASK_PENDING) \<and> (\<not> ok \<longrightarrow> q' = q) \<and>
    (ok \<longrightarrow> dget (mq_status q') tid = Some TASK_CANCELLED \<and>
      map_option tr_status (mq_get_result tid q') = Some TASK_CANCELLED \<and>
      (\<forall>now' tenant a. fst (mq_find_next_visible now' tenant q') = Some a \<longrightarrow> tp_task_id (mq_objs q' a) \<noteq> tid))"
proof -
  have known: "dget (mq_status q) tid = Some s \<Longrightarrow> dget (mq_tasks q) tid \<noteq> None" for s
    using mq_inv_known [OF assms(1), of tid] by (auto simp: din_def)
  have inv': "mq_inv q'" using mq_cancel_inv [OF assms(1), of now tid] assms(2) by simp
  have never: "tp_task_id (mq_objs q' a) \<noteq> tid"
    if "fst (mq_find_next_visible now' tenant q') = Some a" "dget (mq_status q') tid = Some TASK_CANCELLED"
    for now' tenant a
    using mq_find_next_visible_best [OF _ inv', of now' tenant "Some a"] that
    by (cases "mq_find_next_visible now' tenant q'")
      (auto simp: mq_best_def mq_eligible_def is_pending_def Let_def)
  show ?thesis
    using assms(2) known never
    by (auto simp: mq_cancel_def Let_def mq_get_result_def new_task_result_def split: option.splits if_splits)
qed

theorem mq_cancel_spec_witness:
  "fst (mq_cancel 10 1 ex_queue) \<and> dget (mq_status (snd (mq_cancel 10 1 ex_queue))) 1 = Some TASK_CANCELLED \<and>
   \<not> fst (mq_cancel 10 2 ex_done)"
proof -
  have "dget (mq_status ex_queue) 1 = Some TASK_PENDING" "dget (mq_status ex_done) 2 = Some TASK_COMPLETED"
    by code_simp+
  then show ?thesis
    using mq_cancel_spec [OF ex_queue_inv prod.collapse [symmetric], of 10 1]
      mq_cancel_spec [OF mq_reachable_inv [OF ex_done_reachable] prod.collapse [symmetric], of 10 2] by simp
qed

text \<open>\<open>clear_expired\<close> answers how many pending tasks were past their time to live, marks exactly
  those as expired, and leaves every other status alone; no pending task past its time is left.\<close>

theorem mq_clear_expired_spec:
  assumes "mq_inv q" and "mq_clear_expired now q = (n, q')"
  shows "n = int (card {t. is_pending q t \<and> (\<exists>p. mq_payload q t = Some p \<and> task_is_expired now p)}) \<and>
    (\<forall>t. dget (mq_status q') t =
      (if is_pending q t \<and> (\<exists>p. mq_payload q t = Some p \<and> task_is_expired now p)
       then Some TASK_EXPIRED else dget (mq_status q) t)) \<and>
    (\<forall>t p. is_pending q' t \<longrightarrow> mq_payload q' t = Some p \<longrightarrow> \<not> task_is_expired now p)"
proof -
  let ?P = "\<lambda>(t, a). is_pending q t \<and> task_is_expired now (mq_objs q a)"
  let ?S = "{t. is_pending q t \<and> (\<exists>p. mq_payload q t = Some p \<and> task_is_expired now p)}"
  have ok: "dict_ok (mq_tasks q)" using assms(1) by (simp add: mq_inv_def mq_wf_def)
  then have ds: "distinct (map fst (mq_tasks q))" by (simp add: dict_ok_def)
  note spec = mq_clear_loop_spec [OF ds assms(2) [unfolded mq_clear_expired_def]]
  have mem: "(\<exists>a. (t, a) \<in> set (mq_tasks q) \<and> is_pending q t \<and> task_is_expired now (mq_objs q a)) \<longleftrightarrow> t \<in> ?S" for t
    by (auto simp: dict_mem_iff [OF ok] mq_payload_def mq_get_def)
  have "{t. \<exists>a. dget (mq_tasks q) t = Some a \<and> ?P (t, a)} = ?S"
    using mem by (auto simp: dict_mem_iff [OF ok])
  moreover have "n = int (length (filter ?P (mq_tasks q)))" using spec by simp
  ultimately have n: "n = int (card ?S)" using length_filter_dict [OF ok, of ?P] by simp
  have "dget (mq_status q') t = (if \<exists>a. (t, a) \<in> set (mq_tasks q) \<and> is_pending q t \<and>
      task_is_expired now (mq_objs q a) then Some TASK_EXPIRED else dget (mq_status q) t)" for t
    using spec by blast
  then have st: "dget (mq_status q') t = (if t \<in> ?S then Some TASK_EXPIRED else dget (mq_status q) t)" for t
    unfolding mem .
  have "mq_payload q' t = mq_payload q t" for t using spec by (simp add: mq_payload_def mq_get_def)
  moreover have "is_pending q' t \<Longrightarrow> is_pending q t \<and> t \<notin> ?S" for t
    using st [of t] by (auto simp: is_pending_def split: if_splits)
  ultimately have "\<forall>t p. is_pending q' t \<longrightarrow> mq_payload q' t = Some p \<longrightarrow> \<not> task_is_expired now p"
    by auto
  with n st show ?thesis by simp
qed

theorem mq_clear_expired_spec_witness:
  "fst (mq_clear_expired 300000003 ex_queue) = 1 \<and>
   dget (mq_status (snd (mq_clear_expired 300000003 ex_queue))) 1 = Some TASK_EXPIRED"
proof -
  have "fst (mq_clear_expired 300000003 ex_queue) = 1" "is_pending ex_queue 1"
    "map_option (task_is_expired 300000003) (mq_payload ex_queue 1) = Some True" by code_simp+
  then show ?thesis
    using mq_clear_expired_spec [OF ex_queue_inv prod.collapse [symmetric], of 300000003] by auto
qed

text \<open>A waiting \<open>dequeue\<close> keeps the invariant over every sequence of wake-ups whose interleaved
  operations keep it; once the queue is shut down every pass answers None and changes nothing.\<close>

theorem mq_dequeue_waits:
  assumes "mq_inv q" and "\<And>w p. w \<in> set ws \<Longrightarrow> mq_inv p \<Longrightarrow>
      mq_inv (case w of Notified t env \<Rightarrow> env p | TimedOut env \<Rightarrow> env p)"
  shows "mq_inv (snd (mq_dequeue now tenant timeout ws q)) \<and>
    mq_dequeue now tenant timeout ws (mq_shutdown q) = (Some None, mq_shutdown q)"
proof -
  have wait: "mq_inv (snd (mq_dequeue_wait tenant deadline (r, p) ws))" if "mq_inv p" for deadline r p
    using that assms(2)
  proof (induction tenant deadline "(r, p)" ws arbitrary: r p rule: mq_dequeue_wait.induct)
    case (4 tenant deadline p now env ws)
    have "mq_inv (env p)" using 4(3) [of "Notified now env" p] 4(2) by simp
    then have "mq_inv (snd (mq_dequeue_pass now tenant deadline (env p)))" by (rule mq_dequeue_pass_inv)
    then show ?case
      using 4(1) [of "fst (mq_dequeue_pass now tenant deadline (env p))"
          "snd (mq_dequeue_pass now tenant deadline (env p))"] 4(3) by simp
  qed (force split: wakeup.splits)+
  have "mq_inv (snd (mq_dequeue now tenant timeout ws q))"
  proof -
    define d where "d = (if 0 < timeout then Some (now + td_secf timeout) else None)"
    obtain r p where pass: "mq_dequeue_pass now tenant d q = (r, p)" by (cases "mq_dequeue_pass now tenant d q")
    then have "mq_inv p" using mq_dequeue_pass_inv [OF assms(1), of now tenant d] by simp
    then show ?thesis using wait by (simp add: mq_dequeue_def d_def [symmetric] pass)
  qed
  moreover have "mq_dequeue_pass now tenant d (mq_shutdown q) = (Some None, mq_shutdown q)" for d
    by (simp add: mq_dequeue_pass_def mq_shutdown_def)
  ultimately show ?thesis by (simp add: mq_dequeue_def Let_def)
qed

theorem mq_dequeue_waits_witness:
  "mq_inv (snd (mq_dequeue 10 (Some ''other'') 5 [Notified 20 (\<lambda>p. snd (mq_cancel 15 1 p)), TimedOut id] ex_queue))"
  using mq_dequeue_waits [OF ex_queue_inv, of "[Notified 20 (\<lambda>p. snd (mq_cancel 15 1 p)), TimedOut id]"]
  by (force simp: mq_cancel_inv)

end
