(* ===== verification/Task_Worker.thy ===== *)
theory Task_Worker
  imports Task_Queue_Props
begin

text \<open>
  \<open>src/queue/worker.py\<close>: the worker's statistics, the processing of one task, the worker loop and
  the pool, written over the operations of any task queue; and the executor that sends a task to
  an agent. The lemmas about processing are proved in the locale \<open>task_queue\<close>.
\<close>

section \<open>Statistics\<close>

record worker_stats =
  ws_tasks_processed :: int
  ws_tasks_succeeded :: int
  ws_tasks_failed :: int
  ws_tasks_retried :: int
  ws_avg_duration_ms :: rat
  ws_last_task_at :: "datetime option"

definition new_worker_stats :: worker_stats where
  "new_worker_stats = \<lparr>ws_tasks_processed = 0, ws_tasks_succeeded = 0, ws_tasks_failed = 0,
     ws_tasks_retried = 0, ws_avg_duration_ms = 0, ws_last_task_at = None\<rparr>"

definition update_avg_duration :: "rat \<Rightarrow> worker_stats \<Rightarrow> worker_stats" where
  "update_avg_duration d s =
     (if ws_tasks_processed s = 1 then s\<lparr>ws_avg_duration_ms := d\<rparr>
      else let alpha = 1 / 10 in
        s\<lparr>ws_avg_duration_ms := alpha * d + (1 - alpha) * ws_avg_duration_ms s\<rparr>)"

definition record_success :: "datetime \<Rightarrow> rat \<Rightarrow> worker_stats \<Rightarrow> worker_stats" where
  "record_success now d s =
     (let s = s\<lparr>ws_tasks_processed := ws_tasks_processed s + 1,
                ws_tasks_succeeded := ws_tasks_succeeded s + 1\<rparr>
      in (update_avg_duration d s)\<lparr>ws_last_task_at := Some now\<rparr>)"

definition record_failure :: "datetime \<Rightarrow> bool \<Rightarrow> worker_stats \<Rightarrow> worker_stats" where
  "record_failure now retried s =
     (let s = s\<lparr>ws_tasks_processed := ws_tasks_processed s + 1,
                ws_tasks_failed := ws_tasks_failed s + 1\<rparr>;
          s = (if retried then s\<lparr>ws_tasks_retried := ws_tasks_retried s + 1\<rparr> else s)
      in s\<lparr>ws_last_task_at := Some now\<rparr>)"

section \<open>Processing a task\<close>

text \<open>What awaiting the executor leads to; a cancellation is not an \<open>Exception\<close> and passes through.\<close>

datatype exec_outcome = ExecOk task_result | ExecError string | ExecCancelled

text \<open>
  \<open>reread q p\<close> is what the worker's task object, which was \<open>p\<close> when it was dequeued, holds in the
  state \<open>q\<close>. The flag is False when the cancellation escapes.
\<close>

definition process_task ::
  "(uuid \<Rightarrow> task_result \<Rightarrow> 'q \<Rightarrow> bool \<times> 'q) \<Rightarrow>
   (datetime \<Rightarrow> uuid \<Rightarrow> string \<Rightarrow> string \<Rightarrow> bool \<Rightarrow> 'q \<Rightarrow> bool \<times> 'q) \<Rightarrow>
   ('q \<Rightarrow> task_payload \<Rightarrow> task_payload) \<Rightarrow>
   datetime \<Rightarrow> rat \<Rightarrow> exec_outcome \<Rightarrow> task_payload \<Rightarrow> worker_stats \<times> 'q \<Rightarrow> bool \<times> worker_stats \<times> 'q" where
  "process_task complete_op fail_op reread now duration_ms outcome task sq =
     (let (stats, q) = sq in
      case outcome of
        ExecOk result \<Rightarrow>
          let (_, q) = complete_op (tp_task_id task) (result\<lparr>tr_duration_ms := duration_ms\<rparr>) q
          in (True, record_success now duration_ms stats, q)
      | ExecError e \<Rightarrow>
          let (_, q) = fail_op now (tp_task_id task) ''EXECUTION_ERROR'' e True q
          in (True, record_failure now (task_can_retry (reread q task)) stats, q)
      | ExecCancelled \<Rightarrow> (False, stats, q))"

text \<open>
  One round of \<open>_worker_loop\<close>: the shutdown flag it reads, the time, what the other coroutines do to
  the queue while it is executing, and the outcome of the execution.
\<close>

record 'q worker_round =
  wr_shutdown :: bool
  wr_now :: datetime
  wr_during :: "'q \<Rightarrow> 'q"
  wr_duration_ms :: rat
  wr_outcome :: exec_outcome

fun worker_loop ::
  "(datetime \<Rightarrow> string option \<Rightarrow> 'q \<Rightarrow> task_payload option \<times> 'q) \<Rightarrow>
   (uuid \<Rightarrow> task_result \<Rightarrow> 'q \<Rightarrow> bool \<times> 'q) \<Rightarrow>
   (datetime \<Rightarrow> uuid \<Rightarrow> string \<Rightarrow> string \<Rightarrow> bool \<Rightarrow> 'q \<Rightarrow> bool \<times> 'q) \<Rightarrow>
   ('q \<Rightarrow> task_payload \<Rightarrow> task_payload) \<Rightarrow>
   string option \<Rightarrow> 'q worker_round list \<Rightarrow> worker_stats \<times> 'q \<Rightarrow> worker_stats \<times> 'q" where
  "worker_loop deq complete_op fail_op reread tenant [] sq = sq"
| "worker_loop deq complete_op fail_op reread tenant (r # rs) (stats, q) =
     (if wr_shutdown r then (stats, q)
      else case deq (wr_now r) tenant q of
        (None, q1) \<Rightarrow> worker_loop deq complete_op fail_op reread tenant rs (stats, q1)
      | (Some task, q1) \<Rightarrow>
          (case process_task complete_op fail_op reread (wr_now r) (wr_duration_ms r) (wr_outcome r) task
                  (stats, wr_during r q1) of
             (go_on, sq) \<Rightarrow>
               if go_on then worker_loop deq complete_op fail_op reread tenant rs sq else sq))"

section \<open>The pool\<close>

text \<open>A worker coroutine is represented by whether it is done.\<close>

record task_worker =
  tw_num_workers :: nat
  tw_tenant_id :: "string option"
  tw_workers :: "bool list"
  tw_shutdown :: bool
  tw_stats :: worker_stats

definition tw_init :: "nat \<Rightarrow> string option \<Rightarrow> task_worker" where
  "tw_init n tenant = \<lparr>tw_num_workers = n, tw_tenant_id = tenant, tw_workers = [], tw_shutdown = False,
     tw_stats = new_worker_stats\<rparr>"

definition tw_start :: "task_worker \<Rightarrow> task_worker" where
  "tw_start w =
     (if tw_workers w \<noteq> [] then w
      else w\<lparr>tw_shutdown := False, tw_workers := replicate (tw_num_workers w) False\<rparr>)"

text \<open>Both ends of the wait (in time, or cancelled after the timeout) reach the same state.\<close>

definition tw_stop :: "task_worker \<Rightarrow> task_worker" where
  "tw_stop w = (if tw_workers w = [] then w else w\<lparr>tw_shutdown := True, tw_workers := []\<rparr>)"

definition tw_is_running :: "task_worker \<Rightarrow> bool" where
  "tw_is_running w = (0 < length (tw_workers w) \<and> \<not> tw_shutdown w)"

definition tw_health_check :: "(datetime \<Rightarrow> string) \<Rightarrow> int \<Rightarrow> task_worker \<Rightarrow> payload" where
  "tw_health_check isoformat queue_size w =
     [(''running'', JBool (tw_is_running w)),
      (''num_workers'', JInt (int (tw_num_workers w))),
      (''active_workers'', JInt (int (length (filter Not (tw_workers w))))),
      (''queue_size'', JInt queue_size),
      (''stats'', JDict
         [(''tasks_processed'', JInt (ws_tasks_processed (tw_stats w))),
          (''tasks_succeeded'', JInt (ws_tasks_succeeded (tw_stats w))),
          (''tasks_failed'', JInt (ws_tasks_failed (tw_stats w))),
          (''tasks_retried'', JInt (ws_tasks_retried (tw_stats w))),
          (''avg_duration_ms'', JFloat (ws_avg_duration_ms (tw_stats w))),
          (''last_task_at'', (case ws_last_task_at (tw_stats w) of
              None \<Rightarrow> JNone | Some t \<Rightarrow> JStr (isoformat t)))])]"

section \<open>The executor\<close>

datatype exec_error = AttributeError string | ValueError string | ConnectionError string

text \<open>
  \<open>get_websocket\<close> looks a connection up and \<open>send\<close> is the socket's \<open>send_text\<close>, with the text of the
  exception when it fails. The branch for an agent id calls \<open>get_by_agent_id\<close>, which the registry
  does not have.
\<close>

definition agent_execute ::
  "(string \<Rightarrow> 'ws option) \<Rightarrow> ('ws \<Rightarrow> string \<Rightarrow> string option) \<Rightarrow> datetime \<Rightarrow> task_payload \<Rightarrow>
     exec_error + task_result" where
  "agent_execute get_websocket send now task =
     (if str_true (tp_target_conn_id task) then
        (case get_websocket (the (tp_target_conn_id task)) of
           None \<Rightarrow> Inl (ConnectionError ''No websocket for agent'')
         | Some ws \<Rightarrow>
             (case send ws (tp_envelope_json task) of
                Some e \<Rightarrow> Inl (ConnectionError (''Failed to send to agent: '' @ e))
              | None \<Rightarrow> Inr ((new_task_result (tp_task_id task) TASK_COMPLETED now)
                  \<lparr>tr_result := JDict [(''delivered'', JBool True)]\<rparr>)))
      else if tp_target_agent_id task \<noteq> None then Inl (AttributeError ''get_by_agent_id'')
      else Inl (ValueError ''Task has no target agent or connection''))"

section \<open>Lemmas\<close>

definition stats_ok :: "worker_stats \<Rightarrow> bool" where
  "stats_ok s = (ws_tasks_processed s = ws_tasks_succeeded s + ws_tasks_failed s \<and>
     0 \<le> ws_tasks_succeeded s \<and> 0 \<le> ws_tasks_retried s \<and> ws_tasks_retried s \<le> ws_tasks_failed s)"

lemma stats_ok_new [simp]: "stats_ok new_worker_stats"
  by (simp add: stats_ok_def new_worker_stats_def)

lemma stats_ok_success: "stats_ok s \<Longrightarrow> stats_ok (record_success now d s)"
  by (simp add: stats_ok_def record_success_def update_avg_duration_def Let_def)

lemma stats_ok_failure: "stats_ok s \<Longrightarrow> stats_ok (record_failure now b s)"
  by (simp add: stats_ok_def record_failure_def Let_def)

lemma avg_success:
  assumes "0 \<le> ws_avg_duration_ms s" "ws_avg_duration_ms s \<le> m" "0 \<le> d" "d \<le> m"
  shows "0 \<le> ws_avg_duration_ms (record_success now d s)" "ws_avg_duration_ms (record_success now d s) \<le> m"
  using assms by (simp_all add: record_success_def update_avg_duration_def Let_def field_simps)

lemma avg_failure [simp]: "ws_avg_duration_ms (record_failure now b s) = ws_avg_duration_ms s"
  by (simp add: record_failure_def Let_def)

definition stats_within :: "rat \<Rightarrow> worker_stats \<Rightarrow> bool" where
  "stats_within m s = (stats_ok s \<and> 0 \<le> ws_avg_duration_ms s \<and> ws_avg_duration_ms s \<le> m)"

lemma process_task_within:
  assumes "stats_within m s" "0 \<le> d" "d \<le> m" "process_task c f rr now d out p (s, q) = (b, s', q')"
  shows "stats_within m s'"
  using assms avg_success [of s m d now] stats_ok_success [of s now d] stats_ok_failure [of s now]
  by (auto simp: process_task_def stats_within_def split: exec_outcome.splits prod.splits)

context task_queue
begin

text \<open>A processed task leaves the state \<open>processing\<close>, with its result or on the way of a retry.\<close>

lemma processed:
  assumes "inv q" and "payload_of q (tp_task_id task) = Some p"
    and run: "process_task complete fail reread now d outcome task (stats, q) = (go_on, stats', q')"
  shows "inv q' \<and> status_of q' (tp_task_id task) =
    (case outcome of
       ExecOk _ \<Rightarrow> Some TASK_COMPLETED
     | ExecError _ \<Rightarrow> Some (if task_can_retry p then TASK_PENDING else TASK_FAILED)
     | ExecCancelled \<Rightarrow> status_of q (tp_task_id task)) \<and>
    (\<forall>res. outcome = ExecOk res \<longrightarrow> result_of q' (tp_task_id task) = Some (res\<lparr>tr_duration_ms := d\<rparr>))"
proof (cases outcome)
  case (ExecOk res)
  let ?r = "res\<lparr>tr_duration_ms := d\<rparr>"
  obtain b where c: "complete (tp_task_id task) ?r q = (b, q')"
    using run ExecOk by (auto simp: process_task_def split: prod.splits)
  then have "b" using complete_iff [OF assms(1) c] known [OF assms(1)] assms(2) by simp
  then show ?thesis using c complete_inv [OF assms(1) c] complete_effect [OF assms(1)] ExecOk by simp
next
  case (ExecError e)
  obtain b where f: "fail now (tp_task_id task) ''EXECUTION_ERROR'' e True q = (b, q')"
    using run ExecError by (auto simp: process_task_def split: prod.splits)
  then show ?thesis using fail_inv [OF assms(1) f] fail_effect [OF assms(1,2) f] ExecError by simp
next
  case ExecCancelled
  with run assms(1) show ?thesis by (simp add: process_task_def)
qed

text \<open>The statistics count a retry only when yet another one is left after it.\<close>

lemma retried_counter:
  assumes "inv q" and p: "payload_of q (tp_task_id task) = Some p"
    and run: "process_task complete fail (\<lambda>q t. the (payload_of q (tp_task_id t))) now d (ExecError e) task (stats, q) =
      (go_on, stats', q')"
  shows "ws_tasks_retried stats' = ws_tasks_retried stats +
    (if tp_retry_count p + 1 < tp_max_retries p then 1 else 0)"
proof -
  obtain b where f: "fail now (tp_task_id task) ''EXECUTION_ERROR'' e True q = (b, q')"
    using run by (auto simp: process_task_def split: prod.splits)
  obtain p' where p': "payload_of q' (tp_task_id task) = Some p'"
    and cnt: "tp_retry_count p' = (if task_can_retry p then tp_retry_count p + 1 else tp_retry_count p)"
      "tp_max_retries p' = tp_max_retries p"
    using fail_count [OF assms(1) p f] by auto
  have "stats' = record_failure now (task_can_retry p') stats"
    using run f by (simp add: process_task_def p')
  then show ?thesis using cnt by (auto simp: record_failure_def task_can_retry_def Let_def)
qed

end

definition mem_reread :: "mem_queue \<Rightarrow> task_payload \<Rightarrow> task_payload" where
  "mem_reread q t = the (mq_payload q (tp_task_id t))"

text \<open>C30: a worker on the in-memory queue takes a known task out of the state it is in: completed with the
  executor's result, pending again when a retry is left, failed otherwise; only a cancelled worker
  leaves it as it was.\<close>

theorem worker_settles_task:
  assumes "mq_inv q" and "mq_payload q (tp_task_id task) = Some p"
    and "process_task mq_complete mq_fail mem_reread now d outcome task (stats, q) = (go_on, stats', q')"
  shows "mq_inv q' \<and> (go_on \<longleftrightarrow> outcome \<noteq> ExecCancelled) \<and>
    (case outcome of
       ExecOk res \<Rightarrow> dget (mq_status q') (tp_task_id task) = Some TASK_COMPLETED \<and>
         mq_get_result (tp_task_id task) q' = Some (res\<lparr>tr_duration_ms := d\<rparr>)
     | ExecError _ \<Rightarrow> dget (mq_status q') (tp_task_id task) =
         Some (if tp_retry_count p < tp_max_retries p then TASK_PENDING else TASK_FAILED)
     | ExecCancelled \<Rightarrow> q' = q)"
  using mem.processed [OF assms] assms(3)
  by (auto simp: process_task_def task_can_retry_def split: exec_outcome.splits prod.splits)

theorem worker_settles_task_witness:
  "dget (mq_status (snd (snd (process_task mq_complete mq_fail mem_reread 50 3 (ExecError ''boom'') (ex_store 0)
      (new_worker_stats, ex_queue))))) 1 = Some TASK_PENDING"
proof -
  have p: "mq_payload ex_queue (tp_task_id (ex_store 0)) = Some (ex_store 0)" by code_simp
  have c: "tp_task_id (ex_store 0) = 1" "tp_retry_count (ex_store 0) < tp_max_retries (ex_store 0)" by code_simp+
  obtain b s q where run: "process_task mq_complete mq_fail mem_reread 50 3 (ExecError ''boom'') (ex_store 0)
      (new_worker_stats, ex_queue) = (b, s, q)" by (rule prod_cases3)
  show ?thesis using worker_settles_task [OF ex_queue_inv p run] c by (simp add: run)
qed

text \<open>Over any run of the worker loop the statistics add up, and the average stays between zero and
  the longest duration.\<close>

theorem worker_stats_run:
  assumes "\<forall>r\<in>set rs. 0 \<le> wr_duration_ms r \<and> wr_duration_ms r \<le> m" and "0 \<le> m"
    and "worker_loop deq complete_op fail_op reread tenant rs (new_worker_stats, q) = (s, q')"
  shows "ws_tasks_processed s = ws_tasks_succeeded s + ws_tasks_failed s \<and>
    ws_tasks_retried s \<le> ws_tasks_failed s \<and> 0 \<le> ws_avg_duration_ms s \<and> ws_avg_duration_ms s \<le> m"
proof -
  have "stats_within m s'" if "stats_within m s0"
    "worker_loop deq complete_op fail_op reread tenant rs (s0, q) = (s', q')" for s0 s' q q'
    using assms(1) that
  proof (induction deq complete_op fail_op reread tenant rs "(s0, q)" arbitrary: s0 q rule: worker_loop.induct)
    case (2 deq complete_op fail_op reread tenant r rs s0 q)
    show ?case
    proof (cases "wr_shutdown r")
      case True
      with 2 show ?thesis by simp
    next
      case False
      obtain t q1 where dq: "deq (wr_now r) tenant q = (t, q1)" by (cases "deq (wr_now r) tenant q")
      show ?thesis
      proof (cases t)
        case None
        with 2 False dq show ?thesis by simp
      next
        case (Some task)
        obtain b s1 q2 where run: "process_task complete_op fail_op reread (wr_now r) (wr_duration_ms r)
            (wr_outcome r) task (s0, wr_during r q1) = (b, s1, q2)" by (rule prod_cases3)
        have "stats_within m s1" using 2 process_task_within [OF _ _ _ run] by simp
        with 2 False dq Some run show ?thesis by (cases b) auto
      qed
    qed
  qed simp
  from this [of new_worker_stats] assms(2,3) show ?thesis
    by (simp add: stats_within_def stats_ok_def new_worker_stats_def)
qed

theorem worker_stats_run_witness:
  "ws_tasks_failed (fst (worker_loop mq_deq mq_complete mq_fail mem_reread None
     [\<lparr>wr_shutdown = False, wr_now = 50, wr_during = id, wr_duration_ms = 3, wr_outcome = ExecError ''boom''\<rparr>]
     (new_worker_stats, ex_queue))) = 1 \<and>
   ws_avg_duration_ms (fst (worker_loop mq_deq mq_complete mq_fail mem_reread None
     [\<lparr>wr_shutdown = False, wr_now = 50, wr_during = id, wr_duration_ms = 3, wr_outcome = ExecError ''boom''\<rparr>]
     (new_worker_stats, ex_queue))) \<le> 3" (is "_ (fst ?r) = 1 \<and> _")
proof -
  have "ws_tasks_failed (fst ?r) = 1" by code_simp
  then show ?thesis
    using worker_stats_run [OF _ _ prod.collapse [symmetric], of "[\<lparr>wr_shutdown = False, wr_now = 50, wr_during = id,
      wr_duration_ms = 3, wr_outcome = ExecError ''boom''\<rparr>]" 3 mq_deq mq_complete mq_fail mem_reread None ex_queue]
    by simp
qed

text \<open>The retry counter of the statistics misses a task's last retry: after a failed execution
  that is put back for a retry, it grows only when yet another retry is left.\<close>

theorem worker_retry_counter:
  assumes "mq_inv q" and "mq_payload q (tp_task_id task) = Some p"
    and "process_task mq_complete mq_fail mem_reread now d (ExecError e) task (stats, q) = (go_on, stats', q')"
  shows "ws_tasks_retried stats' = ws_tasks_retried stats +
    (if tp_retry_count p + 1 < tp_max_retries p then 1 else 0)"
proof -
  have "mem_reread = (\<lambda>q t. the (mq_payload q (tp_task_id t)))" by (intro ext) (simp add: mem_reread_def)
  with mem.retried_counter [OF assms(1,2)] assms(3) show ?thesis by simp
qed

theorem worker_retry_counter_witness:
  "ws_tasks_retried (fst (snd (process_task mq_complete mq_fail mem_reread 50 3 (ExecError ''boom'') (ex_store 0)
      (new_worker_stats, ex_queue)))) = 1"
proof -
  have p: "mq_payload ex_queue (tp_task_id (ex_store 0)) = Some (ex_store 0)" by code_simp
  have c: "tp_retry_count (ex_store 0) + 1 < tp_max_retries (ex_store 0)"
    "ws_tasks_retried new_worker_stats = 0" by code_simp+
  obtain b s q where run: "process_task mq_complete mq_fail mem_reread 50 3 (ExecError ''boom'') (ex_store 0)
      (new_worker_stats, ex_queue) = (b, s, q)" by (rule prod_cases3)
  show ?thesis using worker_retry_counter [OF ex_queue_inv p run] c by (simp add: run)
qed

end
