(* ===== verification/Policy_Engine.thy ===== *)
theory Policy_Engine
  imports Py_Values
begin

text \<open>
  \<open>src/policy/engine.py\<close>: the IBAC policies and the engine that evaluates them in order. A policy
  outside this file is a \<open>CustomPolicy\<close> with its class name and its \<open>evaluate\<close>. The order in which
  Python iterates over a set is the argument \<open>so\<close> of the evaluation; the text of a set is written with
  plain single quotes (no escapes).
\<close>

section \<open>Data\<close>

datatype risk_level = RISK_LOW | RISK_MEDIUM | RISK_HIGH | RISK_CRITICAL

fun risk_level_value :: "risk_level \<Rightarrow> string" where
  "risk_level_value RISK_LOW = ''low''"
| "risk_level_value RISK_MEDIUM = ''medium''"
| "risk_level_value RISK_HIGH = ''high''"
| "risk_level_value RISK_CRITICAL = ''critical''"

text \<open>\<open>RiskLevel(s)\<close>, with None for the ValueError.\<close>

definition risk_level_of :: "string \<Rightarrow> risk_level option" where
  "risk_level_of s =
     (if s = ''low'' then Some RISK_LOW else if s = ''medium'' then Some RISK_MEDIUM
      else if s = ''high'' then Some RISK_HIGH else if s = ''critical'' then Some RISK_CRITICAL else None)"

fun risk_order :: "risk_level \<Rightarrow> int" where
  "risk_order RISK_LOW = 0"
| "risk_order RISK_MEDIUM = 1"
| "risk_order RISK_HIGH = 2"
| "risk_order RISK_CRITICAL = 3"

instantiation risk_level :: linorder
begin

definition less_eq_risk_level :: "risk_level \<Rightarrow> risk_level \<Rightarrow> bool" where
  "less_eq_risk_level a b = (risk_order a \<le> risk_order b)"

definition less_risk_level :: "risk_level \<Rightarrow> risk_level \<Rightarrow> bool" where
  "less_risk_level a b = (risk_order a < risk_order b)"

instance
proof
  fix x y :: risk_level
  show "x \<le> y \<Longrightarrow> y \<le> x \<Longrightarrow> x = y"
    by (cases x; cases y) (simp_all add: less_eq_risk_level_def)
qed (auto simp: less_eq_risk_level_def less_risk_level_def)

end

datatype policy_decision = ALLOW | DENY | WARN

record policy_context =
  pc_session_id :: uuid
  pc_tenant_id :: string
  pc_requester_agent_id :: uuid
  pc_provider_agent_id :: uuid
  pc_action :: string
  pc_purpose :: "string option"
  pc_data_scope :: "string list"
  pc_risk_level :: "string option"
  pc_exec_id :: "string option"
  pc_metadata :: payload

record policy_result =
  pr_decision :: policy_decision
  pr_reason :: "string option"
  pr_details :: payload

definition plain_result :: "policy_decision \<Rightarrow> policy_result" where
  "plain_result d = \<lparr>pr_decision = d, pr_reason = None, pr_details = []\<rparr>"

definition pr_is_allowed :: "policy_result \<Rightarrow> bool" where
  "pr_is_allowed r = (pr_decision r = ALLOW \<or> pr_decision r = WARN)"

datatype policy =
    TenantIsolationPolicy
  | RiskLevelPolicy risk_level
  | PurposePolicy bool "string list"
  | DataScopePolicy bool "string list" "string list"
  | CustomPolicy string "policy_context \<Rightarrow> policy_result"

text \<open>The constructor of \<open>DataScopePolicy\<close>: an empty or missing list of sensitive scopes is the default one.\<close>

definition default_sensitive_scopes :: "string list" where
  "default_sensitive_scopes = [''pii'', ''financial'', ''health'', ''credentials'']"

definition new_data_scope_policy :: "bool \<Rightarrow> string list \<Rightarrow> string list \<Rightarrow> policy" where
  "new_data_scope_policy require denied sensitive =
     DataScopePolicy require denied (if sensitive = [] then default_sensitive_scopes else sensitive)"

section \<open>Policies\<close>

fun policy_name :: "policy \<Rightarrow> string" where
  "policy_name TenantIsolationPolicy = ''TenantIsolationPolicy''"
| "policy_name (RiskLevelPolicy m) = ''RiskLevelPolicy''"
| "policy_name (PurposePolicy r d) = ''PurposePolicy''"
| "policy_name (DataScopePolicy r d s) = ''DataScopePolicy''"
| "policy_name (CustomPolicy n f) = n"

definition risk_evaluate :: "risk_level \<Rightarrow> policy_context \<Rightarrow> policy_result" where
  "risk_evaluate max_risk c =
     (if \<not> str_true (pc_risk_level c) then
        \<lparr>pr_decision = WARN, pr_reason = Some ''No risk_level declared'', pr_details = []\<rparr>
      else let s = the (pc_risk_level c) in
        case risk_level_of s of
          None \<Rightarrow> \<lparr>pr_decision = WARN, pr_reason = Some (''Unknown risk_level: '' @ s), pr_details = []\<rparr>
        | Some declared \<Rightarrow>
            if risk_order max_risk < risk_order declared then
              \<lparr>pr_decision = DENY,
               pr_reason = Some (''Risk level '' @ risk_level_value declared @ '' exceeds maximum ''
                 @ risk_level_value max_risk),
               pr_details = [(''declared_risk'', JStr (risk_level_value declared)),
                 (''max_allowed'', JStr (risk_level_value max_risk))]\<rparr>
            else plain_result ALLOW)"

definition purpose_evaluate :: "bool \<Rightarrow> string list \<Rightarrow> policy_context \<Rightarrow> policy_result" where
  "purpose_evaluate require_purpose denied c =
     (if require_purpose \<and> \<not> str_true (pc_purpose c) then
        \<lparr>pr_decision = DENY, pr_reason = Some ''Purpose is required but not declared'', pr_details = []\<rparr>
      else if str_true (pc_purpose c) \<and> the (pc_purpose c) \<in> set denied then
        \<lparr>pr_decision = DENY,
         pr_reason = Some (''Purpose '' @ [CHR 0x27] @ the (pc_purpose c) @ [CHR 0x27] @ '' is not allowed''),
         pr_details = [(''denied_purpose'', JStr (the (pc_purpose c)))]\<rparr>
      else plain_result ALLOW)"

definition join :: "string \<Rightarrow> string list \<Rightarrow> string" where
  "join sep xs = (case xs of [] \<Rightarrow> [] | y # ys \<Rightarrow> y @ concat (map (\<lambda>z. sep @ z) ys))"

definition show_scopes :: "string list \<Rightarrow> string" where
  "show_scopes xs = ''{'' @ join '', '' (map (\<lambda>s. [CHR 0x27] @ s @ [CHR 0x27]) xs) @ ''}''"

definition scope_meet :: "(string list \<Rightarrow> string list) \<Rightarrow> string list \<Rightarrow> string list \<Rightarrow> string list" where
  "scope_meet so scopes banned = so (filter (\<lambda>s. s \<in> set banned) (remdups scopes))"

definition scope_evaluate ::
  "(string list \<Rightarrow> string list) \<Rightarrow> bool \<Rightarrow> string list \<Rightarrow> string list \<Rightarrow> policy_context \<Rightarrow> policy_result" where
  "scope_evaluate so require_scope denied_scopes sensitive_scopes c =
     (if require_scope \<and> pc_data_scope c = [] then
        \<lparr>pr_decision = WARN, pr_reason = Some ''Data scope not declared'', pr_details = []\<rparr>
      else
        let denied = scope_meet so (pc_data_scope c) denied_scopes in
        if denied \<noteq> [] then
          \<lparr>pr_decision = DENY, pr_reason = Some (''Access to data scopes denied: '' @ show_scopes denied),
           pr_details = [(''denied_scopes'', JList (map JStr denied))]\<rparr>
        else
          let sensitive = scope_meet so (pc_data_scope c) sensitive_scopes in
          if sensitive \<noteq> [] then
            \<lparr>pr_decision = WARN, pr_reason = Some (''Accessing sensitive data: '' @ show_scopes sensitive),
             pr_details = [(''sensitive_scopes'', JList (map JStr sensitive))]\<rparr>
          else plain_result ALLOW)"

fun policy_evaluate :: "(string list \<Rightarrow> string list) \<Rightarrow> policy \<Rightarrow> policy_context \<Rightarrow> policy_result" where
  "policy_evaluate so TenantIsolationPolicy c = plain_result ALLOW"
| "policy_evaluate so (RiskLevelPolicy m) c = risk_evaluate m c"
| "policy_evaluate so (PurposePolicy r d) c = purpose_evaluate r d c"
| "policy_evaluate so (DataScopePolicy r d s) c = scope_evaluate so r d s c"
| "policy_evaluate so (CustomPolicy n f) c = f c"

section \<open>Engine\<close>

definition default_policies :: "policy list" where
  "default_policies =
     [TenantIsolationPolicy, RiskLevelPolicy RISK_HIGH, PurposePolicy False [],
      new_data_scope_policy False [] []]"

definition add_policy :: "policy \<Rightarrow> policy list \<Rightarrow> policy list" where
  "add_policy p ps = ps @ [p]"

text \<open>\<open>f"{policy.name}: {result.reason}"\<close>; a missing reason prints as None.\<close>

definition warning_text :: "policy \<Rightarrow> policy_result \<Rightarrow> string" where
  "warning_text p r = policy_name p @ '': '' @ (case pr_reason r of None \<Rightarrow> ''None'' | Some t \<Rightarrow> t)"

fun engine_loop ::
  "(string list \<Rightarrow> string list) \<Rightarrow> policy list \<Rightarrow> string list \<Rightarrow> policy_context \<Rightarrow> policy_result" where
  "engine_loop so [] warnings c =
     (if warnings \<noteq> [] then \<lparr>pr_decision = WARN, pr_reason = Some (join ''; '' warnings), pr_details = []\<rparr>
      else plain_result ALLOW)"
| "engine_loop so (p # ps) warnings c =
     (let r = policy_evaluate so p c in
      if pr_decision r = DENY then r
      else engine_loop so ps (if pr_decision r = WARN then warnings @ [warning_text p r] else warnings) c)"

definition engine_evaluate :: "(string list \<Rightarrow> string list) \<Rightarrow> policy list \<Rightarrow> policy_context \<Rightarrow> policy_result" where
  "engine_evaluate so ps c = engine_loop so ps [] c"

definition check_exec_request ::
  "(string list \<Rightarrow> string list) \<Rightarrow> policy list \<Rightarrow> uuid \<Rightarrow> string \<Rightarrow> uuid \<Rightarrow> uuid \<Rightarrow> string \<Rightarrow> string option \<Rightarrow>
     string list option \<Rightarrow> string option \<Rightarrow> string option \<Rightarrow> policy_result" where
  "check_exec_request so ps session_id tenant_id requester provider action purpose data_scope risk exec_id =
     engine_evaluate so ps
       \<lparr>pc_session_id = session_id, pc_tenant_id = tenant_id, pc_requester_agent_id = requester,
        pc_provider_agent_id = provider, pc_action = action, pc_purpose = purpose,
        pc_data_scope = (case data_scope of None \<Rightarrow> [] | Some l \<Rightarrow> l), pc_risk_level = risk,
        pc_exec_id = exec_id, pc_metadata = []\<rparr>"

section \<open>Lemmas\<close>

lemma engine_loop_deny:
  "pr_decision (engine_loop so ps w c) = DENY \<longleftrightarrow> (\<exists>p\<in>set ps. pr_decision (policy_evaluate so p c) = DENY)"
  by (induction so ps w c rule: engine_loop.induct) (auto simp: plain_result_def Let_def)

lemma engine_loop_first:
  "find (\<lambda>p. pr_decision (policy_evaluate so p c) = DENY) ps = Some p \<Longrightarrow>
     engine_loop so ps w c = policy_evaluate so p c"
  by (induction so ps w c rule: engine_loop.induct) (auto simp: Let_def split: if_splits)

lemma engine_loop_append:
  "pr_decision (engine_loop so ps w c) = DENY \<Longrightarrow> engine_loop so (ps @ qs) w c = engine_loop so ps w c"
  by (induction so ps w c rule: engine_loop.induct)
    (auto simp: plain_result_def Let_def split: if_splits)

lemma engine_loop_pass:
  "\<forall>p\<in>set ps. pr_decision (policy_evaluate so p c) \<noteq> DENY \<Longrightarrow>
     engine_loop so ps w c =
       (let ws = w @ map (\<lambda>p. warning_text p (policy_evaluate so p c))
                   (filter (\<lambda>p. pr_decision (policy_evaluate so p c) = WARN) ps)
        in if ws \<noteq> [] then \<lparr>pr_decision = WARN, pr_reason = Some (join ''; '' ws), pr_details = []\<rparr>
           else plain_result ALLOW)"
  by (induction so ps w c rule: engine_loop.induct) (auto simp: Let_def)

lemma risk_evaluate_high:
  "pr_decision (risk_evaluate RISK_HIGH c) = DENY \<longleftrightarrow> pc_risk_level c = Some ''critical''"
  by (auto simp: risk_evaluate_def str_true_def risk_level_of_def plain_result_def Let_def split: option.splits)

lemma purpose_evaluate_free: "pr_decision (purpose_evaluate False [] c) = ALLOW"
  by (simp add: purpose_evaluate_def plain_result_def)

lemma scope_evaluate_free: "pr_decision (scope_evaluate (\<lambda>xs. xs) False [] s c) \<noteq> DENY"
  by (simp add: scope_evaluate_def scope_meet_def plain_result_def Let_def)

lemma risk_level_of_value [simp]: "risk_level_of (risk_level_value r) = Some r"
  by (cases r) (simp_all add: risk_level_of_def)

lemma risk_level_of_SomeD: "risk_level_of s = Some r \<Longrightarrow> s = risk_level_value r"
  by (auto simp: risk_level_of_def split: if_splits)

text \<open>C36: the engine's answer is that of the first denying policy; with none it is a warning that joins the
  warnings in policy order, and otherwise it allows.\<close>

theorem engine_evaluate_spec:
  "engine_evaluate so ps c =
     (case find (\<lambda>p. pr_decision (policy_evaluate so p c) = DENY) ps of
        Some p \<Rightarrow> policy_evaluate so p c
      | None \<Rightarrow>
          (let ws = map (\<lambda>p. warning_text p (policy_evaluate so p c))
                      (filter (\<lambda>p. pr_decision (policy_evaluate so p c) = WARN) ps)
           in if ws = [] then plain_result ALLOW
              else \<lparr>pr_decision = WARN, pr_reason = Some (join ''; '' ws), pr_details = []\<rparr>))"
proof (cases "find (\<lambda>p. pr_decision (policy_evaluate so p c) = DENY) ps")
  case None
  then have "\<forall>p\<in>set ps. pr_decision (policy_evaluate so p c) \<noteq> DENY" by (simp add: find_None_iff)
  then show ?thesis using None engine_loop_pass [of ps so c "[]"] by (auto simp: engine_evaluate_def Let_def)
next
  case (Some p)
  then show ?thesis by (simp add: engine_evaluate_def engine_loop_first)
qed

text \<open>Adding a policy never turns a denial into a permission, and with the default stack a request is
  denied exactly when it declares the risk level critical, whoever asks for whatever purpose.\<close>

theorem engine_monotone_default:
  "(pr_decision (engine_evaluate so ps c) = DENY \<longrightarrow> engine_evaluate so (add_policy p ps) c = engine_evaluate so ps c) \<and>
   (\<not> pr_is_allowed (check_exec_request (\<lambda>xs. xs) default_policies sid tenant req prov act purpose scope risk eid)
      \<longleftrightarrow> risk = Some ''critical'')"
proof
  show "pr_decision (engine_evaluate so ps c) = DENY \<longrightarrow>
      engine_evaluate so (add_policy p ps) c = engine_evaluate so ps c"
    by (simp add: engine_evaluate_def add_policy_def engine_loop_append)
next
  have allowed: "\<not> pr_is_allowed r \<longleftrightarrow> pr_decision r = DENY" for r
    by (cases "pr_decision r") (simp_all add: pr_is_allowed_def)
  show "\<not> pr_is_allowed (check_exec_request (\<lambda>xs. xs) default_policies sid tenant req prov act purpose scope risk eid)
      \<longleftrightarrow> risk = Some ''critical''"
    unfolding allowed check_exec_request_def engine_evaluate_def engine_loop_deny default_policies_def
    by (simp add: new_data_scope_policy_def risk_evaluate_high purpose_evaluate_free scope_evaluate_free
        plain_result_def)
qed

theorem engine_monotone_default_witness:
  "engine_evaluate id (add_policy TenantIsolationPolicy [PurposePolicy True []])
     \<lparr>pc_session_id = 1, pc_tenant_id = ''t'', pc_requester_agent_id = 2, pc_provider_agent_id = 3,
      pc_action = ''a'', pc_purpose = None, pc_data_scope = [], pc_risk_level = None, pc_exec_id = None,
      pc_metadata = []\<rparr> =
   engine_evaluate id [PurposePolicy True []]
     \<lparr>pc_session_id = 1, pc_tenant_id = ''t'', pc_requester_agent_id = 2, pc_provider_agent_id = 3,
      pc_action = ''a'', pc_purpose = None, pc_data_scope = [], pc_risk_level = None, pc_exec_id = None,
      pc_metadata = []\<rparr>" (is "engine_evaluate id _ ?c = _")
proof -
  have "pr_decision (engine_evaluate id [PurposePolicy True []] ?c) = DENY" by code_simp
  then show ?thesis
    using engine_monotone_default [of id "[PurposePolicy True []]" ?c TenantIsolationPolicy] by blast
qed

end
