(* ===== verification/Session_Model.thy ===== *)
theory Session_Model
  imports Py_Values
begin

text \<open>
  \<open>src/session/session.py\<close>: offers, execution records with their two indexes, and the session. The
  clock, fresh ids and \<open>isoformat\<close> are arguments; the score of an offer is validated by its model
  (between 0 and 1), which the operation that builds one answers with None.
\<close>

datatype session_status = SESS_NEGOTIATING | SESS_ACTIVE | SESS_CLOSED | SESS_EXPIRED

fun session_status_value :: "session_status \<Rightarrow> string" where
  "session_status_value SESS_NEGOTIATING = ''negotiating''"
| "session_status_value SESS_ACTIVE = ''active''"
| "session_status_value SESS_CLOSED = ''closed''"
| "session_status_value SESS_EXPIRED = ''expired''"

datatype execution_status =
    EXEC_PENDING
  | EXEC_ACCEPTED
  | EXEC_IN_PROGRESS
  | EXEC_COMPLETED
  | EXEC_FAILED
  | EXEC_REJECTED

fun execution_status_value :: "execution_status \<Rightarrow> string" where
  "execution_status_value EXEC_PENDING = ''pending''"
| "execution_status_value EXEC_ACCEPTED = ''accepted''"
| "execution_status_value EXEC_IN_PROGRESS = ''in_progress''"
| "execution_status_value EXEC_COMPLETED = ''completed''"
| "execution_status_value EXEC_FAILED = ''failed''"
| "execution_status_value EXEC_REJECTED = ''rejected''"

record execution_record =
  er_exec_id :: uuid
  er_correlation_id :: uuid
  er_idempotency_key :: "string option"
  er_status :: execution_status
  er_requester_conn_id :: string
  er_action :: "string option"
  er_result_view_id :: "string option"
  er_result_valid :: "bool option"
  er_created_at :: datetime
  er_accepted_at :: "datetime option"
  er_completed_at :: "datetime option"
  er_policy_allowed :: bool
  er_policy_reason :: "string option"

definition er_to_dict :: "(datetime \<Rightarrow> string) \<Rightarrow> execution_record \<Rightarrow> payload" where
  "er_to_dict isoformat r =
     [(''exec_id'', JStr (uuid_str (er_exec_id r))),
      (''correlation_id'', JStr (uuid_str (er_correlation_id r))),
      (''idempotency_key'', jopt (er_idempotency_key r)),
      (''status'', JStr (execution_status_value (er_status r))),
      (''action'', jopt (er_action r)),
      (''created_at'', JStr (isoformat (er_created_at r))),
      (''completed_at'', jopt (map_option isoformat (er_completed_at r)))]"

record offer =
  of_offer_id :: string
  of_provider_agent_id :: uuid
  of_provider_conn_id :: string
  of_schema_ids :: "string list"
  of_view_ids :: "string list"
  of_requires :: "string list"
  of_accepts :: "string list"
  of_score :: rat
  of_metadata :: payload
  of_created_at :: datetime

text \<open>\<open>f"off_{uuid4().hex[:12]}"\<close>\<close>

definition offer_id_of :: "uuid \<Rightarrow> string" where
  "offer_id_of fresh = ''off_'' @ take 12 (hex_digits 32 (unat fresh))"

definition new_offer ::
  "uuid \<Rightarrow> datetime \<Rightarrow> uuid \<Rightarrow> string \<Rightarrow> string list \<Rightarrow> string list \<Rightarrow> string list \<Rightarrow> string list \<Rightarrow> rat \<Rightarrow> payload \<Rightarrow>
     offer option" where
  "new_offer fresh now agent conn schemas views requires accepts score metadata =
     (if 0 \<le> score \<and> score \<le> 1 then
        Some \<lparr>of_offer_id = offer_id_of fresh, of_provider_agent_id = agent, of_provider_conn_id = conn,
          of_schema_ids = schemas, of_view_ids = views, of_requires = requires, of_accepts = accepts,
          of_score = score, of_metadata = metadata, of_created_at = now\<rparr>
      else None)"

definition of_to_dict :: "offer \<Rightarrow> payload" where
  "of_to_dict r =
     [(''offer_id'', JStr (of_offer_id r)),
      (''provider_agent_id'', JStr (uuid_str (of_provider_agent_id r))),
      (''schema_ids'', JList (map JStr (of_schema_ids r))),
      (''view_ids'', JList (map JStr (of_view_ids r))),
      (''requires'', JList (map JStr (of_requires r))),
      (''accepts'', JList (map JStr (of_accepts r))),
      (''score'', JFloat (of_score r)),
      (''metadata'', JDict (of_metadata r))]"

record session =
  se_ephemeral_interface_id :: uuid
  se_tenant_id :: string
  se_requester_agent_id :: uuid
  se_requester_conn_id :: string
  se_provider_agent_id :: "uuid option"
  se_provider_conn_id :: "string option"
  se_intent_message_id :: uuid
  se_intent :: payload
  se_offers :: "offer list"
  se_chosen_offer_id :: "string option"
  se_chosen_schema_id :: "string option"
  se_chosen_view_id :: "string option"
  se_status :: session_status
  se_created_at :: datetime
  se_activated_at :: "datetime option"
  se_closed_at :: "datetime option"
  se_negotiation_ttl_seconds :: int
  se_session_ttl_seconds :: int
  se_executions :: "execution_record list"
  se_exec_index :: "(string, nat) pydict"
  se_idempotency_index :: "(string, nat) pydict"
  se_flow_agents :: "string list"
  se_flow_entry_point :: "string option"
  se_flow_current_step :: int
  se_flow_results :: payload
  se_aggregated_offer_id :: "string option"

definition new_session ::
  "uuid \<Rightarrow> datetime \<Rightarrow> string \<Rightarrow> uuid \<Rightarrow> string \<Rightarrow> uuid \<Rightarrow> payload \<Rightarrow> int \<Rightarrow> int \<Rightarrow> string list \<Rightarrow> string option \<Rightarrow> session" where
  "new_session fresh now tenant requester conn intent_id intent neg_ttl ttl agents entry =
     \<lparr>se_ephemeral_interface_id = fresh, se_tenant_id = tenant, se_requester_agent_id = requester,
      se_requester_conn_id = conn, se_provider_agent_id = None, se_provider_conn_id = None,
      se_intent_message_id = intent_id, se_intent = intent, se_offers = [], se_chosen_offer_id = None,
      se_chosen_schema_id = None, se_chosen_view_id = None, se_status = SESS_NEGOTIATING,
      se_created_at = now, se_activated_at = None, se_closed_at = None,
      se_negotiation_ttl_seconds = neg_ttl, se_session_ttl_seconds = ttl, se_executions = [],
      se_exec_index = [], se_idempotency_index = [], se_flow_agents = agents, se_flow_entry_point = entry,
      se_flow_current_step = 0, se_flow_results = [], se_aggregated_offer_id = None\<rparr>"

definition se_has_multi_agent_flow :: "session \<Rightarrow> bool" where
  "se_has_multi_agent_flow s = (1 < length (se_flow_agents s))"

definition se_expires_at :: "session \<Rightarrow> datetime" where
  "se_expires_at s =
     (if se_status s = SESS_NEGOTIATING then se_created_at s + td_sec (se_negotiation_ttl_seconds s)
      else case (se_status s, se_activated_at s) of
        (SESS_ACTIVE, Some t) \<Rightarrow> t + td_sec (se_session_ttl_seconds s)
      | _ \<Rightarrow> se_created_at s)"

definition se_is_expired :: "datetime \<Rightarrow> session \<Rightarrow> bool" where
  "se_is_expired now s = (se_expires_at s < now)"

definition se_add_offer :: "offer \<Rightarrow> session \<Rightarrow> session" where
  "se_add_offer x s = s\<lparr>se_offers := se_offers s @ [x]\<rparr>"

definition se_get_offer :: "string \<Rightarrow> session \<Rightarrow> offer option" where
  "se_get_offer i s = find (\<lambda>x. of_offer_id x = i) (se_offers s)"

definition se_activate ::
  "datetime \<Rightarrow> string \<Rightarrow> string option \<Rightarrow> string option \<Rightarrow> session \<Rightarrow> bool \<times> session" where
  "se_activate now offer_id schema view s =
     (case se_get_offer offer_id s of
        None \<Rightarrow> (False, s)
      | Some x \<Rightarrow> (True, s\<lparr>se_chosen_offer_id := Some offer_id,
          se_provider_agent_id := Some (of_provider_agent_id x),
          se_provider_conn_id := Some (of_provider_conn_id x),
          se_chosen_schema_id := schema, se_chosen_view_id := view,
          se_status := SESS_ACTIVE, se_activated_at := Some now\<rparr>))"

definition se_close :: "datetime \<Rightarrow> session \<Rightarrow> session" where
  "se_close now s = s\<lparr>se_status := SESS_CLOSED, se_closed_at := Some now\<rparr>"

definition se_to_summary_dict :: "session \<Rightarrow> payload" where
  "se_to_summary_dict s =
     [(''ephemeral_interface_id'', JStr (uuid_str (se_ephemeral_interface_id s))),
      (''tenant_id'', JStr (se_tenant_id s)),
      (''status'', JStr (session_status_value (se_status s))),
      (''requester'', JStr (uuid_str (se_requester_agent_id s))),
      (''provider'', jopt (map_option uuid_str (se_provider_agent_id s))),
      (''offer_count'', JInt (int (length (se_offers s)))),
      (''chosen_offer_id'', jopt (se_chosen_offer_id s)),
      (''execution_count'', JInt (int (length (se_executions s))))]"

section \<open>Execution tracking\<close>

definition se_add_execution :: "execution_record \<Rightarrow> session \<Rightarrow> session" where
  "se_add_execution r s =
     (let idx = length (se_executions s) in
      s\<lparr>se_executions := se_executions s @ [r],
        se_exec_index := dset (uuid_str (er_exec_id r)) idx (se_exec_index s),
        se_idempotency_index :=
          (if str_true (er_idempotency_key r) then dset (the (er_idempotency_key r)) idx (se_idempotency_index s)
           else se_idempotency_index s)\<rparr>)"

definition lookup_execution :: "(string, nat) pydict \<Rightarrow> string \<Rightarrow> session \<Rightarrow> nat option" where
  "lookup_execution ix key s =
     (case dget ix key of
        None \<Rightarrow> None
      | Some i \<Rightarrow> if i < length (se_executions s) then Some i else None)"

definition se_get_execution :: "string \<Rightarrow> session \<Rightarrow> execution_record option" where
  "se_get_execution key s = map_option (\<lambda>i. se_executions s ! i) (lookup_execution (se_exec_index s) key s)"

definition se_get_execution_by_idempotency_key :: "string \<Rightarrow> session \<Rightarrow> execution_record option" where
  "se_get_execution_by_idempotency_key key s =
     map_option (\<lambda>i. se_executions s ! i) (lookup_execution (se_idempotency_index s) key s)"

text \<open>The keyword arguments of \<open>update_execution_status\<close>; None is an argument that is not given.\<close>

record exec_update =
  eu_accepted_at :: "datetime option"
  eu_completed_at :: "datetime option"
  eu_result_view_id :: "string option option"
  eu_result_valid :: "bool option option"

definition er_update :: "datetime \<Rightarrow> execution_status \<Rightarrow> exec_update \<Rightarrow> execution_record \<Rightarrow> execution_record" where
  "er_update now st kw r =
     (let r = r\<lparr>er_status := st\<rparr> in
      if st = EXEC_ACCEPTED then
        r\<lparr>er_accepted_at := Some (case eu_accepted_at kw of None \<Rightarrow> now | Some t \<Rightarrow> t)\<rparr>
      else if st = EXEC_COMPLETED \<or> st = EXEC_FAILED then
        let r = r\<lparr>er_completed_at := Some (case eu_completed_at kw of None \<Rightarrow> now | Some t \<Rightarrow> t)\<rparr>;
            r = (case eu_result_view_id kw of None \<Rightarrow> r | Some v \<Rightarrow> r\<lparr>er_result_view_id := v\<rparr>)
        in (case eu_result_valid kw of None \<Rightarrow> r | Some v \<Rightarrow> r\<lparr>er_result_valid := v\<rparr>)
      else r)"

definition se_update_execution_status ::
  "datetime \<Rightarrow> string \<Rightarrow> execution_status \<Rightarrow> exec_update \<Rightarrow> session \<Rightarrow> bool \<times> session" where
  "se_update_execution_status now key st kw s =
     (case lookup_execution (se_exec_index s) key s of
        None \<Rightarrow> (False, s)
      | Some i \<Rightarrow> (True, s\<lparr>se_executions := (se_executions s)[i := er_update now st kw (se_executions s ! i)]\<rparr>))"

definition se_has_pending_executions :: "session \<Rightarrow> bool" where
  "se_has_pending_executions s =
     (\<exists>r\<in>set (se_executions s). er_status r \<in> {EXEC_PENDING, EXEC_ACCEPTED, EXEC_IN_PROGRESS})"

section \<open>The indexes\<close>

definition exec_index_ok :: "session \<Rightarrow> bool" where
  "exec_index_ok s =
     ((\<forall>k. dget (se_exec_index s) k =
        (let is = filter (\<lambda>i. uuid_str (er_exec_id (se_executions s ! i)) = k) [0..<length (se_executions s)]
         in if is = [] then None else Some (last is))) \<and>
      (\<forall>k. dget (se_idempotency_index s) k =
        (let is = filter (\<lambda>i. str_true (er_idempotency_key (se_executions s ! i)) \<and>
             er_idempotency_key (se_executions s ! i) = Some k) [0..<length (se_executions s)]
         in if is = [] then None else Some (last is))))"

lemma er_update_ids [simp]:
  "er_exec_id (er_update now st kw r) = er_exec_id r"
  "er_idempotency_key (er_update now st kw r) = er_idempotency_key r"
  by (simp_all add: er_update_def Let_def split: option.split)

lemma exec_index_ok_new [simp]: "exec_index_ok (new_session f n t r c ii i nt ttl ag en)"
  by (simp add: exec_index_ok_def new_session_def)

lemma filter_snoc_nth:
  "filter (\<lambda>i. P ((xs @ [x]) ! i)) [0..<length (xs @ [x])] =
     filter (\<lambda>i. P (xs ! i)) [0..<length xs] @ (if P x then [length xs] else [])"
proof -
  have "filter (\<lambda>i. P ((xs @ [x]) ! i)) [0..<length xs] = filter (\<lambda>i. P (xs ! i)) [0..<length xs]"
    by (rule filter_cong) (auto simp: nth_append)
  then show ?thesis by (simp add: nth_append)
qed

lemma exec_index_ok_add: "exec_index_ok s \<Longrightarrow> exec_index_ok (se_add_execution r s)"
  using filter_snoc_nth [of "\<lambda>x. uuid_str (er_exec_id x) = k" "se_executions s" r for k]
    filter_snoc_nth [of "\<lambda>x. str_true (er_idempotency_key x) \<and> er_idempotency_key x = Some k" "se_executions s" r for k]
  by (auto simp: exec_index_ok_def se_add_execution_def Let_def elim: str_trueE)

lemma exec_index_ok_update:
  "exec_index_ok s \<Longrightarrow> i < length (se_executions s) \<Longrightarrow> er_exec_id r = er_exec_id (se_executions s ! i) \<Longrightarrow>
     er_idempotency_key r = er_idempotency_key (se_executions s ! i) \<Longrightarrow>
     exec_index_ok (s\<lparr>se_executions := (se_executions s)[i := r]\<rparr>)"
proof -
  assume ok: "exec_index_ok s" and i: "i < length (se_executions s)"
    and r: "er_exec_id r = er_exec_id (se_executions s ! i)"
      "er_idempotency_key r = er_idempotency_key (se_executions s ! i)"
  have "er_exec_id ((se_executions s)[i := r] ! j) = er_exec_id (se_executions s ! j)"
    "er_idempotency_key ((se_executions s)[i := r] ! j) = er_idempotency_key (se_executions s ! j)" for j
    using i r by (cases "j = i"; simp)+
  then show ?thesis using ok by (simp add: exec_index_ok_def)
qed

text \<open>The index finds what a search from the newest record finds.\<close>

lemma last_index_find:
  "(let is = filter (\<lambda>i. P (xs ! i)) [0..<length xs] in if is = [] then None else Some (xs ! last is)) =
     find P (rev xs)"
proof (induction xs rule: rev_induct)
  case (snoc x xs)
  let ?is = "filter (\<lambda>i. P (xs ! i)) [0..<length xs]"
  have "(xs @ [x]) ! last ?is = xs ! last ?is" if "?is \<noteq> []"
  proof -
    have "last ?is \<in> set ?is" using that by (rule last_in_set)
    then show ?thesis by (simp add: nth_append)
  qed
  with snoc show ?case using filter_snoc_nth [of P xs x] by (auto simp: Let_def)
qed simp

lemma lookup_execution_spec:
  assumes "\<forall>k. dget ix k = (let is = filter (\<lambda>i. Q k (se_executions s ! i)) [0..<length (se_executions s)]
         in if is = [] then None else Some (last is))"
  shows "map_option (\<lambda>i. se_executions s ! i) (lookup_execution ix k s) = find (Q k) (rev (se_executions s))"
proof -
  let ?is = "filter (\<lambda>i. Q k (se_executions s ! i)) [0..<length (se_executions s)]"
  have "last ?is < length (se_executions s)" if "?is \<noteq> []"
    using last_in_set [OF that] by simp
  then show ?thesis
    using assms last_index_find [of "Q k" "se_executions s"] by (auto simp: lookup_execution_def Let_def)
qed

lemma get_execution_find:
  assumes "exec_index_ok s"
  shows "se_get_execution k s = find (\<lambda>r. uuid_str (er_exec_id r) = k) (rev (se_executions s))"
    "se_get_execution_by_idempotency_key k s =
       find (\<lambda>r. str_true (er_idempotency_key r) \<and> er_idempotency_key r = Some k) (rev (se_executions s))"
  using assms lookup_execution_spec [of "se_exec_index s" "\<lambda>k r. uuid_str (er_exec_id r) = k" s k]
    lookup_execution_spec [of "se_idempotency_index s"
      "\<lambda>k r. str_true (er_idempotency_key r) \<and> er_idempotency_key r = Some k" s k]
  by (simp_all add: exec_index_ok_def se_get_execution_def se_get_execution_by_idempotency_key_def)

text \<open>Histories of a session's execution table.\<close>

inductive exec_history :: "session \<Rightarrow> bool" where
  new: "exec_history (new_session f n t r c ii i nt ttl ag en)"
| add: "exec_history s \<Longrightarrow> exec_history (se_add_execution r s)"
| update: "exec_history s \<Longrightarrow> exec_history (snd (se_update_execution_status now k st kw s))"

lemma update_execution_index:
  "exec_index_ok s \<Longrightarrow> exec_index_ok (snd (se_update_execution_status now k st kw s))"
  by (auto simp: se_update_execution_status_def lookup_execution_def exec_index_ok_update
      split: option.split if_splits)

lemma exec_history_ok: "exec_history s \<Longrightarrow> exec_index_ok s"
  by (induction rule: exec_history.induct) (simp_all add: exec_index_ok_add update_execution_index)

text \<open>The execution indexes of a session answer what a search of the execution list from its newest end
  answers, by execution id and by idempotency key; and an update through the index changes the status
  of exactly that record, or nothing when there is none.\<close>

theorem se_execution_lookup:
  assumes "exec_history s" and "se_update_execution_status now k st kw s = (ok, s')"
  shows "se_get_execution k s = find (\<lambda>r. uuid_str (er_exec_id r) = k) (rev (se_executions s)) \<and>
    se_get_execution_by_idempotency_key key s =
      find (\<lambda>r. str_true (er_idempotency_key r) \<and> er_idempotency_key r = Some key) (rev (se_executions s)) \<and>
    (ok \<longleftrightarrow> se_get_execution k s \<noteq> None) \<and> (\<not> ok \<longrightarrow> s' = s) \<and>
    se_get_execution k s' = map_option (er_update now st kw) (se_get_execution k s) \<and>
    (\<forall>j. j \<noteq> k \<longrightarrow> se_get_execution j s' = se_get_execution j s)"
proof -
  have ok: "exec_index_ok s" using assms(1) by (rule exec_history_ok)
  have upd: "(ok \<longleftrightarrow> se_get_execution k s \<noteq> None) \<and> (\<not> ok \<longrightarrow> s' = s) \<and>
      se_get_execution k s' = map_option (er_update now st kw) (se_get_execution k s)"
    using assms(2)
    by (auto simp: se_update_execution_status_def se_get_execution_def lookup_execution_def
        split: option.splits if_splits)
  have "se_get_execution j s' = se_get_execution j s" if "j \<noteq> k" for j
  proof (cases "lookup_execution (se_exec_index s) k s")
    case None
    then show ?thesis using assms(2) by (simp add: se_update_execution_status_def)
  next
    case (Some i)
    have i: "i < length (se_executions s)"
      and s': "s' = s\<lparr>se_executions := (se_executions s)[i := er_update now st kw (se_executions s ! i)]\<rparr>"
      using Some assms(2) by (auto simp: se_update_execution_status_def lookup_execution_def split: option.splits if_splits)
    have id: "dget (se_exec_index s) l = Some m \<Longrightarrow> uuid_str (er_exec_id (se_executions s ! m)) = l" for l m
    proof -
      let ?is = "filter (\<lambda>i. uuid_str (er_exec_id (se_executions s ! i)) = l) [0..<length (se_executions s)]"
      assume "dget (se_exec_index s) l = Some m"
      then have "?is \<noteq> []" "m = last ?is" using ok by (auto simp: exec_index_ok_def Let_def split: if_splits)
      then have "m \<in> set ?is" using last_in_set by metis
      then show "uuid_str (er_exec_id (se_executions s ! m)) = l" by simp
    qed
    have "dget (se_exec_index s) j \<noteq> Some i"
      using id [of j i] id [of k i] Some that by (auto simp: lookup_execution_def split: option.splits if_splits)
    then show ?thesis using i s'
      by (auto simp: se_get_execution_def lookup_execution_def split: option.split if_splits)
  qed
  with upd get_execution_find [OF ok] show ?thesis by blast
qed

definition ex_exec :: execution_record where
  "ex_exec = \<lparr>er_exec_id = 5, er_correlation_id = 6, er_idempotency_key = Some ''k'', er_status = EXEC_PENDING,
     er_requester_conn_id = ''c'', er_action = None, er_result_view_id = None, er_result_valid = None,
     er_created_at = 0, er_accepted_at = None, er_completed_at = None, er_policy_allowed = True,
     er_policy_reason = None\<rparr>"

definition ex_session :: session where
  "ex_session = se_add_execution ex_exec (new_session 1 0 ''acme'' 2 ''c'' 3 [] 30 300 [] None)"

theorem se_execution_lookup_witness:
  "map_option er_status (se_get_execution (uuid_str 5) (snd (se_update_execution_status 9 (uuid_str 5) EXEC_COMPLETED
      \<lparr>eu_accepted_at = None, eu_completed_at = None, eu_result_view_id = None, eu_result_valid = None\<rparr> ex_session)))
    = Some EXEC_COMPLETED"
proof -
  have h: "exec_history ex_session" unfolding ex_session_def by (intro exec_history.intros)
  have "se_get_execution (uuid_str 5) ex_session = Some ex_exec" by code_simp
  then show ?thesis
    using se_execution_lookup [OF h prod.collapse [symmetric], where now = 9 and k = "uuid_str 5"
        and st = EXEC_COMPLETED and key = "''k''" and kw =
        "\<lparr>eu_accepted_at = None, eu_completed_at = None, eu_result_view_id = None, eu_result_valid = None\<rparr>"]
    by (simp add: er_update_def Let_def)
qed

end
