(* ===== verification/Session_Manager.thy ===== *)
theory Session_Manager
  imports Session_Model
begin

text \<open>
  \<open>src/session/manager.py\<close>: the sessions by id and by intent message, with the operations that
  create, offer, agree, close, validate and expire them. Each method is one transition under the
  manager's lock; the steps of the sessions are these and the writes of the handler in place. \<open>_storage\<close> is kept by the constructor and used by no method.
\<close>

section \<open>State and operations\<close>

record session_manager =
  sm_negotiation_ttl :: int
  sm_session_ttl :: int
  sm_cleanup_interval :: rat
  sm_sessions :: "(uuid, session) pydict"
  sm_sessions_by_intent :: "(uuid, uuid) pydict"

definition sm_init :: "int \<Rightarrow> int \<Rightarrow> rat \<Rightarrow> session_manager" where
  "sm_init neg ttl interval = \<lparr>sm_negotiation_ttl = neg, sm_session_ttl = ttl, sm_cleanup_interval = interval,
     sm_sessions = [], sm_sessions_by_intent = []\<rparr>"

definition expire_session :: "datetime \<Rightarrow> session \<Rightarrow> session" where
  "expire_session now s =
     (if se_is_expired now s \<and> se_status s \<noteq> SESS_CLOSED \<and> se_status s \<noteq> SESS_EXPIRED
      then s\<lparr>se_status := SESS_EXPIRED, se_closed_at := Some now\<rparr> else s)"

definition sm_cleanup_expired :: "datetime \<Rightarrow> session_manager \<Rightarrow> session_manager" where
  "sm_cleanup_expired now m = m\<lparr>sm_sessions := dmap (expire_session now) (sm_sessions m)\<rparr>"

definition sm_create_session ::
  "uuid \<Rightarrow> datetime \<Rightarrow> string \<Rightarrow> uuid \<Rightarrow> string \<Rightarrow> uuid \<Rightarrow> payload \<Rightarrow> string list \<Rightarrow> string option \<Rightarrow>
     session_manager \<Rightarrow> session \<times> session_manager" where
  "sm_create_session fresh now tenant requester conn intent_id intent agents entry m =
     (let s = new_session fresh now tenant requester conn intent_id intent (sm_negotiation_ttl m)
                (sm_session_ttl m) agents entry
      in (s, m\<lparr>sm_sessions := dset (se_ephemeral_interface_id s) s (sm_sessions m),
               sm_sessions_by_intent := dset intent_id (se_ephemeral_interface_id s) (sm_sessions_by_intent m)\<rparr>))"

definition sm_get_session :: "uuid \<Rightarrow> session_manager \<Rightarrow> session option" where
  "sm_get_session i m = dget (sm_sessions m) i"

definition sm_get_session_by_intent :: "uuid \<Rightarrow> session_manager \<Rightarrow> session option" where
  "sm_get_session_by_intent t m =
     (case dget (sm_sessions_by_intent m) t of None \<Rightarrow> None | Some i \<Rightarrow> dget (sm_sessions m) i)"

definition sm_put :: "session \<Rightarrow> uuid \<Rightarrow> session_manager \<Rightarrow> session_manager" where
  "sm_put s i m = m\<lparr>sm_sessions := dset i s (sm_sessions m)\<rparr>"

text \<open>\<open>Inl ()\<close> is the validation error of an offer whose score is out of range.\<close>

definition sm_add_offer ::
  "uuid \<Rightarrow> datetime \<Rightarrow> uuid \<Rightarrow> uuid \<Rightarrow> string \<Rightarrow> string list \<Rightarrow> string list \<Rightarrow> string list \<Rightarrow> string list \<Rightarrow> rat \<Rightarrow>
     payload \<Rightarrow> session_manager \<Rightarrow> (unit + offer option) \<times> session_manager" where
  "sm_add_offer fresh now i agent conn schemas views requires accepts score metadata m =
     (case dget (sm_sessions m) i of
        None \<Rightarrow> (Inr None, m)
      | Some s \<Rightarrow>
          if se_status s \<noteq> SESS_NEGOTIATING then (Inr None, m)
          else if se_is_expired now s then (Inr None, m)
          else case new_offer fresh now agent conn schemas views requires accepts score metadata of
              None \<Rightarrow> (Inl (), m)
            | Some x \<Rightarrow> (Inr (Some x), sm_put (se_add_offer x s) i m))"

definition sm_agree ::
  "datetime \<Rightarrow> uuid \<Rightarrow> string \<Rightarrow> string option \<Rightarrow> string option \<Rightarrow> session_manager \<Rightarrow>
     session option \<times> session_manager" where
  "sm_agree now i offer_id schema view m =
     (case dget (sm_sessions m) i of
        None \<Rightarrow> (None, m)
      | Some s \<Rightarrow>
          if se_status s \<noteq> SESS_NEGOTIATING then (None, m)
          else case se_activate now offer_id schema view s of
              (False, _) \<Rightarrow> (None, m)
            | (True, s') \<Rightarrow> (Some s', sm_put s' i m))"

definition sm_close_session :: "datetime \<Rightarrow> uuid \<Rightarrow> session_manager \<Rightarrow> session option \<times> session_manager" where
  "sm_close_session now i m =
     (case dget (sm_sessions m) i of
        None \<Rightarrow> (None, m)
      | Some s \<Rightarrow> (Some (se_close now s), sm_put (se_close now s) i m))"

definition sm_validate_session_for_exec ::
  "datetime \<Rightarrow> uuid \<Rightarrow> uuid \<Rightarrow> session_manager \<Rightarrow> bool \<times> string option \<times> session option" where
  "sm_validate_session_for_exec now i sender m =
     (case dget (sm_sessions m) i of
        None \<Rightarrow> (False, Some ''Session not found'', None)
      | Some s \<Rightarrow>
          if se_status s \<noteq> SESS_ACTIVE then
            (False, Some (''Session is '' @ session_status_value (se_status s) @ '', not active''), None)
          else if se_is_expired now s then (False, Some ''Session has expired'', None)
          else let is_requester = (sender = se_requester_agent_id s);
                   is_provider = (Some sender = se_provider_agent_id s)
            in if \<not> (is_requester \<or> is_provider) then (False, Some ''Sender is not a session participant'', None)
               else (True, None, Some s))"

definition sm_list_sessions :: "string option \<Rightarrow> session_status option \<Rightarrow> session_manager \<Rightarrow> session list" where
  "sm_list_sessions tenant status m =
     filter (\<lambda>s. status = None \<or> status = Some (se_status s))
       (filter (\<lambda>s. str_filter tenant (se_tenant_id s)) (dvalues (sm_sessions m)))"

definition sm_set_flow_info :: "uuid \<Rightarrow> string list \<Rightarrow> string option \<Rightarrow> string \<Rightarrow> session_manager \<Rightarrow> bool \<times> session_manager" where
  "sm_set_flow_info i agents entry aggregated m =
     (case dget (sm_sessions m) i of
        None \<Rightarrow> (False, m)
      | Some s \<Rightarrow> (True, sm_put (s\<lparr>se_aggregated_offer_id := Some aggregated, se_flow_agents := agents,
          se_flow_entry_point := entry\<rparr>) i m))"

definition sm_update_flow_result :: "uuid \<Rightarrow> string \<Rightarrow> json \<Rightarrow> session_manager \<Rightarrow> bool \<times> session_manager" where
  "sm_update_flow_result i agent res m =
     (case dget (sm_sessions m) i of
        None \<Rightarrow> (False, m)
      | Some s \<Rightarrow> (True, sm_put (s\<lparr>se_flow_results := dset agent res (se_flow_results s),
          se_flow_current_step := se_flow_current_step s + 1\<rparr>) i m))"

definition sm_get_flow_results :: "uuid \<Rightarrow> session_manager \<Rightarrow> payload" where
  "sm_get_flow_results i m = (case dget (sm_sessions m) i of None \<Rightarrow> [] | Some s \<Rightarrow> se_flow_results s)"

definition sm_session_count :: "session_manager \<Rightarrow> int" where
  "sm_session_count m = int (length (sm_sessions m))"

definition sm_active_count :: "session_manager \<Rightarrow> int" where
  "sm_active_count m = int (length (filter (\<lambda>s. se_status s = SESS_ACTIVE) (dvalues (sm_sessions m))))"

section \<open>Steps\<close>

text \<open>
  What happens to the sessions: the operations above, and what the handler of \<open>src/transport/handler.py\<close> writes into a
  session that it got from \<open>get_session\<close>: the agreement to an aggregated offer, which is not made through \<open>agree\<close>
  and looks at no status, and the updates of executions.
\<close>

inductive sm_step :: "session_manager \<Rightarrow> session_manager \<Rightarrow> bool" where
  cleanup: "sm_step m (sm_cleanup_expired now m)"
| create: "\<not> din fresh (sm_sessions m) \<Longrightarrow>
    sm_step m (snd (sm_create_session fresh now t r c ii intent ag en m))"
| add_offer: "sm_step m (snd (sm_add_offer fresh now i g c ss vs rs as sc md m))"
| agree: "sm_step m (snd (sm_agree now i x schema view m))"
| close: "sm_step m (snd (sm_close_session now i m))"
| set_flow: "sm_step m (snd (sm_set_flow_info i ag en x m))"
| flow_result: "sm_step m (snd (sm_update_flow_result i g res m))"
| agree_in_place: "dget (sm_sessions m) i = Some s \<Longrightarrow> se_aggregated_offer_id s = Some x \<Longrightarrow>
    sm_step m (sm_put (s\<lparr>se_status := SESS_ACTIVE, se_activated_at := Some now, se_chosen_offer_id := Some x,
      se_provider_agent_id := Some p, se_provider_conn_id := Some cn\<rparr>) i m)"
| update_in_place: "dget (sm_sessions m) i = Some s \<Longrightarrow>
    sm_step m (sm_put (snd (se_update_execution_status now key st kw s)) i m)"

inductive sm_reachable :: "session_manager \<Rightarrow> bool" where
  init: "sm_reachable (sm_init neg ttl interval)"
| step: "sm_reachable m \<Longrightarrow> sm_step m m' \<Longrightarrow> sm_reachable m'"

section \<open>Invariant\<close>

definition agreement_ok :: "session \<Rightarrow> bool" where
  "agreement_ok s =
     ((se_status s = SESS_ACTIVE \<longrightarrow> se_activated_at s \<noteq> None \<and> se_chosen_offer_id s \<noteq> None \<and>
        se_provider_agent_id s \<noteq> None \<and> se_provider_conn_id s \<noteq> None) \<and>
      (se_status s = SESS_NEGOTIATING \<longrightarrow> se_provider_agent_id s = None \<and> se_provider_conn_id s = None \<and>
        se_chosen_offer_id s = None \<and> se_activated_at s = None) \<and>
      (se_status s \<in> {SESS_CLOSED, SESS_EXPIRED} \<longrightarrow> se_closed_at s \<noteq> None) \<and>
      (\<forall>x\<in>set (se_offers s). 0 \<le> of_score x \<and> of_score x \<le> 1))"

definition sm_inv :: "session_manager \<Rightarrow> bool" where
  "sm_inv m =
     (dict_ok (sm_sessions m) \<and>
      (\<forall>i s. dget (sm_sessions m) i = Some s \<longrightarrow> se_ephemeral_interface_id s = i \<and> agreement_ok s) \<and>
      (\<forall>t i. dget (sm_sessions_by_intent m) t = Some i \<longrightarrow>
         (\<exists>s. dget (sm_sessions m) i = Some s \<and> se_intent_message_id s = t)))"

lemma sm_put_simps [simp]:
  "sm_sessions (sm_put s i m) = dset i s (sm_sessions m)"
  "sm_sessions_by_intent (sm_put s i m) = sm_sessions_by_intent m"
  by (simp_all add: sm_put_def)

lemma sm_put_inv:
  assumes "sm_inv m" and "dget (sm_sessions m) i = Some s"
    and "se_ephemeral_interface_id s' = se_ephemeral_interface_id s"
      "se_intent_message_id s' = se_intent_message_id s" "agreement_ok s'"
  shows "sm_inv (sm_put s' i m)"
  using assms by (fastforce simp: sm_inv_def)

lemma sm_invD:
  assumes "sm_inv m"
  shows "dget (sm_sessions m) i = Some s \<Longrightarrow> agreement_ok s"
    "dget (sm_sessions m) i = Some s \<Longrightarrow> se_ephemeral_interface_id s = i"
    "dget (sm_sessions_by_intent m) t = Some j \<Longrightarrow> \<exists>s. dget (sm_sessions m) j = Some s \<and> se_intent_message_id s = t"
    "dict_ok (sm_sessions m)"
  using assms by (auto simp: sm_inv_def)

lemma se_get_offer_SomeD: "se_get_offer i s = Some x \<Longrightarrow> x \<in> set (se_offers s) \<and> of_offer_id x = i"
  by (auto simp: se_get_offer_def find_Some_iff)

lemma agreement_activate:
  assumes ok: "agreement_ok s" and run: "se_activate now x schema view s = (True, s')"
  shows "agreement_ok s'"
proof -
  obtain y where y: "se_get_offer x s = Some y" using run by (cases "se_get_offer x s") (simp_all add: se_activate_def)
  have "s' = s\<lparr>se_chosen_offer_id := Some x, se_provider_agent_id := Some (of_provider_agent_id y),
      se_provider_conn_id := Some (of_provider_conn_id y), se_chosen_schema_id := schema, se_chosen_view_id := view,
      se_status := SESS_ACTIVE, se_activated_at := Some now\<rparr>"
    using run by (simp add: se_activate_def y)
  moreover have "y \<in> set (se_offers s)" "of_offer_id y = x" using se_get_offer_SomeD [OF y] by simp_all
  moreover have "\<forall>y\<in>set (se_offers s). 0 \<le> of_score y \<and> of_score y \<le> 1" using ok by (simp add: agreement_ok_def)
  ultimately show ?thesis by (auto simp: agreement_ok_def)
qed

lemma expire_session_ids [simp]:
  "se_ephemeral_interface_id (expire_session now s) = se_ephemeral_interface_id s"
  "se_intent_message_id (expire_session now s) = se_intent_message_id s"
  by (simp_all add: expire_session_def)

lemma agreement_expire: "agreement_ok s \<Longrightarrow> agreement_ok (expire_session now s)"
  by (auto simp: agreement_ok_def expire_session_def)

lemma expire_session_live:
  "se_status (expire_session now s) \<in> {SESS_NEGOTIATING, SESS_ACTIVE} \<Longrightarrow>
     \<not> se_is_expired now (expire_session now s)"
  by (cases "se_is_expired now s \<and> se_status s \<noteq> SESS_CLOSED \<and> se_status s \<noteq> SESS_EXPIRED")
    (auto simp: expire_session_def)

lemma sm_init_inv [inv_intros]: "sm_inv (sm_init neg ttl interval)"
  by (simp add: sm_inv_def sm_init_def)

lemma sm_cleanup_inv [inv_intros]: "sm_inv m \<Longrightarrow> sm_inv (sm_cleanup_expired now m)"
  by (fastforce simp: sm_inv_def sm_cleanup_expired_def agreement_expire)

lemma sm_create_inv:
  assumes "sm_inv m" and "\<not> din fresh (sm_sessions m)"
  shows "sm_inv (snd (sm_create_session fresh now t r c ii intent ag en m))"
  using assms sm_invD(3) [OF assms(1), of _ fresh]
  by (auto simp: sm_inv_def sm_create_session_def new_session_def agreement_ok_def Let_def din_def)

lemma sm_add_offer_inv [inv_intros]:
  "sm_inv m \<Longrightarrow> sm_inv (snd (sm_add_offer fresh now i g c ss vs rs as sc md m))"
  by (auto simp: sm_add_offer_def new_offer_def se_add_offer_def agreement_ok_def dest: sm_invD(1)
      intro!: sm_put_inv split: option.split)

lemma sm_agree_inv [inv_intros]: "sm_inv m \<Longrightarrow> sm_inv (snd (sm_agree now i x schema view m))"
proof -
  assume inv: "sm_inv m"
  have "sm_inv (sm_put s' i m)"
    if "dget (sm_sessions m) i = Some s" "se_activate now x schema view s = (True, s')" for s s'
  proof (rule sm_put_inv [OF inv that(1)])
    show "agreement_ok s'" using agreement_activate that sm_invD(1) [OF inv] by blast
  qed (use that(2) in \<open>auto simp: se_activate_def split: option.splits\<close>)
  then show ?thesis using inv by (auto simp: sm_agree_def split: option.split prod.split bool.split)
qed

lemma sm_close_inv [inv_intros]: "sm_inv m \<Longrightarrow> sm_inv (snd (sm_close_session now i m))"
  by (auto simp: sm_close_session_def se_close_def agreement_ok_def dest: sm_invD(1)
      intro!: sm_put_inv split: option.split)

lemma agreement_flow [simp]:
  "agreement_ok (s\<lparr>se_aggregated_offer_id := a, se_flow_agents := b, se_flow_entry_point := c\<rparr>) = agreement_ok s"
  "agreement_ok (s\<lparr>se_flow_results := d, se_flow_current_step := e\<rparr>) = agreement_ok s"
  by (simp_all add: agreement_ok_def)

lemma sm_set_flow_inv [inv_intros]: "sm_inv m \<Longrightarrow> sm_inv (snd (sm_set_flow_info i ag en x m))"
  by (auto simp: sm_set_flow_info_def dest: sm_invD(1) intro!: sm_put_inv split: option.split)

lemma sm_flow_result_inv [inv_intros]: "sm_inv m \<Longrightarrow> sm_inv (snd (sm_update_flow_result i g res m))"
  by (auto simp: sm_update_flow_result_def dest: sm_invD(1) intro!: sm_put_inv split: option.split)

lemma update_status_frame [simp]:
  "se_status (snd (se_update_execution_status now key st kw s)) = se_status s"
  "se_ephemeral_interface_id (snd (se_update_execution_status now key st kw s)) = se_ephemeral_interface_id s"
  "se_intent_message_id (snd (se_update_execution_status now key st kw s)) = se_intent_message_id s"
  "agreement_ok (snd (se_update_execution_status now key st kw s)) = agreement_ok s"
  by (simp_all add: se_update_execution_status_def agreement_ok_def split: option.split)

lemma sm_agree_in_place_inv [inv_intros]:
  "sm_inv m \<Longrightarrow> dget (sm_sessions m) i = Some s \<Longrightarrow>
    sm_inv (sm_put (s\<lparr>se_status := SESS_ACTIVE, se_activated_at := Some now, se_chosen_offer_id := Some x,
      se_provider_agent_id := Some p, se_provider_conn_id := Some cn\<rparr>) i m)"
  using sm_invD(1) [of m i s] by (auto simp: agreement_ok_def intro!: sm_put_inv)

lemma sm_update_in_place_inv [inv_intros]:
  "sm_inv m \<Longrightarrow> dget (sm_sessions m) i = Some s \<Longrightarrow> sm_inv (sm_put (snd (se_update_execution_status now key st kw s)) i m)"
  by (rule sm_put_inv) (auto dest: sm_invD(1))

lemma sm_step_inv: "sm_step m m' \<Longrightarrow> sm_inv m \<Longrightarrow> sm_inv m'"
  by (induction rule: sm_step.induct) (blast intro: inv_intros sm_create_inv)+

lemma sm_reachable_inv: "sm_reachable m \<Longrightarrow> sm_inv m"
  by (induction rule: sm_reachable.induct) (blast intro: sm_init_inv sm_step_inv)+

section \<open>The life of a session\<close>

text \<open>What no step changes: who asked for the session, for what and when; it never negotiates again, and what it holds
  (its offers, a provider, the time of an agreement or of an end) it does not lose. More is not to be had: an agreement in
  place makes a closed or expired session active again.\<close>

definition evolves :: "session \<Rightarrow> session \<Rightarrow> bool" where
  "evolves s s' =
     (se_ephemeral_interface_id s' = se_ephemeral_interface_id s \<and> se_tenant_id s' = se_tenant_id s \<and>
      se_requester_agent_id s' = se_requester_agent_id s \<and> se_requester_conn_id s' = se_requester_conn_id s \<and>
      se_intent_message_id s' = se_intent_message_id s \<and> se_intent s' = se_intent s \<and> se_created_at s' = se_created_at s \<and>
      (se_status s \<noteq> SESS_NEGOTIATING \<longrightarrow> se_status s' \<noteq> SESS_NEGOTIATING \<and> se_offers s' = se_offers s) \<and>
      (\<exists>later. se_offers s' = se_offers s @ later) \<and>
      (se_provider_agent_id s \<noteq> None \<longrightarrow> se_provider_agent_id s' \<noteq> None) \<and>
      (se_activated_at s \<noteq> None \<longrightarrow> se_activated_at s' \<noteq> None) \<and>
      (se_closed_at s \<noteq> None \<longrightarrow> se_closed_at s' \<noteq> None))"

lemma evolves_refl [simp]: "evolves s s"
  by (simp add: evolves_def)

lemma evolves_trans: "evolves a b \<Longrightarrow> evolves b c \<Longrightarrow> evolves a c"
proof -
  assume 1: "evolves a b" and 2: "evolves b c"
  then have "\<exists>later. se_offers c = se_offers a @ later" by (auto simp: evolves_def)
  then show "evolves a c" using 1 2 by (simp add: evolves_def)
qed

lemma evolves_cases:
  "evolves s (expire_session now s)" "evolves s (se_close now s)"
  "se_status s = SESS_NEGOTIATING \<Longrightarrow> evolves s (se_add_offer x s)"
  "se_status s = SESS_NEGOTIATING \<Longrightarrow> se_activate now y schema view s = (b, s') \<Longrightarrow> evolves s s'"
  "evolves s (s\<lparr>se_aggregated_offer_id := a, se_flow_agents := ag, se_flow_entry_point := en\<rparr>)"
  "evolves s (s\<lparr>se_flow_results := d, se_flow_current_step := e\<rparr>)"
  "evolves s (s\<lparr>se_status := SESS_ACTIVE, se_activated_at := Some now, se_chosen_offer_id := Some z,
      se_provider_agent_id := Some p, se_provider_conn_id := Some cn\<rparr>)"
  "evolves s (snd (se_update_execution_status now key st kw s))"
  by (auto simp: evolves_def expire_session_def se_close_def se_add_offer_def se_activate_def se_update_execution_status_def
      split: option.splits)

lemma sm_step_evolves:
  assumes "sm_step m m'" and "dget (sm_sessions m) i = Some s"
  shows "\<exists>s'. dget (sm_sessions m') i = Some s' \<and> evolves s s'"
  using assms
proof cases
  case (create fresh now t r c ii intent ag en)
  then show ?thesis using assms(2) by (auto simp: sm_create_session_def Let_def new_session_def din_def)
next
  case (agree now j x schema view)
  then show ?thesis
    using assms(2) evolves_cases(4) by (fastforce simp: sm_agree_def split: option.split prod.split bool.split)
qed (use assms(2) in \<open>auto simp: sm_cleanup_expired_def sm_add_offer_def sm_close_session_def sm_set_flow_info_def
    sm_update_flow_result_def evolves_cases split: option.split\<close>)

lemma sm_steps_evolve:
  assumes "sm_step\<^sup>*\<^sup>* m m'" and "sm_get_session i m = Some s"
  shows "\<exists>s'. sm_get_session i m' = Some s' \<and> evolves s s'"
  using assms(1)
proof induction
  case base
  then show ?case using assms(2) by simp
next
  case (step m1 m2)
  then show ?case using sm_step_evolves evolves_trans unfolding sm_get_session_def by blast
qed

lemma sm_steps_reachable: "sm_step\<^sup>*\<^sup>* m m' \<Longrightarrow> sm_reachable m \<Longrightarrow> sm_reachable m'"
  by (induction rule: rtranclp_induct) (auto intro: sm_reachable.step)

text \<open>The index by intent leads to the session of that intent.\<close>

lemma sm_intent_index:
  "sm_reachable m \<Longrightarrow> dget (sm_sessions_by_intent m) t \<noteq> None \<Longrightarrow>
     \<exists>s. sm_get_session_by_intent t m = Some s \<and> se_intent_message_id s = t"
  using sm_invD(3) [OF sm_reachable_inv] by (fastforce simp: sm_get_session_by_intent_def)

text \<open>C37: a session is valid for execution messages exactly when it exists, is active, its lifetime since the
  agreement is not over, and the sender is its requester or its provider; a refusal has a message.\<close>

theorem sm_validate_iff:
  assumes "sm_reachable m" and "sm_validate_session_for_exec now i sender m = (ok, msg, res)"
  shows "(ok \<longleftrightarrow> (\<exists>s t. sm_get_session i m = Some s \<and> se_status s = SESS_ACTIVE \<and> se_activated_at s = Some t \<and>
      now \<le> t + td_sec (se_session_ttl_seconds s) \<and>
      (sender = se_requester_agent_id s \<or> se_provider_agent_id s = Some sender))) \<and>
    (ok \<longleftrightarrow> msg = None) \<and> res = (if ok then sm_get_session i m else None)"
proof (cases "dget (sm_sessions m) i")
  case None
  then show ?thesis using assms(2) by (auto simp: sm_validate_session_for_exec_def sm_get_session_def)
next
  case (Some s)
  have "agreement_ok s" using sm_invD(1) [OF sm_reachable_inv [OF assms(1)] Some] .
  then have "se_status s = SESS_ACTIVE \<Longrightarrow> \<exists>t. se_activated_at s = Some t"
    by (auto simp: agreement_ok_def)
  then show ?thesis using assms(2) Some
    by (auto simp: sm_validate_session_for_exec_def sm_get_session_def se_is_expired_def se_expires_at_def
        Let_def split: if_splits)
qed

text \<open>\<open>agree\<close> activates a session exactly when it is negotiating and has the offer, at any time: a
  negotiation whose time is over can still be agreed on until the clean-up reaches it, and after the
  clean-up no session that is negotiating or active has outlived its time.\<close>

theorem sm_agree_cleanup:
  "((\<exists>s'. fst (sm_agree now i x schema view m) = Some s') \<longleftrightarrow>
     (\<exists>s. sm_get_session i m = Some s \<and> se_status s = SESS_NEGOTIATING \<and> se_get_offer x s \<noteq> None)) \<and>
   (fst (sm_agree now i x schema view m) = None \<longrightarrow> snd (sm_agree now i x schema view m) = m) \<and>
   (\<forall>s j. sm_get_session j (sm_cleanup_expired now m) = Some s \<longrightarrow>
      se_status s \<in> {SESS_NEGOTIATING, SESS_ACTIVE} \<longrightarrow> \<not> se_is_expired now s)"
proof -
  have "\<not> se_is_expired now s"
    if got: "dget (sm_sessions (sm_cleanup_expired now m)) j = Some s"
      and st: "se_status s \<in> {SESS_NEGOTIATING, SESS_ACTIVE}" for s j
  proof -
    obtain s0 where s0: "s = expire_session now s0" using got by (auto simp: sm_cleanup_expired_def)
    from st show ?thesis unfolding s0 by (rule expire_session_live)
  qed
  moreover have "((\<exists>s'. fst (sm_agree now i x schema view m) = Some s') \<longleftrightarrow>
      (\<exists>s. dget (sm_sessions m) i = Some s \<and> se_status s = SESS_NEGOTIATING \<and> se_get_offer x s \<noteq> None)) \<and>
    (fst (sm_agree now i x schema view m) = None \<longrightarrow> snd (sm_agree now i x schema view m) = m)"
    by (cases "dget (sm_sessions m) i") (auto simp: sm_agree_def se_activate_def split: option.split)
  ultimately show ?thesis unfolding sm_get_session_def by blast
qed

section \<open>A concrete manager\<close>

definition ex_manager :: session_manager where
  "ex_manager = snd (sm_add_offer 9 5 1 8 ''conn8'' [] [] [] [] (1/2) []
     (snd (sm_create_session 1 0 ''acme'' 2 ''conn2'' 3 [] [] None (sm_init 30 300 10))))"

definition ex_agreed :: session_manager where
  "ex_agreed = snd (sm_agree 99000000 1 (offer_id_of 9) None None ex_manager)"

lemma ex_manager_reachable: "sm_reachable ex_manager"
proof -
  have "\<not> din 1 (sm_sessions (sm_init 30 300 10))" by code_simp
  then show ?thesis unfolding ex_manager_def by (blast intro: sm_reachable.intros sm_step.intros)
qed

lemma ex_agreed_reachable: "sm_reachable ex_agreed"
  unfolding ex_agreed_def by (blast intro: sm_reachable.step ex_manager_reachable sm_step.agree)

lemma ex_agreed_status: "map_option se_status (sm_get_session 1 ex_agreed) = Some SESS_ACTIVE"
  by code_simp

theorem sm_validate_iff_witness:
  "fst (sm_validate_session_for_exec 100000000 1 8 ex_agreed) \<and>
   \<not> fst (sm_validate_session_for_exec 100000000 1 7 ex_agreed)"
proof -
  have c: "map_option (\<lambda>s. (se_status s, se_activated_at s, se_session_ttl_seconds s, se_requester_agent_id s,
      se_provider_agent_id s)) (sm_get_session 1 ex_agreed) = Some (SESS_ACTIVE, Some 99000000, 300, 2, Some 8)"
    by code_simp
  obtain b1 e1 r1 where r1: "sm_validate_session_for_exec 100000000 1 8 ex_agreed = (b1, e1, r1)" by (rule prod_cases3)
  obtain b2 e2 r2 where r2: "sm_validate_session_for_exec 100000000 1 7 ex_agreed = (b2, e2, r2)" by (rule prod_cases3)
  obtain s where s: "sm_get_session 1 ex_agreed = Some s" "se_status s = SESS_ACTIVE" "se_activated_at s = Some 99000000"
      "se_session_ttl_seconds s = 300" "se_requester_agent_id s = 2" "se_provider_agent_id s = Some 8"
    using c by auto
  have "b1" using sm_validate_iff [OF ex_agreed_reachable r1] by (simp add: s td_sec_def)
  moreover have "\<not> b2" using sm_validate_iff [OF ex_agreed_reachable r2] by (simp add: s td_sec_def)
  ultimately show ?thesis by (simp add: r1 r2)
qed

theorem sm_agree_cleanup_witness:
  "fst (sm_agree 99000000 1 (offer_id_of 9) None None ex_manager) \<noteq> None \<and>
   map_option (se_is_expired 99000000) (sm_get_session 1 ex_manager) = Some True"
proof -
  have "map_option (\<lambda>s. (se_status s, se_get_offer (offer_id_of 9) s \<noteq> None, se_is_expired 99000000 s))
      (sm_get_session 1 ex_manager) = Some (SESS_NEGOTIATING, True, True)" by code_simp
  then show ?thesis
    using sm_agree_cleanup [of 99000000 1 "offer_id_of 9" None None ex_manager] by auto
qed

end
