(* ===== verification/Storage_Memory.thy ===== *)
theory Storage_Memory
  imports Py_Values
begin

text \<open>
  The records and errors of \<open>src/storage/ports.py\<close> and the in-memory adapters of
  \<open>src/storage/memory.py\<close>: sessions, traces, executions and presence. Each method runs under its
  store's lock. The contract of \<open>ExecStore\<close> is the locale \<open>exec_store\<close>, in which exactly-once is
  proved and which the in-memory adapter is an instance of.
\<close>

section \<open>Sessions\<close>

record session_record =
  sr_ephemeral_interface_id :: uuid
  sr_tenant_id :: string
  sr_requester_agent_id :: uuid
  sr_requester_conn_id :: string
  sr_provider_agent_id :: "uuid option"
  sr_provider_conn_id :: "string option"
  sr_intent_message_id :: uuid
  sr_intent_data :: payload
  sr_status :: string
  sr_offers :: "payload list"
  sr_chosen_offer_id :: "string option"
  sr_chosen_schema_id :: "string option"
  sr_chosen_view_id :: "string option"
  sr_created_at :: datetime
  sr_activated_at :: "datetime option"
  sr_closed_at :: "datetime option"
  sr_negotiation_ttl_seconds :: int
  sr_session_ttl_seconds :: int
  sr_metadata :: payload

datatype storage_error = NotFoundError string | ConflictError string

type_synonym session_store = "(uuid, session_record) pydict"

definition ss_create :: "session_record \<Rightarrow> session_store \<Rightarrow> session_record \<times> session_store" where
  "ss_create r st =
     (case dget st (sr_ephemeral_interface_id r) of
        Some old \<Rightarrow> (old, st)
      | None \<Rightarrow> (r, dset (sr_ephemeral_interface_id r) r st))"

definition ss_get :: "uuid \<Rightarrow> session_store \<Rightarrow> session_record option" where
  "ss_get i st = dget st i"

definition ss_update :: "session_record \<Rightarrow> session_store \<Rightarrow> (storage_error + session_record) \<times> session_store" where
  "ss_update r st =
     (if \<not> din (sr_ephemeral_interface_id r) st then
        (Inl (NotFoundError (''Session '' @ uuid_str (sr_ephemeral_interface_id r) @ '' not found'')), st)
      else (Inr r, dset (sr_ephemeral_interface_id r) r st))"

definition ss_modify :: "uuid \<Rightarrow> (session_record \<Rightarrow> session_record) \<Rightarrow> session_store \<Rightarrow> session_record option \<times> session_store" where
  "ss_modify i f st = (case dget st i of None \<Rightarrow> (None, st) | Some r \<Rightarrow> (Some (f r), dset i (f r) st))"

definition ss_add_offer :: "uuid \<Rightarrow> payload \<Rightarrow> session_store \<Rightarrow> session_record option \<times> session_store" where
  "ss_add_offer i x st = ss_modify i (\<lambda>r. r\<lparr>sr_offers := sr_offers r @ [x]\<rparr>) st"

definition ss_select_offer ::
  "datetime \<Rightarrow> uuid \<Rightarrow> string \<Rightarrow> uuid \<Rightarrow> string \<Rightarrow> string option \<Rightarrow> string option \<Rightarrow> session_store \<Rightarrow>
     session_record option \<times> session_store" where
  "ss_select_offer now i offer_id agent conn schema view st =
     ss_modify i (\<lambda>r. r\<lparr>sr_status := ''active'', sr_chosen_offer_id := Some offer_id,
       sr_provider_agent_id := Some agent, sr_provider_conn_id := Some conn,
       sr_chosen_schema_id := schema, sr_chosen_view_id := view, sr_activated_at := Some now\<rparr>) st"

definition ss_close :: "datetime \<Rightarrow> uuid \<Rightarrow> string option \<Rightarrow> session_store \<Rightarrow> session_record option \<times> session_store" where
  "ss_close now i reason st =
     ss_modify i (\<lambda>r.
       let r = r\<lparr>sr_status := ''closed'', sr_closed_at := Some now\<rparr> in
       if str_true reason then r\<lparr>sr_metadata := dset ''close_reason'' (JStr (the reason)) (sr_metadata r)\<rparr> else r) st"

text \<open>When a stored session ends, None for one that \<open>expire_before\<close> passes over.\<close>

definition sr_expires :: "session_record \<Rightarrow> datetime option" where
  "sr_expires r =
     (if sr_status r = ''negotiating'' then Some (sr_created_at r + td_sec (sr_negotiation_ttl_seconds r))
      else if sr_status r = ''active'' then
        map_option (\<lambda>t. t + td_sec (sr_session_ttl_seconds r)) (sr_activated_at r)
      else None)"

definition sr_overdue :: "datetime \<Rightarrow> session_record \<Rightarrow> bool" where
  "sr_overdue cutoff r = (case sr_expires r of None \<Rightarrow> False | Some t \<Rightarrow> t < cutoff)"

fun ss_expire_loop :: "datetime \<Rightarrow> datetime \<Rightarrow> session_store \<Rightarrow> int \<Rightarrow> int \<times> session_store" where
  "ss_expire_loop now cutoff [] n = (n, [])"
| "ss_expire_loop now cutoff ((i, r) # rest) n =
     (let hit = sr_overdue cutoff r;
          r' = (if hit then r\<lparr>sr_status := ''expired'', sr_closed_at := Some now\<rparr> else r);
          (m, rest') = ss_expire_loop now cutoff rest (if hit then n + 1 else n)
      in (m, (i, r') # rest'))"

definition ss_expire_before :: "datetime \<Rightarrow> datetime \<Rightarrow> session_store \<Rightarrow> int \<times> session_store" where
  "ss_expire_before now cutoff st = ss_expire_loop now cutoff st 0"

definition ss_list_by_tenant :: "string \<Rightarrow> string option \<Rightarrow> int \<Rightarrow> session_store \<Rightarrow> session_record list" where
  "ss_list_by_tenant tenant status limit st =
     collect limit (\<lambda>r. sr_tenant_id r = tenant \<and> (status = None \<or> status = Some (sr_status r))) [] (dvalues st)"

section \<open>Traces\<close>

record trace_record =
  tc_event_id :: uuid
  tc_event_type :: string
  tc_timestamp :: datetime
  tc_tenant_id :: string
  tc_ephemeral_interface_id :: "uuid option"
  tc_exec_id :: "string option"
  tc_agent_id :: "uuid option"
  tc_conn_id :: "string option"
  tc_data :: payload

record trace_mem =
  tm_max_events :: int
  tm_events :: "trace_record list"
  tm_by_session :: "(uuid, nat list) pydict"
  tm_by_exec :: "(string, nat list) pydict"

definition tm_init :: "int \<Rightarrow> trace_mem" where
  "tm_init n = \<lparr>tm_max_events = n, tm_events = [], tm_by_session = [], tm_by_exec = []\<rparr>"

definition ix_append :: "'k \<Rightarrow> 'v \<Rightarrow> ('k, 'v list) pydict \<Rightarrow> ('k, 'v list) pydict" where
  "ix_append k v ix = dset k (dget_or ix k [] @ [v]) ix"

definition tm_append :: "trace_record \<Rightarrow> trace_mem \<Rightarrow> trace_mem" where
  "tm_append r t =
     (let idx = length (tm_events t);
          t = t\<lparr>tm_events := tm_events t @ [r],
                tm_by_session := (case tc_ephemeral_interface_id r of
                    None \<Rightarrow> tm_by_session t | Some s \<Rightarrow> ix_append s idx (tm_by_session t)),
                tm_by_exec := (if str_true (tc_exec_id r) then ix_append (the (tc_exec_id r)) idx (tm_by_exec t)
                    else tm_by_exec t)\<rparr>
      in if tm_max_events t < int (length (tm_events t)) then
           t\<lparr>tm_events := py_from (tm_max_events t div 10) (tm_events t), tm_by_session := [], tm_by_exec := []\<rparr>
         else t)"

definition tm_at :: "trace_mem \<Rightarrow> nat list \<Rightarrow> trace_record list" where
  "tm_at t is = map (\<lambda>i. tm_events t ! i) (filter (\<lambda>i. i < length (tm_events t)) is)"

definition tm_tail :: "uuid option \<Rightarrow> string option \<Rightarrow> int \<Rightarrow> trace_mem \<Rightarrow> trace_record list \<times> bool" where
  "tm_tail session exec limit t =
     (let events = (case session of
            Some s \<Rightarrow>
              let es = tm_at t (dget_or (tm_by_session t) s []) in
              if str_true exec then filter (\<lambda>e. tc_exec_id e = exec) es else es
          | None \<Rightarrow>
              if str_true exec then tm_at t (dget_or (tm_by_exec t) (the exec) []) else tm_events t)
      in (py_last limit events, limit < int (length events)))"

definition tm_query ::
  "string option \<Rightarrow> uuid option \<Rightarrow> string option \<Rightarrow> string option \<Rightarrow> datetime option \<Rightarrow> datetime option \<Rightarrow> int \<Rightarrow>
     trace_mem \<Rightarrow> trace_record list" where
  "tm_query tenant session exec ty since til limit t =
     collect limit (\<lambda>e. str_filter tenant (tc_tenant_id e) \<and>
        (session \<noteq> None \<longrightarrow> tc_ephemeral_interface_id e = session) \<and>
        (str_true exec \<longrightarrow> tc_exec_id e = exec) \<and> str_filter ty (tc_event_type e) \<and>
        (case since of None \<Rightarrow> True | Some a \<Rightarrow> a \<le> tc_timestamp e) \<and>
        (case til of None \<Rightarrow> True | Some b \<Rightarrow> tc_timestamp e \<le> b)) [] (tm_events t)"

section \<open>Executions\<close>

record exec_record =
  xr_exec_id :: uuid
  xr_session_id :: uuid
  xr_correlation_id :: uuid
  xr_idempotency_key :: "string option"
  xr_status :: string
  xr_requester_conn_id :: string
  xr_action :: "string option"
  xr_result_view_id :: "string option"
  xr_result_valid :: "bool option"
  xr_policy_allowed :: bool
  xr_policy_reason :: "string option"
  xr_created_at :: datetime
  xr_accepted_at :: "datetime option"
  xr_completed_at :: "datetime option"
  xr_metadata :: payload

record exec_mem =
  xm_execs :: "(uuid, exec_record) pydict"
  xm_by_idempotency :: "(string, uuid) pydict"
  xm_by_session :: "(uuid, uuid list) pydict"

definition xm_init :: exec_mem where
  "xm_init = \<lparr>xm_execs = [], xm_by_idempotency = [], xm_by_session = []\<rparr>"

definition xm_existing :: "exec_record \<Rightarrow> exec_mem \<Rightarrow> exec_record option" where
  "xm_existing r x =
     (if str_true (xr_idempotency_key r) then
        (case dget (xm_by_idempotency x) (the (xr_idempotency_key r)) of
           None \<Rightarrow> dget (xm_execs x) (xr_exec_id r)
         | Some e \<Rightarrow> (case dget (xm_execs x) e of None \<Rightarrow> dget (xm_execs x) (xr_exec_id r) | Some old \<Rightarrow> Some old))
      else dget (xm_execs x) (xr_exec_id r))"

definition xm_put_if_absent :: "exec_record \<Rightarrow> exec_mem \<Rightarrow> (exec_record \<times> bool) \<times> exec_mem" where
  "xm_put_if_absent r x =
     (case xm_existing r x of
        Some old \<Rightarrow> ((old, False), x)
      | None \<Rightarrow> ((r, True),
          x\<lparr>xm_execs := dset (xr_exec_id r) r (xm_execs x),
            xm_by_idempotency := (if str_true (xr_idempotency_key r)
              then dset (the (xr_idempotency_key r)) (xr_exec_id r) (xm_by_idempotency x)
              else xm_by_idempotency x),
            xm_by_session := ix_append (xr_session_id r) (xr_exec_id r) (xm_by_session x)\<rparr>))"

definition xm_get :: "uuid option \<Rightarrow> string option \<Rightarrow> exec_mem \<Rightarrow> exec_record option" where
  "xm_get exec key x =
     (case exec of
        Some e \<Rightarrow> dget (xm_execs x) e
      | None \<Rightarrow>
          if str_true key then
            (case dget (xm_by_idempotency x) (the key) of None \<Rightarrow> None | Some e \<Rightarrow> dget (xm_execs x) e)
          else None)"

text \<open>The keyword arguments of \<open>set_status\<close>; None is one that is not given.\<close>

record exec_kwargs =
  kw_accepted_at :: "datetime option option"
  kw_completed_at :: "datetime option option"
  kw_result_view_id :: "string option option"
  kw_result_valid :: "bool option option"

definition given :: "'a option \<Rightarrow> 'a \<Rightarrow> 'a" where
  "given k old = (case k of None \<Rightarrow> old | Some v \<Rightarrow> v)"

definition xr_set_status :: "string \<Rightarrow> exec_kwargs \<Rightarrow> exec_record \<Rightarrow> exec_record" where
  "xr_set_status status kw r =
     r\<lparr>xr_status := status,
       xr_accepted_at := given (kw_accepted_at kw) (xr_accepted_at r),
       xr_completed_at := given (kw_completed_at kw) (xr_completed_at r),
       xr_result_view_id := given (kw_result_view_id kw) (xr_result_view_id r),
       xr_result_valid := given (kw_result_valid kw) (xr_result_valid r)\<rparr>"

definition xm_set_status :: "uuid \<Rightarrow> string \<Rightarrow> exec_kwargs \<Rightarrow> exec_mem \<Rightarrow> exec_record option \<times> exec_mem" where
  "xm_set_status e status kw x =
     (case dget (xm_execs x) e of
        None \<Rightarrow> (None, x)
      | Some r \<Rightarrow> (Some (xr_set_status status kw r), x\<lparr>xm_execs := dset e (xr_set_status status kw r) (xm_execs x)\<rparr>))"

definition xm_list_by_session :: "uuid \<Rightarrow> string option \<Rightarrow> exec_mem \<Rightarrow> exec_record list" where
  "xm_list_by_session s status x =
     filter (\<lambda>r. status = None \<or> status = Some (xr_status r))
       (List.map_filter (dget (xm_execs x)) (dget_or (xm_by_session x) s []))"

section \<open>Presence\<close>

record presence_record =
  pz_agent_id :: uuid
  pz_tenant_id :: string
  pz_conn_id :: string
  pz_status :: string
  pz_capabilities :: "string list"
  pz_tags :: "string list"
  pz_load :: rat
  pz_last_seen :: datetime
  pz_registered_at :: datetime
  pz_metadata :: payload

record presence_mem =
  pm_presence :: "(string, presence_record) pydict"
  pm_by_agent :: "(uuid, string) pydict"

definition pm_init :: presence_mem where
  "pm_init = \<lparr>pm_presence = [], pm_by_agent = []\<rparr>"

definition pm_upsert :: "presence_record \<Rightarrow> presence_mem \<Rightarrow> presence_record \<times> presence_mem" where
  "pm_upsert r p =
     (let old = dget (pm_by_agent p) (pz_agent_id r);
          pres = (if str_true old \<and> old \<noteq> Some (pz_conn_id r) then dpop (the old) (pm_presence p) else pm_presence p)
      in (r, p\<lparr>pm_presence := dset (pz_conn_id r) r pres,
               pm_by_agent := dset (pz_agent_id r) (pz_conn_id r) (pm_by_agent p)\<rparr>))"

definition pm_heartbeat :: "datetime \<Rightarrow> string \<Rightarrow> rat option \<Rightarrow> presence_mem \<Rightarrow> bool \<times> presence_mem" where
  "pm_heartbeat now conn load p =
     (case dget (pm_presence p) conn of
        None \<Rightarrow> (False, p)
      | Some r \<Rightarrow> (True, p\<lparr>pm_presence := dset conn (r\<lparr>pz_last_seen := now, pz_load := given load (pz_load r)\<rparr>)
          (pm_presence p)\<rparr>))"

definition pm_remove :: "string \<Rightarrow> presence_mem \<Rightarrow> bool \<times> presence_mem" where
  "pm_remove conn p =
     (case dget (pm_presence p) conn of
        None \<Rightarrow> (False, p)
      | Some r \<Rightarrow> (True, p\<lparr>pm_presence := dpop conn (pm_presence p), pm_by_agent := dpop (pz_agent_id r) (pm_by_agent p)\<rparr>))"

definition pm_list_by_tenant ::
  "string \<Rightarrow> string option \<Rightarrow> string option \<Rightarrow> string option \<Rightarrow> presence_mem \<Rightarrow> presence_record list" where
  "pm_list_by_tenant tenant status capability tag p =
     filter (\<lambda>r. pz_tenant_id r = tenant \<and> str_filter status (pz_status r) \<and>
        (str_true capability \<longrightarrow> the capability \<in> set (pz_capabilities r)) \<and>
        (str_true tag \<longrightarrow> the tag \<in> set (pz_tags r))) (dvalues (pm_presence p))"

definition pz_stale :: "datetime \<Rightarrow> presence_record \<Rightarrow> bool" where
  "pz_stale cutoff r = (pz_status r = ''online'' \<and> pz_last_seen r < cutoff)"

definition pm_expire_stale :: "datetime \<Rightarrow> rat \<Rightarrow> presence_mem \<Rightarrow> int \<times> presence_mem" where
  "pm_expire_stale now timeout p =
     (let cutoff = now - td_secf timeout in
      (int (length (filter (pz_stale cutoff) (dvalues (pm_presence p)))),
       p\<lparr>pm_presence := dmap (\<lambda>r. if pz_stale cutoff r then r\<lparr>pz_status := ''offline''\<rparr> else r) (pm_presence p)\<rparr>))"

section \<open>The contract of \<open>ExecStore\<close>\<close>

text \<open>The existing record a creation answers with: by the idempotency key first, then by the id.\<close>

definition exec_lookup ::
  "(uuid option \<Rightarrow> string option \<Rightarrow> 's \<Rightarrow> exec_record option) \<Rightarrow> exec_record \<Rightarrow> 's \<Rightarrow> exec_record option" where
  "exec_lookup get r s =
     (case (if str_true (xr_idempotency_key r) then get None (xr_idempotency_key r) s else None) of
        Some old \<Rightarrow> Some old
      | None \<Rightarrow> get (Some (xr_exec_id r)) None s)"

datatype exec_op = PutExec exec_record | SetExec uuid string exec_kwargs

fun run_exec ::
  "(exec_record \<Rightarrow> 's \<Rightarrow> (exec_record \<times> bool) \<times> 's) \<Rightarrow>
   (uuid \<Rightarrow> string \<Rightarrow> exec_kwargs \<Rightarrow> 's \<Rightarrow> exec_record option \<times> 's) \<Rightarrow> exec_op list \<Rightarrow> 's \<Rightarrow> 's" where
  "run_exec put set_status [] s = s"
| "run_exec put set_status (PutExec r # ops) s = run_exec put set_status ops (snd (put r s))"
| "run_exec put set_status (SetExec e st kw # ops) s = run_exec put set_status ops (snd (set_status e st kw s))"

locale exec_store =
  fixes inv :: "'s \<Rightarrow> bool"
    and put :: "exec_record \<Rightarrow> 's \<Rightarrow> (exec_record \<times> bool) \<times> 's"
    and get :: "uuid option \<Rightarrow> string option \<Rightarrow> 's \<Rightarrow> exec_record option"
    and set_status :: "uuid \<Rightarrow> string \<Rightarrow> exec_kwargs \<Rightarrow> 's \<Rightarrow> exec_record option \<times> 's"
  assumes put_old: "inv s \<Longrightarrow> exec_lookup get r s = Some old \<Longrightarrow> put r s = ((old, False), s)"
    and put_new: "inv s \<Longrightarrow> exec_lookup get r s = None \<Longrightarrow> fst (put r s) = (r, True) \<and> inv (snd (put r s)) \<and>
      (\<forall>e k. get (Some e) k (snd (put r s)) = (if e = xr_exec_id r then Some r else get (Some e) k s)) \<and>
      (\<forall>k. str_true k \<longrightarrow> get None k (snd (put r s)) = (if k = xr_idempotency_key r then Some r else get None k s))"
    and set_status_inv: "inv s \<Longrightarrow> inv (snd (set_status e st kw s))"
    and set_status_id: "inv s \<Longrightarrow> map_option xr_exec_id (get x k (snd (set_status e st kw s))) =
      map_option xr_exec_id (get x k s)"
begin

lemma put_inv: "inv s \<Longrightarrow> inv (snd (put r s))"
  by (cases "exec_lookup get r s") (simp_all add: put_old put_new)

lemma put_keeps_key:
  assumes "inv s" and "str_true k" and "get None k s = Some r"
  shows "get None k (snd (put r' s)) = Some r"
proof (cases "exec_lookup get r' s")
  case None
  then have "k \<noteq> xr_idempotency_key r'" using assms(2,3) by (auto simp: exec_lookup_def)
  with None assms show ?thesis by (simp add: put_new)
next
  case (Some old)
  with assms show ?thesis by (simp add: put_old)
qed

lemma run_inv: "inv s \<Longrightarrow> inv (run_exec put set_status ops s)"
proof (induction ops arbitrary: s)
  case (Cons x ops)
  then show ?case by (cases x) (simp_all add: put_inv set_status_inv)
qed simp

lemma run_keeps_key:
  "inv s \<Longrightarrow> str_true k \<Longrightarrow> map_option xr_exec_id (get None k s) = Some e \<Longrightarrow>
     map_option xr_exec_id (get None k (run_exec put set_status ops s)) = Some e"
proof (induction ops arbitrary: s)
  case (Cons x ops)
  show ?case
  proof (cases x)
    case (PutExec r)
    obtain y where y: "get None k s = Some y" "e = xr_exec_id y" using Cons.prems(3) by auto
    have "map_option xr_exec_id (get None k (snd (put r s))) = Some e"
      using put_keeps_key [OF Cons.prems(1,2) y(1), of r] y(2) by simp
    then show ?thesis using Cons.IH [OF put_inv [OF Cons.prems(1)] Cons.prems(2)] PutExec by simp
  next
    case (SetExec a st kw)
    then show ?thesis
      using Cons.IH [OF set_status_inv [OF Cons.prems(1)] Cons.prems(2)] Cons.prems(1,3) by (simp add: set_status_id)
  qed
qed simp

text \<open>A request with a key that was accepted once is answered with that execution ever after.\<close>

lemma exactly_once:
  assumes inv: "inv s" and key: "str_true (xr_idempotency_key r)"
    and same: "xr_idempotency_key r' = xr_idempotency_key r"
    and taken: "exec_lookup get r s = None \<or> get None (xr_idempotency_key r) s \<noteq> None"
    and later: "s' = run_exec put set_status ops (snd (put r s))"
  shows "\<exists>old. put r' s' = ((old, False), s') \<and> xr_exec_id old = xr_exec_id (fst (fst (put r s)))"
proof -
  have inv1: "inv (snd (put r s))" using inv by (rule put_inv)
  have "map_option xr_exec_id (get None (xr_idempotency_key r) (snd (put r s))) =
      Some (xr_exec_id (fst (fst (put r s))))"
  proof (cases "exec_lookup get r s")
    case None
    then show ?thesis using put_new [OF inv None] key by simp
  next
    case (Some old)
    then show ?thesis using put_old [OF inv Some] key taken by (auto simp: exec_lookup_def)
  qed
  then have "map_option xr_exec_id (get None (xr_idempotency_key r) s') = Some (xr_exec_id (fst (fst (put r s))))"
    unfolding later by (rule run_keeps_key [OF inv1 key])
  then obtain old where old: "get None (xr_idempotency_key r) s' = Some old"
      "xr_exec_id old = xr_exec_id (fst (fst (put r s)))" by auto
  then have "exec_lookup get r' s' = Some old" using same key by (simp add: exec_lookup_def)
  moreover have "inv s'" unfolding later using inv1 by (rule run_inv)
  ultimately show ?thesis using put_old old(2) by blast
qed

end

section \<open>The in-memory adapter is an \<open>ExecStore\<close>\<close>

definition xm_inv :: "exec_mem \<Rightarrow> bool" where
  "xm_inv x =
     (dict_ok (xm_execs x) \<and>
      (\<forall>e r. dget (xm_execs x) e = Some r \<longrightarrow> xr_exec_id r = e) \<and>
      (\<forall>k e. dget (xm_by_idempotency x) k = Some e \<longrightarrow> din e (xm_execs x)) \<and>
      (\<forall>s e. e \<in> set (dget_or (xm_by_session x) s []) \<longleftrightarrow>
         (\<exists>r. dget (xm_execs x) e = Some r \<and> xr_session_id r = s)) \<and>
      (\<forall>s. distinct (dget_or (xm_by_session x) s [])))"

lemma dget_or_append [simp]: "dget_or (ix_append k v ix) j [] = (if j = k then dget_or ix k [] @ [v] else dget_or ix j [])"
  by (simp add: ix_append_def dget_or_def)

lemma xm_init_inv: "xm_inv xm_init"
  by (simp add: xm_inv_def xm_init_def dget_or_def)

lemma xm_existing_lookup: "xm_inv x \<Longrightarrow> xm_existing r x = exec_lookup xm_get r x"
  by (auto simp: xm_existing_def exec_lookup_def xm_get_def xm_inv_def din_def split: option.split)

lemma exec_lookup_NoneD:
  "exec_lookup xm_get r x = None \<Longrightarrow> dget (xm_execs x) (xr_exec_id r) = None"
  by (auto simp: exec_lookup_def xm_get_def split: option.splits if_splits)

lemma xm_put_new:
  assumes inv: "xm_inv x" and none: "exec_lookup xm_get r x = None"
  shows "fst (xm_put_if_absent r x) = (r, True) \<and> xm_inv (snd (xm_put_if_absent r x)) \<and>
    (\<forall>e k. xm_get (Some e) k (snd (xm_put_if_absent r x)) = (if e = xr_exec_id r then Some r else xm_get (Some e) k x)) \<and>
    (\<forall>k. str_true k \<longrightarrow> xm_get None k (snd (xm_put_if_absent r x)) =
       (if k = xr_idempotency_key r then Some r else xm_get None k x))"
proof -
  have fresh: "dget (xm_execs x) (xr_exec_id r) = None" using none by (rule exec_lookup_NoneD)
  have key: "dget (xm_by_idempotency x) k \<noteq> Some (xr_exec_id r)" for k
  proof
    assume "dget (xm_by_idempotency x) k = Some (xr_exec_id r)"
    then have "din (xr_exec_id r) (xm_execs x)" using inv unfolding xm_inv_def by blast
    with fresh show False by (simp add: din_def)
  qed
  have sess: "xr_exec_id r \<notin> set (dget_or (xm_by_session x) s [])" for s
    using inv fresh by (auto simp: xm_inv_def)
  have put: "xm_put_if_absent r x = ((r, True),
          x\<lparr>xm_execs := dset (xr_exec_id r) r (xm_execs x),
            xm_by_idempotency := (if str_true (xr_idempotency_key r)
              then dset (the (xr_idempotency_key r)) (xr_exec_id r) (xm_by_idempotency x)
              else xm_by_idempotency x),
            xm_by_session := ix_append (xr_session_id r) (xr_exec_id r) (xm_by_session x)\<rparr>)"
    using none by (simp add: xm_put_if_absent_def xm_existing_lookup [OF inv])
  have "xm_inv (snd (xm_put_if_absent r x))"
    using inv fresh sess unfolding put xm_inv_def by (auto simp: din_def)
  moreover have "xm_get None k (snd (xm_put_if_absent r x)) = (if k = xr_idempotency_key r then Some r else xm_get None k x)"
    if "str_true k" for k
  proof (cases "xr_idempotency_key r")
    case None
    with that show ?thesis unfolding put
      by (cases k) (auto simp: xm_get_def key split: option.split)
  next
    case (Some t)
    from that obtain j where j: "k = Some j" "j \<noteq> []" by (cases k) auto
    with Some key [of j] show ?thesis unfolding put
      by (auto simp: xm_get_def split: option.split)
  qed
  ultimately show ?thesis by (simp add: put xm_get_def)
qed

lemma xm_set_status_inv: "xm_inv x \<Longrightarrow> xm_inv (snd (xm_set_status e st kw x))"
  by (auto simp: xm_set_status_def xm_inv_def xr_set_status_def din_def split: option.split)

lemma xm_set_status_id:
  "map_option xr_exec_id (xm_get y k (snd (xm_set_status e st kw x))) = map_option xr_exec_id (xm_get y k x)"
  by (auto simp: xm_set_status_def xm_get_def xr_set_status_def split: option.split)

interpretation xm: exec_store xm_inv xm_put_if_absent xm_get xm_set_status
proof
  fix s r old assume "xm_inv s" "exec_lookup xm_get r s = Some old"
  then show "xm_put_if_absent r s = ((old, False), s)"
    by (simp add: xm_put_if_absent_def xm_existing_lookup)
qed (use xm_put_new xm_set_status_inv xm_set_status_id in blast)+

definition ex_request :: "uuid \<Rightarrow> exec_record" where
  "ex_request e = \<lparr>xr_exec_id = e, xr_session_id = 1, xr_correlation_id = 2, xr_idempotency_key = Some ''k'',
     xr_status = ''pending'', xr_requester_conn_id = ''c'', xr_action = None, xr_result_view_id = None,
     xr_result_valid = None, xr_policy_allowed = True, xr_policy_reason = None, xr_created_at = 0,
     xr_accepted_at = None, xr_completed_at = None, xr_metadata = []\<rparr>"

text \<open>A key that first comes with an execution id that is known already is not registered: the next request with that key
  creates a second execution.\<close>

lemma key_of_known_execution_not_registered:
  "let x1 = snd (xm_put_if_absent ((ex_request 5)\<lparr>xr_idempotency_key := None\<rparr>) xm_init);
       (first, x2) = xm_put_if_absent (ex_request 5) x1; (second, x3) = xm_put_if_absent (ex_request 6) x2
   in xr_exec_id (fst first) = 5 \<and> \<not> snd first \<and> xr_exec_id (fst second) = 6 \<and> snd second"
  by code_simp

text \<open>C31: exactly once, for a key that is registered: when a request with an idempotency key created an execution, or its
  key was known, then after any further requests and status changes every request with that key is answered with the same
  execution and creates nothing; the store stays consistent, each execution listed exactly once, under its session.
  (A request whose key is new but whose execution id is known creates nothing and does not register the key.)\<close>

theorem xm_exactly_once:
  assumes "x = run_exec xm_put_if_absent xm_set_status before xm_init"
    and "str_true (xr_idempotency_key r)" and "xr_idempotency_key r' = xr_idempotency_key r"
    and "snd (fst (xm_put_if_absent r x)) \<or> xm_get None (xr_idempotency_key r) x \<noteq> None"
    and "x' = run_exec xm_put_if_absent xm_set_status ops (snd (xm_put_if_absent r x))"
  shows "(\<exists>old. xm_put_if_absent r' x' = ((old, False), x') \<and>
      xr_exec_id old = xr_exec_id (fst (fst (xm_put_if_absent r x)))) \<and>
    (\<forall>s. distinct (dget_or (xm_by_session x') s []) \<and>
       set (map xr_exec_id (xm_list_by_session s None x')) = {e. \<exists>y. xm_get (Some e) None x' = Some y \<and> xr_session_id y = s})"
proof -
  have inv: "xm_inv x" unfolding assms(1) using xm_init_inv by (rule xm.run_inv)
  have taken: "exec_lookup xm_get r x = None \<or> xm_get None (xr_idempotency_key r) x \<noteq> None"
    using assms(4) by (cases "exec_lookup xm_get r x") (auto simp: xm.put_old [OF inv])
  have inv': "xm_inv x'" unfolding assms(5) by (intro xm.run_inv xm.put_inv inv)
  have "set (map xr_exec_id (xm_list_by_session s None x')) =
      {e. \<exists>y. xm_get (Some e) None x' = Some y \<and> xr_session_id y = s}" for s
  proof -
    have keyed: "xr_exec_id y = e" if "dget (xm_execs x') e = Some y" for e y
      using inv' that by (simp add: xm_inv_def)
    have "set (List.map_filter (dget (xm_execs x')) es) = {y. \<exists>e\<in>set es. dget (xm_execs x') e = Some y}" for es
      by (force simp: List.map_filter_def)
    then have "set (xm_list_by_session s None x') =
        {y. \<exists>e\<in>set (dget_or (xm_by_session x') s []). dget (xm_execs x') e = Some y}"
      by (simp add: xm_list_by_session_def)
    moreover have "set (dget_or (xm_by_session x') s []) = {e. \<exists>y. dget (xm_execs x') e = Some y \<and> xr_session_id y = s}"
      using inv' by (intro set_eqI) (simp add: xm_inv_def)
    ultimately have "set (xm_list_by_session s None x') = {y. dget (xm_execs x') (xr_exec_id y) = Some y \<and> xr_session_id y = s}"
      using keyed by auto
    then show ?thesis unfolding xm_get_def set_map by (simp add: image_def) (metis keyed)
  qed
  then show ?thesis
    using xm.exactly_once [OF inv assms(2,3) taken assms(5)] inv' by (simp add: xm_inv_def)
qed

theorem xm_exactly_once_witness:
  "\<exists>old. fst (xm_put_if_absent (ex_request 6) (snd (xm_put_if_absent (ex_request 5) xm_init))) = (old, False) \<and>
     xr_exec_id old = 5"
proof -
  have key: "str_true (xr_idempotency_key (ex_request 5))" "xr_idempotency_key (ex_request 6) = xr_idempotency_key (ex_request 5)"
    "snd (fst (xm_put_if_absent (ex_request 5) xm_init)) \<or> xm_get None (xr_idempotency_key (ex_request 5)) xm_init \<noteq> None"
    "xr_exec_id (fst (fst (xm_put_if_absent (ex_request 5) xm_init))) = 5" by code_simp+
  have r: "xm_init = run_exec xm_put_if_absent xm_set_status [] xm_init"
    "snd (xm_put_if_absent (ex_request 5) xm_init) =
      run_exec xm_put_if_absent xm_set_status [] (snd (xm_put_if_absent (ex_request 5) xm_init))" by simp_all
  show ?thesis using xm_exactly_once [OF r(1) key(1,2,3) r(2)] key(4) by auto
qed

section \<open>Sessions and presence\<close>

lemma ss_expire_loop_eq:
  "ss_expire_loop now cutoff st n =
     (n + int (length (filter (sr_overdue cutoff) (dvalues st))),
      dmap (\<lambda>r. if sr_overdue cutoff r then r\<lparr>sr_status := ''expired'', sr_closed_at := Some now\<rparr> else r) st)"
  by (induction now cutoff st n rule: ss_expire_loop.induct)
    (auto simp: dvalues_def dmap_def Let_def)

lemma sr_overdue_expired: "\<not> sr_overdue c (r\<lparr>sr_status := ''expired'', sr_closed_at := t\<rparr>)"
  by (simp add: sr_overdue_def sr_expires_def)

text \<open>\<open>expire_before\<close> answers how many open sessions end before the cutoff, marks exactly those as expired
  with the time of the call, leaves the others as they are, and finds nothing more when run again.\<close>

theorem ss_expire_before_spec:
  assumes "dict_ok st" and "ss_expire_before now cutoff st = (n, st')"
  shows "n = int (card {i. \<exists>r. ss_get i st = Some r \<and> sr_overdue cutoff r}) \<and>
    (\<forall>i. ss_get i st' = map_option (\<lambda>r. if sr_overdue cutoff r
       then r\<lparr>sr_status := ''expired'', sr_closed_at := Some now\<rparr> else r) (ss_get i st)) \<and>
    ss_expire_before now' cutoff st' = (0, st')"
proof -
  have st': "st' = dmap (\<lambda>r. if sr_overdue cutoff r then r\<lparr>sr_status := ''expired'', sr_closed_at := Some now\<rparr> else r) st"
    and n: "n = int (length (filter (sr_overdue cutoff) (dvalues st)))"
    using assms(2) by (simp_all add: ss_expire_before_def ss_expire_loop_eq)
  have none: "\<not> sr_overdue cutoff r" if "r \<in> set (dvalues st')" for r
    using that by (auto simp: st' dvalues_def dmap_def sr_overdue_expired split: if_splits)
  have "dmap (\<lambda>r. if sr_overdue cutoff r then r\<lparr>sr_status := ''expired'', sr_closed_at := Some now'\<rparr> else r) st' = st'"
    unfolding dmap_def by (rule map_idI) (use none in \<open>force simp: dvalues_def\<close>)
  moreover have "filter (sr_overdue cutoff) (dvalues st') = []" using none by (simp add: filter_empty_conv)
  ultimately have "ss_expire_before now' cutoff st' = (0, st')"
    by (simp add: ss_expire_before_def ss_expire_loop_eq)
  moreover have "\<forall>i. ss_get i st' = map_option (\<lambda>r. if sr_overdue cutoff r
       then r\<lparr>sr_status := ''expired'', sr_closed_at := Some now\<rparr> else r) (ss_get i st)"
    by (simp add: st' ss_get_def)
  ultimately show ?thesis
    using n length_eq_card_dict [OF assms(1), of "sr_overdue cutoff"] by (simp add: ss_get_def)
qed

definition ex_stored :: session_store where
  "ex_stored = snd (ss_create \<lparr>sr_ephemeral_interface_id = 1, sr_tenant_id = ''acme'', sr_requester_agent_id = 2,
     sr_requester_conn_id = ''c'', sr_provider_agent_id = None, sr_provider_conn_id = None, sr_intent_message_id = 3,
     sr_intent_data = [], sr_status = ''negotiating'', sr_offers = [], sr_chosen_offer_id = None,
     sr_chosen_schema_id = None, sr_chosen_view_id = None, sr_created_at = 0, sr_activated_at = None,
     sr_closed_at = None, sr_negotiation_ttl_seconds = 30, sr_session_ttl_seconds = 300, sr_metadata = []\<rparr> [])"

theorem ss_expire_before_spec_witness:
  "map_option sr_status (ss_get 1 (snd (ss_expire_before 50000000 40000000 ex_stored))) = Some ''expired''"
proof -
  have ok: "dict_ok ex_stored" by code_simp
  have "map_option (sr_overdue 40000000) (ss_get 1 ex_stored) = Some True" by code_simp
  then show ?thesis
    using ss_expire_before_spec [OF ok prod.collapse [symmetric], of 50000000 40000000 0] by auto
qed

definition pm_inv :: "presence_mem \<Rightarrow> bool" where
  "pm_inv p =
     ((\<forall>c r. dget (pm_presence p) c = Some r \<longrightarrow> pz_conn_id r = c \<and> c \<noteq> [] \<and>
         dget (pm_by_agent p) (pz_agent_id r) = Some c) \<and>
      (\<forall>a c. dget (pm_by_agent p) a = Some c \<longrightarrow> (\<exists>r. dget (pm_presence p) c = Some r \<and> pz_agent_id r = a)))"

text \<open>A connection belongs to one agent, as the connection ids of the registry do.\<close>

inductive pm_reachable :: "presence_mem \<Rightarrow> bool" where
  init: "pm_reachable pm_init"
| upsert: "pm_reachable p \<Longrightarrow> pz_conn_id r \<noteq> [] \<Longrightarrow>
    \<forall>old. dget (pm_presence p) (pz_conn_id r) = Some old \<longrightarrow> pz_agent_id old = pz_agent_id r \<Longrightarrow>
    pm_reachable (snd (pm_upsert r p))"
| heartbeat: "pm_reachable p \<Longrightarrow> pm_reachable (snd (pm_heartbeat now c l p))"
| remove: "pm_reachable p \<Longrightarrow> pm_reachable (snd (pm_remove c p))"
| expire: "pm_reachable p \<Longrightarrow> pm_reachable (snd (pm_expire_stale now t p))"

lemma pm_upsert_inv:
  assumes inv: "pm_inv p" and ne: "pz_conn_id r \<noteq> []"
    and own: "\<forall>old. dget (pm_presence p) (pz_conn_id r) = Some old \<longrightarrow> pz_agent_id old = pz_agent_id r"
  shows "pm_inv (snd (pm_upsert r p))"
proof -
  have fw: "pz_conn_id x = c" "c \<noteq> []" "dget (pm_by_agent p) (pz_agent_id x) = Some c"
    if "dget (pm_presence p) c = Some x" for c x
    using inv that by (auto simp: pm_inv_def)
  have bw: "\<exists>x. dget (pm_presence p) c = Some x \<and> pz_agent_id x = a" if "dget (pm_by_agent p) a = Some c" for a c
    using inv that by (auto simp: pm_inv_def)
  have old_true: "str_true (dget (pm_by_agent p) (pz_agent_id r))" if "dget (pm_by_agent p) (pz_agent_id r) \<noteq> None"
    using that bw fw(2) by fastforce
  have other: "c \<noteq> pz_conn_id r" "dget (pm_by_agent p) (pz_agent_id r) \<noteq> Some c"
    if "dget (pm_by_agent p) a = Some c" "a \<noteq> pz_agent_id r" for a c
    using bw [OF that(1)] bw [of "pz_agent_id r" c] own that(2) by auto
  let ?q = "snd (pm_upsert r p)"
  have pres: "dget (pm_presence ?q) c = (if c = pz_conn_id r then Some r
      else if dget (pm_by_agent p) (pz_agent_id r) = Some c then None else dget (pm_presence p) c)" for c
    using old_true by (cases "dget (pm_by_agent p) (pz_agent_id r)") (auto simp: pm_upsert_def Let_def)
  have ag: "dget (pm_by_agent ?q) a = (if a = pz_agent_id r then Some (pz_conn_id r) else dget (pm_by_agent p) a)" for a
    by (simp add: pm_upsert_def Let_def)
  have "pz_conn_id x = c \<and> c \<noteq> [] \<and> dget (pm_by_agent ?q) (pz_agent_id x) = Some c"
    if x: "dget (pm_presence ?q) c = Some x" for c x
  proof (cases "c = pz_conn_id r")
    case True
    then have xr: "x = r" using x by (simp add: pres)
    show ?thesis unfolding xr using ne True ag [of "pz_agent_id r"] by simp
  next
    case False
    then have "dget (pm_presence p) c = Some x" "dget (pm_by_agent p) (pz_agent_id r) \<noteq> Some c"
      using x by (auto simp: pres split: if_splits)
    then show ?thesis using fw [of c x] by (auto simp: ag)
  qed
  moreover have "\<exists>x. dget (pm_presence ?q) c = Some x \<and> pz_agent_id x = a"
    if a: "dget (pm_by_agent ?q) a = Some c" for a c
  proof (cases "a = pz_agent_id r")
    case True
    then show ?thesis using a by (auto simp: pres ag)
  next
    case False
    then have "dget (pm_by_agent p) a = Some c" using a by (simp add: ag)
    then show ?thesis using bw other [OF _ False] by (simp add: pres)
  qed
  ultimately show ?thesis unfolding pm_inv_def by blast
qed

lemma pm_heartbeat_inv: "pm_inv p \<Longrightarrow> pm_inv (snd (pm_heartbeat now c l p))"
  by (fastforce simp: pm_inv_def pm_heartbeat_def split: option.split)

lemma pm_remove_inv:
  assumes inv: "pm_inv p" shows "pm_inv (snd (pm_remove c p))"
proof (cases "dget (pm_presence p) c")
  case (Some r)
  have "pz_agent_id x \<noteq> pz_agent_id r" if "dget (pm_presence p) d = Some x" "d \<noteq> c" for d x
    using inv Some that unfolding pm_inv_def by (metis option.inject)
  moreover have "d \<noteq> c" if "dget (pm_by_agent p) a = Some d" "a \<noteq> pz_agent_id r" for a d
    using inv Some that unfolding pm_inv_def by (metis option.inject)
  ultimately show ?thesis using inv Some by (auto simp: pm_inv_def pm_remove_def)
qed (simp add: pm_remove_def inv)

lemma pm_dmap_inv:
  assumes "pm_inv p" and "\<And>r. pz_conn_id (f r) = pz_conn_id r" "\<And>r. pz_agent_id (f r) = pz_agent_id r"
  shows "pm_inv (p\<lparr>pm_presence := dmap f (pm_presence p)\<rparr>)"
  using assms(1) by (fastforce simp: pm_inv_def assms(2,3))

lemma pm_expire_inv: "pm_inv p \<Longrightarrow> pm_inv (snd (pm_expire_stale now t p))"
  unfolding pm_expire_stale_def Let_def snd_conv by (rule pm_dmap_inv) simp_all

lemma pm_reachable_inv: "pm_reachable p \<Longrightarrow> pm_inv p"
proof (induction rule: pm_reachable.induct)
  case init
  show ?case by (simp add: pm_inv_def pm_init_def)
qed (auto intro: pm_upsert_inv pm_heartbeat_inv pm_remove_inv pm_expire_inv)

text \<open>An agent is never present under two connections, and the index by agent leads to exactly the
  connection its presence record is under.\<close>

theorem pm_presence_unique:
  assumes "pm_reachable p"
  shows "(\<forall>c d x y. dget (pm_presence p) c = Some x \<longrightarrow> dget (pm_presence p) d = Some y \<longrightarrow>
      pz_agent_id x = pz_agent_id y \<longrightarrow> c = d \<and> x = y) \<and>
    (\<forall>a c. dget (pm_by_agent p) a = Some c \<longleftrightarrow>
       (\<exists>x. dget (pm_presence p) c = Some x \<and> pz_agent_id x = a))"
proof -
  have inv: "pm_inv p" using assms by (rule pm_reachable_inv)
  have fw: "dget (pm_by_agent p) (pz_agent_id x) = Some c" if "dget (pm_presence p) c = Some x" for c x
    using inv that by (auto simp: pm_inv_def)
  have bw: "\<exists>x. dget (pm_presence p) c = Some x \<and> pz_agent_id x = a" if "dget (pm_by_agent p) a = Some c" for a c
    using inv that by (auto simp: pm_inv_def)
  have "c = d \<and> x = y" if "dget (pm_presence p) c = Some x" "dget (pm_presence p) d = Some y" "pz_agent_id x = pz_agent_id y" for c d x y
    using fw [OF that(1)] fw [OF that(2)] that by simp
  then show ?thesis using fw bw by blast
qed

definition ex_presence :: "string \<Rightarrow> presence_record" where
  "ex_presence c = \<lparr>pz_agent_id = 1, pz_tenant_id = ''acme'', pz_conn_id = c, pz_status = ''online'',
     pz_capabilities = [], pz_tags = [], pz_load = 0, pz_last_seen = 0, pz_registered_at = 0, pz_metadata = []\<rparr>"

theorem pm_presence_unique_witness:
  "dget (pm_presence (snd (pm_upsert (ex_presence ''b'') (snd (pm_upsert (ex_presence ''a'') pm_init))))) ''a'' = None \<and>
   dget (pm_by_agent (snd (pm_upsert (ex_presence ''b'') (snd (pm_upsert (ex_presence ''a'') pm_init))))) 1 = Some ''b''"
proof -
  let ?p = "snd (pm_upsert (ex_presence ''a'') pm_init)" and ?q = "snd (pm_upsert (ex_presence ''b'')
      (snd (pm_upsert (ex_presence ''a'') pm_init)))"
  have 1: "pm_reachable ?p"
    by (rule pm_reachable.upsert [OF pm_reachable.init]) (simp_all add: ex_presence_def pm_init_def)
  have "pm_reachable ?q"
    by (rule pm_reachable.upsert [OF 1]) (simp_all add: ex_presence_def pm_init_def pm_upsert_def Let_def)
  moreover have "map_option pz_agent_id (dget (pm_presence ?q) ''b'') = Some 1" "dget (pm_presence ?q) ''a'' = None"
    by code_simp+
  ultimately show ?thesis using pm_presence_unique by auto
qed

end
