(* ===== verification/Trace_Store.thy ===== *)
theory Trace_Store
  imports Storage_Memory
begin

text \<open>
  \<open>src/trace/store.py\<close>: trace events and the append-only store that keeps them per session, with the
  index by execution. The keys of the sessions are their UUID strings. Fresh ids and the clock are
  arguments of the helper functions that build events.
\<close>

section \<open>Events\<close>

datatype trace_event_type =
    TE_AGENT_REGISTER
  | TE_AGENT_UNREGISTER
  | TE_AGENT_TIMEOUT
  | TE_INTENT_BROADCAST
  | TE_INTENT_DELIVER
  | TE_INTENT_OFFER
  | TE_INTENT_OFFERS
  | TE_INTENT_AGREE
  | TE_SESSION_CREATED
  | TE_SESSION_CLOSED
  | TE_SESSION_EXPIRED
  | TE_POLICY_DECISION
  | TE_EXEC_REQUEST
  | TE_EXEC_ACCEPTED
  | TE_EXEC_PROGRESS
  | TE_EXEC_RESULT
  | TE_EXEC_ERROR
  | TE_STREAM_START
  | TE_STREAM_CHUNK
  | TE_STREAM_END
  | TE_STREAM_BACKPRESSURE
  | TE_TRACE_GET

fun trace_event_type_value :: "trace_event_type \<Rightarrow> string" where
  "trace_event_type_value TE_AGENT_REGISTER = ''agent.register''"
| "trace_event_type_value TE_AGENT_UNREGISTER = ''agent.unregister''"
| "trace_event_type_value TE_AGENT_TIMEOUT = ''agent.timeout''"
| "trace_event_type_value TE_INTENT_BROADCAST = ''intent.broadcast''"
| "trace_event_type_value TE_INTENT_DELIVER = ''intent.deliver''"
| "trace_event_type_value TE_INTENT_OFFER = ''intent.offer''"
| "trace_event_type_value TE_INTENT_OFFERS = ''intent.offers''"
| "trace_event_type_value TE_INTENT_AGREE = ''intent.agree''"
| "trace_event_type_value TE_SESSION_CREATED = ''session.created''"
| "trace_event_type_value TE_SESSION_CLOSED = ''session.closed''"
| "trace_event_type_value TE_SESSION_EXPIRED = ''session.expired''"
| "trace_event_type_value TE_POLICY_DECISION = ''policy.decision''"
| "trace_event_type_value TE_EXEC_REQUEST = ''exec.request''"
| "trace_event_type_value TE_EXEC_ACCEPTED = ''exec.accepted''"
| "trace_event_type_value TE_EXEC_PROGRESS = ''exec.progress''"
| "trace_event_type_value TE_EXEC_RESULT = ''exec.result''"
| "trace_event_type_value TE_EXEC_ERROR = ''exec.error''"
| "trace_event_type_value TE_STREAM_START = ''stream.start''"
| "trace_event_type_value TE_STREAM_CHUNK = ''stream.chunk''"
| "trace_event_type_value TE_STREAM_END = ''stream.end''"
| "trace_event_type_value TE_STREAM_BACKPRESSURE = ''stream.backpressure''"
| "trace_event_type_value TE_TRACE_GET = ''trace.get''"

record trace_event =
  te_event_id :: uuid
  te_event_type :: trace_event_type
  te_timestamp :: datetime
  te_tenant_id :: string
  te_ephemeral_interface_id :: "uuid option"
  te_exec_id :: "string option"
  te_agent_id :: "uuid option"
  te_conn_id :: "string option"
  te_data :: payload

definition te_to_dict :: "(datetime \<Rightarrow> string) \<Rightarrow> trace_event \<Rightarrow> payload" where
  "te_to_dict isoformat e =
     [(''event_id'', JStr (uuid_str (te_event_id e))),
      (''event_type'', JStr (trace_event_type_value (te_event_type e))),
      (''timestamp'', JStr (isoformat (te_timestamp e))),
      (''tenant_id'', JStr (te_tenant_id e)),
      (''ephemeral_interface_id'', jopt (map_option uuid_str (te_ephemeral_interface_id e))),
      (''exec_id'', jopt (te_exec_id e)),
      (''agent_id'', jopt (map_option uuid_str (te_agent_id e))),
      (''conn_id'', jopt (te_conn_id e)),
      (''data'', JDict (te_data e))]"

section \<open>Store\<close>

record trace_store =
  ts_max_events :: int
  ts_by_session :: "(string, trace_event list) pydict"
  ts_by_exec :: "(string, (string \<times> nat) list) pydict"
  ts_global :: "trace_event list"

definition ts_init :: "int \<Rightarrow> trace_store" where
  "ts_init n = \<lparr>ts_max_events = n, ts_by_session = [], ts_by_exec = [], ts_global = []\<rparr>"

text \<open>\<open>del events[:max // 10]\<close> when there are more than \<open>max\<close> of them.\<close>

definition evict :: "int \<Rightarrow> 'a list \<Rightarrow> 'a list" where
  "evict m events = (if m < int (length events) then py_from (m div 10) events else events)"

definition ts_append :: "trace_event \<Rightarrow> trace_store \<Rightarrow> trace_store" where
  "ts_append e t =
     (case te_ephemeral_interface_id e of
        Some s \<Rightarrow>
          let key = uuid_str s; events = dget_or (ts_by_session t) key []; idx = length events;
              events = events @ [e]
          in t\<lparr>ts_by_session := dset key (evict (ts_max_events t) events) (ts_by_session t),
               ts_by_exec := (if str_true (te_exec_id e)
                  then ix_append (the (te_exec_id e)) (key, idx) (ts_by_exec t) else ts_by_exec t)\<rparr>
      | None \<Rightarrow> t\<lparr>ts_global := evict (ts_max_events t) (ts_global t @ [e])\<rparr>)"

text \<open>\<open>append_async\<close> also hands a record of the event to the storage port, when there is one.\<close>

definition te_to_record :: "trace_event \<Rightarrow> trace_record" where
  "te_to_record e = \<lparr>tc_event_id = te_event_id e, tc_event_type = trace_event_type_value (te_event_type e),
     tc_timestamp = te_timestamp e, tc_tenant_id = te_tenant_id e,
     tc_ephemeral_interface_id = te_ephemeral_interface_id e, tc_exec_id = te_exec_id e,
     tc_agent_id = te_agent_id e, tc_conn_id = te_conn_id e, tc_data = te_data e\<rparr>"

definition ts_append_async ::
  "(trace_record \<Rightarrow> 's \<Rightarrow> 's) \<Rightarrow> trace_event \<Rightarrow> 's option \<times> trace_store \<Rightarrow> 's option \<times> trace_store" where
  "ts_append_async storage_append e st =
     (map_option (storage_append (te_to_record e)) (fst st), ts_append e (snd st))"

definition ts_get_by_session :: "string \<Rightarrow> int \<Rightarrow> string option \<Rightarrow> trace_store \<Rightarrow> trace_event list \<times> bool" where
  "ts_get_by_session key tail exec t =
     (let events = dget_or (ts_by_session t) key [];
          events = (if str_true exec then filter (\<lambda>e. te_exec_id e = exec) events else events)
      in (py_last tail events, tail < int (length events)))"

definition ts_resolve :: "trace_store \<Rightarrow> string \<times> nat \<Rightarrow> trace_event option" where
  "ts_resolve t ref =
     (let events = dget_or (ts_by_session t) (fst ref) []
      in if snd ref < length events then Some (events ! snd ref) else None)"

definition ts_get_by_exec :: "string \<Rightarrow> int \<Rightarrow> trace_store \<Rightarrow> trace_event list \<times> bool" where
  "ts_get_by_exec exec tail t =
     (let events = List.map_filter (ts_resolve t) (dget_or (ts_by_exec t) exec [])
      in (py_last tail events, tail < int (length events)))"

definition ts_get_global :: "int \<Rightarrow> trace_store \<Rightarrow> trace_event list \<times> bool" where
  "ts_get_global tail t = (py_last tail (ts_global t), tail < int (length (ts_global t)))"

definition ts_session_count :: "trace_store \<Rightarrow> int" where
  "ts_session_count t = int (length (ts_by_session t))"

definition ts_total_events :: "trace_store \<Rightarrow> int" where
  "ts_total_events t = sum_list (map (\<lambda>es. int (length es)) (dvalues (ts_by_session t))) + int (length (ts_global t))"

section \<open>Events of the bus\<close>

text \<open>\<open>sha\<close> is the hexadecimal SHA-256 digest.\<close>

definition short_hash :: "(string \<Rightarrow> string) \<Rightarrow> string \<Rightarrow> int \<Rightarrow> string" where
  "short_hash sha data n = py_first n (sha data)"

definition base_event :: "uuid \<Rightarrow> datetime \<Rightarrow> trace_event_type \<Rightarrow> string \<Rightarrow> payload \<Rightarrow> trace_event" where
  "base_event fresh now ty tenant data = \<lparr>te_event_id = fresh, te_event_type = ty, te_timestamp = now,
     te_tenant_id = tenant, te_ephemeral_interface_id = None, te_exec_id = None, te_agent_id = None,
     te_conn_id = None, te_data = data\<rparr>"

definition jnat_opt :: "int option \<Rightarrow> json" where
  "jnat_opt n = (case n of None \<Rightarrow> JNone | Some i \<Rightarrow> JInt i)"

definition jbool_opt :: "bool option \<Rightarrow> json" where
  "jbool_opt b = (case b of None \<Rightarrow> JNone | Some c \<Rightarrow> JBool c)"

definition trace_agent_register ::
  "uuid \<Rightarrow> datetime \<Rightarrow> string \<Rightarrow> uuid \<Rightarrow> string \<Rightarrow> string list \<Rightarrow> trace_event" where
  "trace_agent_register fresh now tenant agent conn capabilities =
     (base_event fresh now TE_AGENT_REGISTER tenant
        [(''capabilities'', JList (map JStr capabilities))])
       \<lparr>te_agent_id := Some agent, te_conn_id := Some conn\<rparr>"

definition trace_agent_unregister ::
  "uuid \<Rightarrow> datetime \<Rightarrow> string \<Rightarrow> uuid \<Rightarrow> string \<Rightarrow> string \<Rightarrow> trace_event" where
  "trace_agent_unregister fresh now tenant agent conn reason =
     (base_event fresh now TE_AGENT_UNREGISTER tenant
        [(''reason'', JStr reason)])
       \<lparr>te_agent_id := Some agent, te_conn_id := Some conn\<rparr>"

definition trace_agent_timeout ::
  "uuid \<Rightarrow> datetime \<Rightarrow> string \<Rightarrow> uuid \<Rightarrow> string \<Rightarrow> trace_event" where
  "trace_agent_timeout fresh now tenant agent conn =
     (base_event fresh now TE_AGENT_TIMEOUT tenant
        [])
       \<lparr>te_agent_id := Some agent, te_conn_id := Some conn\<rparr>"

definition trace_intent_broadcast ::
  "uuid \<Rightarrow> datetime \<Rightarrow> string \<Rightarrow> uuid \<Rightarrow> uuid \<Rightarrow> string \<Rightarrow> int \<Rightarrow> trace_event" where
  "trace_intent_broadcast fresh now tenant session agent intent_type n =
     (base_event fresh now TE_INTENT_BROADCAST tenant
        [(''intent_type'', JStr intent_type), (''candidate_count'', JInt n)])
       \<lparr>te_ephemeral_interface_id := Some session, te_agent_id := Some agent\<rparr>"

definition trace_intent_offer ::
  "uuid \<Rightarrow> datetime \<Rightarrow> string \<Rightarrow> uuid \<Rightarrow> uuid \<Rightarrow> string \<Rightarrow> string list \<Rightarrow> trace_event" where
  "trace_intent_offer fresh now tenant session agent offer_id views =
     (base_event fresh now TE_INTENT_OFFER tenant
        [(''offer_id'', JStr offer_id), (''view_ids'', JList (map JStr views))])
       \<lparr>te_ephemeral_interface_id := Some session, te_agent_id := Some agent\<rparr>"

definition trace_intent_agree ::
  "uuid \<Rightarrow> datetime \<Rightarrow> string \<Rightarrow> uuid \<Rightarrow> uuid \<Rightarrow> uuid \<Rightarrow> string \<Rightarrow> string option \<Rightarrow> trace_event" where
  "trace_intent_agree fresh now tenant session requester provider offer_id view =
     (base_event fresh now TE_INTENT_AGREE tenant
        [(''offer_id'', JStr offer_id), (''provider_id'', JStr (uuid_str provider)), (''chosen_view_id'', jopt view)])
       \<lparr>te_ephemeral_interface_id := Some session, te_agent_id := Some requester\<rparr>"

definition trace_session_created ::
  "uuid \<Rightarrow> datetime \<Rightarrow> string \<Rightarrow> uuid \<Rightarrow> uuid \<Rightarrow> uuid \<Rightarrow> trace_event" where
  "trace_session_created fresh now tenant session requester provider =
     (base_event fresh now TE_SESSION_CREATED tenant
        [(''requester_id'', JStr (uuid_str requester)), (''provider_id'', JStr (uuid_str provider))])
       \<lparr>te_ephemeral_interface_id := Some session\<rparr>"

definition trace_session_closed ::
  "uuid \<Rightarrow> datetime \<Rightarrow> string \<Rightarrow> uuid \<Rightarrow> string \<Rightarrow> trace_event" where
  "trace_session_closed fresh now tenant session reason =
     (base_event fresh now TE_SESSION_CLOSED tenant
        [(''reason'', JStr reason)])
       \<lparr>te_ephemeral_interface_id := Some session\<rparr>"

definition trace_policy_decision ::
  "uuid \<Rightarrow> datetime \<Rightarrow> string \<Rightarrow> uuid \<Rightarrow> string \<Rightarrow> uuid \<Rightarrow> bool \<Rightarrow> string \<Rightarrow> string option \<Rightarrow> trace_event" where
  "trace_policy_decision fresh now tenant session exec agent ok reason purpose =
     (base_event fresh now TE_POLICY_DECISION tenant
        [(''allowed'', JBool ok), (''reason'', JStr reason), (''purpose'', jopt purpose)])
       \<lparr>te_ephemeral_interface_id := Some session, te_exec_id := Some exec, te_agent_id := Some agent\<rparr>"

definition trace_exec_request ::
  "uuid \<Rightarrow> datetime \<Rightarrow> string \<Rightarrow> uuid \<Rightarrow> string \<Rightarrow> uuid \<Rightarrow> string option \<Rightarrow> trace_event" where
  "trace_exec_request fresh now tenant session exec agent action =
     (base_event fresh now TE_EXEC_REQUEST tenant
        [(''action'', jopt action)])
       \<lparr>te_ephemeral_interface_id := Some session, te_exec_id := Some exec, te_agent_id := Some agent\<rparr>"

definition trace_exec_result ::
  "uuid \<Rightarrow> datetime \<Rightarrow> string \<Rightarrow> uuid \<Rightarrow> string \<Rightarrow> uuid \<Rightarrow> bool option \<Rightarrow> trace_event" where
  "trace_exec_result fresh now tenant session exec agent valid =
     (base_event fresh now TE_EXEC_RESULT tenant
        [(''view_valid'', jbool_opt valid)])
       \<lparr>te_ephemeral_interface_id := Some session, te_exec_id := Some exec, te_agent_id := Some agent\<rparr>"

definition trace_exec_error ::
  "uuid \<Rightarrow> datetime \<Rightarrow> string \<Rightarrow> uuid \<Rightarrow> string option \<Rightarrow> uuid \<Rightarrow> string \<Rightarrow> string \<Rightarrow> trace_event" where
  "trace_exec_error fresh now tenant session exec agent code message =
     (base_event fresh now TE_EXEC_ERROR tenant
        [(''error_code'', JStr code), (''error_message'', JStr message)])
       \<lparr>te_ephemeral_interface_id := Some session, te_exec_id := exec, te_agent_id := Some agent\<rparr>"

definition trace_stream_start ::
  "uuid \<Rightarrow> datetime \<Rightarrow> string \<Rightarrow> uuid \<Rightarrow> string \<Rightarrow> uuid \<Rightarrow> string option \<Rightarrow> trace_event" where
  "trace_stream_start fresh now tenant session exec agent content_type =
     (base_event fresh now TE_STREAM_START tenant
        [(''content_type'', jopt content_type)])
       \<lparr>te_ephemeral_interface_id := Some session, te_exec_id := Some exec, te_agent_id := Some agent\<rparr>"

definition trace_stream_chunk ::
  "uuid \<Rightarrow> datetime \<Rightarrow> string \<Rightarrow> uuid \<Rightarrow> string \<Rightarrow> int \<Rightarrow> int \<Rightarrow> string option \<Rightarrow> trace_event" where
  "trace_stream_chunk fresh now tenant session exec seq chunk_len chunk_hash =
     (base_event fresh now TE_STREAM_CHUNK tenant
        [(''seq'', JInt seq), (''chunk_len'', JInt chunk_len), (''chunk_hash'', jopt chunk_hash)])
       \<lparr>te_ephemeral_interface_id := Some session, te_exec_id := Some exec\<rparr>"

definition trace_stream_end ::
  "uuid \<Rightarrow> datetime \<Rightarrow> string \<Rightarrow> uuid \<Rightarrow> string \<Rightarrow> int option \<Rightarrow> int option \<Rightarrow> trace_event" where
  "trace_stream_end fresh now tenant session exec chunks size_bytes =
     (base_event fresh now TE_STREAM_END tenant
        [(''total_chunks'', jnat_opt chunks), (''total_bytes'', jnat_opt size_bytes)])
       \<lparr>te_ephemeral_interface_id := Some session, te_exec_id := Some exec\<rparr>"

definition trace_stream_backpressure ::
  "uuid \<Rightarrow> datetime \<Rightarrow> string \<Rightarrow> uuid \<Rightarrow> string \<Rightarrow> int \<Rightarrow> trace_event" where
  "trace_stream_backpressure fresh now tenant session exec queue_size =
     (base_event fresh now TE_STREAM_BACKPRESSURE tenant
        [(''queue_size'', JInt queue_size)])
       \<lparr>te_ephemeral_interface_id := Some session, te_exec_id := Some exec\<rparr>"

section \<open>Lemmas\<close>

definition of_session :: "string \<Rightarrow> trace_event \<Rightarrow> bool" where
  "of_session key e = (map_option uuid_str (te_ephemeral_interface_id e) = Some key)"

definition ts_run :: "int \<Rightarrow> trace_event list \<Rightarrow> trace_store" where
  "ts_run m es = fold ts_append es (ts_init m)"

lemma ts_run_Nil [simp]: "ts_run m [] = ts_init m"
  by (simp add: ts_run_def)

lemma ts_run_snoc [simp]: "ts_run m (es @ [e]) = ts_append e (ts_run m es)"
  by (simp add: ts_run_def)

lemma ts_append_max [simp]: "ts_max_events (ts_append e t) = ts_max_events t"
  by (simp add: ts_append_def Let_def split: option.split)

lemma ts_run_max [simp]: "ts_max_events (ts_run m es) = m"
  by (induction es rule: rev_induct) (simp_all add: ts_init_def)

lemma ts_append_session:
  "dget_or (ts_by_session (ts_append e t)) key [] =
     (if of_session key e then evict (ts_max_events t) (dget_or (ts_by_session t) key [] @ [e])
      else dget_or (ts_by_session t) key [])"
  by (auto simp: ts_append_def Let_def of_session_def dget_or_def split: option.split)

lemma ts_append_global:
  "ts_global (ts_append e t) = (if te_ephemeral_interface_id e = None then evict (ts_max_events t) (ts_global t @ [e])
     else ts_global t)"
  by (simp add: ts_append_def Let_def split: option.split)

lemma suffix_evict: "suffix (evict m xs) xs"
  by (simp add: evict_def suffix_py_from)

lemma evict_id: "int (length xs) \<le> m \<Longrightarrow> evict m xs = xs"
  by (simp add: evict_def)

lemma length_evict:
  assumes "10 \<le> m" and "int (length xs) \<le> m + 1" shows "int (length (evict m xs)) \<le> m"
proof -
  have "1 \<le> m div 10" using assms(1) by linarith
  with assms show ?thesis by (auto simp: evict_def length_py_from)
qed

lemma evict_keeps_last:
  assumes "0 \<le> m" shows "\<exists>ys. evict m (xs @ [x]) = ys @ [x]"
proof (cases "m < int (length (xs @ [x]))")
  case True
  have "nat (m div 10) \<le> length xs" using True assms by (simp add: nat_le_iff)
  then show ?thesis using True assms by (simp add: evict_def py_from_def)
next
  case False
  then show ?thesis by (simp add: evict_def)
qed

lemma suffix_snoc: "suffix xs ys \<Longrightarrow> suffix (xs @ [e]) (ys @ [e])"
  by (auto simp: suffix_def)

lemma suffix_evict_snoc: "suffix xs ys \<Longrightarrow> suffix (evict m (xs @ [e])) (ys @ [e])"
  by (rule suffix_order.trans [OF suffix_evict suffix_snoc])

lemma ts_run_suffix:
  "suffix (dget_or (ts_by_session (ts_run m es)) key []) (filter (of_session key) es)"
proof (induction es rule: rev_induct)
  case Nil
  then show ?case by (simp add: ts_init_def dget_or_def)
next
  case (snoc e es)
  show ?case using snoc suffix_evict_snoc [OF snoc, of m e] by (cases "of_session key e") (simp_all add: ts_append_session)
qed

lemma ts_run_global_suffix:
  "suffix (ts_global (ts_run m es)) (filter (\<lambda>e. te_ephemeral_interface_id e = None) es)"
proof (induction es rule: rev_induct)
  case Nil
  then show ?case by (simp add: ts_init_def)
next
  case (snoc e es)
  show ?case using snoc suffix_evict_snoc [OF snoc, of m e]
    by (cases "te_ephemeral_interface_id e") (simp_all add: ts_append_global)
qed

lemma ts_run_bound:
  "10 \<le> m \<Longrightarrow> int (length (dget_or (ts_by_session (ts_run m es)) key [])) \<le> m \<and> int (length (ts_global (ts_run m es))) \<le> m"
proof (induction es rule: rev_induct)
  case Nil
  then show ?case by (simp add: ts_init_def dget_or_def)
next
  case (snoc e es)
  then show ?case by (auto simp: ts_append_session ts_append_global intro!: length_evict)
qed

lemma ts_run_full:
  "int (length (filter (of_session key) es)) \<le> m \<Longrightarrow>
     dget_or (ts_by_session (ts_run m es)) key [] = filter (of_session key) es"
proof (induction es rule: rev_induct)
  case Nil
  then show ?case by (simp add: ts_init_def dget_or_def)
next
  case (snoc e es)
  then show ?case by (auto simp: ts_append_session evict_id split: if_splits)
qed

text \<open>While nothing is evicted, the references of an execution resolve to its events.\<close>

definition session_scoped :: "string \<Rightarrow> trace_event \<Rightarrow> bool" where
  "session_scoped exec e = (te_ephemeral_interface_id e \<noteq> None \<and> te_exec_id e = Some exec)"

lemma map_filter_resolved: "map f xs = map Some ys \<Longrightarrow> List.map_filter f xs = ys"
proof (induction xs arbitrary: ys)
  case (Cons x xs)
  then show ?case by (cases ys) (auto simp: List.map_filter_def)
qed (simp add: List.map_filter_def)

lemma map_Some_mono: "map f xs = map Some ys \<Longrightarrow> (\<And>x y. f x = Some y \<Longrightarrow> g x = Some y) \<Longrightarrow> map g xs = map Some ys"
proof (induction xs arbitrary: ys)
  case (Cons x xs)
  then show ?case by (cases ys) auto
qed simp

lemma ts_run_refs:
  assumes "exec \<noteq> []"
  shows "(\<forall>key. int (length (filter (of_session key) es)) \<le> m) \<Longrightarrow>
    map (ts_resolve (ts_run m es)) (dget_or (ts_by_exec (ts_run m es)) exec []) = map Some (filter (session_scoped exec) es)"
proof (induction es rule: rev_induct)
  case Nil
  then show ?case by (simp add: ts_init_def dget_or_def)
next
  case (snoc e es)
  let ?t = "ts_run m es" and ?u = "ts_run m (es @ [e])"
  have small: "\<forall>key. int (length (filter (of_session key) es)) \<le> m"
  proof
    fix key
    show "int (length (filter (of_session key) es)) \<le> m"
      using snoc.prems [rule_format, of key] by (simp split: if_splits)
  qed
  have now: "dget_or (ts_by_session ?u) key [] = dget_or (ts_by_session ?t) key [] @ (if of_session key e then [e] else [])" for key
    using ts_run_full [of key "es @ [e]" m] ts_run_full [of key es m] snoc.prems small by auto
  have old: "ts_resolve ?u ref = Some x" if "ts_resolve ?t ref = Some x" for ref x
    using that now [of "fst ref"] by (auto simp: ts_resolve_def Let_def nth_append split: if_splits)
  have refs: "map (ts_resolve ?u) (dget_or (ts_by_exec ?t) exec []) = map Some (filter (session_scoped exec) es)"
    using snoc.IH [OF small] old by (rule map_Some_mono)
  show ?case
  proof (cases "session_scoped exec e")
    case True
    then obtain i where i: "te_ephemeral_interface_id e = Some i" "te_exec_id e = Some exec"
      by (auto simp: session_scoped_def)
    let ?k = "uuid_str i"
    have "dget_or (ts_by_exec ?u) exec [] = dget_or (ts_by_exec ?t) exec [] @
        [(?k, length (dget_or (ts_by_session ?t) ?k []))]"
      using i assms by (simp add: ts_append_def Let_def)
    moreover have "ts_resolve ?u (?k, length (dget_or (ts_by_session ?t) ?k [])) = Some e"
      using now [of ?k] i by (simp add: ts_resolve_def of_session_def)
    ultimately show ?thesis using refs True by simp
  next
    case False
    then have "dget_or (ts_by_exec ?u) exec [] = dget_or (ts_by_exec ?t) exec []"
      by (auto simp: ts_append_def Let_def session_scoped_def elim!: str_trueE split: option.split)
    with refs False show ?thesis by simp
  qed
qed

section \<open>Properties\<close>

text \<open>C40: after any events, a store with room for at least ten events holds at most \<open>max_events\<close> per session and of
  the global ones, and what it holds of a session is the end of that session's own events in their
  order, all of them when they are not more than the limit, and always the last one.\<close>

theorem trace_session_log:
  assumes "10 \<le> m"
  shows "let log = dget_or (ts_by_session (ts_run m es)) key []; own = filter (of_session key) es in
    int (length log) \<le> m \<and> int (length (ts_global (ts_run m es))) \<le> m \<and> suffix log own \<and>
    (int (length own) \<le> m \<longrightarrow> log = own) \<and> (own \<noteq> [] \<longrightarrow> log \<noteq> [] \<and> last log = last own)"
proof -
  let ?log = "dget_or (ts_by_session (ts_run m es)) key []" and ?own = "filter (of_session key) es"
  have suf: "suffix ?log ?own" by (rule ts_run_suffix)
  have "?own \<noteq> [] \<Longrightarrow> ?log \<noteq> []"
  proof (induction es rule: rev_induct)
    case (snoc e es)
    show ?case
    proof (cases "of_session key e")
      case True
      obtain ys where "evict m (dget_or (ts_by_session (ts_run m es)) key [] @ [e]) = ys @ [e]"
        using evict_keeps_last [of m "dget_or (ts_by_session (ts_run m es)) key []" e] assms by auto
      with True show ?thesis by (simp add: ts_append_session)
    next
      case False
      with snoc show ?thesis by (simp add: ts_append_session)
    qed
  qed simp
  moreover have "last ?log = last ?own" if "?log \<noteq> []" using suf that by (auto simp: suffix_def)
  ultimately show ?thesis
    using suf ts_run_bound [OF assms] ts_run_full by (auto simp: Let_def)
qed

definition ex_event :: "uuid \<Rightarrow> string \<Rightarrow> trace_event" where
  "ex_event s x = trace_exec_request 0 0 ''acme'' s x 1 None"

definition ex_execs :: "string list" where
  "ex_execs = [''A'', ''B'', ''C'', ''C'', ''C'', ''C'', ''C'', ''C'', ''C'', ''C'', ''C'']"

theorem trace_session_log_witness:
  "length (dget_or (ts_by_session (ts_run 10 (map (ex_event 1) ex_execs))) (uuid_str 1) []) \<le> 10"
  using trace_session_log [of 10 "map (ex_event 1) ex_execs" "uuid_str 1"]
  by (simp add: Let_def)

text \<open>As long as no session has more than \<open>max_events\<close> events, the query by execution returns the most
  recent \<open>tail\<close> of that execution's session events, in order over all sessions, and says whether there
  were more; the query by session filtered by execution returns that session's share of them.\<close>

theorem trace_by_exec:
  assumes "exec \<noteq> []" and "\<forall>key. int (length (filter (of_session key) es)) \<le> m"
  shows "ts_get_by_exec exec tail (ts_run m es) =
      (let xs = filter (session_scoped exec) es in (py_last tail xs, tail < int (length xs))) \<and>
    ts_get_by_session key tail (Some exec) (ts_run m es) =
      (let xs = filter (\<lambda>e. of_session key e \<and> session_scoped exec e) es in (py_last tail xs, tail < int (length xs)))"
proof -
  have "List.map_filter (ts_resolve (ts_run m es)) (dget_or (ts_by_exec (ts_run m es)) exec []) =
      filter (session_scoped exec) es"
    by (rule map_filter_resolved) (rule ts_run_refs [OF assms])
  moreover have "filter (\<lambda>e. te_exec_id e = Some exec) (filter (of_session key) es) =
      filter (\<lambda>e. of_session key e \<and> session_scoped exec e) es"
    unfolding filter_filter by (rule filter_cong) (auto simp: of_session_def session_scoped_def)
  ultimately show ?thesis
    using ts_run_full [of key es m] assms by (simp add: ts_get_by_exec_def ts_get_by_session_def Let_def)
qed

theorem trace_by_exec_witness:
  "ts_get_by_exec ''x'' 1 (ts_run 10 [ex_event 1 ''x'', ex_event 2 ''y'', ex_event 2 ''x'']) = ([ex_event 2 ''x''], True)"
proof -
  have small: "\<forall>key. int (length (filter (of_session key) [ex_event 1 ''x'', ex_event 2 ''y'', ex_event 2 ''x''])) \<le> 10"
    by simp
  show ?thesis
    using trace_by_exec [OF _ small, of "''x''" 1]
    by (simp add: ex_event_def trace_exec_request_def base_event_def session_scoped_def py_last_def Let_def)
qed

text \<open>Once a session has been evicted from, the query by execution returns events of other executions.\<close>

lemma trace_by_exec_stale:
  "\<exists>es e. e \<in> set (fst (ts_get_by_exec ''A'' 100 (ts_run 10 es))) \<and> te_exec_id e \<noteq> Some ''A''"
proof -
  let ?es = "map (ex_event 1) ex_execs"
  have "map te_exec_id (fst (ts_get_by_exec ''A'' 100 (ts_run 10 ?es))) = [Some ''B'']" by code_simp
  then have "Some ''B'' \<in> te_exec_id ` set (fst (ts_get_by_exec ''A'' 100 (ts_run 10 ?es)))"
    by (metis list.set_intros(1) set_map)
  then show ?thesis by force
qed

text \<open>With a limit below ten, nothing is evicted and the log is not bounded.\<close>

lemma trace_small_limit:
  "\<exists>es. m < int (length (ts_global (ts_run m es)))" if "0 \<le> m" "m < 10"
proof -
  have "m div 10 = 0" using that by simp
  then have keep: "evict m xs = xs" for xs :: "trace_event list" by (simp add: evict_def py_from_def)
  let ?e = "trace_agent_timeout 0 0 [] 0 []"
  have "length (ts_global (ts_run m (replicate n ?e))) = n" for n
  proof (induction n)
    case (Suc n)
    then show ?case
      by (simp add: replicate_append_same [symmetric] ts_append_global keep trace_agent_timeout_def base_event_def
          del: replicate.simps add: replicate_Suc)
  qed (simp add: ts_init_def)
  from this [of "nat m + 1"] show ?thesis using that by (intro exI [of _ "replicate (nat m + 1) ?e"]) simp
qed

end
