(* ===== verification/Event_Models.thy ===== *)
theory Event_Models
  imports Py_Values
begin

text \<open>
  Streamable events (\<open>src/events/models.py\<close>): types, severities, the event classes and the factory
  functions. The four subclasses of \<open>BaseEvent\<close> add fields; here an event is one record whose last
  field holds what its class adds. Pydantic refuses a progress outside 0 to 100, so constructing an
  event can fail. The random id and the clock are arguments of the factories. A \<open>float\<close> is the
  rational it denotes.
\<close>

datatype event_type =
    EV_EXECUTION_STARTED
  | EV_EXECUTION_PROGRESS
  | EV_EXECUTION_STEP_STARTED
  | EV_EXECUTION_STEP_COMPLETED
  | EV_EXECUTION_COMPLETED
  | EV_EXECUTION_FAILED
  | EV_EXECUTION_RETRYING
  | EV_EXECUTION_TIMEOUT
  | EV_FLOW_STARTED
  | EV_FLOW_AGENT_QUEUED
  | EV_FLOW_AGENT_STARTED
  | EV_FLOW_AGENT_COMPLETED
  | EV_FLOW_AGENT_FAILED
  | EV_FLOW_TRANSITION
  | EV_FLOW_COMPLETED
  | EV_FLOW_FAILED
  | EV_AGENT_STATUS
  | EV_AGENT_PROGRESS
  | EV_AGENT_METRIC
  | EV_AGENT_CUSTOM
  | EV_REASONING_STARTED
  | EV_REASONING_STEP
  | EV_REASONING_OBSERVATION
  | EV_REASONING_THOUGHT
  | EV_REASONING_ACTION
  | EV_REASONING_COMPLETED
  | EV_SYSTEM_INFO
  | EV_SYSTEM_WARNING
  | EV_SYSTEM_ERROR

fun event_type_value :: "event_type \<Rightarrow> string" where
  "event_type_value EV_EXECUTION_STARTED = ''execution.started''"
| "event_type_value EV_EXECUTION_PROGRESS = ''execution.progress''"
| "event_type_value EV_EXECUTION_STEP_STARTED = ''execution.step.started''"
| "event_type_value EV_EXECUTION_STEP_COMPLETED = ''execution.step.completed''"
| "event_type_value EV_EXECUTION_COMPLETED = ''execution.completed''"
| "event_type_value EV_EXECUTION_FAILED = ''execution.failed''"
| "event_type_value EV_EXECUTION_RETRYING = ''execution.retrying''"
| "event_type_value EV_EXECUTION_TIMEOUT = ''execution.timeout''"
| "event_type_value EV_FLOW_STARTED = ''flow.started''"
| "event_type_value EV_FLOW_AGENT_QUEUED = ''flow.agent.queued''"
| "event_type_value EV_FLOW_AGENT_STARTED = ''flow.agent.started''"
| "event_type_value EV_FLOW_AGENT_COMPLETED = ''flow.agent.completed''"
| "event_type_value EV_FLOW_AGENT_FAILED = ''flow.agent.failed''"
| "event_type_value EV_FLOW_TRANSITION = ''flow.transition''"
| "event_type_value EV_FLOW_COMPLETED = ''flow.completed''"
| "event_type_value EV_FLOW_FAILED = ''flow.failed''"
| "event_type_value EV_AGENT_STATUS = ''agent.status''"
| "event_type_value EV_AGENT_PROGRESS = ''agent.progress''"
| "event_type_value EV_AGENT_METRIC = ''agent.metric''"
| "event_type_value EV_AGENT_CUSTOM = ''agent.custom''"
| "event_type_value EV_REASONING_STARTED = ''reasoning.started''"
| "event_type_value EV_REASONING_STEP = ''reasoning.step''"
| "event_type_value EV_REASONING_OBSERVATION = ''reasoning.observation''"
| "event_type_value EV_REASONING_THOUGHT = ''reasoning.thought''"
| "event_type_value EV_REASONING_ACTION = ''reasoning.action''"
| "event_type_value EV_REASONING_COMPLETED = ''reasoning.completed''"
| "event_type_value EV_SYSTEM_INFO = ''system.info''"
| "event_type_value EV_SYSTEM_WARNING = ''system.warning''"
| "event_type_value EV_SYSTEM_ERROR = ''system.error''"

datatype event_severity = SEV_DEBUG | SEV_INFO | SEV_WARNING | SEV_ERROR | SEV_CRITICAL

fun event_severity_value :: "event_severity \<Rightarrow> string" where
  "event_severity_value SEV_DEBUG = ''debug''"
| "event_severity_value SEV_INFO = ''info''"
| "event_severity_value SEV_WARNING = ''warning''"
| "event_severity_value SEV_ERROR = ''error''"
| "event_severity_value SEV_CRITICAL = ''critical''"

record execution_detail =
  xd_action :: "string option"
  xd_step_index :: "int option"
  xd_total_steps :: "int option"
  xd_elapsed_ms :: "int option"
  xd_estimated_remaining_ms :: "int option"

definition no_execution_detail :: execution_detail where
  "no_execution_detail = \<lparr>xd_action = None, xd_step_index = None, xd_total_steps = None, xd_elapsed_ms = None,
     xd_estimated_remaining_ms = None\<rparr>"

record flow_detail =
  fd_flow_id :: "string option"
  fd_flow_name :: "string option"
  fd_current_agent_id :: "uuid option"
  fd_current_agent_name :: "string option"
  fd_previous_agent_id :: "uuid option"
  fd_next_agent_id :: "uuid option"
  fd_agents_completed :: int
  fd_agents_total :: int
  fd_agent_order :: "string list"

definition no_flow_detail :: flow_detail where
  "no_flow_detail = \<lparr>fd_flow_id = None, fd_flow_name = None, fd_current_agent_id = None, fd_current_agent_name = None,
     fd_previous_agent_id = None, fd_next_agent_id = None, fd_agents_completed = 0, fd_agents_total = 0, fd_agent_order = []\<rparr>"

record agent_detail =
  ad_agent_id :: uuid
  ad_agent_name :: "string option"
  ad_capability :: "string option"
  ad_custom_type :: "string option"

record reasoning_detail =
  rd_step_type :: "string option"
  rd_step_number :: "int option"
  rd_thought :: "string option"
  rd_observation :: "string option"
  rd_action :: "string option"
  rd_tool_name :: "string option"
  rd_tool_input :: "payload option"

definition no_reasoning_detail :: reasoning_detail where
  "no_reasoning_detail = \<lparr>rd_step_type = None, rd_step_number = None, rd_thought = None, rd_observation = None,
     rd_action = None, rd_tool_name = None, rd_tool_input = None\<rparr>"

datatype event_detail =
    PlainEvent
  | ExecutionEvent execution_detail
  | FlowEvent flow_detail
  | AgentEvent agent_detail
  | ReasoningEvent reasoning_detail

record event =
  ev_event_id :: uuid
  ev_event_type :: event_type
  ev_timestamp :: datetime
  ev_session_id :: uuid
  ev_exec_id :: "string option"
  ev_correlation_id :: "uuid option"
  ev_tenant_id :: string
  ev_source_agent_id :: "uuid option"
  ev_source_name :: "string option"
  ev_severity :: event_severity
  ev_message :: string
  ev_data :: payload
  ev_progress_percent :: "rat option"
  ev_detail :: event_detail

text \<open>The fields every factory sets, the others at their defaults.\<close>

definition new_event ::
  "uuid \<Rightarrow> datetime \<Rightarrow> event_type \<Rightarrow> uuid \<Rightarrow> string \<Rightarrow> string option \<Rightarrow> string \<Rightarrow> event" where
  "new_event eid now ty session tenant exec msg =
     \<lparr>ev_event_id = eid, ev_event_type = ty, ev_timestamp = now, ev_session_id = session, ev_exec_id = exec,
      ev_correlation_id = None, ev_tenant_id = tenant, ev_source_agent_id = None, ev_source_name = None,
      ev_severity = SEV_INFO, ev_message = msg, ev_data = [], ev_progress_percent = None, ev_detail = PlainEvent\<rparr>"

text \<open>The validation of the model: \<open>ge=0.0, le=100.0\<close>.\<close>

datatype event_error = ValidationError | ValueError string

definition validated :: "event \<Rightarrow> event_error + event" where
  "validated e =
     (case ev_progress_percent e of
        None \<Rightarrow> Inr e
      | Some p \<Rightarrow> if 0 \<le> p \<and> p \<le> 100 then Inr e else Inl ValidationError)"

definition juuid_opt :: "uuid option \<Rightarrow> json" where
  "juuid_opt u = (case u of None \<Rightarrow> JNone | Some v \<Rightarrow> JStr (uuid_str v))"

definition ev_to_payload :: "(datetime \<Rightarrow> string) \<Rightarrow> event \<Rightarrow> payload" where
  "ev_to_payload show_time e =
     [(''event_id'', JStr (uuid_str (ev_event_id e))),
      (''event_type'', JStr (event_type_value (ev_event_type e))),
      (''timestamp'', JStr (show_time (ev_timestamp e))),
      (''session_id'', JStr (uuid_str (ev_session_id e))),
      (''exec_id'', jopt (ev_exec_id e)),
      (''correlation_id'', juuid_opt (ev_correlation_id e)),
      (''tenant_id'', JStr (ev_tenant_id e)),
      (''source_agent_id'', juuid_opt (ev_source_agent_id e)),
      (''source_name'', jopt (ev_source_name e)),
      (''severity'', JStr (event_severity_value (ev_severity e))),
      (''message'', JStr (ev_message e)),
      (''data'', JDict (ev_data e)),
      (''progress_percent'', (case ev_progress_percent e of None \<Rightarrow> JNone | Some p \<Rightarrow> JFloat p))]"

section \<open>Factory functions\<close>

definition create_execution_started ::
  "uuid \<Rightarrow> datetime \<Rightarrow> uuid \<Rightarrow> string \<Rightarrow> string \<Rightarrow> string \<Rightarrow> uuid option \<Rightarrow> string option \<Rightarrow> int option \<Rightarrow>
     event_error + event" where
  "create_execution_started eid now session tenant exec act agent name steps =
     validated ((new_event eid now EV_EXECUTION_STARTED session tenant (Some exec) (''Execution started: '' @ act))
       \<lparr>ev_source_agent_id := agent, ev_source_name := name, ev_progress_percent := Some 0,
        ev_detail := ExecutionEvent (no_execution_detail\<lparr>xd_action := Some act, xd_total_steps := steps\<rparr>)\<rparr>)"

definition create_execution_progress ::
  "uuid \<Rightarrow> datetime \<Rightarrow> uuid \<Rightarrow> string \<Rightarrow> string \<Rightarrow> string \<Rightarrow> rat option \<Rightarrow> int option \<Rightarrow> int option \<Rightarrow> uuid option \<Rightarrow>
     string option \<Rightarrow> payload \<Rightarrow> event_error + event" where
  "create_execution_progress eid now session tenant exec msg percent step steps agent name dat =
     validated ((new_event eid now EV_EXECUTION_PROGRESS session tenant (Some exec) msg)
       \<lparr>ev_source_agent_id := agent, ev_source_name := name, ev_progress_percent := percent, ev_data := dat,
        ev_detail := ExecutionEvent (no_execution_detail\<lparr>xd_step_index := step, xd_total_steps := steps\<rparr>)\<rparr>)"

definition create_execution_completed ::
  "uuid \<Rightarrow> datetime \<Rightarrow> uuid \<Rightarrow> string \<Rightarrow> string \<Rightarrow> string \<Rightarrow> int option \<Rightarrow> uuid option \<Rightarrow> string option \<Rightarrow>
     event_error + event" where
  "create_execution_completed eid now session tenant exec msg elapsed agent name =
     validated ((new_event eid now EV_EXECUTION_COMPLETED session tenant (Some exec) msg)
       \<lparr>ev_source_agent_id := agent, ev_source_name := name, ev_progress_percent := Some 100,
        ev_detail := ExecutionEvent (no_execution_detail\<lparr>xd_elapsed_ms := elapsed\<rparr>)\<rparr>)"

definition create_execution_failed ::
  "uuid \<Rightarrow> datetime \<Rightarrow> uuid \<Rightarrow> string \<Rightarrow> string \<Rightarrow> string \<Rightarrow> string option \<Rightarrow> uuid option \<Rightarrow> string option \<Rightarrow>
     event_error + event" where
  "create_execution_failed eid now session tenant exec err code agent name =
     validated ((new_event eid now EV_EXECUTION_FAILED session tenant (Some exec) err)
       \<lparr>ev_source_agent_id := agent, ev_source_name := name, ev_severity := SEV_ERROR,
        ev_data := (if str_true code then [(''error_code'', jopt code)] else []),
        ev_detail := ExecutionEvent no_execution_detail\<rparr>)"

definition create_flow_started ::
  "uuid \<Rightarrow> datetime \<Rightarrow> uuid \<Rightarrow> string \<Rightarrow> string \<Rightarrow> string \<Rightarrow> string list \<Rightarrow> string option \<Rightarrow> event_error + event" where
  "create_flow_started eid now session tenant flow name order exec =
     validated ((new_event eid now EV_FLOW_STARTED session tenant exec (''Multi-agent flow started: '' @ name))
       \<lparr>ev_progress_percent := Some 0,
        ev_detail := FlowEvent (no_flow_detail\<lparr>fd_flow_id := Some flow, fd_flow_name := Some name,
          fd_agents_total := int (length order), fd_agent_order := order\<rparr>)\<rparr>)"

text \<open>\<open>(done / steps) * 100\<close> when the total is positive, a default otherwise.\<close>

definition flow_progress :: "int \<Rightarrow> int \<Rightarrow> rat \<Rightarrow> rat" where
  "flow_progress finished steps fallback = (if 0 < steps then of_int finished / of_int steps * 100 else fallback)"

definition create_flow_agent_started ::
  "uuid \<Rightarrow> datetime \<Rightarrow> uuid \<Rightarrow> string \<Rightarrow> string \<Rightarrow> uuid \<Rightarrow> string \<Rightarrow> int \<Rightarrow> int \<Rightarrow> string option \<Rightarrow> event_error + event" where
  "create_flow_agent_started eid now session tenant flow agent name index steps exec =
     validated ((new_event eid now EV_FLOW_AGENT_STARTED session tenant exec
         (''Agent started: '' @ name @ '' ('' @ int_str (index + 1) @ ''/'' @ int_str steps @ '')''))
       \<lparr>ev_progress_percent := Some (flow_progress index steps 0),
        ev_detail := FlowEvent (no_flow_detail\<lparr>fd_flow_id := Some flow, fd_current_agent_id := Some agent,
          fd_current_agent_name := Some name, fd_agents_completed := index, fd_agents_total := steps\<rparr>)\<rparr>)"

text \<open>The separator is an arrow between blanks, here by its bytes in UTF-8.\<close>

definition next_separator :: string where
  "next_separator = '' '' @ [CHR 0xE2, CHR 0x86, CHR 0x92] @ '' Next: ''"

definition create_flow_agent_completed ::
  "uuid \<Rightarrow> datetime \<Rightarrow> uuid \<Rightarrow> string \<Rightarrow> string \<Rightarrow> uuid \<Rightarrow> string \<Rightarrow> int \<Rightarrow> int \<Rightarrow> string option \<Rightarrow> string option \<Rightarrow>
     event_error + event" where
  "create_flow_agent_completed eid now session tenant flow agent name index steps next_name exec =
     (let progress = flow_progress (index + 1) steps 100;
          msg = ''Agent completed: '' @ name;
          msg = (case next_name of Some (c # cs) \<Rightarrow> msg @ next_separator @ c # cs | _ \<Rightarrow> msg)
      in validated ((new_event eid now EV_FLOW_AGENT_COMPLETED session tenant exec msg)
       \<lparr>ev_progress_percent := Some progress,
        ev_detail := FlowEvent (no_flow_detail\<lparr>fd_flow_id := Some flow, fd_current_agent_id := Some agent,
          fd_current_agent_name := Some name, fd_agents_completed := index + 1, fd_agents_total := steps\<rparr>)\<rparr>))"

definition elapsed_data :: "int option \<Rightarrow> payload" where
  "elapsed_data ms = (case ms of Some n \<Rightarrow> if n \<noteq> 0 then [(''elapsed_ms'', JInt n)] else [] | None \<Rightarrow> [])"

definition create_flow_completed ::
  "uuid \<Rightarrow> datetime \<Rightarrow> uuid \<Rightarrow> string \<Rightarrow> string \<Rightarrow> string \<Rightarrow> int \<Rightarrow> int option \<Rightarrow> string option \<Rightarrow> event_error + event" where
  "create_flow_completed eid now session tenant flow name steps elapsed exec =
     validated ((new_event eid now EV_FLOW_COMPLETED session tenant exec (''Flow completed: '' @ name))
       \<lparr>ev_progress_percent := Some 100, ev_data := elapsed_data elapsed,
        ev_detail := FlowEvent (no_flow_detail\<lparr>fd_flow_id := Some flow, fd_flow_name := Some name,
          fd_agents_completed := steps, fd_agents_total := steps\<rparr>)\<rparr>)"

definition create_reasoning_thought ::
  "uuid \<Rightarrow> datetime \<Rightarrow> uuid \<Rightarrow> string \<Rightarrow> string \<Rightarrow> int option \<Rightarrow> uuid option \<Rightarrow> string option \<Rightarrow> string option \<Rightarrow>
     event_error + event" where
  "create_reasoning_thought eid now session tenant thought step agent name exec =
     validated ((new_event eid now EV_REASONING_THOUGHT session tenant exec
         (if 100 < length thought then ''Thinking: '' @ take 100 thought @ ''...'' else ''Thinking: '' @ thought))
       \<lparr>ev_source_agent_id := agent, ev_source_name := name,
        ev_detail := ReasoningEvent (no_reasoning_detail\<lparr>rd_thought := Some thought, rd_step_type := Some ''thought'',
          rd_step_number := step\<rparr>)\<rparr>)"

definition create_reasoning_action ::
  "uuid \<Rightarrow> datetime \<Rightarrow> uuid \<Rightarrow> string \<Rightarrow> string \<Rightarrow> string option \<Rightarrow> payload option \<Rightarrow> int option \<Rightarrow> uuid option \<Rightarrow>
     string option \<Rightarrow> string option \<Rightarrow> event_error + event" where
  "create_reasoning_action eid now session tenant act tool tool_input step agent name exec =
     validated ((new_event eid now EV_REASONING_ACTION session tenant exec
         (case tool of Some (c # cs) \<Rightarrow> ''Using tool: '' @ c # cs | _ \<Rightarrow> ''Action: '' @ act))
       \<lparr>ev_source_agent_id := agent, ev_source_name := name,
        ev_detail := ReasoningEvent (no_reasoning_detail\<lparr>rd_action := Some act, rd_tool_name := tool,
          rd_tool_input := tool_input, rd_step_type := Some ''action'', rd_step_number := step\<rparr>)\<rparr>)"

definition create_agent_status ::
  "uuid \<Rightarrow> datetime \<Rightarrow> uuid \<Rightarrow> string \<Rightarrow> uuid \<Rightarrow> string \<Rightarrow> string \<Rightarrow> string \<Rightarrow> rat option \<Rightarrow> string option \<Rightarrow> payload \<Rightarrow>
     event_error + event" where
  "create_agent_status eid now session tenant agent name status msg percent exec dat =
     validated ((new_event eid now EV_AGENT_STATUS session tenant exec msg)
       \<lparr>ev_source_agent_id := Some agent, ev_source_name := Some name, ev_progress_percent := percent,
        ev_data := dict_merge [(''status'', JStr status)] dat,
        ev_detail := AgentEvent \<lparr>ad_agent_id = agent, ad_agent_name = Some name, ad_capability = None, ad_custom_type = None\<rparr>\<rparr>)"

definition create_custom_event ::
  "uuid \<Rightarrow> datetime \<Rightarrow> uuid \<Rightarrow> string \<Rightarrow> event_type \<Rightarrow> string \<Rightarrow> string option \<Rightarrow> uuid option \<Rightarrow> string option \<Rightarrow>
     event_severity \<Rightarrow> rat option \<Rightarrow> payload \<Rightarrow> event_error + event" where
  "create_custom_event eid now session tenant ty msg exec agent name sev percent dat =
     validated ((new_event eid now ty session tenant exec msg)
       \<lparr>ev_source_agent_id := agent, ev_source_name := name, ev_severity := sev, ev_progress_percent := percent,
        ev_data := dat\<rparr>)"

lemma validated_Inr: "validated e = Inr f \<Longrightarrow> f = e"
  by (auto simp: validated_def split: option.splits if_splits)

lemma flow_progress_bounds:
  "0 \<le> finished \<Longrightarrow> finished \<le> steps \<Longrightarrow> 0 \<le> d \<Longrightarrow> d \<le> 100 \<Longrightarrow>
     0 \<le> flow_progress finished steps d \<and> flow_progress finished steps d \<le> 100"
  by (auto simp: flow_progress_def divide_le_eq)

end
