(* ===== verification/Event_Stream.thy ===== *)
theory Event_Stream
  imports Event_Models "HOL-Library.Sublist"
begin

text \<open>
  Subscriptions with their filters and bounded queues, and the stream that publishes to them
  (\<open>src/events/stream.py\<close>). A subscription object is shared by the stream and its consumer, who may
  still hold it when the stream has dropped it: the stream's table maps an id to the address of the
  object. No coroutine suspends while it holds the lock, so each operation is one transition.
\<close>

section \<open>Filters\<close>

record event_filter =
  ef_session_ids :: "uuid set option"
  ef_exec_ids :: "string set option"
  ef_event_types :: "event_type set option"
  ef_event_type_prefixes :: "string list option"
  ef_min_severity :: event_severity
  ef_source_agent_ids :: "uuid set option"
  ef_tenant_ids :: "string set option"

definition any_event :: event_filter where
  "any_event = \<lparr>ef_session_ids = None, ef_exec_ids = None, ef_event_types = None, ef_event_type_prefixes = None,
     ef_min_severity = SEV_DEBUG, ef_source_agent_ids = None, ef_tenant_ids = None\<rparr>"

fun severity_order :: "event_severity \<Rightarrow> int" where
  "severity_order SEV_DEBUG = 0"
| "severity_order SEV_INFO = 1"
| "severity_order SEV_WARNING = 2"
| "severity_order SEV_ERROR = 3"
| "severity_order SEV_CRITICAL = 4"

text \<open>\<open>value not in allowed\<close> of an optional value, when there is a set.\<close>

definition excluded :: "'a set option \<Rightarrow> 'a option \<Rightarrow> bool" where
  "excluded allowed v =
     (case allowed of
        None \<Rightarrow> False
      | Some xs \<Rightarrow> (case v of None \<Rightarrow> True | Some x \<Rightarrow> x \<notin> xs))"

definition starts_with :: "string \<Rightarrow> string \<Rightarrow> bool" where
  "starts_with s p = (take (length p) s = p)"

definition ef_matches :: "event_filter \<Rightarrow> event \<Rightarrow> bool" where
  "ef_matches f e =
     (if excluded (ef_session_ids f) (Some (ev_session_id e)) then False
      else if excluded (ef_exec_ids f) (ev_exec_id e) then False
      else if excluded (ef_event_types f) (Some (ev_event_type e)) then False
      else if (case ef_event_type_prefixes f of
            None \<Rightarrow> False
          | Some ps \<Rightarrow> \<not> list_ex (starts_with (event_type_value (ev_event_type e))) ps) then False
      else if severity_order (ev_severity e) < severity_order (ef_min_severity f) then False
      else if excluded (ef_source_agent_ids f) (ev_source_agent_id e) then False
      else if excluded (ef_tenant_ids f) (Some (ev_tenant_id e)) then False
      else True)"

definition create_session_filter :: "uuid \<Rightarrow> event_filter" where
  "create_session_filter session = any_event\<lparr>ef_session_ids := Some {session}\<rparr>"

definition create_execution_filter :: "uuid \<Rightarrow> string \<Rightarrow> event_filter" where
  "create_execution_filter session exec =
     any_event\<lparr>ef_session_ids := Some {session}, ef_exec_ids := Some {exec}\<rparr>"

definition create_flow_filter :: "uuid \<Rightarrow> event_filter" where
  "create_flow_filter session =
     any_event\<lparr>ef_session_ids := Some {session}, ef_event_type_prefixes := Some [''flow.'']\<rparr>"

definition create_reasoning_filter :: "uuid \<Rightarrow> event_filter" where
  "create_reasoning_filter session =
     any_event\<lparr>ef_session_ids := Some {session}, ef_event_type_prefixes := Some [''reasoning.'']\<rparr>"

definition create_progress_filter :: "uuid \<Rightarrow> event_severity \<Rightarrow> event_filter" where
  "create_progress_filter session least =
     any_event\<lparr>ef_session_ids := Some {session},
       ef_event_type_prefixes := Some [''execution.'', ''flow.'', ''agent.''], ef_min_severity := least\<rparr>"

lemma session_filter_matches [simp]:
  "ef_matches (create_session_filter s) e \<longleftrightarrow> ev_session_id e = s"
  by (cases "ev_severity e") (auto simp: ef_matches_def create_session_filter_def any_event_def excluded_def)

section \<open>Subscriptions\<close>

text \<open>The queue holds events and, once closed, the end marker \<open>None\<close>; a maximum of 0 or less is no limit.\<close>

record subscription =
  sb_subscription_id :: string
  sb_filter :: event_filter
  sb_max_queue_size :: int
  sb_queue :: "event option list"
  sb_closed :: bool
  sb_created_at :: datetime
  sb_events_received :: int
  sb_events_dropped :: int

definition new_subscription :: "string \<Rightarrow> event_filter option \<Rightarrow> int \<Rightarrow> datetime \<Rightarrow> subscription" where
  "new_subscription sid f cap now =
     \<lparr>sb_subscription_id = sid, sb_filter = (case f of None \<Rightarrow> any_event | Some g \<Rightarrow> g), sb_max_queue_size = cap,
      sb_queue = [], sb_closed = False, sb_created_at = now, sb_events_received = 0, sb_events_dropped = 0\<rparr>"

definition queue_full :: "int \<Rightarrow> 'a list \<Rightarrow> bool" where
  "queue_full cap q = (0 < cap \<and> cap \<le> int (length q))"

definition sb_stats :: "(datetime \<Rightarrow> string) \<Rightarrow> subscription \<Rightarrow> payload" where
  "sb_stats show_time s =
     [(''subscription_id'', JStr (sb_subscription_id s)), (''created_at'', JStr (show_time (sb_created_at s))),
      (''events_received'', JInt (sb_events_received s)), (''events_dropped'', JInt (sb_events_dropped s)),
      (''queue_size'', JInt (int (length (sb_queue s)))), (''is_closed'', JBool (sb_closed s))]"

definition sb_deliver :: "event \<Rightarrow> subscription \<Rightarrow> bool \<times> subscription" where
  "sb_deliver e s =
     (if sb_closed s then (False, s)
      else if \<not> ef_matches (sb_filter s) e then (False, s)
      else if queue_full (sb_max_queue_size s) (sb_queue s) then
        (False, s\<lparr>sb_events_dropped := sb_events_dropped s + 1\<rparr>)
      else (True, s\<lparr>sb_queue := sb_queue s @ [Some e], sb_events_received := sb_events_received s + 1\<rparr>))"

text \<open>
  \<open>get\<close> from its start or, when it waited, from the moment it is resumed: it returns, or it waits (on).
  \<open>timed_out\<close> says that the time of \<open>wait_for\<close> is over.
\<close>

datatype 'a waiting = Returned 'a | Waits

definition sb_get :: "bool \<Rightarrow> subscription \<Rightarrow> event option waiting \<times> subscription" where
  "sb_get timed_out s =
     (if sb_closed s then (Returned None, s)
      else case sb_queue s of
          x # q \<Rightarrow> (Returned x, s\<lparr>sb_queue := q\<rparr>)
        | [] \<Rightarrow> if timed_out then (Returned None, s) else (Waits, s))"

text \<open>The iteration over a subscription up to where it ends (\<open>True\<close>) or has to wait.\<close>

function sb_iterate :: "subscription \<Rightarrow> event list \<times> bool \<times> subscription" where
  "sb_iterate s =
     (if sb_closed s then ([], True, s)
      else case sb_get False s of
          (Returned (Some e), s') \<Rightarrow> (let (es, stopped, s'') = sb_iterate s' in (e # es, stopped, s''))
        | (Returned None, s') \<Rightarrow> ([], True, s')
        | (Waits, s') \<Rightarrow> ([], False, s'))"
  by pat_completeness auto
termination
  by (relation "measure (\<lambda>s. length (sb_queue s))") (auto simp: sb_get_def split: list.splits if_splits)

declare sb_iterate.simps [simp del]

definition sb_close :: "subscription \<Rightarrow> subscription" where
  "sb_close s =
     (let s = s\<lparr>sb_closed := True\<rparr> in
      if queue_full (sb_max_queue_size s) (sb_queue s) then s else s\<lparr>sb_queue := sb_queue s @ [None]\<rparr>)"

section \<open>The stream\<close>

record event_stream =
  es_max_subscribers :: int
  es_subscriptions :: "(string, nat) pydict"
  es_objs :: "nat \<Rightarrow> subscription"
  es_next :: nat
  es_events_published :: int
  es_events_delivered :: int

definition es_init :: "int \<Rightarrow> event_stream" where
  "es_init n = \<lparr>es_max_subscribers = n, es_subscriptions = [], es_objs = (\<lambda>_. new_subscription [] None 0 0), es_next = 0,
     es_events_published = 0, es_events_delivered = 0\<rparr>"

definition es_stats :: "event_stream \<Rightarrow> payload" where
  "es_stats st =
     [(''subscriber_count'', JInt (int (length (es_subscriptions st)))),
      (''events_published'', JInt (es_events_published st)), (''events_delivered'', JInt (es_events_delivered st))]"

definition es_subscribe ::
  "datetime \<Rightarrow> string \<Rightarrow> event_filter option \<Rightarrow> int \<Rightarrow> event_stream \<Rightarrow> (event_error + nat) \<times> event_stream" where
  "es_subscribe now sid f cap st =
     (if din sid (es_subscriptions st) then
        (Inl (ValueError (''Subscription '' @ sid @ '' already exists'')), st)
      else if es_max_subscribers st \<le> int (length (es_subscriptions st)) then
        (Inl (ValueError (''Maximum subscribers ('' @ int_str (es_max_subscribers st) @ '') reached'')), st)
      else
        (Inr (es_next st),
         st\<lparr>es_objs := (es_objs st)(es_next st := new_subscription sid f cap now), es_next := es_next st + 1,
            es_subscriptions := dset sid (es_next st) (es_subscriptions st)\<rparr>))"

definition es_on :: "nat \<Rightarrow> (subscription \<Rightarrow> 'a \<times> subscription) \<Rightarrow> event_stream \<Rightarrow> 'a \<times> event_stream" where
  "es_on a f st = (let (r, s) = f (es_objs st a) in (r, st\<lparr>es_objs := (es_objs st)(a := s)\<rparr>))"

definition es_unsubscribe :: "string \<Rightarrow> event_stream \<Rightarrow> bool \<times> event_stream" where
  "es_unsubscribe sid st =
     (case dget (es_subscriptions st) sid of
        None \<Rightarrow> (False, st)
      | Some a \<Rightarrow> (True, st\<lparr>es_subscriptions := dpop sid (es_subscriptions st),
            es_objs := (es_objs st)(a := sb_close (es_objs st a))\<rparr>))"

text \<open>The loop of \<open>publish\<close> over the copied list of subscriptions.\<close>

fun deliver_all :: "event \<Rightarrow> nat list \<Rightarrow> int \<times> (nat \<Rightarrow> subscription) \<Rightarrow> int \<times> (nat \<Rightarrow> subscription)" where
  "deliver_all e [] (n, objs) = (n, objs)"
| "deliver_all e (a # rest) (n, objs) =
     (let (ok, s) = sb_deliver e (objs a) in deliver_all e rest (if ok then n + 1 else n, objs(a := s)))"

definition es_publish :: "event \<Rightarrow> event_stream \<Rightarrow> int \<times> event_stream" where
  "es_publish e st =
     (let (delivered, objs) = deliver_all e (dvalues (es_subscriptions st)) (0, es_objs st)
      in (delivered, st\<lparr>es_objs := objs, es_events_published := es_events_published st + 1,
            es_events_delivered := es_events_delivered st + delivered\<rparr>))"

fun es_publish_many :: "event list \<Rightarrow> event_stream \<Rightarrow> int \<times> event_stream" where
  "es_publish_many [] st = (0, st)"
| "es_publish_many (e # es) st =
     (let (n, st) = es_publish e st; (m, st) = es_publish_many es st in (n + m, st))"

definition es_get_subscription :: "string \<Rightarrow> event_stream \<Rightarrow> nat option" where
  "es_get_subscription sid st = dget (es_subscriptions st) sid"

definition es_close_all :: "event_stream \<Rightarrow> event_stream" where
  "es_close_all st =
     st\<lparr>es_objs := foldl (\<lambda>objs a. objs(a := sb_close (objs a))) (es_objs st) (dvalues (es_subscriptions st)),
        es_subscriptions := []\<rparr>"

lemma es_publish_simps [simp]:
  "es_subscriptions (snd (es_publish e st)) = es_subscriptions st"
  "es_next (snd (es_publish e st)) = es_next st"
  "es_max_subscribers (snd (es_publish e st)) = es_max_subscribers st"
  by (simp_all add: es_publish_def split: prod.split)

lemma deliver_all_eq:
  "distinct as \<Longrightarrow> deliver_all e as (n, objs) =
     (n + int (length (filter (\<lambda>a. fst (sb_deliver e (objs a))) as)),
      \<lambda>a. if a \<in> set as then snd (sb_deliver e (objs a)) else objs a)"
proof (induction as arbitrary: n objs)
  case (Cons a as)
  obtain ok s where d: "sb_deliver e (objs a) = (ok, s)" by fastforce
  have "filter (\<lambda>b. fst (sb_deliver e ((objs(a := s)) b))) as = filter (\<lambda>b. fst (sb_deliver e (objs b))) as"
    using Cons.prems by (intro filter_cong) auto
  then show ?case using Cons by (auto simp: d fun_eq_iff)
qed simp

text \<open>With an object per id, a publication is one delivery to every subscription, counted.\<close>

lemma es_publish_objs:
  "distinct (dvalues (es_subscriptions st)) \<Longrightarrow>
     es_objs (snd (es_publish e st)) a =
       (if a \<in> set (dvalues (es_subscriptions st)) then snd (sb_deliver e (es_objs st a)) else es_objs st a)"
  by (simp add: es_publish_def deliver_all_eq)

section \<open>What a subscriber receives\<close>

text \<open>Deliveries, reads and expired waits, in any order, and the events the reads returned.\<close>

datatype sub_op = Deliver event | Get bool

fun sb_run :: "sub_op list \<Rightarrow> event list \<times> subscription \<Rightarrow> event list \<times> subscription" where
  "sb_run [] (got, s) = (got, s)"
| "sb_run (Deliver e # ops) (got, s) = sb_run ops (got, snd (sb_deliver e s))"
| "sb_run (Get t # ops) (got, s) =
     (case sb_get t s of
        (Returned (Some e), s') \<Rightarrow> sb_run ops (got @ [e], s')
      | (_, s') \<Rightarrow> sb_run ops (got, s'))"

definition offered :: "sub_op list \<Rightarrow> event list" where
  "offered ops = concat (map (\<lambda>op. case op of Deliver e \<Rightarrow> [e] | Get _ \<Rightarrow> []) ops)"

lemma offered_simps [simp]:
  "offered [] = []" "offered (Deliver e # ops) = e # offered ops" "offered (Get t # ops) = offered ops"
  by (simp_all add: offered_def)

text \<open>The state of an open subscription after offers \<open>es\<close>: what was read and what is queued is what was accepted.\<close>

definition sb_ok :: "event_filter \<Rightarrow> int \<Rightarrow> event list \<Rightarrow> event list \<Rightarrow> subscription \<Rightarrow> bool" where
  "sb_ok f cap es got s \<longleftrightarrow>
     (\<exists>q. sb_queue s = map Some q \<and> subseq (got @ q) (filter (ef_matches f) es) \<and>
        int (length (got @ q)) = sb_events_received s \<and>
        sb_events_received s + sb_events_dropped s = int (length (filter (ef_matches f) es)) \<and>
        (0 < cap \<longrightarrow> int (length q) \<le> cap)) \<and>
     (sb_events_dropped s = 0 \<or> 0 < cap \<and> cap \<le> sb_events_received s) \<and>
     \<not> sb_closed s \<and> sb_filter s = f \<and> sb_max_queue_size s = cap"

lemma sb_ok_new: "sb_ok f cap [] [] (new_subscription sid (Some f) cap now)"
  by (simp add: sb_ok_def new_subscription_def)

lemma sb_ok_deliver: "sb_ok f cap es got s \<Longrightarrow> sb_ok f cap (es @ [e]) got (snd (sb_deliver e s))"
proof -
  assume ok: "sb_ok f cap es got s"
  then obtain q where q: "sb_queue s = map Some q" "subseq (got @ q) (filter (ef_matches f) es)"
      "int (length (got @ q)) = sb_events_received s"
      "sb_events_received s + sb_events_dropped s = int (length (filter (ef_matches f) es))"
      "0 < cap \<longrightarrow> int (length q) \<le> cap" "sb_events_dropped s = 0 \<or> 0 < cap \<and> cap \<le> sb_events_received s"
    and s: "\<not> sb_closed s" "sb_filter s = f" "sb_max_queue_size s = cap"
    by (auto simp: sb_ok_def)
  have longer: "subseq (got @ q @ [e]) (filter (ef_matches f) es @ [e])"
    using q(2) list_emb_append_mono [of "(=)" "got @ q" "filter (ef_matches f) es" "[e]" "[e]"] by simp
  have same: "subseq (got @ q) (filter (ef_matches f) es @ [e])"
    using q(2) by (rule subseq_rev_drop_many)
  consider "\<not> ef_matches f e" | "ef_matches f e" "queue_full cap (sb_queue s)" | "ef_matches f e" "\<not> queue_full cap (sb_queue s)"
    by blast
  then show ?thesis
  proof cases
    case 1
    then show ?thesis using ok s by (simp add: sb_deliver_def sb_ok_def)
  next
    case 2
    moreover from this q have "0 < cap" "cap \<le> sb_events_received s" by (auto simp: queue_full_def)
    ultimately show ?thesis using q s same by (auto simp: sb_deliver_def sb_ok_def)
  next
    case 3
    then show ?thesis using q s longer
      by (auto simp: sb_deliver_def sb_ok_def queue_full_def intro!: exI [of _ "q @ [e]"])
  qed
qed

lemma sb_ok_get:
  assumes "sb_ok f cap es got s" and "sb_get t s = (r, s')"
  shows "sb_ok f cap es (case r of Returned (Some e) \<Rightarrow> got @ [e] | _ \<Rightarrow> got) s'"
proof (cases "sb_queue s")
  case Nil
  then show ?thesis using assms by (auto simp: sb_get_def sb_ok_def split: if_splits)
next
  case (Cons x xs)
  then obtain e q where "sb_queue s = map Some (e # q)" using assms(1) by (auto simp: sb_ok_def)
  then show ?thesis using assms by (auto simp: sb_get_def sb_ok_def split: if_splits)
qed

lemma sb_run_ok: "sb_ok f cap es got s \<Longrightarrow> sb_run ops (got, s) = (got', s') \<Longrightarrow> sb_ok f cap (es @ offered ops) got' s'"
proof (induction ops arbitrary: es got s)
  case (Cons op ops)
  show ?case
  proof (cases op)
    case (Deliver e)
    then show ?thesis using Cons.IH [OF sb_ok_deliver [OF Cons.prems(1), of e]] Cons.prems(2) by simp
  next
    case (Get t)
    obtain r s'' where get: "sb_get t s = (r, s'')" by fastforce
    show ?thesis using Cons.IH [OF sb_ok_get [OF Cons.prems(1) get]] Cons.prems(2) Get get
      by (auto split: waiting.splits option.splits)
  qed
qed simp

text \<open>What a subscriber reads and still has queued are, in order and without repetition, events that were
  offered and match its filter; the counters say how many were accepted and how many dropped, together
  all that match; the queue never exceeds its limit, and with fewer events than the limit, or no limit,
  none is dropped.\<close>

theorem subscription_fifo:
  assumes "sb_run ops ([], new_subscription sid (Some f) cap now) = (got, s)"
  shows "\<exists>q. sb_queue s = map Some q \<and> subseq (got @ q) (filter (ef_matches f) (offered ops)) \<and>
    sb_events_received s = int (length (got @ q)) \<and>
    sb_events_received s + sb_events_dropped s = int (length (filter (ef_matches f) (offered ops))) \<and>
    (sb_events_dropped s = 0 \<longrightarrow> got @ q = filter (ef_matches f) (offered ops)) \<and>
    (0 < cap \<longrightarrow> int (length q) \<le> cap) \<and>
    (sb_events_dropped s = 0 \<or> 0 < cap \<and> cap \<le> sb_events_received s)"
proof -
  from sb_run_ok [OF sb_ok_new assms] obtain q where q: "sb_queue s = map Some q"
      "subseq (got @ q) (filter (ef_matches f) (offered ops))" "int (length (got @ q)) = sb_events_received s"
      "sb_events_received s + sb_events_dropped s = int (length (filter (ef_matches f) (offered ops)))"
      "0 < cap \<longrightarrow> int (length q) \<le> cap" "sb_events_dropped s = 0 \<or> 0 < cap \<and> cap \<le> sb_events_received s"
    by (auto simp: sb_ok_def)
  have "got @ q = filter (ef_matches f) (offered ops)" if "sb_events_dropped s = 0"
    using q that by (intro subseq_same_length) auto
  then show ?thesis using q by auto
qed

definition ex_stream_event :: "uuid \<Rightarrow> event" where
  "ex_stream_event session = new_event 0 0 EV_SYSTEM_INFO session ''acme'' None ''note''"

theorem subscription_fifo_witness:
  "let (got, s) = sb_run [Deliver (ex_stream_event 1), Deliver (ex_stream_event 2), Get False, Deliver (ex_stream_event 1)]
     ([], new_subscription ''a'' (Some (create_session_filter 1)) 1 0)
   in got = [ex_stream_event 1] \<and> sb_queue s = [Some (ex_stream_event 1)] \<and> sb_events_received s = 2 \<and> sb_events_dropped s = 0"
proof -
  let ?ops = "[Deliver (ex_stream_event 1), Deliver (ex_stream_event 2), Get False, Deliver (ex_stream_event 1)]"
  let ?r = "sb_run ?ops ([], new_subscription ''a'' (Some (create_session_filter 1)) 1 0)"
  have r: "fst ?r = [ex_stream_event 1] \<and> sb_events_dropped (snd ?r) = 0" by code_simp
  show ?thesis
    using subscription_fifo [of ?ops "''a''" "create_session_filter 1" 1 0 "fst ?r" "snd ?r"] r
    by (auto simp: case_prod_beta Let_def ex_stream_event_def new_event_def)
qed

end
