(* ===== verification/Event_Manager.thy ===== *)
theory Event_Manager
  imports Event_Stream
begin

text \<open>
  \<open>src/events/manager.py\<close>: publishing with a history per session, and the subscriptions of the
  connections. Ids, clock readings and the random suffix are arguments. No coroutine suspends while it
  holds a lock and none of the locks is ever contended, so each operation is one transition.
\<close>

record event_manager =
  em_stream :: event_stream
  em_max_history :: int
  em_history :: "(uuid, event list) pydict"
  em_conn_subscriptions :: "(string, string list) pydict"

definition em_init :: "int \<Rightarrow> int \<Rightarrow> event_manager" where
  "em_init max_history max_subs =
     \<lparr>em_stream = es_init max_subs, em_max_history = max_history, em_history = [], em_conn_subscriptions = []\<rparr>"

definition em_stats :: "event_manager \<Rightarrow> payload" where
  "em_stats m = es_stats (em_stream m) @
     [(''sessions_with_history'', JInt (int (length (em_history m)))),
      (''connections_with_subscriptions'', JInt (int (length (em_conn_subscriptions m))))]"

section \<open>Publishing\<close>

definition em_add_to_history :: "event \<Rightarrow> event_manager \<Rightarrow> event_manager" where
  "em_add_to_history e m =
     (let history = dget_or (em_history m) (ev_session_id e) [] @ [e];
          kept = (if em_max_history m < int (length history) then py_last (em_max_history m) history else history)
      in m\<lparr>em_history := dset (ev_session_id e) kept (em_history m)\<rparr>)"

definition em_publish :: "event \<Rightarrow> event_manager \<Rightarrow> int \<times> event_manager" where
  "em_publish e m =
     (let m = em_add_to_history e m; (n, st) = es_publish e (em_stream m) in (n, m\<lparr>em_stream := st\<rparr>))"

text \<open>The \<open>publish_*\<close> methods construct an event, which can be refused, and publish it.\<close>

definition publish_made :: "event_error + event \<Rightarrow> event_manager \<Rightarrow> (event_error + int) \<times> event_manager" where
  "publish_made made m =
     (case made of
        Inl err \<Rightarrow> (Inl err, m)
      | Inr e \<Rightarrow> (let (n, m) = em_publish e m in (Inr n, m)))"

definition publish_execution_started where
  "publish_execution_started eid now session tenant exec act agent name steps =
     publish_made (create_execution_started eid now session tenant exec act agent name steps)"

definition publish_execution_progress where
  "publish_execution_progress eid now session tenant exec msg percent step steps agent name dat =
     publish_made (create_execution_progress eid now session tenant exec msg percent step steps agent name dat)"

definition publish_execution_completed where
  "publish_execution_completed eid now session tenant exec msg elapsed agent name =
     publish_made (create_execution_completed eid now session tenant exec msg elapsed agent name)"

definition publish_execution_failed where
  "publish_execution_failed eid now session tenant exec err code agent name =
     publish_made (create_execution_failed eid now session tenant exec err code agent name)"

definition publish_flow_started where
  "publish_flow_started eid now session tenant flow name order exec =
     publish_made (create_flow_started eid now session tenant flow name order exec)"

definition publish_flow_agent_started where
  "publish_flow_agent_started eid now session tenant flow agent name index steps exec =
     publish_made (create_flow_agent_started eid now session tenant flow agent name index steps exec)"

definition publish_flow_agent_completed where
  "publish_flow_agent_completed eid now session tenant flow agent name index steps next_name exec =
     publish_made (create_flow_agent_completed eid now session tenant flow agent name index steps next_name exec)"

definition publish_flow_completed where
  "publish_flow_completed eid now session tenant flow name steps elapsed exec =
     publish_made (create_flow_completed eid now session tenant flow name steps elapsed exec)"

definition publish_reasoning_thought where
  "publish_reasoning_thought eid now session tenant thought step agent name exec =
     publish_made (create_reasoning_thought eid now session tenant thought step agent name exec)"

definition publish_reasoning_action where
  "publish_reasoning_action eid now session tenant act tool tool_input step agent name exec =
     publish_made (create_reasoning_action eid now session tenant act tool tool_input step agent name exec)"

definition publish_agent_status where
  "publish_agent_status eid now session tenant agent name status msg percent exec dat =
     publish_made (create_agent_status eid now session tenant agent name status msg percent exec dat)"

definition publish_custom_event where
  "publish_custom_event eid now session tenant ty msg exec agent name sev percent dat =
     publish_made (create_custom_event eid now session tenant ty msg exec agent name sev percent dat)"

section \<open>Subscriptions\<close>

text \<open>The steps the three \<open>subscribe_*\<close> methods share, with the default queue size.\<close>

definition em_subscribe ::
  "datetime \<Rightarrow> string \<Rightarrow> string \<Rightarrow> event_filter \<Rightarrow> event_manager \<Rightarrow> (event_error + nat) \<times> event_manager" where
  "em_subscribe now conn sid f m =
     (case es_subscribe now sid (Some f) 1000 (em_stream m) of
        (Inl err, _) \<Rightarrow> (Inl err, m)
      | (Inr a, st) \<Rightarrow>
          (Inr a, m\<lparr>em_stream := st,
             em_conn_subscriptions := dset conn (dget_or (em_conn_subscriptions m) conn [] @ [sid])
               (em_conn_subscriptions m)\<rparr>))"

definition em_get_session_history ::
  "uuid \<Rightarrow> datetime option \<Rightarrow> event_type list \<Rightarrow> event_manager \<Rightarrow> event list" where
  "em_get_session_history session since types m =
     (let history = dget_or (em_history m) session [];
          history = (case since of None \<Rightarrow> history | Some t \<Rightarrow> filter (\<lambda>e. t < ev_timestamp e) history)
      in if types = [] then history else filter (\<lambda>e. ev_event_type e \<in> set types) history)"

definition em_replay :: "nat \<Rightarrow> event list \<Rightarrow> event_manager \<Rightarrow> event_manager" where
  "em_replay a history m =
     foldl (\<lambda>m e. m\<lparr>em_stream := snd (es_on a (sb_deliver e) (em_stream m))\<rparr>) m history"

definition session_subscription_id :: "string \<Rightarrow> uuid \<Rightarrow> string" where
  "session_subscription_id conn session = conn @ '':'' @ uuid_str session"

definition em_subscribe_session ::
  "datetime \<Rightarrow> string \<Rightarrow> uuid \<Rightarrow> bool \<Rightarrow> event_manager \<Rightarrow> (event_error + nat) \<times> event_manager" where
  "em_subscribe_session now conn session include_history m =
     (case em_subscribe now conn (session_subscription_id conn session) (create_session_filter session) m of
        (Inl err, m) \<Rightarrow> (Inl err, m)
      | (Inr a, m) \<Rightarrow>
          (Inr a, if include_history then em_replay a (em_get_session_history session None [] m) m else m))"

definition em_subscribe_execution ::
  "datetime \<Rightarrow> string \<Rightarrow> uuid \<Rightarrow> string \<Rightarrow> event_manager \<Rightarrow> (event_error + nat) \<times> event_manager" where
  "em_subscribe_execution now conn session exec =
     em_subscribe now conn (conn @ '':'' @ uuid_str session @ '':'' @ exec) (create_execution_filter session exec)"

definition em_subscribe_custom ::
  "uuid \<Rightarrow> datetime \<Rightarrow> string \<Rightarrow> event_filter \<Rightarrow> string \<Rightarrow> event_manager \<Rightarrow> (event_error + nat) \<times> event_manager" where
  "em_subscribe_custom fresh now conn f sfx =
     em_subscribe now conn (conn @ '':'' @ (if sfx \<noteq> [] then sfx else uuid_str fresh)) f"

definition em_unsubscribe :: "string \<Rightarrow> event_manager \<Rightarrow> bool \<times> event_manager" where
  "em_unsubscribe sid m = (let (ok, st) = es_unsubscribe sid (em_stream m) in (ok, m\<lparr>em_stream := st\<rparr>))"

fun unsubscribe_all :: "string list \<Rightarrow> int \<times> event_stream \<Rightarrow> int \<times> event_stream" where
  "unsubscribe_all [] (n, st) = (n, st)"
| "unsubscribe_all (sid # rest) (n, st) =
     (let (ok, st) = es_unsubscribe sid st in unsubscribe_all rest (if ok then n + 1 else n, st))"

definition em_unsubscribe_connection :: "string \<Rightarrow> event_manager \<Rightarrow> int \<times> event_manager" where
  "em_unsubscribe_connection conn m =
     (let sids = dget_or (em_conn_subscriptions m) conn [];
          (removed, st) = unsubscribe_all sids (0, em_stream m)
      in (removed, m\<lparr>em_conn_subscriptions := dpop conn (em_conn_subscriptions m), em_stream := st\<rparr>))"

definition em_clear_session_history :: "uuid \<Rightarrow> event_manager \<Rightarrow> int \<times> event_manager" where
  "em_clear_session_history session m =
     (int (length (dget_or (em_history m) session [])), m\<lparr>em_history := dpop session (em_history m)\<rparr>)"

definition em_close :: "event_manager \<Rightarrow> event_manager" where
  "em_close m = m\<lparr>em_stream := es_close_all (em_stream m), em_history := [], em_conn_subscriptions := []\<rparr>"

section \<open>Runs\<close>

text \<open>What the rest of the bus does with a manager, the readers of the subscriptions included.\<close>

datatype em_op =
    OpPublish event
  | OpSubscribe datetime string string event_filter
  | OpSubscribeSession datetime string uuid bool
  | OpUnsubscribe string
  | OpDisconnect string
  | OpGet nat bool
  | OpCloseSub nat
  | OpClear uuid

fun em_step :: "em_op \<Rightarrow> event_manager \<Rightarrow> event_manager" where
  "em_step (OpPublish e) m = snd (em_publish e m)"
| "em_step (OpSubscribe now conn sid f) m = snd (em_subscribe now conn sid f m)"
| "em_step (OpSubscribeSession now conn s h) m = snd (em_subscribe_session now conn s h m)"
| "em_step (OpUnsubscribe sid) m = snd (em_unsubscribe sid m)"
| "em_step (OpDisconnect conn) m = snd (em_unsubscribe_connection conn m)"
| "em_step (OpGet a t) m = m\<lparr>em_stream := snd (es_on a (sb_get t) (em_stream m))\<rparr>"
| "em_step (OpCloseSub a) m = m\<lparr>em_stream := snd (es_on a (\<lambda>s. ((), sb_close s)) (em_stream m))\<rparr>"
| "em_step (OpClear s) m = snd (em_clear_session_history s m)"

definition em_run :: "em_op list \<Rightarrow> event_manager \<Rightarrow> event_manager" where
  "em_run ops m = fold em_step ops m"

lemma em_run_simps [simp]: "em_run [] m = m" "em_run (op # ops) m = em_run ops (em_step op m)"
  "em_run (ops @ ops') m = em_run ops' (em_run ops m)"
  by (simp_all add: em_run_def)

definition published :: "em_op list \<Rightarrow> event list" where
  "published ops = concat (map (\<lambda>op. case op of OpPublish e \<Rightarrow> [e] | _ \<Rightarrow> []) ops)"

lemma published_simps [simp]: "published [] = []"
  "published (op # ops) = (case op of OpPublish e \<Rightarrow> e # published ops | _ \<Rightarrow> published ops)"
  "published (ops @ ops') = published ops @ published ops'"
  by (simp_all add: published_def split: em_op.split)

section \<open>The state of the stream\<close>

definition es_inv :: "event_stream \<Rightarrow> bool" where
  "es_inv st \<longleftrightarrow> dict_ok (es_subscriptions st) \<and>
     (\<forall>i j a. dget (es_subscriptions st) i = Some a \<longrightarrow> dget (es_subscriptions st) j = Some a \<longrightarrow> i = j) \<and>
     (\<forall>i a. dget (es_subscriptions st) i = Some a \<longrightarrow> a < es_next st)"

lemma es_invD:
  assumes "es_inv st"
  shows "dict_ok (es_subscriptions st)"
    and "dget (es_subscriptions st) i = Some a \<Longrightarrow> dget (es_subscriptions st) j = Some a \<Longrightarrow> i = j"
    and "dget (es_subscriptions st) i = Some a \<Longrightarrow> a < es_next st"
  using assms by (auto simp: es_inv_def)

lemma es_inv_distinct: "es_inv st \<Longrightarrow> distinct (dvalues (es_subscriptions st))"
  by (rule distinct_dvalues) (auto dest: es_invD)

lemma es_inv_init: "es_inv (es_init n)"
  by (simp add: es_inv_def es_init_def)

lemma es_subscribe_inv [inv_intros]: "es_inv st \<Longrightarrow> es_inv (snd (es_subscribe now sid f cap st))"
  by (auto simp: es_inv_def es_subscribe_def less_Suc_eq)

lemma es_unsubscribe_inv [inv_intros]: "es_inv st \<Longrightarrow> es_inv (snd (es_unsubscribe sid st))"
  by (auto simp: es_inv_def es_unsubscribe_def split: option.split if_splits)

lemma es_publish_inv [inv_intros]: "es_inv st \<Longrightarrow> es_inv (snd (es_publish e st))"
  by (simp add: es_inv_def)

lemma es_on_simps [simp]:
  "es_subscriptions (snd (es_on a f st)) = es_subscriptions st" "es_next (snd (es_on a f st)) = es_next st"
  "es_objs (snd (es_on a f st)) = (es_objs st)(a := snd (f (es_objs st a)))"
  by (simp_all add: es_on_def split: prod.split)

lemma es_on_inv [inv_intros]: "es_inv st \<Longrightarrow> es_inv (snd (es_on a f st))"
  by (simp add: es_inv_def)

lemma unsubscribe_all_inv [inv_intros]: "es_inv st \<Longrightarrow> es_inv (snd (unsubscribe_all sids (n, st)))"
proof (induction sids arbitrary: n st)
  case (Cons sid sids)
  obtain ok st' where u: "es_unsubscribe sid st = (ok, st')" by fastforce
  then have "es_inv st'" using es_unsubscribe_inv [of st sid] Cons.prems by simp
  then show ?case using Cons.IH by (simp add: u)
qed simp

section \<open>Runs keep the state consistent\<close>

text \<open>Every live subscription is tracked under some connection.\<close>

definition tracked :: "event_manager \<Rightarrow> string \<Rightarrow> string set" where
  "tracked m conn = set (dget_or (em_conn_subscriptions m) conn [])"

definition em_inv :: "event_manager \<Rightarrow> bool" where
  "em_inv m \<longleftrightarrow> es_inv (em_stream m) \<and>
     (\<forall>sid a. es_get_subscription sid (em_stream m) = Some a \<longrightarrow> (\<exists>conn. sid \<in> tracked m conn))"

lemma em_inv_init: "em_inv (em_init h n)"
  by (simp add: em_inv_def em_init_def es_inv_init es_get_subscription_def) (simp add: es_init_def)

lemma em_publish_simps [simp]:
  "em_stream (snd (em_publish e m)) = snd (es_publish e (em_stream m))"
  "em_conn_subscriptions (snd (em_publish e m)) = em_conn_subscriptions m"
  "em_max_history (snd (em_publish e m)) = em_max_history m"
  "em_history (snd (em_publish e m)) = em_history (em_add_to_history e m)"
  by (simp_all add: em_publish_def em_add_to_history_def Let_def split: prod.split)

lemma em_replay_simps [simp]:
  "es_subscriptions (em_stream (em_replay a es m)) = es_subscriptions (em_stream m)"
  "es_next (em_stream (em_replay a es m)) = es_next (em_stream m)"
  "em_conn_subscriptions (em_replay a es m) = em_conn_subscriptions m"
  "em_max_history (em_replay a es m) = em_max_history m" "em_history (em_replay a es m) = em_history m"
  by (induction es arbitrary: m) (simp_all add: em_replay_def)

lemma em_replay_objs:
  "es_objs (em_stream (em_replay a es m)) =
     (es_objs (em_stream m))(a := fold (\<lambda>e s. snd (sb_deliver e s)) es (es_objs (em_stream m) a))"
  by (induction es arbitrary: m) (simp_all add: em_replay_def)

text \<open>What a subscription does to the manager, the deliveries of a replay left out.\<close>

lemma em_subscribe_cases:
  obtains (refused) err where "em_subscribe now conn sid f m = (Inl err, m)"
  | (accepted) m' where "em_subscribe now conn sid f m = (Inr (es_next (em_stream m)), m')"
      "\<not> din sid (es_subscriptions (em_stream m))"
      "em_stream m' = (em_stream m)\<lparr>es_objs := (es_objs (em_stream m))(es_next (em_stream m) := new_subscription sid (Some f) 1000 now),
         es_next := es_next (em_stream m) + 1, es_subscriptions := dset sid (es_next (em_stream m)) (es_subscriptions (em_stream m))\<rparr>"
      "em_conn_subscriptions m' = dset conn (dget_or (em_conn_subscriptions m) conn [] @ [sid]) (em_conn_subscriptions m)"
      "em_max_history m' = em_max_history m" "em_history m' = em_history m"
proof (cases "din sid (es_subscriptions (em_stream m)) \<or>
    es_max_subscribers (em_stream m) \<le> int (length (es_subscriptions (em_stream m)))")
  case True
  then have "\<exists>err. em_subscribe now conn sid f m = (Inl err, m)"
    by (auto simp: em_subscribe_def es_subscribe_def)
  then show ?thesis using refused by blast
next
  case False
  show ?thesis
    by (rule accepted [of "snd (em_subscribe now conn sid f m)"])
      (use False in \<open>simp_all add: em_subscribe_def es_subscribe_def\<close>)
qed

lemma tracked_update:
  "em_conn_subscriptions m' = dset conn (dget_or (em_conn_subscriptions m) conn [] @ [sid]) (em_conn_subscriptions m) \<Longrightarrow>
     tracked m' c = tracked m c \<union> (if c = conn then {sid} else {})"
  by (auto simp: tracked_def dget_or_def)

lemma em_inv_subscribe: "em_inv m \<Longrightarrow> em_inv (snd (em_subscribe now conn sid f m))"
proof -
  assume inv: "em_inv m"
  show ?thesis
  proof (cases rule: em_subscribe_cases [of now conn sid f m])
    case (accepted m')
    have "es_inv (em_stream m')" using inv by (auto simp: em_inv_def es_inv_def accepted(3) less_Suc_eq)
    then show ?thesis using inv
      by (auto simp: accepted(1,3) em_inv_def es_get_subscription_def tracked_update [OF accepted(4)])
  qed (use inv in simp)
qed

lemma es_unsubscribe_cases:
  assumes "es_unsubscribe sid st = (ok, st')"
  shows "es_subscriptions st' = dpop sid (es_subscriptions st)" and "ok \<longleftrightarrow> din sid (es_subscriptions st)"
    and "es_objs st' = (case dget (es_subscriptions st) sid of None \<Rightarrow> es_objs st
        | Some a \<Rightarrow> (es_objs st)(a := sb_close (es_objs st a)))"
  using assms by (auto simp: es_unsubscribe_def din_def dpop_absent split: option.splits)

lemma unsubscribe_all_subs:
  "dget (es_subscriptions (snd (unsubscribe_all sids (n, st)))) i =
     (if i \<in> set sids then None else dget (es_subscriptions st) i)"
proof (induction sids arbitrary: n st)
  case (Cons sid sids)
  obtain ok st' where u: "es_unsubscribe sid st = (ok, st')" by fastforce
  then show ?case using Cons.IH [of _ st'] es_unsubscribe_cases(1) [OF u] by simp
qed simp

lemma unsubscribe_all_count:
  "fst (unsubscribe_all sids (n, st)) = n + int (card {i \<in> set sids. din i (es_subscriptions st)})"
proof (induction sids arbitrary: n st)
  case (Cons sid sids)
  obtain ok st' where u: "es_unsubscribe sid st = (ok, st')" by fastforce
  have "{i \<in> set (sid # sids). din i (es_subscriptions st)} =
      (if ok then insert sid {i \<in> set sids. din i (es_subscriptions st')} else {i \<in> set sids. din i (es_subscriptions st')})"
    using es_unsubscribe_cases(1,2) [OF u] by auto
  moreover have "sid \<notin> {i \<in> set sids. din i (es_subscriptions st')}"
    using es_unsubscribe_cases(1) [OF u] by simp
  ultimately show ?case using Cons.IH [of _ st'] by (simp add: u)
qed simp

lemma unsubscribe_all_objs:
  "es_inv st \<Longrightarrow> es_objs (snd (unsubscribe_all sids (n, st))) a =
     (if \<exists>i\<in>set sids. dget (es_subscriptions st) i = Some a then sb_close (es_objs st a) else es_objs st a)"
proof (induction sids arbitrary: n st)
  case (Cons sid sids)
  obtain ok st' where u: "es_unsubscribe sid st = (ok, st')" by fastforce
  have inv': "es_inv st'" using es_unsubscribe_inv [OF Cons.prems, of sid] u by simp
  have objs': "es_objs st' a = (if dget (es_subscriptions st) sid = Some a then sb_close (es_objs st a) else es_objs st a)"
    using es_unsubscribe_cases(3) [OF u] by (auto split: option.splits)
  have "(\<exists>i\<in>set sids. dget (es_subscriptions st') i = Some a) \<longleftrightarrow>
      dget (es_subscriptions st) sid \<noteq> Some a \<and> (\<exists>i\<in>set sids. dget (es_subscriptions st) i = Some a)"
    using es_unsubscribe_cases(1) [OF u] es_invD(2) [OF Cons.prems] by (auto split: if_splits) metis
  then show ?case using Cons.IH [OF inv'] by (auto simp: u objs')
qed simp

lemma em_inv_disconnect: "em_inv m \<Longrightarrow> em_inv (snd (em_unsubscribe_connection conn m))"
proof -
  assume inv: "em_inv m"
  let ?sids = "dget_or (em_conn_subscriptions m) conn []" and ?m' = "snd (em_unsubscribe_connection conn m)"
  have st: "em_stream ?m' = snd (unsubscribe_all ?sids (0, em_stream m))"
    by (simp add: em_unsubscribe_connection_def Let_def split: prod.split)
  have tr: "tracked ?m' c = (if c = conn then {} else tracked m c)" for c
    by (simp add: em_unsubscribe_connection_def tracked_def dget_or_def Let_def split: prod.split)
  have "\<exists>c. sid \<in> tracked ?m' c" if "es_get_subscription sid (em_stream ?m') = Some a" for sid a
  proof -
    have "sid \<notin> set ?sids" and "es_get_subscription sid (em_stream m) = Some a"
      using that by (auto simp: st es_get_subscription_def unsubscribe_all_subs split: if_splits)
    moreover from this obtain c where "sid \<in> tracked m c" using inv by (auto simp: em_inv_def)
    ultimately have "c \<noteq> conn" by (auto simp: tracked_def)
    then have "sid \<in> tracked ?m' c" using \<open>sid \<in> tracked m c\<close> by (simp add: tr)
    then show ?thesis by blast
  qed
  then show ?thesis using inv by (simp add: em_inv_def st unsubscribe_all_inv)
qed

lemma em_inv_replay [simp]: "em_inv (em_replay a es m) = em_inv m"
  by (simp add: em_inv_def es_inv_def es_get_subscription_def tracked_def)

lemma em_inv_subscribe_session: "em_inv m \<Longrightarrow> em_inv (snd (em_subscribe_session now conn s h m))"
  using em_inv_subscribe [of m now conn "session_subscription_id conn s" "create_session_filter s"]
  by (auto simp: em_subscribe_session_def split: prod.split sum.split)

lemma em_inv_stream:
  assumes "em_inv m" and "es_inv st" and "es_subscriptions st = es_subscriptions (em_stream m)"
    and "em_stream m' = st" and "em_conn_subscriptions m' = em_conn_subscriptions m"
  shows "em_inv m'"
  using assms by (simp add: em_inv_def es_get_subscription_def tracked_def)

lemma em_inv_unsubscribe: "em_inv m \<Longrightarrow> em_inv (snd (em_unsubscribe sid m))"
proof -
  assume inv: "em_inv m"
  obtain ok st' where u: "es_unsubscribe sid (em_stream m) = (ok, st')" by fastforce
  have "es_inv st'" using es_unsubscribe_inv [of "em_stream m" sid] inv by (simp add: u em_inv_def)
  then show ?thesis using inv es_unsubscribe_cases(1) [OF u]
    by (auto simp: em_inv_def em_unsubscribe_def u es_get_subscription_def tracked_def)
qed

lemma em_inv_step: "em_inv m \<Longrightarrow> em_inv (em_step op m)"
proof (cases op)
  case (OpPublish e)
  assume "em_inv m"
  then show ?thesis unfolding OpPublish em_step.simps
    by (rule em_inv_stream [where st = "snd (es_publish e (em_stream m))"])
      (use \<open>em_inv m\<close> in \<open>simp_all add: em_inv_def es_publish_inv\<close>)
next
  case (OpGet a t)
  assume "em_inv m"
  then show ?thesis unfolding OpGet em_step.simps
    by (rule em_inv_stream [where st = "snd (es_on a (sb_get t) (em_stream m))"])
      (use \<open>em_inv m\<close> in \<open>simp_all add: em_inv_def es_on_inv\<close>)
next
  case (OpCloseSub a)
  assume "em_inv m"
  then show ?thesis unfolding OpCloseSub em_step.simps
    by (rule em_inv_stream [where st = "snd (es_on a (\<lambda>s. ((), sb_close s)) (em_stream m))"])
      (use \<open>em_inv m\<close> in \<open>simp_all add: em_inv_def es_on_inv\<close>)
qed (simp_all add: em_inv_subscribe em_inv_subscribe_session em_inv_unsubscribe em_inv_disconnect,
    simp add: em_inv_def em_clear_session_history_def es_get_subscription_def tracked_def)

lemma em_inv_run: "em_inv m \<Longrightarrow> em_inv (em_run ops m)"
  by (induction ops arbitrary: m) (simp_all add: em_inv_step)

section \<open>Disconnecting\<close>

text \<open>When a connection goes away, exactly the live subscriptions tracked under it are removed, counted and
  closed; all others stay as they are, and each of them belongs to another connection.\<close>

theorem em_disconnect_spec:
  assumes "m = em_run ops (em_init h k)" and "em_unsubscribe_connection conn m = (n, m')"
  shows "(\<forall>sid. es_get_subscription sid (em_stream m') =
        (if sid \<in> set (dget_or (em_conn_subscriptions m) conn []) then None else es_get_subscription sid (em_stream m))) \<and>
    n = int (card {sid \<in> set (dget_or (em_conn_subscriptions m) conn []). es_get_subscription sid (em_stream m) \<noteq> None}) \<and>
    (\<forall>sid a. es_get_subscription sid (em_stream m) = Some a \<longrightarrow> es_objs (em_stream m') a =
       (if es_get_subscription sid (em_stream m') = None then sb_close (es_objs (em_stream m) a) else es_objs (em_stream m) a)) \<and>
    (\<forall>sid a. es_get_subscription sid (em_stream m') = Some a \<longrightarrow>
       (\<exists>c. c \<noteq> conn \<and> sid \<in> set (dget_or (em_conn_subscriptions m') c [])))"
proof -
  let ?sids = "dget_or (em_conn_subscriptions m) conn []"
  have inv: "em_inv m" unfolding assms(1) by (rule em_inv_run [OF em_inv_init])
  then have st: "es_inv (em_stream m)" by (simp add: em_inv_def)
  have m': "em_stream m' = snd (unsubscribe_all ?sids (0, em_stream m))" "n = fst (unsubscribe_all ?sids (0, em_stream m))"
      "em_conn_subscriptions m' = dpop conn (em_conn_subscriptions m)"
    using assms(2) by (auto simp: em_unsubscribe_connection_def Let_def split: prod.splits)
  have inv': "em_inv m'" using em_inv_disconnect [OF inv, of conn] assms(2) by simp
  have "\<exists>c. c \<noteq> conn \<and> sid \<in> set (dget_or (em_conn_subscriptions m') c [])"
    if got: "es_get_subscription sid (em_stream m') = Some a" for sid a
  proof -
    obtain c where "sid \<in> tracked m' c" using inv' got by (auto simp: em_inv_def)
    moreover from this have "c \<noteq> conn" by (auto simp: m'(3) tracked_def dget_or_def)
    ultimately show ?thesis by (auto simp: tracked_def)
  qed
  moreover have "es_objs (em_stream m') a =
      (if es_get_subscription sid (em_stream m') = None then sb_close (es_objs (em_stream m) a) else es_objs (em_stream m) a)"
    if got: "es_get_subscription sid (em_stream m) = Some a" for sid a
  proof -
    have "(\<exists>i\<in>set ?sids. dget (es_subscriptions (em_stream m)) i = Some a) \<longleftrightarrow> sid \<in> set ?sids"
      using es_invD(2) [OF st] got by (auto simp: es_get_subscription_def)
    then show ?thesis using got
      by (simp add: m'(1) unsubscribe_all_objs [OF st] es_get_subscription_def unsubscribe_all_subs)
  qed
  ultimately show ?thesis
    by (simp add: m'(1,2) es_get_subscription_def unsubscribe_all_subs unsubscribe_all_count din_def)
qed

definition ex_manager :: event_manager where
  "ex_manager = em_run [OpSubscribeSession 0 ''a'' 1 True, OpPublish (ex_stream_event 1), OpSubscribeSession 0 ''b'' 1 True] (em_init 5 10)"

theorem em_disconnect_spec_witness:
  "es_get_subscription (session_subscription_id ''a'' 1) (em_stream (snd (em_unsubscribe_connection ''a'' ex_manager))) = None"
proof -
  have "session_subscription_id ''a'' 1 \<in> set (dget_or (em_conn_subscriptions ex_manager) ''a'' [])" by code_simp
  then show ?thesis
    using em_disconnect_spec [OF ex_manager_def, of "''a''" "fst (em_unsubscribe_connection ''a'' ex_manager)"
        "snd (em_unsubscribe_connection ''a'' ex_manager)"] by auto
qed

section \<open>A late subscriber\<close>

lemma history_add:
  "dget_or (em_history (em_add_to_history e m)) s [] =
     (if ev_session_id e = s
      then (let xs = dget_or (em_history m) s [] @ [e] in
        if em_max_history m < int (length xs) then py_last (em_max_history m) xs else xs)
      else dget_or (em_history m) s [])"
  by (simp add: em_add_to_history_def dget_or_def Let_def)

lemma py_last_snoc:
  "0 < n \<Longrightarrow> (let ys = py_last n xs @ [x] in if n < int (length ys) then py_last n ys else ys) = py_last n (xs @ [x])"
proof -
  assume n: "0 < n"
  then obtain k where k: "n = int k" "0 < k" using zero_less_imp_eq_int by blast
  show ?thesis
  proof (cases "length xs < k")
    case False
    then have "length xs - k + 1 = length xs + 1 - k" by simp
    then show ?thesis using False n by (simp add: k py_last_def Let_def drop_Suc_Cons [symmetric] Suc_diff_le)
  qed (use n in \<open>simp add: k py_last_def Let_def\<close>)
qed

lemma em_history_subscribe [simp]:
  "em_history (snd (em_subscribe now conn sid f m)) = em_history m"
  "em_max_history (snd (em_subscribe now conn sid f m)) = em_max_history m"
  by (cases rule: em_subscribe_cases [of now conn sid f m]; simp)+

lemma em_history_subscribe_session [simp]:
  "em_history (snd (em_subscribe_session now conn s h m)) = em_history m"
  "em_max_history (snd (em_subscribe_session now conn s h m)) = em_max_history m"
proof -
  obtain r m1 where sub: "em_subscribe now conn (session_subscription_id conn s) (create_session_filter s) m = (r, m1)"
    by fastforce
  then have "em_history m1 = em_history m" "em_max_history m1 = em_max_history m"
    using em_history_subscribe [of now conn "session_subscription_id conn s" "create_session_filter s" m] by simp_all
  then show "em_history (snd (em_subscribe_session now conn s h m)) = em_history m"
    "em_max_history (snd (em_subscribe_session now conn s h m)) = em_max_history m"
    by (simp_all add: em_subscribe_session_def sub split: sum.split)
qed

lemma em_max_history_step [simp]: "em_max_history (em_step op m) = em_max_history m"
  by (cases op) (simp_all add: em_unsubscribe_def em_unsubscribe_connection_def em_clear_session_history_def Let_def split: prod.split)

lemma em_history_step:
  assumes "op \<noteq> OpClear s" and "\<nexists>e. op = OpPublish e"
  shows "dget_or (em_history (em_step op m)) s [] = dget_or (em_history m) s []"
  using assms
  by (cases op) (simp_all add: em_unsubscribe_def em_unsubscribe_connection_def em_clear_session_history_def Let_def dget_or_def
      split: prod.split)

lemma em_history_run:
  assumes "0 < h" and "OpClear s \<notin> set ops"
  shows "dget_or (em_history (em_run ops (em_init h k))) s [] = py_last h (filter (\<lambda>e. ev_session_id e = s) (published ops))"
    and "em_max_history (em_run ops (em_init h k)) = h"
proof -
  have max: "em_max_history (em_run ops m) = em_max_history m" for ops m
    by (induction ops arbitrary: m) simp_all
  then show "em_max_history (em_run ops (em_init h k)) = h" by (simp add: em_init_def)
  show "dget_or (em_history (em_run ops (em_init h k))) s [] = py_last h (filter (\<lambda>e. ev_session_id e = s) (published ops))"
    using assms(2)
  proof (induction ops rule: rev_induct)
    case Nil
    then show ?case by (simp add: em_init_def dget_or_def py_last_def)
  next
    case (snoc op ops)
    let ?m = "em_run ops (em_init h k)"
    have IH: "dget_or (em_history ?m) s [] = py_last h (filter (\<lambda>e. ev_session_id e = s) (published ops))"
      using snoc by simp
    show ?case
    proof (cases "\<exists>e. op = OpPublish e")
      case True
      then obtain e where op: "op = OpPublish e" by blast
      show ?thesis
      proof (cases "ev_session_id e = s")
        case True
        have "em_max_history ?m = h" by (simp add: max) (simp add: em_init_def)
        then show ?thesis
          using True py_last_snoc [OF assms(1), of "filter (\<lambda>e. ev_session_id e = s) (published ops)" e]
          by (simp add: op history_add IH Let_def split: if_splits)
      next
        case False
        then show ?thesis using IH by (simp add: op history_add)
      qed
    next
      case False
      then show ?thesis using IH snoc.prems em_history_step [of op s ?m] by (cases op) auto
    qed
  qed
qed

text \<open>The queue of a subscription that nobody reads from: the first thousand events that match.\<close>

definition sb_holds :: "event_filter \<Rightarrow> event list \<Rightarrow> subscription \<Rightarrow> bool" where
  "sb_holds f es s \<longleftrightarrow> \<not> sb_closed s \<and> sb_filter s = f \<and> sb_max_queue_size s = 1000 \<and>
     sb_queue s = map Some (take 1000 (filter (ef_matches f) es))"

lemma sb_holds_new: "sb_holds f [] (new_subscription sid (Some f) 1000 now)"
  by (simp add: sb_holds_def new_subscription_def)

lemma sb_holds_deliver: "sb_holds f es s \<Longrightarrow> sb_holds f (es @ [e]) (snd (sb_deliver e s))"
  by (auto simp: sb_holds_def sb_deliver_def queue_full_def)

lemma sb_holds_deliver_all: "sb_holds f es s \<Longrightarrow> sb_holds f (es @ es') (fold (\<lambda>e s. snd (sb_deliver e s)) es' s)"
proof (induction es' arbitrary: es s)
  case (Cons e es')
  then show ?case using Cons.IH [OF sb_holds_deliver] by fastforce
qed simp

text \<open>Addresses are not reused: a subscription that is in the stream after a step was there before it.\<close>

lemma em_step_back:
  assumes a: "a < es_next (em_stream m)"
    and here: "es_get_subscription sid (em_stream (em_step op m)) = Some a"
  shows "es_get_subscription sid (em_stream m) = Some a"
proof (cases op)
  case (OpSubscribe now conn i f)
  show ?thesis using here a
    by (cases rule: em_subscribe_cases [of now conn i f m])
      (auto simp: OpSubscribe es_get_subscription_def split: if_splits)
next
  case (OpSubscribeSession now conn s h)
  show ?thesis using here a
    by (cases rule: em_subscribe_cases [of now conn "session_subscription_id conn s" "create_session_filter s" m])
      (auto simp: OpSubscribeSession em_subscribe_session_def es_get_subscription_def split: if_splits)
next
  case (OpUnsubscribe i)
  obtain ok st' where u: "es_unsubscribe i (em_stream m) = (ok, st')" by fastforce
  show ?thesis using here es_unsubscribe_cases(1) [OF u]
    by (auto simp: OpUnsubscribe em_unsubscribe_def u es_get_subscription_def split: if_splits)
next
  case (OpDisconnect conn)
  have "em_stream (em_step op m) = snd (unsubscribe_all (dget_or (em_conn_subscriptions m) conn []) (0, em_stream m))"
    by (simp add: OpDisconnect em_unsubscribe_connection_def Let_def split: prod.split)
  then show ?thesis using here by (auto simp: es_get_subscription_def unsubscribe_all_subs split: if_splits)
qed (use assms in \<open>auto simp: es_get_subscription_def em_clear_session_history_def\<close>)

lemma es_next_unsubscribe [simp]:
  "es_next (snd (es_unsubscribe i st)) = es_next st" "es_next (snd (unsubscribe_all sids (n, st))) = es_next st"
proof -
  show keep: "es_next (snd (es_unsubscribe i st)) = es_next st" for i st
    by (simp add: es_unsubscribe_def split: option.split)
  show "es_next (snd (unsubscribe_all sids (n, st))) = es_next st"
  proof (induction sids arbitrary: n st)
    case (Cons i sids)
    obtain ok st' where "es_unsubscribe i st = (ok, st')" by fastforce
    then show ?case using Cons keep [of i st] by simp
  qed simp
qed

lemma em_step_next: "es_next (em_stream m) \<le> es_next (em_stream (em_step op m))"
proof (cases op)
  case (OpSubscribe now conn i f)
  show ?thesis by (cases rule: em_subscribe_cases [of now conn i f m]) (simp_all add: OpSubscribe)
next
  case (OpSubscribeSession now conn s h)
  show ?thesis
    by (cases rule: em_subscribe_cases [of now conn "session_subscription_id conn s" "create_session_filter s" m])
      (simp_all add: OpSubscribeSession em_subscribe_session_def)
next
  case (OpUnsubscribe i)
  obtain ok st' where "es_unsubscribe i (em_stream m) = (ok, st')" by fastforce
  then show ?thesis using es_next_unsubscribe(1) [of i "em_stream m"]
    by (simp add: em_unsubscribe_def OpUnsubscribe)
next
  case (OpDisconnect conn)
  have "em_stream (em_step op m) = snd (unsubscribe_all (dget_or (em_conn_subscriptions m) conn []) (0, em_stream m))"
    by (simp add: OpDisconnect em_unsubscribe_connection_def Let_def split: prod.split)
  then show ?thesis by simp
qed (simp_all add: em_clear_session_history_def)

lemma em_run_back:
  "a < es_next (em_stream m) \<Longrightarrow> es_get_subscription sid (em_stream (em_run ops m)) = Some a \<Longrightarrow>
     es_get_subscription sid (em_stream m) = Some a"
proof (induction ops arbitrary: m)
  case (Cons op ops)
  then show ?case using em_step_back em_step_next [of m op] by (metis em_run_simps(2) order_less_le_trans)
qed simp

text \<open>What a step does to the subscription of address \<open>a\<close> that is in the stream, when nobody reads from or closes it.\<close>

lemma em_step_sub:
  assumes inv: "em_inv m" and a: "a < es_next (em_stream m)"
    and here: "es_get_subscription sid (em_stream (em_step op m)) = Some a"
    and "\<nexists>t. op = OpGet a t" and "op \<noteq> OpCloseSub a"
  shows "es_objs (em_stream (em_step op m)) a =
      (case op of OpPublish e \<Rightarrow> snd (sb_deliver e (es_objs (em_stream m) a)) | _ \<Rightarrow> es_objs (em_stream m) a)"
proof (cases op)
  case (OpPublish e)
  have "a \<in> set (dvalues (es_subscriptions (em_stream m)))"
    using here OpPublish by (auto simp: es_get_subscription_def intro: dget_in_values)
  then show ?thesis using inv by (simp add: OpPublish em_inv_def es_publish_objs es_inv_distinct)
next
  case (OpSubscribe now conn i f)
  show ?thesis using a by (cases rule: em_subscribe_cases [of now conn i f m]) (simp_all add: OpSubscribe)
next
  case (OpSubscribeSession now conn s h)
  show ?thesis using a
    by (cases rule: em_subscribe_cases [of now conn "session_subscription_id conn s" "create_session_filter s" m])
      (simp_all add: OpSubscribeSession em_subscribe_session_def em_replay_objs)
next
  case (OpUnsubscribe i)
  obtain ok st' where u: "es_unsubscribe i (em_stream m) = (ok, st')" by fastforce
  have "sid \<noteq> i" using here es_unsubscribe_cases(1) [OF u]
    by (auto simp: OpUnsubscribe em_unsubscribe_def u es_get_subscription_def split: if_splits)
  moreover have "es_get_subscription sid (em_stream m) = Some a" using em_step_back [OF a here] .
  ultimately show ?thesis using inv es_unsubscribe_cases(3) [OF u]
    by (auto simp: OpUnsubscribe em_unsubscribe_def u em_inv_def es_get_subscription_def dest: es_invD(2)
        split: option.splits)
next
  case (OpDisconnect conn)
  let ?sids = "dget_or (em_conn_subscriptions m) conn []"
  have st: "em_stream (em_step op m) = snd (unsubscribe_all ?sids (0, em_stream m))"
    by (simp add: OpDisconnect em_unsubscribe_connection_def Let_def split: prod.split)
  have i: "es_inv (em_stream m)" using inv by (simp add: em_inv_def)
  have "dget (es_subscriptions (em_stream m)) sid = Some a" "sid \<notin> set ?sids"
    using here by (auto simp: st es_get_subscription_def unsubscribe_all_subs split: if_splits)
  then have "\<not> (\<exists>j\<in>set ?sids. dget (es_subscriptions (em_stream m)) j = Some a)"
    using es_invD(2) [OF i] by blast
  then show ?thesis unfolding st unsubscribe_all_objs [OF i] by (simp add: OpDisconnect)
qed (use assms in \<open>auto simp: es_get_subscription_def em_clear_session_history_def\<close>)

lemma em_run_sub:
  assumes "em_inv m" and "a < es_next (em_stream m)" and "sb_holds f es (es_objs (em_stream m) a)"
    and "\<forall>t. OpGet a t \<notin> set ops" and "OpCloseSub a \<notin> set ops"
    and "es_get_subscription sid (em_stream (em_run ops m)) = Some a"
  shows "sb_holds f (es @ published ops) (es_objs (em_stream (em_run ops m)) a)"
  using assms
proof (induction ops arbitrary: m es)
  case (Cons op ops)
  let ?m = "em_step op m" and ?es = "es @ (case op of OpPublish e \<Rightarrow> [e] | _ \<Rightarrow> [])"
  have next': "a < es_next (em_stream ?m)" using Cons.prems(2) em_step_next [of m op] by simp
  have "es_get_subscription sid (em_stream ?m) = Some a" using em_run_back [OF next'] Cons.prems(6) by simp
  from em_step_sub [OF Cons.prems(1,2) this] Cons.prems(4,5)
  have "sb_holds f ?es (es_objs (em_stream ?m) a)"
    using Cons.prems(3) sb_holds_deliver by (auto split: em_op.split)
  from Cons.IH [OF em_inv_step [OF Cons.prems(1)] next' this] Cons.prems(4-6)
  show ?case by (auto split: em_op.splits)
qed simp

text \<open>C38: a subscriber that joins a session late and has not read yet has in its queue the session's history, the
  last \<open>max_history\<close> events published before it came, and then every event of the session since, in the
  order of publication and none twice, up to the first thousand; whatever else happened on the bus.\<close>

theorem em_late_subscriber:
  assumes "0 < h" and "m = em_run ops (em_init h k)" and "OpClear s \<notin> set ops"
    and "em_subscribe_session now conn s True m = (Inr a, m1)" and "m2 = em_run later m1"
    and "\<forall>t. OpGet a t \<notin> set later" and "OpCloseSub a \<notin> set later"
    and "es_get_subscription (session_subscription_id conn s) (em_stream m2) = Some a"
  shows "sb_queue (es_objs (em_stream m2) a) = map Some (take 1000
    (py_last h (filter (\<lambda>e. ev_session_id e = s) (published ops)) @ filter (\<lambda>e. ev_session_id e = s) (published later)))"
proof -
  let ?own = "filter (\<lambda>e. ev_session_id e = s)" and ?f = "create_session_filter s"
  have own: "filter (ef_matches ?f) = ?own" by (rule ext, rule filter_cong) simp_all
  have inv: "em_inv m" unfolding assms(2) by (rule em_inv_run [OF em_inv_init])
  have inv1: "em_inv m1" using em_inv_subscribe_session [OF inv, of now conn s True] assms(4) by simp
  have history: "em_get_session_history s None [] m' = py_last h (?own (published ops))"
    if "em_history m' = em_history m" for m'
    using that em_history_run(1) [OF assms(1,3)] by (simp add: em_get_session_history_def assms(2))
  have "a < es_next (em_stream m1) \<and> sb_holds ?f (py_last h (?own (published ops))) (es_objs (em_stream m1) a)"
  proof (cases rule: em_subscribe_cases [of now conn "session_subscription_id conn s" ?f m])
    case (accepted m')
    then show ?thesis using assms(4) sb_holds_deliver_all [OF sb_holds_new]
      by (auto simp: em_subscribe_session_def em_replay_objs history)
  qed (use assms(4) in \<open>simp add: em_subscribe_session_def\<close>)
  then have "sb_holds ?f (py_last h (?own (published ops)) @ published later) (es_objs (em_stream m2) a)"
    using em_run_sub [OF inv1 _ _ assms(6,7)] assms(8) unfolding assms(5) by blast
  moreover have "?own (py_last h (?own (published ops))) = py_last h (?own (published ops))"
    using set_mono_suffix [OF py_last_suffix [of h "?own (published ops)"]] by (auto intro!: filter_True)
  ultimately show ?thesis by (simp add: sb_holds_def own)
qed

theorem em_late_subscriber_witness:
  "let m = em_run [OpPublish (ex_stream_event 1), OpPublish (ex_stream_event 2)] (em_init 5 10);
       m1 = snd (em_subscribe_session 0 ''a'' 1 True m);
       m2 = em_run [OpPublish (ex_stream_event 1)] m1
   in sb_queue (es_objs (em_stream m2) 0) = [Some (ex_stream_event 1), Some (ex_stream_event 1)]"
proof -
  let ?ops = "[OpPublish (ex_stream_event 1), OpPublish (ex_stream_event 2)]" and ?later = "[OpPublish (ex_stream_event 1)]"
  let ?sub = "em_subscribe_session 0 ''a'' 1 True (em_run ?ops (em_init 5 10))"
  have sub: "fst ?sub = Inr 0"
    "es_get_subscription (session_subscription_id ''a'' 1) (em_stream (em_run ?later (snd ?sub))) = Some 0" by code_simp+
  then have pair: "?sub = (Inr 0, snd ?sub)" by (metis prod.collapse)
  show ?thesis
    using em_late_subscriber [OF _ refl _ pair refl _ _ sub(2)]
    by (simp add: Let_def ex_stream_event_def new_event_def py_last_def)
qed

end
