(* ===== verification/Out_Queue.thy ===== *)
theory Out_Queue
  imports Event_Stream
begin

text \<open>
  \<open>src/transport/queue.py\<close>: the outbound queue of a connection with its single writer task, and the
  manager of the queues. The messages handed to the send function, a parameter of the queue in the
  code, are recorded in order; whether a send succeeds is up to the environment.
\<close>

section \<open>The queue of a connection\<close>

datatype out_error = OutQueueFull string int | OutRuntimeError string

text \<open>The writer task: not created, waiting in \<open>get\<close>, inside the send function, or ended.\<close>

datatype writer = NoWriter | WriterWaiting | WriterSending string | WriterEnded

record conn_queue =
  cq_conn_id :: string
  cq_max_size :: int
  cq_queue :: "string option list"
  cq_writer :: writer
  cq_closed :: bool
  cq_sent :: "string list"

definition cq_init :: "string \<Rightarrow> int \<Rightarrow> conn_queue" where
  "cq_init conn cap = \<lparr>cq_conn_id = conn, cq_max_size = cap, cq_queue = [], cq_writer = NoWriter, cq_closed = False, cq_sent = []\<rparr>"

definition cq_is_full :: "conn_queue \<Rightarrow> bool" where
  "cq_is_full q = queue_full (cq_max_size q) (cq_queue q)"

definition cq_qsize :: "conn_queue \<Rightarrow> int" where
  "cq_qsize q = int (length (cq_queue q))"

definition cq_start :: "conn_queue \<Rightarrow> conn_queue" where
  "cq_start q = (if cq_writer q = NoWriter then q\<lparr>cq_writer := (if cq_closed q then WriterEnded else WriterWaiting)\<rparr> else q)"

text \<open>\<open>stop\<close> cancels the writer wherever it is and forgets the task.\<close>

definition cq_stop :: "conn_queue \<Rightarrow> conn_queue" where
  "cq_stop q =
     (let q = q\<lparr>cq_closed := True\<rparr>;
          q = (if cq_is_full q then q else q\<lparr>cq_queue := cq_queue q @ [None]\<rparr>)
      in q\<lparr>cq_writer := NoWriter\<rparr>)"

definition cq_put_nowait :: "string \<Rightarrow> conn_queue \<Rightarrow> (out_error + unit) \<times> conn_queue" where
  "cq_put_nowait msg q =
     (if cq_closed q then (Inl (OutRuntimeError (''Queue closed for '' @ cq_conn_id q)), q)
      else if cq_is_full q then (Inl (OutQueueFull (cq_conn_id q) (cq_max_size q)), q)
      else (Inr (), q\<lparr>cq_queue := cq_queue q @ [Some msg]\<rparr>))"

text \<open>\<open>put\<close> tests once whether the queue is closed and then waits for room until its time is over.\<close>

definition cq_put_wait :: "bool \<Rightarrow> string \<Rightarrow> conn_queue \<Rightarrow> bool waiting \<times> conn_queue" where
  "cq_put_wait timed_out msg q =
     (if \<not> cq_is_full q then (Returned True, q\<lparr>cq_queue := cq_queue q @ [Some msg]\<rparr>)
      else if timed_out then (Returned False, q) else (Waits, q))"

definition cq_put :: "bool \<Rightarrow> string \<Rightarrow> conn_queue \<Rightarrow> bool waiting \<times> conn_queue" where
  "cq_put timed_out msg q = (if cq_closed q then (Returned False, q) else cq_put_wait timed_out msg q)"

text \<open>
  The writer loop between two suspensions: it is resumed with the next message, or at the end of a send.
  \<open>None\<close> ends it, and so does a send that fails.
\<close>

definition cq_writer_get :: "conn_queue \<Rightarrow> conn_queue" where
  "cq_writer_get q =
     (case (cq_writer q, cq_queue q) of
        (WriterWaiting, None # ms) \<Rightarrow> q\<lparr>cq_queue := ms, cq_writer := WriterEnded\<rparr>
      | (WriterWaiting, Some msg # ms) \<Rightarrow>
          q\<lparr>cq_queue := ms, cq_writer := WriterSending msg, cq_sent := cq_sent q @ [msg]\<rparr>
      | _ \<Rightarrow> q)"

definition cq_writer_sent :: "bool \<Rightarrow> conn_queue \<Rightarrow> conn_queue" where
  "cq_writer_sent ok q =
     (case cq_writer q of
        WriterSending _ \<Rightarrow> q\<lparr>cq_writer := (if ok \<and> \<not> cq_closed q then WriterWaiting else WriterEnded)\<rparr>
      | _ \<Rightarrow> q)"

section \<open>The manager\<close>

record queue_manager =
  cm_max_queue_size :: int
  cm_queues :: "(string, conn_queue) pydict"

definition cm_init :: "int \<Rightarrow> queue_manager" where
  "cm_init cap = \<lparr>cm_max_queue_size = cap, cm_queues = []\<rparr>"

definition cm_get_or_create :: "string \<Rightarrow> queue_manager \<Rightarrow> queue_manager" where
  "cm_get_or_create conn m =
     (if din conn (cm_queues m) then m
      else m\<lparr>cm_queues := dset conn (cq_start (cq_init conn (cm_max_queue_size m))) (cm_queues m)\<rparr>)"

text \<open>The queue that \<open>remove\<close> stops is returned: its writer may be waiting for the cancellation.\<close>

definition cm_remove :: "string \<Rightarrow> queue_manager \<Rightarrow> conn_queue option \<times> queue_manager" where
  "cm_remove conn m =
     (case dget (cm_queues m) conn of
        None \<Rightarrow> (None, m)
      | Some q \<Rightarrow> (Some (cq_stop q), m\<lparr>cm_queues := dpop conn (cm_queues m)\<rparr>))"

definition cm_send :: "string \<Rightarrow> string \<Rightarrow> queue_manager \<Rightarrow> (out_error + bool) \<times> queue_manager" where
  "cm_send conn msg m =
     (case dget (cm_queues m) conn of
        None \<Rightarrow> (Inr False, m)
      | Some q \<Rightarrow>
          (case cq_put_nowait msg q of
             (Inl err, _) \<Rightarrow> (Inl err, m)
           | (Inr _, q) \<Rightarrow> (Inr True, m\<lparr>cm_queues := dset conn q (cm_queues m)\<rparr>)))"

definition cm_shutdown :: "queue_manager \<Rightarrow> conn_queue list \<times> queue_manager" where
  "cm_shutdown m = (map cq_stop (dvalues (cm_queues m)), m\<lparr>cm_queues := []\<rparr>)"

definition cm_queue_size :: "string \<Rightarrow> queue_manager \<Rightarrow> int" where
  "cm_queue_size conn m = (case dget (cm_queues m) conn of None \<Rightarrow> 0 | Some q \<Rightarrow> cq_qsize q)"

definition cm_connection_count :: "queue_manager \<Rightarrow> int" where
  "cm_connection_count m = int (length (cm_queues m))"

section \<open>Runs of a queue\<close>

datatype cq_op = CqStart | CqPut string | CqPutWait bool string | CqPutResume bool string | CqGet | CqSent bool | CqStop

text \<open>A step, with the messages accepted so far.\<close>

fun cq_step :: "cq_op \<Rightarrow> string list \<times> conn_queue \<Rightarrow> string list \<times> conn_queue" where
  "cq_step CqStart (acc, q) = (acc, cq_start q)"
| "cq_step (CqPut msg) (acc, q) =
     (case cq_put_nowait msg q of (Inr _, q) \<Rightarrow> (acc @ [msg], q) | (Inl _, q) \<Rightarrow> (acc, q))"
| "cq_step (CqPutWait t msg) (acc, q) =
     (case cq_put t msg q of (Returned True, q) \<Rightarrow> (acc @ [msg], q) | (_, q) \<Rightarrow> (acc, q))"
| "cq_step (CqPutResume t msg) (acc, q) =
     (case cq_put_wait t msg q of (Returned True, q) \<Rightarrow> (acc @ [msg], q) | (_, q) \<Rightarrow> (acc, q))"
| "cq_step CqGet (acc, q) = (acc, cq_writer_get q)"
| "cq_step (CqSent ok) (acc, q) = (acc, cq_writer_sent ok q)"
| "cq_step CqStop (acc, q) = (acc, cq_stop q)"

definition queued :: "conn_queue \<Rightarrow> string list" where
  "queued q = concat (map (\<lambda>x. case x of None \<Rightarrow> [] | Some m \<Rightarrow> [m]) (cq_queue q))"

definition cq_ok :: "int \<Rightarrow> string list \<times> conn_queue \<Rightarrow> bool" where
  "cq_ok cap aq \<longleftrightarrow>
     (let (acc, q) = aq in cq_sent q @ queued q = acc \<and> cq_max_size q = cap \<and>
        (0 < cap \<longrightarrow> int (length (cq_queue q)) \<le> cap) \<and>
        (\<forall>msg. cq_writer q = WriterSending msg \<longrightarrow> cq_sent q \<noteq> [] \<and> last (cq_sent q) = msg))"

lemma cq_step_ok: "cq_ok cap aq \<Longrightarrow> cq_ok cap (cq_step op aq)"
proof (cases aq)
  case (Pair acc q)
  assume ok: "cq_ok cap aq"
  show ?thesis
  proof (cases op)
    case CqGet
    then show ?thesis using ok Pair
      by (auto simp: cq_ok_def cq_writer_get_def queued_def split: list.splits option.splits writer.splits)
  qed (use ok Pair in \<open>auto simp: cq_ok_def cq_start_def cq_put_nowait_def cq_put_def cq_put_wait_def cq_writer_sent_def
      cq_stop_def cq_is_full_def queue_full_def queued_def Let_def split: writer.splits\<close>)
qed

lemma cq_run_ok: "cq_ok cap aq \<Longrightarrow> cq_ok cap (fold cq_step ops aq)"
  by (induction ops arbitrary: aq) (simp_all add: cq_step_ok)

lemma cq_ok_init: "cq_ok cap ([], cq_init conn cap)"
  by (simp add: cq_ok_def cq_init_def queued_def)

text \<open>A stopped queue hands nothing more to the send function.\<close>

lemma cq_stopped_step:
  "cq_closed q \<and> (cq_writer q = NoWriter \<or> cq_writer q = WriterEnded) \<and> cq_sent q = sent \<Longrightarrow>
     cq_step op (acc, q) = (acc', q') \<Longrightarrow>
     cq_closed q' \<and> (cq_writer q' = NoWriter \<or> cq_writer q' = WriterEnded) \<and> cq_sent q' = sent"
  by (cases op) (auto simp: cq_start_def cq_put_nowait_def cq_put_def cq_put_wait_def cq_writer_sent_def cq_writer_get_def
      cq_stop_def Let_def split: if_splits)

lemma cq_stopped_run:
  "cq_closed q \<and> (cq_writer q = NoWriter \<or> cq_writer q = WriterEnded) \<and> cq_sent q = sent \<Longrightarrow>
     fold cq_step ops (acc, q) = (acc', q') \<Longrightarrow> cq_sent q' = sent"
proof (induction ops arbitrary: acc q)
  case (Cons op ops)
  obtain acc1 q1 where s: "cq_step op (acc, q) = (acc1, q1)" by fastforce
  show ?case using Cons.IH [OF cq_stopped_step [OF Cons.prems(1) s]] Cons.prems(2) s by simp
qed simp

text \<open>Whatever happens to a connection's queue, the messages handed to the send function followed by those
  still queued are exactly the accepted ones in their order, the queue keeps to its limit, a message is
  refused exactly when the queue is closed or full, and after \<open>stop\<close> nothing more is sent.\<close>

theorem out_queue_fifo:
  assumes "fold cq_step ops ([], cq_init conn cap) = (acc, q)"
  shows "cq_sent q @ queued q = acc \<and> (0 < cap \<longrightarrow> cq_qsize q \<le> cap) \<and>
    (fst (cq_put_nowait msg q) = Inr () \<longleftrightarrow> \<not> cq_closed q \<and> (0 < cap \<longrightarrow> cq_qsize q < cap)) \<and>
    cq_sent (snd (fold cq_step later (acc, cq_stop q))) = cq_sent q"
proof -
  have "cq_ok cap (acc, q)" using cq_run_ok [OF cq_ok_init, of cap ops conn] assms by simp
  moreover have "cq_sent (snd (fold cq_step later (acc, cq_stop q))) = cq_sent q"
    by (rule cq_stopped_run [of "cq_stop q" _ later acc "fst (fold cq_step later (acc, cq_stop q))"])
      (auto simp: cq_stop_def Let_def)
  ultimately show ?thesis
    by (auto simp: cq_ok_def cq_qsize_def cq_put_nowait_def cq_is_full_def queue_full_def)
qed

theorem out_queue_fifo_witness:
  "let ops = [CqStart, CqPut ''a'', CqPut ''b'', CqGet, CqSent True, CqPut ''c'', CqGet];
       (acc, q) = fold cq_step ops ([], cq_init ''x'' 2)
   in acc = [''a'', ''b'', ''c''] \<and> cq_sent q = [''a'', ''b''] \<and> queued q = [''c'']"
proof -
  let ?ops = "[CqStart, CqPut ''a'', CqPut ''b'', CqGet, CqSent True, CqPut ''c'', CqGet]"
  let ?r = "fold cq_step ?ops ([], cq_init ''x'' 2)"
  have r: "fst ?r = [''a'', ''b'', ''c'']" "cq_sent (snd ?r) = [''a'', ''b'']" by code_simp+
  show ?thesis
    using out_queue_fifo [of ?ops "''x''" 2 "fst ?r" "snd ?r" "[]" "[]"] r
    unfolding Let_def case_prod_beta by simp
qed

text \<open>When a send fails the writer ends and nothing restarts it, but the queue is not closed: it goes on
  accepting messages that are never sent.\<close>

lemma dead_writer_accepts:
  assumes "cq_writer q = WriterEnded" and "\<not> cq_closed q" and "\<not> cq_is_full q"
  shows "fst (cq_put_nowait msg q) = Inr ()"
    and "cq_step op (acc, q) = (acc', q') \<Longrightarrow> op \<noteq> CqStop \<Longrightarrow> cq_writer q' = WriterEnded \<and> cq_sent q' = cq_sent q"
  using assms by (cases op; auto simp: cq_start_def cq_put_nowait_def cq_put_def cq_put_wait_def cq_writer_sent_def
      cq_writer_get_def)+

section \<open>Sending through the manager\<close>

lemma cm_send_spec:
  "fst (cm_send conn msg m) = Inr True \<longleftrightarrow> (\<exists>q. dget (cm_queues m) conn = Some q \<and> fst (cq_put_nowait msg q) = Inr ())"
  "c \<noteq> conn \<Longrightarrow> dget (cm_queues (snd (cm_send conn msg m))) c = dget (cm_queues m) c"
  by (auto simp: cm_send_def split: option.splits prod.splits sum.splits)

end
