(* ===== verification/View_Registry.thy ===== *)
theory View_Registry
  imports Py_Values
begin

text \<open>
  \<open>src/schema/view_registry.py\<close>: the response schemas of the connected agents, by agent and capability,
  with the reverse index from a capability to the agents that provide it. Python's \<open>str\<close> of a JSON
  value and the order in which it iterates over a set are arguments of the operations that use them.
\<close>

type_synonym schema_map = "(string, payload) pydict"

record view_registry =
  vr_schemas_by_agent :: "(uuid, schema_map) pydict"
  vr_agents_by_capability :: "(string, uuid set) pydict"

definition vr_init :: view_registry where
  "vr_init = \<lparr>vr_schemas_by_agent = [], vr_agents_by_capability = []\<rparr>"

text \<open>The loop over the capabilities, in each direction.\<close>

definition vr_unindex :: "uuid \<Rightarrow> string \<Rightarrow> (string, uuid set) pydict \<Rightarrow> (string, uuid set) pydict" where
  "vr_unindex agent capability ix =
     (case dget ix capability of
        None \<Rightarrow> ix
      | Some s \<Rightarrow>
          let s = s - {agent} in if s = {} then dpop capability ix else dset capability s ix)"

definition vr_index :: "uuid \<Rightarrow> string \<Rightarrow> (string, uuid set) pydict \<Rightarrow> (string, uuid set) pydict" where
  "vr_index agent capability ix = dset capability (insert agent (dget_or ix capability {})) ix"

definition unregister_agent_schemas :: "uuid \<Rightarrow> view_registry \<Rightarrow> view_registry" where
  "unregister_agent_schemas agent v =
     (let v' = v\<lparr>vr_schemas_by_agent := dpop agent (vr_schemas_by_agent v)\<rparr> in
      case dget (vr_schemas_by_agent v) agent of
        None \<Rightarrow> v'
      | Some schemas \<Rightarrow>
          v'\<lparr>vr_agents_by_capability := fold (vr_unindex agent) (dkeys schemas) (vr_agents_by_capability v)\<rparr>)"

definition register_agent_schemas :: "uuid \<Rightarrow> schema_map \<Rightarrow> view_registry \<Rightarrow> view_registry" where
  "register_agent_schemas agent schemas v =
     (let v = (if din agent (vr_schemas_by_agent v) then unregister_agent_schemas agent v else v) in
      v\<lparr>vr_schemas_by_agent := dset agent schemas (vr_schemas_by_agent v),
        vr_agents_by_capability := fold (vr_index agent) (dkeys schemas) (vr_agents_by_capability v)\<rparr>)"

definition vr_get_schema :: "uuid \<Rightarrow> string \<Rightarrow> view_registry \<Rightarrow> payload option" where
  "vr_get_schema agent capability v =
     (case dget (vr_schemas_by_agent v) agent of
        None \<Rightarrow> None
      | Some schemas \<Rightarrow> if schemas = [] then None else dget schemas capability)"

section \<open>Validation\<close>

text \<open>\<open>iter(v)\<close>: what a loop over a JSON value goes through, or the text of the TypeError.\<close>

fun py_type_name :: "json \<Rightarrow> string" where
  "py_type_name JNone = ''NoneType''"
| "py_type_name (JBool b) = ''bool''"
| "py_type_name (JInt i) = ''int''"
| "py_type_name (JFloat x) = ''float''"
| "py_type_name (JStr s) = ''str''"
| "py_type_name (JList l) = ''list''"
| "py_type_name (JDict d) = ''dict''"

fun py_iter :: "json \<Rightarrow> string + json list" where
  "py_iter (JStr s) = Inr (map (\<lambda>c. JStr [c]) s)"
| "py_iter (JList l) = Inr l"
| "py_iter (JDict d) = Inr (map JStr (dkeys d))"
| "py_iter v = Inl ([CHR 0x27] @ py_type_name v @ [CHR 0x27] @ '' object is not iterable'')"

text \<open>\<open>field in payload\<close>: only a string can be a key; a list or a dict is not hashable.\<close>

fun py_key_in :: "json \<Rightarrow> payload \<Rightarrow> string + bool" where
  "py_key_in (JStr k) p = Inr (din k p)"
| "py_key_in (JList l) p = Inl (''unhashable type: '' @ [CHR 0x27] @ ''list'' @ [CHR 0x27])"
| "py_key_in (JDict d) p = Inl (''unhashable type: '' @ [CHR 0x27] @ ''dict'' @ [CHR 0x27])"
| "py_key_in v p = Inr False"

fun check_required :: "(json \<Rightarrow> string) \<Rightarrow> json list \<Rightarrow> payload \<Rightarrow> bool \<times> string option" where
  "check_required str [] p = (True, None)"
| "check_required str (f # fs) p =
     (case py_key_in f p of
        Inl e \<Rightarrow> (False, Some (''Validation error: '' @ e))
      | Inr True \<Rightarrow> check_required str fs p
      | Inr False \<Rightarrow> (False, Some (''Missing required field: '' @ str f)))"

definition vr_validate ::
  "(json \<Rightarrow> string) \<Rightarrow> uuid \<Rightarrow> string \<Rightarrow> payload \<Rightarrow> view_registry \<Rightarrow> bool \<times> string option" where
  "vr_validate str agent capability p v =
     (case vr_get_schema agent capability v of
        None \<Rightarrow> (True, None)
      | Some schema_def \<Rightarrow>
          if din ''properties'' schema_def then
            (case py_iter (pget schema_def ''required'' (JList [])) of
               Inl e \<Rightarrow> (False, Some (''Validation error: '' @ e))
             | Inr names \<Rightarrow> check_required str names p)
          else (True, None))"

definition vr_list_agent_schemas :: "uuid \<Rightarrow> view_registry \<Rightarrow> string list" where
  "vr_list_agent_schemas agent v = dkeys (dget_or (vr_schemas_by_agent v) agent [])"

definition vr_list_all_capabilities :: "(uuid set \<Rightarrow> uuid list) \<Rightarrow> view_registry \<Rightarrow> payload list" where
  "vr_list_all_capabilities so v =
     map (\<lambda>(capability, agents).
        [(''capability'', JStr capability), (''providers'', JList (map (\<lambda>a. JStr (uuid_str a)) (so agents)))])
      (vr_agents_by_capability v)"

definition vr_schema_count :: "view_registry \<Rightarrow> int" where
  "vr_schema_count v = sum_list (map (\<lambda>s. int (length s)) (dvalues (vr_schemas_by_agent v)))"

definition vr_agent_count :: "view_registry \<Rightarrow> int" where
  "vr_agent_count v = int (length (vr_schemas_by_agent v))"

section \<open>The two tables agree\<close>

definition providers :: "view_registry \<Rightarrow> string \<Rightarrow> uuid set" where
  "providers v c = {a. \<exists>s. dget (vr_schemas_by_agent v) a = Some s \<and> din c s}"

definition vr_inv :: "view_registry \<Rightarrow> bool" where
  "vr_inv v = (dict_ok (vr_schemas_by_agent v) \<and> dict_ok (vr_agents_by_capability v) \<and>
     (\<forall>c. dget (vr_agents_by_capability v) c = (if providers v c = {} then None else Some (providers v c))))"

lemma vr_init_inv [inv_intros]: "vr_inv vr_init"
  by (simp add: vr_inv_def vr_init_def providers_def)

lemma dict_ok_unindex: "dict_ok ix \<Longrightarrow> dict_ok (fold (vr_unindex a) cs ix)"
  by (induction cs arbitrary: ix) (auto simp: vr_unindex_def Let_def split: option.split)

lemma dict_ok_index: "dict_ok ix \<Longrightarrow> dict_ok (fold (vr_index a) cs ix)"
  by (induction cs arbitrary: ix) (auto simp: vr_index_def)

text \<open>An index entry read as a set: a missing entry is the empty set, and none is stored empty.\<close>

definition no_empty :: "(string, uuid set) pydict \<Rightarrow> bool" where
  "no_empty ix = (\<forall>c. dget ix c \<noteq> Some {})"

lemma unindex_step:
  "dget_or (vr_unindex a c ix) d {} = (if d = c then dget_or ix d {} - {a} else dget_or ix d {})"
  "no_empty ix \<Longrightarrow> no_empty (vr_unindex a c ix)"
  by (auto simp: vr_unindex_def dget_or_def no_empty_def Let_def split: option.split)

lemma index_step:
  "dget_or (vr_index a c ix) d {} = (if d = c then insert a (dget_or ix d {}) else dget_or ix d {})"
  "no_empty ix \<Longrightarrow> no_empty (vr_index a c ix)"
  by (auto simp: vr_index_def dget_or_def no_empty_def split: option.split)

lemma unindex_fold:
  "dget_or (fold (vr_unindex a) cs ix) d {} = (if d \<in> set cs then dget_or ix d {} - {a} else dget_or ix d {})"
  by (induction cs arbitrary: ix) (auto simp: unindex_step)

lemma unindex_fold_no_empty: "no_empty ix \<Longrightarrow> no_empty (fold (vr_unindex a) cs ix)"
  by (induction cs arbitrary: ix) (auto simp: unindex_step)

lemma index_fold:
  "dget_or (fold (vr_index a) cs ix) d {} = (if d \<in> set cs then insert a (dget_or ix d {}) else dget_or ix d {})"
  by (induction cs arbitrary: ix) (auto simp: index_step)

lemma index_fold_no_empty: "no_empty ix \<Longrightarrow> no_empty (fold (vr_index a) cs ix)"
  by (induction cs arbitrary: ix) (auto simp: index_step)

lemma vr_inv_alt:
  "vr_inv v \<longleftrightarrow> dict_ok (vr_schemas_by_agent v) \<and> dict_ok (vr_agents_by_capability v) \<and>
     no_empty (vr_agents_by_capability v) \<and>
     (\<forall>c. dget_or (vr_agents_by_capability v) c {} = providers v c)"
proof -
  have "dget ix c = (if P = {} then None else Some P) \<longleftrightarrow> dget ix c \<noteq> Some {} \<and> dget_or ix c {} = P"
    for ix :: "(string, uuid set) pydict" and c P
    by (auto simp: dget_or_def split: option.splits)
  then show ?thesis by (auto simp: vr_inv_def no_empty_def)
qed

lemma vr_unregister_inv [inv_intros]:
  assumes "vr_inv v" shows "vr_inv (unregister_agent_schemas a v)"
proof (cases "dget (vr_schemas_by_agent v) a")
  case None
  then have "providers (unregister_agent_schemas a v) c = providers v c" for c
    by (auto simp: providers_def unregister_agent_schemas_def Let_def)
  with None assms show ?thesis by (simp add: vr_inv_alt unregister_agent_schemas_def Let_def)
next
  case (Some s)
  have "providers (unregister_agent_schemas a v) c = providers v c - {a}" for c
    using Some by (auto simp: providers_def unregister_agent_schemas_def Let_def)
  moreover have "a \<in> providers v c \<longleftrightarrow> c \<in> set (dkeys s)" for c
    using Some by (simp add: providers_def set_dkeys)
  ultimately show ?thesis using Some assms
    by (auto simp: vr_inv_alt unregister_agent_schemas_def Let_def unindex_fold unindex_fold_no_empty dict_ok_unindex)
qed

lemma vr_unregister_forgets: "\<not> din a (vr_schemas_by_agent (unregister_agent_schemas a v))"
  by (simp add: unregister_agent_schemas_def Let_def split: option.split)

lemma vr_unregister_other:
  "b \<noteq> a \<Longrightarrow> dget (vr_schemas_by_agent (unregister_agent_schemas a v)) b = dget (vr_schemas_by_agent v) b"
  by (simp add: unregister_agent_schemas_def Let_def split: option.split)

lemma vr_register_inv [inv_intros]:
  assumes "vr_inv v" shows "vr_inv (register_agent_schemas a s v)"
proof -
  define w where "w = (if din a (vr_schemas_by_agent v) then unregister_agent_schemas a v else v)"
  have w: "vr_inv w" using assms vr_unregister_inv by (simp add: w_def)
  have gone: "dget (vr_schemas_by_agent w) a = None"
    using vr_unregister_forgets [of a v] by (auto simp: w_def din_def)
  have r: "register_agent_schemas a s v = w\<lparr>vr_schemas_by_agent := dset a s (vr_schemas_by_agent w),
      vr_agents_by_capability := fold (vr_index a) (dkeys s) (vr_agents_by_capability w)\<rparr>"
    by (simp add: register_agent_schemas_def w_def Let_def)
  have "providers (register_agent_schemas a s v) c =
      (if c \<in> set (dkeys s) then insert a (providers w c) else providers w c)" for c
    using gone by (auto simp: providers_def r set_dkeys)
  then show ?thesis using w
    by (auto simp: vr_inv_alt r index_fold index_fold_no_empty dict_ok_index)
qed

lemma check_required_ok:
  "check_required str fs p = (True, e) \<longleftrightarrow> e = None \<and> (\<forall>f\<in>set fs. \<exists>k. f = JStr k \<and> din k p)"
  by (induction str fs p rule: check_required.induct)
    (auto split: sum.splits bool.splits elim!: py_key_in.elims)

section \<open>Properties\<close>

text \<open>From the empty registry, any sequence of registrations and removals keeps the index of a
  capability equal to the set of agents whose schemas have it, with no empty entries; a removed
  agent has no schema and the others keep theirs.\<close>

theorem vr_index_consistent:
  "let v = fold (\<lambda>op v. case op of Inl (a, s) \<Rightarrow> register_agent_schemas a s v
                              | Inr a \<Rightarrow> unregister_agent_schemas a v) ops vr_init;
       w = unregister_agent_schemas a v
   in (\<forall>c. dget (vr_agents_by_capability v) c = (if providers v c = {} then None else Some (providers v c))) \<and>
      (\<forall>c. vr_get_schema a c w = None \<and> a \<notin> dget_or (vr_agents_by_capability w) c {}) \<and>
      (\<forall>b c. b \<noteq> a \<longrightarrow> vr_get_schema b c w = vr_get_schema b c v)"
proof -
  define v where "v = fold (\<lambda>op v. case op of Inl (a, s) \<Rightarrow> register_agent_schemas a s v
                              | Inr a \<Rightarrow> unregister_agent_schemas a v) ops vr_init"
  have "vr_inv (fold (\<lambda>op v. case op of Inl (a, s) \<Rightarrow> register_agent_schemas a s v
      | Inr a \<Rightarrow> unregister_agent_schemas a v) ops u)" if "vr_inv u" for u
    using that by (induction ops arbitrary: u) (auto intro: inv_intros split: sum.split)
  then have inv: "vr_inv v" using vr_init_inv by (simp add: v_def)
  let ?w = "unregister_agent_schemas a v"
  have "vr_inv ?w" using inv by (rule vr_unregister_inv)
  then have "a \<notin> dget_or (vr_agents_by_capability ?w) c {}" for c
    using vr_unregister_forgets [of a v] by (simp add: vr_inv_alt providers_def din_def)
  then show ?thesis
    using inv vr_unregister_forgets [of a v]
    by (simp add: vr_inv_def v_def [symmetric] vr_get_schema_def vr_unregister_other din_def)
qed

theorem vr_index_consistent_witness:
  "vr_get_schema 1 ''x'' (unregister_agent_schemas 1 (register_agent_schemas 1 [(''x'', [])] vr_init)) = None \<and>
   vr_get_schema 2 ''y'' (unregister_agent_schemas 1 (register_agent_schemas 2 [(''y'', [])] vr_init)) = Some []"
proof -
  have "vr_get_schema 2 ''y'' (register_agent_schemas 2 [(''y'', [])] vr_init) = Some []" by code_simp
  then show ?thesis
    using vr_index_consistent [of "[Inl (1, [(''x'', [])])]" 1] vr_index_consistent [of "[Inl (2, [(''y'', [])])]" 1]
    by (simp add: Let_def)
qed

text \<open>A payload is accepted exactly when there is no schema for the capability, the schema has no
  \<open>properties\<close>, or its \<open>required\<close> can be iterated and every element of it is a key of the payload.\<close>

theorem vr_validate_accepts:
  "fst (vr_validate str a c p v) \<longleftrightarrow>
     (case vr_get_schema a c v of
        None \<Rightarrow> True
      | Some sd \<Rightarrow> \<not> din ''properties'' sd \<or>
          (\<exists>fs. py_iter (dget_or sd ''required'' (JList [])) = Inr fs \<and> (\<forall>f\<in>set fs. \<exists>k. f = JStr k \<and> din k p)))"
proof -
  have "fst (check_required str fs p) \<longleftrightarrow> (\<forall>f\<in>set fs. \<exists>k. f = JStr k \<and> din k p)" for fs
    using check_required_ok [of str fs p "snd (check_required str fs p)"] check_required_ok [of str fs p None]
    by (cases "check_required str fs p") auto
  then show ?thesis by (auto simp: vr_validate_def split: option.split sum.split)
qed

theorem vr_validate_accepts_witness:
  "\<not> fst (vr_validate (\<lambda>_. []) 1 ''x'' [] (register_agent_schemas 1
      [(''x'', [(''properties'', JDict []), (''required'', JList [JStr ''text''])])] vr_init))"
proof -
  have "vr_get_schema 1 ''x'' (register_agent_schemas 1
      [(''x'', [(''properties'', JDict []), (''required'', JList [JStr ''text''])])] vr_init) =
    Some [(''properties'', JDict []), (''required'', JList [JStr ''text''])]" by code_simp
  then show ?thesis by (subst vr_validate_accepts) (simp add: dget_or_def din_def)
qed

end
