(* ===== verification/Agent_Registry.thy ===== *)
theory Agent_Registry
  imports View_Registry
begin

text \<open>
  \<open>src/registry/agent.py\<close> and \<open>src/registry/registry.py\<close>: the agent record and the registry of connected
  agents, with its index by agent id, its sockets and the view registry it keeps in step. A socket
  is the integer Python's \<open>id\<close> gives for it. Every method runs under the registry's lock; the sockets
  it closes are the first part of its result.
\<close>

section \<open>State\<close>

datatype agent_status = AGENT_ONLINE | AGENT_OFFLINE | AGENT_IDLE

fun agent_status_value :: "agent_status \<Rightarrow> string" where
  "agent_status_value AGENT_ONLINE = ''online''"
| "agent_status_value AGENT_OFFLINE = ''offline''"
| "agent_status_value AGENT_IDLE = ''idle''"

record agent_record =
  ar_agent_id :: uuid
  ar_tenant_id :: string
  ar_conn_id :: string
  ar_capabilities :: "string list"
  ar_description :: "string option"
  ar_tags :: "string list"
  ar_schemas :: schema_map
  ar_status :: agent_status
  ar_last_seen :: datetime
  ar_registered_at :: datetime
  ar_load :: rat
  ar_metadata :: payload

definition agent_is_alive :: "datetime \<Rightarrow> rat \<Rightarrow> agent_record \<Rightarrow> bool" where
  "agent_is_alive now timeout_seconds a = (of_int (now - ar_last_seen a) / 1000000 \<le> timeout_seconds)"

definition agent_touch :: "datetime \<Rightarrow> agent_record \<Rightarrow> agent_record" where
  "agent_touch now a = a\<lparr>ar_last_seen := now\<rparr>"

definition agent_to_public_dict :: "agent_record \<Rightarrow> payload" where
  "agent_to_public_dict a =
     [(''agent_id'', JStr (uuid_str (ar_agent_id a))), (''tenant_id'', JStr (ar_tenant_id a)),
      (''capabilities'', JList (map JStr (ar_capabilities a))), (''tags'', JList (map JStr (ar_tags a))),
      (''status'', JStr (agent_status_value (ar_status a))), (''load'', JFloat (ar_load a))]"

type_synonym websocket = nat

record agent_registry =
  rg_heartbeat_timeout :: rat
  rg_view_registry :: "view_registry option"
  rg_agents_by_conn :: "(string, agent_record) pydict"
  rg_conn_by_agent :: "(uuid, string) pydict"
  rg_connections :: "(string, websocket) pydict"

definition rg_init :: "rat \<Rightarrow> view_registry option \<Rightarrow> agent_registry" where
  "rg_init timeout views = \<lparr>rg_heartbeat_timeout = timeout, rg_view_registry = views,
     rg_agents_by_conn = [], rg_conn_by_agent = [], rg_connections = []\<rparr>"

section \<open>Operations\<close>

definition rg_remove_agent :: "string \<Rightarrow> agent_registry \<Rightarrow> agent_registry" where
  "rg_remove_agent conn r =
     (let r = (case dget (rg_agents_by_conn r) conn of
                 None \<Rightarrow> r
               | Some a \<Rightarrow> r\<lparr>rg_agents_by_conn := dpop conn (rg_agents_by_conn r),
                   rg_conn_by_agent := dpop (ar_agent_id a) (rg_conn_by_agent r),
                   rg_view_registry :=
                     map_option (unregister_agent_schemas (ar_agent_id a)) (rg_view_registry r)\<rparr>)
      in r\<lparr>rg_connections := dpop conn (rg_connections r)\<rparr>)"

definition conn_id_of :: "string \<Rightarrow> uuid \<Rightarrow> websocket \<Rightarrow> string" where
  "conn_id_of tenant agent ws = tenant @ '':'' @ uuid_str agent @ '':'' @ nat_str ws"

definition new_agent_record ::
  "datetime \<Rightarrow> uuid \<Rightarrow> string \<Rightarrow> string \<Rightarrow> string list \<Rightarrow> string list \<Rightarrow> schema_map \<Rightarrow> payload \<Rightarrow> agent_record" where
  "new_agent_record now agent tenant conn capabilities tags schemas metadata =
     \<lparr>ar_agent_id = agent, ar_tenant_id = tenant, ar_conn_id = conn, ar_capabilities = capabilities,
      ar_description = None, ar_tags = tags, ar_schemas = schemas, ar_status = AGENT_ONLINE,
      ar_last_seen = now, ar_registered_at = now, ar_load = 0, ar_metadata = metadata\<rparr>"

definition rg_register ::
  "datetime \<Rightarrow> uuid \<Rightarrow> string \<Rightarrow> websocket \<Rightarrow> string list \<Rightarrow> string list \<Rightarrow> schema_map \<Rightarrow> payload \<Rightarrow>
     agent_registry \<Rightarrow> websocket list \<times> (string \<times> agent_record) \<times> agent_registry" where
  "rg_register now agent tenant ws capabilities tags schemas metadata r =
     (let conn = conn_id_of tenant agent ws;
          (shut, r) = (case dget (rg_conn_by_agent r) agent of
              None \<Rightarrow> ([], r)
            | Some old \<Rightarrow> if old = [] then ([], r) else
                (case dget (rg_connections r) old of None \<Rightarrow> [] | Some w \<Rightarrow> [w], rg_remove_agent old r));
          a = new_agent_record now agent tenant conn capabilities tags schemas metadata
      in (shut, (conn, a),
          r\<lparr>rg_agents_by_conn := dset conn a (rg_agents_by_conn r),
            rg_conn_by_agent := dset agent conn (rg_conn_by_agent r),
            rg_connections := dset conn ws (rg_connections r),
            rg_view_registry := (if schemas = [] then rg_view_registry r
              else map_option (register_agent_schemas agent schemas) (rg_view_registry r))\<rparr>))"

definition rg_unregister :: "string \<Rightarrow> agent_registry \<Rightarrow> agent_record option \<times> agent_registry" where
  "rg_unregister conn r =
     (case dget (rg_agents_by_conn r) conn of
        None \<Rightarrow> (None, r)
      | Some a \<Rightarrow> (Some a, rg_remove_agent conn r))"

definition rg_heartbeat :: "datetime \<Rightarrow> string \<Rightarrow> agent_registry \<Rightarrow> bool \<times> agent_registry" where
  "rg_heartbeat now conn r =
     (case dget (rg_agents_by_conn r) conn of
        None \<Rightarrow> (False, r)
      | Some a \<Rightarrow>
          let a = agent_touch now a;
              a = (if ar_status a = AGENT_OFFLINE then a\<lparr>ar_status := AGENT_ONLINE\<rparr> else a)
          in (True, r\<lparr>rg_agents_by_conn := dset conn a (rg_agents_by_conn r)\<rparr>))"

text \<open>The agents the clean-up marks, and the loop that closes and removes them.\<close>

definition rg_dead :: "datetime \<Rightarrow> agent_registry \<Rightarrow> string list" where
  "rg_dead now r =
     map fst (filter (\<lambda>(c, a). \<not> agent_is_alive now (rg_heartbeat_timeout r) a \<and> ar_status a \<noteq> AGENT_OFFLINE)
       (rg_agents_by_conn r))"

fun rg_drop_all :: "string list \<Rightarrow> websocket list \<times> agent_registry \<Rightarrow> websocket list \<times> agent_registry" where
  "rg_drop_all [] cr = cr"
| "rg_drop_all (c # cs) (shut, r) =
     rg_drop_all cs (shut @ (case dget (rg_connections r) c of None \<Rightarrow> [] | Some w \<Rightarrow> [w]), rg_remove_agent c r)"

definition rg_cleanup :: "datetime \<Rightarrow> agent_registry \<Rightarrow> websocket list \<times> agent_registry" where
  "rg_cleanup now r =
     (let dead = rg_dead now r;
          marked = map (\<lambda>(c, a). (c, if c \<in> set dead then a\<lparr>ar_status := AGENT_OFFLINE\<rparr> else a)) (rg_agents_by_conn r)
      in rg_drop_all dead ([], r\<lparr>rg_agents_by_conn := marked\<rparr>))"

definition rg_list_agents :: "string option \<Rightarrow> bool \<Rightarrow> agent_registry \<Rightarrow> agent_record list" where
  "rg_list_agents tenant only_online r =
     filter (\<lambda>a. (only_online \<longrightarrow> ar_status a = AGENT_ONLINE))
       (filter (\<lambda>a. str_filter tenant (ar_tenant_id a)) (dvalues (rg_agents_by_conn r)))"

definition rg_find_by_tenant :: "string \<Rightarrow> bool \<Rightarrow> agent_registry \<Rightarrow> agent_record list" where
  "rg_find_by_tenant tenant only_online r = rg_list_agents (Some tenant) only_online r"

definition is_candidate ::
  "string \<Rightarrow> string option \<Rightarrow> string list \<Rightarrow> uuid option \<Rightarrow> agent_record \<Rightarrow> bool" where
  "is_candidate tenant capability tags exclude a =
     (ar_tenant_id a = tenant \<and> ar_status a = AGENT_ONLINE \<and> exclude \<noteq> Some (ar_agent_id a) \<and>
      (str_true capability \<longrightarrow> the capability \<in> set (ar_capabilities a)) \<and>
      (tags \<noteq> [] \<longrightarrow> (\<exists>t\<in>set tags. t \<in> set (ar_tags a))))"

definition rg_find_candidates ::
  "string \<Rightarrow> string option \<Rightarrow> string list \<Rightarrow> uuid option \<Rightarrow> int \<Rightarrow> agent_registry \<Rightarrow> agent_record list" where
  "rg_find_candidates tenant capability tags exclude max_candidates r =
     py_first max_candidates
       (sort_key ar_load (filter (is_candidate tenant capability tags exclude) (dvalues (rg_agents_by_conn r))))"

definition rg_get_agent_by_conn :: "string \<Rightarrow> agent_registry \<Rightarrow> agent_record option" where
  "rg_get_agent_by_conn conn r = dget (rg_agents_by_conn r) conn"

definition rg_get_agent_by_id :: "uuid \<Rightarrow> agent_registry \<Rightarrow> agent_record option" where
  "rg_get_agent_by_id agent r =
     (case dget (rg_conn_by_agent r) agent of
        None \<Rightarrow> None
      | Some c \<Rightarrow> if c = [] then None else dget (rg_agents_by_conn r) c)"

definition rg_get_websocket :: "string \<Rightarrow> agent_registry \<Rightarrow> websocket option" where
  "rg_get_websocket conn r = dget (rg_connections r) conn"

definition rg_get_websocket_by_agent_id :: "uuid \<Rightarrow> agent_registry \<Rightarrow> websocket option" where
  "rg_get_websocket_by_agent_id agent r =
     (case dget (rg_conn_by_agent r) agent of
        None \<Rightarrow> None
      | Some c \<Rightarrow> if c = [] then None else dget (rg_connections r) c)"

definition rg_agent_count :: "agent_registry \<Rightarrow> int" where
  "rg_agent_count r = int (length (rg_agents_by_conn r))"

definition rg_online_count :: "agent_registry \<Rightarrow> int" where
  "rg_online_count r = int (length (filter (\<lambda>a. ar_status a = AGENT_ONLINE) (dvalues (rg_agents_by_conn r))))"

section \<open>Connection ids\<close>

lemma colon_not_digit: "CHR '':'' \<notin> set (nat_str n)"
  using set_nat_str [of n] by (auto simp: dec_digits_def)

lemma last_colon:
  assumes "xs @ CHR '':'' # a = ys @ CHR '':'' # b" and "CHR '':'' \<notin> set a" "CHR '':'' \<notin> set b"
  shows "xs = ys \<and> a = b"
proof -
  have "rev a @ CHR '':'' # rev xs = rev b @ CHR '':'' # rev ys"
    using arg_cong [OF assms(1), of rev] by simp
  then have "takeWhile (\<lambda>c. c \<noteq> CHR '':'') (rev a @ CHR '':'' # rev xs) =
      takeWhile (\<lambda>c. c \<noteq> CHR '':'') (rev b @ CHR '':'' # rev ys)" by simp
  moreover have "\<forall>x\<in>set a. x \<noteq> CHR '':''" "\<forall>x\<in>set b. x \<noteq> CHR '':''" using assms(2,3) by blast+
  ultimately have "rev a = rev b" by (simp add: takeWhile_append)
  with assms(1) show ?thesis by simp
qed

lemma nat_str_nonempty [simp]: "nat_str n \<noteq> []"
  by (subst nat_str.simps) simp

lemma dec_digit_value: "m < 10 \<Longrightarrow> n < 10 \<Longrightarrow> dec_digit m = dec_digit n \<longleftrightarrow> m = n"
  using nth_eq_iff_index_eq [of "''0123456789''" m n] by (simp add: dec_digit_def)

lemma dec_digit_mod: "dec_digit (n mod 10) = dec_digit n"
  by (simp add: dec_digit_def)

lemma not_nat_str [simp]: "[] \<noteq> nat_str n"
  using nat_str_nonempty [of n] by metis

lemma nat_str_inject [simp]: "nat_str m = nat_str n \<longleftrightarrow> m = n"
proof (induction m arbitrary: n rule: less_induct)
  case (less m)
  have split: "nat_str k = (if k < 10 then [] else nat_str (k div 10)) @ [dec_digit k]" for k
    by (subst nat_str.simps) simp
  show ?case
  proof
    assume eq: "nat_str m = nat_str n"
    then have d: "dec_digit m = dec_digit n"
      and p: "(if m < 10 then [] else nat_str (m div 10)) = (if n < 10 then [] else nat_str (n div 10))"
      using split [of m] split [of n] by auto
    have "m mod 10 = n mod 10"
      using d dec_digit_value [of "m mod 10" "n mod 10"] by (simp add: dec_digit_mod)
    moreover have "m div 10 = n div 10"
      using p less.IH [of "m div 10" "n div 10"] by (cases "m < 10"; cases "n < 10") simp_all
    ultimately show "m = n" by (metis div_mult_mod_eq)
  qed simp
qed

lemma conn_id_not_Nil [simp]: "conn_id_of t a w \<noteq> []"
  by (simp add: conn_id_of_def)

lemma conn_id_inject: "conn_id_of t a w = conn_id_of t' a' w' \<Longrightarrow> t = t' \<and> a = a' \<and> w = w'"
proof -
  assume "conn_id_of t a w = conn_id_of t' a' w'"
  then have eq: "(t @ '':'' @ uuid_str a) @ CHR '':'' # nat_str w = (t' @ '':'' @ uuid_str a') @ CHR '':'' # nat_str w'"
    by (simp add: conn_id_of_def)
  then have "t @ '':'' @ uuid_str a = t' @ '':'' @ uuid_str a'" "nat_str w = nat_str w'"
    using last_colon [OF eq colon_not_digit colon_not_digit] by simp_all
  moreover from this(1) have "uuid_str a = uuid_str a' \<and> t @ '':'' = t' @ '':''"
    using append_eq_append_conv [of "uuid_str a" "uuid_str a'" "t @ '':''" "t' @ '':''"] by simp
  ultimately show ?thesis by simp
qed

section \<open>The tables agree\<close>

definition rg_inv :: "agent_registry \<Rightarrow> bool" where
  "rg_inv r =
     (dict_ok (rg_agents_by_conn r) \<and> dict_ok (rg_conn_by_agent r) \<and> dict_ok (rg_connections r) \<and>
      (\<forall>c a. dget (rg_agents_by_conn r) c = Some a \<longrightarrow>
         ar_conn_id a = c \<and> dget (rg_conn_by_agent r) (ar_agent_id a) = Some c \<and>
         (\<exists>w. dget (rg_connections r) c = Some w \<and> c = conn_id_of (ar_tenant_id a) (ar_agent_id a) w)) \<and>
      (\<forall>g c. dget (rg_conn_by_agent r) g = Some c \<longrightarrow>
         (\<exists>a. dget (rg_agents_by_conn r) c = Some a \<and> ar_agent_id a = g)) \<and>
      (\<forall>c. din c (rg_connections r) = din c (rg_agents_by_conn r)) \<and>
      (\<forall>v. rg_view_registry r = Some v \<longrightarrow> vr_inv v \<and>
         (\<forall>g. din g (vr_schemas_by_agent v) \<longrightarrow> din g (rg_conn_by_agent r))))"

lemma rg_invD:
  assumes "rg_inv r"
  shows "dict_ok (rg_agents_by_conn r)" "dict_ok (rg_conn_by_agent r)" "dict_ok (rg_connections r)"
    "dget (rg_agents_by_conn r) c = Some a \<Longrightarrow> ar_conn_id a = c \<and> dget (rg_conn_by_agent r) (ar_agent_id a) = Some c"
    "dget (rg_agents_by_conn r) c = Some a \<Longrightarrow>
       \<exists>w. dget (rg_connections r) c = Some w \<and> c = conn_id_of (ar_tenant_id a) (ar_agent_id a) w"
    "dget (rg_conn_by_agent r) g = Some c \<Longrightarrow> \<exists>a. dget (rg_agents_by_conn r) c = Some a \<and> ar_agent_id a = g"
    "din c (rg_connections r) = din c (rg_agents_by_conn r)"
    "rg_view_registry r = Some v \<Longrightarrow> vr_inv v"
    "rg_view_registry r = Some v \<Longrightarrow> din g (vr_schemas_by_agent v) \<Longrightarrow> din g (rg_conn_by_agent r)"
  using assms unfolding rg_inv_def by blast+

lemma rg_init_inv [inv_intros]: "rg_inv (rg_init t None)" "rg_inv (rg_init t (Some vr_init))"
  by (simp_all add: rg_inv_def rg_init_def vr_init_inv) (simp add: vr_init_def)

lemma vr_unregister_dom:
  "din g (vr_schemas_by_agent (unregister_agent_schemas a v)) \<longleftrightarrow> g \<noteq> a \<and> din g (vr_schemas_by_agent v)"
  using vr_unregister_forgets [of a v] vr_unregister_other [of g a v] by (cases "g = a") (auto simp: din_def)

lemma vr_register_dom:
  "din g (vr_schemas_by_agent (register_agent_schemas a s v)) \<longleftrightarrow> g = a \<or> din g (vr_schemas_by_agent v)"
  by (auto simp: register_agent_schemas_def Let_def vr_unregister_dom)

lemma rg_remove_inv [inv_intros]:
  assumes inv: "rg_inv r" shows "rg_inv (rg_remove_agent c r)"
proof (cases "dget (rg_agents_by_conn r) c")
  case None
  then have "dget (rg_connections r) c = None" using rg_invD(7) [OF inv, of c] by (simp add: din_def)
  then show ?thesis using inv None
    by (auto simp: rg_remove_agent_def rg_inv_def din_def)
next
  case (Some a)
  have a: "dget (rg_conn_by_agent r) (ar_agent_id a) = Some c" using rg_invD(4) [OF inv Some] by simp
  have other: "ar_agent_id b \<noteq> ar_agent_id a" if "dget (rg_agents_by_conn r) d = Some b" "d \<noteq> c" for b d
    using rg_invD(4) [OF inv that(1)] a that(2) by auto
  have bwd: "d \<noteq> c" if "dget (rg_conn_by_agent r) g = Some d" "g \<noteq> ar_agent_id a" for g d
    using rg_invD(6) [OF inv that(1)] Some that(2) by auto
  show ?thesis
    using inv Some other bwd
    by (auto simp: rg_remove_agent_def rg_inv_def vr_unregister_dom intro: vr_unregister_inv)
qed

lemma rg_remove_gone:
  assumes inv: "rg_inv r" and "dget (rg_conn_by_agent r) g = Some c"
  shows "dget (rg_conn_by_agent (rg_remove_agent c r)) g = None"
  using rg_invD(6) [OF inv assms(2)] by (auto simp: rg_remove_agent_def)

lemma rg_add_inv:
  assumes inv: "rg_inv r" and fresh: "dget (rg_conn_by_agent r) g = None"
    and a: "ar_agent_id a = g" "ar_tenant_id a = t" "ar_conn_id a = conn_id_of t g w"
    and views: "vs = rg_view_registry r \<or> vs = map_option (register_agent_schemas g s) (rg_view_registry r)"
  shows "rg_inv (r\<lparr>rg_agents_by_conn := dset (conn_id_of t g w) a (rg_agents_by_conn r),
      rg_conn_by_agent := dset g (conn_id_of t g w) (rg_conn_by_agent r),
      rg_connections := dset (conn_id_of t g w) w (rg_connections r), rg_view_registry := vs\<rparr>)"
proof -
  let ?c = "conn_id_of t g w"
  have none: "dget (rg_agents_by_conn r) ?c = None"
  proof (rule ccontr)
    assume "dget (rg_agents_by_conn r) ?c \<noteq> None"
    then obtain b where b: "dget (rg_agents_by_conn r) ?c = Some b" by auto
    from rg_invD(5) [OF inv b] conn_id_inject have "ar_agent_id b = g" by metis
    with rg_invD(4) [OF inv b] fresh show False by simp
  qed
  have other: "ar_agent_id b \<noteq> g" if "dget (rg_agents_by_conn r) d = Some b" for b d
    using rg_invD(4) [OF inv that] fresh by auto
  have bwd: "d \<noteq> ?c" if "dget (rg_conn_by_agent r) h = Some d" for h d
    using rg_invD(6) [OF inv that] none by auto
  have vok: "vr_inv v" "din h (vr_schemas_by_agent v) \<Longrightarrow> h = g \<or> din h (rg_conn_by_agent r)"
    if v: "vs = Some v" for v h
    using views v rg_invD(8,9) [OF inv]
    by (cases "rg_view_registry r"; auto simp: vr_register_dom intro: vr_register_inv)+
  show ?thesis
    using inv none other bwd a vok unfolding rg_inv_def by auto
qed

lemma rg_register_inv [inv_intros]:
  assumes "rg_inv r" shows "rg_inv (snd (snd (rg_register now g t w caps tags schemas md r)))"
proof -
  define r1 where "r1 = (case dget (rg_conn_by_agent r) g of None \<Rightarrow> r
      | Some old \<Rightarrow> if old = [] then r else rg_remove_agent old r)"
  have some: "old \<noteq> []" if "dget (rg_conn_by_agent r) g = Some old" for old
    using rg_invD(5) [OF assms] rg_invD(6) [OF assms that] conn_id_not_Nil by metis
  have inv: "rg_inv r1" using assms rg_remove_inv by (simp add: r1_def split: option.split)
  have fresh: "dget (rg_conn_by_agent r1) g = None"
    using rg_remove_gone [OF assms] some by (auto simp: r1_def split: option.split)
  show ?thesis
    using rg_add_inv [OF inv fresh, of "new_agent_record now g t (conn_id_of t g w) caps tags schemas md" t w
        "if schemas = [] then rg_view_registry r1 else map_option (register_agent_schemas g schemas) (rg_view_registry r1)" schemas]
    by (auto simp: rg_register_def r1_def new_agent_record_def Let_def split: option.split if_splits)
qed

text \<open>Changing what an agent reports, not who it is, keeps the tables in step.\<close>

lemma rg_update_inv:
  assumes inv: "rg_inv r" and ok: "dict_ok d" and dom: "\<And>c. din c d = din c (rg_agents_by_conn r)"
    and same: "\<And>c b. dget d c = Some b \<Longrightarrow> \<exists>a. dget (rg_agents_by_conn r) c = Some a \<and>
      ar_agent_id b = ar_agent_id a \<and> ar_tenant_id b = ar_tenant_id a \<and> ar_conn_id b = ar_conn_id a"
  shows "rg_inv (r\<lparr>rg_agents_by_conn := d\<rparr>)"
proof -
  have 1: "ar_conn_id b = c \<and> dget (rg_conn_by_agent r) (ar_agent_id b) = Some c \<and>
      (\<exists>w. dget (rg_connections r) c = Some w \<and> c = conn_id_of (ar_tenant_id b) (ar_agent_id b) w)"
    if "dget d c = Some b" for c b
    using same [OF that] rg_invD(4,5) [OF inv] by metis
  have 2: "\<exists>b. dget d c = Some b \<and> ar_agent_id b = g" if "dget (rg_conn_by_agent r) g = Some c" for g c
    using rg_invD(6) [OF inv that] dom [of c] same [of c] by (auto simp: din_def)
  show ?thesis using inv ok dom 1 2 unfolding rg_inv_def by simp
qed

lemma rg_heartbeat_inv [inv_intros]:
  assumes "rg_inv r" shows "rg_inv (snd (rg_heartbeat now c r))"
proof (cases "dget (rg_agents_by_conn r) c")
  case (Some a)
  then show ?thesis
    using rg_invD(1) [OF assms]
    by (auto simp: rg_heartbeat_def Let_def agent_touch_def din_def intro!: rg_update_inv [OF assms] split: if_splits)
qed (simp add: rg_heartbeat_def assms)

lemma rg_unregister_inv [inv_intros]: "rg_inv r \<Longrightarrow> rg_inv (snd (rg_unregister c r))"
  by (auto simp: rg_unregister_def intro: rg_remove_inv split: option.split)

lemma rg_drop_all_inv: "rg_inv r \<Longrightarrow> rg_inv (snd (rg_drop_all cs (shut, r)))"
  by (induction cs "(shut, r)" arbitrary: shut r rule: rg_drop_all.induct) (auto intro: rg_remove_inv)

lemma dget_remove [simp]:
  "dget (rg_agents_by_conn (rg_remove_agent c r)) d = (if d = c then None else dget (rg_agents_by_conn r) d)"
  "dget (rg_connections (rg_remove_agent c r)) d = (if d = c then None else dget (rg_connections r) d)"
  by (auto simp: rg_remove_agent_def split: option.split)

lemma rg_drop_all_agents:
  "dget (rg_agents_by_conn (snd (rg_drop_all cs (shut, r)))) d = (if d \<in> set cs then None else dget (rg_agents_by_conn r) d)"
  by (induction cs "(shut, r)" arbitrary: shut r rule: rg_drop_all.induct) auto

lemma rg_drop_all_shut:
  "distinct cs \<Longrightarrow> \<forall>c\<in>set cs. din c (rg_connections r) \<Longrightarrow>
     fst (rg_drop_all cs (shut, r)) = shut @ map (\<lambda>c. the (dget (rg_connections r) c)) cs"
proof (induction cs "(shut, r)" arbitrary: shut r rule: rg_drop_all.induct)
  case (2 c cs shut r)
  have "map (\<lambda>d. the (dget (rg_connections (rg_remove_agent c r)) d)) cs = map (\<lambda>d. the (dget (rg_connections r) d)) cs"
    using 2(2) by (auto intro!: map_cong)
  moreover obtain w where w: "dget (rg_connections r) c = Some w" using 2(3) by (auto simp: din_def)
  moreover have "\<forall>d\<in>set cs. din d (rg_connections (rg_remove_agent c r))" using 2(2,3) by (auto simp: din_def)
  ultimately show ?case using 2(1) 2(2) by simp
qed simp

lemma dget_marked:
  "dget (map (\<lambda>(c, a). (c, f c a)) d) k = map_option (f k) (dget d k)"
  by (induction d) auto

lemma rg_marked_inv:
  assumes "rg_inv r"
  shows "rg_inv (r\<lparr>rg_agents_by_conn := map (\<lambda>(c, a). (c, if P c then a\<lparr>ar_status := s\<rparr> else a)) (rg_agents_by_conn r)\<rparr>)"
proof (rule rg_update_inv [OF assms])
  show "dict_ok (map (\<lambda>(c, a). (c, if P c then a\<lparr>ar_status := s\<rparr> else a)) (rg_agents_by_conn r))"
    using rg_invD(1) [OF assms] by (simp add: dict_ok_def comp_def case_prod_beta)
qed (auto simp: din_def dget_marked split: if_splits)

lemma rg_cleanup_inv [inv_intros]: "rg_inv r \<Longrightarrow> rg_inv (snd (rg_cleanup now r))"
  by (simp add: rg_cleanup_def Let_def rg_drop_all_inv rg_marked_inv)

section \<open>Reachable registries\<close>

inductive rg_reachable :: "agent_registry \<Rightarrow> bool" where
  init: "rg_reachable (rg_init t None)"
| init_views: "rg_reachable (rg_init t (Some vr_init))"
| register: "rg_reachable r \<Longrightarrow> rg_reachable (snd (snd (rg_register now g t w caps tags schemas md r)))"
| unregister: "rg_reachable r \<Longrightarrow> rg_reachable (snd (rg_unregister c r))"
| heartbeat: "rg_reachable r \<Longrightarrow> rg_reachable (snd (rg_heartbeat now c r))"
| cleanup: "rg_reachable r \<Longrightarrow> rg_reachable (snd (rg_cleanup now r))"

lemma rg_reachable_inv: "rg_reachable r \<Longrightarrow> rg_inv r"
  by (induction rule: rg_reachable.induct) (blast intro: inv_intros)+

text \<open>C24: in every reachable registry the index by agent and the table by connection are inverse to each
  other, every connection has a socket and the id made of its tenant, agent and socket, and response
  schemas are kept for registered agents only.\<close>

theorem rg_tables_inverse:
  assumes "rg_reachable r"
  shows "(\<forall>c a. rg_get_agent_by_conn c r = Some a \<longrightarrow> rg_get_agent_by_id (ar_agent_id a) r = Some a \<and>
      (\<exists>w. rg_get_websocket c r = Some w \<and> rg_get_websocket_by_agent_id (ar_agent_id a) r = Some w \<and>
         c = conn_id_of (ar_tenant_id a) (ar_agent_id a) w)) \<and>
    (\<forall>g a. rg_get_agent_by_id g r = Some a \<longrightarrow> ar_agent_id a = g \<and> rg_get_agent_by_conn (ar_conn_id a) r = Some a) \<and>
    (\<forall>c. rg_get_websocket c r = None \<longleftrightarrow> rg_get_agent_by_conn c r = None) \<and>
    (\<forall>v g cap. rg_view_registry r = Some v \<longrightarrow> rg_get_agent_by_id g r = None \<longrightarrow> vr_get_schema g cap v = None)"
proof -
  have inv: "rg_inv r" using assms by (rule rg_reachable_inv)
  note I = rg_invD(4-9) [OF inv]
  have ne: "c \<noteq> []" if "dget (rg_agents_by_conn r) c = Some a" for c a
    using I(2) [OF that] conn_id_not_Nil by metis
  have 1: "rg_get_agent_by_id (ar_agent_id a) r = Some a \<and>
      (\<exists>w. rg_get_websocket c r = Some w \<and> rg_get_websocket_by_agent_id (ar_agent_id a) r = Some w \<and>
         c = conn_id_of (ar_tenant_id a) (ar_agent_id a) w)"
    if "rg_get_agent_by_conn c r = Some a" for c a
    using that I(1,2) [of c a] ne [of c a]
    by (auto simp: rg_get_agent_by_conn_def rg_get_agent_by_id_def rg_get_websocket_def
        rg_get_websocket_by_agent_id_def)
  have 2: "ar_agent_id a = g \<and> rg_get_agent_by_conn (ar_conn_id a) r = Some a"
    if "rg_get_agent_by_id g r = Some a" for g a
    using that I(1,3) by (fastforce simp: rg_get_agent_by_id_def rg_get_agent_by_conn_def split: option.splits if_splits)
  have 3: "vr_get_schema g cap v = None" if "rg_view_registry r = Some v" "rg_get_agent_by_id g r = None" for v g cap
  proof (rule ccontr)
    assume "vr_get_schema g cap v \<noteq> None"
    then have "din g (vr_schemas_by_agent v)" by (auto simp: vr_get_schema_def din_def split: option.splits)
    then have "din g (rg_conn_by_agent r)" by (rule I(6) [OF that(1)])
    then obtain c where c: "dget (rg_conn_by_agent r) g = Some c" by (auto simp: din_def)
    with I(3) ne that(2) show False by (force simp: rg_get_agent_by_id_def)
  qed
  have 4: "rg_get_websocket c r = None \<longleftrightarrow> rg_get_agent_by_conn c r = None" for c
    using I(4) [of c] by (auto simp: din_def rg_get_websocket_def rg_get_agent_by_conn_def)
  show ?thesis using 1 2 3 4 by blast
qed

definition ex_registry :: agent_registry where
  "ex_registry = snd (snd (rg_register 0 1 ''acme'' 7 [''translate''] [] [(''translate'', [])] [] (rg_init 30 (Some vr_init))))"

lemma ex_registry_reachable: "rg_reachable ex_registry"
  unfolding ex_registry_def by (intro rg_reachable.intros)

theorem rg_tables_inverse_witness:
  "rg_get_websocket_by_agent_id 1 ex_registry = Some 7 \<and>
   map_option ar_conn_id (rg_get_agent_by_id 1 ex_registry) = Some (conn_id_of ''acme'' 1 7)"
proof -
  have "rg_get_agent_by_conn (conn_id_of ''acme'' 1 7) ex_registry \<noteq> None" by code_simp
  then obtain a where a: "rg_get_agent_by_conn (conn_id_of ''acme'' 1 7) ex_registry = Some a" by auto
  note fact = conjunct1 [OF rg_tables_inverse [OF ex_registry_reachable], rule_format, OF a]
  then obtain w where
    w: "rg_get_agent_by_id (ar_agent_id a) ex_registry = Some a"
      "rg_get_websocket_by_agent_id (ar_agent_id a) ex_registry = Some w"
      "conn_id_of ''acme'' 1 7 = conn_id_of (ar_tenant_id a) (ar_agent_id a) w" by blast
  have "ar_agent_id a = 1" "w = 7" using conn_id_inject [OF w(3)] by simp_all
  moreover have "ar_conn_id a = conn_id_of ''acme'' 1 7"
    using rg_invD(4) [OF rg_reachable_inv [OF ex_registry_reachable]] a by (simp add: rg_get_agent_by_conn_def)
  ultimately show ?thesis using w by simp
qed

text \<open>Registering an agent makes it reachable by its id and by its new connection, closes and forgets its
  previous connection, and leaves every other agent as it was.\<close>

theorem rg_register_spec:
  assumes "rg_reachable r"
    and "rg_register now g t w caps tags schemas md r = (shut, (conn, a), r')"
  shows "rg_get_agent_by_id g r' = Some a \<and> rg_get_agent_by_conn conn r' = Some a \<and>
    rg_get_websocket_by_agent_id g r' = Some w \<and>
    shut = (case rg_get_websocket_by_agent_id g r of None \<Rightarrow> [] | Some old \<Rightarrow> [old]) \<and>
    (\<forall>c b. rg_get_agent_by_conn c r' = Some b \<longrightarrow> ar_agent_id b = g \<longrightarrow> c = conn) \<and>
    (\<forall>h. h \<noteq> g \<longrightarrow> rg_get_agent_by_id h r' = rg_get_agent_by_id h r)"
proof -
  have inv: "rg_inv r" using assms(1) by (rule rg_reachable_inv)
  have inv': "rg_inv r'" using rg_register_inv [OF inv, of now g t w caps tags schemas md] assms(2) by simp
  have ne: "old \<noteq> []" if "dget (rg_conn_by_agent r) h = Some old" for h old
    using rg_invD(6) [OF inv that] rg_invD(5) [OF inv] conn_id_not_Nil by metis
  have conn: "conn = conn_id_of t g w" "dget (rg_agents_by_conn r') conn = Some a"
      "dget (rg_conn_by_agent r') g = Some conn" "dget (rg_connections r') conn = Some w"
    using assms(2) by (auto simp: rg_register_def Let_def split: option.splits if_splits)
  have old: "shut = (case rg_get_websocket_by_agent_id g r of None \<Rightarrow> [] | Some old \<Rightarrow> [old])"
    using assms(2) ne
    by (auto simp: rg_register_def Let_def rg_get_websocket_by_agent_id_def split: option.splits if_splits)
  have only: "c = conn" if "dget (rg_agents_by_conn r') c = Some b" "ar_agent_id b = g" for c b
    using rg_invD(4) [OF inv' that(1)] that(2) conn(3) by simp
  have other: "rg_get_agent_by_id h r' = rg_get_agent_by_id h r" if "h \<noteq> g" for h
  proof -
    have ch: "c \<noteq> conn_id_of t g w" "dget (rg_conn_by_agent r) g \<noteq> Some c"
      if "dget (rg_conn_by_agent r) h = Some c" for c
      using rg_invD(6) [OF inv that] rg_invD(5) [OF inv] rg_invD(6) [OF inv, of g c] \<open>h \<noteq> g\<close> conn_id_inject
      by (metis option.inject)+
    have ag: "ar_agent_id b = g" if "dget (rg_conn_by_agent r) g = Some c" "dget (rg_agents_by_conn r) c = Some b" for c b
      using rg_invD(6) [OF inv that(1)] that(2) by auto
    define r1 where "r1 = (case dget (rg_conn_by_agent r) g of None \<Rightarrow> r
        | Some old \<Rightarrow> if old = [] then r else rg_remove_agent old r)"
    have r': "rg_agents_by_conn r' = dset (conn_id_of t g w) a (rg_agents_by_conn r1)"
      "rg_conn_by_agent r' = dset g (conn_id_of t g w) (rg_conn_by_agent r1)"
      using assms(2) by (auto simp: rg_register_def Let_def r1_def split: option.splits if_splits)
    have "dget (rg_conn_by_agent r1) h = dget (rg_conn_by_agent r) h"
      using ag \<open>h \<noteq> g\<close> by (auto simp: r1_def rg_remove_agent_def Let_def split: option.split)
    moreover have "dget (rg_agents_by_conn r1) c = dget (rg_agents_by_conn r) c" if "dget (rg_conn_by_agent r) h = Some c" for c
      using ch(2) [OF that] by (auto simp: r1_def rg_remove_agent_def Let_def split: option.split)
    ultimately show ?thesis
      using \<open>h \<noteq> g\<close> ch(1) by (cases "dget (rg_conn_by_agent r) h") (simp_all add: rg_get_agent_by_id_def r')
  qed
  show ?thesis
    using conn old only other
    by (auto simp: rg_get_agent_by_id_def rg_get_agent_by_conn_def rg_get_websocket_by_agent_id_def)
qed

theorem rg_register_spec_witness:
  "fst (rg_register 9 1 ''acme'' 8 [] [] [] [] ex_registry) = [7] \<and>
   rg_get_websocket_by_agent_id 1 (snd (snd (rg_register 9 1 ''acme'' 8 [] [] [] [] ex_registry))) = Some 8"
proof -
  obtain shut conn a r' where run: "rg_register 9 1 ''acme'' 8 [] [] [] [] ex_registry = (shut, (conn, a), r')"
    by (metis prod.collapse)
  have "rg_get_websocket_by_agent_id 1 ex_registry = Some 7" by code_simp
  then show ?thesis using rg_register_spec [OF ex_registry_reachable run] run by simp
qed

text \<open>C35: \<open>find_candidates\<close> returns distinct connections' agents that satisfy the matching rules, sorted by
  load, at most \<open>max_candidates\<close> of them, and leaves none out that has less load than one returned
  unless the limit is not reached, in which case it returns them all.\<close>

theorem rg_candidates_spec:
  assumes "0 \<le> n"
  shows "let cs = rg_find_candidates t cap tags ex n r;
             ok = filter (is_candidate t cap tags ex) (dvalues (rg_agents_by_conn r)) in
    sorted (map ar_load cs) \<and> mset cs \<subseteq># mset ok \<and> int (length cs) = min n (int (length ok)) \<and>
    (\<forall>a\<in>#mset ok - mset cs. \<forall>c\<in>set cs. ar_load c \<le> ar_load a)"
proof -
  define ok where "ok = filter (is_candidate t cap tags ex) (dvalues (rg_agents_by_conn r))"
  define so where "so = sort_key ar_load ok"
  define cs where "cs = take (nat n) so"
  have cs: "rg_find_candidates t cap tags ex n r = cs"
    using assms by (simp add: rg_find_candidates_def py_first_def cs_def so_def ok_def)
  have so: "sorted (map ar_load so)" "mset so = mset ok" by (simp_all add: so_def)
  have split: "so = cs @ drop (nat n) so" by (simp add: cs_def)
  have rest: "mset ok - mset cs = mset (drop (nat n) so)"
    using arg_cong [OF split, of mset] so(2) by simp
  have "sorted (map ar_load (cs @ drop (nat n) so))" using so(1) split by simp
  then have "sorted (map ar_load cs)" "\<forall>a\<in>set (drop (nat n) so). \<forall>c\<in>set cs. ar_load c \<le> ar_load a"
    by (auto simp: sorted_append)
  moreover have "mset cs \<subseteq># mset ok"
    using arg_cong [OF split, of mset] so(2) by (metis mset_append mset_subset_eq_add_left)
  moreover have "length so = length ok" by (simp add: so_def)
  then have "int (length cs) = min n (int (length ok))" using assms by (auto simp: cs_def)
  ultimately show ?thesis unfolding cs by (simp add: Let_def rest flip: ok_def)
qed

theorem rg_candidates_spec_witness:
  "length (rg_find_candidates ''acme'' (Some ''translate'') [] (Some 2) 3 ex_registry) = 1 \<and>
   rg_find_candidates ''acme'' (Some ''translate'') [] (Some 1) 3 ex_registry = []"
proof -
  have "length (filter (is_candidate ''acme'' (Some ''translate'') [] (Some 2)) (dvalues (rg_agents_by_conn ex_registry))) = 1"
    "filter (is_candidate ''acme'' (Some ''translate'') [] (Some 1)) (dvalues (rg_agents_by_conn ex_registry)) = []"
    by code_simp+
  then show ?thesis
    using rg_candidates_spec [of 3 "''acme''" "Some ''translate''" "[]" "Some 2" ex_registry]
      rg_candidates_spec [of 3 "''acme''" "Some ''translate''" "[]" "Some 1" ex_registry]
    by (simp add: Let_def)
qed

text \<open>A clean-up removes exactly the agents that have been silent for longer than the timeout (and were not
  offline already), closes exactly their sockets, and a heartbeat in time keeps an agent registered.\<close>

theorem rg_cleanup_spec:
  assumes "rg_reachable r" and "rg_cleanup now r = (shut, r')"
  shows "(\<forall>c. rg_get_agent_by_conn c r' =
      (case rg_get_agent_by_conn c r of
         None \<Rightarrow> None
       | Some a \<Rightarrow> if \<not> agent_is_alive now (rg_heartbeat_timeout r) a \<and> ar_status a \<noteq> AGENT_OFFLINE
           then None else Some a)) \<and>
    set shut = {w. \<exists>c a. rg_get_agent_by_conn c r = Some a \<and> rg_get_agent_by_conn c r' = None \<and>
      rg_get_websocket c r = Some w}"
proof -
  have inv: "rg_inv r" using assms(1) by (rule rg_reachable_inv)
  let ?gone = "\<lambda>a. \<not> agent_is_alive now (rg_heartbeat_timeout r) a \<and> ar_status a \<noteq> AGENT_OFFLINE"
  let ?m = "r\<lparr>rg_agents_by_conn := map (\<lambda>(c, a). (c, if c \<in> set (rg_dead now r) then a\<lparr>ar_status := AGENT_OFFLINE\<rparr> else a))
      (rg_agents_by_conn r)\<rparr>"
  have dead: "c \<in> set (rg_dead now r) \<longleftrightarrow> (\<exists>a. dget (rg_agents_by_conn r) c = Some a \<and> ?gone a)" for c
    by (force simp: rg_dead_def image_iff dict_mem_iff [OF rg_invD(1) [OF inv], symmetric])
  have dist: "distinct (rg_dead now r)"
    using rg_invD(1) [OF inv] by (simp add: rg_dead_def dict_ok_def distinct_map_filter)
  have agents: "dget (rg_agents_by_conn r') c = (if c \<in> set (rg_dead now r) then None else dget (rg_agents_by_conn r) c)" for c
    using assms(2) rg_drop_all_agents [of "rg_dead now r" "[]" ?m c]
    by (cases "dget (rg_agents_by_conn r) c") (auto simp: rg_cleanup_def Let_def dget_marked)
  have conns: "din c (rg_connections r)" if "c \<in> set (rg_dead now r)" for c
    using that dead rg_invD(7) [OF inv, of c] by (auto simp: din_def)
  have shut: "shut = map (\<lambda>c. the (dget (rg_connections r) c)) (rg_dead now r)"
    using assms(2) rg_drop_all_shut [OF dist, of ?m "[]"] conns by (simp add: rg_cleanup_def Let_def)
  have "rg_get_agent_by_conn c r' = (case rg_get_agent_by_conn c r of None \<Rightarrow> None
       | Some a \<Rightarrow> if ?gone a then None else Some a)" for c
    using agents [of c] dead [of c] by (auto simp: rg_get_agent_by_conn_def split: option.split)
  moreover have "set shut = {w. \<exists>c a. rg_get_agent_by_conn c r = Some a \<and> rg_get_agent_by_conn c r' = None \<and>
      rg_get_websocket c r = Some w}"
  proof -
    have "set shut = {w. \<exists>c\<in>set (rg_dead now r). dget (rg_connections r) c = Some w}"
      using conns unfolding shut by (force simp: din_def)
    moreover have "c \<in> set (rg_dead now r) \<longleftrightarrow>
        (\<exists>a. dget (rg_agents_by_conn r) c = Some a \<and> dget (rg_agents_by_conn r') c = None)" for c
      using agents [of c] dead [of c] by auto
    ultimately show ?thesis unfolding rg_get_agent_by_conn_def rg_get_websocket_def by blast
  qed
  ultimately show ?thesis by blast
qed

theorem rg_cleanup_spec_witness:
  "rg_get_agent_by_conn (conn_id_of ''acme'' 1 7) (snd (rg_cleanup 40000000 ex_registry)) = None \<and>
   rg_get_agent_by_conn (conn_id_of ''acme'' 1 7) (snd (rg_cleanup 20000000 ex_registry)) \<noteq> None"
proof -
  have "map_option (\<lambda>a. (agent_is_alive 40000000 (rg_heartbeat_timeout ex_registry) a,
      agent_is_alive 20000000 (rg_heartbeat_timeout ex_registry) a, ar_status a))
      (rg_get_agent_by_conn (conn_id_of ''acme'' 1 7) ex_registry) = Some (False, True, AGENT_ONLINE)" by code_simp
  then show ?thesis
    using rg_cleanup_spec [OF ex_registry_reachable prod.collapse [symmetric], of 40000000]
      rg_cleanup_spec [OF ex_registry_reachable prod.collapse [symmetric], of 20000000] by auto
qed

end
