(* ===== verification/Semantic_Matcher.thy ===== *)
theory Semantic_Matcher
  imports Agent_Registry "HOL-Library.Sublist"
begin

text \<open>
  \<open>src/routing/semantic_matcher.py\<close>: ranking of agents by a language model, with a cache. The model is a
  parameter \<open>invoke\<close> of the definitions, from the system and the user message to a reply, about which
  nothing is assumed; \<open>hash_ids\<close> is \<open>hash\<close> of a tuple of ids and \<open>str_of\<close> is \<open>str\<close> of a value. The
  agents are the registry's own objects: the scores written into their metadata are returned.
\<close>

record match_result =
  mr_agent_id :: string
  mr_score :: rat
  mr_matched_capability :: string
  mr_reasoning :: string
  mr_confidence :: rat

text \<open>What invoking the model can do: raise, answer something else, or answer a list of results.\<close>

datatype llm_reply = LlmRaised string | LlmOther | LlmResults "match_result list"

type_synonym llm = "string \<Rightarrow> string \<Rightarrow> llm_reply"

record semantic_matcher =
  sx_cache_ttl :: int
  sx_ready :: bool
  sx_cache :: "(string, match_result list \<times> datetime) pydict"

definition sx_init :: "int \<Rightarrow> semantic_matcher" where
  "sx_init ttl_seconds = \<lparr>sx_cache_ttl = td_sec ttl_seconds, sx_ready = False, sx_cache = []\<rparr>"

text \<open>\<open>created\<close> says whether creating the model succeeds.\<close>

definition sx_init_agent :: "bool \<Rightarrow> semantic_matcher \<Rightarrow> bool \<times> semantic_matcher" where
  "sx_init_agent created m =
     (if sx_ready m then (True, m) else if created then (True, m\<lparr>sx_ready := True\<rparr>) else (False, m))"

fun join_with :: "string \<Rightarrow> string list \<Rightarrow> string" where
  "join_with sep [] = []"
| "join_with sep [s] = s"
| "join_with sep (s # t # ss) = s @ sep @ join_with sep (t # ss)"

abbreviation newline :: string where
  "newline \<equiv> [CHR 10]"

definition describe_agent :: "agent_record \<Rightarrow> string" where
  "describe_agent a =
     (let caps = (if ar_capabilities a \<noteq> [] then join_with '', '' (ar_capabilities a) else ''none listed'')
      in ''Agent '' @ [CHR 39] @ uuid_str (ar_agent_id a) @ [CHR 39] @ '':'' @ newline @
         ''  Description: '' @ (if str_true (ar_description a) then the (ar_description a) else ''N/A'') @ newline @
         ''  Capabilities: '' @ caps)"

definition sx_build_user_message :: "string \<Rightarrow> agent_record list \<Rightarrow> string" where
  "sx_build_user_message intent agents =
     ''Intent: '' @ intent @ newline @ newline @ ''Available Agents:'' @ newline @
     join_with (newline @ newline) (map describe_agent agents) @ newline @ newline @
     ''Evaluate each agent'' @ [CHR 39] @ ''s match to the intent.''"

definition sx_system_message :: string where
  "sx_system_message =
     ''You are an expert at matching user intents to agent capabilities. '' @
     ''Given a user'' @ [CHR 39] @ ''s intent and a list of agents with their capabilities, '' @
     ''evaluate each agent and provide a structured assessment.'' @ newline @ newline @
     ''For each agent, provide:'' @ newline @
     ''- agent_id: The agent'' @ [CHR 39] @ ''s ID'' @ newline @
     ''- score: 0.0 to 1.0, where 1.0 is perfect match'' @ newline @
     ''- matched_capability: The specific capability that matches'' @ newline @
     ''- reasoning: Brief explanation of the match quality'' @ newline @
     ''- confidence: 0.0 to 1.0, your confidence in this assessment'' @ newline @ newline @
     ''Return assessments for ALL agents provided.''"

definition sx_call_agent ::
  "llm \<Rightarrow> bool \<Rightarrow> string \<Rightarrow> agent_record list \<Rightarrow> semantic_matcher \<Rightarrow> (string + match_result list) \<times> semantic_matcher" where
  "sx_call_agent invoke created intent agents m =
     (let (ok, m) = sx_init_agent created m in
      if \<not> ok then (Inl ''Failed to initialize LLM'', m)
      else case invoke sx_system_message (sx_build_user_message intent agents) of
          LlmRaised e \<Rightarrow> (Inl e, m)
        | LlmOther \<Rightarrow> (Inr [], m)
        | LlmResults rs \<Rightarrow> (Inr (filter (\<lambda>r. mr_agent_id r \<in> set (map (\<lambda>a. uuid_str (ar_agent_id a)) agents)) rs), m))"

definition sx_get_cache_key :: "(uuid list \<Rightarrow> int) \<Rightarrow> string \<Rightarrow> agent_record list \<Rightarrow> string" where
  "sx_get_cache_key hash_ids intent agents = intent @ '':'' @ int_str (hash_ids (sort (map ar_agent_id agents)))"

text \<open>A result that is too old is dropped from the cache.\<close>

definition sx_get_cached_results ::
  "datetime \<Rightarrow> string \<Rightarrow> semantic_matcher \<Rightarrow> match_result list option \<times> semantic_matcher" where
  "sx_get_cached_results now key m =
     (case dget (sx_cache m) key of
        None \<Rightarrow> (None, m)
      | Some (results, stamp) \<Rightarrow>
          if now - stamp < sx_cache_ttl m then (Some results, m)
          else (None, m\<lparr>sx_cache := dpop key (sx_cache m)\<rparr>))"

definition sx_cache_results :: "datetime \<Rightarrow> string \<Rightarrow> match_result list \<Rightarrow> semantic_matcher \<Rightarrow> semantic_matcher" where
  "sx_cache_results now key results m = m\<lparr>sx_cache := dset key (results, now) (sx_cache m)\<rparr>"

text \<open>
  The loop over the results: the score of an agent is its last one, an agent is listed once per result that
  reaches the threshold. The agents are named by their id in \<open>agent_map\<close>.
\<close>

fun rank_loop ::
  "(string, agent_record) pydict \<Rightarrow> rat \<Rightarrow> match_result list \<Rightarrow> (string, rat) pydict \<times> string list \<Rightarrow>
     (string, rat) pydict \<times> string list" where
  "rank_loop agent_map threshold [] (scores, ranked) = (scores, ranked)"
| "rank_loop agent_map threshold (r # rs) (scores, ranked) =
     (if din (mr_agent_id r) agent_map then
        rank_loop agent_map threshold rs
          (dset (mr_agent_id r) (mr_score r) scores,
           if threshold \<le> mr_score r then ranked @ [mr_agent_id r] else ranked)
      else rank_loop agent_map threshold rs (scores, ranked))"

definition agent_map_of :: "agent_record list \<Rightarrow> (string, agent_record) pydict" where
  "agent_map_of agents = foldl (\<lambda>d a. dset (uuid_str (ar_agent_id a)) a d) [] agents"

definition with_score :: "(string, rat) pydict \<Rightarrow> agent_record \<Rightarrow> agent_record" where
  "with_score scores a =
     (case dget scores (uuid_str (ar_agent_id a)) of
        None \<Rightarrow> a
      | Some x \<Rightarrow> a\<lparr>ar_metadata := dset ''_match_score'' (JFloat x) (ar_metadata a)\<rparr>)"

text \<open>The ranking by given results: the agents and the scores written into their metadata.\<close>

definition sx_rank :: "agent_record list \<Rightarrow> int \<Rightarrow> rat \<Rightarrow> match_result list \<Rightarrow> agent_record list \<times> (string, rat) pydict" where
  "sx_rank agents top_k threshold rs =
     (let agent_map = agent_map_of agents;
          (scores, ranked) = rank_loop agent_map threshold rs ([], []);
          order = sort_key (\<lambda>i. - dget_or scores i 0) ranked
      in (map (\<lambda>i. with_score scores (the (dget agent_map i))) (py_first top_k order), scores))"

text \<open>\<open>rank_agents\<close> answers the agents and the scores it wrote into the metadata.\<close>

definition sx_rank_agents ::
  "(uuid list \<Rightarrow> int) \<Rightarrow> llm \<Rightarrow> bool \<Rightarrow> datetime \<Rightarrow> string \<Rightarrow> agent_record list \<Rightarrow> int \<Rightarrow> rat \<Rightarrow> semantic_matcher \<Rightarrow>
     (agent_record list \<times> (string, rat) pydict) \<times> semantic_matcher" where
  "sx_rank_agents hash_ids invoke created now intent agents top_k threshold m =
     (if agents = [] then (([], []), m)
      else let key = sx_get_cache_key hash_ids intent agents;
               (cached, m) = sx_get_cached_results now key m;
               (results, m) =
                 (case cached of
                    Some rs \<Rightarrow> (Some rs, m)
                  | None \<Rightarrow>
                      (case sx_call_agent invoke created intent agents m of
                         (Inl _, m) \<Rightarrow> (None, m)
                       | (Inr rs, m) \<Rightarrow> (Some rs, sx_cache_results now key rs m)))
           in case results of
                None \<Rightarrow> (([], []), m)
              | Some rs \<Rightarrow> (sx_rank agents top_k threshold rs, m))"

section \<open>What a ranking can contain\<close>

lemma with_score_simps [simp]:
  "ar_agent_id (with_score sc a) = ar_agent_id a" "ar_tenant_id (with_score sc a) = ar_tenant_id a"
  "ar_status (with_score sc a) = ar_status a" "ar_conn_id (with_score sc a) = ar_conn_id a"
  "ar_capabilities (with_score sc a) = ar_capabilities a"
  by (simp_all add: with_score_def split: option.split)

lemma agent_map_of_some: "dget (agent_map_of agents) i = Some a \<Longrightarrow> a \<in> set agents \<and> uuid_str (ar_agent_id a) = i"
proof -
  have "dget (foldl (\<lambda>d a. dset (uuid_str (ar_agent_id a)) a d) d agents) i = Some a \<Longrightarrow>
      dget d i = Some a \<or> a \<in> set agents \<and> uuid_str (ar_agent_id a) = i" for d
    by (induction agents arbitrary: d) (fastforce split: if_splits)+
  from this [of "[]"] show "dget (agent_map_of agents) i = Some a \<Longrightarrow> ?thesis" by (simp add: agent_map_of_def)
qed

lemma agent_map_of_in: "a \<in> set agents \<Longrightarrow> din (uuid_str (ar_agent_id a)) (agent_map_of agents)"
proof -
  have keep: "din i d \<Longrightarrow> din i (foldl (\<lambda>d a. dset (uuid_str (ar_agent_id a)) a d) d agents)" for i d agents
    by (induction agents arbitrary: d) simp_all
  have "a \<in> set agents \<Longrightarrow> din (uuid_str (ar_agent_id a)) (foldl (\<lambda>d a. dset (uuid_str (ar_agent_id a)) a d) d agents)" for d
    by (induction agents arbitrary: d) (auto intro: keep)
  then show "a \<in> set agents \<Longrightarrow> ?thesis" by (simp add: agent_map_of_def)
qed

text \<open>Who is ranked and with which score, given the results in order.\<close>

definition last_score :: "match_result list \<Rightarrow> string \<Rightarrow> rat option" where
  "last_score rs i = map_option mr_score (find (\<lambda>r. mr_agent_id r = i) (rev rs))"

lemma last_score_snoc: "last_score (rs @ [r]) i = (if mr_agent_id r = i then Some (mr_score r) else last_score rs i)"
  by (simp add: last_score_def)

lemma rank_loop_append:
  "rank_loop am th (rs @ rs') sr = rank_loop am th rs' (rank_loop am th rs sr)"
  by (induction rs arbitrary: sr) (auto split: prod.splits)

lemma rank_loop_spec:
  "dget (fst (rank_loop am th rs ([], []))) i = (if din i am then last_score rs i else None) \<and>
   snd (rank_loop am th rs ([], [])) = map mr_agent_id (filter (\<lambda>r. din (mr_agent_id r) am \<and> th \<le> mr_score r) rs)"
proof (induction rs rule: rev_induct)
  case Nil
  then show ?case by (simp add: last_score_def)
next
  case (snoc r rs)
  obtain sc ranked where l: "rank_loop am th rs ([], []) = (sc, ranked)" by fastforce
  then show ?case using snoc by (auto simp: rank_loop_append last_score_snoc)
qed

definition score_of :: "(string, rat) pydict \<Rightarrow> agent_record \<Rightarrow> rat" where
  "score_of scores a = dget_or scores (uuid_str (ar_agent_id a)) 0"

lemma sx_rank_spec:
  assumes "sx_rank agents k th rs = (ranked, scores)"
  defines "am \<equiv> agent_map_of agents"
  defines "ids \<equiv> map mr_agent_id (filter (\<lambda>r. din (mr_agent_id r) am \<and> th \<le> mr_score r) rs)"
  shows "ranked = map (\<lambda>i. with_score scores (the (dget am i))) (py_first k (sort_key (\<lambda>i. - dget_or scores i 0) ids))"
    and "dget scores i = (if din i am then last_score rs i else None)"
proof -
  obtain sc ids' where l: "rank_loop am th rs ([], []) = (sc, ids')" by fastforce
  have sp: "dget sc i = (if din i am then last_score rs i else None)" "ids' = ids" for i
    using rank_loop_spec [of am th rs i] by (simp_all add: l ids_def)
  have "scores = sc" "ranked = map (\<lambda>i. with_score sc (the (dget am i))) (py_first k (sort_key (\<lambda>i. - dget_or sc i 0) ids'))"
    using assms(1) by (auto simp: sx_rank_def l simp flip: am_def)
  then show "ranked = map (\<lambda>i. with_score scores (the (dget am i))) (py_first k (sort_key (\<lambda>i. - dget_or scores i 0) ids))"
    and "dget scores i = (if din i am then last_score rs i else None)"
    using sp by simp_all
qed

lemma ranked_member:
  assumes "i \<in> set (map mr_agent_id (filter (\<lambda>r. din (mr_agent_id r) (agent_map_of agents) \<and> th \<le> mr_score r) rs))"
  shows "the (dget (agent_map_of agents) i) \<in> set agents \<and> uuid_str (ar_agent_id (the (dget (agent_map_of agents) i))) = i \<and>
    last_score rs i \<noteq> None"
proof -
  obtain r a where r: "r \<in> set rs" "mr_agent_id r = i" "dget (agent_map_of agents) i = Some a"
    using assms by (auto simp: din_def)
  moreover have "last_score rs i \<noteq> None" using r by (auto simp: last_score_def find_None_iff)
  ultimately show ?thesis using agent_map_of_some [OF r(3)] by simp
qed

lemma sx_rank_members:
  assumes "sx_rank agents k th rs = (ranked, scores)"
  shows "a \<in> set ranked \<Longrightarrow> \<exists>b\<in>set agents. a = with_score scores b \<and> dget scores (uuid_str (ar_agent_id b)) \<noteq> None"
    and "sorted (map (\<lambda>a. - score_of scores a) ranked)"
    and "0 \<le> k \<Longrightarrow> int (length ranked) \<le> k"
proof -
  define ids where "ids = map mr_agent_id (filter (\<lambda>r. din (mr_agent_id r) (agent_map_of agents) \<and> th \<le> mr_score r) rs)"
  note spec = sx_rank_spec [OF assms, folded ids_def]
  let ?order = "sort_key (\<lambda>i. - dget_or scores i 0) ids"
  have mem: "the (dget (agent_map_of agents) i) \<in> set agents \<and> uuid_str (ar_agent_id (the (dget (agent_map_of agents) i))) = i \<and>
      last_score rs i \<noteq> None \<and> din i (agent_map_of agents)" if "i \<in> set (py_first k ?order)" for i
    using that set_py_first [of k ?order] ranked_member [of i agents th rs] by (auto simp: ids_def)
  show "a \<in> set ranked \<Longrightarrow> \<exists>b\<in>set agents. a = with_score scores b \<and> dget scores (uuid_str (ar_agent_id b)) \<noteq> None"
    unfolding spec(1) using mem by (fastforce simp: spec(2))
  have "map (\<lambda>a. - score_of scores a) ranked = map (\<lambda>i. - dget_or scores i 0) (py_first k ?order)"
    unfolding spec(1) using mem by (auto simp: score_of_def)
  also have "sorted \<dots>"
    by (simp add: py_first_def flip: take_map)
  finally show "sorted (map (\<lambda>a. - score_of scores a) ranked)" .
  show "0 \<le> k \<Longrightarrow> int (length ranked) \<le> k"
    unfolding spec(1) by (simp add: length_py_first)
qed

text \<open>When no agent is rated twice the ranking is the true selection of the best.\<close>

lemma last_score_distinct:
  "distinct (map mr_agent_id rs) \<Longrightarrow> r \<in> set rs \<Longrightarrow> last_score rs (mr_agent_id r) = Some (mr_score r)"
proof -
  assume d: "distinct (map mr_agent_id rs)" and r: "r \<in> set rs"
  have "find (\<lambda>q. mr_agent_id q = mr_agent_id r) (rev rs) = Some r"
  proof -
    obtain q where q: "find (\<lambda>q. mr_agent_id q = mr_agent_id r) (rev rs) = Some q"
      using r by (cases "find (\<lambda>q. mr_agent_id q = mr_agent_id r) (rev rs)") (auto simp: find_None_iff)
    then have "q \<in> set (rev rs)" "mr_agent_id q = mr_agent_id r" using find_SomeD by fast+
    then have "q = r" using d r by (auto simp: distinct_map inj_on_def)
    then show ?thesis using q by simp
  qed
  then show ?thesis by (simp add: last_score_def)
qed

lemma sx_rank_complete:
  assumes rank: "sx_rank agents k th rs = (ranked, scores)" and d: "distinct (map mr_agent_id rs)" and k: "0 \<le> k"
  shows "distinct (map ar_agent_id ranked)" and "a \<in> set ranked \<Longrightarrow> th \<le> score_of scores a"
    and "b \<in> set agents \<Longrightarrow> last_score rs (uuid_str (ar_agent_id b)) = Some x \<Longrightarrow> th \<le> x \<Longrightarrow>
      ar_agent_id b \<in> ar_agent_id ` set ranked \<or> int (length ranked) = k \<and> (\<forall>a\<in>set ranked. x \<le> score_of scores a)"
proof -
  define ids where "ids = map mr_agent_id (filter (\<lambda>r. din (mr_agent_id r) (agent_map_of agents) \<and> th \<le> mr_score r) rs)"
  note spec = sx_rank_spec [OF rank, folded ids_def]
  let ?f = "\<lambda>i. - dget_or scores i 0"
  let ?order = "sort_key ?f ids"
  have mem: "the (dget (agent_map_of agents) i) \<in> set agents \<and> uuid_str (ar_agent_id (the (dget (agent_map_of agents) i))) = i \<and>
      din i (agent_map_of agents)" if "i \<in> set ids" for i
    using that ranked_member [of i agents th rs] by (auto simp: ids_def)
  have dids: "distinct ids" using d by (simp add: ids_def distinct_map_filter)
  have sel: "py_first k ?order = take (nat k) ?order" using k by (simp add: py_first_def)
  have sub: "set (take (nat k) ?order) \<subseteq> set ids" using set_take_subset [of "nat k" ?order] by simp
  have ids_ranked: "map (\<lambda>a. uuid_str (ar_agent_id a)) ranked = take (nat k) ?order"
    unfolding spec(1) sel using mem sub by (simp add: map_idI subset_iff)
  have "distinct (map (\<lambda>a. uuid_str (ar_agent_id a)) ranked)" unfolding ids_ranked using dids by simp
  then show "distinct (map ar_agent_id ranked)" by (auto simp: distinct_map inj_on_def)
  have score: "dget_or scores i 0 = (case last_score rs i of Some x \<Rightarrow> x | None \<Rightarrow> 0) \<and> th \<le> dget_or scores i 0" if i: "i \<in> set ids" for i
  proof -
    obtain r where r: "r \<in> set rs" "mr_agent_id r = i" "th \<le> mr_score r" using i by (auto simp: ids_def)
    then show ?thesis using last_score_distinct [OF d r(1)] mem [OF i] by (simp add: dget_or_def spec(2))
  qed
  have in_ids: "uuid_str (ar_agent_id a) \<in> set (take (nat k) ?order)" if "a \<in> set ranked" for a
    using that by (simp flip: ids_ranked)
  show "a \<in> set ranked \<Longrightarrow> th \<le> score_of scores a"
    using in_ids [of a] sub score by (auto simp: score_of_def)
  show "ar_agent_id b \<in> ar_agent_id ` set ranked \<or> int (length ranked) = k \<and> (\<forall>a\<in>set ranked. x \<le> score_of scores a)"
    if b: "b \<in> set agents" and x: "last_score rs (uuid_str (ar_agent_id b)) = Some x" "th \<le> x"
  proof -
    let ?i = "uuid_str (ar_agent_id b)"
    have "\<exists>r\<in>set rs. mr_agent_id r = ?i \<and> mr_score r = x"
      using x(1) find_SomeD by (fastforce simp: last_score_def)
    then have i: "?i \<in> set ids" using x(2) agent_map_of_in [OF b] by (force simp: ids_def)
    then have "?i \<in> set (take (nat k) ?order @ drop (nat k) ?order)" by simp
    then consider "?i \<in> set (take (nat k) ?order)" | "?i \<in> set (drop (nat k) ?order)" by (metis Un_iff set_append)
    then show ?thesis
    proof cases
      case 1
      then have "?i \<in> (\<lambda>a. uuid_str (ar_agent_id a)) ` set ranked" by (simp flip: ids_ranked)
      then show ?thesis by auto
    next
      case 2
      have "sorted (map ?f (take (nat k) ?order) @ map ?f (drop (nat k) ?order))"
        by (simp flip: map_append)
      then have less: "?f j \<le> ?f ?i" if "j \<in> set (take (nat k) ?order)" for j
        using 2 that by (auto simp: sorted_append)
      have "nat k < length ?order" using 2 by (metis drop_all empty_iff linorder_not_le list.set(1))
      then have "int (length (take (nat k) ?order)) = k" using k by simp
      then have "int (length ranked) = k" by (metis ids_ranked length_map)
      moreover have "x \<le> score_of scores a" if "a \<in> set ranked" for a
        using less [OF in_ids [OF that]] score [OF i] x(1) by (simp add: score_of_def)
      ultimately show ?thesis by blast
    qed
  qed
qed

lemma rank_agents_members:
  assumes "0 \<le> top_k"
    and "sx_rank_agents hash_ids invoke created now intent agents top_k threshold m = ((ranked, scores), m')"
  shows "int (length ranked) \<le> top_k" and "sorted (map (\<lambda>a. - score_of scores a) ranked)"
    and "\<forall>a\<in>set ranked. \<exists>b\<in>set agents. a = with_score scores b"
proof -
  have "ranked = [] \<or> (\<exists>qs. sx_rank agents top_k threshold qs = (ranked, scores))"
    using assms(2) by (auto simp: sx_rank_agents_def Let_def split: if_splits prod.splits option.splits sum.splits)
  then have "int (length ranked) \<le> top_k \<and> sorted (map (\<lambda>a. - score_of scores a) ranked) \<and>
      (\<forall>a\<in>set ranked. \<exists>b\<in>set agents. a = with_score scores b)"
    using assms(1) sx_rank_members by fastforce
  then show "int (length ranked) \<le> top_k" "sorted (map (\<lambda>a. - score_of scores a) ranked)"
    "\<forall>a\<in>set ranked. \<exists>b\<in>set agents. a = with_score scores b" by blast+
qed

text \<open>C39: whatever the language model and the cache answer, a ranking lists only agents it was given, at most
  \<open>top_k\<close> of them and by descending score; and when the results rate no agent twice, none is listed
  twice, all reach the threshold, and an agent above the threshold that is left out is beaten by
  \<open>top_k\<close> others.\<close>

theorem rank_agents_sound:
  assumes "0 \<le> top_k"
    and "sx_rank_agents hash_ids invoke created now intent agents top_k threshold m = ((ranked, scores), m')"
    and "sx_rank agents top_k threshold rs = (ranked2, scores2)" and "distinct (map mr_agent_id rs)"
  shows "int (length ranked) \<le> top_k \<and> sorted (map (\<lambda>a. - score_of scores a) ranked) \<and>
    (\<forall>a\<in>set ranked. \<exists>b\<in>set agents. a = with_score scores b) \<and>
    distinct (map ar_agent_id ranked2) \<and> (\<forall>a\<in>set ranked2. threshold \<le> score_of scores2 a) \<and>
    (\<forall>b\<in>set agents. \<forall>x. last_score rs (uuid_str (ar_agent_id b)) = Some x \<longrightarrow> threshold \<le> x \<longrightarrow>
       ar_agent_id b \<in> ar_agent_id ` set ranked2 \<or>
       int (length ranked2) = top_k \<and> (\<forall>a\<in>set ranked2. x \<le> score_of scores2 a))"
  using rank_agents_members [OF assms(1,2)] sx_rank_complete [OF assms(3,4,1)] by blast

definition ex_agent :: "uuid \<Rightarrow> agent_record" where
  "ex_agent g = new_agent_record 0 g ''acme'' ''c'' [] [] [] []"

definition ex_rating :: "uuid \<Rightarrow> rat \<Rightarrow> match_result" where
  "ex_rating g x = \<lparr>mr_agent_id = uuid_str g, mr_score = x, mr_matched_capability = [], mr_reasoning = [], mr_confidence = 1\<rparr>"

lemmas rank_ex_simps = sx_rank_def agent_map_of_def ex_agent_def ex_rating_def new_agent_record_def dget_or_def py_first_def
  din_def Let_def

theorem rank_agents_sound_witness:
  "map ar_agent_id (fst (sx_rank [ex_agent 1, ex_agent 2] 1 (1 / 2) [ex_rating 1 (3 / 5), ex_rating 2 (4 / 5)])) = [2] \<and>
   int (length (fst (fst (sx_rank_agents (\<lambda>_. 0) (\<lambda>_ _. LlmOther) True 0 [] [ex_agent 1] 1 (1 / 2) (sx_init 300))))) \<le> 1"
proof -
  let ?rs = "[ex_rating 1 (3 / 5), ex_rating 2 (4 / 5)]"
  let ?r = "sx_rank [ex_agent 1, ex_agent 2] 1 (1 / 2) ?rs"
  let ?a = "sx_rank_agents (\<lambda>_. 0) (\<lambda>_ _. LlmOther) True 0 [] [ex_agent 1] 1 (1 / 2) (sx_init 300)"
  have "map ar_agent_id (fst ?r) = [2]" by (simp add: rank_ex_simps)
  moreover have "?a = ((fst (fst ?a), snd (fst ?a)), snd ?a)" by simp
  moreover have "distinct (map mr_agent_id ?rs)" by (simp add: ex_rating_def)
  ultimately show ?thesis
    using rank_agents_sound [where top_k = 1 and agents = "[ex_agent 1]" and hash_ids = "\<lambda>_. 0" and invoke = "\<lambda>_ _. LlmOther"
        and created = True and now = 0 and intent = "[]" and threshold = "1 / 2" and m = "sx_init 300" and rs = ?rs
        and ranked = "fst (fst ?a)" and scores = "snd (fst ?a)" and m' = "snd ?a"
        and ?ranked2.0 = "fst (sx_rank [ex_agent 1] 1 (1 / 2) ?rs)" and ?scores2.0 = "snd (sx_rank [ex_agent 1] 1 (1 / 2) ?rs)"]
    by simp
qed

text \<open>An agent that the model rates twice is listed twice.\<close>

lemma rank_lists_twice:
  "map ar_agent_id (fst (sx_rank [ex_agent 1] 3 (1 / 2) [ex_rating 1 (3 / 5), ex_rating 1 (4 / 5)])) = [1, 1]"
  by (simp add: rank_ex_simps)

end
