(* ===== verification/Flow_Planner.thy ===== *)
theory Flow_Planner
  imports Semantic_Matcher
begin

text \<open>
  \<open>src/orchestration/flow_planner.py\<close>: discovering a flow of agents with a language model and building its
  graph. The model is a parameter from the two prompts to a reply. LangGraph is a parameter too: the
  planner's calls of its builder are the model's graph, a list of calls, and \<open>compile_graph\<close> stands for
  what the library makes of them, errors of the builder included.
\<close>

section \<open>Flows\<close>

record agent_node =
  an_agent_id :: string
  an_capability :: string
  an_depends_on :: "string list"
  an_required_inputs :: "string list"
  an_outputs :: "string list"
  an_description :: string

record route_mapping =
  rm_condition_value :: string
  rm_next_agent :: string

record conditional_route =
  cr_from_agent :: string
  cr_condition_field :: string
  cr_routes :: "route_mapping list"
  cr_default_route :: string

record agent_flow =
  fl_intent_summary :: string
  fl_agents :: "agent_node list"
  fl_entry_point :: string
  fl_conditional_routes :: "conditional_route list"
  fl_parallel_groups :: "string list list"
  fl_reasoning :: string
  fl_confidence :: rat

abbreviation flow_ids :: "agent_flow \<Rightarrow> string list" where
  "flow_ids f \<equiv> map an_agent_id (fl_agents f)"

section \<open>Discovery\<close>

record flow_planner =
  fp_ready :: bool

definition fp_init :: flow_planner where
  "fp_init = \<lparr>fp_ready = False\<rparr>"

definition fp_init_llm :: "bool \<Rightarrow> flow_planner \<Rightarrow> bool \<times> flow_planner" where
  "fp_init_llm created p =
     (if fp_ready p then (True, p) else if created then (True, p\<lparr>fp_ready := True\<rparr>) else (False, p))"

definition quoted :: "string \<Rightarrow> string" where
  "quoted s = [CHR 39] @ s @ [CHR 39]"

definition fp_describe_agent :: "agent_record \<Rightarrow> string" where
  "fp_describe_agent a =
     ''Agent '' @ quoted (uuid_str (ar_agent_id a)) @ '':'' @ newline @
     ''  Description: '' @ (if str_true (ar_description a) then the (ar_description a) else ''N/A'') @ newline @
     ''  Capabilities: '' @ (if ar_capabilities a \<noteq> [] then join_with '', '' (ar_capabilities a) else ''none'') @ newline @
     ''  Tags: '' @ (if ar_tags a \<noteq> [] then join_with '', '' (ar_tags a) else ''none'')"

definition fp_user_prompt :: "(payload \<Rightarrow> string) \<Rightarrow> string \<Rightarrow> payload \<Rightarrow> agent_record list \<Rightarrow> string" where
  "fp_user_prompt show_dict intent params agents =
     ''Intent: '' @ intent @ newline @ newline @
     ''Parameters: '' @ (if params \<noteq> [] then show_dict params else ''none'') @ newline @ newline @
     ''Available Agents:'' @ newline @ join_with newline (map fp_describe_agent agents) @ newline @ newline @
     ''Design an executable agent workflow to fulfill this intent.'' @ newline"

text \<open>The first occurrence of each agent is kept.\<close>

fun dedup_agents :: "string set \<Rightarrow> agent_node list \<Rightarrow> agent_node list" where
  "dedup_agents seen [] = []"
| "dedup_agents seen (a # as) =
     (if an_agent_id a \<notin> seen then a # dedup_agents (insert (an_agent_id a) seen) as else dedup_agents seen as)"

text \<open>\<open>invoke\<close> takes the user prompt, the system prompt being constant; \<open>None\<close> is an error or no flow.\<close>

definition fp_discover_flow ::
  "(payload \<Rightarrow> string) \<Rightarrow> (string \<Rightarrow> agent_flow option) \<Rightarrow> bool \<Rightarrow> string \<Rightarrow> agent_record list \<Rightarrow> payload \<Rightarrow>
     flow_planner \<Rightarrow> agent_flow option \<times> flow_planner" where
  "fp_discover_flow show_dict invoke created intent agents params p =
     (let (ok, p) = fp_init_llm created p in
      if \<not> ok then (None, p)
      else if agents = [] then (None, p)
      else case invoke (fp_user_prompt show_dict intent params agents) of
          None \<Rightarrow> (None, p)
        | Some f \<Rightarrow> (Some (if distinct (flow_ids f) then f else f\<lparr>fl_agents := dedup_agents {} (fl_agents f)\<rparr>), p))"

section \<open>The graph\<close>

datatype graph_node = START | END | Agent string

datatype graph_call =
    AddNode string agent_node
  | AddEdge graph_node graph_node
  | AddConditionalEdges string conditional_route "string set"

definition node_calls :: "agent_flow \<Rightarrow> graph_call list" where
  "node_calls f = map (\<lambda>a. AddNode (an_agent_id a) a) (fl_agents f)"

text \<open>\<open>in_registry\<close> is membership of a string in \<open>agent_registry\<close>.\<close>

definition dependency_calls :: "(string \<Rightarrow> bool) \<Rightarrow> agent_flow \<Rightarrow> graph_call list" where
  "dependency_calls in_registry f =
     concat (map (\<lambda>a. map (\<lambda>d. AddEdge (Agent d) (Agent (an_agent_id a)))
       (filter (\<lambda>d. in_registry d \<or> d \<in> set (flow_ids f)) (an_depends_on a))) (fl_agents f))"

definition possible_agents :: "conditional_route \<Rightarrow> string set" where
  "possible_agents r = insert (cr_default_route r) (set (map rm_next_agent (cr_routes r)))"

definition conditional_calls :: "agent_flow \<Rightarrow> graph_call list" where
  "conditional_calls f =
     map (\<lambda>r. AddConditionalEdges (cr_from_agent r) r (possible_agents r)) (fl_conditional_routes f)"

definition nodes_with_outgoing :: "agent_flow \<Rightarrow> string set" where
  "nodes_with_outgoing f =
     set (concat (map an_depends_on (fl_agents f))) \<union> set (map cr_from_agent (fl_conditional_routes f))"

definition terminal_nodes :: "agent_flow \<Rightarrow> string list" where
  "terminal_nodes f =
     filter (\<lambda>i. i \<notin> nodes_with_outgoing f \<and> \<not> list_ex (\<lambda>r. cr_from_agent r = i) (fl_conditional_routes f)) (flow_ids f)"

definition fp_build_langgraph :: "(string \<Rightarrow> bool) \<Rightarrow> agent_flow \<Rightarrow> string + graph_call list" where
  "fp_build_langgraph in_registry f =
     (if \<not> distinct (flow_ids f) then Inl ''Flow contains duplicate agent IDs''
      else Inr (node_calls f @ [AddEdge START (Agent (fl_entry_point f))] @ dependency_calls in_registry f @
        conditional_calls f @ map (\<lambda>i. AddEdge (Agent i) END) (terminal_nodes f)))"

text \<open>
  The keys of the mapping \<open>plan_and_build\<close> makes are \<open>UUID\<close> objects, so that no string is one of them.
  An error in building leaves the flow without a graph.
\<close>

definition fp_plan_and_build ::
  "(payload \<Rightarrow> string) \<Rightarrow> (string \<Rightarrow> agent_flow option) \<Rightarrow> bool \<Rightarrow> (graph_call list \<Rightarrow> 'g option) \<Rightarrow> string \<Rightarrow>
     agent_record list \<Rightarrow> payload \<Rightarrow> flow_planner \<Rightarrow> (agent_flow option \<times> 'g option) \<times> flow_planner" where
  "fp_plan_and_build show_dict invoke created compile_graph intent agents params p =
     (case fp_discover_flow show_dict invoke created intent agents params p of
        (None, p) \<Rightarrow> ((None, None), p)
      | (Some f, p) \<Rightarrow>
          (case fp_build_langgraph (\<lambda>_. False) f of
             Inl _ \<Rightarrow> ((Some f, None), p)
           | Inr calls \<Rightarrow> ((Some f, compile_graph calls), p)))"

section \<open>The functions of the nodes\<close>

text \<open>The part of the state that the nodes of the graph read and update.\<close>

record flow_state =
  fs_current_step :: int
  fs_completed_agents :: "string list"
  fs_agent_outputs :: "(string, payload) pydict"

definition agent_fn :: "string \<Rightarrow> agent_node \<Rightarrow> flow_state \<Rightarrow> flow_state" where
  "agent_fn node_id info s =
     s\<lparr>fs_current_step := fs_current_step s + 1, fs_completed_agents := fs_completed_agents s @ [node_id],
       fs_agent_outputs := dset node_id
         [(''agent_id'', JStr node_id), (''capability'', JStr (an_capability info)),
          (''result'', JStr (''Result from '' @ node_id))] (fs_agent_outputs s)\<rparr>"

text \<open>\<open>str_of\<close> is \<open>str\<close> of a value.\<close>

definition route_fn :: "(json \<Rightarrow> string) \<Rightarrow> conditional_route \<Rightarrow> flow_state \<Rightarrow> string" where
  "route_fn str_of r s =
     (let v = dget_or (dget_or (fs_agent_outputs s) (cr_from_agent r) []) (cr_condition_field r) JNone in
      case find (\<lambda>m. rm_condition_value m = str_of v) (cr_routes r) of
        Some m \<Rightarrow> rm_next_agent m
      | None \<Rightarrow> cr_default_route r)"

section \<open>Correctness\<close>

lemma dedup_ids:
  "set (map an_agent_id (dedup_agents seen as)) = set (map an_agent_id as) - seen"
  "distinct (map an_agent_id (dedup_agents seen as))" "subseq (dedup_agents seen as) as"
  by (induction as arbitrary: seen) auto

text \<open>Every later occurrence is dropped: the agents kept are the first of their id.\<close>

lemma dedup_first:
  "a \<in> set (dedup_agents seen as) \<Longrightarrow> find (\<lambda>b. an_agent_id b = an_agent_id a) as = Some a"
proof (induction as arbitrary: seen)
  case (Cons b as)
  show ?case
  proof (cases "an_agent_id b = an_agent_id a")
    case True
    have "an_agent_id a \<notin> set (map an_agent_id (dedup_agents (insert (an_agent_id b) seen) as))"
      unfolding dedup_ids(1) using True by simp
    moreover have "an_agent_id a \<notin> seen" using Cons.prems dedup_ids(1) [of seen "b # as"] by force
    ultimately have "a = b" using Cons.prems True by (auto split: if_splits)
    then show ?thesis by simp
  qed (use Cons in \<open>auto split: if_splits\<close>)
qed simp

lemma discover_flow_distinct:
  "fp_discover_flow show_dict invoke created intent agents params p = (Some f, p') \<Longrightarrow> distinct (flow_ids f)"
  by (auto simp: fp_discover_flow_def dedup_ids(2) split: prod.splits if_splits option.splits)

definition edge_in :: "graph_call list \<Rightarrow> graph_node \<Rightarrow> graph_node \<Rightarrow> bool" where
  "edge_in calls x y \<longleftrightarrow> AddEdge x y \<in> set calls \<or>
     (\<exists>i r js. AddConditionalEdges i r js \<in> set calls \<and> x = Agent i \<and> (\<exists>j\<in>js. y = Agent j))"

lemma find_distinct: "distinct (map an_agent_id as) \<Longrightarrow> a \<in> set as \<Longrightarrow> find (\<lambda>b. an_agent_id b = an_agent_id a) as = Some a"
  by (induction as) auto

lemma discover_flow_first:
  assumes "fp_discover_flow show_dict invoke created intent agents params p = (Some f, p')"
  shows "\<exists>g. invoke (fp_user_prompt show_dict intent params agents) = Some g \<and> set (flow_ids f) = set (flow_ids g) \<and>
    (\<forall>a\<in>set (fl_agents f). find (\<lambda>b. an_agent_id b = an_agent_id a) (fl_agents g) = Some a)"
proof -
  obtain g where g: "invoke (fp_user_prompt show_dict intent params agents) = Some g"
      and f: "f = (if distinct (flow_ids g) then g else g\<lparr>fl_agents := dedup_agents {} (fl_agents g)\<rparr>)"
    using assms by (auto simp: fp_discover_flow_def split: prod.splits if_splits option.splits)
  have "set (flow_ids f) = set (flow_ids g)"
    unfolding f using dedup_ids(1) [of "{}" "fl_agents g"] by (simp del: set_map)
  moreover have "\<forall>a\<in>set (fl_agents f). find (\<lambda>b. an_agent_id b = an_agent_id a) (fl_agents g) = Some a"
    unfolding f by (simp add: dedup_first find_distinct)
  ultimately show ?thesis using g by blast
qed

lemma dependency_edge:
  "AddEdge x y \<in> set (dependency_calls reg f) \<longleftrightarrow>
     (\<exists>a\<in>set (fl_agents f). \<exists>d\<in>set (an_depends_on a). x = Agent d \<and> y = Agent (an_agent_id a) \<and> (reg d \<or> d \<in> set (flow_ids f)))"
  by (auto simp: dependency_calls_def)

lemma terminal_iff:
  "i \<in> set (terminal_nodes f) \<longleftrightarrow> i \<in> set (flow_ids f) \<and> (\<forall>a\<in>set (fl_agents f). i \<notin> set (an_depends_on a)) \<and>
     (\<forall>r\<in>set (fl_conditional_routes f). cr_from_agent r \<noteq> i)"
  by (auto simp: terminal_nodes_def nodes_with_outgoing_def list_ex_iff)

definition calls_of :: "agent_flow \<Rightarrow> graph_call list" where
  "calls_of f = node_calls f @ [AddEdge START (Agent (fl_entry_point f))] @ dependency_calls (\<lambda>_. False) f @
      conditional_calls f @ map (\<lambda>i. AddEdge (Agent i) END) (terminal_nodes f)"

lemma calls_of_edge:
  "AddEdge x y \<in> set (calls_of f) \<longleftrightarrow> x = START \<and> y = Agent (fl_entry_point f) \<or>
     (\<exists>a\<in>set (fl_agents f). \<exists>d\<in>set (an_depends_on a). x = Agent d \<and> y = Agent (an_agent_id a) \<and> d \<in> set (flow_ids f)) \<or>
     (\<exists>i\<in>set (terminal_nodes f). x = Agent i \<and> y = END)"
proof -
  have "AddEdge x y \<notin> set (node_calls f)" "AddEdge x y \<notin> set (conditional_calls f)"
    by (auto simp: node_calls_def conditional_calls_def)
  then show ?thesis by (auto simp: calls_of_def dependency_edge)
qed

lemma calls_of_conditional:
  "AddConditionalEdges i r js \<in> set (calls_of f) \<longleftrightarrow> r \<in> set (fl_conditional_routes f) \<and> i = cr_from_agent r \<and> js = possible_agents r"
  by (auto simp: calls_of_def node_calls_def dependency_calls_def conditional_calls_def)

lemma edge_in_calls_of:
  "edge_in (calls_of f) (Agent i) y \<longleftrightarrow>
      (\<exists>j. y = Agent j \<and> (i \<in> set (flow_ids f) \<and> (\<exists>a\<in>set (fl_agents f). an_agent_id a = j \<and> i \<in> set (an_depends_on a)) \<or>
         (\<exists>r\<in>set (fl_conditional_routes f). cr_from_agent r = i \<and> j \<in> possible_agents r))) \<or>
      y = END \<and> i \<in> set (terminal_nodes f)"
  unfolding edge_in_def calls_of_edge calls_of_conditional by blast

lemma calls_of_out:
  assumes "i \<in> set (flow_ids f)"
  shows "\<exists>y. edge_in (calls_of f) (Agent i) y"
proof (cases "i \<in> set (terminal_nodes f)")
  case False
  then consider a where "a \<in> set (fl_agents f)" "i \<in> set (an_depends_on a)"
    | r where "r \<in> set (fl_conditional_routes f)" "cr_from_agent r = i"
    using assms unfolding terminal_iff by blast
  then show ?thesis
  proof cases
    case 1
    then show ?thesis using assms unfolding edge_in_calls_of by blast
  next
    case 2
    moreover have "cr_default_route r \<in> possible_agents r" by (simp add: possible_agents_def)
    ultimately show ?thesis unfolding edge_in_calls_of by blast
  qed
qed (auto simp: edge_in_calls_of)

lemma calls_of_end:
  "i \<in> set (flow_ids f) \<Longrightarrow> edge_in (calls_of f) (Agent i) END \<longleftrightarrow>
     (\<forall>a\<in>set (fl_agents f). i \<notin> set (an_depends_on a)) \<and> (\<forall>r\<in>set (fl_conditional_routes f). cr_from_agent r \<noteq> i)"
  unfolding edge_in_calls_of terminal_iff by (simp del: set_map)

text \<open>A discovered flow names no agent twice, the first mention counting, so that building its graph never
  fails on duplicates; in the graph each agent has its node, edges between agents are the dependencies
  within the flow and the routes, and each agent has a way on: to an agent that depends on it, by its
  routes, or to the end, the latter exactly when nothing depends on it and it has no routes.\<close>

theorem flow_graph_spec:
  assumes "fp_discover_flow show_dict invoke created intent agents params p = (Some f, p')"
  shows "\<exists>g calls. invoke (fp_user_prompt show_dict intent params agents) = Some g \<and>
    set (flow_ids f) = set (flow_ids g) \<and> distinct (flow_ids f) \<and>
    (\<forall>a\<in>set (fl_agents f). find (\<lambda>b. an_agent_id b = an_agent_id a) (fl_agents g) = Some a) \<and>
    fp_build_langgraph (\<lambda>_. False) f = Inr calls \<and>
    (\<forall>a\<in>set (fl_agents f). AddNode (an_agent_id a) a \<in> set calls) \<and>
    (\<forall>i j. edge_in calls (Agent i) (Agent j) \<longleftrightarrow>
       i \<in> set (flow_ids f) \<and> (\<exists>a\<in>set (fl_agents f). an_agent_id a = j \<and> i \<in> set (an_depends_on a)) \<or>
       (\<exists>r\<in>set (fl_conditional_routes f). cr_from_agent r = i \<and> j \<in> possible_agents r)) \<and>
    (\<forall>i\<in>set (flow_ids f). (\<exists>y. edge_in calls (Agent i) y) \<and>
       (edge_in calls (Agent i) END \<longleftrightarrow> (\<forall>a\<in>set (fl_agents f). i \<notin> set (an_depends_on a)) \<and>
          (\<forall>r\<in>set (fl_conditional_routes f). cr_from_agent r \<noteq> i)))"
proof -
  have d: "distinct (flow_ids f)" using assms by (rule discover_flow_distinct)
  have b: "fp_build_langgraph (\<lambda>_. False) f = Inr (calls_of f)" using d by (simp add: fp_build_langgraph_def calls_of_def)
  have n: "\<forall>a\<in>set (fl_agents f). AddNode (an_agent_id a) a \<in> set (calls_of f)"
    by (simp add: calls_of_def node_calls_def)
  have e: "\<forall>i j. edge_in (calls_of f) (Agent i) (Agent j) \<longleftrightarrow>
       i \<in> set (flow_ids f) \<and> (\<exists>a\<in>set (fl_agents f). an_agent_id a = j \<and> i \<in> set (an_depends_on a)) \<or>
       (\<exists>r\<in>set (fl_conditional_routes f). cr_from_agent r = i \<and> j \<in> possible_agents r)"
    unfolding edge_in_calls_of by blast
  have out: "\<forall>i\<in>set (flow_ids f). (\<exists>y. edge_in (calls_of f) (Agent i) y) \<and>
       (edge_in (calls_of f) (Agent i) END \<longleftrightarrow> (\<forall>a\<in>set (fl_agents f). i \<notin> set (an_depends_on a)) \<and>
          (\<forall>r\<in>set (fl_conditional_routes f). cr_from_agent r \<noteq> i))"
    using calls_of_out calls_of_end by simp
  obtain g where g: "invoke (fp_user_prompt show_dict intent params agents) = Some g" "set (flow_ids f) = set (flow_ids g)"
      "\<forall>a\<in>set (fl_agents f). find (\<lambda>b. an_agent_id b = an_agent_id a) (fl_agents g) = Some a"
    using discover_flow_first [OF assms] by blast
  show ?thesis by (rule exI [of _ g], rule exI [of _ "calls_of f"]) (intro conjI g d b n e out)
qed

definition ex_node :: "string \<Rightarrow> string list \<Rightarrow> agent_node" where
  "ex_node i deps = \<lparr>an_agent_id = i, an_capability = [], an_depends_on = deps, an_required_inputs = [], an_outputs = [],
     an_description = []\<rparr>"

definition ex_flow :: "agent_node list \<Rightarrow> agent_flow" where
  "ex_flow as = \<lparr>fl_intent_summary = [], fl_agents = as, fl_entry_point = ''a'', fl_conditional_routes = [],
     fl_parallel_groups = [], fl_reasoning = [], fl_confidence = 1\<rparr>"

theorem flow_graph_spec_witness:
  "\<exists>calls. fp_build_langgraph (\<lambda>_. False) (ex_flow [ex_node ''a'' [], ex_node ''b'' [''a'']]) = Inr calls \<and>
     edge_in calls (Agent ''a'') (Agent ''b'') \<and> \<not> edge_in calls (Agent ''a'') END \<and> edge_in calls (Agent ''b'') END"
proof -
  let ?f = "ex_flow [ex_node ''a'' [], ex_node ''b'' [''a'']]"
  have "fp_discover_flow (\<lambda>_. []) (\<lambda>_. Some (ex_flow [ex_node ''a'' [], ex_node ''b'' [''a''], ex_node ''a'' [''b'']])) True
      ''go'' [ex_agent 1] [] fp_init = (Some ?f, \<lparr>fp_ready = True\<rparr>)"
    by (simp add: fp_discover_flow_def fp_init_llm_def fp_init_def ex_flow_def ex_node_def)
  from flow_graph_spec [OF this] obtain calls where
    b: "fp_build_langgraph (\<lambda>_. False) ?f = Inr calls" and
    e: "\<forall>i j. edge_in calls (Agent i) (Agent j) \<longleftrightarrow>
       i \<in> set (flow_ids ?f) \<and> (\<exists>a\<in>set (fl_agents ?f). an_agent_id a = j \<and> i \<in> set (an_depends_on a)) \<or>
       (\<exists>r\<in>set (fl_conditional_routes ?f). cr_from_agent r = i \<and> j \<in> possible_agents r)" and
    out: "\<forall>i\<in>set (flow_ids ?f). (\<exists>y. edge_in calls (Agent i) y) \<and> (edge_in calls (Agent i) END \<longleftrightarrow>
        (\<forall>a\<in>set (fl_agents ?f). i \<notin> set (an_depends_on a)) \<and> (\<forall>r\<in>set (fl_conditional_routes ?f). cr_from_agent r \<noteq> i))"
    by (elim exE conjE)
  have ids: "flow_ids ?f = [''a'', ''b'']" "fl_agents ?f = [ex_node ''a'' [], ex_node ''b'' [''a'']]" "fl_conditional_routes ?f = []"
    by (simp_all add: ex_flow_def ex_node_def)
  have nodes: "an_agent_id (ex_node i ds) = i" "an_depends_on (ex_node i ds) = ds" for i ds by (simp_all add: ex_node_def)
  show ?thesis
    using b spec [OF spec [OF e, of "''a''"], of "''b''"] bspec [OF out, of "''a''"] bspec [OF out, of "''b''"]
    by (simp add: ids nodes)
qed

text \<open>
  Only the entry point is connected to the start: an agent without dependencies that is not the entry
  point, such as the second of a parallel group, is in the graph but never reached.
\<close>

lemma parallel_agent_unreachable:
  assumes "fp_build_langgraph (\<lambda>_. False) (ex_flow [ex_node ''a'' [], ex_node ''b'' []]) = Inr calls"
  shows "(START, Agent ''b'') \<notin> {(x, y). edge_in calls x y}\<^sup>*"
proof -
  let ?f = "ex_flow [ex_node ''a'' [], ex_node ''b'' []]"
  have c: "calls = calls_of ?f" using assms by (simp add: fp_build_langgraph_def calls_of_def split: if_splits)
  have e: "edge_in calls x y \<Longrightarrow> y = Agent ''a'' \<or> y = END" for x y
    unfolding c edge_in_def calls_of_edge calls_of_conditional by (auto simp: ex_flow_def ex_node_def)
  have "(START, y) \<in> {(x, y). edge_in calls x y}\<^sup>* \<Longrightarrow> y \<noteq> Agent ''b''" for y
    by (induction rule: rtrancl_induct) (auto dest: e)
  then show ?thesis by blast
qed

text \<open>Running node functions in any order counts the steps and records who ran.\<close>

lemma agent_fn_run:
  "let s' = fold (\<lambda>(i, a). agent_fn i a) runs s in
     fs_current_step s' = fs_current_step s + int (length runs) \<and>
     fs_completed_agents s' = fs_completed_agents s @ map fst runs \<and>
     (\<forall>i\<in>set (map fst runs). din i (fs_agent_outputs s'))"
proof (induction runs rule: rev_induct)
  case (snoc x xs)
  then show ?case by (auto simp: agent_fn_def Let_def split: prod.splits)
qed simp

end
