(* ===== verification/Py_Parse.thy ===== *)
theory Py_Parse
  imports Py_Values
begin

text \<open>
  \<open>UUID(s)\<close> of the standard library for a string argument: marks and braces are removed, 32 characters
  must remain, and they are read with \<open>int(_, 16)\<close>, which accepts blanks around, a sign, a prefix
  \<open>0x\<close> and single underscores between digits. \<open>None\<close> is the \<open>ValueError\<close>.
\<close>

section \<open>Strings\<close>

text \<open>\<open>s.replace(p, "")\<close> for a pattern \<open>p\<close> that is not empty.\<close>

function remove_all :: "string \<Rightarrow> string \<Rightarrow> string" where
  "remove_all p [] = []"
| "remove_all p (x # xs) =
     (if p \<noteq> [] \<and> take (length p) (x # xs) = p then remove_all p (drop (length p) (x # xs))
      else x # remove_all p xs)"
  by pat_completeness auto
termination
  by (relation "measure (\<lambda>(p, s). length s)") auto

definition strip :: "char set \<Rightarrow> string \<Rightarrow> string" where
  "strip cs s = rev (dropWhile (\<lambda>c. c \<in> cs) (rev (dropWhile (\<lambda>c. c \<in> cs) s)))"

definition py_blanks :: "char set" where
  "py_blanks = set (map char_of ([9..<14] @ [28..<33] @ [133, 160 :: nat]))"

lemma remove_all_absent: "p = c # cs \<Longrightarrow> c \<notin> set s \<Longrightarrow> remove_all p s = s"
  by (induction p s rule: remove_all.induct) auto

lemma remove_all_char: "remove_all [c] s = filter (\<lambda>d. d \<noteq> c) s"
  by (induction "[c]" s rule: remove_all.induct) auto

lemma strip_absent: "set s \<inter> cs = {} \<Longrightarrow> strip cs s = s"
proof -
  assume none: "set s \<inter> cs = {}"
  have keep: "dropWhile (\<lambda>c. c \<in> cs) t = t" if "set t \<inter> cs = {}" for t
    using that by (cases t) auto
  show ?thesis by (simp add: strip_def keep none)
qed

section \<open>Hexadecimal integers\<close>

definition hex_val :: "char \<Rightarrow> int option" where
  "hex_val c =
     (let n = of_char c :: nat in
      if 48 \<le> n \<and> n \<le> 57 then Some (int n - 48)
      else if 65 \<le> n \<and> n \<le> 70 then Some (int n - 55)
      else if 97 \<le> n \<and> n \<le> 102 then Some (int n - 87)
      else None)"

text \<open>The digits; the flags say whether an underscore may follow and whether the number may end.\<close>

fun read_digits :: "bool \<Rightarrow> bool \<Rightarrow> int \<Rightarrow> string \<Rightarrow> int option" where
  "read_digits us stop acc [] = (if stop then Some acc else None)"
| "read_digits us stop acc (c # cs) =
     (if c = CHR ''_'' then (if us then read_digits False False acc cs else None)
      else case hex_val c of None \<Rightarrow> None | Some d \<Rightarrow> read_digits True True (16 * acc + d) cs)"

definition read_prefixed :: "string \<Rightarrow> int option" where
  "read_prefixed s =
     (if take 2 s = ''0x'' \<or> take 2 s = ''0X'' then read_digits True False 0 (drop 2 s) else read_digits False False 0 s)"

definition py_int16 :: "string \<Rightarrow> int option" where
  "py_int16 s =
     (case strip py_blanks s of
        [] \<Rightarrow> None
      | c # cs \<Rightarrow>
          if c = CHR ''-'' then map_option uminus (read_prefixed cs)
          else if c = CHR ''+'' then read_prefixed cs
          else read_prefixed (c # cs))"

definition uuid_parse :: "string \<Rightarrow> uuid option" where
  "uuid_parse s =
     (let h = remove_all ''uuid:'' (remove_all ''urn:'' s);
          h = remove_all ''-'' (strip (set ''{}'') h)
      in if length h \<noteq> 32 then None
         else case py_int16 h of
             None \<Rightarrow> None
           | Some n \<Rightarrow> if 0 \<le> n \<and> n < 2 ^ 128 then Some (of_int n) else None)"

section \<open>Reading what was printed\<close>

lemma hex_val_digit: "hex_val (hex_alphabet ! (n mod 16)) = Some (int (n mod 16))"
proof -
  have "\<forall>k\<in>set [0..<16]. hex_val (hex_alphabet ! k) = Some (int k)" by code_simp
  then show ?thesis by simp
qed

lemma hex_digit_plain:
  "c \<in> set hex_alphabet \<Longrightarrow> c \<noteq> CHR ''_'' \<and> c \<noteq> CHR ''-'' \<and> c \<noteq> CHR ''+'' \<and> c \<noteq> CHR ''x'' \<and> c \<noteq> CHR ''X'' \<and>
     c \<noteq> CHR ''u'' \<and> c \<notin> set ''{}'' \<and> c \<notin> py_blanks"
proof -
  have "\<forall>c\<in>set hex_alphabet. c \<noteq> CHR ''_'' \<and> c \<noteq> CHR ''-'' \<and> c \<noteq> CHR ''+'' \<and> c \<noteq> CHR ''x'' \<and> c \<noteq> CHR ''X'' \<and>
     c \<noteq> CHR ''u'' \<and> c \<notin> set ''{}'' \<and> c \<notin> py_blanks" by code_simp
  then show "c \<in> set hex_alphabet \<Longrightarrow> ?thesis" by blast
qed

lemma read_digits_append:
  "set xs \<subseteq> set hex_alphabet \<Longrightarrow> read_digits us stop acc (xs @ ys) =
     (case read_digits us True acc xs of None \<Rightarrow> None
      | Some acc' \<Rightarrow> if xs = [] then read_digits us stop acc' ys else read_digits True True acc' ys)"
proof (induction xs arbitrary: us stop acc)
  case (Cons x xs)
  have "x \<noteq> CHR ''_''" using Cons.prems hex_digit_plain by auto
  then show ?case using Cons by (auto split: option.split)
qed simp

lemma read_digits_hex:
  "n < 16 ^ k \<Longrightarrow> read_digits us True acc (hex_digits k n) = Some (16 ^ k * acc + int n)"
proof (induction k arbitrary: n us)
  case (Suc k)
  have small: "n div 16 < 16 ^ k" using Suc.prems by (simp add: less_mult_imp_div_less mult.commute)
  have plain: "hex_alphabet ! (n mod 16) \<noteq> CHR ''_''"
    using hex_digit_plain [of "hex_alphabet ! (n mod 16)"] by (simp add: length_hex_alphabet)
  have "16 * (16 ^ k * acc + int (n div 16)) + int (n mod 16) = 16 ^ Suc k * acc + int n"
    by (simp add: algebra_simps zdiv_int zmod_int)
  then show ?case
    using Suc.IH [OF small, of us] plain
    by (simp add: read_digits_append set_hex_digits hex_val_digit)
qed simp

lemma py_int16_hex: "0 < k \<Longrightarrow> n < 16 ^ k \<Longrightarrow> py_int16 (hex_digits k n) = Some (int n)"
proof -
  assume k: "0 < k" and n: "n < 16 ^ k"
  let ?h = "hex_digits k n"
  have plain: "\<forall>c\<in>set ?h. c \<in> set hex_alphabet" using set_hex_digits by blast
  then have "strip py_blanks ?h = ?h" using hex_digit_plain by (intro strip_absent) blast
  moreover obtain c cs where h: "?h = c # cs" using k length_hex_digits [of k n] by (cases ?h) auto
  moreover have "take 2 ?h \<noteq> [d, CHR ''x'']" "take 2 ?h \<noteq> [d, CHR ''X'']" for d
    using plain hex_digit_plain in_set_takeD [of _ 2 ?h] by (metis list.set_intros)+
  moreover have "read_digits False False 0 ?h = Some (int n)"
  proof -
    have "?h \<noteq> []" by (simp add: h)
    then have "read_digits False False 0 (?h @ []) = Some (int n)"
      unfolding read_digits_append [OF set_hex_digits] by (simp add: read_digits_hex [OF n])
    then show ?thesis by simp
  qed
  ultimately show ?thesis using plain hex_digit_plain [of c]
    by (simp add: py_int16_def read_prefixed_def)
qed

lemma uuid_parse_str [simp]: "uuid_parse (uuid_str u) = Some u"
proof -
  have chars: "set (uuid_str u) \<subseteq> insert (CHR ''-'') (set hex_alphabet)"
  proof
    fix c assume "c \<in> set (uuid_str u)"
    then have "c = CHR ''-'' \<or> c \<in> set (filter (\<lambda>c. c \<noteq> CHR ''-'') (uuid_str u))" by auto
    then show "c \<in> insert (CHR ''-'') (set hex_alphabet)" using set_hex_digits by (auto simp: uuid_str_undashed)
  qed
  then have "CHR ''u'' \<notin> set (uuid_str u)" "set (uuid_str u) \<inter> set ''{}'' = {}"
    using hex_digit_plain by fastforce+
  then have clean: "remove_all ''-'' (strip (set ''{}'') (remove_all ''uuid:'' (remove_all ''urn:'' (uuid_str u)))) =
      hex_digits 32 (unat u)"
    by (simp add: remove_all_absent strip_absent remove_all_char uuid_str_undashed)
  have "unat u < 16 ^ 32" using unsigned_less [of u] by simp
  then have "py_int16 (hex_digits 32 (unat u)) = Some (int (unat u))"
    by (intro py_int16_hex) simp_all
  moreover have "int (unat u) < 2 ^ 128" using unsigned_less [of u] by (simp add: of_nat_less_numeral_power_cancel_iff)
  ultimately show ?thesis
    unfolding uuid_parse_def Let_def clean by simp
qed

section \<open>Enumerations by value\<close>

text \<open>\<open>SomeEnum(s)\<close> of a string enumeration, given its members: the one with this value, or \<open>ValueError\<close>.\<close>

definition enum_of :: "('a \<Rightarrow> string) \<Rightarrow> 'a list \<Rightarrow> string \<Rightarrow> 'a option" where
  "enum_of val members s = find (\<lambda>x. val x = s) members"

lemma enum_of_iff:
  assumes "distinct (map val members)" and "\<And>x. x \<in> set members"
  shows "enum_of val members s = Some x \<longleftrightarrow> val x = s"
proof -
  have inj: "val x = val y \<Longrightarrow> x = y" for x y
    using assms by (auto simp: distinct_map inj_on_def)
  show ?thesis
  proof
    assume "val x = s"
    then obtain y where y: "enum_of val members s = Some y"
      using assms(2) [of x] by (cases "enum_of val members s") (auto simp: enum_of_def find_None_iff)
    then have "val y = s" by (auto simp: enum_of_def find_Some_iff)
    with y show "enum_of val members s = Some x" using \<open>val x = s\<close> inj by blast
  qed (auto simp: enum_of_def find_Some_iff)
qed

end
