(* ===== verification/Envelope.thy ===== *)
theory Envelope
  imports Event_Stream Py_Parse
begin

text \<open>
  The message envelope (\<open>src/protocol/envelope.py\<close>): message types, the envelope with its validation and
  the constructors of all messages. The random message id and the clock are arguments of the
  constructors, \<open>show_time\<close> is \<open>isoformat\<close>. An argument that is only used as \<open>x or []\<close> or \<open>x or {}\<close>
  is the list or dict itself.
\<close>

datatype message_type =
    MT_AGENT_REGISTER
  | MT_AGENT_REGISTERED
  | MT_AGENT_HEARTBEAT
  | MT_AGENT_HEARTBEAT_ACK
  | MT_AGENT_DEREGISTER
  | MT_AGENT_LIST
  | MT_AGENT_LIST_RESULT
  | MT_INTENT_BROADCAST
  | MT_INTENT_DELIVER
  | MT_INTENT_OFFER
  | MT_INTENT_OFFER_RECEIVED
  | MT_INTENT_OFFERS
  | MT_INTENT_AGREE
  | MT_INTENT_REJECT
  | MT_SESSION_CREATED
  | MT_SESSION_CLOSE
  | MT_EXEC_REQUEST
  | MT_EXEC_ACCEPTED
  | MT_EXEC_PROGRESS
  | MT_EXEC_RESULT
  | MT_EXEC_PARTIAL_FAILURE
  | MT_EXEC_ERROR
  | MT_EXEC_STREAM_START
  | MT_EXEC_STREAM_CHUNK
  | MT_EXEC_STREAM_END
  | MT_TRACE_GET
  | MT_TRACE_RESULT
  | MT_ERROR
  | MT_ORCHESTRATION_PLAN
  | MT_ORCHESTRATION_PLAN_UPDATE
  | MT_MULTI_OFFER_REQUEST
  | MT_MULTI_OFFER_STATUS
  | MT_MULTI_NEGOTIATION_REQUEST
  | MT_MULTI_NEGOTIATION_STATUS
  | MT_MULTI_EXEC_START
  | MT_MULTI_EXEC_TASK_RESULT
  | MT_MULTI_EXEC_STATUS
  | MT_MULTI_EXEC_COMPLETE
  | MT_AGGREGATION_RESULT
  | MT_EVENT_SUBSCRIBE
  | MT_EVENT_UNSUBSCRIBE
  | MT_EVENT_SUBSCRIBED
  | MT_EVENT
  | MT_EVENT_EXECUTION
  | MT_EVENT_FLOW
  | MT_EVENT_AGENT
  | MT_EVENT_REASONING
  | MT_EVENT_SYSTEM
  | MT_EMIT_EVENT

fun message_type_value :: "message_type \<Rightarrow> string" where
  "message_type_value MT_AGENT_REGISTER = ''agent.register''"
| "message_type_value MT_AGENT_REGISTERED = ''agent.registered''"
| "message_type_value MT_AGENT_HEARTBEAT = ''agent.heartbeat''"
| "message_type_value MT_AGENT_HEARTBEAT_ACK = ''agent.heartbeat_ack''"
| "message_type_value MT_AGENT_DEREGISTER = ''agent.deregister''"
| "message_type_value MT_AGENT_LIST = ''agent.list''"
| "message_type_value MT_AGENT_LIST_RESULT = ''agent.list.result''"
| "message_type_value MT_INTENT_BROADCAST = ''intent.broadcast''"
| "message_type_value MT_INTENT_DELIVER = ''intent.deliver''"
| "message_type_value MT_INTENT_OFFER = ''intent.offer''"
| "message_type_value MT_INTENT_OFFER_RECEIVED = ''intent.offer.received''"
| "message_type_value MT_INTENT_OFFERS = ''intent.offers''"
| "message_type_value MT_INTENT_AGREE = ''intent.agree''"
| "message_type_value MT_INTENT_REJECT = ''intent.reject''"
| "message_type_value MT_SESSION_CREATED = ''session.created''"
| "message_type_value MT_SESSION_CLOSE = ''session.close''"
| "message_type_value MT_EXEC_REQUEST = ''exec.request''"
| "message_type_value MT_EXEC_ACCEPTED = ''exec.accepted''"
| "message_type_value MT_EXEC_PROGRESS = ''exec.progress''"
| "message_type_value MT_EXEC_RESULT = ''exec.result''"
| "message_type_value MT_EXEC_PARTIAL_FAILURE = ''exec.partial_failure''"
| "message_type_value MT_EXEC_ERROR = ''exec.error''"
| "message_type_value MT_EXEC_STREAM_START = ''exec.stream.start''"
| "message_type_value MT_EXEC_STREAM_CHUNK = ''exec.stream.chunk''"
| "message_type_value MT_EXEC_STREAM_END = ''exec.stream.end''"
| "message_type_value MT_TRACE_GET = ''trace.get''"
| "message_type_value MT_TRACE_RESULT = ''trace.result''"
| "message_type_value MT_ERROR = ''error''"
| "message_type_value MT_ORCHESTRATION_PLAN = ''orchestration.plan''"
| "message_type_value MT_ORCHESTRATION_PLAN_UPDATE = ''orchestration.plan.update''"
| "message_type_value MT_MULTI_OFFER_REQUEST = ''orchestration.multi_offer.request''"
| "message_type_value MT_MULTI_OFFER_STATUS = ''orchestration.multi_offer.status''"
| "message_type_value MT_MULTI_NEGOTIATION_REQUEST = ''orchestration.multi_negotiation.request''"
| "message_type_value MT_MULTI_NEGOTIATION_STATUS = ''orchestration.multi_negotiation.status''"
| "message_type_value MT_MULTI_EXEC_START = ''orchestration.multi_exec.start''"
| "message_type_value MT_MULTI_EXEC_TASK_RESULT = ''orchestration.multi_exec.task_result''"
| "message_type_value MT_MULTI_EXEC_STATUS = ''orchestration.multi_exec.status''"
| "message_type_value MT_MULTI_EXEC_COMPLETE = ''orchestration.multi_exec.complete''"
| "message_type_value MT_AGGREGATION_RESULT = ''orchestration.aggregation.result''"
| "message_type_value MT_EVENT_SUBSCRIBE = ''event.subscribe''"
| "message_type_value MT_EVENT_UNSUBSCRIBE = ''event.unsubscribe''"
| "message_type_value MT_EVENT_SUBSCRIBED = ''event.subscribed''"
| "message_type_value MT_EVENT = ''event''"
| "message_type_value MT_EVENT_EXECUTION = ''event.execution''"
| "message_type_value MT_EVENT_FLOW = ''event.flow''"
| "message_type_value MT_EVENT_AGENT = ''event.agent''"
| "message_type_value MT_EVENT_REASONING = ''event.reasoning''"
| "message_type_value MT_EVENT_SYSTEM = ''event.system''"
| "message_type_value MT_EMIT_EVENT = ''emit.event''"

definition all_message_types :: "message_type list" where
  "all_message_types =
     [MT_AGENT_REGISTER,
      MT_AGENT_REGISTERED,
      MT_AGENT_HEARTBEAT,
      MT_AGENT_HEARTBEAT_ACK,
      MT_AGENT_DEREGISTER,
      MT_AGENT_LIST,
      MT_AGENT_LIST_RESULT,
      MT_INTENT_BROADCAST,
      MT_INTENT_DELIVER,
      MT_INTENT_OFFER,
      MT_INTENT_OFFER_RECEIVED,
      MT_INTENT_OFFERS,
      MT_INTENT_AGREE,
      MT_INTENT_REJECT,
      MT_SESSION_CREATED,
      MT_SESSION_CLOSE,
      MT_EXEC_REQUEST,
      MT_EXEC_ACCEPTED,
      MT_EXEC_PROGRESS,
      MT_EXEC_RESULT,
      MT_EXEC_PARTIAL_FAILURE,
      MT_EXEC_ERROR,
      MT_EXEC_STREAM_START,
      MT_EXEC_STREAM_CHUNK,
      MT_EXEC_STREAM_END,
      MT_TRACE_GET,
      MT_TRACE_RESULT,
      MT_ERROR,
      MT_ORCHESTRATION_PLAN,
      MT_ORCHESTRATION_PLAN_UPDATE,
      MT_MULTI_OFFER_REQUEST,
      MT_MULTI_OFFER_STATUS,
      MT_MULTI_NEGOTIATION_REQUEST,
      MT_MULTI_NEGOTIATION_STATUS,
      MT_MULTI_EXEC_START,
      MT_MULTI_EXEC_TASK_RESULT,
      MT_MULTI_EXEC_STATUS,
      MT_MULTI_EXEC_COMPLETE,
      MT_AGGREGATION_RESULT,
      MT_EVENT_SUBSCRIBE,
      MT_EVENT_UNSUBSCRIBE,
      MT_EVENT_SUBSCRIBED,
      MT_EVENT,
      MT_EVENT_EXECUTION,
      MT_EVENT_FLOW,
      MT_EVENT_AGENT,
      MT_EVENT_REASONING,
      MT_EVENT_SYSTEM,
      MT_EMIT_EVENT]"

definition message_type_of :: "string \<Rightarrow> message_type option" where
  "message_type_of = enum_of message_type_value all_message_types"

record message_envelope =
  env_message_id :: uuid
  env_correlation_id :: "uuid option"
  env_causation_id :: "uuid option"
  env_message_type :: message_type
  env_sender_id :: uuid
  env_tenant_id :: string
  env_ephemeral_interface_id :: "uuid option"
  env_timestamp :: datetime
  env_ttl_seconds :: "int option"
  env_schema_id :: "string option"
  env_payload :: payload
  env_purpose :: "string option"
  env_data_scope :: "string list"
  env_risk_level :: "string option"

text \<open>The fields every constructor sets, the others at their defaults.\<close>

definition new_envelope :: "uuid \<Rightarrow> datetime \<Rightarrow> message_type \<Rightarrow> uuid \<Rightarrow> string \<Rightarrow> payload \<Rightarrow> message_envelope" where
  "new_envelope mid now ty sender tenant body =
     \<lparr>env_message_id = mid, env_correlation_id = None, env_causation_id = None, env_message_type = ty,
      env_sender_id = sender, env_tenant_id = tenant, env_ephemeral_interface_id = None, env_timestamp = now,
      env_ttl_seconds = None, env_schema_id = None, env_payload = body, env_purpose = None, env_data_scope = [],
      env_risk_level = None\<rparr>"

text \<open>The validation of the model: \<open>ttl_seconds\<close> has \<open>ge=1\<close>.\<close>

definition validated_envelope :: "message_envelope \<Rightarrow> event_error + message_envelope" where
  "validated_envelope e =
     (case env_ttl_seconds e of
        None \<Rightarrow> Inr e
      | Some n \<Rightarrow> if 1 \<le> n then Inr e else Inl ValidationError)"

definition jint_opt :: "int option \<Rightarrow> json" where
  "jint_opt n = (case n of None \<Rightarrow> JNone | Some i \<Rightarrow> JInt i)"

definition jdict_opt :: "payload option \<Rightarrow> json" where
  "jdict_opt d = (case d of None \<Rightarrow> JNone | Some p \<Rightarrow> JDict p)"

section \<open>Constructors\<close>

definition create_intent_broadcast ::
  "uuid \<Rightarrow> datetime \<Rightarrow> uuid \<Rightarrow> string \<Rightarrow> payload \<Rightarrow> string option \<Rightarrow>
     string list \<Rightarrow> int option \<Rightarrow> event_error + message_envelope" where
  "create_intent_broadcast mid now sender tenant intent_payload purp data_scope ttl_seconds =
     validated_envelope
      ((new_envelope mid now MT_INTENT_BROADCAST sender tenant
       intent_payload)
       \<lparr>env_purpose := purp, env_data_scope := data_scope, env_ttl_seconds := ttl_seconds\<rparr>)"

definition create_intent_offer ::
  "uuid \<Rightarrow> datetime \<Rightarrow> uuid \<Rightarrow> string \<Rightarrow> uuid \<Rightarrow> payload \<Rightarrow> int option \<Rightarrow>
     event_error + message_envelope" where
  "create_intent_offer mid now sender tenant corr offer_payload ttl_seconds =
     validated_envelope
      ((new_envelope mid now MT_INTENT_OFFER sender tenant
       offer_payload)
       \<lparr>env_correlation_id := Some corr, env_ttl_seconds := ttl_seconds\<rparr>)"

definition create_intent_agree ::
  "uuid \<Rightarrow> datetime \<Rightarrow> uuid \<Rightarrow> string \<Rightarrow> uuid \<Rightarrow> uuid \<Rightarrow> uuid \<Rightarrow>
     payload \<Rightarrow> message_envelope" where
  "create_intent_agree mid now sender tenant corr caus eph agreement_payload =
     (new_envelope mid now MT_INTENT_AGREE sender tenant
       agreement_payload)
       \<lparr>env_correlation_id := Some corr, env_causation_id := Some caus, env_ephemeral_interface_id := Some eph\<rparr>"

definition create_exec_request ::
  "uuid \<Rightarrow> datetime \<Rightarrow> uuid \<Rightarrow> string \<Rightarrow> uuid \<Rightarrow> uuid \<Rightarrow> string \<Rightarrow>
     payload \<Rightarrow> message_envelope" where
  "create_exec_request mid now sender tenant eph corr schema_id request_payload =
     (new_envelope mid now MT_EXEC_REQUEST sender tenant
       request_payload)
       \<lparr>env_correlation_id := Some corr, env_ephemeral_interface_id := Some eph, env_schema_id := Some schema_id\<rparr>"

definition create_exec_result ::
  "uuid \<Rightarrow> datetime \<Rightarrow> uuid \<Rightarrow> string \<Rightarrow> uuid \<Rightarrow> uuid \<Rightarrow> uuid \<Rightarrow>
     string \<Rightarrow> payload \<Rightarrow> message_envelope" where
  "create_exec_result mid now sender tenant eph corr caus schema_id result_payload =
     (new_envelope mid now MT_EXEC_RESULT sender tenant
       result_payload)
       \<lparr>env_correlation_id := Some corr, env_causation_id := Some caus, env_ephemeral_interface_id := Some eph, env_schema_id := Some schema_id\<rparr>"

definition create_session_close ::
  "uuid \<Rightarrow> datetime \<Rightarrow> uuid \<Rightarrow> string \<Rightarrow> uuid \<Rightarrow> string option \<Rightarrow> message_envelope" where
  "create_session_close mid now sender tenant eph reason =
     (new_envelope mid now MT_SESSION_CLOSE sender tenant
       (if str_true reason then [(''reason'', jopt reason)] else []))
       \<lparr>env_ephemeral_interface_id := Some eph\<rparr>"

definition create_agent_registered ::
  "uuid \<Rightarrow> datetime \<Rightarrow> uuid \<Rightarrow> string \<Rightarrow> uuid \<Rightarrow> uuid \<Rightarrow> string \<Rightarrow>
     message_envelope" where
  "create_agent_registered mid now sender tenant corr agent_id conn_id =
     (new_envelope mid now MT_AGENT_REGISTERED sender tenant
       [(''agent_id'', JStr (uuid_str agent_id)),
         (''conn_id'', JStr conn_id),
         (''status'', JStr ''registered'')])
       \<lparr>env_correlation_id := Some corr\<rparr>"

definition create_heartbeat_ack ::
  "uuid \<Rightarrow> datetime \<Rightarrow> uuid \<Rightarrow> string \<Rightarrow> uuid \<Rightarrow> message_envelope" where
  "create_heartbeat_ack mid now sender tenant corr =
     (new_envelope mid now MT_AGENT_HEARTBEAT_ACK sender tenant
       [(''status'', JStr ''alive'')])
       \<lparr>env_correlation_id := Some corr\<rparr>"

definition create_agent_list_result ::
  "uuid \<Rightarrow> datetime \<Rightarrow> uuid \<Rightarrow> string \<Rightarrow> uuid \<Rightarrow> payload list \<Rightarrow> message_envelope" where
  "create_agent_list_result mid now sender tenant corr ags =
     (new_envelope mid now MT_AGENT_LIST_RESULT sender tenant
       [(''agents'', JList (map JDict ags))])
       \<lparr>env_correlation_id := Some corr\<rparr>"

definition create_intent_deliver ::
  "uuid \<Rightarrow> datetime \<Rightarrow> uuid \<Rightarrow> string \<Rightarrow> uuid \<Rightarrow> uuid \<Rightarrow> payload \<Rightarrow>
     string option \<Rightarrow> string list \<Rightarrow> message_envelope" where
  "create_intent_deliver mid now sender tenant corr original_sender_id intent_payload purp data_scope =
     (new_envelope mid now MT_INTENT_DELIVER sender tenant
       (dict_merge intent_payload [(''original_sender_id'', JStr (uuid_str original_sender_id))]))
       \<lparr>env_correlation_id := Some corr, env_purpose := purp, env_data_scope := data_scope\<rparr>"

definition create_error ::
  "uuid \<Rightarrow> datetime \<Rightarrow> uuid \<Rightarrow> string \<Rightarrow> uuid option \<Rightarrow> string \<Rightarrow> string \<Rightarrow>
     payload \<Rightarrow> message_envelope" where
  "create_error mid now sender tenant corr error_code error_message details =
     (new_envelope mid now MT_ERROR sender tenant
       [(''error_code'', JStr error_code),
         (''error_message'', JStr error_message),
         (''details'', JDict details)])
       \<lparr>env_correlation_id := corr\<rparr>"

definition create_intent_deliver_with_session ::
  "uuid \<Rightarrow> datetime \<Rightarrow> uuid \<Rightarrow> string \<Rightarrow> uuid \<Rightarrow> uuid \<Rightarrow> uuid \<Rightarrow>
     payload \<Rightarrow> string option \<Rightarrow> string list \<Rightarrow> message_envelope" where
  "create_intent_deliver_with_session mid now sender tenant corr eph original_sender_id intent_payload purp data_scope =
     (new_envelope mid now MT_INTENT_DELIVER sender tenant
       (dict_merge intent_payload [(''original_sender_id'', JStr (uuid_str original_sender_id))]))
       \<lparr>env_correlation_id := Some corr, env_ephemeral_interface_id := Some eph, env_purpose := purp, env_data_scope := data_scope\<rparr>"

definition create_intent_offer_received ::
  "uuid \<Rightarrow> datetime \<Rightarrow> uuid \<Rightarrow> string \<Rightarrow> uuid \<Rightarrow> string \<Rightarrow> uuid \<Rightarrow>
     message_envelope" where
  "create_intent_offer_received mid now sender tenant corr offer_id eph =
     (new_envelope mid now MT_INTENT_OFFER_RECEIVED sender tenant
       [(''offer_id'', JStr offer_id),
         (''status'', JStr ''received'')])
       \<lparr>env_correlation_id := Some corr, env_ephemeral_interface_id := Some eph\<rparr>"

definition create_intent_offers ::
  "uuid \<Rightarrow> datetime \<Rightarrow> uuid \<Rightarrow> string \<Rightarrow> uuid \<Rightarrow> uuid \<Rightarrow> payload list \<Rightarrow>
     message_envelope" where
  "create_intent_offers mid now sender tenant corr eph offs =
     (new_envelope mid now MT_INTENT_OFFERS sender tenant
       [(''offers'', JList (map JDict offs))])
       \<lparr>env_correlation_id := Some corr, env_ephemeral_interface_id := Some eph\<rparr>"

definition create_session_created ::
  "uuid \<Rightarrow> datetime \<Rightarrow> (datetime \<Rightarrow> string) \<Rightarrow> uuid \<Rightarrow> string \<Rightarrow> uuid \<Rightarrow>
     uuid \<Rightarrow> uuid \<Rightarrow> uuid \<Rightarrow> string \<Rightarrow> string option \<Rightarrow> string option \<Rightarrow>
     datetime option \<Rightarrow> message_envelope" where
  "create_session_created mid now show_time sender tenant corr eph requester_id provider_id chosen_offer_id chosen_schema_id chosen_view_id expires_at =
     (new_envelope mid now MT_SESSION_CREATED sender tenant
       [(''requester_id'', JStr (uuid_str requester_id)),
         (''provider_id'', JStr (uuid_str provider_id)),
         (''chosen_offer_id'', JStr chosen_offer_id),
         (''chosen_schema_id'', jopt chosen_schema_id),
         (''chosen_view_id'', jopt chosen_view_id),
         (''expires_at'', (case expires_at of None \<Rightarrow> JNone | Some d \<Rightarrow> JStr (show_time d)))])
       \<lparr>env_correlation_id := Some corr, env_ephemeral_interface_id := Some eph\<rparr>"

definition create_exec_request_msg ::
  "uuid \<Rightarrow> datetime \<Rightarrow> uuid \<Rightarrow> string \<Rightarrow> uuid \<Rightarrow> uuid \<Rightarrow> string \<Rightarrow>
     payload \<Rightarrow> message_envelope" where
  "create_exec_request_msg mid now sender tenant eph corr schema_id request_payload =
     (new_envelope mid now MT_EXEC_REQUEST sender tenant
       request_payload)
       \<lparr>env_correlation_id := Some corr, env_ephemeral_interface_id := Some eph, env_schema_id := Some schema_id\<rparr>"

definition create_exec_result_msg ::
  "uuid \<Rightarrow> datetime \<Rightarrow> uuid \<Rightarrow> string \<Rightarrow> uuid \<Rightarrow> uuid \<Rightarrow> uuid \<Rightarrow>
     string \<Rightarrow> payload \<Rightarrow> message_envelope" where
  "create_exec_result_msg mid now sender tenant eph corr caus schema_id result_payload =
     (new_envelope mid now MT_EXEC_RESULT sender tenant
       result_payload)
       \<lparr>env_correlation_id := Some corr, env_causation_id := Some caus, env_ephemeral_interface_id := Some eph, env_schema_id := Some schema_id\<rparr>"

definition create_exec_partial_failure ::
  "uuid \<Rightarrow> datetime \<Rightarrow> uuid \<Rightarrow> string \<Rightarrow> uuid \<Rightarrow> uuid \<Rightarrow> uuid \<Rightarrow>
     string \<Rightarrow> string \<Rightarrow> payload option \<Rightarrow> bool \<Rightarrow> message_envelope" where
  "create_exec_partial_failure mid now sender tenant eph corr caus error_code error_message partial_result can_retry =
     (new_envelope mid now MT_EXEC_PARTIAL_FAILURE sender tenant
       [(''error_code'', JStr error_code),
         (''error_message'', JStr error_message),
         (''partial_result'', jdict_opt partial_result),
         (''can_retry'', JBool can_retry)])
       \<lparr>env_correlation_id := Some corr, env_causation_id := Some caus, env_ephemeral_interface_id := Some eph\<rparr>"

definition create_exec_accepted ::
  "uuid \<Rightarrow> datetime \<Rightarrow> uuid \<Rightarrow> string \<Rightarrow> uuid \<Rightarrow> uuid \<Rightarrow> string \<Rightarrow>
     message_envelope" where
  "create_exec_accepted mid now sender tenant eph corr exec_id =
     (new_envelope mid now MT_EXEC_ACCEPTED sender tenant
       [(''exec_id'', JStr exec_id),
         (''status'', JStr ''accepted'')])
       \<lparr>env_correlation_id := Some corr, env_ephemeral_interface_id := Some eph\<rparr>"

definition create_exec_progress ::
  "uuid \<Rightarrow> datetime \<Rightarrow> uuid \<Rightarrow> string \<Rightarrow> uuid \<Rightarrow> uuid \<Rightarrow> string \<Rightarrow>
     rat \<Rightarrow> string option \<Rightarrow> message_envelope" where
  "create_exec_progress mid now sender tenant eph corr exec_id prog status_message =
     (new_envelope mid now MT_EXEC_PROGRESS sender tenant
       [(''exec_id'', JStr exec_id),
         (''progress'', JFloat prog),
         (''status_message'', jopt status_message)])
       \<lparr>env_correlation_id := Some corr, env_ephemeral_interface_id := Some eph\<rparr>"

definition create_exec_error ::
  "uuid \<Rightarrow> datetime \<Rightarrow> uuid \<Rightarrow> string \<Rightarrow> uuid \<Rightarrow> uuid \<Rightarrow> string option \<Rightarrow>
     string \<Rightarrow> string \<Rightarrow> payload \<Rightarrow> message_envelope" where
  "create_exec_error mid now sender tenant eph corr exec_id error_code error_message details =
     (new_envelope mid now MT_EXEC_ERROR sender tenant
       [(''exec_id'', jopt exec_id),
         (''error_code'', JStr error_code),
         (''error_message'', JStr error_message),
         (''details'', JDict details)])
       \<lparr>env_correlation_id := Some corr, env_ephemeral_interface_id := Some eph\<rparr>"

definition create_exec_stream_start ::
  "uuid \<Rightarrow> datetime \<Rightarrow> uuid \<Rightarrow> string \<Rightarrow> uuid \<Rightarrow> string \<Rightarrow> int \<Rightarrow>
     string option \<Rightarrow> int option \<Rightarrow> uuid option \<Rightarrow> message_envelope" where
  "create_exec_stream_start mid now sender tenant eph exec_id seq_no content_type expected_chunks corr =
     (new_envelope mid now MT_EXEC_STREAM_START sender tenant
       [(''exec_id'', JStr exec_id),
         (''seq'', JInt seq_no),
         (''content_type'', jopt content_type),
         (''expected_chunks'', jint_opt expected_chunks)])
       \<lparr>env_correlation_id := corr, env_ephemeral_interface_id := Some eph\<rparr>"

definition create_exec_stream_chunk ::
  "uuid \<Rightarrow> datetime \<Rightarrow> uuid \<Rightarrow> string \<Rightarrow> uuid \<Rightarrow> string \<Rightarrow> int \<Rightarrow>
     json \<Rightarrow> bool \<Rightarrow> uuid option \<Rightarrow> message_envelope" where
  "create_exec_stream_chunk mid now sender tenant eph exec_id seq_no dat is_final corr =
     (new_envelope mid now MT_EXEC_STREAM_CHUNK sender tenant
       [(''exec_id'', JStr exec_id),
         (''seq'', JInt seq_no),
         (''data'', dat),
         (''is_final'', JBool is_final)])
       \<lparr>env_correlation_id := corr, env_ephemeral_interface_id := Some eph\<rparr>"

definition create_exec_stream_end ::
  "uuid \<Rightarrow> datetime \<Rightarrow> uuid \<Rightarrow> string \<Rightarrow> uuid \<Rightarrow> string \<Rightarrow> int \<Rightarrow>
     int option \<Rightarrow> int option \<Rightarrow> uuid option \<Rightarrow> message_envelope" where
  "create_exec_stream_end mid now sender tenant eph exec_id seq_no chunks_n bytes_n corr =
     (new_envelope mid now MT_EXEC_STREAM_END sender tenant
       [(''exec_id'', JStr exec_id),
         (''seq'', JInt seq_no),
         (''total_chunks'', jint_opt chunks_n),
         (''total_bytes'', jint_opt bytes_n)])
       \<lparr>env_correlation_id := corr, env_ephemeral_interface_id := Some eph\<rparr>"

definition create_trace_get ::
  "uuid \<Rightarrow> datetime \<Rightarrow> uuid \<Rightarrow> string \<Rightarrow> uuid option \<Rightarrow> string option \<Rightarrow>
     int \<Rightarrow> message_envelope" where
  "create_trace_get mid now sender tenant eph exec_id tail_n =
     (new_envelope mid now MT_TRACE_GET sender tenant
       [(''exec_id'', jopt exec_id),
         (''tail'', JInt tail_n)])
       \<lparr>env_ephemeral_interface_id := eph\<rparr>"

definition create_trace_result ::
  "uuid \<Rightarrow> datetime \<Rightarrow> uuid \<Rightarrow> string \<Rightarrow> uuid option \<Rightarrow> payload list \<Rightarrow>
     bool \<Rightarrow> uuid option \<Rightarrow> message_envelope" where
  "create_trace_result mid now sender tenant eph events was_cut corr =
     (new_envelope mid now MT_TRACE_RESULT sender tenant
       [(''events'', JList (map JDict events)),
         (''count'', JInt (int (length events))),
         (''truncated'', JBool was_cut)])
       \<lparr>env_correlation_id := corr, env_ephemeral_interface_id := eph\<rparr>"

definition create_orchestration_plan ::
  "uuid \<Rightarrow> datetime \<Rightarrow> uuid \<Rightarrow> string \<Rightarrow> uuid \<Rightarrow> string \<Rightarrow> uuid \<Rightarrow>
     payload list \<Rightarrow> payload list \<Rightarrow> string \<Rightarrow> string \<Rightarrow> string option \<Rightarrow> message_envelope" where
  "create_orchestration_plan mid now sender tenant corr plan_id intent_id selected_agents tsks execution_mode aggregation reasoning =
     (new_envelope mid now MT_ORCHESTRATION_PLAN sender tenant
       [(''plan_id'', JStr plan_id),
         (''intent_id'', JStr (uuid_str intent_id)),
         (''selected_agents'', JList (map JDict selected_agents)),
         (''tasks'', JList (map JDict tsks)),
         (''execution_mode'', JStr execution_mode),
         (''aggregation'', JStr aggregation),
         (''reasoning'', jopt reasoning),
         (''agent_count'', JInt (int (length selected_agents))),
         (''task_count'', JInt (int (length tsks)))])
       \<lparr>env_correlation_id := Some corr\<rparr>"

definition create_multi_offer_status ::
  "uuid \<Rightarrow> datetime \<Rightarrow> uuid \<Rightarrow> string \<Rightarrow> uuid \<Rightarrow> string \<Rightarrow> int \<Rightarrow>
     int \<Rightarrow> payload list \<Rightarrow> message_envelope" where
  "create_multi_offer_status mid now sender tenant corr plan_id offers_received offers_pending offs =
     (new_envelope mid now MT_MULTI_OFFER_STATUS sender tenant
       [(''plan_id'', JStr plan_id),
         (''offers_received'', JInt offers_received),
         (''offers_pending'', JInt offers_pending),
         (''offers'', JList (map JDict offs))])
       \<lparr>env_correlation_id := Some corr\<rparr>"

definition create_multi_negotiation_status ::
  "uuid \<Rightarrow> datetime \<Rightarrow> uuid \<Rightarrow> string \<Rightarrow> uuid \<Rightarrow> string \<Rightarrow> int \<Rightarrow>
     int \<Rightarrow> int \<Rightarrow> payload list \<Rightarrow> message_envelope" where
  "create_multi_negotiation_status mid now sender tenant corr plan_id agents_accepted agents_rejected agents_pending agent_statuses =
     (new_envelope mid now MT_MULTI_NEGOTIATION_STATUS sender tenant
       [(''plan_id'', JStr plan_id),
         (''agents_accepted'', JInt agents_accepted),
         (''agents_rejected'', JInt agents_rejected),
         (''agents_pending'', JInt agents_pending),
         (''agent_statuses'', JList (map JDict agent_statuses))])
       \<lparr>env_correlation_id := Some corr\<rparr>"

definition create_multi_exec_start ::
  "uuid \<Rightarrow> datetime \<Rightarrow> uuid \<Rightarrow> string \<Rightarrow> uuid \<Rightarrow> string \<Rightarrow> uuid \<Rightarrow>
     string \<Rightarrow> int \<Rightarrow> int \<Rightarrow> message_envelope" where
  "create_multi_exec_start mid now sender tenant corr plan_id session execution_mode task_count agent_count =
     (new_envelope mid now MT_MULTI_EXEC_START sender tenant
       [(''plan_id'', JStr plan_id),
         (''session_id'', JStr (uuid_str session)),
         (''execution_mode'', JStr execution_mode),
         (''task_count'', JInt task_count),
         (''agent_count'', JInt agent_count)])
       \<lparr>env_correlation_id := Some corr\<rparr>"

definition create_multi_exec_task_result ::
  "uuid \<Rightarrow> datetime \<Rightarrow> uuid \<Rightarrow> string \<Rightarrow> uuid \<Rightarrow> string \<Rightarrow> uuid \<Rightarrow>
     string \<Rightarrow> uuid \<Rightarrow> bool \<Rightarrow> payload option \<Rightarrow> string option \<Rightarrow> rat \<Rightarrow>
     message_envelope" where
  "create_multi_exec_task_result mid now sender tenant corr plan_id session task_id agent_id succ outp err execution_time_ms =
     (new_envelope mid now MT_MULTI_EXEC_TASK_RESULT sender tenant
       [(''plan_id'', JStr plan_id),
         (''session_id'', JStr (uuid_str session)),
         (''task_id'', JStr task_id),
         (''agent_id'', JStr (uuid_str agent_id)),
         (''success'', JBool succ),
         (''output'', jdict_opt outp),
         (''error'', jopt err),
         (''execution_time_ms'', JFloat execution_time_ms)])
       \<lparr>env_correlation_id := Some corr\<rparr>"

definition create_multi_exec_complete ::
  "uuid \<Rightarrow> datetime \<Rightarrow> uuid \<Rightarrow> string \<Rightarrow> uuid \<Rightarrow> string \<Rightarrow> uuid \<Rightarrow>
     int \<Rightarrow> int \<Rightarrow> rat \<Rightarrow> message_envelope" where
  "create_multi_exec_complete mid now sender tenant corr plan_id session tasks_completed tasks_failed total_execution_time_ms =
     (new_envelope mid now MT_MULTI_EXEC_COMPLETE sender tenant
       [(''plan_id'', JStr plan_id),
         (''session_id'', JStr (uuid_str session)),
         (''tasks_completed'', JInt tasks_completed),
         (''tasks_failed'', JInt tasks_failed),
         (''total_execution_time_ms'', JFloat total_execution_time_ms)])
       \<lparr>env_correlation_id := Some corr\<rparr>"

definition create_aggregation_result ::
  "uuid \<Rightarrow> datetime \<Rightarrow> uuid \<Rightarrow> string \<Rightarrow> uuid \<Rightarrow> string \<Rightarrow> uuid \<Rightarrow>
     uuid \<Rightarrow> bool \<Rightarrow> bool \<Rightarrow> payload \<Rightarrow> string \<Rightarrow> payload list option \<Rightarrow>
     payload list option \<Rightarrow> payload list option \<Rightarrow> rat \<Rightarrow> message_envelope" where
  "create_aggregation_result mid now sender tenant corr plan_id session intent_id succ partial_success final_outp aggregation_strategy per_agent_results per_task_results errors total_execution_time_ms =
     (new_envelope mid now MT_AGGREGATION_RESULT sender tenant
       ([(''plan_id'', JStr plan_id),
         (''session_id'', JStr (uuid_str session)),
         (''intent_id'', JStr (uuid_str intent_id)),
         (''success'', JBool succ),
         (''partial_success'', JBool partial_success),
         (''final_output'', JDict final_outp),
         (''aggregation_strategy'', JStr aggregation_strategy),
         (''total_execution_time_ms'', JFloat total_execution_time_ms)]
        @ (case per_agent_results of None \<Rightarrow> [] | Some x \<Rightarrow> [(''per_agent_results'', JList (map JDict x))])
        @ (case per_task_results of None \<Rightarrow> [] | Some x \<Rightarrow> [(''per_task_results'', JList (map JDict x))])
        @ (case errors of None \<Rightarrow> [] | Some x \<Rightarrow> if x \<noteq> [] then [(''errors'', JList (map JDict x))] else [])))
       \<lparr>env_correlation_id := Some corr\<rparr>"

definition create_event_subscribe ::
  "uuid \<Rightarrow> datetime \<Rightarrow> uuid \<Rightarrow> string \<Rightarrow> uuid \<Rightarrow> string option \<Rightarrow>
     string list \<Rightarrow> bool \<Rightarrow> message_envelope" where
  "create_event_subscribe mid now sender tenant session exec_id event_types include_history =
     (new_envelope mid now MT_EVENT_SUBSCRIBE sender tenant
       ([(''session_id'', JStr (uuid_str session)),
         (''include_history'', JBool include_history)]
        @ (if str_true exec_id then [(''exec_id'', jopt exec_id)] else [])
        @ (if event_types \<noteq> [] then [(''event_types'', JList (map JStr event_types))] else [])))
       \<lparr>env_ephemeral_interface_id := Some session\<rparr>"

definition create_event_unsubscribe ::
  "uuid \<Rightarrow> datetime \<Rightarrow> uuid \<Rightarrow> string \<Rightarrow> uuid \<Rightarrow> string option \<Rightarrow> message_envelope" where
  "create_event_unsubscribe mid now sender tenant session subscription_id =
     (new_envelope mid now MT_EVENT_UNSUBSCRIBE sender tenant
       ([(''session_id'', JStr (uuid_str session))]
        @ (if str_true subscription_id then [(''subscription_id'', jopt subscription_id)] else [])))
       \<lparr>env_ephemeral_interface_id := Some session\<rparr>"

definition create_event_subscribed ::
  "uuid \<Rightarrow> datetime \<Rightarrow> uuid \<Rightarrow> string \<Rightarrow> uuid \<Rightarrow> uuid \<Rightarrow> string \<Rightarrow>
     string list \<Rightarrow> message_envelope" where
  "create_event_subscribed mid now sender tenant corr session subscription_id event_types =
     (new_envelope mid now MT_EVENT_SUBSCRIBED sender tenant
       ([(''session_id'', JStr (uuid_str session)),
         (''subscription_id'', JStr subscription_id)]
        @ (if event_types \<noteq> [] then [(''event_types'', JList (map JStr event_types))] else [])))
       \<lparr>env_correlation_id := Some corr, env_ephemeral_interface_id := Some session\<rparr>"

text \<open>
  The message type an event is delivered with. \<open>None\<close> is the \<open>AttributeError\<close> of \<open>startswith\<close> when the
  value is not a string.
\<close>

definition event_message_type :: "payload \<Rightarrow> message_type option" where
  "event_message_type event_data =
     (case dget_or event_data ''event_type'' (JStr []) of
        JStr v \<Rightarrow> Some (
          if starts_with v ''execution.'' then MT_EVENT_EXECUTION
          else if starts_with v ''flow.'' then MT_EVENT_FLOW
          else if starts_with v ''agent.'' then MT_EVENT_AGENT
          else if starts_with v ''reasoning.'' then MT_EVENT_REASONING
          else if starts_with v ''system.'' then MT_EVENT_SYSTEM
          else MT_EVENT)
      | _ \<Rightarrow> None)"

definition create_event_envelope ::
  "uuid \<Rightarrow> datetime \<Rightarrow> uuid \<Rightarrow> string \<Rightarrow> uuid \<Rightarrow> payload \<Rightarrow> uuid option \<Rightarrow>
     message_envelope option" where
  "create_event_envelope mid now sender tenant session event_data corr =
     map_option (\<lambda>ty. (new_envelope mid now ty sender tenant
       event_data)
       \<lparr>env_correlation_id := corr, env_ephemeral_interface_id := Some session\<rparr>)
       (event_message_type event_data)"

definition create_emit_event ::
  "uuid \<Rightarrow> datetime \<Rightarrow> uuid \<Rightarrow> string \<Rightarrow> uuid \<Rightarrow> string \<Rightarrow> string \<Rightarrow>
     string option \<Rightarrow> string \<Rightarrow> rat option \<Rightarrow> payload option \<Rightarrow> uuid option \<Rightarrow> message_envelope" where
  "create_emit_event mid now sender tenant session event_type msg exec_id severity progress_percent dat corr =
     (new_envelope mid now MT_EMIT_EVENT sender tenant
       ([(''event_type'', JStr event_type),
         (''message'', JStr msg),
         (''severity'', JStr severity)]
        @ (if str_true exec_id then [(''exec_id'', jopt exec_id)] else [])
        @ (case progress_percent of None \<Rightarrow> [] | Some x \<Rightarrow> [(''progress_percent'', JFloat x)])
        @ (case dat of None \<Rightarrow> [] | Some x \<Rightarrow> if x \<noteq> [] then [(''data'', JDict x)] else [])))
       \<lparr>env_correlation_id := corr, env_ephemeral_interface_id := Some session\<rparr>"

section \<open>Names on the wire\<close>

definition all_event_types :: "event_type list" where
  "all_event_types =
     [EV_EXECUTION_STARTED, EV_EXECUTION_PROGRESS, EV_EXECUTION_STEP_STARTED, EV_EXECUTION_STEP_COMPLETED,
      EV_EXECUTION_COMPLETED, EV_EXECUTION_FAILED, EV_EXECUTION_RETRYING, EV_EXECUTION_TIMEOUT, EV_FLOW_STARTED,
      EV_FLOW_AGENT_QUEUED, EV_FLOW_AGENT_STARTED, EV_FLOW_AGENT_COMPLETED, EV_FLOW_AGENT_FAILED,
      EV_FLOW_TRANSITION, EV_FLOW_COMPLETED, EV_FLOW_FAILED, EV_AGENT_STATUS, EV_AGENT_PROGRESS, EV_AGENT_METRIC,
      EV_AGENT_CUSTOM, EV_REASONING_STARTED, EV_REASONING_STEP, EV_REASONING_OBSERVATION, EV_REASONING_THOUGHT,
      EV_REASONING_ACTION, EV_REASONING_COMPLETED, EV_SYSTEM_INFO, EV_SYSTEM_WARNING, EV_SYSTEM_ERROR]"

definition event_type_of :: "string \<Rightarrow> event_type option" where
  "event_type_of = enum_of event_type_value all_event_types"

definition event_severity_of :: "string \<Rightarrow> event_severity option" where
  "event_severity_of = enum_of event_severity_value [SEV_DEBUG, SEV_INFO, SEV_WARNING, SEV_ERROR, SEV_CRITICAL]"

lemma message_type_of_iff: "message_type_of s = Some m \<longleftrightarrow> message_type_value m = s"
proof -
  have "distinct (map message_type_value all_message_types)" by code_simp
  moreover have "x \<in> set all_message_types" for x by (cases x) (simp_all add: all_message_types_def)
  ultimately show ?thesis unfolding message_type_of_def by (rule enum_of_iff)
qed

lemma event_type_of_iff: "event_type_of s = Some t \<longleftrightarrow> event_type_value t = s"
proof -
  have "distinct (map event_type_value all_event_types)" by code_simp
  moreover have "x \<in> set all_event_types" for x by (cases x) (simp_all add: all_event_types_def)
  ultimately show ?thesis unfolding event_type_of_def by (rule enum_of_iff)
qed

lemma event_severity_of_iff: "event_severity_of s = Some v \<longleftrightarrow> event_severity_value v = s"
proof -
  have "distinct (map event_severity_value [SEV_DEBUG, SEV_INFO, SEV_WARNING, SEV_ERROR, SEV_CRITICAL])" by code_simp
  moreover have "x \<in> set [SEV_DEBUG, SEV_INFO, SEV_WARNING, SEV_ERROR, SEV_CRITICAL]" for x by (cases x) simp_all
  ultimately show ?thesis unfolding event_severity_of_def by (rule enum_of_iff)
qed

text \<open>What the bus writes into envelopes it can read back: a printed id parses to the same id, and a string is
  accepted as a message type, event type or severity exactly when it is the value of that member, so no
  two members share a name on the wire.\<close>

theorem wire_names_roundtrip:
  "uuid_parse (uuid_str u) = Some u \<and> (message_type_of s = Some m \<longleftrightarrow> message_type_value m = s) \<and>
   (event_type_of s = Some t \<longleftrightarrow> event_type_value t = s) \<and> (event_severity_of s = Some v \<longleftrightarrow> event_severity_value v = s)"
  by (simp add: message_type_of_iff event_type_of_iff event_severity_of_iff)

text \<open>The envelope that delivers an event to a subscriber can always be built, carries the event's session and
  its whole payload, and its message type is the one of the event's category, never the generic one;
  type, severity, session and id of the event can be read back from the payload.\<close>

theorem event_envelope_spec:
  "\<exists>env. create_event_envelope mid now sender tenant session (ev_to_payload show_time e) corr = Some env \<and>
     env_ephemeral_interface_id env = Some session \<and> env_payload env = ev_to_payload show_time e \<and>
     env_tenant_id env = tenant \<and> env_correlation_id env = corr \<and>
     env_message_type env \<noteq> MT_EVENT \<and>
     starts_with (event_type_value (ev_event_type e)) (drop 6 (message_type_value (env_message_type env)) @ ''.'') \<and>
     (\<exists>ty sv i s. dget (env_payload env) ''event_type'' = Some (JStr ty) \<and> event_type_of ty = Some (ev_event_type e) \<and>
        dget (env_payload env) ''severity'' = Some (JStr sv) \<and> event_severity_of sv = Some (ev_severity e) \<and>
        dget (env_payload env) ''event_id'' = Some (JStr i) \<and> uuid_parse i = Some (ev_event_id e) \<and>
        dget (env_payload env) ''session_id'' = Some (JStr s) \<and> uuid_parse s = Some (ev_session_id e))"
proof -
  have ty: "dget_or (ev_to_payload show_time e) ''event_type'' (JStr []) = JStr (event_type_value (ev_event_type e))"
    by (simp add: ev_to_payload_def dget_or_def)
  obtain m where m: "event_message_type (ev_to_payload show_time e) = Some m" "m \<noteq> MT_EVENT"
      "starts_with (event_type_value (ev_event_type e)) (drop 6 (message_type_value m) @ ''.'')"
    by (cases "ev_event_type e") (simp_all add: event_message_type_def ty starts_with_def)
  have look: "dget (ev_to_payload show_time e) ''event_type'' = Some (JStr (event_type_value (ev_event_type e)))"
      "dget (ev_to_payload show_time e) ''severity'' = Some (JStr (event_severity_value (ev_severity e)))"
      "dget (ev_to_payload show_time e) ''event_id'' = Some (JStr (uuid_str (ev_event_id e)))"
      "dget (ev_to_payload show_time e) ''session_id'' = Some (JStr (uuid_str (ev_session_id e)))"
    by (simp_all add: ev_to_payload_def)
  show ?thesis
    by (simp add: create_event_envelope_def m new_envelope_def look event_type_of_iff event_severity_of_iff)
qed

end
