(* ===== verification/Intent_Router.thy ===== *)
theory Intent_Router
  imports Flow_Planner Envelope
begin

text \<open>
  \<open>src/routing/router.py\<close>: choosing the candidates of an intent or a flow of agents for it, and sending
  envelopes to agents. What lies outside the bus, the language models, LangGraph, the hash and the rendering
  of values as text, is collected in the record \<open>outside\<close>; nothing is assumed about it. The scores that
  a ranking writes into the agents are written into the registry, whose objects they are.
\<close>

record 'g outside =
  ot_hash_ids :: "uuid list \<Rightarrow> int"
  ot_str :: "json \<Rightarrow> string"
  ot_show_dict :: "payload \<Rightarrow> string"
  ot_rank :: llm
  ot_rank_created :: bool
  ot_flow :: "string \<Rightarrow> agent_flow option"
  ot_flow_created :: bool
  ot_compile :: "graph_call list \<Rightarrow> 'g option"

record intent_router =
  ir_max_candidates :: int
  ir_matcher :: semantic_matcher
  ir_flow_planner :: flow_planner

definition ir_init :: "int \<Rightarrow> intent_router" where
  "ir_init max_candidates =
     \<lparr>ir_max_candidates = max_candidates, ir_matcher = sx_init 300, ir_flow_planner = fp_init\<rparr>"

text \<open>\<open>f"{v}"\<close>, and whether \<open>v[:50]\<close> is defined.\<close>

definition text_of :: "'g outside \<Rightarrow> json \<Rightarrow> string" where
  "text_of out v = (case v of JStr s \<Rightarrow> s | _ \<Rightarrow> ot_str out v)"

definition sliceable :: "json \<Rightarrow> bool" where
  "sliceable v = (case v of JStr _ \<Rightarrow> True | JList _ \<Rightarrow> True | _ \<Rightarrow> False)"

definition cache_hit :: "datetime \<Rightarrow> string \<Rightarrow> semantic_matcher \<Rightarrow> bool" where
  "cache_hit now key m = (fst (sx_get_cached_results now key m) \<noteq> None)"

definition rg_with_scores :: "(string, rat) pydict \<Rightarrow> agent_record list \<Rightarrow> agent_registry \<Rightarrow> agent_registry" where
  "rg_with_scores scores agents r =
     r\<lparr>rg_agents_by_conn := dmap (\<lambda>a. if a \<in> set agents then with_score scores a else a) (rg_agents_by_conn r)\<rparr>"

definition tenant_agents :: "message_envelope \<Rightarrow> agent_registry \<Rightarrow> agent_record list" where
  "tenant_agents e r = filter (\<lambda>a. ar_agent_id a \<noteq> env_sender_id e) (rg_find_by_tenant (env_tenant_id e) True r)"

text \<open>
  An intent that is not a text raises an exception when its results are found in the cache, in the message
  written to the log; it is answered by no candidates.
\<close>

definition find_candidates_for_intent ::
  "'g outside \<Rightarrow> datetime \<Rightarrow> message_envelope \<Rightarrow> intent_router \<times> agent_registry \<Rightarrow>
     agent_record list \<times> intent_router \<times> agent_registry" where
  "find_candidates_for_intent out now e st =
     (let (R, r) = st;
          intent = pget (env_payload e) ''intent'' (JStr []);
          agents = tenant_agents e r;
          key = sx_get_cache_key (ot_hash_ids out) (text_of out intent) agents in
      if \<not> py_bool intent then ([], R, r)
      else if agents = [] then ([], R, r)
      else if \<not> sliceable intent \<and> cache_hit now key (ir_matcher R) then ([], R, r)
      else let ((ranked, scores), m) = sx_rank_agents (ot_hash_ids out) (ot_rank out) (ot_rank_created out) now
                   (text_of out intent) agents (ir_max_candidates R) (1 / 2) (ir_matcher R)
           in (ranked, R\<lparr>ir_matcher := m\<rparr>, rg_with_scores scores agents r))"

definition intent_params :: "payload \<Rightarrow> payload" where
  "intent_params p = filter (\<lambda>(k, v). k \<noteq> ''intent'') p"

text \<open>
  A failure of the planner, as for an intent that is not a text and cannot be abbreviated for the log, is
  answered by no flow.
\<close>

definition find_agent_flow ::
  "'g outside \<Rightarrow> message_envelope \<Rightarrow> intent_router \<times> agent_registry \<Rightarrow>
     (agent_flow option \<times> 'g option) \<times> intent_router" where
  "find_agent_flow out e st =
     (let (R, r) = st;
          intent = pget (env_payload e) ''intent'' (JStr []);
          params = intent_params (env_payload e);
          agents = tenant_agents e r in
      if \<not> py_bool intent then ((None, None), R)
      else if agents = [] then ((None, None), R)
      else if \<not> sliceable intent then
        ((None, None), R\<lparr>ir_flow_planner := snd (fp_init_llm (ot_flow_created out) (ir_flow_planner R))\<rparr>)
      else let ((flow, graph), p) = fp_plan_and_build (ot_show_dict out) (ot_flow out) (ot_flow_created out) (ot_compile out)
                   (text_of out intent) agents params (ir_flow_planner R)
           in (case flow of None \<Rightarrow> (None, None) | Some f \<Rightarrow> (Some f, graph), R\<lparr>ir_flow_planner := p\<rparr>))"

text \<open>
  \<open>send_ok\<close> says whether a socket accepts an envelope. The result carries what was sent.
\<close>

type_synonym sent = "(websocket \<times> message_envelope) list"

definition route_to_agent ::
  "(websocket \<Rightarrow> message_envelope \<Rightarrow> bool) \<Rightarrow> agent_registry \<Rightarrow> agent_record \<Rightarrow> message_envelope \<Rightarrow> bool \<times> sent" where
  "route_to_agent send_ok r a e =
     (case rg_get_websocket (ar_conn_id a) r of
        None \<Rightarrow> (False, [])
      | Some w \<Rightarrow> if send_ok w e then (True, [(w, e)]) else (False, []))"

fun broadcast_to_candidates ::
  "(websocket \<Rightarrow> message_envelope \<Rightarrow> bool) \<Rightarrow> agent_registry \<Rightarrow> agent_record list \<Rightarrow> message_envelope \<Rightarrow> uuid list \<times> sent" where
  "broadcast_to_candidates send_ok r [] e = ([], [])"
| "broadcast_to_candidates send_ok r (a # as) e =
     (let (ok, s) = route_to_agent send_ok r a e;
          (ids, ss) = broadcast_to_candidates send_ok r as e
      in ((if ok then [ar_agent_id a] else []) @ ids, s @ ss))"

section \<open>Candidates belong to the tenant\<close>

lemma tenant_agents_iff:
  assumes "rg_inv r" and "env_tenant_id e \<noteq> []"
  shows "a \<in> set (tenant_agents e r) \<longleftrightarrow>
    rg_get_agent_by_conn (ar_conn_id a) r = Some a \<and> ar_tenant_id a = env_tenant_id e \<and>
    ar_status a = AGENT_ONLINE \<and> ar_agent_id a \<noteq> env_sender_id e"
proof -
  have "a \<in> set (dvalues (rg_agents_by_conn r)) \<longleftrightarrow> dget (rg_agents_by_conn r) (ar_conn_id a) = Some a"
    using rg_invD(1,4) [OF assms(1)] by (auto simp: dvalues_dget)
  then show ?thesis
    using assms(2) by (auto simp: tenant_agents_def rg_find_by_tenant_def rg_list_agents_def str_filter_def str_true_def
        rg_get_agent_by_conn_def)
qed

lemma rg_with_scores_conn [simp]:
  "rg_get_agent_by_conn c (rg_with_scores scores agents r) =
     map_option (\<lambda>a. if a \<in> set agents then with_score scores a else a) (rg_get_agent_by_conn c r)"
  by (simp add: rg_get_agent_by_conn_def rg_with_scores_def)

lemma rg_with_scores_inv [inv_intros]: "rg_inv r \<Longrightarrow> rg_inv (rg_with_scores scores agents r)"
  unfolding rg_with_scores_def by (rule rg_update_inv) (auto simp: rg_invD(1))

lemma find_candidates_cases:
  assumes "find_candidates_for_intent out now e (R, r) = (as, R', r')"
  obtains "as = []" "r' = r" "R' = R"
  | scores m where "sx_rank_agents (ot_hash_ids out) (ot_rank out) (ot_rank_created out) now
        (text_of out (pget (env_payload e) ''intent'' (JStr []))) (tenant_agents e r) (ir_max_candidates R) (1 / 2)
        (ir_matcher R) = ((as, scores), m)"
      "r' = rg_with_scores scores (tenant_agents e r) r" "R' = R\<lparr>ir_matcher := m\<rparr>"
proof -
  let ?a = "tenant_agents e r" and ?i = "pget (env_payload e) ''intent'' (JStr [])"
  obtain ranked scores m where s: "sx_rank_agents (ot_hash_ids out) (ot_rank out) (ot_rank_created out) now (text_of out ?i) ?a
      (ir_max_candidates R) (1 / 2) (ir_matcher R) = ((ranked, scores), m)"
    using prod.exhaust by metis
  have "as = [] \<and> r' = r \<and> R' = R \<or>
      as = ranked \<and> r' = rg_with_scores scores ?a r \<and> R' = R\<lparr>ir_matcher := m\<rparr>"
    using assms by (simp add: find_candidates_for_intent_def Let_def s split: if_splits)
  then show thesis using that s by blast
qed

lemma with_score_metadata [simp]: "(with_score scores a)\<lparr>ar_metadata := x\<rparr> = a\<lparr>ar_metadata := x\<rparr>"
  by (simp add: with_score_def split: option.split)

lemma rg_id_of_conn:
  "rg_inv r \<Longrightarrow> rg_get_agent_by_conn c r = Some a \<Longrightarrow>
     ar_conn_id a = c \<and> rg_get_agent_by_id (ar_agent_id a) r = Some a \<and>
     rg_get_websocket_by_agent_id (ar_agent_id a) r = rg_get_websocket c r"
  using rg_invD(4,5) [of r c a] conn_id_not_Nil [symmetric]
  by (auto simp: rg_get_agent_by_conn_def rg_get_agent_by_id_def rg_get_websocket_by_agent_id_def rg_get_websocket_def)

text \<open>The members of a ranking are the registered agents, with their scores.\<close>

lemma candidate_facts:
  assumes inv: "rg_inv r" and ten: "env_tenant_id e \<noteq> []" and k: "0 \<le> ir_max_candidates R"
    and f: "find_candidates_for_intent out now e (R, r) = (as, R', r')"
  shows "int (length as) \<le> ir_max_candidates R" and "ir_max_candidates R' = ir_max_candidates R" and "rg_inv r'"
    and "a \<in> set as \<Longrightarrow> rg_get_agent_by_conn (ar_conn_id a) r' = Some a \<and> ar_tenant_id a = env_tenant_id e \<and>
       ar_status a = AGENT_ONLINE \<and> ar_agent_id a \<noteq> env_sender_id e"
    and "map_option (ar_metadata_update (\<lambda>_. [])) (rg_get_agent_by_conn c r') =
         map_option (ar_metadata_update (\<lambda>_. [])) (rg_get_agent_by_conn c r)"
proof -
  let ?G = "int (length as) \<le> ir_max_candidates R \<and> ir_max_candidates R' = ir_max_candidates R \<and> rg_inv r' \<and>
    (\<forall>a\<in>set as. rg_get_agent_by_conn (ar_conn_id a) r' = Some a \<and> ar_tenant_id a = env_tenant_id e \<and>
       ar_status a = AGENT_ONLINE \<and> ar_agent_id a \<noteq> env_sender_id e) \<and>
    (\<forall>c. map_option (ar_metadata_update (\<lambda>_. [])) (rg_get_agent_by_conn c r') =
         map_option (ar_metadata_update (\<lambda>_. [])) (rg_get_agent_by_conn c r))"
  have ?G using f
  proof (cases rule: find_candidates_cases)
    case 1
    then show ?thesis using inv k by simp
  next
    case (2 scores m)
    note sound = rank_agents_members [OF k 2(1)]
    have "rg_get_agent_by_conn (ar_conn_id a) r' = Some a \<and> ar_tenant_id a = env_tenant_id e \<and>
       ar_status a = AGENT_ONLINE \<and> ar_agent_id a \<noteq> env_sender_id e" if a: "a \<in> set as" for a
    proof -
      obtain b where "b \<in> set (tenant_agents e r)" "a = with_score scores b" using sound(3) a by blast
      then show ?thesis using tenant_agents_iff [OF inv ten, of b] by (simp add: 2(2))
    qed
    moreover have "map_option (ar_metadata_update (\<lambda>_. [])) (rg_get_agent_by_conn c r') =
         map_option (ar_metadata_update (\<lambda>_. [])) (rg_get_agent_by_conn c r)" for c
      by (simp add: 2(2) option.map_comp comp_def if_distrib cong: if_cong) 
    ultimately show ?thesis using sound(1) inv by (simp add: 2(2,3) rg_with_scores_inv)
  qed
  then show "int (length as) \<le> ir_max_candidates R" "ir_max_candidates R' = ir_max_candidates R" "rg_inv r'"
    "a \<in> set as \<Longrightarrow> rg_get_agent_by_conn (ar_conn_id a) r' = Some a \<and> ar_tenant_id a = env_tenant_id e \<and>
       ar_status a = AGENT_ONLINE \<and> ar_agent_id a \<noteq> env_sender_id e"
    "map_option (ar_metadata_update (\<lambda>_. [])) (rg_get_agent_by_conn c r') =
         map_option (ar_metadata_update (\<lambda>_. [])) (rg_get_agent_by_conn c r)" by blast+
qed

lemma broadcast_spec:
  assumes "broadcast_to_candidates send_ok r as m = (ids, messages)"
  shows "(w, x) \<in> set messages \<Longrightarrow> x = m \<and> (\<exists>a\<in>set as. rg_get_websocket (ar_conn_id a) r = Some w)"
    and "set ids \<subseteq> ar_agent_id ` set as" and "length ids = length messages"
proof -
  have "(\<forall>x\<in>set messages. snd x = m \<and> (\<exists>a\<in>set as. rg_get_websocket (ar_conn_id a) r = Some (fst x))) \<and>
      set ids \<subseteq> ar_agent_id ` set as \<and> length ids = length messages"
    using assms
  proof (induction as arbitrary: ids messages)
    case (Cons a as)
    obtain i s where rest: "broadcast_to_candidates send_ok r as m = (i, s)" by fastforce
    show ?case using Cons.IH [OF rest] Cons.prems
      by (auto simp: rest route_to_agent_def split: option.splits if_splits)
  qed simp
  then show "(w, x) \<in> set messages \<Longrightarrow> x = m \<and> (\<exists>a\<in>set as. rg_get_websocket (ar_conn_id a) r = Some w)"
    "set ids \<subseteq> ar_agent_id ` set as" "length ids = length messages" by fastforce+
qed

text \<open>C23: whatever the language model and the cache answer, the candidates of an intent from a tenant are at most
  \<open>max_candidates\<close> online agents registered under that tenant other than the sender, no others get a
  message by a broadcast to them, and choosing them leaves the tables of the registry in step and changes
  nothing of an agent but its metadata.\<close>

theorem candidates_isolated:
  assumes "rg_inv r" and "env_tenant_id e \<noteq> []" and "0 \<le> ir_max_candidates R"
    and "find_candidates_for_intent out now e (R, r) = (as, R', r')"
    and "broadcast_to_candidates send_ok r' as m = (ids, messages)"
  shows "rg_inv r' \<and> ir_max_candidates R' = ir_max_candidates R \<and> int (length as) \<le> ir_max_candidates R \<and>
    (\<forall>a\<in>set as. rg_get_agent_by_id (ar_agent_id a) r' = Some a \<and> ar_tenant_id a = env_tenant_id e \<and>
       ar_status a = AGENT_ONLINE \<and> ar_agent_id a \<noteq> env_sender_id e) \<and>
    (\<forall>(w, x)\<in>set messages. x = m \<and> (\<exists>a\<in>set as. rg_get_websocket_by_agent_id (ar_agent_id a) r' = Some w)) \<and>
    set ids \<subseteq> ar_agent_id ` set as \<and> length ids = length messages \<and>
    (\<forall>c. map_option (ar_metadata_update (\<lambda>_. [])) (rg_get_agent_by_conn c r') =
         map_option (ar_metadata_update (\<lambda>_. [])) (rg_get_agent_by_conn c r))"
proof -
  note F = candidate_facts [OF assms(1-4)] and B = broadcast_spec [OF assms(5)]
  have a: "\<forall>a\<in>set as. rg_get_agent_by_id (ar_agent_id a) r' = Some a \<and> ar_tenant_id a = env_tenant_id e \<and>
       ar_status a = AGENT_ONLINE \<and> ar_agent_id a \<noteq> env_sender_id e"
    using F(4) rg_id_of_conn [OF F(3)] by blast
  have w: "\<forall>(w, x)\<in>set messages. x = m \<and> (\<exists>a\<in>set as. rg_get_websocket_by_agent_id (ar_agent_id a) r' = Some w)"
  proof clarify
    fix w x
    assume "(w, x) \<in> set messages"
    then obtain a where a: "x = m" "a \<in> set as" "rg_get_websocket (ar_conn_id a) r' = Some w" using B(1) by blast
    then show "x = m \<and> (\<exists>a\<in>set as. rg_get_websocket_by_agent_id (ar_agent_id a) r' = Some w)"
      using rg_id_of_conn [OF F(3), of "ar_conn_id a" a] F(4) [OF a(2)] by auto
  qed
  show ?thesis by (intro conjI F(1-3) a w B(2,3) allI F(5))
qed

definition ex_intent :: "uuid \<Rightarrow> string \<Rightarrow> message_envelope" where
  "ex_intent sender tenant = new_envelope 90 0 MT_INTENT_BROADCAST sender tenant [(''intent'', JStr ''translate'')]"

text \<open>An outside world whose model rates the given agents.\<close>

definition ex_outside :: "match_result list \<Rightarrow> agent_flow option \<Rightarrow> unit outside" where
  "ex_outside ratings flow = \<lparr>ot_hash_ids = \<lambda>_. 0, ot_str = \<lambda>_. [], ot_show_dict = \<lambda>_. [],
     ot_rank = \<lambda>_ _. LlmResults ratings, ot_rank_created = True,
     ot_flow = \<lambda>_. flow, ot_flow_created = True, ot_compile = \<lambda>_. Some ()\<rparr>"

lemmas router_ex_simps = find_candidates_for_intent_def tenant_agents_def ex_intent_def ex_outside_def ex_registry_def
  new_envelope_def rg_register_def rg_init_def vr_init_def ir_init_def sx_init_def sx_rank_agents_def sx_get_cached_results_def
  sx_call_agent_def sx_init_agent_def sx_cache_results_def sx_rank_def agent_map_of_def ex_rating_def with_score_def
  rg_find_by_tenant_def rg_list_agents_def str_filter_def str_true_def dvalues_def new_agent_record_def rg_with_scores_def
  dmap_def register_agent_schemas_def dget_or_def py_first_def din_def Let_def sliceable_def

lemma ex_candidates:
  "map ar_agent_id (fst (find_candidates_for_intent (ex_outside [ex_rating 1 (4 / 5)] None) 0 (ex_intent 2 ''acme'')
     (ir_init 3, ex_registry))) = [1]"
  by (simp add: router_ex_simps)

theorem candidates_isolated_witness:
  "let (as, R', r') = find_candidates_for_intent (ex_outside [ex_rating 1 (4 / 5)] None) 0 (ex_intent 2 ''acme'')
         (ir_init 3, ex_registry) in
     map ar_agent_id as = [1] \<and> map ar_tenant_id as = [''acme''] \<and> rg_inv r'"
proof -
  obtain as R' r' where u: "find_candidates_for_intent (ex_outside [ex_rating 1 (4 / 5)] None) 0 (ex_intent 2 ''acme'')
      (ir_init 3, ex_registry) = (as, R', r')" using prod.exhaust by metis
  obtain ids ms where b: "broadcast_to_candidates (\<lambda>_ _. True) r' as (ex_intent 2 ''acme'') = (ids, ms)" by fastforce
  have "rg_inv ex_registry" by (rule rg_reachable_inv) (rule ex_registry_reachable)
  moreover have "env_tenant_id (ex_intent 2 ''acme'') = ''acme''" "0 \<le> ir_max_candidates (ir_init 3)"
    by (simp_all add: ex_intent_def new_envelope_def ir_init_def)
  ultimately show ?thesis
    using candidates_isolated [OF _ _ _ u b] ex_candidates by (auto simp: u)
qed

text \<open>A message without a tenant is matched with the agents of all tenants.\<close>

lemma empty_tenant_unfiltered:
  "map (\<lambda>a. (ar_agent_id a, ar_tenant_id a)) (fst (find_candidates_for_intent (ex_outside [ex_rating 1 (4 / 5)] None) 0
     (ex_intent 2 []) (ir_init 3, ex_registry))) = [(1, ''acme'')]"
  by (simp add: router_ex_simps)

text \<open>The agents of a flow are not compared with the agents it was made from.\<close>

lemma flow_names_unregistered_agent:
  "fst (fst (find_agent_flow (ex_outside [] (Some (ex_flow [ex_node ''nobody'' []]))) (ex_intent 2 ''acme'') (ir_init 3, ex_registry))) =
     Some (ex_flow [ex_node ''nobody'' []])"
  by (simp add: find_agent_flow_def fp_plan_and_build_def fp_discover_flow_def fp_init_llm_def fp_build_langgraph_def
      router_ex_simps ex_flow_def fp_init_def)

end
