(* ===== verification/Queued_Router.thy ===== *)
theory Queued_Router
  imports Task_Queue_Props Intent_Router
begin

text \<open>
  \<open>src/routing/queued_router.py\<close>: sending messages through the task queue. The router works with any queue;
  the operations it calls are parameters of its definitions, and the locale \<open>task_sink\<close> says what it
  relies on. \<open>dump\<close> is the rendering of an envelope as JSON.
\<close>

record queued_router =
  qr_default_priority :: task_priority
  qr_default_ttl :: int

definition qr_init :: "task_priority \<Rightarrow> int \<Rightarrow> queued_router" where
  "qr_init default_priority default_ttl_seconds =
     \<lparr>qr_default_priority = default_priority, qr_default_ttl = default_ttl_seconds\<rparr>"

text \<open>\<open>priority or default\<close>: the priority is an integer, and the critical one is 0.\<close>

definition priority_or :: "task_priority option \<Rightarrow> task_priority \<Rightarrow> task_priority" where
  "priority_or p d = (case p of None \<Rightarrow> d | Some p \<Rightarrow> if task_priority_value p \<noteq> 0 then p else d)"

definition ttl_or :: "int option \<Rightarrow> int \<Rightarrow> int" where
  "ttl_or t d = (case t of None \<Rightarrow> d | Some t \<Rightarrow> if t \<noteq> 0 then t else d)"

definition task_to_agent ::
  "(message_envelope \<Rightarrow> string) \<Rightarrow> queued_router \<Rightarrow> uuid \<Rightarrow> datetime \<Rightarrow> agent_record \<Rightarrow> message_envelope \<Rightarrow>
     task_priority option \<Rightarrow> int option \<Rightarrow> uuid option \<Rightarrow> uuid option \<Rightarrow> task_payload" where
  "task_to_agent dump Q fresh now a e priority ttl_seconds session_id exec_id =
     (new_task_payload fresh now)
       \<lparr>tp_tenant_id := env_tenant_id e, tp_target_agent_id := Some (ar_agent_id a), tp_target_conn_id := Some (ar_conn_id a),
        tp_message_type := message_type_value (env_message_type e), tp_envelope_json := dump e,
        tp_session_id := session_id, tp_exec_id := exec_id,
        tp_priority := priority_or priority (qr_default_priority Q), tp_ttl_seconds := ttl_or ttl_seconds (qr_default_ttl Q),
        tp_correlation_id := Some (env_message_id e),
        tp_metadata := [(''sender_id'', JStr (uuid_str (env_sender_id e)))]\<rparr>"

type_synonym 'q enqueue = "datetime \<Rightarrow> task_payload \<Rightarrow> 'q \<Rightarrow> (task_queue_error + unit) \<times> 'q"

definition queue_to_agent ::
  "'q enqueue \<Rightarrow> (message_envelope \<Rightarrow> string) \<Rightarrow> queued_router \<Rightarrow> uuid \<Rightarrow> datetime \<Rightarrow> agent_record \<Rightarrow> message_envelope \<Rightarrow>
     task_priority option \<Rightarrow> int option \<Rightarrow> uuid option \<Rightarrow> uuid option \<Rightarrow> 'q \<Rightarrow> (task_queue_error + task_payload) \<times> 'q" where
  "queue_to_agent enq dump Q fresh now a e priority ttl_seconds session_id exec_id q =
     (let task = task_to_agent dump Q fresh now a e priority ttl_seconds session_id exec_id in
      case enq now task q of
        (Inl err, q) \<Rightarrow> (Inl err, q)
      | (Inr _, q) \<Rightarrow> (Inr task, q))"

text \<open>The loop over the candidates; \<open>fresh\<close> makes the task ids. The first error ends it.\<close>

fun queue_loop ::
  "'q enqueue \<Rightarrow> (message_envelope \<Rightarrow> string) \<Rightarrow> queued_router \<Rightarrow> (nat \<Rightarrow> uuid) \<Rightarrow> datetime \<Rightarrow> nat \<Rightarrow> agent_record list \<Rightarrow>
     message_envelope \<Rightarrow> task_priority option \<Rightarrow> int option \<Rightarrow> uuid option \<Rightarrow> 'q \<Rightarrow>
     (task_queue_error + task_payload list) \<times> 'q" where
  "queue_loop enq dump Q fresh now i [] e priority ttl session_id q = (Inr [], q)"
| "queue_loop enq dump Q fresh now i (a # as) e priority ttl session_id q =
     (case queue_to_agent enq dump Q (fresh i) now a e priority ttl session_id None q of
        (Inl err, q) \<Rightarrow> (Inl err, q)
      | (Inr t, q) \<Rightarrow>
          (case queue_loop enq dump Q fresh now (i + 1) as e priority ttl session_id q of
             (Inl err, q) \<Rightarrow> (Inl err, q)
           | (Inr ts, q) \<Rightarrow> (Inr (t # ts), q)))"

definition queue_to_candidates ::
  "'q enqueue \<Rightarrow> (message_envelope \<Rightarrow> string) \<Rightarrow> queued_router \<Rightarrow> (nat \<Rightarrow> uuid) \<Rightarrow> datetime \<Rightarrow> agent_record list \<Rightarrow>
     message_envelope \<Rightarrow> task_priority option \<Rightarrow> int option \<Rightarrow> uuid option \<Rightarrow> 'q \<Rightarrow>
     (task_queue_error + task_payload list) \<times> 'q" where
  "queue_to_candidates enq dump Q fresh now as e priority ttl session_id q =
     queue_loop enq dump Q fresh now 0 as e priority ttl session_id q"

datatype routed = Queued "task_queue_error + task_payload" | Sent bool sent

definition qr_route_to_agent ::
  "'q enqueue \<Rightarrow> (message_envelope \<Rightarrow> string) \<Rightarrow> (websocket \<Rightarrow> message_envelope \<Rightarrow> bool) \<Rightarrow> agent_registry \<Rightarrow> queued_router \<Rightarrow>
     uuid \<Rightarrow> datetime \<Rightarrow> agent_record \<Rightarrow> message_envelope \<Rightarrow> bool \<Rightarrow>
     task_priority option \<Rightarrow> int option \<Rightarrow> uuid option \<Rightarrow> uuid option \<Rightarrow> 'q \<Rightarrow> routed \<times> 'q" where
  "qr_route_to_agent enq dump send_ok r Q fresh now a e use_queue priority ttl session_id exec_id q =
     (if use_queue then
        let (res, q) = queue_to_agent enq dump Q fresh now a e priority ttl session_id exec_id q in (Queued res, q)
      else let (ok, messages) = route_to_agent send_ok r a e in (Sent ok messages, q))"

definition get_queue_depth :: "uuid option \<Rightarrow> mem_queue \<Rightarrow> int" where
  "get_queue_depth agent_id q = (case agent_id of Some g \<Rightarrow> mq_pending_by_agent g q | None \<Rightarrow> mq_size None q)"

definition get_agent_load :: "uuid \<Rightarrow> mem_queue \<Rightarrow> rat" where
  "get_agent_load agent_id q = min 1 (of_int (mq_pending_by_agent agent_id q) / 10)"

definition create_queued_router :: "int \<Rightarrow> task_priority \<Rightarrow> int \<Rightarrow> intent_router \<times> queued_router" where
  "create_queued_router max_candidates default_priority default_ttl_seconds =
     (ir_init max_candidates, qr_init default_priority default_ttl_seconds)"

section \<open>What the router relies on\<close>

text \<open>Enqueuing a task of an unknown id either adds it as pending or reports an error and adds nothing.\<close>

locale task_sink = task_queue +
  fixes enq :: "'a enqueue"
  assumes enq_ok: "inv q \<Longrightarrow> status_of q (tp_task_id t) = None \<Longrightarrow> enq now t q = (Inr u, q') \<Longrightarrow>
      inv q' \<and> status_of q' = (status_of q)(tp_task_id t \<mapsto> TASK_PENDING) \<and>
      payload_of q' = (payload_of q)(tp_task_id t \<mapsto> t)"
    and enq_error: "inv q \<Longrightarrow> enq now t q = (Inl err, q') \<Longrightarrow>
      inv q' \<and> status_of q' = status_of q \<and> payload_of q' = payload_of q"
begin

abbreviation tasks_for ::
  "(message_envelope \<Rightarrow> string) \<Rightarrow> queued_router \<Rightarrow> (nat \<Rightarrow> uuid) \<Rightarrow> datetime \<Rightarrow> nat \<Rightarrow> agent_record list \<Rightarrow> message_envelope \<Rightarrow>
     task_priority option \<Rightarrow> int option \<Rightarrow> uuid option \<Rightarrow> task_payload list" where
  "tasks_for dump Q fresh now i as e p ttl s \<equiv>
     map (\<lambda>(j, a). task_to_agent dump Q (fresh j) now a e p ttl s None) (enumerate i as)"

text \<open>A run of the loop queues the tasks of the first \<open>n\<close> candidates, of all when there is no error.\<close>

lemma queue_loop_spec:
  assumes "inv q" and "inj_on fresh {i..<i + length as}" and "\<forall>j\<in>{i..<i + length as}. status_of q (fresh j) = None"
    and "queue_loop enq dump Q fresh now i as e p ttl s q = (res, q')"
  shows "\<exists>n \<le> length as. let ts = tasks_for dump Q fresh now i (take n as) e p ttl s in
    inv q' \<and>
    (\<forall>x. status_of q' x = (if x \<in> tp_task_id ` set ts then Some TASK_PENDING else status_of q x)) \<and>
    (\<forall>t\<in>set ts. payload_of q' (tp_task_id t) = Some t) \<and>
    (\<forall>x. x \<notin> tp_task_id ` set ts \<longrightarrow> payload_of q' x = payload_of q x) \<and>
    (case res of Inr us \<Rightarrow> us = ts \<and> n = length as | Inl _ \<Rightarrow> n < length as)"
  using assms
proof (induction as arbitrary: i q q' res)
  case (Cons a as)
  let ?t = "task_to_agent dump Q (fresh i) now a e p ttl s None"
  have tid: "tp_task_id (task_to_agent dump Q x now a e p ttl s ex) = x" for x a ex
    by (simp add: task_to_agent_def new_task_payload_def)
  obtain r q1 where e: "enq now ?t q = (r, q1)" by fastforce
  show ?case
  proof (cases r)
    case (Inl err)
    then have "res = Inl err" "q' = q1" using Cons.prems(4) by (simp_all add: queue_to_agent_def Let_def e)
    then show ?thesis using enq_error [OF Cons.prems(1), of now ?t err q1] e Inl by (intro exI [of _ 0]) simp
  next
    case (Inr u)
    have ok: "inv q1" "status_of q1 = (status_of q)(fresh i \<mapsto> TASK_PENDING)" "payload_of q1 = (payload_of q)(fresh i \<mapsto> ?t)"
      using enq_ok [OF Cons.prems(1), of ?t now u q1] e Inr Cons.prems(3) by (simp_all add: tid)
    obtain r2 q2 where l: "queue_loop enq dump Q fresh now (Suc i) as e p ttl s q1 = (r2, q2)" by fastforce
    have inj: "inj_on fresh {Suc i..<Suc i + length as}" using Cons.prems(2) by (rule inj_on_subset) auto
    have first: "fresh j \<noteq> fresh i" if "Suc i \<le> j" "j < Suc i + length as" for j
      using inj_onD [OF Cons.prems(2), of j i] that by auto
    have "\<forall>j\<in>{Suc i..<Suc i + length as}. status_of q1 (fresh j) = None"
      using Cons.prems(3) first by (auto simp: ok(2))
    from Cons.IH [OF ok(1) inj this l] obtain n where n: "n \<le> length as" and
      ih: "let ts = tasks_for dump Q fresh now (Suc i) (take n as) e p ttl s in
        inv q2 \<and>
        (\<forall>x. status_of q2 x = (if x \<in> tp_task_id ` set ts then Some TASK_PENDING else status_of q1 x)) \<and>
        (\<forall>t\<in>set ts. payload_of q2 (tp_task_id t) = Some t) \<and>
        (\<forall>x. x \<notin> tp_task_id ` set ts \<longrightarrow> payload_of q2 x = payload_of q1 x) \<and>
        (case r2 of Inr us \<Rightarrow> us = ts \<and> n = length as | Inl _ \<Rightarrow> n < length as)" by blast
    let ?ts = "tasks_for dump Q fresh now (Suc i) (take n as) e p ttl s"
    have all: "tasks_for dump Q fresh now i (take (Suc n) (a # as)) e p ttl s = ?t # ?ts" by simp
    have later: "fresh i \<notin> tp_task_id ` set ?ts"
      using first n by (force simp: tid in_set_enumerate_eq)
    have q2: "q' = q2" "res = (case r2 of Inl err \<Rightarrow> Inl err | Inr ts \<Rightarrow> Inr (?t # ts))"
      using Cons.prems(4) by (auto simp: queue_to_agent_def Let_def e Inr l split: sum.splits)
    show ?thesis
    proof (intro exI [of _ "Suc n"] conjI)
      show "Suc n \<le> length (a # as)" using n by simp
      show "let ts = tasks_for dump Q fresh now i (take (Suc n) (a # as)) e p ttl s in
        inv q' \<and>
        (\<forall>x. status_of q' x = (if x \<in> tp_task_id ` set ts then Some TASK_PENDING else status_of q x)) \<and>
        (\<forall>t\<in>set ts. payload_of q' (tp_task_id t) = Some t) \<and>
        (\<forall>x. x \<notin> tp_task_id ` set ts \<longrightarrow> payload_of q' x = payload_of q x) \<and>
        (case res of Inr us \<Rightarrow> us = ts \<and> Suc n = length (a # as) | Inl _ \<Rightarrow> Suc n < length (a # as))"
        unfolding all Let_def using ih later
        by (auto simp: q2 ok(2,3) tid Let_def split: sum.splits)
    qed
  qed
qed (auto intro!: exI [of _ 0])

end

section \<open>The in-memory queue\<close>

text \<open>Enqueuing a new object: the store gives it an address of its own.\<close>

definition mq_put :: "mem_queue enqueue" where
  "mq_put now t q =
     (let a = Suc (foldr max (dvalues (mq_tasks q)) 0);
          (res, q) = mq_enqueue now a 0 (q\<lparr>mq_objs := (mq_objs q)(a := t)\<rparr>)
      in (case res of Inl err \<Rightarrow> Inl err | Inr _ \<Rightarrow> Inr (), q))"

lemma fresh_addr: "Suc (foldr max xs 0) \<notin> set xs" for xs :: "nat list"
proof -
  have "x \<in> set xs \<Longrightarrow> x \<le> foldr max xs 0" for x by (induction xs) auto
  then show ?thesis by force
qed

lemma mq_put_steps:
  assumes "\<not> din (tp_task_id t) (mq_tasks q)"
  shows "mq_step\<^sup>*\<^sup>* q (snd (mq_put now t q))"
proof -
  define a where "a = Suc (foldr max (dvalues (mq_tasks q)) 0)"
  let ?q = "q\<lparr>mq_objs := (mq_objs q)(a := t)\<rparr>"
  have "mq_step q ?q" by (rule mq_step.create) (simp add: a_def fresh_addr)
  moreover have "mq_step ?q (snd (mq_enqueue now a 0 ?q))" by (rule mq_step.enqueue) (simp add: assms)
  ultimately have "mq_step\<^sup>*\<^sup>* q (snd (mq_enqueue now a 0 ?q))" by (metis r_into_rtranclp rtranclp.rtrancl_into_rtrancl)
  then show ?thesis by (simp add: mq_put_def Let_def case_prod_beta flip: a_def)
qed

lemma mq_put_cases:
  assumes inv: "mq_inv q" and put: "mq_put now t q = (res, q')"
  defines "a \<equiv> Suc (foldr max (dvalues (mq_tasks q)) 0)"
  shows "mq_payload (q\<lparr>mq_objs := (mq_objs q)(a := t)\<rparr>) = mq_payload q"
    and "mq_inv (q\<lparr>mq_objs := (mq_objs q)(a := t)\<rparr>)"
    and "res = Inl err \<Longrightarrow> q' = q\<lparr>mq_objs := (mq_objs q)(a := t)\<rparr> \<and>
       (mq_closed q \<or> mq_max_size q \<le> int (length (mq_tasks q)))"
    and "res = Inr u \<Longrightarrow> mq_enqueue now a 0 (q\<lparr>mq_objs := (mq_objs q)(a := t)\<rparr>) = (Inr a, q') \<and> \<not> mq_closed q"
proof -
  have new: "a \<notin> set (dvalues (mq_tasks q))" by (simp add: a_def fresh_addr)
  then have other: "dget (mq_tasks q) x \<noteq> Some a" for x using dget_in_values by metis
  show "mq_payload (q\<lparr>mq_objs := (mq_objs q)(a := t)\<rparr>) = mq_payload q"
    using other by (intro ext) (auto simp: mq_payload_def mq_get_def map_option_case split: option.split)
  show "mq_inv (q\<lparr>mq_objs := (mq_objs q)(a := t)\<rparr>)" by (rule mq_inv_create(1) [OF inv new])
  show "res = Inl err \<Longrightarrow> q' = q\<lparr>mq_objs := (mq_objs q)(a := t)\<rparr> \<and>
       (mq_closed q \<or> mq_max_size q \<le> int (length (mq_tasks q)))"
    and "res = Inr u \<Longrightarrow> mq_enqueue now a 0 (q\<lparr>mq_objs := (mq_objs q)(a := t)\<rparr>) = (Inr a, q') \<and> \<not> mq_closed q"
    using put by (auto simp: mq_put_def mq_enqueue_def Let_def simp flip: a_def split: if_splits)
qed

interpretation sink: task_sink mq_inv "\<lambda>q. dget (mq_status q)" mq_payload "\<lambda>q t. mq_get_result t q"
  mq_deq mq_complete mq_fail mq_cancel mq_put
proof
  fix q t now u q'
  assume inv: "mq_inv q" and new: "dget (mq_status q) (tp_task_id t) = None" and put: "mq_put now t q = (Inr u, q')"
  define a where "a = Suc (foldr max (dvalues (mq_tasks q)) 0)"
  let ?q = "q\<lparr>mq_objs := (mq_objs q)(a := t)\<rparr>"
  have e: "mq_enqueue now a 0 ?q = (Inr a, q')" using mq_put_cases(4) [OF inv put] by (simp add: a_def)
  have "\<not> din (tp_task_id t) (mq_tasks q)" using mq_inv_known [OF inv, of "tp_task_id t"] new by (auto simp: din_def)
  then have "mq_inv q'" using mq_enqueue_inv [OF mq_put_cases(2) [OF inv put], of a now 0] e by (simp flip: a_def)
  moreover have "dget (mq_status q') = (dget (mq_status q))(tp_task_id t \<mapsto> TASK_PENDING)"
    using e by (auto simp: mq_enqueue_def Let_def split: if_splits)
  moreover have "mq_payload q' = (mq_payload q)(tp_task_id t \<mapsto> t)"
    unfolding mq_put_cases(1) [OF inv put, symmetric, folded a_def]
    using e by (auto simp: mq_enqueue_def mq_payload_def mq_get_def Let_def split: if_splits)
  ultimately show "mq_inv q' \<and> dget (mq_status q') = (dget (mq_status q))(tp_task_id t \<mapsto> TASK_PENDING) \<and>
      mq_payload q' = (mq_payload q)(tp_task_id t \<mapsto> t)" by blast
next
  fix q t now err q'
  assume inv: "mq_inv q" and put: "mq_put now t q = (Inl err, q')"
  show "mq_inv q' \<and> dget (mq_status q') = dget (mq_status q) \<and> mq_payload q' = mq_payload q"
    using mq_put_cases(1,2) [OF inv put] mq_put_cases(3) [OF inv put] by auto
qed

lemma task_to_agent_simps [simp]:
  "tp_task_id (task_to_agent dump Q x now a e p ttl s ex) = x"
  "tp_target_agent_id (task_to_agent dump Q x now a e p ttl s ex) = Some (ar_agent_id a)"
  "tp_target_conn_id (task_to_agent dump Q x now a e p ttl s ex) = Some (ar_conn_id a)"
  "tp_tenant_id (task_to_agent dump Q x now a e p ttl s ex) = env_tenant_id e"
  "tp_envelope_json (task_to_agent dump Q x now a e p ttl s ex) = dump e"
  "tp_correlation_id (task_to_agent dump Q x now a e p ttl s ex) = Some (env_message_id e)"
  by (simp_all add: task_to_agent_def new_task_payload_def)

text \<open>Queuing a message for candidates in the in-memory queue adds one pending task for each of the first
  \<open>n\<close>, carrying the message and addressed to that candidate's connection, and touches no other task; all
  are queued and returned when no error is raised, and the error of a full or closed queue leaves the tasks
  of the earlier candidates queued.\<close>

theorem queue_to_candidates_spec:
  assumes "mq_inv q" and "inj_on fresh {0..<length as}" and "\<forall>j<length as. dget (mq_status q) (fresh j) = None"
    and "queue_to_candidates mq_put dump Q fresh now as e p ttl s q = (res, q')"
  shows "\<exists>n ts. n \<le> length as \<and> mq_inv q' \<and>
    map tp_task_id ts = map fresh [0..<n] \<and> map tp_target_agent_id ts = map (Some \<circ> ar_agent_id) (take n as) \<and>
    map tp_target_conn_id ts = map (Some \<circ> ar_conn_id) (take n as) \<and>
    (\<forall>t\<in>set ts. tp_envelope_json t = dump e \<and> tp_tenant_id t = env_tenant_id e \<and>
       tp_correlation_id t = Some (env_message_id e) \<and>
       dget (mq_status q') (tp_task_id t) = Some TASK_PENDING \<and> mq_payload q' (tp_task_id t) = Some t) \<and>
    (\<forall>x. x \<notin> fresh ` {0..<n} \<longrightarrow> dget (mq_status q') x = dget (mq_status q) x \<and> mq_payload q' x = mq_payload q x) \<and>
    (case res of Inr us \<Rightarrow> us = ts \<and> n = length as | Inl _ \<Rightarrow> n < length as)"
proof -
  obtain n where n: "n \<le> length as" and
    spec: "let ts = map (\<lambda>(j, a). task_to_agent dump Q (fresh j) now a e p ttl s None) (enumerate 0 (take n as)) in
      mq_inv q' \<and>
      (\<forall>x. dget (mq_status q') x = (if x \<in> tp_task_id ` set ts then Some TASK_PENDING else dget (mq_status q) x)) \<and>
      (\<forall>t\<in>set ts. mq_payload q' (tp_task_id t) = Some t) \<and>
      (\<forall>x. x \<notin> tp_task_id ` set ts \<longrightarrow> mq_payload q' x = mq_payload q x) \<and>
      (case res of Inr us \<Rightarrow> us = ts \<and> n = length as | Inl _ \<Rightarrow> n < length as)"
    using sink.queue_loop_spec [OF assms(1) _ _ assms(4) [unfolded queue_to_candidates_def]] assms(2,3) by simp blast
  define ts where "ts = map (\<lambda>(j, a). task_to_agent dump Q (fresh j) now a e p ttl s None) (enumerate 0 (take n as))"
  note S = spec [unfolded Let_def, folded ts_def]
  have ids: "map tp_task_id ts = map fresh [0..<n]"
    using n by (simp add: ts_def comp_def case_prod_beta min_absorb2 flip: map_map [of fresh fst, unfolded comp_def])
  then have "tp_task_id ` set ts = fresh ` {0..<n}" by (metis atLeastLessThan_upt list.set_map)
  moreover have "map tp_target_agent_id ts = map (Some \<circ> ar_agent_id) (take n as)"
      "map tp_target_conn_id ts = map (Some \<circ> ar_conn_id) (take n as)"
    by (simp_all add: ts_def comp_def case_prod_beta
        flip: map_map [of "\<lambda>a. Some (ar_agent_id a)" snd, unfolded comp_def] map_map [of "\<lambda>a. Some (ar_conn_id a)" snd, unfolded comp_def])
  moreover have "t \<in> set ts \<Longrightarrow> tp_envelope_json t = dump e \<and> tp_tenant_id t = env_tenant_id e \<and>
       tp_correlation_id t = Some (env_message_id e)" for t
    by (auto simp: ts_def)
  ultimately show ?thesis using S n ids by (intro exI [of _ n] exI [of _ ts]) auto
qed

theorem queue_to_candidates_spec_witness:
  "let (res, q') = queue_to_candidates mq_put (\<lambda>_. ''{}'') (qr_init PRIO_NORMAL 300) (\<lambda>j. word_of_nat j) 5
         [ex_agent 1, ex_agent 2] (ex_intent 3 ''acme'') None None None (mq_init (\<lambda>_. new_task_payload 0 0) 1 1 60) in
     res = Inl (QueueFullError 1 1) \<and> mq_inv q' \<and> dget (mq_status q') 0 = Some TASK_PENDING"
proof -
  let ?fresh = "\<lambda>j. word_of_nat j :: uuid"
  let ?q = "mq_init (\<lambda>_. new_task_payload 0 0) 1 1 60"
  let ?run = "queue_to_candidates mq_put (\<lambda>_. ''{}'') (qr_init PRIO_NORMAL 300) ?fresh 5
     [ex_agent 1, ex_agent 2] (ex_intent 3 ''acme'') None None None ?q"
  obtain res q' where u: "?run = (res, q')" by fastforce
  have err: "res = Inl (QueueFullError 1 1)" and pend: "dget (mq_status q') 0 = Some TASK_PENDING"
    using u by (auto simp: queue_to_candidates_def queue_to_agent_def mq_put_def mq_enqueue_def mq_init_def Let_def
        dvalues_def task_to_agent_def new_task_payload_def)
  have "mq_inv ?q" by (rule mq_init_inv)
  moreover have "inj_on ?fresh {0..<length [ex_agent 1, ex_agent 2]}" by (auto simp: inj_on_def less_Suc_eq)
  moreover have "\<forall>j<length [ex_agent 1, ex_agent 2]. dget (mq_status ?q) (?fresh j) = None" by (simp add: mq_init_def)
  ultimately have "mq_inv q'" using queue_to_candidates_spec [OF _ _ _ u] by blast
  then show ?thesis using err pend by (simp add: u)
qed

text \<open>The critical priority, like a lifetime of 0, is replaced by the default of the router.\<close>

lemma critical_is_default: "priority_or (Some PRIO_CRITICAL) d = d" "ttl_or (Some 0) n = n"
  by (simp_all add: priority_or_def ttl_or_def)

lemma get_agent_load_bounds: "mq_reachable q \<Longrightarrow> 0 \<le> get_agent_load g q \<and> get_agent_load g q \<le> 1"
  using mq_counts [of q "[]" g] by (simp add: get_agent_load_def)

end
