(* ===== verification/Task_Queue_Refine.thy ===== *)
theory Task_Queue_Refine
  imports Task_Queue_Props
begin

text \<open>
  The in-memory queue as an implementation of a board of tasks: an abstract state with one card per
  task, neither heap nor indexes nor counters, and the steps of the contract in
  \<open>src/queue/base.py\<close>. Every step of the queue is a step of the board. From what a dequeue does to the
  board it follows that a client that keeps asking is handed every task, the most urgent first.
\<close>

section \<open>The board\<close>

record task_card =
  cd_task :: task_payload
  cd_status :: task_status
  cd_visible_at :: "datetime option"

type_synonym board = "uuid \<Rightarrow> task_card option"

definition card_key :: "task_card \<Rightarrow> int \<times> datetime" where
  "card_key c = (task_priority_value (tp_priority (cd_task c)), tp_created_at (cd_task c))"

definition card_overdue :: "datetime \<Rightarrow> task_card \<Rightarrow> bool" where
  "card_overdue now c = task_is_expired now (cd_task c)"

definition card_ready :: "datetime \<Rightarrow> string option \<Rightarrow> task_card \<Rightarrow> bool" where
  "card_ready now tenant c =
     (cd_status c = TASK_PENDING \<and> (\<exists>v. cd_visible_at c = Some v \<and> v \<le> now) \<and> \<not> card_overdue now c \<and>
      str_filter tenant (tp_tenant_id (cd_task c)))"

definition moved :: "task_status \<Rightarrow> task_card \<Rightarrow> task_card" where
  "moved s c = c\<lparr>cd_status := s, cd_visible_at := None\<rparr>"

text \<open>
  Taking a card: the least ready one becomes processing, and some of the overdue cards that are pending,
  cancelled or expired become expired; when none is ready, all visible overdue pending ones do.
\<close>

definition board_take :: "datetime \<Rightarrow> string option \<Rightarrow> board \<Rightarrow> uuid option \<Rightarrow> board \<Rightarrow> bool" where
  "board_take now tenant B r B' =
     (\<exists>gone. (\<forall>t\<in>gone. \<exists>c. B t = Some c \<and> card_overdue now c \<and>
            cd_status c \<in> {TASK_PENDING, TASK_CANCELLED, TASK_EXPIRED}) \<and>
        (case r of
           None \<Rightarrow> (\<forall>t c. B t = Some c \<longrightarrow> \<not> card_ready now tenant c) \<and>
             (\<forall>t c v. B t = Some c \<longrightarrow> cd_status c = TASK_PENDING \<longrightarrow> cd_visible_at c = Some v \<longrightarrow> v \<le> now \<longrightarrow>
                card_overdue now c \<longrightarrow> t \<in> gone) \<and>
             B' = (\<lambda>t. if t \<in> gone then map_option (moved TASK_EXPIRED) (B t) else B t)
         | Some t0 \<Rightarrow> (\<exists>c. B t0 = Some c \<and> card_ready now tenant c \<and>
               (\<forall>t d. B t = Some d \<longrightarrow> card_ready now tenant d \<longrightarrow> card_key c \<le> card_key d)) \<and>
             B' = (\<lambda>t. if t = t0 then map_option (moved TASK_PROCESSING) (B t)
                       else if t \<in> gone then map_option (moved TASK_EXPIRED) (B t) else B t)))"

lemma board_takeI:
  assumes "\<And>t. t \<in> gone \<Longrightarrow> \<exists>c. B t = Some c \<and> card_overdue now c \<and> cd_status c \<in> {TASK_PENDING, TASK_CANCELLED, TASK_EXPIRED}"
  shows "(\<And>t c. B t = Some c \<Longrightarrow> \<not> card_ready now tenant c) \<Longrightarrow>
      (\<And>t c v. B t = Some c \<Longrightarrow> cd_status c = TASK_PENDING \<Longrightarrow> cd_visible_at c = Some v \<Longrightarrow> v \<le> now \<Longrightarrow>
         card_overdue now c \<Longrightarrow> t \<in> gone) \<Longrightarrow>
      B' = (\<lambda>t. if t \<in> gone then map_option (moved TASK_EXPIRED) (B t) else B t) \<Longrightarrow> board_take now tenant B None B'"
    and "B t0 = Some c \<Longrightarrow> card_ready now tenant c \<Longrightarrow>
      (\<And>t d. B t = Some d \<Longrightarrow> card_ready now tenant d \<Longrightarrow> card_key c \<le> card_key d) \<Longrightarrow>
      B' = (\<lambda>t. if t = t0 then map_option (moved TASK_PROCESSING) (B t)
              else if t \<in> gone then map_option (moved TASK_EXPIRED) (B t) else B t) \<Longrightarrow> board_take now tenant B (Some t0) B'"
  unfolding board_take_def option.case
  by (intro exI [of _ gone] conjI, use assms in blast, blast, blast, assumption)
     (intro exI [of _ gone] conjI, use assms in blast, blast, assumption)

inductive board_step :: "board \<Rightarrow> board \<Rightarrow> bool" where
  post: "B (tp_task_id p) = None \<Longrightarrow>
    board_step B (B(tp_task_id p \<mapsto> \<lparr>cd_task = p, cd_status = TASK_PENDING, cd_visible_at = Some v\<rparr>))"
| take: "board_take now tenant B r B' \<Longrightarrow> board_step B B'"
| finish: "B t = Some c \<Longrightarrow> cd_status c = TASK_PROCESSING \<Longrightarrow> s \<in> {TASK_COMPLETED, TASK_FAILED} \<Longrightarrow>
    board_step B (B(t \<mapsto> moved s c))"
| again: "B t = Some c \<Longrightarrow> cd_status c = TASK_PROCESSING \<Longrightarrow> task_can_retry (cd_task c) \<Longrightarrow>
    board_step B (B(t \<mapsto> \<lparr>cd_task = (cd_task c)\<lparr>tp_retry_count := tp_retry_count (cd_task c) + 1\<rparr>,
      cd_status = TASK_PENDING, cd_visible_at = Some v\<rparr>))"
| withdraw: "B t = Some c \<Longrightarrow> cd_status c = TASK_PENDING \<Longrightarrow> board_step B (B(t \<mapsto> moved TASK_CANCELLED c))"
| clear: "board_step B (\<lambda>t. map_option (\<lambda>c. if cd_status c = TASK_PENDING \<and> card_overdue now c then moved TASK_EXPIRED c else c) (B t))"
| idle: "board_step B B"

section \<open>The queue as a board\<close>

definition item_of :: "mem_queue \<Rightarrow> uuid \<Rightarrow> priority_item option" where
  "item_of q t = List.find (\<lambda>it. item_tid q it = t) (mq_heap q)"

definition board_of :: "mem_queue \<Rightarrow> board" where
  "board_of q t =
     (case dget (mq_tasks q) t of
        None \<Rightarrow> None
      | Some a \<Rightarrow> Some \<lparr>cd_task = mq_objs q a, cd_status = the (dget (mq_status q) t),
          cd_visible_at = (if is_pending q t then map_option pi_visible_at (item_of q t) else None)\<rparr>)"

lemma unique_item:
  assumes "items_exact q (mset (mq_heap q))" and "x \<in> set (mq_heap q)" and "y \<in> set (mq_heap q)"
    and "item_tid q x = item_tid q y"
  shows "x = y"
proof -
  let ?M = "{#it \<in># mset (mq_heap q). item_tid q it = item_tid q y#}"
  have "size ?M \<le> 1" using items_exact_le [OF assms(1)] by (simp add: items_of_def)
  moreover have "x \<in># ?M" using assms(2,4) by simp
  then obtain N where "?M = add_mset x N" by (blast dest: multi_member_split)
  ultimately have "?M = {#x#}" by simp
  moreover have "y \<in># ?M" using assms(3) by simp
  ultimately show ?thesis by simp
qed

lemma item_of_Some:
  assumes "items_exact q (mset (mq_heap q))"
  shows "item_of q t = Some it \<longleftrightarrow> it \<in> set (mq_heap q) \<and> item_tid q it = t"
proof
  assume "item_of q t = Some it"
  then show "it \<in> set (mq_heap q) \<and> item_tid q it = t" by (auto simp: item_of_def find_Some_iff)
next
  assume it: "it \<in> set (mq_heap q) \<and> item_tid q it = t"
  then obtain x where x: "item_of q t = Some x"
    by (cases "item_of q t") (auto simp: item_of_def find_None_iff)
  then have "x \<in> set (mq_heap q) \<and> item_tid q x = t" by (auto simp: item_of_def find_Some_iff)
  then show "item_of q t = Some it" using unique_item [OF assms, of x it] it x by simp
qed

lemma item_of_pending:
  assumes "mq_life q" and "is_pending q t"
  obtains it where "item_of q t = Some it" "it \<in> set (mq_heap q)" "item_tid q it = t"
proof -
  obtain it where "it \<in> set (mq_heap q)" "item_tid q it = t"
    using assms by (auto simp: mq_life_def mq_inv_def mq_wf_def)
  then show thesis using that item_of_Some [of q t] assms(1) by (simp add: mq_life_def)
qed

lemma board_of_simps:
  "dget (mq_tasks q) t = None \<Longrightarrow> board_of q t = None"
  "dget (mq_tasks q) t = Some a \<Longrightarrow> board_of q t = Some \<lparr>cd_task = mq_objs q a,
     cd_status = the (dget (mq_status q) t), cd_visible_at = (if is_pending q t then map_option pi_visible_at (item_of q t) else None)\<rparr>"
  by (simp_all add: board_of_def)

text \<open>A card that is ready stands for an item that is eligible.\<close>

lemma ready_iff:
  assumes life: "mq_life q" and c: "board_of q t = Some c"
  shows "card_ready now tenant c \<longleftrightarrow> (\<exists>it\<in>set (mq_heap q). item_tid q it = t \<and> mq_eligible now tenant q it)"
proof -
  obtain a where a: "dget (mq_tasks q) t = Some a" using c by (auto simp: board_of_def split: option.splits)
  note it = item_of_Some [of q t] and inv = mq_life_inv [OF life]
  have ex: "items_exact q (mset (mq_heap q))" using life by (simp add: mq_life_def)
  have st: "dget (mq_status q) t \<noteq> None" using mq_inv_known [OF inv, of t] a by (simp add: din_def)
  have ta: "pi_task x = a" if "x \<in> set (mq_heap q)" "item_tid q x = t" for x
    using mq_inv_item [OF inv that(1)] that(2) a by simp
  have pend: "cd_status c = TASK_PENDING \<longleftrightarrow> is_pending q t"
    using st c by (auto simp: board_of_simps(2) [OF a] is_pending_def)
  show ?thesis
  proof (cases "is_pending q t")
    case True
    then obtain x where x: "item_of q t = Some x" "x \<in> set (mq_heap q)" "item_tid q x = t"
      using item_of_pending [OF life] by blast
    have "(\<exists>it\<in>set (mq_heap q). item_tid q it = t \<and> mq_eligible now tenant q it) \<longleftrightarrow> mq_eligible now tenant q x"
      using x unique_item [OF ex, of _ x] by metis
    moreover have "card_ready now tenant c \<longleftrightarrow> mq_eligible now tenant q x"
      using c True x st pend ta [OF x(2,3)]
      by (auto simp: board_of_simps(2) [OF a] card_ready_def card_overdue_def mq_eligible_def Let_def)
    ultimately show ?thesis by simp
  next
    case False
    then show ?thesis using pend by (auto simp: card_ready_def mq_eligible_def)
  qed
qed

section \<open>What a scan leaves\<close>

lemma mq_find_loop_heap:
  assumes "mq_find_loop now tenant checked q = (r, c, q')"
  shows "set (mq_heap q') \<union> set c \<subseteq> set (mq_heap q) \<union> set checked"
proof -
  let ?P = "\<lambda>checked q (r :: addr option) c q'. set (mq_heap q') \<union> set c \<subseteq> set (mq_heap q) \<union> set checked"
  show ?thesis
    using assms
    by (rule mq_find_loop_rule [where P = ?P]) (auto simp: set_heappop)
qed

lemma mq_find_next_visible_heap:
  "mq_find_next_visible now tenant q = (r, q') \<Longrightarrow> set (mq_heap q') \<subseteq> set (mq_heap q)"
  using mq_find_loop_heap [of now tenant "[]" q]
  by (auto simp: mq_find_next_visible_def foldl_heappush split: prod.splits)

text \<open>A scan that finds nothing has looked at everything, so that what is visible and overdue is expired.\<close>

definition scan_done :: "datetime \<Rightarrow> mem_queue \<Rightarrow> addr option \<Rightarrow> mem_queue \<Rightarrow> bool" where
  "scan_done now q r q' =
     (r = None \<longrightarrow> (\<forall>it\<in>set (mq_heap q). pi_visible_at it \<le> now \<longrightarrow> din (item_tid q it) (mq_tasks q) \<longrightarrow>
        task_is_expired now (mq_objs q (pi_task it)) \<longrightarrow> dget (mq_status q') (item_tid q it) = Some TASK_EXPIRED))"

lemma scan_done_expire:
  assumes "scan_done now (mq_mark_expired now (item_tid q item) (q\<lparr>mq_heap := h\<rparr>)) r q'"
    and "scan_status now (mq_mark_expired now (item_tid q item) (q\<lparr>mq_heap := h\<rparr>)) r q'"
    and "heappop item_lt (mq_heap q) = Some (item, h)"
  shows "scan_done now q r q'"
proof -
  have "r = None \<Longrightarrow> dget (mq_status q') (item_tid q item) = Some TASK_EXPIRED"
    using assms(2) [unfolded scan_status_def, THEN conjunct2, THEN spec, of "item_tid q item"] by auto
  then show ?thesis using assms(1) by (auto simp: scan_done_def set_heappop [OF assms(3)])
qed

lemma mq_find_loop_done:
  assumes "mq_find_loop now tenant checked q = (r, c, q')"
  shows "scan_status now q r q' \<and> scan_done now q r q'"
proof -
  let ?P = "\<lambda>(checked :: priority_item list) q r (c :: priority_item list) q'. scan_status now q r q' \<and> scan_done now q r q'"
  show ?thesis
    using assms
  proof (rule mq_find_loop_rule [where P = ?P])
    fix q :: mem_queue and checked :: "priority_item list"
    assume "mq_heap q = []"
    then show "?P checked q None checked q" by (simp add: scan_status_def scan_done_def)
  next
    fix q checked item h r c q'
    assume pop: "heappop item_lt (mq_heap q) = Some (item, h)"
      and "\<not> din (item_tid q item) (mq_tasks q) \<or> \<not> now < pi_visible_at item \<and>
        \<not> task_is_expired now (mq_objs q (pi_task item)) \<and> \<not> is_pending q (item_tid q item)"
      and "?P checked (q\<lparr>mq_heap := h\<rparr>) r c q'"
    then show "?P checked q r c q'"
      by (auto simp: scan_done_def set_heappop [OF pop] intro: scan_status_pop [OF _ pop])
  next
    fix q checked item h r c q'
    assume pop: "heappop item_lt (mq_heap q) = Some (item, h)"
      and "?P checked (mq_mark_expired now (item_tid q item) (q\<lparr>mq_heap := h\<rparr>)) r c q'"
      and "task_is_expired now (mq_objs q (pi_task item))"
    then show "?P checked q r c q'"
      by (blast intro: scan_status_expire scan_done_expire)
  next
    fix q checked item h r c q'
    assume pop: "heappop item_lt (mq_heap q) = Some (item, h)"
      and "now < pi_visible_at item \<or> \<not> task_is_expired now (mq_objs q (pi_task item)) \<and>
        \<not> str_filter tenant (tp_tenant_id (mq_objs q (pi_task item)))"
      and "?P (checked @ [item]) (q\<lparr>mq_heap := h\<rparr>) r c q'"
    then show "?P checked q r c q'"
      by (auto simp: scan_done_def set_heappop [OF pop] intro: scan_status_pop [OF _ pop])
  next
    fix q checked item h
    show "?P checked q (Some (pi_task item)) checked
      (q\<lparr>mq_heap := h, mq_status := dset (item_tid q item) TASK_PROCESSING (mq_status q)\<rparr>)"
      by (simp add: scan_status_def scan_done_def)
  qed
qed

lemma mq_find_next_visible_done:
  "mq_find_next_visible now tenant q = (r, q') \<Longrightarrow> scan_done now q r q'"
  using mq_find_loop_done [of now tenant "[]" q]
  by (auto simp: mq_find_next_visible_def scan_done_def split: prod.splits)

section \<open>The steps of the queue are steps of the board\<close>

lemma board_frame:
  assumes "mq_life q" and "mq_life q'" and tasks: "dget (mq_tasks q') t = dget (mq_tasks q) t"
    and objs: "\<And>b. dget (mq_tasks q) t = Some b \<Longrightarrow> mq_objs q' b = mq_objs q b"
    and status: "dget (mq_status q') t = dget (mq_status q) t"
    and heap: "\<And>it. it \<in> set (mq_heap q') \<Longrightarrow> item_tid q' it = t \<Longrightarrow> it \<in> set (mq_heap q) \<and> item_tid q it = t"
  shows "board_of q' t = board_of q t"
proof -
  have pend: "is_pending q' t = is_pending q t" by (simp add: is_pending_def status)
  have "item_of q' t = item_of q t" if p: "is_pending q t"
  proof -
    have "is_pending q' t" using p pend by simp
    then obtain it where it: "item_of q' t = Some it" "it \<in> set (mq_heap q')" "item_tid q' it = t"
      by (rule item_of_pending [OF assms(2)])
    then show ?thesis using heap [OF it(2,3)] assms(1) item_of_Some [of q t it] by (simp add: mq_life_def)
  qed
  then show ?thesis using objs by (simp add: board_of_def tasks status pend split: option.split)
qed

lemma board_end:
  assumes "mq_life q" and "mq_life q'" and "mq_tasks q' = mq_tasks q" "mq_objs q' = mq_objs q" "mq_heap q' = mq_heap q"
    and "mq_status q' = dset tid s (mq_status q)" and "s \<noteq> TASK_PENDING"
    and "board_of q tid = Some c"
  shows "board_of q' = (board_of q)(tid \<mapsto> moved s c)"
proof (rule ext)
  fix t
  show "board_of q' t = ((board_of q)(tid \<mapsto> moved s c)) t"
  proof (cases "t = tid")
    case True
    then show ?thesis using assms(3-8) by (auto simp: board_of_def moved_def is_pending_def split: option.splits)
  next
    case False
    then show ?thesis using assms(3-6) board_frame [OF assms(1,2), of t] by simp
  qed
qed

lemma status_of_card:
  assumes "mq_life q" and "dget (mq_status q) t = Some s"
  obtains a c where "dget (mq_tasks q) t = Some a" "board_of q t = Some c" "cd_status c = s" "cd_task c = mq_objs q a"
proof -
  obtain a where "dget (mq_tasks q) t = Some a"
    using mq_inv_known [OF mq_life_inv [OF assms(1)], of t] assms(2) by (auto simp: din_def)
  then show thesis using that assms(2) by (simp add: board_of_simps)
qed

text \<open>Dequeuing.\<close>

lemma take_refines:
  assumes life: "mq_life q" and find: "mq_find_next_visible now tenant q = (r, q')"
  shows "board_take now tenant (board_of q) (map_option (\<lambda>a. tp_task_id (mq_objs q a)) r) (board_of q')"
proof -
  let ?r = "map_option (\<lambda>a. tp_task_id (mq_objs q a)) r"
  have life': "mq_life q'" using mq_find_next_visible_life [OF life, of now tenant] find by simp
  note inv = mq_life_inv [OF life]
  note same = mq_find_next_visible_frame [OF find] and st = mq_find_next_visible_status [OF find]
  have heap: "set (mq_heap q') \<subseteq> set (mq_heap q)" by (rule mq_find_next_visible_heap) (fact find)
  define gone where "gone = {t. ?r \<noteq> Some t \<and> dget (mq_status q') t = Some TASK_EXPIRED \<and>
      (\<exists>it\<in>set (mq_heap q). item_tid q it = t \<and> task_is_expired now (mq_objs q (pi_task it)))}"
  have goner: "\<exists>c. board_of q t = Some c \<and> card_overdue now c \<and> cd_status c \<in> {TASK_PENDING, TASK_CANCELLED, TASK_EXPIRED}"
    if g: "t \<in> gone" for t
  proof -
    obtain it where it: "it \<in> set (mq_heap q)" "item_tid q it = t" "task_is_expired now (mq_objs q (pi_task it))"
      using g by (auto simp: gone_def)
    have a: "dget (mq_tasks q) t = Some (pi_task it)" using mq_inv_item [OF inv it(1)] it(2) by simp
    then obtain s where s: "dget (mq_status q) t = Some s" using mq_inv_known [OF inv, of t] by (auto simp: din_def)
    have "0 < items_of q (mset (mq_heap q)) t" using items_of_pos [of it "mset (mq_heap q)" q] it by simp
    then have "is_pending q t \<or> stale (Some s)"
      using life s items_exact_none [of q "mset (mq_heap q)" t] by (auto simp: mq_life_def)
    then show ?thesis using s it(3) by (auto simp: board_of_simps(2) [OF a] card_overdue_def is_pending_def stale_def)
  qed
  have known: "din t (mq_status q')" if "board_of q t \<noteq> None" for t
    using that mq_inv_known [OF mq_life_inv [OF life'], of t] same(2) by (auto simp: board_of_def din_def split: option.splits)
  have after: "board_of q' t =
      (if ?r = Some t then map_option (moved TASK_PROCESSING) (board_of q t)
       else if t \<in> gone then map_option (moved TASK_EXPIRED) (board_of q t) else board_of q t)" for t
  proof -
    consider (claimed) "?r = Some t" | (gone) "?r \<noteq> Some t" "t \<in> gone" | (other) "?r \<noteq> Some t" "t \<notin> gone" by blast
    then show ?thesis
    proof cases
      case claimed
      then have "dget (mq_status q') t = Some TASK_PROCESSING" using st by (auto simp: scan_status_def)
      then show ?thesis using claimed same by (auto simp: board_of_def moved_def is_pending_def split: option.split)
    next
      case gone
      then have "dget (mq_status q') t = Some TASK_EXPIRED" by (simp add: gone_def)
      then show ?thesis using gone same by (auto simp: board_of_def moved_def is_pending_def split: option.split)
    next
      case other
      have "dget (mq_status q') t = dget (mq_status q) t"
        using st [unfolded scan_status_def, THEN conjunct2, THEN spec, of t] other by (auto simp: gone_def)
      then have "board_of q' t = board_of q t"
        using heap by (intro board_frame [OF life life']) (auto simp: same)
      then show ?thesis using other by auto
    qed
  qed
  have best: "mq_best now tenant q r" using find inv by (rule mq_find_next_visible_best)
  show ?thesis
  proof (cases r)
    case None
    have no: "\<not> card_ready now tenant c" if "board_of q t = Some c" for t c
      using best None ready_iff [OF life that] by (auto simp: mq_best_def)
    have all: "t \<in> gone" if c: "board_of q t = Some c" "cd_status c = TASK_PENDING" "cd_visible_at c = Some v" "v \<le> now"
        "card_overdue now c" for t c v
    proof -
      obtain a where a: "dget (mq_tasks q) t = Some a" using c(1) by (auto simp: board_of_def split: option.splits)
      have "is_pending q t" using c(1,3) by (auto simp: board_of_simps(2) [OF a] split: if_splits)
      then obtain it where it: "item_of q t = Some it" "it \<in> set (mq_heap q)" "item_tid q it = t"
        using item_of_pending [OF life] by blast
      have "pi_task it = a" using mq_inv_item [OF inv it(2)] it(3) a by simp
      then have "pi_visible_at it \<le> now" "task_is_expired now (mq_objs q (pi_task it))"
        using c it(1) \<open>is_pending q t\<close> by (auto simp: board_of_simps(2) [OF a] card_overdue_def)
      then show ?thesis
        using mq_find_next_visible_done [OF find] None it a by (auto simp: scan_done_def gone_def din_def)
    qed
    have "board_of q' = (\<lambda>t. if t \<in> gone then map_option (moved TASK_EXPIRED) (board_of q t) else board_of q t)"
      using after None by (intro ext) simp
    note eq = this
    have "board_take now tenant (board_of q) None (board_of q')"
      by (rule board_takeI(1) [where gone = gone]) (erule goner, erule no, erule all, assumption+, rule eq)
    then show ?thesis by (simp add: None)
  next
    case (Some a)
    then obtain it where it: "it \<in> set (mq_heap q)" "pi_task it = a" "mq_eligible now tenant q it"
      and least: "\<forall>y\<in>set (mq_heap q). mq_eligible now tenant q y \<longrightarrow> \<not> item_lt y it"
      using best by (auto simp: mq_best_def)
    let ?t = "tp_task_id (mq_objs q a)"
    have key: "board_of q (item_tid q x) = Some d \<Longrightarrow> card_key d = (pi_priority x, pi_created_at x)"
      if "x \<in> set (mq_heap q)" for x d
    proof -
      have "item_ok q x" using that inv by (simp add: mq_inv_def mq_wf_def)
      then show "board_of q (item_tid q x) = Some d \<Longrightarrow> card_key d = (pi_priority x, pi_created_at x)"
        by (auto simp: item_ok_def board_of_def card_key_def Let_def)
    qed
    have b: "dget (mq_tasks q) ?t = Some a" using mq_inv_item [OF inv it(1)] it(2) by simp
    then obtain c where c: "board_of q ?t = Some c" by (simp add: board_of_simps)
    have ready: "card_ready now tenant c" using ready_iff [OF life c] it by auto
    have min: "card_key c \<le> card_key d" if d: "board_of q t = Some d" "card_ready now tenant d" for t d
    proof -
      obtain y where y: "y \<in> set (mq_heap q)" "item_tid q y = t" "mq_eligible now tenant q y"
        using d ready_iff [OF life d(1)] by blast
      then show ?thesis using least key [OF it(1), of c] key [OF y(1), of d] c d(1) it(2)
        unfolding item_lt_def not_less by auto
    qed
    have "board_of q' = (\<lambda>t. if t = ?t then map_option (moved TASK_PROCESSING) (board_of q t)
        else if t \<in> gone then map_option (moved TASK_EXPIRED) (board_of q t) else board_of q t)"
      using after Some by (intro ext) auto
    note eq = this
    have "board_take now tenant (board_of q) (Some ?t) (board_of q')"
      by (rule board_takeI(2) [where gone = gone]) (erule goner, rule c, rule ready, erule min, assumption, rule eq)
    then show ?thesis by (simp add: Some)
  qed
qed

text \<open>The other steps.\<close>

lemma enqueue_refines:
  assumes life: "mq_life q" and fresh: "\<not> din (tp_task_id (mq_objs q a)) (mq_tasks q)"
  shows "board_step (board_of q) (board_of (snd (mq_enqueue now a delay q)))"
proof (cases "mq_closed q \<or> mq_max_size q \<le> int (length (mq_tasks q))")
  case True
  then show ?thesis by (auto simp: mq_enqueue_def intro: board_step.idle)
next
  case False
  let ?q = "snd (mq_enqueue now a delay q)" and ?t = "tp_task_id (mq_objs q a)"
  obtain it where heap: "mq_heap ?q = heappush item_lt (mq_heap q) it" and it: "pi_task it = a"
    and same: "mq_objs ?q = mq_objs q" "mq_tasks ?q = dset ?t a (mq_tasks q)" "mq_status ?q = dset ?t TASK_PENDING (mq_status q)"
    using False by (simp add: mq_enqueue_def Let_def)
  have life': "mq_life ?q" using life fresh by (rule mq_life_enqueue)
  then have item: "item_of ?q ?t = Some it" using item_of_Some [of ?q ?t it] heap same(1) it by (simp add: mq_life_def)
  have "board_of ?q t = ((board_of q)(?t \<mapsto> \<lparr>cd_task = mq_objs q a, cd_status = TASK_PENDING, cd_visible_at = Some (pi_visible_at it)\<rparr>)) t" for t
  proof (cases "t = ?t")
    case True
    then show ?thesis using item same by (simp add: board_of_def is_pending_def)
  next
    case False
    then have "board_of ?q t = board_of q t"
      by (intro board_frame [OF life life']) (auto simp: same heap it)
    then show ?thesis using False by simp
  qed
  then have "board_of ?q = (board_of q)(?t \<mapsto> \<lparr>cd_task = mq_objs q a, cd_status = TASK_PENDING, cd_visible_at = Some (pi_visible_at it)\<rparr>)"
    by (rule ext)
  moreover have "board_of q ?t = None" using fresh by (simp add: board_of_def din_def)
  ultimately show ?thesis using board_step.post [of "board_of q" "mq_objs q a" "pi_visible_at it"] by simp
qed

lemma create_refines:
  assumes life: "mq_life q" and new: "a \<notin> set (dvalues (mq_tasks q))"
  shows "board_of (q\<lparr>mq_objs := (mq_objs q)(a := p)\<rparr>) = board_of q"
proof (rule ext)
  fix t
  note created = mq_inv_create [OF mq_life_inv [OF life] new]
  show "board_of (q\<lparr>mq_objs := (mq_objs q)(a := p)\<rparr>) t = board_of q t"
    by (rule board_frame [OF life mq_life_create [OF life new]]) (use created(2,3) in auto)
qed

lemma retry_refines:
  assumes life: "mq_life q" and st: "dget (mq_status q) tid = Some TASK_PROCESSING"
    and a: "dget (mq_tasks q) tid = Some a" and again: "retry \<and> task_can_retry (mq_objs q a)"
  shows "board_step (board_of q) (board_of (snd (mq_fail now tid code msg retry q)))"
proof -
  let ?q = "snd (mq_fail now tid code msg retry q)" and ?p = "(mq_objs q a)\<lparr>tp_retry_count := tp_retry_count (mq_objs q a) + 1\<rparr>"
  have life': "mq_life ?q" using life st by (rule mq_life_fail)
  obtain it where heap: "mq_heap ?q = heappush item_lt (mq_heap q) it" and it: "pi_task it = a"
    and same: "mq_objs ?q = (mq_objs q)(a := ?p)" "mq_tasks ?q = mq_tasks q" "mq_status ?q = dset tid TASK_PENDING (mq_status q)"
    using a again by (simp add: mq_fail_def Let_def)
  have ids: "tp_task_id (mq_objs ?q b) = tp_task_id (mq_objs q b)" for b by (simp add: same)
  have reg: "tp_task_id (mq_objs q b) = t" if "dget (mq_tasks q) t = Some b" for t b
    using life that by (simp add: mq_life_def mq_inv_def mq_wf_def)
  then have item: "item_of ?q tid = Some it"
    using life' a by (simp add: item_of_Some mq_life_def heap it ids)
  obtain c where c: "board_of q tid = Some c" "cd_status c = TASK_PROCESSING" "cd_task c = mq_objs q a"
    using status_of_card [OF life st] a by (metis option.inject)
  have "board_of ?q t = ((board_of q)(tid \<mapsto> \<lparr>cd_task = (cd_task c)\<lparr>tp_retry_count := tp_retry_count (cd_task c) + 1\<rparr>,
      cd_status = TASK_PENDING, cd_visible_at = Some (pi_visible_at it)\<rparr>)) t" for t
  proof (cases "t = tid")
    case True
    then show ?thesis using item a by (simp add: board_of_def is_pending_def same c(3))
  next
    case False
    have "board_of ?q t = board_of q t"
    proof (rule board_frame [OF life life'])
      show "mq_objs ?q b = mq_objs q b" if "dget (mq_tasks q) t = Some b" for b
        using reg [OF that] reg [OF a] False by (auto simp: same)
      show "x \<in> set (mq_heap q) \<and> item_tid q x = t" if "x \<in> set (mq_heap ?q)" "item_tid ?q x = t" for x
        using that reg [OF a] False by (auto simp: heap it ids)
    qed (simp_all add: same False)
    then show ?thesis using False by simp
  qed
  then have "board_of ?q = (board_of q)(tid \<mapsto> \<lparr>cd_task = (cd_task c)\<lparr>tp_retry_count := tp_retry_count (cd_task c) + 1\<rparr>,
      cd_status = TASK_PENDING, cd_visible_at = Some (pi_visible_at it)\<rparr>)"
    by (rule ext)
  then show ?thesis using c again board_step.again [of "board_of q" tid c "pi_visible_at it"] by simp
qed

lemma complete_refines:
  assumes life: "mq_life q" and st: "dget (mq_status q) tid = Some TASK_PROCESSING"
  shows "board_step (board_of q) (board_of (snd (mq_complete tid res q)))"
proof -
  obtain a c where c: "dget (mq_tasks q) tid = Some a" "board_of q tid = Some c" "cd_status c = TASK_PROCESSING"
    using status_of_card [OF life st] by metis
  have "board_of (snd (mq_complete tid res q)) = (board_of q)(tid \<mapsto> moved TASK_COMPLETED c)"
    using life mq_life_complete [OF life st, of res]
    by (rule board_end) (use c in \<open>simp_all add: mq_complete_def Let_def\<close>)
  then show ?thesis using board_step.finish [of "board_of q", OF c(2,3), of TASK_COMPLETED] by simp
qed

lemma fail_refines:
  assumes life: "mq_life q" and st: "dget (mq_status q) tid = Some TASK_PROCESSING"
  shows "board_step (board_of q) (board_of (snd (mq_fail now tid code msg retry q)))"
proof -
  obtain a c where c: "dget (mq_tasks q) tid = Some a" "board_of q tid = Some c" "cd_status c = TASK_PROCESSING"
    using status_of_card [OF life st] by metis
  show ?thesis
  proof (cases "retry \<and> task_can_retry (mq_objs q a)")
    case True
    then show ?thesis using retry_refines [OF life st c(1)] by blast
  next
    case False
    then have no: "(retry \<and> task_can_retry (mq_objs q a)) = False" by blast
    have "board_of (snd (mq_fail now tid code msg retry q)) = (board_of q)(tid \<mapsto> moved TASK_FAILED c)"
      using life mq_life_fail [OF life st, of now code msg retry]
      by (rule board_end) (use c in \<open>simp_all add: mq_fail_def Let_def no\<close>)
    then show ?thesis using board_step.finish [of "board_of q", OF c(2,3), of TASK_FAILED] by simp
  qed
qed

lemma cancel_refines:
  assumes life: "mq_life q"
  shows "board_step (board_of q) (board_of (snd (mq_cancel now tid q)))"
proof (cases "dget (mq_status q) tid = Some TASK_PENDING")
  case True
  obtain a c where c: "dget (mq_tasks q) tid = Some a" "board_of q tid = Some c" "cd_status c = TASK_PENDING"
    using status_of_card [OF life True] by metis
  have "board_of (snd (mq_cancel now tid q)) = (board_of q)(tid \<mapsto> moved TASK_CANCELLED c)"
    using life mq_life_cancel [OF life, of now tid]
    by (rule board_end) (use c True in \<open>simp_all add: mq_cancel_def Let_def\<close>)
  then show ?thesis using board_step.withdraw [of "board_of q", OF c(2,3)] by simp
next
  case False
  then have "snd (mq_cancel now tid q) = q" by (simp add: mq_cancel_def split: option.split)
  then show ?thesis by (simp add: board_step.idle)
qed

lemma clear_refines:
  assumes life: "mq_life q"
  shows "board_step (board_of q) (board_of (snd (mq_clear_expired now q)))"
proof -
  obtain n q' where q': "mq_clear_expired now q = (n, q')" by fastforce
  have "distinct (map fst (mq_tasks q))"
    using mq_life_inv [OF life] by (simp add: mq_inv_def mq_wf_def dict_ok_def)
  note spec = mq_clear_loop_spec [OF this q' [unfolded mq_clear_expired_def]]
  have life': "mq_life q'" using mq_life_clear [OF life, of now] by (simp add: q')
  have "board_of q' t = map_option (\<lambda>c. if cd_status c = TASK_PENDING \<and> card_overdue now c then moved TASK_EXPIRED c else c)
      (board_of q t)" for t
  proof (cases "dget (mq_tasks q) t")
    case (Some a)
    then have st: "dget (mq_status q) t \<noteq> None"
      using mq_inv_known [OF mq_life_inv [OF life], of t] by (simp add: din_def)
    have status: "dget (mq_status q') t = (if is_pending q t \<and> task_is_expired now (mq_objs q a) then Some TASK_EXPIRED else dget (mq_status q) t)"
    proof -
      have "(t, b) \<in> set (mq_tasks q) \<longleftrightarrow> b = a" for b
        using map_of_eq_Some_iff [OF \<open>distinct (map fst (mq_tasks q))\<close>, of t b] Some by auto
      then show ?thesis using spec by simp
    qed
    show ?thesis
    proof (cases "is_pending q t \<and> task_is_expired now (mq_objs q a)")
      case True
      then show ?thesis using Some status spec by (simp add: board_of_def is_pending_def card_overdue_def moved_def)
    next
      case False
      have "board_of q' t = board_of q t"
        using spec status False by (intro board_frame [OF life life']) auto
      moreover have "\<not> (cd_status c = TASK_PENDING \<and> card_overdue now c)" if "board_of q t = Some c" for c
        using that False st by (auto simp: board_of_simps(2) [OF Some] is_pending_def card_overdue_def)
      ultimately show ?thesis by (cases "board_of q t") auto
    qed
  qed (use spec in \<open>simp add: board_of_def\<close>)
  then have "board_of q' = (\<lambda>t. map_option (\<lambda>c. if cd_status c = TASK_PENDING \<and> card_overdue now c then moved TASK_EXPIRED c else c) (board_of q t))"
    by (rule ext)
  then show ?thesis by (simp add: q' board_step.clear)
qed

lemma board_step_refines:
  assumes "mq_step q q'" and life: "mq_life q"
  shows "board_step (board_of q) (board_of q')"
  using assms(1)
proof cases
  case (create a t)
  then show ?thesis using create_refines [OF life] by (simp add: board_step.idle)
next
  case (enqueue a now delay)
  then show ?thesis using enqueue_refines [OF life] by blast
next
  case (dequeue now tenant deadline)
  obtain r q1 where find: "mq_find_next_visible now tenant q = (r, q1)" by fastforce
  have "q' = q \<or> q' = q1" using dequeue find by (auto simp: mq_dequeue_pass_def split: option.splits if_splits)
  then show ?thesis using board_step.take [OF take_refines [OF life find]] by (auto intro: board_step.idle)
next
  case shutdown
  have "board_of (mq_shutdown q) = board_of q"
    by (rule ext) (simp add: mq_shutdown_def board_of_def item_of_def is_pending_def split: option.split)
  then show ?thesis using shutdown by (simp add: board_step.idle)
qed (use complete_refines [OF life] fail_refines [OF life] cancel_refines [OF life] clear_refines [OF life] in \<open>blast+\<close>)

text \<open>C12: the in-memory queue implements the board: it starts with an empty one, in every reachable state each of its
  steps is a step of the board it stands for, and a pass of \<open>dequeue\<close> over an open queue takes the least
  ready card and hands out its task, or finds that no card is ready.\<close>

theorem mq_refines_board:
  assumes "mq_reachable q"
  shows "board_of (mq_init objs n b m) = Map.empty \<and>
    (\<forall>q'. mq_step q q' \<longrightarrow> board_step (board_of q) (board_of q')) \<and>
    (\<forall>now tenant deadline out q'. \<not> mq_closed q \<longrightarrow> mq_dequeue_pass now tenant deadline q = (out, q') \<longrightarrow>
       board_take now tenant (board_of q)
         (case out of Some (Some a) \<Rightarrow> Some (tp_task_id (mq_objs q a)) | _ \<Rightarrow> None) (board_of q'))"
proof (intro conjI allI impI)
  note life = mq_reachable_life [OF assms]
  show "board_of (mq_init objs n b m) = Map.empty" by (rule ext) (simp add: board_of_def mq_init_def)
  show "board_step (board_of q) (board_of q')" if "mq_step q q'" for q'
    using that life by (rule board_step_refines)
  fix now tenant deadline out q'
  assume op: "\<not> mq_closed q" and pass: "mq_dequeue_pass now tenant deadline q = (out, q')"
  obtain r q1 where find: "mq_find_next_visible now tenant q = (r, q1)" by fastforce
  have "q' = q1" "(case out of Some (Some a) \<Rightarrow> Some (tp_task_id (mq_objs q a)) | _ \<Rightarrow> None) =
      map_option (\<lambda>a. tp_task_id (mq_objs q a)) r"
    using pass op find by (auto simp: mq_dequeue_pass_def split: option.splits if_splits)
  then show "board_take now tenant (board_of q)
      (case out of Some (Some a) \<Rightarrow> Some (tp_task_id (mq_objs q a)) | _ \<Rightarrow> None) (board_of q')"
    using take_refines [OF life find] by simp
qed

theorem mq_refines_board_witness:
  "board_take 10 None (board_of ex_queue) (Some 2) (board_of (snd (mq_dequeue_pass 10 None None ex_queue)))"
proof -
  have op: "\<not> mq_closed ex_queue" and out: "fst (mq_dequeue_pass 10 None None ex_queue) = Some (Some 1)"
    and t: "tp_task_id (mq_objs ex_queue 1) = 2" by code_simp+
  have "mq_dequeue_pass 10 None None ex_queue = (Some (Some 1), snd (mq_dequeue_pass 10 None None ex_queue))"
    using out by (metis prod.collapse)
  then show ?thesis using mq_refines_board [OF ex_queue_reachable] op t by fastforce
qed

section \<open>Everything is handed out\<close>

text \<open>A client that keeps asking, without waiting, until it is told that there is nothing left.\<close>

fun mq_drain :: "datetime \<Rightarrow> nat \<Rightarrow> mem_queue \<Rightarrow> task_payload list \<times> mem_queue" where
  "mq_drain now 0 q = ([], q)"
| "mq_drain now (Suc n) q =
     (case mq_deq now None q of
        (None, q) \<Rightarrow> ([], q)
      | (Some p, q) \<Rightarrow> (let (ps, q) = mq_drain now n q in (p # ps, q)))"

definition waiting :: "datetime \<Rightarrow> mem_queue \<Rightarrow> uuid set" where
  "waiting now q = {t. is_pending q t \<and> (\<exists>p. mq_payload q t = Some p \<and> \<not> task_is_expired now p)}"

definition urgency :: "task_payload \<Rightarrow> int \<times> datetime" where
  "urgency p = (task_priority_value (tp_priority p), tp_created_at p)"

definition all_visible :: "datetime \<Rightarrow> mem_queue \<Rightarrow> bool" where
  "all_visible now q = (\<forall>it\<in>set (mq_heap q). pi_visible_at it \<le> now)"

lemma waiting_iff:
  assumes "mq_life q" and "all_visible now q"
  shows "t \<in> waiting now q \<longleftrightarrow> (\<exists>it\<in>set (mq_heap q). item_tid q it = t \<and> mq_eligible now None q it)"
proof
  assume "t \<in> waiting now q"
  then have p: "is_pending q t" and "\<exists>p. mq_payload q t = Some p \<and> \<not> task_is_expired now p" by (auto simp: waiting_def)
  then obtain a where a: "dget (mq_tasks q) t = Some a" "\<not> task_is_expired now (mq_objs q a)"
    by (auto simp: mq_payload_def mq_get_def)
  obtain it where it: "it \<in> set (mq_heap q)" "item_tid q it = t" using item_of_pending [OF assms(1) p] by blast
  then show "\<exists>it\<in>set (mq_heap q). item_tid q it = t \<and> mq_eligible now None q it"
    using p a mq_inv_item [OF mq_life_inv [OF assms(1)] it(1)] assms(2)
    by (intro bexI [of _ it]) (auto simp: mq_eligible_def all_visible_def Let_def)
next
  assume "\<exists>it\<in>set (mq_heap q). item_tid q it = t \<and> mq_eligible now None q it"
  then show "t \<in> waiting now q"
    using mq_inv_item [OF mq_life_inv [OF assms(1)]]
    by (auto simp: waiting_def mq_eligible_def mq_payload_def mq_get_def Let_def)
qed

lemma mq_deq_find:
  "\<not> mq_closed q \<Longrightarrow> mq_deq now tenant q = (let (r, q') = mq_find_next_visible now tenant q in (map_option (mq_objs q') r, q'))"
  by (simp add: mq_deq_def mq_dequeue_now case_prod_beta split: option.split)

lemma deq_none:
  assumes life: "mq_life q" and vis: "all_visible now q" and op: "\<not> mq_closed q" and deq: "mq_deq now None q = (None, q')"
  shows "waiting now q = {}" and "\<not> is_pending q' t"
proof -
  have find: "mq_find_next_visible now None q = (None, q')"
    using deq op by (auto simp: mq_deq_find split: prod.splits)
  note inv = mq_life_inv [OF life]
  have best: "mq_best now None q None" using find inv by (rule mq_find_next_visible_best)
  then show "waiting now q = {}" using waiting_iff [OF life vis] by (auto simp: mq_best_def)
  show "\<not> is_pending q' t"
  proof
    assume p: "is_pending q' t"
    have life': "mq_life q'" using mq_find_next_visible_life [OF life, of now None] find by simp
    obtain it where "it \<in> set (mq_heap q')" "item_tid q' it = t" using item_of_pending [OF life' p] by blast
    then have it: "it \<in> set (mq_heap q)" "item_tid q it = t"
      using mq_find_next_visible_heap [OF find] mq_find_next_visible_frame [OF find] by auto
    have reg: "dget (mq_tasks q) t = Some (pi_task it)" using mq_inv_item [OF inv it(1)] it(2) by simp
    then have "\<not> task_is_expired now (mq_objs q (pi_task it))"
      using mq_find_next_visible_done [OF find] it vis p by (auto simp: scan_done_def all_visible_def is_pending_def din_def)
    moreover have "is_pending q t"
      using mq_find_next_visible_status [OF find, unfolded scan_status_def, THEN conjunct2, THEN spec, of t] p
      by (simp add: is_pending_def)
    ultimately have "t \<in> waiting now q" using reg by (simp add: waiting_def mq_payload_def mq_get_def)
    then show False using \<open>waiting now q = {}\<close> by simp
  qed
qed

lemma deq_some:
  assumes life: "mq_life q" and vis: "all_visible now q" and op: "\<not> mq_closed q" and deq: "mq_deq now None q = (Some p, q')"
  shows "tp_task_id p \<in> waiting now q" and "waiting now q' = waiting now q - {tp_task_id p}"
    and "mq_payload q (tp_task_id p) = Some p" and "mq_payload q' = mq_payload q"
    and "t \<in> waiting now q \<Longrightarrow> mq_payload q t = Some d \<Longrightarrow> urgency p \<le> urgency d"
    and "{t. is_pending q' t} \<subseteq> {t. is_pending q t} - {tp_task_id p}"
    and "mq_life q'" and "all_visible now q'" and "\<not> mq_closed q'"
proof -
  obtain a where find: "mq_find_next_visible now None q = (Some a, q')" and p: "p = mq_objs q' a"
    using deq op by (auto simp: mq_deq_find split: prod.splits)
  note inv = mq_life_inv [OF life] and same = mq_find_next_visible_frame [OF find]
  have st: "scan_status now q (Some a) q'" using find by (rule mq_find_next_visible_status)
  have best: "mq_best now None q (Some a)" using find inv by (rule mq_find_next_visible_best)
  show "mq_life q'" using mq_find_next_visible_life [OF life, of now None] find by simp
  show "all_visible now q'" using vis mq_find_next_visible_heap [OF find] by (auto simp: all_visible_def)
  show "\<not> mq_closed q'" using op same by simp
  obtain it where it: "it \<in> set (mq_heap q)" "pi_task it = a" "mq_eligible now None q it"
    and least: "\<forall>y\<in>set (mq_heap q). mq_eligible now None q y \<longrightarrow> \<not> item_lt y it"
    using best by (auto simp: mq_best_def)
  show w: "tp_task_id p \<in> waiting now q" using waiting_iff [OF life vis] it by (auto simp: p same)
  show pay: "mq_payload q (tp_task_id p) = Some p"
    using mq_inv_item [OF inv it(1)] it(2) by (simp add: p same mq_payload_def mq_get_def)
  show pays: "mq_payload q' = mq_payload q" by (rule ext) (simp add: mq_payload_def mq_get_def same)
  have pend: "is_pending q' t \<Longrightarrow> is_pending q t \<and> t \<noteq> tp_task_id p" for t
    using st by (auto simp: scan_status_def is_pending_def p same dest!: spec [of _ t])
  then show "{t. is_pending q' t} \<subseteq> {t. is_pending q t} - {tp_task_id p}" by blast
  have keep: "is_pending q' t" if t: "t \<in> waiting now q" "t \<noteq> tp_task_id p" for t
  proof -
    obtain b where b: "dget (mq_tasks q) t = Some b" "\<not> task_is_expired now (mq_objs q b)"
      using t(1) by (auto simp: waiting_def mq_payload_def mq_get_def)
    have "item_tid q x = t \<Longrightarrow> \<not> task_is_expired now (mq_objs q (pi_task x))" if "x \<in> set (mq_heap q)" for x
      using mq_inv_item [OF inv that] b by auto
    then show ?thesis
      using st [unfolded scan_status_def, THEN conjunct2, THEN spec, of t] t
      by (auto simp: is_pending_def waiting_def p same)
  qed
  have "t \<in> waiting now q' \<longleftrightarrow> t \<in> waiting now q - {tp_task_id p}" for t
    using pend [of t] keep [of t] by (auto simp: waiting_def pays)
  then show "waiting now q' = waiting now q - {tp_task_id p}" by blast
  show "urgency p \<le> urgency d" if t: "t \<in> waiting now q" "mq_payload q t = Some d"
  proof -
    obtain y where y: "y \<in> set (mq_heap q)" "item_tid q y = t" "mq_eligible now None q y"
      using t(1) waiting_iff [OF life vis] by blast
    have "item_ok q it" "item_ok q y" using inv it(1) y(1) by (simp_all add: mq_inv_def mq_wf_def)
    moreover have "d = mq_objs q (pi_task y)"
      using mq_inv_item [OF inv y(1)] y(2) t(2) by (simp add: mq_payload_def mq_get_def)
    moreover have "\<not> item_lt y it" using least y by blast
    ultimately show ?thesis unfolding item_lt_def not_less using it(2) by (simp add: urgency_def item_ok_def Let_def p same)
  qed
qed

lemma finite_pending: "finite {t. is_pending q t}"
  by (rule finite_subset [of _ "dom (map_of (mq_status q))"]) (auto simp: is_pending_def finite_dom_map_of)

text \<open>C13: on an open queue whose items are all visible, a client that asks as often as there are pending tasks is handed
  exactly the pending tasks that are not overdue, each once and the most urgent first, and no task is pending
  any more.\<close>

theorem mq_drain_all:
  assumes "mq_reachable q" and "\<not> mq_closed q" and "all_visible now q" and "mq_size None q \<le> int n"
  shows "let (ps, q') = mq_drain now n q in
    tp_task_id ` set ps = waiting now q \<and> distinct (map tp_task_id ps) \<and> sorted (map urgency ps) \<and>
    (\<forall>t. \<not> is_pending q' t)"
proof -
  have run: "(\<forall>p\<in>set (fst (mq_drain now n q)). mq_payload q (tp_task_id p) = Some p) \<and>
      tp_task_id ` set (fst (mq_drain now n q)) = waiting now q \<and> distinct (map tp_task_id (fst (mq_drain now n q))) \<and>
      sorted (map urgency (fst (mq_drain now n q))) \<and> (\<forall>t. \<not> is_pending (snd (mq_drain now n q)) t)"
    if "mq_life q" "\<not> mq_closed q" "all_visible now q" "card {t. is_pending q t} \<le> n"
    using that
  proof (induction n arbitrary: q)
    case 0
    then have "{t. is_pending q t} = {}" using finite_pending [of q] by simp
    then show ?case by (auto simp: waiting_def)
  next
    case (Suc n)
    show ?case
    proof (cases "mq_deq now None q")
      case (Pair r q1)
      show ?thesis
      proof (cases r)
        case None
        then show ?thesis using deq_none [OF Suc.prems(1,3,2)] Pair by simp
      next
        case (Some p)
        note d = deq_some [OF Suc.prems(1,3,2) Pair [unfolded Some]]
        have "tp_task_id p \<in> {t. is_pending q t}" using d(1) by (simp add: waiting_def)
        then have "card {t. is_pending q1 t} < card {t. is_pending q t}"
          using d(6) by (intro psubset_card_mono finite_pending) blast
        then have IH: "(\<forall>p\<in>set (fst (mq_drain now n q1)). mq_payload q (tp_task_id p) = Some p) \<and>
            tp_task_id ` set (fst (mq_drain now n q1)) = waiting now q - {tp_task_id p} \<and>
            distinct (map tp_task_id (fst (mq_drain now n q1))) \<and>
            sorted (map urgency (fst (mq_drain now n q1))) \<and> (\<forall>t. \<not> is_pending (snd (mq_drain now n q1)) t)"
          using Suc.IH [OF d(7,9,8)] Suc.prems(4) by (simp add: d(2,4))
        have "urgency p \<le> urgency x" if "x \<in> set (fst (mq_drain now n q1))" for x
          using IH that d(5) [of "tp_task_id x" x] by blast
        then show ?thesis using IH d(1,3) by (auto simp: Pair Some case_prod_beta)
      qed
    qed
  qed
  have "card {t. is_pending q t} \<le> n" using mq_counts [OF assms(1)] assms(4) by simp
  then show ?thesis using run [OF mq_reachable_life [OF assms(1)] assms(2,3)] by (simp add: case_prod_beta)
qed

theorem mq_drain_all_witness:
  "tp_task_id ` set (fst (mq_drain 10 2 ex_queue)) = {1, 2} \<and> (\<forall>t. \<not> is_pending (snd (mq_drain 10 2 ex_queue)) t)"
proof -
  have op: "\<not> mq_closed ex_queue" and vis: "all_visible 10 ex_queue" and n: "mq_size None ex_queue \<le> int 2"
    and ids: "map tp_task_id (fst (mq_drain 10 2 ex_queue)) = [2, 1]" by code_simp+
  have "tp_task_id ` set (fst (mq_drain 10 2 ex_queue)) = set [2, 1]" by (simp only: ids flip: set_map)
  then show ?thesis using mq_drain_all [OF ex_queue_reachable op vis n] by (auto simp: case_prod_beta)
qed

end
