(* ===== verification/Handler_Base.thy ===== *)
theory Handler_Base
  imports Py_Parse Queued_Router Session_Manager Trace_Store Event_Manager Out_Queue
begin

text \<open>
  \<open>src/transport/handler.py\<close>, first part: the state behind the WebSocket handler, reading values of a
  payload, sending, registration, heartbeat and the list of agents. A handler takes the circumstances of its
  run, the record \<open>ctx\<close>: the clock, a supply of fresh ids (\<open>cx_ids c k\<close> is the \<open>k\<close>-th one), the sockets
  that accept a message, and the world outside the bus.

  A handler is one transition: its suspensions inside sends and lookups are not modelled, the waiting
  for offers is. Values of a payload have no type; where the code gives them to a validating model, reading
  them can fail.
\<close>

section \<open>State\<close>

definition BUS_ID :: uuid where
  "BUS_ID = 0"

record 'g ctx =
  cx_now :: datetime
  cx_ids :: "nat \<Rightarrow> uuid"
  cx_send_ok :: "websocket \<Rightarrow> message_envelope \<Rightarrow> bool"
  cx_outside :: "'g outside"
  cx_isoformat :: "datetime \<Rightarrow> string"
  cx_dump :: "message_envelope \<Rightarrow> string"
  cx_float_of :: "string \<Rightarrow> rat option"
  cx_error_text :: "payload \<Rightarrow> string"
  cx_type_text :: "message_type \<Rightarrow> string"
  cx_set_order :: "string set \<Rightarrow> string list"

text \<open>A task that delivers the events of a subscription (its object) to a socket.\<close>

datatype task_phase = TaskNew | TaskRunning | TaskEnded

record delivery =
  dl_subscription :: nat
  dl_websocket :: websocket
  dl_session_id :: uuid
  dl_tenant_id :: string
  dl_phase :: task_phase
  dl_cancelled :: bool

text \<open>
  \<open>hb_sent\<close> and \<open>hb_shut\<close> record what has been sent and which sockets the bus has closed.
  An entry of \<open>hb_pending\<close> is an event, set or not, with its result data.
\<close>

record bus =
  hb_registry :: agent_registry
  hb_router :: intent_router
  hb_sessions :: session_manager
  hb_trace :: trace_store
  hb_queues :: queue_manager
  hb_events :: event_manager
  hb_pending :: "(string, bool \<times> payload) pydict"
  hb_delivery_tasks :: "(string, nat) pydict"
  hb_tasks :: "delivery list"
  hb_sent :: sent
  hb_shut :: "websocket list"

definition bus_init ::
  "agent_registry \<Rightarrow> intent_router \<Rightarrow> session_manager \<Rightarrow> trace_store \<Rightarrow> queue_manager \<Rightarrow> event_manager \<Rightarrow> bus" where
  "bus_init registry router sessions trace queues events =
     \<lparr>hb_registry = registry, hb_router = router, hb_sessions = sessions, hb_trace = trace, hb_queues = queues,
      hb_events = events, hb_pending = [], hb_delivery_tasks = [], hb_tasks = [], hb_sent = [], hb_shut = []\<rparr>"

text \<open>The views are those of the registry, which is given the same object.\<close>

definition hb_views :: "bus \<Rightarrow> view_registry" where
  "hb_views b = (case rg_view_registry (hb_registry b) of Some v \<Rightarrow> v | None \<Rightarrow> vr_init)"

text \<open>A run of a flow that waits for offers, and what a handler can come to.\<close>

record flow_wait =
  fw_envelope :: message_envelope
  fw_session_id :: uuid
  fw_flow :: agent_flow
  fw_polls :: nat

datatype 'a outcome = Done | Raised string | Waiting 'a

type_synonym 'g handler = "'g ctx \<Rightarrow> websocket \<Rightarrow> string \<Rightarrow> message_envelope \<Rightarrow> bus \<Rightarrow> flow_wait outcome \<times> bus"

section \<open>Reading values\<close>

fun as_str :: "json \<Rightarrow> string option" where
  "as_str (JStr s) = Some s"
| "as_str _ = None"

fun as_dict :: "json \<Rightarrow> payload option" where
  "as_dict (JDict d) = Some d"
| "as_dict _ = None"

fun as_strs :: "json \<Rightarrow> string list option" where
  "as_strs (JList xs) = those (map as_str xs)"
| "as_strs _ = None"

text \<open>\<open>v or []\<close> and \<open>v or {}\<close>, read as a list of strings, a dict, a dict of dicts.\<close>

definition strs_or_empty :: "json \<Rightarrow> string list option" where
  "strs_or_empty v = (if py_bool v then as_strs v else Some [])"

definition dict_or_empty :: "json \<Rightarrow> payload option" where
  "dict_or_empty v = (if py_bool v then as_dict v else Some [])"

definition schemas_or_empty :: "json \<Rightarrow> schema_map option" where
  "schemas_or_empty v =
     (case dict_or_empty v of
        None \<Rightarrow> None
      | Some d \<Rightarrow> those (map (\<lambda>(k, s). map_option (Pair k) (as_dict s)) d))"

text \<open>A float: \<open>float_of\<close> reads a string as one.\<close>

fun as_float :: "(string \<Rightarrow> rat option) \<Rightarrow> json \<Rightarrow> rat option" where
  "as_float float_of (JInt i) = Some (of_int i)"
| "as_float float_of (JFloat x) = Some x"
| "as_float float_of (JBool b) = Some (if b then 1 else 0)"
| "as_float float_of (JStr s) = float_of s"
| "as_float float_of _ = None"

text \<open>A value of type \<open>str | None\<close>; \<open>None\<close> when it has another type.\<close>

fun as_opt_str :: "json \<Rightarrow> string option option" where
  "as_opt_str JNone = Some None"
| "as_opt_str (JStr s) = Some (Some s)"
| "as_opt_str _ = None"

fun hashable :: "json \<Rightarrow> bool" where
  "hashable (JList _) = False"
| "hashable (JDict _) = False"
| "hashable _ = True"

definition ctx_text :: "'g ctx \<Rightarrow> json \<Rightarrow> string" where
  "ctx_text c v = text_of (cx_outside c) v"

section \<open>Sending\<close>

definition send_envelope :: "'g ctx \<Rightarrow> websocket \<Rightarrow> message_envelope \<Rightarrow> bus \<Rightarrow> bus" where
  "send_envelope c ws e b = (if cx_send_ok c ws e then b\<lparr>hb_sent := hb_sent b @ [(ws, e)]\<rparr> else b)"

definition send_error ::
  "'g ctx \<Rightarrow> websocket \<Rightarrow> uuid option \<Rightarrow> string option \<Rightarrow> string \<Rightarrow> string \<Rightarrow> bus \<Rightarrow> bus" where
  "send_error c ws corr tenant code message b =
     send_envelope c ws
       (create_error (cx_ids c 0) (cx_now c) BUS_ID (if str_true tenant then the tenant else ''system'') corr code message [])
       b"

text \<open>The reply most handlers end with: an error that refers to the message.\<close>

definition reply_error :: "'g ctx \<Rightarrow> websocket \<Rightarrow> message_envelope \<Rightarrow> string \<Rightarrow> string \<Rightarrow> bus \<Rightarrow> flow_wait outcome \<times> bus" where
  "reply_error c ws e code message b =
     (Done, send_error c ws (Some (env_message_id e)) (Some (env_tenant_id e)) code message b)"

definition add_trace :: "trace_event \<Rightarrow> bus \<Rightarrow> bus" where
  "add_trace t b = b\<lparr>hb_trace := ts_append t (hb_trace b)\<rparr>"

definition send_to_conn :: "'g ctx \<Rightarrow> string \<Rightarrow> message_envelope \<Rightarrow> bus \<Rightarrow> bus" where
  "send_to_conn c conn e b =
     (case rg_get_websocket conn (hb_registry b) of None \<Rightarrow> b | Some w \<Rightarrow> send_envelope c w e b)"

section \<open>Registration\<close>

text \<open>
  The registry closes and forgets the agent's previous connection before it constructs the record of the
  agent, which fails on values of the wrong type.
\<close>

definition rg_drop_existing :: "uuid \<Rightarrow> agent_registry \<Rightarrow> websocket list \<times> agent_registry" where
  "rg_drop_existing agent r =
     (case dget (rg_conn_by_agent r) agent of
        None \<Rightarrow> ([], r)
      | Some old \<Rightarrow> if old = [] then ([], r) else
          (case dget (rg_connections r) old of None \<Rightarrow> [] | Some w \<Rightarrow> [w], rg_remove_agent old r))"

definition handle_register ::
  "'g ctx \<Rightarrow> websocket \<Rightarrow> message_envelope \<Rightarrow> bus \<Rightarrow> (string \<times> uuid \<times> string) option \<times> bus" where
  "handle_register c ws e b =
     (let agent = env_sender_id e; tenant = env_tenant_id e; p = env_payload e in
      case (strs_or_empty (pget p ''capabilities'' (JList [])), strs_or_empty (pget p ''tags'' (JList [])),
            schemas_or_empty (pget p ''schemas'' (JDict [])), dict_or_empty (pget p ''metadata'' (JDict []))) of
        (Some capabilities, Some tags, Some schemas, Some metadata) \<Rightarrow>
          (let (shut, (conn, a), r) = rg_register (cx_now c) agent tenant ws capabilities tags schemas metadata (hb_registry b);
               b = b\<lparr>hb_registry := r, hb_shut := hb_shut b @ shut\<rparr>;
               b = add_trace (trace_agent_register (cx_ids c 0) (cx_now c) tenant agent conn capabilities) b;
               b = send_envelope c ws
                     (create_agent_registered (cx_ids c 1) (cx_now c) BUS_ID tenant (env_message_id e) agent conn) b
           in (Some (conn, agent, tenant), b))
      | _ \<Rightarrow>
          (let (shut, r) = rg_drop_existing agent (hb_registry b);
               b = b\<lparr>hb_registry := r, hb_shut := hb_shut b @ shut\<rparr>
           in (None, send_error c ws (Some (env_message_id e)) (Some tenant) ''REGISTRATION_FAILED'' (cx_error_text c p) b)))"

section \<open>Heartbeat and list\<close>

definition handle_heartbeat :: "'g handler" where
  "handle_heartbeat c ws conn e b =
     (let (success, r) = rg_heartbeat (cx_now c) conn (hb_registry b); b = b\<lparr>hb_registry := r\<rparr> in
      if success then
        (Done, send_envelope c ws
           (create_heartbeat_ack (cx_ids c 0) (cx_now c) BUS_ID (env_tenant_id e) (env_message_id e)) b)
      else reply_error c ws e ''AGENT_NOT_FOUND'' ''Agent not registered'' b)"

text \<open>A tenant that is not a string is no agent's, and a false value is no filter.\<close>

definition listed_agents :: "json \<Rightarrow> bool \<Rightarrow> agent_registry \<Rightarrow> agent_record list" where
  "listed_agents tenant only_online r =
     (if \<not> py_bool tenant then rg_list_agents None only_online r
      else case as_str tenant of None \<Rightarrow> [] | Some t \<Rightarrow> rg_list_agents (Some t) only_online r)"

definition handle_list :: "'g handler" where
  "handle_list c ws conn e b =
     (let tenant = pget (env_payload e) ''tenant_id'' (JStr (env_tenant_id e));
          only_online = py_bool (pget (env_payload e) ''only_online'' (JBool True));
          agents = listed_agents tenant only_online (hb_registry b)
      in (Done, send_envelope c ws
           (create_agent_list_result (cx_ids c 0) (cx_now c) BUS_ID (env_tenant_id e) (env_message_id e)
              (map agent_to_public_dict agents)) b))"

section \<open>Frames\<close>

lemma send_simps [simp]:
  "hb_registry (send_envelope c ws e b) = hb_registry b" "hb_sessions (send_envelope c ws e b) = hb_sessions b"
  "hb_router (send_envelope c ws e b) = hb_router b" "hb_trace (send_envelope c ws e b) = hb_trace b"
  "hb_queues (send_envelope c ws e b) = hb_queues b" "hb_events (send_envelope c ws e b) = hb_events b"
  "hb_pending (send_envelope c ws e b) = hb_pending b" "hb_delivery_tasks (send_envelope c ws e b) = hb_delivery_tasks b"
  "hb_tasks (send_envelope c ws e b) = hb_tasks b" "hb_shut (send_envelope c ws e b) = hb_shut b"
  by (simp_all add: send_envelope_def)

lemma send_error_simps [simp]:
  "hb_registry (send_error c ws r t k m b) = hb_registry b" "hb_sessions (send_error c ws r t k m b) = hb_sessions b"
  "hb_router (send_error c ws r t k m b) = hb_router b" "hb_trace (send_error c ws r t k m b) = hb_trace b"
  "hb_queues (send_error c ws r t k m b) = hb_queues b" "hb_events (send_error c ws r t k m b) = hb_events b"
  "hb_pending (send_error c ws r t k m b) = hb_pending b" "hb_delivery_tasks (send_error c ws r t k m b) = hb_delivery_tasks b"
  "hb_tasks (send_error c ws r t k m b) = hb_tasks b" "hb_shut (send_error c ws r t k m b) = hb_shut b"
  by (simp_all add: send_error_def)

lemma add_trace_simps [simp]:
  "hb_registry (add_trace t b) = hb_registry b" "hb_sessions (add_trace t b) = hb_sessions b"
  "hb_router (add_trace t b) = hb_router b" "hb_sent (add_trace t b) = hb_sent b"
  "hb_queues (add_trace t b) = hb_queues b" "hb_events (add_trace t b) = hb_events b"
  "hb_pending (add_trace t b) = hb_pending b" "hb_delivery_tasks (add_trace t b) = hb_delivery_tasks b"
  "hb_tasks (add_trace t b) = hb_tasks b" "hb_shut (add_trace t b) = hb_shut b"
  by (simp_all add: add_trace_def)

lemma send_to_conn_simps [simp]:
  "hb_registry (send_to_conn c k e b) = hb_registry b" "hb_sessions (send_to_conn c k e b) = hb_sessions b"
  "hb_router (send_to_conn c k e b) = hb_router b" "hb_trace (send_to_conn c k e b) = hb_trace b"
  "hb_queues (send_to_conn c k e b) = hb_queues b" "hb_events (send_to_conn c k e b) = hb_events b"
  "hb_pending (send_to_conn c k e b) = hb_pending b" "hb_delivery_tasks (send_to_conn c k e b) = hb_delivery_tasks b"
  "hb_tasks (send_to_conn c k e b) = hb_tasks b" "hb_shut (send_to_conn c k e b) = hb_shut b"
  by (simp_all add: send_to_conn_def split: option.split)

end
