(* ===== verification/Handler_Intent.thy ===== *)
theory Handler_Intent
  imports Handler_Base
begin

text \<open>
  \<open>src/transport/handler.py\<close>, second part: broadcasting an intent and collecting the offers of the agents
  of its flow, offers, agreement, closing a session, and the request to execute.
\<close>

section \<open>Flows\<close>

text \<open>
  The loop that asks the agents of a flow for offers. \<open>Inl\<close> is the exception for an id that is not a
  UUID; an agent that is not registered is passed over. The agent is looked up by its id alone.
\<close>

definition deliver_payload :: "message_envelope \<Rightarrow> agent_node \<Rightarrow> payload" where
  "deliver_payload e n =
     dict_merge (env_payload e)
       [(''orchestration_role'', JStr (an_capability n)), (''flow_step'', JStr (an_description n))]"

definition deliver_envelope :: "'g ctx \<Rightarrow> nat \<Rightarrow> message_envelope \<Rightarrow> uuid \<Rightarrow> agent_node \<Rightarrow> message_envelope" where
  "deliver_envelope c k e session n =
     create_intent_deliver_with_session (cx_ids c k) (cx_now c) BUS_ID (env_tenant_id e) (env_message_id e) session
       (env_sender_id e) (deliver_payload e n) (env_purpose e) (env_data_scope e)"

fun ask_agents ::
  "'g ctx \<Rightarrow> message_envelope \<Rightarrow> uuid \<Rightarrow> nat \<Rightarrow> agent_node list \<Rightarrow> bus \<Rightarrow> (string + unit) \<times> bus" where
  "ask_agents c e session k [] b = (Inr (), b)"
| "ask_agents c e session k (n # ns) b =
     (case uuid_parse (an_agent_id n) of
        None \<Rightarrow> (Inl ''badly formed hexadecimal UUID string'', b)
      | Some agent_id \<Rightarrow>
          (case rg_get_agent_by_id agent_id (hb_registry b) of
             None \<Rightarrow> ask_agents c e session k ns b
           | Some a \<Rightarrow>
               (let (ok, messages) = route_to_agent (cx_send_ok c) (hb_registry b) a (deliver_envelope c k e session n)
                in ask_agents c e session (k + 1) ns (b\<lparr>hb_sent := hb_sent b @ messages\<rparr>))))"

text \<open>The number of polls: adding 0.2 to a float reaches 10.0 after 51 steps.\<close>

definition max_polls :: nat where
  "max_polls = 51"

definition execute_agent_flow :: "'g ctx \<Rightarrow> websocket \<Rightarrow> string \<Rightarrow> message_envelope \<Rightarrow> agent_flow \<Rightarrow> bus \<Rightarrow> flow_wait outcome \<times> bus" where
  "execute_agent_flow c ws conn e flow b =
     (let (s, m) = sm_create_session (cx_ids c 0) (cx_now c) (env_tenant_id e) (env_sender_id e) conn (env_message_id e)
                     (env_payload e) (flow_ids flow) (Some (fl_entry_point flow)) (hb_sessions b);
          session = se_ephemeral_interface_id s;
          (asked, b) = ask_agents c e session 1 (fl_agents flow) (b\<lparr>hb_sessions := m\<rparr>)
      in case asked of
           Inl err \<Rightarrow> (Raised err, b)
         | Inr _ \<Rightarrow> (Waiting \<lparr>fw_envelope = e, fw_session_id = session, fw_flow = flow, fw_polls = max_polls\<rparr>, b))"

text \<open>The aggregated offer. \<open>list(set(xs))\<close> has the order \<open>cx_set_order\<close>.\<close>

definition without_duplicates :: "'g ctx \<Rightarrow> string list list \<Rightarrow> string list" where
  "without_duplicates c xss = cx_set_order c (set (concat xss))"

definition average_score :: "offer list \<Rightarrow> rat" where
  "average_score xs = sum_list (map of_score xs) / of_nat (length xs)"

definition aggregated_offer :: "'g ctx \<Rightarrow> string \<Rightarrow> agent_flow \<Rightarrow> offer list \<Rightarrow> payload" where
  "aggregated_offer c offer_id flow xs =
     [(''offer_id'', JStr offer_id), (''provider_id'', JStr (uuid_str BUS_ID)),
      (''schema_ids'', JList (map JStr (without_duplicates c (map of_schema_ids xs)))),
      (''requires'', JList (map JStr (without_duplicates c (map of_requires xs)))),
      (''accepts'', JList (map JStr (without_duplicates c (map of_accepts xs)))),
      (''score'', JFloat (average_score xs)),
      (''metadata'', JDict
         [(''is_multi_agent_flow'', JBool True), (''flow_agents'', JList (map JStr (flow_ids flow))),
          (''flow_reasoning'', JStr (fl_reasoning flow)), (''flow_confidence'', JFloat (fl_confidence flow)),
          (''individual_offers'', JList (map (\<lambda>x. JDict (of_to_dict x)) xs))])]"

definition finish_flow :: "'g ctx \<Rightarrow> websocket \<Rightarrow> flow_wait \<Rightarrow> offer list \<Rightarrow> bus \<Rightarrow> flow_wait outcome \<times> bus" where
  "finish_flow c ws fw xs b =
     (let e = fw_envelope fw; flow = fw_flow fw in
      if xs = [] then reply_error c ws e ''NO_OFFERS'' ''No agents responded with offers for the flow'' b
      else
        let offer_id = uuid_str (cx_ids c 0);
            (_, m) = sm_set_flow_info (fw_session_id fw) (flow_ids flow) (Some (fl_entry_point flow)) offer_id (hb_sessions b);
            b = b\<lparr>hb_sessions := m\<rparr>
        in (Done, send_envelope c ws
              (create_intent_offers (cx_ids c 1) (cx_now c) BUS_ID (env_tenant_id e) (env_message_id e) (fw_session_id fw)
                 [aggregated_offer c offer_id flow xs]) b))"

text \<open>One turn of the loop, after its sleep.\<close>

definition poll_flow :: "'g ctx \<Rightarrow> websocket \<Rightarrow> flow_wait \<Rightarrow> bus \<Rightarrow> flow_wait outcome \<times> bus" where
  "poll_flow c ws fw b =
     (case sm_get_session (fw_session_id fw) (hb_sessions b) of
        Some s \<Rightarrow>
          if length (fl_agents (fw_flow fw)) \<le> length (se_offers s) then finish_flow c ws fw (se_offers s) b
          else if fw_polls fw \<le> 1 then finish_flow c ws fw [] b
          else (Waiting (fw\<lparr>fw_polls := fw_polls fw - 1\<rparr>), b)
      | None \<Rightarrow>
          if fw_polls fw \<le> 1 then finish_flow c ws fw [] b
          else (Waiting (fw\<lparr>fw_polls := fw_polls fw - 1\<rparr>), b))"

definition handle_intent_broadcast :: "'g handler" where
  "handle_intent_broadcast c ws conn e b =
     (let ((flow, graph), R) = find_agent_flow (cx_outside c) e (hb_router b, hb_registry b);
          b = b\<lparr>hb_router := R\<rparr>
      in case flow of
           None \<Rightarrow> reply_error c ws e ''NO_AGENTS'' ''No agents available to fulfill this intent'' b
         | Some f \<Rightarrow> execute_agent_flow c ws conn e f b)"

section \<open>Offers\<close>

text \<open>
  An offer for an open session is read into the model of an offer; one that cannot be read is an exception.
\<close>

definition read_offer ::
  "'g ctx \<Rightarrow> payload \<Rightarrow> (string list \<times> string list \<times> string list \<times> string list \<times> rat \<times> payload) option" where
  "read_offer c p =
     (case (strs_or_empty (pget p ''schema_ids'' (JList [])), strs_or_empty (pget p ''view_ids'' (JList [])),
            strs_or_empty (pget p ''requires'' (JList [])), strs_or_empty (pget p ''accepts'' (JList [])),
            as_float (cx_float_of c) (pget p ''score'' (JFloat 0)), dict_or_empty (pget p ''metadata'' (JDict []))) of
        (Some schemas, Some views, Some requires, Some accepts, Some score, Some metadata) \<Rightarrow>
          Some (schemas, views, requires, accepts, score, metadata)
      | _ \<Rightarrow> None)"

definition open_for_offers :: "datetime \<Rightarrow> session \<Rightarrow> bool" where
  "open_for_offers now s = (se_status s = SESS_NEGOTIATING \<and> \<not> se_is_expired now s)"

definition handle_intent_offer :: "'g handler" where
  "handle_intent_offer c ws conn e b =
     (case env_ephemeral_interface_id e of
        None \<Rightarrow> reply_error c ws e ''MISSING_SESSION_ID'' ''intent.offer requires ephemeral_interface_id'' b
      | Some i \<Rightarrow>
        (case sm_get_session i (hb_sessions b) of
           None \<Rightarrow> reply_error c ws e ''SESSION_NOT_FOUND'' (''Session '' @ uuid_str i @ '' not found'') b
         | Some s \<Rightarrow>
           if \<not> open_for_offers (cx_now c) s then
             reply_error c ws e ''OFFER_REJECTED'' ''Could not add offer to session (session may be closed or expired)'' b
           else
           (case read_offer c (env_payload e) of
              None \<Rightarrow> (Raised (cx_error_text c (env_payload e)), b)
            | Some (schemas, views, requires, accepts, score, metadata) \<Rightarrow>
              (case sm_add_offer (cx_ids c 0) (cx_now c) i (env_sender_id e) conn schemas views requires accepts score
                      metadata (hb_sessions b) of
                 (Inl _, _) \<Rightarrow> (Raised (cx_error_text c (env_payload e)), b)
               | (Inr None, _) \<Rightarrow>
                   reply_error c ws e ''OFFER_REJECTED'' ''Could not add offer to session (session may be closed or expired)'' b
               | (Inr (Some x), m) \<Rightarrow>
                   (let b = b\<lparr>hb_sessions := m\<rparr>;
                        b = send_envelope c ws
                              (create_intent_offer_received (cx_ids c 1) (cx_now c) BUS_ID (env_tenant_id e) (env_message_id e)
                                 (of_offer_id x) i) b
                    in (Done, add_trace (trace_intent_offer (cx_ids c 2) (cx_now c) (env_tenant_id e) i (env_sender_id e)
                                (of_offer_id x) views) b))))))"

section \<open>Agreement\<close>

text \<open>The session is made active in place; neither its status nor its age is looked at.\<close>

definition activated :: "datetime \<Rightarrow> string \<Rightarrow> session \<Rightarrow> session" where
  "activated now offer_id s =
     s\<lparr>se_status := SESS_ACTIVE, se_activated_at := Some now, se_chosen_offer_id := Some offer_id,
       se_provider_agent_id := Some BUS_ID, se_provider_conn_id := Some ''bus-flow-executor''\<rparr>"

definition session_created_message ::
  "'g ctx \<Rightarrow> message_envelope \<Rightarrow> string \<Rightarrow> session \<Rightarrow> message_envelope" where
  "session_created_message c e offer_id s =
     (let m = create_session_created (cx_ids c 0) (cx_now c) (cx_isoformat c) BUS_ID (se_tenant_id s)
                (se_intent_message_id s) (se_ephemeral_interface_id s) (se_requester_agent_id s) BUS_ID offer_id None None
                (Some (se_expires_at s));
          p = dset ''chosen_schema_id'' (pget (env_payload e) ''chosen_schema_id'' JNone) (env_payload m);
          p = dset ''chosen_view_id'' (pget (env_payload e) ''chosen_view_id'' JNone) p
      in m\<lparr>env_payload := dset ''flow_agents'' (JList (map JStr (se_flow_agents s))) p\<rparr>)"

definition handle_intent_agree :: "'g handler" where
  "handle_intent_agree c ws conn e b =
     (case env_ephemeral_interface_id e of
        None \<Rightarrow> reply_error c ws e ''MISSING_SESSION_ID'' ''intent.agree requires ephemeral_interface_id'' b
      | Some i \<Rightarrow>
        (let offer = pget (env_payload e) ''offer_id'' JNone in
         if \<not> py_bool offer then reply_error c ws e ''MISSING_OFFER_ID'' ''intent.agree requires offer_id in payload'' b
         else
         (case sm_get_session i (hb_sessions b) of
            None \<Rightarrow> reply_error c ws e ''SESSION_NOT_FOUND'' (''Session '' @ uuid_str i @ '' not found'') b
          | Some s \<Rightarrow>
            if se_requester_agent_id s \<noteq> env_sender_id e then
              reply_error c ws e ''NOT_AUTHORIZED'' ''Only the requester can agree to an offer'' b
            else if map_option JStr (se_aggregated_offer_id s) \<noteq> Some offer then
              reply_error c ws e ''INVALID_OFFER'' (''Offer '' @ ctx_text c offer @ '' does not match session offer'') b
            else
              let offer_id = the (se_aggregated_offer_id s);
                  s = activated (cx_now c) offer_id s;
                  b = b\<lparr>hb_sessions := sm_put s i (hb_sessions b)\<rparr>;
                  b = send_envelope c ws (session_created_message c e offer_id s) b;
                  agreed = trace_intent_agree (cx_ids c 1) (cx_now c) (se_tenant_id s) (se_ephemeral_interface_id s)
                    (se_requester_agent_id s) BUS_ID offer_id None;
                  agreed = agreed\<lparr>te_data := dset ''chosen_view_id'' (pget (env_payload e) ''chosen_view_id'' JNone) (te_data agreed)\<rparr>;
                  b = add_trace agreed b
              in (Done, add_trace (trace_session_created (cx_ids c 2) (cx_now c) (se_tenant_id s)
                    (se_ephemeral_interface_id s) (se_requester_agent_id s) BUS_ID) b))))"

section \<open>Closing\<close>

definition close_message :: "'g ctx \<Rightarrow> message_envelope \<Rightarrow> uuid \<Rightarrow> json \<Rightarrow> session \<Rightarrow> message_envelope" where
  "close_message c e i reason s =
     (new_envelope (cx_ids c 0) (cx_now c) MT_SESSION_CLOSE BUS_ID (se_tenant_id s)
        [(''reason'', reason), (''closed_by'', JStr (uuid_str (env_sender_id e)))])
       \<lparr>env_ephemeral_interface_id := Some i, env_correlation_id := Some (env_message_id e)\<rparr>"

definition other_conn :: "string \<Rightarrow> session \<Rightarrow> string option" where
  "other_conn conn s = (if conn = se_requester_conn_id s then se_provider_conn_id s else Some (se_requester_conn_id s))"

definition handle_session_close :: "'g handler" where
  "handle_session_close c ws conn e b =
     (case env_ephemeral_interface_id e of
        None \<Rightarrow> reply_error c ws e ''MISSING_SESSION_ID'' ''session.close requires ephemeral_interface_id'' b
      | Some i \<Rightarrow>
        (let reason = pget (env_payload e) ''reason'' JNone in
         case sm_close_session (cx_now c) i (hb_sessions b) of
           (None, _) \<Rightarrow> reply_error c ws e ''SESSION_NOT_FOUND'' (''Session '' @ uuid_str i @ '' not found'') b
         | (Some s, m) \<Rightarrow>
             (let b = b\<lparr>hb_sessions := m\<rparr>;
                  b = (if str_true (other_conn conn s)
                       then send_to_conn c (the (other_conn conn s)) (close_message c e i reason s) b else b);
                  t = trace_session_closed (cx_ids c 1) (cx_now c) (se_tenant_id s) i [];
                  t = t\<lparr>te_data := dset ''reason'' (if py_bool reason then reason else JStr ''explicit'') (te_data t)\<rparr>
              in (Done, add_trace t b))))"

section \<open>Requests to execute\<close>

text \<open>
  A request that passes all tests calls \<open>_execute_agent_flow\<close> with \<open>session\<close>, which is no parameter
  of it, and without \<open>flow\<close> and \<open>graph\<close>, which are.
\<close>

definition handle_exec_request :: "'g handler" where
  "handle_exec_request c ws conn e b =
     (case env_ephemeral_interface_id e of
        None \<Rightarrow> reply_error c ws e ''MISSING_SESSION_ID'' ''exec.request requires ephemeral_interface_id'' b
      | Some i \<Rightarrow>
        (case sm_validate_session_for_exec (cx_now c) i (env_sender_id e) (hb_sessions b) of
           (True, _, Some s) \<Rightarrow>
             if env_sender_id e \<noteq> se_requester_agent_id s then
               reply_error c ws e ''NOT_AUTHORIZED'' ''Only the requester can send exec.request'' b
             else (Raised ''unexpected keyword argument session'', b)
         | (_, error_msg, _) \<Rightarrow>
             reply_error c ws e ''INVALID_SESSION'' (case error_msg of Some t \<Rightarrow> t | None \<Rightarrow> []) b))"

end
