(* ===== verification/Handler_Exec.thy ===== *)
theory Handler_Exec
  imports Handler_Base "HOL-Library.Sublist"
begin

text \<open>
  \<open>src/transport/handler.py\<close>, third part: what a provider sends during an execution, forwarded to the
  requester of the session: acceptance, progress, errors, results with the validation of their structure,
  partial failures and streams. Python's \<open>in\<close> and \<open>==\<close> on values are written out.
\<close>

section \<open>Values\<close>

text \<open>\<open>v == w\<close>: numbers are equal across their types, dicts as maps.\<close>

fun as_number :: "json \<Rightarrow> rat option" where
  "as_number (JBool b) = Some (if b then 1 else 0)"
| "as_number (JInt i) = Some (of_int i)"
| "as_number (JFloat x) = Some x"
| "as_number _ = None"

fun py_eq :: "json \<Rightarrow> json \<Rightarrow> bool" where
  "py_eq (JList xs) (JList ys) = list_all2 py_eq xs ys"
| "py_eq (JDict d) (JDict e) =
     (length d = length e \<and> list_all (\<lambda>(k, x). case dget e k of None \<Rightarrow> False | Some y \<Rightarrow> py_eq x y) d)"
| "py_eq v w =
     (case (as_number v, as_number w) of
        (Some x, Some y) \<Rightarrow> x = y
      | (None, None) \<Rightarrow> v = w
      | _ \<Rightarrow> False)"

text \<open>\<open>f in payload\<close>.\<close>

fun py_in :: "json \<Rightarrow> json \<Rightarrow> string + bool" where
  "py_in f (JDict d) = py_key_in f d"
| "py_in f (JList xs) = Inr (\<exists>x\<in>set xs. py_eq f x)"
| "py_in (JStr f) (JStr s) = Inr (sublist f s)"
| "py_in f (JStr s) = Inl ([CHR 39] @ ''in <string>'' @ [CHR 39] @ '' requires string as left operand, not '' @ py_type_name f)"
| "py_in f v = Inl (''argument of type '' @ [CHR 39] @ py_type_name v @ [CHR 39] @ '' is not iterable'')"

fun required_in :: "(json \<Rightarrow> string) \<Rightarrow> json list \<Rightarrow> json \<Rightarrow> bool \<times> string option" where
  "required_in str [] p = (True, None)"
| "required_in str (f # fs) p =
     (case py_in f p of
        Inl e \<Rightarrow> (False, Some (''Validation error: '' @ e))
      | Inr True \<Rightarrow> required_in str fs p
      | Inr False \<Rightarrow> (False, Some (''Missing required field: '' @ str f)))"

text \<open>
  \<open>ViewRegistry.validate\<close> with a capability and a payload of any type. \<open>Inl\<close> is the exception of looking
  up a capability that is not hashable.
\<close>

definition validate_value :: "(json \<Rightarrow> string) \<Rightarrow> uuid \<Rightarrow> json \<Rightarrow> json \<Rightarrow> view_registry \<Rightarrow> string + (bool \<times> string option)" where
  "validate_value str agent capability p v =
     (case capability of
        JStr k \<Rightarrow>
          (case vr_get_schema agent k v of
             None \<Rightarrow> Inr (True, None)
           | Some schema_def \<Rightarrow>
               if din ''properties'' schema_def then
                 (case py_iter (pget schema_def ''required'' (JList [])) of
                    Inl e \<Rightarrow> Inr (False, Some (''Validation error: '' @ e))
                  | Inr names \<Rightarrow> Inr (required_in str names p))
               else Inr (True, None))
      | _ \<Rightarrow>
          if \<not> hashable capability \<and> dget_or (vr_schemas_by_agent v) agent [] \<noteq> [] then Inl ''unhashable type''
          else Inr (True, None))"

text \<open>On dicts this is the validation of the registry.\<close>

lemma required_in_dict: "required_in str fs (JDict d) = check_required str fs d"
  by (induction fs) (simp_all split: sum.splits bool.splits)

lemma validate_value_dict: "validate_value str agent (JStr k) (JDict d) v = Inr (vr_validate str agent k d v)"
  by (simp add: validate_value_def vr_validate_def required_in_dict split: option.split sum.split)

section \<open>Acceptance, progress, errors\<close>

abbreviation no_update :: exec_update where
  "no_update \<equiv> \<lparr>eu_accepted_at = None, eu_completed_at = None, eu_result_view_id = None, eu_result_valid = None\<rparr>"

text \<open>The session is changed in place.\<close>

definition update_execution ::
  "'g ctx \<Rightarrow> uuid \<Rightarrow> json \<Rightarrow> execution_status \<Rightarrow> exec_update \<Rightarrow> session \<Rightarrow> bus \<Rightarrow> bus" where
  "update_execution c i exec_id st kw s b =
     (let (_, s) = se_update_execution_status (cx_now c) (ctx_text c exec_id) st kw s
      in b\<lparr>hb_sessions := sm_put s i (hb_sessions b)\<rparr>)"

text \<open>The session of a message whose sender may speak as its provider.\<close>

definition provider_session :: "'g ctx \<Rightarrow> message_envelope \<Rightarrow> bus \<Rightarrow> (uuid \<times> session) option" where
  "provider_session c e b =
     (case env_ephemeral_interface_id e of
        None \<Rightarrow> None
      | Some i \<Rightarrow>
        (case sm_validate_session_for_exec (cx_now c) i (env_sender_id e) (hb_sessions b) of
           (True, _, Some s) \<Rightarrow> if Some (env_sender_id e) = se_provider_agent_id s then Some (i, s) else None
         | _ \<Rightarrow> None))"

definition exec_status_handler :: "execution_status \<Rightarrow> 'g handler" where
  "exec_status_handler st c ws conn e b =
     (case provider_session c e b of
        None \<Rightarrow> (Done, b)
      | Some (i, s) \<Rightarrow>
          (let exec_id = pget (env_payload e) ''exec_id'' JNone;
               b = (if py_bool exec_id then update_execution c i exec_id st no_update s b else b)
           in (Done, send_to_conn c (se_requester_conn_id s) e b)))"

definition handle_exec_accepted :: "'g handler" where
  "handle_exec_accepted = exec_status_handler EXEC_ACCEPTED"

definition handle_exec_progress :: "'g handler" where
  "handle_exec_progress = exec_status_handler EXEC_IN_PROGRESS"

definition handle_exec_error_from_provider :: "'g handler" where
  "handle_exec_error_from_provider = exec_status_handler EXEC_FAILED"

section \<open>Results\<close>

text \<open>The tests results and partial failures start with: the session, or the error to reply with.\<close>

definition checked_provider_session ::
  "string \<Rightarrow> 'g ctx \<Rightarrow> message_envelope \<Rightarrow> bus \<Rightarrow> (string \<times> string) + (uuid \<times> session)" where
  "checked_provider_session name c e b =
     (case env_ephemeral_interface_id e of
        None \<Rightarrow> Inl (''MISSING_SESSION_ID'', name @ '' requires ephemeral_interface_id'')
      | Some i \<Rightarrow>
        (case sm_validate_session_for_exec (cx_now c) i (env_sender_id e) (hb_sessions b) of
           (True, _, Some s) \<Rightarrow>
             if Some (env_sender_id e) \<noteq> se_provider_agent_id s then
               Inl (''NOT_AUTHORIZED'', ''Only the provider can send '' @ name)
             else Inr (i, s)
         | (_, error_msg, _) \<Rightarrow> Inl (''INVALID_SESSION'', case error_msg of Some t \<Rightarrow> t | None \<Rightarrow> [])))"

definition forwarded_result ::
  "message_envelope \<Rightarrow> datetime \<Rightarrow> uuid \<Rightarrow> bool \<Rightarrow> json \<Rightarrow> message_envelope" where
  "forwarded_result e now i view_valid capability =
     (new_envelope (env_message_id e) now MT_EXEC_RESULT (env_sender_id e) (env_tenant_id e)
        (dset ''_capability'' capability (dset ''_view_valid'' (JBool view_valid) (env_payload e))))
       \<lparr>env_ephemeral_interface_id := Some i, env_correlation_id := env_correlation_id e, env_schema_id := env_schema_id e\<rparr>"

text \<open>The text of an optional schema id in the message.\<close>

definition opt_text :: "string option \<Rightarrow> string" where
  "opt_text s = (case s of None \<Rightarrow> ''None'' | Some t \<Rightarrow> t)"

definition update_if :: "bool \<Rightarrow> 'g ctx \<Rightarrow> uuid \<Rightarrow> json \<Rightarrow> execution_status \<Rightarrow> exec_update \<Rightarrow> session \<Rightarrow> bus \<Rightarrow> bus" where
  "update_if known c i exec_id st kw s b = (if known then update_execution c i exec_id st kw s b else b)"

text \<open>The rest of the handler, once the structure of the result has been judged.\<close>

definition finish_exec_result ::
  "'g ctx \<Rightarrow> websocket \<Rightarrow> message_envelope \<Rightarrow> uuid \<Rightarrow> session \<Rightarrow> json \<Rightarrow> bool \<Rightarrow> json \<Rightarrow> bool \<Rightarrow> bus \<Rightarrow>
     flow_wait outcome \<times> bus" where
  "finish_exec_result c ws e i s exec_id known capability view_valid b =
     (let body = env_payload e;
          b = update_if known c i exec_id EXEC_COMPLETED
                (no_update\<lparr>eu_result_view_id := Some (case capability of JNone \<Rightarrow> None | v \<Rightarrow> Some (ctx_text c v)),
                  eu_result_valid := Some (Some view_valid)\<rparr>) s b in
      case dget (hb_pending b) (uuid_str i) of
        Some (_, result_data) \<Rightarrow>
          (Done, b\<lparr>hb_pending :=
             dset (uuid_str i) (True, dset ''result'' (pget body ''result'' (JDict body)) result_data) (hb_pending b)\<rparr>)
      | None \<Rightarrow>
        (case as_opt_str (if py_bool exec_id then exec_id else JStr []) of
           None \<Rightarrow> (Raised ''exec_id is not a string'', b)
         | Some x \<Rightarrow>
           (let t = trace_exec_result (cx_ids c 1) (cx_now c) (env_tenant_id e) i [] (env_sender_id e) (Some view_valid);
                b = add_trace (t\<lparr>te_exec_id := x\<rparr>) b in
            case rg_get_websocket (se_requester_conn_id s) (hb_registry b) of
              None \<Rightarrow> reply_error c ws e ''REQUESTER_OFFLINE'' ''Requester is not connected'' b
            | Some w \<Rightarrow> (Done, send_envelope c w (forwarded_result e (cx_now c) i view_valid capability) b))))"

definition handle_exec_result :: "'g handler" where
  "handle_exec_result c ws conn e b =
     (case checked_provider_session ''exec.result'' c e b of
        Inl (code, message) \<Rightarrow> reply_error c ws e code message b
      | Inr (i, s) \<Rightarrow>
        (let body = env_payload e;
             exec_id = pget body ''exec_id'' JNone;
             known = (py_bool exec_id \<and> se_get_execution (ctx_text c exec_id) s \<noteq> None) in
         if str_true (se_chosen_schema_id s) \<and> env_schema_id e \<noteq> se_chosen_schema_id s then
           reply_error c ws e ''SCHEMA_MISMATCH''
             (''Response schema '' @ opt_text (env_schema_id e) @ '' does not match agreed schema '' @
              the (se_chosen_schema_id s))
             (update_if known c i exec_id EXEC_FAILED (no_update\<lparr>eu_result_valid := Some (Some False)\<rparr>) s b)
         else
           (let capability = pget (se_intent s) ''capability'' (JStr ''unknown'') in
            if py_bool capability \<and> py_bool (pget body ''result'' JNone) then
              (case validate_value (ctx_text c) (the (se_provider_agent_id s)) capability (pget body ''result'' JNone) (hb_views b) of
                 Inl err \<Rightarrow> (Raised err, b)
               | Inr (valid, _) \<Rightarrow> finish_exec_result c ws e i s exec_id known capability valid b)
            else finish_exec_result c ws e i s exec_id known capability True b)))"

definition handle_exec_partial_failure :: "'g handler" where
  "handle_exec_partial_failure c ws conn e b =
     (case checked_provider_session ''exec.partial_failure'' c e b of
        Inl (code, message) \<Rightarrow> reply_error c ws e code message b
      | Inr (i, s) \<Rightarrow>
        (case rg_get_websocket (se_requester_conn_id s) (hb_registry b) of
           None \<Rightarrow> reply_error c ws e ''REQUESTER_OFFLINE'' ''Requester is not connected'' b
         | Some w \<Rightarrow> (Done, send_envelope c w e b)))"

section \<open>Streams\<close>

text \<open>Putting a message on the queue of the requester's connection.\<close>

definition send_to_requester_queued :: "'g ctx \<Rightarrow> session \<Rightarrow> message_envelope \<Rightarrow> bus \<Rightarrow> (out_error + unit) \<times> bus" where
  "send_to_requester_queued c s e b =
     (case rg_get_websocket (se_requester_conn_id s) (hb_registry b) of
        None \<Rightarrow> (Inr (), b)
      | Some _ \<Rightarrow>
        (let m = cm_get_or_create (se_requester_conn_id s) (hb_queues b) in
         case dget (cm_queues m) (se_requester_conn_id s) of
           None \<Rightarrow> (Inr (), b)
         | Some q \<Rightarrow>
             (let (res, q) = cq_put_nowait (cx_dump c e) q
              in (res, b\<lparr>hb_queues := m\<lparr>cm_queues := dset (se_requester_conn_id s) q (cm_queues m)\<rparr>\<rparr>))))"

fun error_text :: "out_error \<Rightarrow> string" where
  "error_text (OutQueueFull conn n) = ''Queue full for '' @ conn @ '' (size='' @ int_str n @ '')''"
| "error_text (OutRuntimeError t) = t"

definition forward_stream :: "'g ctx \<Rightarrow> session \<Rightarrow> message_envelope \<Rightarrow> bus \<Rightarrow> flow_wait outcome \<times> bus" where
  "forward_stream c s e b =
     (case send_to_requester_queued c s e b of
        (Inl err, b) \<Rightarrow> (Raised (error_text err), b)
      | (Inr _, b) \<Rightarrow> (Done, b))"

definition handle_stream_start :: "'g handler" where
  "handle_stream_start c ws conn e b =
     (case provider_session c e b of
        None \<Rightarrow> (Done, b)
      | Some (i, s) \<Rightarrow>
        (case as_opt_str (pget (env_payload e) ''exec_id'' (JStr [])) of
           None \<Rightarrow> (Raised ''exec_id is not a string'', b)
         | Some x \<Rightarrow>
           (let t = trace_stream_start (cx_ids c 0) (cx_now c) (env_tenant_id e) i [] (env_sender_id e) None;
                t = t\<lparr>te_exec_id := x, te_data := [(''content_type'', pget (env_payload e) ''content_type'' JNone)]\<rparr>
            in forward_stream c s e (add_trace t b))))"

text \<open>A full queue is reported to both sides; the other error of a queue is an exception.\<close>

definition backpressure_message :: "'g ctx \<Rightarrow> message_envelope \<Rightarrow> uuid \<Rightarrow> string option \<Rightarrow> message_envelope" where
  "backpressure_message c e i exec_id =
     create_exec_error (cx_ids c 2) (cx_now c) BUS_ID (env_tenant_id e) i
       (case env_correlation_id e of None \<Rightarrow> cx_ids c 3 | Some r \<Rightarrow> r) exec_id ''BACKPRESSURE''
       ''Requester queue full, stream terminated'' []"

definition handle_stream_chunk :: "'g handler" where
  "handle_stream_chunk c ws conn e b =
     (case provider_session c e b of
        None \<Rightarrow> (Done, b)
      | Some (i, s) \<Rightarrow>
        (case as_opt_str (pget (env_payload e) ''exec_id'' (JStr [])) of
           None \<Rightarrow> (Raised ''exec_id is not a string'', b)
         | Some x \<Rightarrow>
           (let chunk_len = (case pget (env_payload e) ''data'' (JStr []) of JStr d \<Rightarrow> int (length d) | _ \<Rightarrow> 0);
                t = trace_stream_chunk (cx_ids c 0) (cx_now c) (env_tenant_id e) i [] 0 chunk_len None;
                t = t\<lparr>te_exec_id := x, te_data := dset ''seq'' (pget (env_payload e) ''seq'' (JInt 0)) (te_data t)\<rparr>
            in case send_to_requester_queued c s e (add_trace t b) of
                 (Inr _, b) \<Rightarrow> (Done, b)
               | (Inl (OutRuntimeError err), b) \<Rightarrow> (Raised err, b)
               | (Inl (OutQueueFull _ n), b) \<Rightarrow>
                   (let bp = trace_stream_backpressure (cx_ids c 1) (cx_now c) (env_tenant_id e) i [] n;
                        b = add_trace (bp\<lparr>te_exec_id := x\<rparr>) b;
                        m = backpressure_message c e i x;
                        b = send_envelope c ws m b
                    in (Done, send_to_conn c (se_requester_conn_id s) m b)))))"

definition handle_stream_end :: "'g handler" where
  "handle_stream_end c ws conn e b =
     (case provider_session c e b of
        None \<Rightarrow> (Done, b)
      | Some (i, s) \<Rightarrow>
        (let exec_id = pget (env_payload e) ''exec_id'' (JStr []) in
         case as_opt_str exec_id of
           None \<Rightarrow> (Raised ''exec_id is not a string'', b)
         | Some x \<Rightarrow>
           (let t = trace_stream_end (cx_ids c 0) (cx_now c) (env_tenant_id e) i [] None None;
                t = t\<lparr>te_exec_id := x, te_data := [(''total_chunks'', pget (env_payload e) ''total_chunks'' JNone),
                       (''total_bytes'', pget (env_payload e) ''total_bytes'' JNone)]\<rparr>;
                b = add_trace t b;
                b = (if py_bool exec_id then update_execution c i exec_id EXEC_COMPLETED no_update s b else b)
            in forward_stream c s e b)))"

end
