(* ===== verification/Handler_Events.thy ===== *)
theory Handler_Events
  imports Handler_Base
begin

text \<open>
  \<open>src/transport/handler.py\<close>, fourth part: queries of the trace, subscriptions to events, their delivery to
  the socket by a task of its own, and the clean-up when a connection ends.
\<close>

section \<open>Trace\<close>

text \<open>\<open>min(tail, 1000)\<close> as the bound of a slice; \<open>None\<close> is a \<open>TypeError\<close>.\<close>

fun tail_of :: "json \<Rightarrow> int option" where
  "tail_of (JInt n) = Some (min n 1000)"
| "tail_of (JBool v) = Some (if v then 1 else 0)"
| "tail_of (JFloat x) = (if 1000 < x then Some 1000 else None)"
| "tail_of _ = None"

text \<open>The execution id is compared with texts, whatever its type; as a key it has to be hashable.\<close>

definition traced ::
  "uuid option \<Rightarrow> json \<Rightarrow> int \<Rightarrow> trace_store \<Rightarrow> string + (trace_event list \<times> bool)" where
  "traced session exec_id tail t =
     (case session of
        Some i \<Rightarrow>
          if py_bool exec_id \<and> as_str exec_id = None then Inr ([], tail < 0)
          else Inr (ts_get_by_session (uuid_str i) tail (as_str exec_id) t)
      | None \<Rightarrow>
          if py_bool exec_id then
            (case as_str exec_id of
               Some x \<Rightarrow> Inr (ts_get_by_exec x tail t)
             | None \<Rightarrow> if hashable exec_id then Inr ([], tail < 0) else Inl ''unhashable type'')
          else Inr (ts_get_global tail t))"

definition handle_trace_get :: "'g handler" where
  "handle_trace_get c ws conn e b =
     (case tail_of (pget (env_payload e) ''tail'' (JInt 100)) of
        None \<Rightarrow> (Raised ''tail is not an integer'', b)
      | Some tail \<Rightarrow>
        (case traced (env_ephemeral_interface_id e) (pget (env_payload e) ''exec_id'' JNone) tail (hb_trace b) of
           Inl err \<Rightarrow> (Raised err, b)
         | Inr (events, truncated) \<Rightarrow>
             (Done, send_envelope c ws
                (create_trace_result (cx_ids c 0) (cx_now c) BUS_ID (env_tenant_id e) (env_ephemeral_interface_id e)
                   (map (te_to_dict (cx_isoformat c)) events) truncated (Some (env_message_id e))) b)))"

section \<open>Subscribing\<close>

text \<open>The filter is constructed, so that its values are validated, and not used.\<close>

definition filter_valid :: "json \<Rightarrow> json \<Rightarrow> bool" where
  "filter_valid exec_id type_prefixes =
     ((py_bool exec_id \<longrightarrow> as_str exec_id \<noteq> None) \<and> (py_bool type_prefixes \<longrightarrow> as_strs type_prefixes \<noteq> None))"

definition subscribe ::
  "'g ctx \<Rightarrow> string \<Rightarrow> uuid \<Rightarrow> json \<Rightarrow> bool \<Rightarrow> event_manager \<Rightarrow> (event_error + nat) \<times> event_manager" where
  "subscribe c conn i exec_id include_history m =
     (case as_str exec_id of
        Some (x # xs) \<Rightarrow> em_subscribe_execution (cx_now c) conn i (x # xs) m
      | _ \<Rightarrow> em_subscribe_session (cx_now c) conn i include_history m)"

fun event_error_text :: "event_error \<Rightarrow> string" where
  "event_error_text (ValueError t) = t"
| "event_error_text ValidationError = ''validation error''"

definition start_delivery :: "nat \<Rightarrow> websocket \<Rightarrow> uuid \<Rightarrow> string \<Rightarrow> bus \<Rightarrow> bus" where
  "start_delivery a ws i tenant b =
     (let sid = sb_subscription_id (es_objs (em_stream (hb_events b)) a) in
      b\<lparr>hb_tasks := hb_tasks b @ [\<lparr>dl_subscription = a, dl_websocket = ws, dl_session_id = i, dl_tenant_id = tenant,
          dl_phase = TaskNew, dl_cancelled = False\<rparr>],
        hb_delivery_tasks := dset sid (length (hb_tasks b)) (hb_delivery_tasks b)\<rparr>)"

definition handle_event_subscribe :: "'g handler" where
  "handle_event_subscribe c ws conn e b =
     (let body = env_payload e;
          session_id = pget body ''session_id'' JNone;
          exec_id = pget body ''exec_id'' JNone;
          type_prefixes = pget body ''event_types'' JNone;
          include_history = py_bool (pget body ''include_history'' (JBool True)) in
      if \<not> py_bool session_id then
        reply_error c ws e ''MISSING_SESSION_ID'' ''session_id is required for event subscription'' b
      else case as_str session_id of
        None \<Rightarrow> (Raised ''session_id is not a string'', b)
      | Some t \<Rightarrow>
        (case uuid_parse t of
           None \<Rightarrow> reply_error c ws e ''INVALID_SESSION_ID'' ''session_id must be a valid UUID'' b
         | Some i \<Rightarrow>
           (case sm_get_session i (hb_sessions b) of
              None \<Rightarrow> reply_error c ws e ''SESSION_NOT_FOUND'' (''Session '' @ uuid_str i @ '' not found'') b
            | Some s \<Rightarrow>
              if se_tenant_id s \<noteq> env_tenant_id e then
                reply_error c ws e ''TENANT_MISMATCH'' ''Cannot subscribe to events from different tenant'' b
              else if \<not> filter_valid exec_id type_prefixes then (Raised ''invalid filter'', b)
              else
              (case subscribe c conn i exec_id include_history (hb_events b) of
                 (Inl err, m) \<Rightarrow> reply_error c ws e ''SUBSCRIPTION_ERROR'' (event_error_text err) (b\<lparr>hb_events := m\<rparr>)
               | (Inr a, m) \<Rightarrow>
                   (let b = start_delivery a ws i (env_tenant_id e) (b\<lparr>hb_events := m\<rparr>);
                        sid = sb_subscription_id (es_objs (em_stream m) a)
                    in (Done, send_envelope c ws
                          (create_event_subscribed (cx_ids c 0) (cx_now c) BUS_ID (env_tenant_id e) (env_message_id e) i sid
                             (case as_strs type_prefixes of Some ps \<Rightarrow> ps | None \<Rightarrow> [])) b))))))"

section \<open>Unsubscribing\<close>

definition cancel_task :: "string \<Rightarrow> bus \<Rightarrow> bus" where
  "cancel_task sid b =
     (case dget (hb_delivery_tasks b) sid of
        None \<Rightarrow> b
      | Some k \<Rightarrow> b\<lparr>hb_tasks := (hb_tasks b)[k := (hb_tasks b ! k)\<lparr>dl_cancelled := True\<rparr>],
          hb_delivery_tasks := dpop sid (hb_delivery_tasks b)\<rparr>)"

text \<open>The loop over the tasks whose subscription id starts with the connection id and a colon.\<close>

definition cancel_conn_tasks :: "string \<Rightarrow> bus \<Rightarrow> bus" where
  "cancel_conn_tasks conn b =
     fold cancel_task (filter (\<lambda>sid. starts_with sid (conn @ '':'')) (dkeys (hb_delivery_tasks b))) b"

text \<open>A subscription id that is not a string is no key; it has to be hashable.\<close>

definition handle_event_unsubscribe :: "'g handler" where
  "handle_event_unsubscribe c ws conn e b =
     (let sub = pget (env_payload e) ''subscription_id'' JNone in
      if py_bool sub then
        (case as_str sub of
           Some sid \<Rightarrow>
             (let (removed, m) = em_unsubscribe sid (hb_events b) in (Done, cancel_task sid (b\<lparr>hb_events := m\<rparr>)))
         | None \<Rightarrow> if hashable sub then (Done, b) else (Raised ''unhashable type'', b))
      else
        (let (n, m) = em_unsubscribe_connection conn (hb_events b)
         in (Done, cancel_conn_tasks conn (b\<lparr>hb_events := m\<rparr>))))"

definition cleanup_connection_events :: "string \<Rightarrow> bus \<Rightarrow> bus" where
  "cleanup_connection_events conn b =
     (let b = cancel_conn_tasks conn b; (n, m) = em_unsubscribe_connection conn (hb_events b) in b\<lparr>hb_events := m\<rparr>)"

section \<open>Emitting\<close>

text \<open>
  After the tests of the session the handler calls \<open>get_by_conn_id\<close> of the registry, which has no such method.
\<close>

definition handle_emit_event :: "'g handler" where
  "handle_emit_event c ws conn e b =
     (case env_ephemeral_interface_id e of
        None \<Rightarrow> reply_error c ws e ''MISSING_SESSION_ID'' ''ephemeral_interface_id is required for event emission'' b
      | Some i \<Rightarrow>
        (case sm_get_session i (hb_sessions b) of
           None \<Rightarrow> reply_error c ws e ''SESSION_NOT_FOUND'' (''Session '' @ uuid_str i @ '' not found'') b
         | Some _ \<Rightarrow> (Raised ''AgentRegistry object has no attribute get_by_conn_id'', b)))"

section \<open>Delivery\<close>

text \<open>
  A run of the task \<open>k\<close> to its next suspension: it sends the events that are queued and waits or, when the
  subscription is closed, ends. A cancelled task ends and closes its subscription, unless it never ran.
  The ids of the messages are the next ones.
\<close>

fun send_events :: "'g ctx \<Rightarrow> delivery \<Rightarrow> nat \<Rightarrow> event list \<Rightarrow> bus \<Rightarrow> bus" where
  "send_events c d k [] b = b"
| "send_events c d k (x # xs) b =
     (case create_event_envelope (cx_ids c k) (cx_now c) BUS_ID (dl_tenant_id d) (dl_session_id d)
             (ev_to_payload (cx_isoformat c) x) None of
        None \<Rightarrow> b
      | Some m \<Rightarrow> send_events c d (k + 1) xs (send_envelope c (dl_websocket d) m b))"

definition close_subscription :: "nat \<Rightarrow> bus \<Rightarrow> bus" where
  "close_subscription a b =
     b\<lparr>hb_events := (hb_events b)\<lparr>em_stream := snd (es_on a (\<lambda>s. ((), sb_close s)) (em_stream (hb_events b)))\<rparr>\<rparr>"

definition set_phase :: "nat \<Rightarrow> task_phase \<Rightarrow> bus \<Rightarrow> bus" where
  "set_phase k ph b = b\<lparr>hb_tasks := (hb_tasks b)[k := (hb_tasks b ! k)\<lparr>dl_phase := ph\<rparr>]\<rparr>"

definition deliver_events_to_connection :: "'g ctx \<Rightarrow> nat \<Rightarrow> bus \<Rightarrow> bus" where
  "deliver_events_to_connection c k b =
     (let d = hb_tasks b ! k; a = dl_subscription d in
      if dl_phase d = TaskEnded then b
      else if dl_cancelled d then
        set_phase k TaskEnded (if dl_phase d = TaskNew then b else close_subscription a b)
      else
        let (events, stopped, s) = sb_iterate (es_objs (em_stream (hb_events b)) a);
            st = (em_stream (hb_events b))\<lparr>es_objs := (es_objs (em_stream (hb_events b)))(a := s)\<rparr>;
            b = send_events c d 0 events (b\<lparr>hb_events := (hb_events b)\<lparr>em_stream := st\<rparr>\<rparr>)
        in if stopped then set_phase k TaskEnded (close_subscription a b) else set_phase k TaskRunning b)"

end
