(* ===== verification/Handler_Loop.thy ===== *)
theory Handler_Loop
  imports Handler_Intent Handler_Exec Handler_Events
begin

text \<open>
  \<open>src/transport/handler.py\<close>, fifth part: the table of handlers, the loop of a connection and its end, and
  the whole bus as a step relation: any connection receives a message, a flow polls for offers, a
  delivery task runs, or one of the background clean-ups does, in any order.
\<close>

section \<open>Dispatch\<close>

definition handle_message :: "'g handler" where
  "handle_message c ws conn e b =
     (case env_message_type e of
        MT_AGENT_HEARTBEAT \<Rightarrow> handle_heartbeat c ws conn e b
      | MT_AGENT_LIST \<Rightarrow> handle_list c ws conn e b
      | MT_INTENT_BROADCAST \<Rightarrow> handle_intent_broadcast c ws conn e b
      | MT_INTENT_OFFER \<Rightarrow> handle_intent_offer c ws conn e b
      | MT_INTENT_AGREE \<Rightarrow> handle_intent_agree c ws conn e b
      | MT_SESSION_CLOSE \<Rightarrow> handle_session_close c ws conn e b
      | MT_EXEC_REQUEST \<Rightarrow> handle_exec_request c ws conn e b
      | MT_EXEC_ACCEPTED \<Rightarrow> handle_exec_accepted c ws conn e b
      | MT_EXEC_PROGRESS \<Rightarrow> handle_exec_progress c ws conn e b
      | MT_EXEC_RESULT \<Rightarrow> handle_exec_result c ws conn e b
      | MT_EXEC_ERROR \<Rightarrow> handle_exec_error_from_provider c ws conn e b
      | MT_EXEC_PARTIAL_FAILURE \<Rightarrow> handle_exec_partial_failure c ws conn e b
      | MT_EXEC_STREAM_START \<Rightarrow> handle_stream_start c ws conn e b
      | MT_EXEC_STREAM_CHUNK \<Rightarrow> handle_stream_chunk c ws conn e b
      | MT_EXEC_STREAM_END \<Rightarrow> handle_stream_end c ws conn e b
      | MT_TRACE_GET \<Rightarrow> handle_trace_get c ws conn e b
      | MT_EVENT_SUBSCRIBE \<Rightarrow> handle_event_subscribe c ws conn e b
      | MT_EVENT_UNSUBSCRIBE \<Rightarrow> handle_event_unsubscribe c ws conn e b
      | MT_EMIT_EVENT \<Rightarrow> handle_emit_event c ws conn e b
      | ty \<Rightarrow> reply_error c ws e ''UNSUPPORTED_MESSAGE_TYPE'' (''Message type '' @ cx_type_text c ty @ '' not supported'') b)"

section \<open>A connection\<close>

text \<open>What \<open>receive_text\<close> and the parsing of the text come to.\<close>

datatype incoming = Message message_envelope | Malformed string | Disconnected

text \<open>Where the coroutine of a connection is: before the first message, in the loop, in a flow, at its end.\<close>

datatype phase = PNew | PReady string | PFlow string flow_wait | PClosed

definition end_connection :: "string \<Rightarrow> bus \<Rightarrow> bus" where
  "end_connection conn b =
     (let b = cleanup_connection_events conn b; (_, r) = rg_unregister conn (hb_registry b) in b\<lparr>hb_registry := r\<rparr>)"

definition shut :: "websocket \<Rightarrow> bus \<Rightarrow> bus" where
  "shut ws b = b\<lparr>hb_shut := hb_shut b @ [ws]\<rparr>"

definition after_handler :: "string \<Rightarrow> flow_wait outcome \<times> bus \<Rightarrow> phase \<times> bus" where
  "after_handler conn res =
     (case res of
        (Done, b) \<Rightarrow> (PReady conn, b)
      | (Waiting fw, b) \<Rightarrow> (PFlow conn fw, b)
      | (Raised _, b) \<Rightarrow> (PClosed, end_connection conn b))"

definition send_invalid :: "'g ctx \<Rightarrow> websocket \<Rightarrow> string \<Rightarrow> bus \<Rightarrow> bus" where
  "send_invalid c ws t b = send_error c ws None None ''INVALID_ENVELOPE'' (''Message validation failed: '' @ t) b"

fun receive :: "'g ctx \<Rightarrow> websocket \<Rightarrow> incoming \<Rightarrow> phase \<Rightarrow> bus \<Rightarrow> phase \<times> bus" where
  "receive c ws (Message e) PNew b =
     (if env_message_type e \<noteq> MT_AGENT_REGISTER then
        (PClosed, shut ws (send_error c ws None None ''REGISTRATION_REQUIRED'' ''First message must be agent.register'' b))
      else case handle_register c ws e b of
          (None, b) \<Rightarrow> (PClosed, shut ws b)
        | (Some (conn, agent, tenant), b) \<Rightarrow> (PReady conn, b))"
| "receive c ws (Malformed t) PNew b = (PClosed, send_invalid c ws t b)"
| "receive c ws Disconnected PNew b = (PClosed, b)"
| "receive c ws (Message e) (PReady conn) b = after_handler conn (handle_message c ws conn e b)"
| "receive c ws (Malformed t) (PReady conn) b = (PClosed, end_connection conn (send_invalid c ws t b))"
| "receive c ws Disconnected (PReady conn) b = (PClosed, end_connection conn b)"
| "receive c ws m ph b = (ph, b)"

fun poll :: "'g ctx \<Rightarrow> websocket \<Rightarrow> phase \<Rightarrow> bus \<Rightarrow> phase \<times> bus" where
  "poll c ws (PFlow conn fw) b = after_handler conn (poll_flow c ws fw b)"
| "poll c ws ph b = (ph, b)"

section \<open>The bus\<close>

record world =
  w_bus :: bus
  w_conns :: "websocket \<Rightarrow> phase"

definition w_conn :: "websocket \<Rightarrow> phase \<times> bus \<Rightarrow> world \<Rightarrow> world" where
  "w_conn ws pb w = w\<lparr>w_bus := snd pb, w_conns := (w_conns w)(ws := fst pb)\<rparr>"

definition fresh_ctx :: "unit ctx \<Rightarrow> bus \<Rightarrow> bool" where
  "fresh_ctx c b = (\<forall>k. dget (sm_sessions (hb_sessions b)) (cx_ids c k) = None)"

text \<open>The graph of a flow is not used by the handlers, so that its type is left at \<open>unit\<close>.\<close>

inductive world_step :: "world \<Rightarrow> world \<Rightarrow> bool" where
  receive: "fresh_ctx c (w_bus w) \<Longrightarrow> world_step w (w_conn ws (receive c ws m (w_conns w ws) (w_bus w)) w)"
| poll: "fresh_ctx c (w_bus w) \<Longrightarrow> world_step w (w_conn ws (poll c ws (w_conns w ws) (w_bus w)) w)"
| deliver: "fresh_ctx c (w_bus w) \<Longrightarrow> k < length (hb_tasks (w_bus w)) \<Longrightarrow> world_step w (w\<lparr>w_bus := deliver_events_to_connection c k (w_bus w)\<rparr>)"
| expire: "world_step w (w\<lparr>w_bus := (w_bus w)\<lparr>hb_sessions := sm_cleanup_expired now (hb_sessions (w_bus w))\<rparr>\<rparr>)"
| reap: "world_step w (w\<lparr>w_bus := (let (ws, r) = rg_cleanup now (hb_registry (w_bus w))
    in (w_bus w)\<lparr>hb_registry := r, hb_shut := hb_shut (w_bus w) @ ws\<rparr>)\<rparr>)"
| flush: "world_step w (w\<lparr>w_bus := (w_bus w)\<lparr>hb_queues := (hb_queues (w_bus w))\<lparr>cm_queues :=
    dmap f (cm_queues (hb_queues (w_bus w)))\<rparr>\<rparr>\<rparr>)"

definition world_init :: "rat \<Rightarrow> int \<Rightarrow> int \<Rightarrow> int \<Rightarrow> rat \<Rightarrow> int \<Rightarrow> int \<Rightarrow> int \<Rightarrow> int \<Rightarrow> world" where
  "world_init timeout candidates neg_ttl ttl interval max_trace max_queue max_history max_subs =
     \<lparr>w_bus = bus_init (rg_init timeout (Some vr_init)) (ir_init candidates) (sm_init neg_ttl ttl interval)
        (ts_init max_trace) (cm_init max_queue) (em_init max_history max_subs),
      w_conns = \<lambda>_. PNew\<rparr>"

inductive reachable :: "world \<Rightarrow> bool" where
  init: "reachable (world_init timeout candidates neg_ttl ttl interval max_trace max_queue max_history max_subs)"
| step: "reachable w \<Longrightarrow> world_step w w' \<Longrightarrow> reachable w'"

end
