(* ===== verification/Handler_Inv.thy ===== *)
theory Handler_Inv
  imports Handler_Loop
begin

text \<open>
  The invariant of the whole bus: the tables of the registry agree, every session is in one of the states
  the handlers leave it in, no event is ever queued, nothing waits for a result. Every handler, poll, task
  and clean-up keeps it, so that it holds in every reachable state.
\<close>

section \<open>Sessions\<close>

text \<open>What the handlers make of a session: its only provider is the bus.\<close>

definition bus_session_ok :: "session \<Rightarrow> bool" where
  "bus_session_ok s =
     (se_executions s = [] \<and> se_chosen_schema_id s = None \<and> se_provider_agent_id s \<in> {None, Some BUS_ID} \<and>
      (se_status s = SESS_ACTIVE \<longrightarrow> se_provider_agent_id s = Some BUS_ID \<and>
         se_provider_conn_id s = Some ''bus-flow-executor'' \<and> se_activated_at s \<noteq> None \<and> se_chosen_offer_id s \<noteq> None) \<and>
      (\<forall>x\<in>set (se_offers s). 0 \<le> of_score x \<and> of_score x \<le> 1))"

definition sess_inv :: "session_manager \<Rightarrow> bool" where
  "sess_inv m =
     (dict_ok (sm_sessions m) \<and>
      (\<forall>i s. dget (sm_sessions m) i = Some s \<longrightarrow> se_ephemeral_interface_id s = i \<and> bus_session_ok s))"

lemma sess_invD:
  assumes "sess_inv m" and "sm_get_session i m = Some s"
  shows "se_ephemeral_interface_id s = i" and "bus_session_ok s"
  using assms by (auto simp: sess_inv_def sm_get_session_def)

lemma sess_inv_put: "sess_inv m \<Longrightarrow> se_ephemeral_interface_id s = i \<Longrightarrow> bus_session_ok s \<Longrightarrow> sess_inv (sm_put s i m)"
  by (auto simp: sess_inv_def sm_put_def)

lemma sess_inv_init: "sess_inv (sm_init n t i)"
  by (simp add: sess_inv_def sm_init_def)

lemma sess_inv_create: "sess_inv m \<Longrightarrow> sess_inv (snd (sm_create_session fresh now t r cn mid intent as entry m))"
  by (auto simp: sess_inv_def sm_create_session_def Let_def new_session_def bus_session_ok_def)

lemma sess_inv_offer:
  assumes "sess_inv m" shows "sess_inv (snd (sm_add_offer f now i a cn sc v rq ac x md m))"
proof -
  have "bus_session_ok (se_add_offer y s)" if "bus_session_ok s" "new_offer f now a cn sc v rq ac x md = Some y" for s y
    using that by (auto simp: bus_session_ok_def se_add_offer_def new_offer_def split: if_splits)
  then show ?thesis
    using assms sess_invD [OF assms]
    by (auto simp: sm_add_offer_def sm_get_session_def se_add_offer_def intro!: sess_inv_put split: option.split)
qed

lemma sess_inv_close: "sess_inv m \<Longrightarrow> sess_inv (snd (sm_close_session now i m))"
  using sess_invD [of m i]
  by (auto simp: sm_close_session_def sm_get_session_def se_close_def bus_session_ok_def intro!: sess_inv_put split: option.split)

lemma sess_inv_flow_info: "sess_inv m \<Longrightarrow> sess_inv (snd (sm_set_flow_info i as entry agg m))"
  using sess_invD [of m i]
  by (auto simp: sm_set_flow_info_def sm_get_session_def bus_session_ok_def intro!: sess_inv_put split: option.split)

lemma sess_inv_expire:
  assumes "sess_inv m" shows "sess_inv (sm_cleanup_expired now m)"
proof -
  have e: "se_ephemeral_interface_id (expire_session now s) = se_ephemeral_interface_id s" for s
    by (simp add: expire_session_def)
  have ok: "bus_session_ok s \<Longrightarrow> bus_session_ok (expire_session now s)" for s
    by (simp add: expire_session_def bus_session_ok_def)
  show ?thesis using assms e ok by (auto simp: sess_inv_def sm_cleanup_expired_def)
qed

lemma sess_inv_activate:
  assumes "sess_inv m" and "sm_get_session i m = Some s"
  shows "sess_inv (sm_put (activated now x s) i m)"
proof (rule sess_inv_put [OF assms(1)])
  show "se_ephemeral_interface_id (activated now x s) = i"
    using sess_invD(1) [OF assms] by (simp add: activated_def)
  show "bus_session_ok (activated now x s)"
    using sess_invD(2) [OF assms] by (simp add: activated_def bus_session_ok_def)
qed

lemma sess_inv_execution:
  assumes "sess_inv m" and "sm_get_session i m = Some s"
  shows "sess_inv (sm_put (snd (se_update_execution_status now k st kw s)) i m)"
proof -
  have "se_executions s = []" using sess_invD [OF assms] by (simp add: bus_session_ok_def)
  then have "snd (se_update_execution_status now k st kw s) = s"
    by (simp add: se_update_execution_status_def lookup_execution_def split: option.split)
  then show ?thesis using sess_invD [OF assms] assms(1) by (simp add: sess_inv_put)
qed

section \<open>Events\<close>

text \<open>No event was published: the queues hold end markers only.\<close>

definition quiet :: "event_manager \<Rightarrow> bool" where
  "quiet m =
     (em_history m = [] \<and> es_events_published (em_stream m) = 0 \<and>
      (\<forall>a. set (sb_queue (es_objs (em_stream m) a)) \<subseteq> {None}))"

lemma quiet_init: "quiet (em_init h n)"
  by (simp add: quiet_def em_init_def es_init_def new_subscription_def)

lemma quiet_subscribe: "quiet m \<Longrightarrow> quiet (snd (em_subscribe now conn sid f m))"
  by (rule em_subscribe_cases [of now conn sid f m]) (auto simp: quiet_def new_subscription_def)

lemma quiet_subscribe_session: "quiet m \<Longrightarrow> quiet (snd (em_subscribe_session now conn s h m))"
proof -
  assume q: "quiet m"
  obtain r m' where u: "em_subscribe now conn (session_subscription_id conn s) (create_session_filter s) m = (r, m')" by fastforce
  have q': "quiet m'" using quiet_subscribe [OF q, of now conn "session_subscription_id conn s" "create_session_filter s"] u by simp
  then have "em_get_session_history s None [] m' = []" by (simp add: quiet_def em_get_session_history_def dget_or_def)
  then show ?thesis using q' by (simp add: em_subscribe_session_def u em_replay_def split: sum.split)
qed

lemma sb_close_quiet: "set (sb_queue s) \<subseteq> {None} \<Longrightarrow> set (sb_queue (sb_close s)) \<subseteq> {None}"
  by (simp add: sb_close_def Let_def)

lemma es_unsubscribe_quiet:
  assumes "\<forall>a. set (sb_queue (es_objs st a)) \<subseteq> {None}" and "es_unsubscribe sid st = (ok, st')"
  shows "\<forall>a. set (sb_queue (es_objs st' a)) \<subseteq> {None}" and "es_events_published st' = es_events_published st"
proof -
  show "\<forall>a. set (sb_queue (es_objs st' a)) \<subseteq> {None}"
  proof (cases "dget (es_subscriptions st) sid")
    case (Some b)
    then show ?thesis using assms(1) sb_close_quiet by (simp add: es_unsubscribe_cases(3) [OF assms(2)])
  qed (use assms(1) in \<open>simp add: es_unsubscribe_cases(3) [OF assms(2)]\<close>)
  show "es_events_published st' = es_events_published st"
    using assms(2) by (auto simp: es_unsubscribe_def split: option.splits)
qed

lemma quiet_unsubscribe: "quiet m \<Longrightarrow> quiet (snd (em_unsubscribe sid m))"
  using es_unsubscribe_quiet [of "em_stream m" sid]
  by (auto simp: quiet_def em_unsubscribe_def split: prod.split)

lemma unsubscribe_all_quiet:
  "\<forall>a. set (sb_queue (es_objs st a)) \<subseteq> {None} \<Longrightarrow> unsubscribe_all sids (n, st) = (n', st') \<Longrightarrow>
     (\<forall>a. set (sb_queue (es_objs st' a)) \<subseteq> {None}) \<and> es_events_published st' = es_events_published st"
proof (induction sids arbitrary: n st)
  case (Cons sid sids)
  obtain ok st1 where u: "es_unsubscribe sid st = (ok, st1)" by fastforce
  show ?case using Cons.IH [OF es_unsubscribe_quiet(1) [OF Cons.prems(1) u]] es_unsubscribe_quiet(2) [OF Cons.prems(1) u]
    Cons.prems(2) by (simp add: u)
qed simp

lemma quiet_disconnect: "quiet m \<Longrightarrow> quiet (snd (em_unsubscribe_connection conn m))"
  using unsubscribe_all_quiet [of "em_stream m" "dget_or (em_conn_subscriptions m) conn []" 0]
  by (auto simp: quiet_def em_unsubscribe_connection_def Let_def split: prod.split)

lemma sb_iterate_quiet: "set (sb_queue s) \<subseteq> {None} \<Longrightarrow> sb_iterate s = (es, stopped, s') \<Longrightarrow> es = [] \<and> set (sb_queue s') \<subseteq> {None}"
  by (subst (asm) sb_iterate.simps) (auto simp: sb_get_def split: list.splits if_splits)

section \<open>The invariant\<close>

definition bus_inv :: "bus \<Rightarrow> bool" where
  "bus_inv b =
     (rg_inv (hb_registry b) \<and> sess_inv (hb_sessions b) \<and> em_inv (hb_events b) \<and> quiet (hb_events b) \<and>
      hb_pending b = [] \<and> (\<forall>sid k. dget (hb_delivery_tasks b) sid = Some k \<longrightarrow> k < length (hb_tasks b)))"

lemma bus_inv_init: "bus_inv (w_bus (world_init t cs n tt iv mt mq mh ms))"
  by (simp add: bus_inv_def world_init_def bus_init_def sess_inv_init em_inv_init quiet_init rg_init_inv)

text \<open>Sending and tracing do not touch it.\<close>

lemma bus_inv_frames [simp]:
  "bus_inv (send_envelope c ws e b) = bus_inv b" "bus_inv (send_error c ws r t k x b) = bus_inv b"
  "bus_inv (add_trace tr b) = bus_inv b" "bus_inv (send_to_conn c k e b) = bus_inv b"
  "bus_inv (snd (reply_error c ws e code x b)) = bus_inv b" "bus_inv (b\<lparr>hb_sent := l\<rparr>) = bus_inv b"
  "bus_inv (b\<lparr>hb_router := R\<rparr>) = bus_inv b" "bus_inv (shut ws b) = bus_inv b" "bus_inv (b\<lparr>hb_queues := Q\<rparr>) = bus_inv b"
  "bus_inv (b\<lparr>hb_shut := l2\<rparr>) = bus_inv b"
  by (simp_all add: bus_inv_def reply_error_def shut_def)

lemma bus_inv_parts:
  "bus_inv b \<Longrightarrow> sess_inv m \<Longrightarrow> bus_inv (b\<lparr>hb_sessions := m\<rparr>)"
  "bus_inv b \<Longrightarrow> rg_inv r \<Longrightarrow> bus_inv (b\<lparr>hb_registry := r\<rparr>)"
  "bus_inv b \<Longrightarrow> em_inv m' \<Longrightarrow> quiet m' \<Longrightarrow> bus_inv (b\<lparr>hb_events := m'\<rparr>)"
  "bus_inv b \<Longrightarrow> rg_inv (hb_registry b)" "bus_inv b \<Longrightarrow> sess_inv (hb_sessions b)"
  "bus_inv b \<Longrightarrow> em_inv (hb_events b)" "bus_inv b \<Longrightarrow> quiet (hb_events b)"
  by (simp_all add: bus_inv_def)

section \<open>Every handler keeps it\<close>

lemma reply_error_inv [simp]: "reply_error c ws e code x b = (oc, b') \<Longrightarrow> bus_inv b' = bus_inv b"
  by (auto simp: reply_error_def)

lemma rg_drop_existing_inv: "rg_inv r \<Longrightarrow> rg_inv (snd (rg_drop_existing g r))"
  by (simp add: rg_drop_existing_def rg_remove_inv split: option.split)

lemma handle_register_inv:
  assumes inv: "bus_inv b" shows "bus_inv (snd (handle_register c ws e b))"
proof -
  have reg: "bus_inv (b\<lparr>hb_registry := snd (snd (rg_register now g t w cap tg sc md (hb_registry b)))\<rparr>)"
    for now g t w cap tg sc md
    using bus_inv_parts(2) [OF inv rg_register_inv [OF bus_inv_parts(4) [OF inv]]] by simp
  have drop: "bus_inv (b\<lparr>hb_registry := snd (rg_drop_existing g (hb_registry b))\<rparr>)" for g
    using bus_inv_parts(2) [OF inv rg_drop_existing_inv [OF bus_inv_parts(4) [OF inv]]] by simp
  show ?thesis
    by (simp add: handle_register_def Let_def reg drop case_prod_beta split: option.split)
qed

lemma handle_heartbeat_inv: "bus_inv b \<Longrightarrow> bus_inv (snd (handle_heartbeat c ws conn e b))"
  by (simp add: handle_heartbeat_def Let_def case_prod_beta bus_inv_parts rg_heartbeat_inv)

lemma handle_list_inv: "bus_inv b \<Longrightarrow> bus_inv (snd (handle_list c ws conn e b))"
  by (simp add: handle_list_def Let_def)

lemma ask_agents_inv: "bus_inv (snd (ask_agents c e i k ns b)) = bus_inv b"
  by (induction ns arbitrary: k b) (simp_all split: option.split prod.split)

lemma ask_agents_frame: "hb_sessions (snd (ask_agents c e i k ns b)) = hb_sessions b"
  by (induction ns arbitrary: k b) (simp_all split: option.split prod.split)

lemma execute_agent_flow_inv: "bus_inv b \<Longrightarrow> bus_inv (snd (execute_agent_flow c ws conn e f b))"
proof -
  assume inv: "bus_inv b"
  obtain s m where u: "sm_create_session (cx_ids c 0) (cx_now c) (env_tenant_id e) (env_sender_id e) conn (env_message_id e)
      (env_payload e) (flow_ids f) (Some (fl_entry_point f)) (hb_sessions b) = (s, m)" by fastforce
  have "sess_inv m"
    using sess_inv_create [OF bus_inv_parts(5) [OF inv]] by (metis snd_conv u)
  then have new: "bus_inv (b\<lparr>hb_sessions := m\<rparr>)" by (rule bus_inv_parts(1) [OF inv])
  obtain r b' where a: "ask_agents c e (se_ephemeral_interface_id s) 1 (fl_agents f) (b\<lparr>hb_sessions := m\<rparr>) = (r, b')" by fastforce
  have "bus_inv b'" using ask_agents_inv [of c e "se_ephemeral_interface_id s" 1 "fl_agents f" "b\<lparr>hb_sessions := m\<rparr>"] new a by simp
  then show ?thesis using a by (simp add: execute_agent_flow_def u split: sum.split)
qed

lemma finish_flow_inv: "bus_inv b \<Longrightarrow> bus_inv (snd (finish_flow c ws fw xs b))"
  using sess_inv_flow_info [OF bus_inv_parts(5)]
  by (simp add: finish_flow_def Let_def case_prod_beta bus_inv_parts)

lemma poll_flow_inv: "bus_inv b \<Longrightarrow> bus_inv (snd (poll_flow c ws fw b))"
  by (simp add: poll_flow_def finish_flow_inv split: option.split)

lemma handle_intent_broadcast_inv: "bus_inv b \<Longrightarrow> bus_inv (snd (handle_intent_broadcast c ws conn e b))"
  by (simp add: handle_intent_broadcast_def Let_def case_prod_beta execute_agent_flow_inv split: option.split)

lemma handle_intent_offer_inv:
  assumes inv: "bus_inv b" shows "bus_inv (snd (handle_intent_offer c ws conn e b))"
proof -
  have "bus_inv (b\<lparr>hb_sessions := snd (sm_add_offer f now i a cn sc v rq ac x md (hb_sessions b))\<rparr>)"
    for f now i a cn sc v rq ac x md
    by (rule bus_inv_parts(1) [OF inv sess_inv_offer [OF bus_inv_parts(5) [OF inv]]])
  then have "sm_add_offer f now i a cn sc v rq ac x md (hb_sessions b) = (r, m) \<Longrightarrow> bus_inv (b\<lparr>hb_sessions := m\<rparr>)"
    for f now i a cn sc v rq ac x md r m by (metis snd_conv)
  then show ?thesis
    using inv by (simp add: handle_intent_offer_def Let_def split: option.split prod.split sum.split)
qed

lemma handle_intent_agree_inv:
  assumes inv: "bus_inv b" shows "bus_inv (snd (handle_intent_agree c ws conn e b))"
proof -
  have "sm_get_session i (hb_sessions b) = Some s \<Longrightarrow> bus_inv (b\<lparr>hb_sessions := sm_put (activated now x s) i (hb_sessions b)\<rparr>)"
    for i s now x
    by (rule bus_inv_parts(1) [OF inv sess_inv_activate [OF bus_inv_parts(5) [OF inv]]])
  then show ?thesis
    using inv by (simp add: handle_intent_agree_def Let_def split: option.split)
qed

lemma handle_session_close_inv:
  assumes inv: "bus_inv b" shows "bus_inv (snd (handle_session_close c ws conn e b))"
proof -
  have "sm_close_session now i (hb_sessions b) = (r, m) \<Longrightarrow> bus_inv (b\<lparr>hb_sessions := m\<rparr>)" for now i r m
    using bus_inv_parts(1) [OF inv sess_inv_close [OF bus_inv_parts(5) [OF inv]]] by (metis snd_conv)
  then show ?thesis
    using inv by (simp add: handle_session_close_def Let_def split: option.split prod.split)
qed

lemma handle_exec_request_inv: "bus_inv b \<Longrightarrow> bus_inv (snd (handle_exec_request c ws conn e b))"
  by (simp add: handle_exec_request_def split: option.split prod.split bool.split)

lemma provider_session_get: "provider_session c e b = Some (i, s) \<Longrightarrow> sm_get_session i (hb_sessions b) = Some s"
  by (auto simp: provider_session_def sm_validate_session_for_exec_def sm_get_session_def Let_def split: option.splits if_splits)

lemma checked_provider_session_get:
  "checked_provider_session n c e b = Inr (i, s) \<Longrightarrow> sm_get_session i (hb_sessions b) = Some s"
  by (auto simp: checked_provider_session_def sm_validate_session_for_exec_def sm_get_session_def Let_def
      split: option.splits if_splits)

lemma update_execution_inv:
  assumes "bus_inv b" and "sm_get_session i (hb_sessions b) = Some s"
  shows "bus_inv (update_execution c i x st kw s b)" and "bus_inv (update_if known c i x st kw s b)"
  using bus_inv_parts(1) [OF assms(1) sess_inv_execution [OF bus_inv_parts(5) [OF assms(1)] assms(2)]] assms(1)
  by (simp_all add: update_execution_def update_if_def case_prod_beta)

lemma exec_status_handler_inv: "bus_inv b \<Longrightarrow> bus_inv (snd (exec_status_handler st c ws conn e b))"
  by (auto simp: exec_status_handler_def Let_def update_execution_inv dest: provider_session_get split: option.split)

lemma finish_exec_result_inv:
  assumes inv: "bus_inv b" and s: "sm_get_session i (hb_sessions b) = Some s"
  shows "bus_inv (snd (finish_exec_result c ws e i s x known cap v b))"
proof -
  have "bus_inv (update_if known c i x st kw s b)" for st kw by (rule update_execution_inv(2) [OF inv s])
  moreover from this have "hb_pending (update_if known c i x st kw s b) = []" for st kw by (simp add: bus_inv_def)
  ultimately show ?thesis by (simp add: finish_exec_result_def Let_def split: option.split)
qed

lemma handle_exec_result_inv: "bus_inv b \<Longrightarrow> bus_inv (snd (handle_exec_result c ws conn e b))"
  by (auto simp: handle_exec_result_def Let_def update_execution_inv finish_exec_result_inv
      dest: checked_provider_session_get split: sum.split)

lemma handle_exec_partial_failure_inv: "bus_inv b \<Longrightarrow> bus_inv (snd (handle_exec_partial_failure c ws conn e b))"
  by (auto simp: handle_exec_partial_failure_def split: sum.split option.split)

lemma send_to_requester_queued_inv: "bus_inv (snd (send_to_requester_queued c s e b)) = bus_inv b"
  by (simp add: send_to_requester_queued_def Let_def split: option.split prod.split)

lemma send_queued_inv: "send_to_requester_queued c s e b = (r, b') \<Longrightarrow> bus_inv b' = bus_inv b"
  using send_to_requester_queued_inv [of c s e b] by simp

lemma forward_stream_inv: "bus_inv (snd (forward_stream c s e b)) = bus_inv b"
  by (auto simp: forward_stream_def send_queued_inv split: prod.split sum.split)

lemma handle_stream_start_inv: "bus_inv b \<Longrightarrow> bus_inv (snd (handle_stream_start c ws conn e b))"
  by (simp add: handle_stream_start_def Let_def forward_stream_inv split: option.split)

lemma handle_stream_chunk_inv: "bus_inv b \<Longrightarrow> bus_inv (snd (handle_stream_chunk c ws conn e b))"
  by (auto simp: handle_stream_chunk_def Let_def send_queued_inv split: option.split prod.split sum.split out_error.split)

lemma handle_stream_end_inv: "bus_inv b \<Longrightarrow> bus_inv (snd (handle_stream_end c ws conn e b))"
proof -
  assume inv: "bus_inv b"
  have "bus_inv (update_execution c i x st kw s (add_trace t b))" if "provider_session c e b = Some (i, s)" for i x st kw s t
    by (rule update_execution_inv(1)) (use inv provider_session_get [OF that] in simp_all)
  then show ?thesis using inv
    by (simp add: handle_stream_end_def Let_def forward_stream_inv split: option.split)
qed

lemma handle_trace_get_inv: "bus_inv b \<Longrightarrow> bus_inv (snd (handle_trace_get c ws conn e b))"
  by (simp add: handle_trace_get_def split: option.split sum.split prod.split)

lemma start_delivery_inv: "bus_inv b \<Longrightarrow> bus_inv (start_delivery a ws i t b)"
  by (auto simp: start_delivery_def bus_inv_def Let_def less_Suc_eq)

lemma subscribe_inv:
  assumes "em_inv m" and "quiet m" and "subscribe c conn i x h m = (r, m')"
  shows "em_inv m' \<and> quiet m'"
proof (cases "\<exists>y ys. as_str x = Some (y # ys)")
  case True
  then have "m' = snd (em_subscribe_execution (cx_now c) conn i (the (as_str x)) m)"
    using assms(3) by (auto simp: subscribe_def)
  then show ?thesis
    using assms(1,2) by (simp add: em_subscribe_execution_def em_inv_subscribe quiet_subscribe)
next
  case False
  then have "m' = snd (em_subscribe_session (cx_now c) conn i h m)"
    using assms(3) by (auto simp: subscribe_def split: option.splits list.splits)
  then show ?thesis using assms(1,2) by (simp add: em_inv_subscribe_session quiet_subscribe_session)
qed

lemma handle_event_subscribe_inv:
  assumes inv: "bus_inv b" shows "bus_inv (snd (handle_event_subscribe c ws conn e b))"
proof -
  have sub: "bus_inv (b\<lparr>hb_events := m\<rparr>)" if "subscribe c conn i x h (hb_events b) = (r, m)" for i x h r m
    using subscribe_inv [OF bus_inv_parts(6,7) [OF inv] that] inv by (simp add: bus_inv_parts)
  show ?thesis
    using inv by (simp add: handle_event_subscribe_def Let_def sub start_delivery_inv split: option.split sum.split prod.split)
qed

lemma cancel_task_inv: "bus_inv b \<Longrightarrow> bus_inv (cancel_task sid b)"
  by (auto simp: cancel_task_def bus_inv_def split: option.split if_splits)

lemma cancel_conn_tasks_inv: "bus_inv b \<Longrightarrow> bus_inv (cancel_conn_tasks conn b)"
proof -
  have "bus_inv b \<Longrightarrow> bus_inv (fold cancel_task sids b)" for sids
    by (induction sids arbitrary: b) (simp_all add: cancel_task_inv)
  then show "bus_inv b \<Longrightarrow> ?thesis" by (simp add: cancel_conn_tasks_def)
qed

lemma disconnect_inv: "bus_inv b \<Longrightarrow> bus_inv (b\<lparr>hb_events := snd (em_unsubscribe_connection conn (hb_events b))\<rparr>)"
  by (simp add: bus_inv_parts em_inv_disconnect quiet_disconnect)

lemma handle_event_unsubscribe_inv:
  assumes inv: "bus_inv b" shows "bus_inv (snd (handle_event_unsubscribe c ws conn e b))"
proof -
  have "bus_inv (b\<lparr>hb_events := snd (em_unsubscribe sid (hb_events b))\<rparr>)" for sid
    using inv by (simp add: bus_inv_parts em_inv_unsubscribe quiet_unsubscribe)
  then show ?thesis
    using inv by (simp add: handle_event_unsubscribe_def Let_def case_prod_beta cancel_task_inv cancel_conn_tasks_inv
        disconnect_inv split: option.split)
qed

lemma cleanup_connection_events_inv: "bus_inv b \<Longrightarrow> bus_inv (cleanup_connection_events conn b)"
  by (simp add: cleanup_connection_events_def Let_def case_prod_beta cancel_conn_tasks_inv disconnect_inv)

lemma handle_emit_event_inv: "bus_inv b \<Longrightarrow> bus_inv (snd (handle_emit_event c ws conn e b))"
  by (simp add: handle_emit_event_def split: option.split)

lemma handle_message_inv: "bus_inv b \<Longrightarrow> bus_inv (snd (handle_message c ws conn e b))"
  by (cases "env_message_type e")
    (simp_all add: handle_message_def handle_heartbeat_inv handle_list_inv handle_intent_broadcast_inv
      handle_intent_offer_inv handle_intent_agree_inv handle_session_close_inv handle_exec_request_inv
      handle_exec_accepted_def handle_exec_progress_def handle_exec_error_from_provider_def exec_status_handler_inv
      handle_exec_result_inv handle_exec_partial_failure_inv handle_stream_start_inv handle_stream_chunk_inv
      handle_stream_end_inv handle_trace_get_inv handle_event_subscribe_inv handle_event_unsubscribe_inv handle_emit_event_inv)

section \<open>Every step keeps it\<close>

lemma end_connection_inv: "bus_inv b \<Longrightarrow> bus_inv (end_connection conn b)"
  using cleanup_connection_events_inv [of b conn]
  by (simp add: end_connection_def Let_def case_prod_beta bus_inv_parts rg_unregister_inv)

lemma after_handler_inv: "bus_inv (snd res) \<Longrightarrow> bus_inv (snd (after_handler conn res))"
  by (auto simp: after_handler_def end_connection_inv split: prod.split outcome.split)

lemma receive_inv: "bus_inv b \<Longrightarrow> bus_inv (snd (receive c ws m ph b))"
proof (cases "(c, ws, m, ph, b)" rule: receive.cases)
  case (1 c' ws' e b')
  assume "bus_inv b"
  then show ?thesis using 1 handle_register_inv [of b c ws e] by (auto split: prod.splits option.splits)
qed (simp_all add: send_invalid_def end_connection_inv after_handler_inv handle_message_inv)

lemma poll_inv: "bus_inv b \<Longrightarrow> bus_inv (snd (poll c ws ph b))"
  by (cases ph) (simp_all add: after_handler_inv poll_flow_inv)

lemma close_subscription_inv: "bus_inv b \<Longrightarrow> bus_inv (close_subscription a b)"
  using sb_close_quiet
  by (auto simp: close_subscription_def bus_inv_def em_inv_def es_get_subscription_def tracked_def es_inv_def quiet_def es_on_def)

lemma set_phase_inv: "bus_inv (set_phase k ph b) = bus_inv b"
  by (simp add: set_phase_def bus_inv_def)

text \<open>With nothing in the queues a delivery task has nothing to send.\<close>

lemma deliver_inv:
  assumes inv: "bus_inv b"
  shows "bus_inv (deliver_events_to_connection c k b)" and "hb_sent (deliver_events_to_connection c k b) = hb_sent b"
proof -
  let ?a = "dl_subscription (hb_tasks b ! k)"
  obtain es stopped s where it: "sb_iterate (es_objs (em_stream (hb_events b)) ?a) = (es, stopped, s)"
    using prod.exhaust by metis
  have q: "es = [] \<and> set (sb_queue s) \<subseteq> {None}"
    using sb_iterate_quiet [OF _ it] inv by (simp add: bus_inv_def quiet_def)
  define b' where "b' = b\<lparr>hb_events := (hb_events b)\<lparr>em_stream := (em_stream (hb_events b))
      \<lparr>es_objs := (es_objs (em_stream (hb_events b)))(?a := s)\<rparr>\<rparr>\<rparr>"
  have "es_inv (em_stream (hb_events b))" using inv by (simp add: bus_inv_def em_inv_def)
  then have "bus_inv b'"
    using inv q by (auto simp: b'_def bus_inv_def em_inv_def es_inv_def quiet_def es_get_subscription_def tracked_def)
  then show "bus_inv (deliver_events_to_connection c k b)"
    using inv q unfolding deliver_events_to_connection_def Let_def it
    by (simp add: b'_def set_phase_inv close_subscription_inv)
  show "hb_sent (deliver_events_to_connection c k b) = hb_sent b"
    using q unfolding deliver_events_to_connection_def Let_def it
    by (simp add: set_phase_def close_subscription_def)
qed

lemma world_step_inv: "world_step w w' \<Longrightarrow> bus_inv (w_bus w) \<Longrightarrow> bus_inv (w_bus w')"
proof (induction rule: world_step.induct)
  case (expire w now)
  then show ?case by (simp add: bus_inv_parts sess_inv_expire)
next
  case (reap w now)
  then show ?case
    using bus_inv_parts(2) [OF reap rg_cleanup_inv [OF bus_inv_parts(4) [OF reap]]] by (simp add: case_prod_beta)
qed (simp_all add: w_conn_def receive_inv poll_inv deliver_inv)

lemma reachable_inv: "reachable w \<Longrightarrow> bus_inv (w_bus w)"
  by (induction rule: reachable.induct) (simp_all add: bus_inv_init world_step_inv)

end
