(* ===== verification/Handler_Props.thy ===== *)
theory Handler_Props
  imports Handler_Inv
begin

text \<open>
  What the handlers guarantee in the reachable states of the bus, and what they do not: who is told what,
  how flows end and what is offered, agreement, requests to execute, the messages of providers, and the
  end of a connection.
\<close>

section \<open>The invariant\<close>

text \<open>C1: in every reachable state of the bus, whatever messages, polls, tasks and clean-ups came in any order, the
  tables of the registry agree, every session is kept under its own id, has the bus as its only possible
  provider and is active only with an accepted offer, no session has an execution, no event has been
  published, and no result is awaited.\<close>

theorem bus_invariant:
  assumes "reachable w"
  shows "let b = w_bus w in
    (\<forall>c a. rg_get_agent_by_conn c (hb_registry b) = Some a \<longrightarrow> rg_get_agent_by_id (ar_agent_id a) (hb_registry b) = Some a) \<and>
    (\<forall>i s. sm_get_session i (hb_sessions b) = Some s \<longrightarrow>
       se_ephemeral_interface_id s = i \<and> se_executions s = [] \<and> se_provider_agent_id s \<in> {None, Some BUS_ID} \<and>
       (se_status s = SESS_ACTIVE \<longrightarrow> se_provider_agent_id s = Some BUS_ID \<and> se_activated_at s \<noteq> None \<and>
          se_chosen_offer_id s \<noteq> None)) \<and>
    em_history (hb_events b) = [] \<and> es_events_published (em_stream (hb_events b)) = 0 \<and> hb_pending b = []"
proof -
  have inv: "bus_inv (w_bus w)" using assms by (rule reachable_inv)
  have r: "\<forall>c a. rg_get_agent_by_conn c (hb_registry (w_bus w)) = Some a \<longrightarrow>
      rg_get_agent_by_id (ar_agent_id a) (hb_registry (w_bus w)) = Some a"
    using rg_id_of_conn [OF bus_inv_parts(4) [OF inv]] by blast
  have s: "\<forall>i s. sm_get_session i (hb_sessions (w_bus w)) = Some s \<longrightarrow>
       se_ephemeral_interface_id s = i \<and> se_executions s = [] \<and> se_provider_agent_id s \<in> {None, Some BUS_ID} \<and>
       (se_status s = SESS_ACTIVE \<longrightarrow> se_provider_agent_id s = Some BUS_ID \<and> se_activated_at s \<noteq> None \<and>
          se_chosen_offer_id s \<noteq> None)"
    using sess_invD [OF bus_inv_parts(5) [OF inv]] by (simp add: bus_session_ok_def)
  show ?thesis unfolding Let_def using inv r s by (simp add: bus_inv_def quiet_def)
qed

section \<open>The end of a connection\<close>

lemma cancel_task_frames [simp]:
  "hb_sessions (cancel_task sid b) = hb_sessions b" "hb_sent (cancel_task sid b) = hb_sent b"
  "hb_registry (cancel_task sid b) = hb_registry b" "hb_events (cancel_task sid b) = hb_events b"
  "hb_delivery_tasks (cancel_task sid b) = dpop sid (hb_delivery_tasks b)"
  by (simp_all add: cancel_task_def dpop_absent split: option.split)

lemma cancel_conn_tasks_frames [simp]:
  "hb_sessions (cancel_conn_tasks conn b) = hb_sessions b" "hb_sent (cancel_conn_tasks conn b) = hb_sent b"
  "hb_registry (cancel_conn_tasks conn b) = hb_registry b" "hb_events (cancel_conn_tasks conn b) = hb_events b"
proof -
  have "hb_sessions (fold cancel_task sids b) = hb_sessions b \<and> hb_sent (fold cancel_task sids b) = hb_sent b \<and>
      hb_registry (fold cancel_task sids b) = hb_registry b \<and> hb_events (fold cancel_task sids b) = hb_events b" for sids
    by (induction sids arbitrary: b) simp_all
  then show "hb_sessions (cancel_conn_tasks conn b) = hb_sessions b" "hb_sent (cancel_conn_tasks conn b) = hb_sent b"
    "hb_registry (cancel_conn_tasks conn b) = hb_registry b" "hb_events (cancel_conn_tasks conn b) = hb_events b"
    by (simp_all add: cancel_conn_tasks_def)
qed

lemma cancel_conn_tasks_keys:
  "dget (hb_delivery_tasks (cancel_conn_tasks conn b)) sid =
     (if starts_with sid (conn @ '':'') then None else dget (hb_delivery_tasks b) sid)"
proof -
  have "dget (hb_delivery_tasks (fold cancel_task sids b)) sid = (if sid \<in> set sids then None else dget (hb_delivery_tasks b) sid)" for sids
    by (induction sids arbitrary: b) simp_all
  moreover have "sid \<notin> set (dkeys (hb_delivery_tasks b)) \<Longrightarrow> dget (hb_delivery_tasks b) sid = None"
    by (simp add: dkeys_def map_of_eq_None_iff)
  ultimately show ?thesis by (auto simp: cancel_conn_tasks_def)
qed

lemma end_connection_frames [simp]:
  "hb_sessions (end_connection conn b) = hb_sessions b" "hb_sent (end_connection conn b) = hb_sent b"
  "hb_registry (end_connection conn b) = snd (rg_unregister conn (hb_registry b))"
  "hb_events (end_connection conn b) = snd (em_unsubscribe_connection conn (hb_events b))"
  "hb_delivery_tasks (end_connection conn b) = hb_delivery_tasks (cancel_conn_tasks conn b)"
  by (simp_all add: end_connection_def cleanup_connection_events_def Let_def case_prod_beta)

lemma rg_unregister_conn [simp]:
  "rg_get_agent_by_conn d (snd (rg_unregister c r)) = (if d = c then None else rg_get_agent_by_conn d r)"
  by (simp add: rg_unregister_def rg_get_agent_by_conn_def split: option.split)

section \<open>Messages of providers\<close>

lemma send_envelope_log:
  "send_envelope c ws e b = b\<lparr>hb_sent := hb_sent b @ (if cx_send_ok c ws e then [(ws, e)] else [])\<rparr>"
  by (simp add: send_envelope_def)

lemma send_error_log:
  "\<exists>messages. send_error c ws r t k x b = b\<lparr>hb_sent := hb_sent b @ messages\<rparr> \<and>
     (messages = [] \<or> (\<exists>m. messages = [(ws, m)] \<and> env_message_type m = MT_ERROR))"
  unfolding send_error_def send_envelope_log
  by (intro exI conjI) (rule refl, simp add: create_error_def new_envelope_def)

lemma unchanged_log:
  "\<exists>messages. b = b\<lparr>hb_sent := hb_sent b @ messages\<rparr> \<and>
     (messages = [] \<or> (\<exists>m. messages = [(ws, m)] \<and> env_message_type m = MT_ERROR))" for b :: bus
  by (intro exI [of _ "[]"]) simp

definition provider_types :: "message_type set" where
  "provider_types = {MT_EXEC_ACCEPTED, MT_EXEC_PROGRESS, MT_EXEC_ERROR, MT_EXEC_RESULT, MT_EXEC_PARTIAL_FAILURE,
     MT_EXEC_STREAM_START, MT_EXEC_STREAM_CHUNK, MT_EXEC_STREAM_END}"

lemma not_provider:
  assumes inv: "bus_inv b" and other: "env_sender_id e \<noteq> BUS_ID"
  shows "provider_session c e b = None" and "\<exists>x. checked_provider_session n c e b = Inl x"
proof -
  have no: "Some (env_sender_id e) \<noteq> se_provider_agent_id s" if "sm_get_session i (hb_sessions b) = Some s" for i s
    using sess_invD(2) [OF bus_inv_parts(5) [OF inv] that] other by (auto simp: bus_session_ok_def)
  show "provider_session c e b = None"
    using provider_session_get [of c e b] no
    by (cases "provider_session c e b") (auto simp: provider_session_def split: option.splits prod.splits bool.splits if_splits)
  show "\<exists>x. checked_provider_session n c e b = Inl x"
    using checked_provider_session_get [of n c e b] no
    by (cases "checked_provider_session n c e b")
      (auto simp: checked_provider_session_def split: option.splits prod.splits bool.splits if_splits)
qed

lemma provider_silent:
  assumes "bus_inv b" and "env_sender_id e \<noteq> BUS_ID" and "env_message_type e \<in> provider_types"
  shows "handle_message c ws conn e b = (Done, b) \<or> (\<exists>k t. handle_message c ws conn e b = reply_error c ws e k t b)"
proof -
  note no = not_provider [OF assms(1,2)]
  obtain n1 where n1: "checked_provider_session ''exec.result'' c e b = Inl n1" using no(2) by blast
  obtain n2 where n2: "checked_provider_session ''exec.partial_failure'' c e b = Inl n2" using no(2) by blast
  have p: "provider_session c e b = None" by (rule no(1))
  show ?thesis
    using assms(3) n1 n2 p
    by (auto simp: provider_types_def handle_message_def handle_exec_accepted_def handle_exec_progress_def
        handle_exec_error_from_provider_def exec_status_handler_def handle_exec_result_def handle_exec_partial_failure_def
        handle_stream_start_def handle_stream_chunk_def handle_stream_end_def split: prod.splits) metis+
qed

text \<open>C7: in every reachable state the messages of a provider, from acceptance to results and streams, do nothing when
  they come from any agent but the bus itself: no session, queue or trace changes, nobody else is told, and
  at most an error is sent back.\<close>

theorem agents_cannot_answer:
  assumes "reachable w" and "env_sender_id e \<noteq> BUS_ID" and "env_message_type e \<in> provider_types"
    and "handle_message c ws conn e (w_bus w) = (oc, b)"
  shows "oc = Done \<and> (\<exists>messages. b = (w_bus w)\<lparr>hb_sent := hb_sent (w_bus w) @ messages\<rparr> \<and>
    (messages = [] \<or> (\<exists>m. messages = [(ws, m)] \<and> env_message_type m = MT_ERROR)))"
  using provider_silent [OF reachable_inv [OF assms(1)] assms(2,3), of c ws conn]
proof (elim disjE exE)
  fix k t
  assume "handle_message c ws conn e (w_bus w) = reply_error c ws e k t (w_bus w)"
  then show ?thesis using assms(4) send_error_log [of c ws _ _ k t "w_bus w"] by (simp add: reply_error_def)
qed (use unchanged_log assms(4) in auto)

definition ex_ctx :: "datetime \<Rightarrow> uuid \<Rightarrow> unit ctx" where
  "ex_ctx now fresh = \<lparr>cx_now = now, cx_ids = \<lambda>_. fresh, cx_send_ok = \<lambda>_ _. True,
     cx_outside = ex_outside [] None, cx_isoformat = \<lambda>_. [], cx_dump = \<lambda>_. [], cx_float_of = \<lambda>_. None,
     cx_error_text = \<lambda>_. [], cx_type_text = \<lambda>_. [], cx_set_order = \<lambda>_. []\<rparr>"

definition ex_world :: world where
  "ex_world = world_init 30 3 30 300 10 1000 200 100 100"

lemma ex_world_reachable: "reachable ex_world"
  unfolding ex_world_def by (rule reachable.init)

theorem bus_invariant_witness:
  "em_history (hb_events (w_bus ex_world)) = [] \<and> hb_pending (w_bus ex_world) = []"
  using bus_invariant [OF ex_world_reachable] by (simp add: Let_def)

definition ex_message :: "message_type \<Rightarrow> uuid \<Rightarrow> uuid option \<Rightarrow> payload \<Rightarrow> message_envelope" where
  "ex_message ty sender session p = (new_envelope 90 0 ty sender ''acme'' p)\<lparr>env_ephemeral_interface_id := session\<rparr>"

lemma ex_message_simps [simp]:
  "env_message_type (ex_message ty g i p) = ty" "env_sender_id (ex_message ty g i p) = g"
  "env_ephemeral_interface_id (ex_message ty g i p) = i" "env_payload (ex_message ty g i p) = p"
  "env_tenant_id (ex_message ty g i p) = ''acme''" "env_message_id (ex_message ty g i p) = 90"
  by (simp_all add: ex_message_def new_envelope_def)

theorem agents_cannot_answer_witness:
  "fst (handle_message (ex_ctx 0 100) 7 ''c'' (ex_message MT_EXEC_RESULT 5 (Some 1) [(''result'', JInt 42)]) (w_bus ex_world)) = Done"
proof -
  obtain oc b where u: "handle_message (ex_ctx 0 100) 7 ''c'' (ex_message MT_EXEC_RESULT 5 (Some 1) [(''result'', JInt 42)])
      (w_bus ex_world) = (oc, b)" by fastforce
  have "env_sender_id (ex_message MT_EXEC_RESULT 5 (Some 1) [(''result'', JInt 42)]) \<noteq> BUS_ID" by (simp add: BUS_ID_def)
  then show ?thesis
    using agents_cannot_answer [OF ex_world_reachable _ _ u] by (simp add: u provider_types_def)
qed

section \<open>Requests to execute\<close>

text \<open>C15: no request to execute is ever carried out: one that names an active session that has not expired and comes
  from its requester ends the connection of the requester, which is no longer registered then, and every
  other one is answered with an error; the sessions stay as they are.\<close>

theorem exec_request_fails:
  assumes "env_message_type e = MT_EXEC_REQUEST" and "receive c ws (Message e) (PReady conn) b = (ph, b')"
    and "rg_inv (hb_registry b)"
  shows "hb_sessions b' = hb_sessions b \<and>
    (if \<exists>i s. env_ephemeral_interface_id e = Some i \<and> sm_get_session i (hb_sessions b) = Some s \<and>
         se_status s = SESS_ACTIVE \<and> \<not> se_is_expired (cx_now c) s \<and> env_sender_id e = se_requester_agent_id s
     then ph = PClosed \<and> hb_sent b' = hb_sent b \<and> rg_get_agent_by_conn conn (hb_registry b') = None
     else ph = PReady conn \<and> (\<exists>code msg. b' = send_error c ws (Some (env_message_id e)) (Some (env_tenant_id e)) code msg b))"
proof (cases "\<exists>i s. env_ephemeral_interface_id e = Some i \<and> sm_get_session i (hb_sessions b) = Some s \<and>
         se_status s = SESS_ACTIVE \<and> \<not> se_is_expired (cx_now c) s \<and> env_sender_id e = se_requester_agent_id s")
  case True
  then obtain i s where s: "env_ephemeral_interface_id e = Some i" "sm_get_session i (hb_sessions b) = Some s"
      "se_status s = SESS_ACTIVE" "\<not> se_is_expired (cx_now c) s" "env_sender_id e = se_requester_agent_id s" by blast
  have "handle_message c ws conn e b = (Raised ''unexpected keyword argument session'', b)"
    using s assms(1) by (simp add: handle_message_def handle_exec_request_def sm_validate_session_for_exec_def sm_get_session_def)
  then have "ph = PClosed" "b' = end_connection conn b" using assms(2) by (simp_all add: after_handler_def)
  moreover have "hb_sessions (end_connection conn b) = hb_sessions b" "hb_sent (end_connection conn b) = hb_sent b"
    by simp_all
  moreover have "rg_get_agent_by_conn conn (hb_registry (end_connection conn b)) = None"
    using assms(3) by simp
  ultimately show ?thesis using True by simp
next
  case False
  have "\<exists>code msg. handle_message c ws conn e b = reply_error c ws e code msg b"
    using False assms(1)
    by (auto simp: handle_message_def handle_exec_request_def sm_validate_session_for_exec_def sm_get_session_def Let_def
        split: option.splits)
  then obtain code msg where "handle_message c ws conn e b = reply_error c ws e code msg b" by blast
  then have "ph = PReady conn" "b' = send_error c ws (Some (env_message_id e)) (Some (env_tenant_id e)) code msg b"
    using assms(2) by (simp_all add: after_handler_def reply_error_def)
  then show ?thesis using False by (simp del: not_ex split: if_split) blast
qed

end
