(* ===== verification/Handler_Sessions.thy ===== *)
theory Handler_Sessions
  imports Handler_Props
begin

text \<open>
  How sessions come to be active: no step of the bus but the agreement of the requester to the aggregated
  offer makes one active. The lemmas follow the handlers one by one.
\<close>

section \<open>Active sessions\<close>

definition active_in :: "session_manager \<Rightarrow> uuid set" where
  "active_in m = {i. \<exists>s. sm_get_session i m = Some s \<and> se_status s = SESS_ACTIVE}"

abbreviation active :: "bus \<Rightarrow> uuid set" where
  "active b \<equiv> active_in (hb_sessions b)"

lemma active_put: "active_in (sm_put s i m) = (if se_status s = SESS_ACTIVE then insert i (active_in m) else active_in m - {i})"
  by (auto simp: active_in_def sm_get_session_def sm_put_def)

lemma active_put_same:
  "sm_get_session i m = Some s \<Longrightarrow> se_status s' = se_status s \<Longrightarrow> active_in (sm_put s' i m) = active_in m"
  by (auto simp: active_put) (auto simp: active_in_def)

lemma active_create: "active_in (snd (sm_create_session fresh now t r cn mid intent as entry m)) \<subseteq> active_in m"
  by (auto simp: active_in_def sm_get_session_def sm_create_session_def Let_def new_session_def)

lemma active_offer: "active_in (snd (sm_add_offer f now i a cn sc v rq ac x md m)) = active_in m"
  by (auto simp: sm_add_offer_def se_add_offer_def sm_get_session_def intro!: active_put_same split: option.split)

lemma active_close: "active_in (snd (sm_close_session now i m)) \<subseteq> active_in m"
  by (auto simp: sm_close_session_def active_put se_close_def split: option.split)

lemma active_flow_info: "active_in (snd (sm_set_flow_info i as entry agg m)) = active_in m"
  by (auto simp: sm_set_flow_info_def sm_get_session_def intro!: active_put_same split: option.split)

lemma expire_session_active: "se_status (expire_session now s) = SESS_ACTIVE \<Longrightarrow> se_status s = SESS_ACTIVE"
  by (simp add: expire_session_def split: if_splits)

lemma active_expire: "active_in (sm_cleanup_expired now m) \<subseteq> active_in m"
  unfolding active_in_def sm_get_session_def sm_cleanup_expired_def by (auto dest: expire_session_active)

lemma active_update:
  "sm_get_session i (hb_sessions b) = Some s \<Longrightarrow> active (update_execution c i x st kw s b) = active b"
  "sm_get_session i (hb_sessions b) = Some s \<Longrightarrow> active (update_if known c i x st kw s b) = active b"
proof -
  have "se_status (snd (se_update_execution_status (cx_now c) (ctx_text c x) st kw s)) = se_status s"
    by (simp add: se_update_execution_status_def split: option.split)
  then show "sm_get_session i (hb_sessions b) = Some s \<Longrightarrow> active (update_execution c i x st kw s b) = active b"
    by (simp add: update_execution_def case_prod_beta active_put_same)
  then show "sm_get_session i (hb_sessions b) = Some s \<Longrightarrow> active (update_if known c i x st kw s b) = active b"
    by (simp add: update_if_def)
qed

section \<open>The other handlers\<close>

lemma reply_error_sessions [simp]: "hb_sessions (snd (reply_error c ws e k t b)) = hb_sessions b"
  by (simp add: reply_error_def)

lemma execute_agent_flow_active: "active (snd (execute_agent_flow c ws conn e f b)) \<subseteq> active b"
proof -
  obtain s m where u: "sm_create_session (cx_ids c 0) (cx_now c) (env_tenant_id e) (env_sender_id e) conn (env_message_id e)
      (env_payload e) (flow_ids f) (Some (fl_entry_point f)) (hb_sessions b) = (s, m)" by fastforce
  have "active_in m \<subseteq> active b"
    using active_create [of "cx_ids c 0" "cx_now c" "env_tenant_id e" "env_sender_id e" conn "env_message_id e" "env_payload e"
        "flow_ids f" "Some (fl_entry_point f)" "hb_sessions b"] by (simp add: u)
  moreover obtain r b' where a: "ask_agents c e (se_ephemeral_interface_id s) 1 (fl_agents f) (b\<lparr>hb_sessions := m\<rparr>) = (r, b')"
    by fastforce
  moreover have "hb_sessions b' = m"
    using ask_agents_frame [of c e "se_ephemeral_interface_id s" 1 "fl_agents f" "b\<lparr>hb_sessions := m\<rparr>"] a by simp
  ultimately show ?thesis by (simp add: execute_agent_flow_def u a split: sum.split)
qed

lemma finish_flow_active: "active (snd (finish_flow c ws fw xs b)) = active b"
  by (simp add: finish_flow_def Let_def case_prod_beta active_flow_info)

lemma poll_flow_active: "active (snd (poll_flow c ws fw b)) = active b"
  by (simp add: poll_flow_def finish_flow_active split: option.split)

lemma handle_intent_broadcast_active: "active (snd (handle_intent_broadcast c ws conn e b)) \<subseteq> active b"
proof -
  have "active (snd (execute_agent_flow c ws conn e f (b\<lparr>hb_router := R\<rparr>))) \<subseteq> active b" for f R
    using execute_agent_flow_active [of c ws conn e f "b\<lparr>hb_router := R\<rparr>"] by simp
  then show ?thesis by (simp add: handle_intent_broadcast_def Let_def case_prod_beta split: option.split)
qed

lemma handle_intent_offer_active: "active (snd (handle_intent_offer c ws conn e b)) = active b"
proof -
  have "sm_add_offer f now i a cn sc v rq ac x md (hb_sessions b) = (r, m) \<Longrightarrow> active_in m = active b"
    for f now i a cn sc v rq ac x md r m
    using active_offer by (metis snd_conv)
  then show ?thesis
    by (simp add: handle_intent_offer_def Let_def split: option.split prod.split sum.split)
qed

lemma handle_session_close_active: "active (snd (handle_session_close c ws conn e b)) \<subseteq> active b"
proof -
  have "sm_close_session now i (hb_sessions b) = (r, m) \<Longrightarrow> active_in m \<subseteq> active b" for now i r m
    using active_close by (metis snd_conv)
  then show ?thesis
    by (simp add: handle_session_close_def Let_def split: option.split prod.split)
qed

lemma exec_status_handler_active: "active (snd (exec_status_handler st c ws conn e b)) = active b"
  by (auto simp: exec_status_handler_def Let_def active_update dest!: provider_session_get split: option.split)

lemma handle_exec_result_active: "active (snd (handle_exec_result c ws conn e b)) = active b"
proof -
  have "active (snd (finish_exec_result c ws e i s x known cap v b)) = active b"
    if "sm_get_session i (hb_sessions b) = Some s" for i s x known cap v
    using that by (simp add: finish_exec_result_def Let_def active_update split: option.split)
  then show ?thesis
    by (auto simp: handle_exec_result_def Let_def active_update dest!: checked_provider_session_get split: sum.split)
qed

lemma send_queued_sessions: "send_to_requester_queued c s e b = (r, b') \<Longrightarrow> hb_sessions b' = hb_sessions b"
  by (auto simp: send_to_requester_queued_def Let_def split: option.splits prod.splits)

lemma forward_stream_sessions: "hb_sessions (snd (forward_stream c s e b)) = hb_sessions b"
  by (auto simp: forward_stream_def dest: send_queued_sessions split: prod.split sum.split)

lemma stream_active:
  "active (snd (handle_stream_start c ws conn e b)) = active b" "active (snd (handle_stream_chunk c ws conn e b)) = active b"
  "active (snd (handle_stream_end c ws conn e b)) = active b"
proof -
  show "active (snd (handle_stream_start c ws conn e b)) = active b"
    by (simp add: handle_stream_start_def Let_def forward_stream_sessions split: option.split)
  show "active (snd (handle_stream_chunk c ws conn e b)) = active b"
    by (auto simp: handle_stream_chunk_def Let_def dest!: send_queued_sessions split: option.split prod.split sum.split out_error.split)
  have "active (update_execution c i x st kw s (add_trace t b)) = active b" if "provider_session c e b = Some (i, s)" for i x st kw s t
    using active_update(1) [of i "add_trace t b" s] provider_session_get [OF that] by simp
  then show "active (snd (handle_stream_end c ws conn e b)) = active b"
    by (simp add: handle_stream_end_def Let_def forward_stream_sessions split: option.split)
qed

lemma other_sessions:
  "hb_sessions (snd (handle_heartbeat c ws conn e b)) = hb_sessions b" "hb_sessions (snd (handle_list c ws conn e b)) = hb_sessions b"
  "hb_sessions (snd (handle_exec_request c ws conn e b)) = hb_sessions b"
  "hb_sessions (snd (handle_exec_partial_failure c ws conn e b)) = hb_sessions b"
  "hb_sessions (snd (handle_trace_get c ws conn e b)) = hb_sessions b"
  "hb_sessions (snd (handle_event_subscribe c ws conn e b)) = hb_sessions b"
  "hb_sessions (snd (handle_event_unsubscribe c ws conn e b)) = hb_sessions b"
  "hb_sessions (snd (handle_emit_event c ws conn e b)) = hb_sessions b"
  "hb_sessions (snd (handle_register c ws e b)) = hb_sessions b"
  by (simp_all add: handle_heartbeat_def handle_list_def handle_exec_request_def handle_exec_partial_failure_def
      handle_trace_get_def handle_event_subscribe_def start_delivery_def handle_event_unsubscribe_def handle_emit_event_def
      handle_register_def Let_def case_prod_beta split: option.split sum.split prod.split bool.split)

text \<open>What an agreement takes.\<close>

definition agrees :: "message_envelope \<Rightarrow> session \<Rightarrow> bool" where
  "agrees e s =
     (env_sender_id e = se_requester_agent_id s \<and>
      (\<exists>x. se_aggregated_offer_id s = Some x \<and> pget (env_payload e) ''offer_id'' JNone = JStr x))"

lemma handle_intent_agree_active:
  "active (snd (handle_intent_agree c ws conn e b)) \<subseteq>
     active b \<union> {i. env_ephemeral_interface_id e = Some i \<and> (\<exists>s. sm_get_session i (hb_sessions b) = Some s \<and> agrees e s)}"
  by (auto simp: handle_intent_agree_def Let_def active_put agrees_def split: option.split if_splits)

lemma handle_message_active:
  "active (snd (handle_message c ws conn e b)) \<subseteq>
     active b \<union> {i. env_message_type e = MT_INTENT_AGREE \<and> env_ephemeral_interface_id e = Some i \<and>
       (\<exists>s. sm_get_session i (hb_sessions b) = Some s \<and> agrees e s)}"
  using handle_intent_broadcast_active [of c ws conn e b] handle_session_close_active [of c ws conn e b]
    handle_intent_agree_active [of c ws conn e b]
  by (cases "env_message_type e")
    (simp_all add: handle_message_def other_sessions handle_intent_offer_active handle_exec_accepted_def handle_exec_progress_def
      handle_exec_error_from_provider_def exec_status_handler_active handle_exec_result_active stream_active)

section \<open>Steps\<close>

lemma after_handler_sessions [simp]: "hb_sessions (snd (after_handler conn res)) = hb_sessions (snd res)"
  by (simp add: after_handler_def split: prod.split outcome.split)

lemma receive_active:
  "active (snd (receive c ws m ph b)) \<subseteq>
     active b \<union> {i. \<exists>conn e s. ph = PReady conn \<and> m = Message e \<and> env_message_type e = MT_INTENT_AGREE \<and>
       env_ephemeral_interface_id e = Some i \<and> sm_get_session i (hb_sessions b) = Some s \<and> agrees e s}"
proof (cases "(c, ws, m, ph, b)" rule: receive.cases)
  case (1 c' ws' e b')
  have "hb_sessions (snd (handle_register c ws e b)) = hb_sessions b" by (rule other_sessions)
  then show ?thesis using 1 by (auto simp: shut_def split: prod.splits option.splits)
next
  case (4 c' ws' e conn b')
  then show ?thesis using handle_message_active [of c ws conn e b] by auto
qed (simp_all add: send_invalid_def)

lemma poll_active: "active (snd (poll c ws ph b)) = active b"
  by (cases ph) (simp_all add: poll_flow_active)

lemma deliver_sessions: "hb_sessions (deliver_events_to_connection c k b) = hb_sessions b"
proof -
  have "hb_sessions (send_events c d n es b) = hb_sessions b" for d n es b
    by (induction es arbitrary: n b) (simp_all split: option.split)
  then show ?thesis
    by (simp add: deliver_events_to_connection_def Let_def set_phase_def close_subscription_def split: prod.split)
qed

text \<open>C3: the only step of the bus that makes a session active is the receipt of a message, and whatever message the step
  received is an agreement: of type AGREE, for that session, on a registered connection, from the requester of that
  session, naming the offer the bus has aggregated for it.\<close>

theorem activation_only_by_agreement:
  assumes "world_step w w'" and "i \<in> active (w_bus w')" and "i \<notin> active (w_bus w)"
  shows "(\<exists>c ws m. fresh_ctx c (w_bus w) \<and> w' = w_conn ws (receive c ws m (w_conns w ws) (w_bus w)) w) \<and>
    (\<forall>c ws m. w' = w_conn ws (receive c ws m (w_conns w ws) (w_bus w)) w \<longrightarrow>
      (\<exists>conn e s x. w_conns w ws = PReady conn \<and> m = Message e \<and> env_message_type e = MT_INTENT_AGREE \<and>
        env_ephemeral_interface_id e = Some i \<and> sm_get_session i (hb_sessions (w_bus w)) = Some s \<and>
        env_sender_id e = se_requester_agent_id s \<and> se_aggregated_offer_id s = Some x \<and>
        pget (env_payload e) ''offer_id'' JNone = JStr x))"
proof (intro conjI allI impI)
  show "\<exists>c ws m. fresh_ctx c (w_bus w) \<and> w' = w_conn ws (receive c ws m (w_conns w ws) (w_bus w)) w"
    using assms(1)
  proof cases
    case (expire now)
    have "i \<in> active_in (sm_cleanup_expired now (hb_sessions (w_bus w)))" using assms(2) expire by simp
    from subsetD [OF active_expire this] show ?thesis using assms(3) by simp
  qed (use assms(2,3) in \<open>auto simp: w_conn_def poll_active deliver_sessions case_prod_beta\<close>)
next
  fix c ws m assume w': "w' = w_conn ws (receive c ws m (w_conns w ws) (w_bus w)) w"
  have "i \<in> active (snd (receive c ws m (w_conns w ws) (w_bus w)))" using w' assms(2) by (simp add: w_conn_def)
  from subsetD [OF receive_active this] assms(3) obtain conn e s where
    "w_conns w ws = PReady conn" "m = Message e" "env_message_type e = MT_INTENT_AGREE" "env_ephemeral_interface_id e = Some i"
    "sm_get_session i (hb_sessions (w_bus w)) = Some s" "agrees e s" by (elim UnE CollectE exE conjE) simp_all
  moreover from this(6) obtain x where "env_sender_id e = se_requester_agent_id s" "se_aggregated_offer_id s = Some x"
    "pget (env_payload e) ''offer_id'' JNone = JStr x" unfolding agrees_def by (elim conjE exE)
  ultimately show "\<exists>conn e s x. w_conns w ws = PReady conn \<and> m = Message e \<and> env_message_type e = MT_INTENT_AGREE \<and>
        env_ephemeral_interface_id e = Some i \<and> sm_get_session i (hb_sessions (w_bus w)) = Some s \<and>
        env_sender_id e = se_requester_agent_id s \<and> se_aggregated_offer_id s = Some x \<and>
        pget (env_payload e) ''offer_id'' JNone = JStr x"
    by (intro exI [of _ conn] exI [of _ e] exI [of _ s] exI [of _ x]) simp
qed

definition ex_negotiating :: session where
  "ex_negotiating = (new_session 1 0 ''acme'' 2 ''c'' 3 [] 30 300 [] None)\<lparr>se_aggregated_offer_id := Some ''offer''\<rparr>"

text \<open>The example bus with one session, and one connection, ready.\<close>

definition ex_ready :: "session \<Rightarrow> world" where
  "ex_ready s = ex_world\<lparr>w_bus := (w_bus ex_world)\<lparr>hb_sessions := sm_put s 1 (hb_sessions (w_bus ex_world))\<rparr>,
     w_conns := \<lambda>_. PReady ''c''\<rparr>"

lemma ex_ready_session: "sm_get_session i (hb_sessions (w_bus (ex_ready s))) = (if i = 1 then Some s else None)"
  by (simp add: ex_ready_def ex_world_def world_init_def bus_init_def sm_init_def sm_put_def sm_get_session_def)

definition ex_agree :: message_envelope where
  "ex_agree = ex_message MT_INTENT_AGREE 2 (Some 1) [(''offer_id'', JStr ''offer'')]"

lemma ex_agree_activates: "se_aggregated_offer_id s = Some ''offer'' \<Longrightarrow> se_requester_agent_id s = 2 \<Longrightarrow>
  1 \<in> active (snd (receive (ex_ctx 5 100) 7 (Message ex_agree) (PReady ''c'') (w_bus (ex_ready s))))"
  by (simp add: handle_message_def handle_intent_agree_def ex_agree_def dget_or_def ex_ready_session Let_def active_put activated_def)

theorem activation_only_by_agreement_witness:
  "\<exists>conn. w_conns (ex_ready ex_negotiating) 7 = PReady conn \<and> env_message_type ex_agree = MT_INTENT_AGREE \<and>
     env_sender_id ex_agree = se_requester_agent_id ex_negotiating"
proof -
  let ?w = "ex_ready ex_negotiating"
  let ?w' = "w_conn 7 (receive (ex_ctx 5 100) 7 (Message ex_agree) (w_conns ?w 7) (w_bus ?w)) ?w"
  have "fresh_ctx (ex_ctx 5 100) (w_bus ?w)"
    by (simp add: fresh_ctx_def ex_ctx_def flip: sm_get_session_def) (simp add: ex_ready_session)
  then have "world_step ?w ?w'" by (rule world_step.receive)
  moreover have "1 \<in> active (w_bus ?w')"
    using ex_agree_activates [of ex_negotiating] by (simp add: w_conn_def ex_negotiating_def new_session_def) (simp add: ex_ready_def)
  moreover have "1 \<notin> active (w_bus ?w)"
    by (simp add: active_in_def ex_ready_session ex_negotiating_def new_session_def)
  ultimately have "\<exists>conn e s x. w_conns ?w 7 = PReady conn \<and> Message ex_agree = Message e \<and> env_message_type e = MT_INTENT_AGREE \<and>
        env_ephemeral_interface_id e = Some 1 \<and> sm_get_session 1 (hb_sessions (w_bus ?w)) = Some s \<and>
        env_sender_id e = se_requester_agent_id s \<and> se_aggregated_offer_id s = Some x \<and>
        pget (env_payload e) ''offer_id'' JNone = JStr x"
    by (rule conjunct2 [OF activation_only_by_agreement, rule_format]) (rule refl)
  then show ?thesis by (elim exE conjE) (simp add: ex_ready_session)
qed

text \<open>Agreeing looks neither at the status nor at the age of a session: one that is closed is active again.\<close>

lemma closed_session_reactivated:
  "1 \<in> active (snd (receive (ex_ctx 5 100) 7 (Message ex_agree) (PReady ''c'') (w_bus (ex_ready (se_close 4 ex_negotiating)))))"
  by (rule ex_agree_activates) (simp_all add: se_close_def ex_negotiating_def new_session_def)

section \<open>Requests to execute, on an example\<close>

theorem exec_request_fails_witness:
  "fst (receive (ex_ctx 5 100) 7 (Message (ex_message MT_EXEC_REQUEST 2 (Some 1) [])) (PReady ''c'')
     (w_bus (ex_ready (activated 4 ''offer'' ex_negotiating)))) = PClosed"
proof -
  let ?s = "activated 4 ''offer'' ex_negotiating" and ?e = "ex_message MT_EXEC_REQUEST 2 (Some 1) []"
  obtain ph b' where u: "receive (ex_ctx 5 100) 7 (Message ?e) (PReady ''c'') (w_bus (ex_ready ?s)) = (ph, b')" by fastforce
  have "rg_inv (hb_registry (w_bus (ex_ready ?s)))"
    using bus_inv_parts(4) [OF reachable_inv [OF ex_world_reachable]] by (simp add: ex_ready_def)
  moreover have "se_status ?s = SESS_ACTIVE \<and> \<not> se_is_expired 5 ?s \<and> se_requester_agent_id ?s = 2"
    by (simp add: activated_def ex_negotiating_def new_session_def se_is_expired_def se_expires_at_def td_sec_def)
  ultimately show ?thesis
    using exec_request_fails [OF _ u] unfolding u fst_conv by (simp add: ex_ready_session ex_ctx_def split: if_splits)
qed

end
