(* ===== verification/Handler_Flows.thy ===== *)
theory Handler_Flows
  imports Handler_Sessions "HOL-Library.List_Lexorder" "HOL-Library.Char_ord"
begin

text \<open>
  How a flow waits for offers and what it then offers: all of them, put together as one offer.
\<close>

section \<open>Waiting\<close>

text \<open>The run of a flow, given the circumstances and the state of the bus at each of its polls.\<close>

fun flow_run :: "websocket \<Rightarrow> flow_wait \<Rightarrow> ('g ctx \<times> bus) list \<Rightarrow> (flow_wait outcome \<times> bus) option" where
  "flow_run ws fw [] = None"
| "flow_run ws fw ((c, b) # rest) =
     (case poll_flow c ws fw b of
        (Waiting fw', _) \<Rightarrow> flow_run ws fw' rest
      | res \<Rightarrow> Some res)"

definition enough_offers :: "flow_wait \<Rightarrow> bus \<Rightarrow> bool" where
  "enough_offers fw b =
     (\<exists>s. sm_get_session (fw_session_id fw) (hb_sessions b) = Some s \<and> length (fl_agents (fw_flow fw)) \<le> length (se_offers s))"

definition offers_of :: "flow_wait \<Rightarrow> bus \<Rightarrow> offer list" where
  "offers_of fw b = (case sm_get_session (fw_session_id fw) (hb_sessions b) of None \<Rightarrow> [] | Some s \<Rightarrow> se_offers s)"

lemma finish_flow_polls [simp]: "finish_flow c ws (fw\<lparr>fw_polls := n\<rparr>) xs b = finish_flow c ws fw xs b"
  by (simp add: finish_flow_def Let_def)

lemma enough_offers_polls [simp]: "enough_offers (fw\<lparr>fw_polls := n\<rparr>) b = enough_offers fw b"
  "offers_of (fw\<lparr>fw_polls := n\<rparr>) b = offers_of fw b"
  by (simp_all add: enough_offers_def offers_of_def)

lemma finish_flow_Done: "\<exists>b'. finish_flow c ws fw xs b = (Done, b')"
  by (simp add: finish_flow_def Let_def reply_error_def split: prod.split)

lemma poll_flow_cases:
  "poll_flow c ws fw b =
     (if enough_offers fw b then finish_flow c ws fw (offers_of fw b) b
      else if fw_polls fw \<le> 1 then finish_flow c ws fw [] b
      else (Waiting (fw\<lparr>fw_polls := fw_polls fw - 1\<rparr>), b))"
  by (auto simp: poll_flow_def enough_offers_def offers_of_def split: option.split)

text \<open>C14: a flow that waits for offers always ends, after at most its number of polls, 51 at the start: at the first
  poll that finds as many offers as there are agents with all the offers there are, and at the last poll,
  when none did, with no offer at all, however many have come; it ends without an exception.\<close>

theorem flow_terminates:
  assumes "1 \<le> fw_polls fw" and "fw_polls fw \<le> length envs"
  shows "\<exists>k c b b'. k < fw_polls fw \<and> envs ! k = (c, b) \<and> flow_run ws fw envs = Some (Done, b') \<and>
    (\<forall>j<k. \<not> enough_offers fw (snd (envs ! j))) \<and>
    (if enough_offers fw b then finish_flow c ws fw (offers_of fw b) b = (Done, b')
     else k = fw_polls fw - 1 \<and> finish_flow c ws fw [] b = (Done, b'))"
  using assms
proof (induction envs arbitrary: fw)
  case (Cons env envs)
  obtain c b where env: "env = (c, b)" by fastforce
  obtain b1 where b1: "finish_flow c ws fw (offers_of fw b) b = (Done, b1)" using finish_flow_Done by blast
  obtain b2 where b2: "finish_flow c ws fw [] b = (Done, b2)" using finish_flow_Done by blast
  consider (enough) "enough_offers fw b" | (last) "\<not> enough_offers fw b" "fw_polls fw \<le> 1"
    | (wait) "\<not> enough_offers fw b" "1 < fw_polls fw" by linarith
  then show ?case
  proof cases
    case enough
    then have "flow_run ws fw (env # envs) = Some (Done, b1)" by (simp add: env poll_flow_cases b1)
    then show ?thesis
      using enough Cons.prems(1) b1 by (intro exI [of _ 0] exI [of _ c] exI [of _ b] exI [of _ b1]) (simp add: env)
  next
    case last
    then have "flow_run ws fw (env # envs) = Some (Done, b2)" by (simp add: env poll_flow_cases b2)
    then show ?thesis
      using last Cons.prems(1) b2 by (intro exI [of _ 0] exI [of _ c] exI [of _ b] exI [of _ b2]) (simp add: env)
  next
    case wait
    let ?fw = "fw\<lparr>fw_polls := fw_polls fw - 1\<rparr>"
    have run: "flow_run ws fw (env # envs) = flow_run ws ?fw envs" using wait by (simp add: env poll_flow_cases)
    have less: "1 \<le> fw_polls ?fw" "fw_polls ?fw \<le> length envs" using wait Cons.prems by simp_all
    obtain k c' b' b'' where k: "k < fw_polls ?fw" "envs ! k = (c', b')" "flow_run ws ?fw envs = Some (Done, b'')"
      "\<forall>j<k. \<not> enough_offers ?fw (snd (envs ! j))"
      "if enough_offers ?fw b' then finish_flow c' ws ?fw (offers_of ?fw b') b' = (Done, b'')
       else k = fw_polls ?fw - 1 \<and> finish_flow c' ws ?fw [] b' = (Done, b'')"
      using Cons.IH [OF less] by (elim exE conjE)
    have "\<not> enough_offers fw (snd ((env # envs) ! j))" if "j < Suc k" for j
      using k(4) wait(1) that by (cases j) (simp_all add: env)
    then show ?thesis
      using k wait by (intro exI [of _ "Suc k"] exI [of _ c'] exI [of _ b'] exI [of _ b'']) (auto simp: run)
  qed
qed simp

section \<open>The aggregated offer\<close>

lemma average_bounds:
  assumes "xs \<noteq> []" and "\<forall>x\<in>set xs. lo \<le> of_score x \<and> of_score x \<le> hi"
  shows "lo \<le> average_score xs \<and> average_score xs \<le> hi"
proof -
  have "of_nat (length xs) * lo \<le> sum_list (map of_score xs) \<and> sum_list (map of_score xs) \<le> of_nat (length xs) * hi"
    using assms(2) by (induction xs) (auto simp: algebra_simps)
  then show ?thesis using assms(1) by (simp add: average_score_def field_simps)
qed

text \<open>C27: in a state that keeps the invariant, a poll that finds the offers of all agents of the flow sends the requester one message with
  one offer. It lists each schema, each requirement and each format of the offers once and no others; its score is the mean
  of theirs, between 0 and 1; it names the agents of the flow, holds all the offers in the order they came, and
  carries the id that is stored in the session for the agreement, the id of its new message.\<close>

theorem aggregated_offer_spec:
  assumes "bus_inv b0" and s: "sm_get_session (fw_session_id fw) (hb_sessions b0) = Some s"
    and "se_offers s \<noteq> []" and "length (fl_agents (fw_flow fw)) \<le> length (se_offers s)"
    and order: "\<And>S. finite S \<Longrightarrow> distinct (cx_set_order c S) \<and> set (cx_set_order c S) = S"
    and "\<And>m. cx_send_ok c ws m" and "poll_flow c ws fw b0 = (oc, b)"
  shows "\<exists>m d schemas required accepted x meta. oc = Done \<and> hb_sent b = hb_sent b0 @ [(ws, m)] \<and>
    env_message_type m = MT_INTENT_OFFERS \<and> dget (env_payload m) ''offers'' = Some (JList [JDict d]) \<and>
    dget d ''schema_ids'' = Some (JList (map JStr schemas)) \<and> distinct schemas \<and>
    set schemas = (\<Union>y\<in>set (se_offers s). set (of_schema_ids y)) \<and>
    dget d ''requires'' = Some (JList (map JStr required)) \<and> distinct required \<and>
    set required = (\<Union>y\<in>set (se_offers s). set (of_requires y)) \<and>
    dget d ''accepts'' = Some (JList (map JStr accepted)) \<and> distinct accepted \<and>
    set accepted = (\<Union>y\<in>set (se_offers s). set (of_accepts y)) \<and>
    dget d ''score'' = Some (JFloat x) \<and> x * of_nat (length (se_offers s)) = (\<Sum>y\<leftarrow>se_offers s. of_score y) \<and> 0 \<le> x \<and> x \<le> 1 \<and>
    dget d ''metadata'' = Some (JDict meta) \<and>
    dget meta ''individual_offers'' = Some (JList (map (\<lambda>y. JDict (of_to_dict y)) (se_offers s))) \<and>
    dget meta ''flow_agents'' = Some (JList (map JStr (flow_ids (fw_flow fw)))) \<and>
    dget d ''provider_id'' = Some (JStr (uuid_str BUS_ID)) \<and>
    dget d ''offer_id'' = Some (JStr (uuid_str (cx_ids c 0))) \<and>
    (\<exists>s'. sm_get_session (fw_session_id fw) (hb_sessions b) = Some s' \<and>
       se_aggregated_offer_id s' = Some (uuid_str (cx_ids c 0)) \<and> se_offers s' = se_offers s)"
proof -
  let ?f = "fw_flow fw" and ?xs = "se_offers s" and ?e = "fw_envelope fw" and ?id = "uuid_str (cx_ids c 0)"
  have fin: "poll_flow c ws fw b0 = finish_flow c ws fw ?xs b0"
    using s assms(4) by (simp add: poll_flow_def)
  let ?m = "create_intent_offers (cx_ids c 1) (cx_now c) BUS_ID (env_tenant_id ?e) (env_message_id ?e) (fw_session_id fw)
              [aggregated_offer c ?id ?f ?xs]"
  have b: "oc = Done" "b = send_envelope c ws ?m (b0\<lparr>hb_sessions :=
      snd (sm_set_flow_info (fw_session_id fw) (flow_ids ?f) (Some (fl_entry_point ?f)) ?id (hb_sessions b0))\<rparr>)"
    using assms(3,7) by (simp_all add: fin finish_flow_def Let_def case_prod_beta)
  have sent: "hb_sent b = hb_sent b0 @ [(ws, ?m)]" by (simp add: b(2) send_envelope_def assms(6))
  have offer: "dget (env_payload ?m) ''offers'' = Some (JList [JDict (aggregated_offer c ?id ?f ?xs)])"
    "env_message_type ?m = MT_INTENT_OFFERS"
    by (simp_all add: create_intent_offers_def new_envelope_def)
  let ?u = "\<lambda>f. without_duplicates c (map f ?xs)" and ?d = "aggregated_offer c ?id ?f ?xs"
  have ids: "distinct (?u f)" "set (?u f) = (\<Union>y\<in>set ?xs. set (f y))" for f
    using order [of "set (concat (map f ?xs))"] by (simp_all add: without_duplicates_def)
  obtain meta where keys: "dget ?d ''schema_ids'' = Some (JList (map JStr (?u of_schema_ids)))"
    "dget ?d ''requires'' = Some (JList (map JStr (?u of_requires)))"
    "dget ?d ''accepts'' = Some (JList (map JStr (?u of_accepts)))"
    "dget ?d ''metadata'' = Some (JDict meta)" "dget ?d ''provider_id'' = Some (JStr (uuid_str BUS_ID))"
    "dget meta ''individual_offers'' = Some (JList (map (\<lambda>y. JDict (of_to_dict y)) ?xs))"
    "dget meta ''flow_agents'' = Some (JList (map JStr (flow_ids ?f)))"
    by (simp add: aggregated_offer_def)
  have "bus_session_ok s" using sess_invD(2) [OF bus_inv_parts(5) [OF assms(1)] s] .
  then have avg: "0 \<le> average_score ?xs \<and> average_score ?xs \<le> 1"
    by (intro average_bounds assms(3)) (simp add: bus_session_ok_def)
  have score: "dget (aggregated_offer c ?id ?f ?xs) ''score'' = Some (JFloat (average_score ?xs))"
    "dget (aggregated_offer c ?id ?f ?xs) ''offer_id'' = Some (JStr ?id)" by (simp_all add: aggregated_offer_def)
  have new: "\<exists>s'. sm_get_session (fw_session_id fw) (hb_sessions b) = Some s' \<and> se_aggregated_offer_id s' = Some ?id \<and>
      se_offers s' = se_offers s"
    using s by (simp add: b(2) sm_set_flow_info_def sm_get_session_def sm_put_def)
  have mean: "average_score ?xs * of_nat (length ?xs) = (\<Sum>y\<leftarrow>?xs. of_score y)"
    using assms(3) by (simp add: average_score_def)
  show ?thesis
    by (rule exI [of _ ?m], rule exI [of _ ?d], rule exI [of _ "?u of_schema_ids"], rule exI [of _ "?u of_requires"],
        rule exI [of _ "?u of_accepts"], rule exI [of _ "average_score ?xs"], rule exI [of _ meta])
      (intro conjI b(1) sent offer ids keys score new mean conjunct1 [OF avg] conjunct2 [OF avg])
qed

definition ex_offer :: offer where
  "ex_offer = \<lparr>of_offer_id = ''off'', of_provider_agent_id = 5, of_provider_conn_id = ''c5'', of_schema_ids = [''s'', ''s''],
     of_view_ids = [], of_requires = [], of_accepts = [], of_score = 1 / 2, of_metadata = [], of_created_at = 0\<rparr>"

definition ex_offered :: bus where
  "ex_offered = w_bus (ex_ready (ex_negotiating\<lparr>se_offers := [ex_offer]\<rparr>))"

definition ex_wait :: flow_wait where
  "ex_wait = \<lparr>fw_envelope = ex_message MT_INTENT_BROADCAST 2 None [], fw_session_id = 1,
     fw_flow = ex_flow [ex_node ''a'' []], fw_polls = 2\<rparr>"

lemma ex_offered_inv: "bus_inv ex_offered"
proof -
  have "sess_inv (sm_put (ex_negotiating\<lparr>se_offers := [ex_offer]\<rparr>) 1 (hb_sessions (w_bus ex_world)))"
    by (rule sess_inv_put [OF bus_inv_parts(5) [OF reachable_inv [OF ex_world_reachable]]])
      (simp_all add: ex_negotiating_def new_session_def bus_session_ok_def ex_offer_def)
  then show ?thesis
    using bus_inv_parts(1) [OF reachable_inv [OF ex_world_reachable]] by (simp add: ex_offered_def ex_ready_def)
qed

theorem flow_terminates_witness:
  "\<exists>b'. flow_run 7 ex_wait [(ex_ctx 0 100, w_bus ex_world), (ex_ctx 1 101, ex_offered)] = Some (Done, b')"
proof -
  have "1 \<le> fw_polls ex_wait" "fw_polls ex_wait \<le> length [(ex_ctx 0 100, w_bus ex_world), (ex_ctx 1 101, ex_offered)]"
    by (simp_all add: ex_wait_def)
  from flow_terminates [OF this] show ?thesis by blast
qed

theorem aggregated_offer_spec_witness:
  "let c = (ex_ctx 5 100)\<lparr>cx_set_order := sorted_list_of_set\<rparr>; (oc, b) = poll_flow c 7 ex_wait ex_offered in
     oc = Done \<and> length (hb_sent b) = 1"
proof -
  let ?c = "(ex_ctx 5 100)\<lparr>cx_set_order := sorted_list_of_set\<rparr>"
  let ?s = "ex_negotiating\<lparr>se_offers := [ex_offer]\<rparr>"
  obtain oc b where u: "poll_flow ?c 7 ex_wait ex_offered = (oc, b)" by fastforce
  have s: "sm_get_session (fw_session_id ex_wait) (hb_sessions ex_offered) = Some ?s"
    by (simp add: ex_wait_def ex_offered_def ex_ready_session)
  have "oc = Done \<and> (\<exists>m. hb_sent b = hb_sent ex_offered @ [(7, m)])"
    using aggregated_offer_spec [OF ex_offered_inv s _ _ _ _ u] by (simp add: ex_wait_def ex_flow_def ex_ctx_def) blast
  moreover have "hb_sent ex_offered = []"
    by (simp add: ex_offered_def ex_ready_def ex_world_def world_init_def bus_init_def)
  ultimately show ?thesis by (auto simp: u)
qed

text \<open>Offers that are not all there at the last poll are thrown away: a flow of two agents with one offer.\<close>

lemma partial_offers_discarded:
  assumes "fw = ex_wait\<lparr>fw_polls := 1, fw_flow := ex_flow [ex_node ''a'' [], ex_node ''b'' []]\<rparr>"
  shows "offers_of fw ex_offered = [ex_offer] \<and>
    poll_flow c ws fw ex_offered =
      reply_error c ws (fw_envelope fw) ''NO_OFFERS'' ''No agents responded with offers for the flow'' ex_offered"
  using assms
  by (simp add: poll_flow_cases enough_offers_def offers_of_def ex_offered_def ex_wait_def ex_ready_session ex_flow_def
      finish_flow_def Let_def)

end
