(* ===== verification/Handler_Recipients.thy ===== *)
theory Handler_Recipients
  imports Handler_Flows
begin

text \<open>Whom the handling of a message tells, and what is left of a connection that has ended.\<close>

section \<open>Recipients\<close>

definition grows :: "(websocket \<Rightarrow> message_envelope \<Rightarrow> bool) \<Rightarrow> sent \<Rightarrow> sent \<Rightarrow> bool" where
  "grows P l l' = (\<exists>new. l' = l @ new \<and> (\<forall>x\<in>set new. P (fst x) (snd x)))"

lemma grows_refl [simp]: "grows P l l"
  by (simp add: grows_def)

lemma grows_append: "grows P l l' \<Longrightarrow> \<forall>x\<in>set new. P (fst x) (snd x) \<Longrightarrow> grows P l (l' @ new)"
  by (auto simp: grows_def)

lemma grows_trans: "grows P l l' \<Longrightarrow> grows P l' l'' \<Longrightarrow> grows P l l''"
  by (auto simp: grows_def)

lemma grows_mono: "grows P l l' \<Longrightarrow> (\<And>w m. P w m \<Longrightarrow> Q w m) \<Longrightarrow> grows Q l l'"
  by (auto simp: grows_def)

lemma grows_send: "grows P l (hb_sent b) \<Longrightarrow> P ws e \<Longrightarrow> grows P l (hb_sent (send_envelope c ws e b))"
  by (simp add: send_envelope_log grows_append)

lemma grows_to_conn:
  "grows P l (hb_sent b) \<Longrightarrow> (\<And>w. rg_get_websocket conn (hb_registry b) = Some w \<Longrightarrow> P w e) \<Longrightarrow>
     grows P l (hb_sent (send_to_conn c conn e b))"
  by (auto simp: send_to_conn_def grows_send split: option.split)

text \<open>To the connection itself anything, to others what satisfies \<open>P\<close>.\<close>

definition told :: "websocket \<Rightarrow> (websocket \<Rightarrow> message_envelope \<Rightarrow> bool) \<Rightarrow> sent \<Rightarrow> sent \<Rightarrow> bool" where
  "told ws P = grows (\<lambda>w m. w = ws \<or> P w m)"

lemma told_refl [simp]: "told ws P l l"
  by (simp add: told_def)

lemma told_append: "told ws P l l' \<Longrightarrow> \<forall>x\<in>set new. fst x = ws \<or> P (fst x) (snd x) \<Longrightarrow> told ws P l (l' @ new)"
  by (simp add: told_def grows_append)

lemma told_send: "told ws P l (hb_sent b) \<Longrightarrow> told ws P l (hb_sent (send_envelope c ws e b))"
  by (simp add: told_def grows_send)

lemma told_error: "told ws P l (hb_sent b) \<Longrightarrow> told ws P l (hb_sent (send_error c ws r t k x b))"
  by (simp add: send_error_def told_send)

lemma told_reply [simp]: "told ws P l (hb_sent b) \<Longrightarrow> told ws P l (hb_sent (snd (reply_error c ws e k x b)))"
  by (simp add: reply_error_def told_error)

lemma told_to_conn:
  "told ws P l (hb_sent b) \<Longrightarrow> (\<And>w. rg_get_websocket conn (hb_registry b) = Some w \<Longrightarrow> P w e) \<Longrightarrow>
     told ws P l (hb_sent (send_to_conn c conn e b))"
  unfolding told_def by (rule grows_to_conn) auto

text \<open>The agents a broadcast asks for offers, and the other party of a session that is closed.\<close>

definition asked :: "unit ctx \<Rightarrow> message_envelope \<Rightarrow> bus \<Rightarrow> websocket \<Rightarrow> message_envelope \<Rightarrow> bool" where
  "asked c e b w m =
     (env_message_type e = MT_INTENT_BROADCAST \<and> env_message_type m = MT_INTENT_DELIVER \<and>
      (\<exists>f n g a. fst (fst (find_agent_flow (cx_outside c) e (hb_router b, hb_registry b))) = Some f \<and> n \<in> set (fl_agents f) \<and>
         uuid_parse (an_agent_id n) = Some g \<and> rg_get_agent_by_id g (hb_registry b) = Some a \<and>
         rg_get_websocket (ar_conn_id a) (hb_registry b) = Some w))"

definition notified :: "message_envelope \<Rightarrow> bus \<Rightarrow> websocket \<Rightarrow> message_envelope \<Rightarrow> bool" where
  "notified e b w m =
     (env_message_type e = MT_SESSION_CLOSE \<and> env_message_type m = MT_SESSION_CLOSE \<and>
      (\<exists>i s conn. env_ephemeral_interface_id e = Some i \<and> sm_get_session i (hb_sessions b) = Some s \<and>
         Some conn \<in> {Some (se_requester_conn_id s), se_provider_conn_id s} \<and>
         rg_get_websocket conn (hb_registry b) = Some w))"

lemma ask_agents_told:
  assumes "\<And>n g a w k. n \<in> set ns \<Longrightarrow> uuid_parse (an_agent_id n) = Some g \<Longrightarrow> rg_get_agent_by_id g (hb_registry b) = Some a \<Longrightarrow>
      rg_get_websocket (ar_conn_id a) (hb_registry b) = Some w \<Longrightarrow> P w (deliver_envelope c k e i n)"
  shows "told ws P l (hb_sent b) \<Longrightarrow> told ws P l (hb_sent (snd (ask_agents c e i k ns b)))"
  using assms
proof (induction ns arbitrary: k b)
  case (Cons n ns)
  show ?case
  proof (cases "uuid_parse (an_agent_id n)")
    case (Some g)
    show ?thesis
    proof (cases "rg_get_agent_by_id g (hb_registry b)")
      case (Some a)
      obtain ok ms where r: "route_to_agent (cx_send_ok c) (hb_registry b) a (deliver_envelope c k e i n) = (ok, ms)" by fastforce
      have "\<forall>x\<in>set ms. P (fst x) (snd x)"
        using r Cons.prems(2) [OF _ \<open>uuid_parse (an_agent_id n) = Some g\<close> Some]
        by (auto simp: route_to_agent_def split: option.splits if_splits)
      then have "told ws P l (hb_sent (b\<lparr>hb_sent := hb_sent b @ ms\<rparr>))" using Cons.prems(1) by (simp add: told_append)
      then show ?thesis
        using Cons.IH [of "b\<lparr>hb_sent := hb_sent b @ ms\<rparr>" "k + 1"] Cons.prems(2) Some \<open>uuid_parse (an_agent_id n) = Some g\<close> r
        by simp
    qed (use Cons Some in simp)
  qed (use Cons in simp)
qed simp

lemma handle_intent_broadcast_told:
  assumes "env_message_type e = MT_INTENT_BROADCAST"
  shows "told ws (asked c e b) (hb_sent b) (hb_sent (snd (handle_intent_broadcast c ws conn e b)))"
proof -
  let ?find = "find_agent_flow (cx_outside c) e (hb_router b, hb_registry b)"
  show ?thesis
  proof (cases "fst (fst ?find)")
    case (Some f)
    let ?b = "b\<lparr>hb_router := snd ?find\<rparr>"
    obtain s m where u: "sm_create_session (cx_ids c 0) (cx_now c) (env_tenant_id e) (env_sender_id e) conn (env_message_id e)
        (env_payload e) (flow_ids f) (Some (fl_entry_point f)) (hb_sessions ?b) = (s, m)" by fastforce
    let ?i = "se_ephemeral_interface_id s"
    have "env_message_type (deliver_envelope c k e ?i n) = MT_INTENT_DELIVER" for k n
      by (simp add: deliver_envelope_def create_intent_deliver_with_session_def new_envelope_def)
    then have "told ws (asked c e b) (hb_sent b) (hb_sent (snd (ask_agents c e ?i 1 (fl_agents f) (?b\<lparr>hb_sessions := m\<rparr>))))"
      using assms Some by (intro ask_agents_told) (auto simp: asked_def)
    moreover have "handle_intent_broadcast c ws conn e b = execute_agent_flow c ws conn e f ?b"
      using Some by (simp add: handle_intent_broadcast_def Let_def case_prod_beta)
    moreover have "hb_sent (snd (execute_agent_flow c ws conn e f ?b)) =
        hb_sent (snd (ask_agents c e ?i 1 (fl_agents f) (?b\<lparr>hb_sessions := m\<rparr>)))"
      unfolding execute_agent_flow_def u Let_def by (simp add: case_prod_beta split: sum.split)
    ultimately show ?thesis by simp
  qed (simp add: handle_intent_broadcast_def Let_def case_prod_beta)
qed

lemma handle_session_close_told:
  assumes "env_message_type e = MT_SESSION_CLOSE"
  shows "told ws (notified e b) (hb_sent b) (hb_sent (snd (handle_session_close c ws conn e b)))"
proof (cases "env_ephemeral_interface_id e")
  case (Some i)
  show ?thesis
  proof (cases "sm_get_session i (hb_sessions b)")
    case None
    then show ?thesis using Some by (simp add: handle_session_close_def sm_close_session_def sm_get_session_def Let_def)
  next
    case s: (Some s)
    let ?s = "se_close (cx_now c) s"
    let ?r = "pget (env_payload e) ''reason'' JNone"
    let ?b = "b\<lparr>hb_sessions := sm_put ?s i (hb_sessions b)\<rparr>"
    have "env_message_type (close_message c e i ?r ?s) = MT_SESSION_CLOSE" by (simp add: close_message_def new_envelope_def)
    moreover have "str_true (other_conn conn ?s) \<Longrightarrow>
        Some (the (other_conn conn ?s)) \<in> {Some (se_requester_conn_id s), se_provider_conn_id s}"
      by (cases "se_provider_conn_id s") (auto simp: other_conn_def se_close_def str_true_def)
    ultimately have "str_true (other_conn conn ?s) \<Longrightarrow> told ws (notified e b) (hb_sent b)
        (hb_sent (send_to_conn c (the (other_conn conn ?s)) (close_message c e i ?r ?s) ?b))"
      using assms Some s by (intro told_to_conn) (simp_all add: notified_def, blast)
    then show ?thesis
      using Some s by (simp add: handle_session_close_def sm_close_session_def sm_get_session_def Let_def)
  qed
qed (simp add: handle_session_close_def)

lemma offer_agree_told:
  "told ws P (hb_sent b) (hb_sent (snd (handle_intent_offer c ws conn e b)))"
  "told ws P (hb_sent b) (hb_sent (snd (handle_intent_agree c ws conn e b)))"
  by (simp_all add: handle_intent_offer_def handle_intent_agree_def Let_def told_send split: option.split prod.split sum.split)

lemma start_delivery_sent [simp]: "hb_sent (start_delivery a ws i t b) = hb_sent b"
  by (simp add: start_delivery_def Let_def)

lemma other_told:
  "told ws P (hb_sent b) (hb_sent (snd (handle_heartbeat c ws conn e b)))"
  "told ws P (hb_sent b) (hb_sent (snd (handle_list c ws conn e b)))"
  "told ws P (hb_sent b) (hb_sent (snd (handle_exec_request c ws conn e b)))"
  "told ws P (hb_sent b) (hb_sent (snd (handle_trace_get c ws conn e b)))"
  "told ws P (hb_sent b) (hb_sent (snd (handle_event_subscribe c ws conn e b)))"
  "told ws P (hb_sent b) (hb_sent (snd (handle_event_unsubscribe c ws conn e b)))"
  "told ws P (hb_sent b) (hb_sent (snd (handle_emit_event c ws conn e b)))"
  by (simp_all add: handle_heartbeat_def handle_list_def handle_exec_request_def handle_trace_get_def
      handle_event_subscribe_def handle_event_unsubscribe_def handle_emit_event_def told_send Let_def case_prod_beta
      split: option.split sum.split prod.split bool.split)

lemma told_weaken: "told ws P l l' \<Longrightarrow> (\<And>w m. P w m \<Longrightarrow> Q w m) \<Longrightarrow> told ws Q l l'"
  unfolding told_def by (erule grows_mono) blast

lemma provider_told:
  assumes "bus_inv b" and "env_sender_id e \<noteq> BUS_ID" and "env_message_type e \<in> provider_types"
  shows "told ws P (hb_sent b) (hb_sent (snd (handle_message c ws conn e b)))"
  using provider_silent [OF assms, of c ws conn] by auto

text \<open>C2: in every reachable state, a message from anyone but the bus leads to messages to its own connection only,
  apart from two: a broadcast also goes, as a request for an offer, to the connected agents of the flow
  that was found for it, and the end of a session to the other connection of that session.\<close>

theorem recipients:
  assumes "reachable w" and "env_sender_id e \<noteq> BUS_ID"
  shows "told ws (\<lambda>v m. asked c e (w_bus w) v m \<or> notified e (w_bus w) v m) (hb_sent (w_bus w))
           (hb_sent (snd (handle_message c ws conn e (w_bus w))))"
proof (cases "env_message_type e \<in> provider_types")
  case True
  then show ?thesis using reachable_inv [OF assms(1)] assms(2) provider_told by blast
next
  case False
  let ?P = "\<lambda>v m. asked c e (w_bus w) v m \<or> notified e (w_bus w) v m"
  have "told ws ?P (hb_sent (w_bus w)) (hb_sent (snd (handle_intent_broadcast c ws conn e (w_bus w))))"
    if "env_message_type e = MT_INTENT_BROADCAST"
    using handle_intent_broadcast_told [OF that] by (rule told_weaken) simp
  moreover have "told ws ?P (hb_sent (w_bus w)) (hb_sent (snd (handle_session_close c ws conn e (w_bus w))))"
    if "env_message_type e = MT_SESSION_CLOSE"
    using handle_session_close_told [OF that] by (rule told_weaken) simp
  ultimately show ?thesis
    using False by (cases "env_message_type e")
      (simp_all add: provider_types_def handle_message_def offer_agree_told other_told)
qed

section \<open>The end of a connection\<close>

lemma cancel_task_cancelled:
  "dl_cancelled (hb_tasks b ! k) \<Longrightarrow> dl_cancelled (hb_tasks (cancel_task sid b) ! k)"
proof -
  have "dl_cancelled (xs ! k) \<Longrightarrow> dl_cancelled (xs[j := (xs ! j)\<lparr>dl_cancelled := True\<rparr>] ! k)" for xs j
    by (cases "j < length xs") (simp_all add: nth_list_update list_update_beyond)
  then show "dl_cancelled (hb_tasks b ! k) \<Longrightarrow> dl_cancelled (hb_tasks (cancel_task sid b) ! k)"
    by (auto simp: cancel_task_def split: option.split)
qed

lemma cancel_all_cancels:
  assumes "\<And>i j. dget (hb_delivery_tasks b) i = Some j \<Longrightarrow> j < length (hb_tasks b)"
    and "sid \<in> set sids" and "dget (hb_delivery_tasks b) sid = Some k"
  shows "dl_cancelled (hb_tasks (fold cancel_task sids b) ! k)"
  using assms
proof (induction sids arbitrary: b)
  case (Cons i sids)
  have keep: "dl_cancelled (hb_tasks b ! k) \<Longrightarrow> dl_cancelled (hb_tasks (fold cancel_task js b) ! k)" for js b
    by (induction js arbitrary: b) (simp_all add: cancel_task_cancelled)
  show ?case
  proof (cases "i = sid")
    case True
    have "dl_cancelled (hb_tasks (cancel_task i b) ! k)"
      using Cons.prems(1) [OF Cons.prems(3)] Cons.prems(3) True by (simp add: cancel_task_def)
    then show ?thesis by (simp add: keep)
  next
    case False
    have "length (hb_tasks (cancel_task i b)) = length (hb_tasks b)"
      by (simp add: cancel_task_def split: option.split)
    moreover have "sid \<in> set sids" and "dget (hb_delivery_tasks (cancel_task i b)) sid = Some k"
      using Cons.prems(2,3) False by simp_all
    ultimately have "dl_cancelled (hb_tasks (fold cancel_task sids (cancel_task i b)) ! k)"
      using Cons.prems(1) by (intro Cons.IH) (simp_all split: if_splits)
    then show ?thesis by simp
  qed
qed simp

text \<open>What no cancelled subscription maps to is not touched.\<close>

lemma cancel_all_others:
  assumes "\<And>i. i \<in> set sids \<Longrightarrow> dget (hb_delivery_tasks b) i \<noteq> Some k"
  shows "hb_tasks (fold cancel_task sids b) ! k = hb_tasks b ! k"
  using assms
proof (induction sids arbitrary: b)
  case (Cons i sids)
  have "hb_tasks (cancel_task i b) ! k = hb_tasks b ! k"
    using Cons.prems [of i] by (auto simp: cancel_task_def nth_list_update_neq split: option.split)
  moreover have "hb_tasks (fold cancel_task sids (cancel_task i b)) ! k = hb_tasks (cancel_task i b) ! k"
    using Cons.prems by (intro Cons.IH) simp
  ultimately show ?case by simp
qed simp

lemma cancel_all_length: "length (hb_tasks (fold cancel_task sids b)) = length (hb_tasks b)"
proof (induction sids arbitrary: b)
  case (Cons i sids)
  have "length (hb_tasks (cancel_task i b)) = length (hb_tasks b)" by (simp add: cancel_task_def split: option.split)
  then show ?case using Cons by simp
qed simp

lemma end_connection_tasks:
  "hb_tasks (end_connection conn b) = hb_tasks (cancel_conn_tasks conn b)"
  by (simp add: end_connection_def cleanup_connection_events_def Let_def case_prod_beta)

text \<open>C28: in every state that keeps the invariant, so in every reachable one, the end of a connection leaves nothing of it
  behind: its agent and socket are no longer known, none of its subscriptions is live or tracked and the delivery tasks of
  its subscriptions, those whose id starts with the connection id and a colon, are cancelled and forgotten. Of others
  nothing changes: their agents, sockets, subscriptions and delivery tasks, the sessions and what was sent stay as they
  were.\<close>

theorem disconnect_clean:
  assumes "bus_inv b" and "b' = end_connection conn b"
  shows "rg_get_agent_by_conn conn (hb_registry b') = None \<and> rg_get_websocket conn (hb_registry b') = None \<and>
    (\<forall>sid\<in>tracked (hb_events b) conn. es_get_subscription sid (em_stream (hb_events b')) = None) \<and>
    tracked (hb_events b') conn = {} \<and>
    (\<forall>sid. starts_with sid (conn @ '':'') \<longrightarrow> dget (hb_delivery_tasks b') sid = None \<and>
       (\<forall>k. dget (hb_delivery_tasks b) sid = Some k \<longrightarrow> dl_cancelled (hb_tasks b' ! k))) \<and>
    (\<forall>sid. \<not> starts_with sid (conn @ '':'') \<longrightarrow> dget (hb_delivery_tasks b') sid = dget (hb_delivery_tasks b) sid) \<and>
    length (hb_tasks b') = length (hb_tasks b) \<and>
    (\<forall>k. (\<forall>sid. starts_with sid (conn @ '':'') \<longrightarrow> dget (hb_delivery_tasks b) sid \<noteq> Some k) \<longrightarrow>
       hb_tasks b' ! k = hb_tasks b ! k) \<and>
    (\<forall>d. d \<noteq> conn \<longrightarrow> rg_get_agent_by_conn d (hb_registry b') = rg_get_agent_by_conn d (hb_registry b) \<and>
       rg_get_websocket d (hb_registry b') = rg_get_websocket d (hb_registry b) \<and>
       tracked (hb_events b') d = tracked (hb_events b) d) \<and>
    (\<forall>sid. sid \<notin> tracked (hb_events b) conn \<longrightarrow>
       es_get_subscription sid (em_stream (hb_events b')) = es_get_subscription sid (em_stream (hb_events b))) \<and>
    hb_sessions b' = hb_sessions b \<and> hb_sent b' = hb_sent b"
proof -
  note inv = assms(1)
  note rg = bus_inv_parts(4) [OF inv]
  have ws: "rg_get_websocket d (snd (rg_unregister conn (hb_registry b))) = (if d = conn then None else rg_get_websocket d (hb_registry b))" for d
  proof -
    have "din conn (rg_connections (hb_registry b)) = din conn (rg_agents_by_conn (hb_registry b))"
      using rg by (simp add: rg_inv_def)
    then have "dget (rg_agents_by_conn (hb_registry b)) conn = None \<Longrightarrow> dget (rg_connections (hb_registry b)) conn = None"
      by (auto simp: din_def)
    then show ?thesis by (auto simp: rg_unregister_def rg_get_websocket_def rg_remove_agent_def Let_def split: option.split)
  qed
  have subs: "es_get_subscription sid (em_stream (hb_events b')) =
      (if sid \<in> tracked (hb_events b) conn then None else es_get_subscription sid (em_stream (hb_events b)))" for sid
    by (simp add: assms(2) em_unsubscribe_connection_def es_get_subscription_def tracked_def unsubscribe_all_subs Let_def
        case_prod_beta)
  have kept: "tracked (hb_events b') d = (if d = conn then {} else tracked (hb_events b) d)" for d
    by (simp add: assms(2) em_unsubscribe_connection_def tracked_def dget_or_def Let_def case_prod_beta)
  let ?sids = "filter (\<lambda>sid. starts_with sid (conn @ '':'')) (dkeys (hb_delivery_tasks b))"
  have tasks: "hb_tasks b' = hb_tasks (fold cancel_task ?sids b)"
    by (simp add: assms(2) end_connection_tasks cancel_conn_tasks_def)
  have cancelled: "dl_cancelled (hb_tasks b' ! k)"
    if "starts_with sid (conn @ '':'')" and "dget (hb_delivery_tasks b) sid = Some k" for sid k
  proof -
    have "sid \<in> set ?sids" using that by (force simp: dkeys_def dest: map_of_SomeD)
    then show ?thesis unfolding tasks using inv that(2) by (intro cancel_all_cancels) (auto simp: bus_inv_def)
  qed
  have others: "hb_tasks b' ! k = hb_tasks b ! k"
    if "\<forall>sid. starts_with sid (conn @ '':'') \<longrightarrow> dget (hb_delivery_tasks b) sid \<noteq> Some k" for k
    unfolding tasks using that by (intro cancel_all_others) simp
  have len: "length (hb_tasks b') = length (hb_tasks b)" unfolding tasks by (rule cancel_all_length)
  have rest: "rg_get_agent_by_conn conn (hb_registry b') = None" "rg_get_websocket conn (hb_registry b') = None"
    "d \<noteq> conn \<Longrightarrow> rg_get_agent_by_conn d (hb_registry b') = rg_get_agent_by_conn d (hb_registry b)"
    "d \<noteq> conn \<Longrightarrow> rg_get_websocket d (hb_registry b') = rg_get_websocket d (hb_registry b)"
    "dget (hb_delivery_tasks b') sid = (if starts_with sid (conn @ '':'') then None else dget (hb_delivery_tasks b) sid)"
    "hb_sessions b' = hb_sessions b" "hb_sent b' = hb_sent b" for d sid
    by (simp_all add: assms(2) ws cancel_conn_tasks_keys)
  show ?thesis using cancelled others by (simp add: subs kept rest len)
qed

text \<open>Two connections that follow a session, one of which ends.\<close>

definition ex_subscribed :: bus where
  "ex_subscribed =
     (let e = ex_message MT_EVENT_SUBSCRIBE 2 None [(''session_id'', JStr (uuid_str 1))];
          b = snd (handle_event_subscribe (ex_ctx 5 100) 7 ''c'' e (w_bus (ex_ready ex_negotiating)))
      in snd (handle_event_subscribe (ex_ctx 5 101) 8 ''d'' e b))"

theorem disconnect_clean_witness:
  "let b' = end_connection ''c'' ex_subscribed in
     map dl_cancelled (hb_tasks ex_subscribed) = [False, False] \<and> dl_cancelled (hb_tasks b' ! 0) \<and>
     hb_tasks b' ! 1 = hb_tasks ex_subscribed ! 1 \<and> tracked (hb_events b') ''c'' = {} \<and> tracked (hb_events b') ''d'' \<noteq> {}"
proof -
  have "sess_inv (sm_put ex_negotiating 1 (hb_sessions (w_bus ex_world)))"
    by (rule sess_inv_put [OF bus_inv_parts(5) [OF reachable_inv [OF ex_world_reachable]]])
      (simp_all add: ex_negotiating_def new_session_def bus_session_ok_def)
  then have "bus_inv (w_bus (ex_ready ex_negotiating))"
    using bus_inv_parts(1) [OF reachable_inv [OF ex_world_reachable]] by (simp add: ex_ready_def)
  then have inv: "bus_inv ex_subscribed"
    unfolding ex_subscribed_def Let_def by (intro handle_event_subscribe_inv)
  have d: "hb_delivery_tasks ex_subscribed = [(''c:'' @ uuid_str 1, 0), (''d:'' @ uuid_str 1, 1)]"
    and t: "map dl_cancelled (hb_tasks ex_subscribed) = [False, False]"
    and s: "tracked (hb_events ex_subscribed) ''d'' \<noteq> {}"
    by code_simp+
  note f = disconnect_clean [OF inv refl, of "''c''"]
  let ?b' = "end_connection ''c'' ex_subscribed"
  have "dl_cancelled (hb_tasks ?b' ! 0)"
    using f d by (elim conjE) (drule spec [where x = "''c:'' @ uuid_str 1"], simp add: starts_with_def)
  moreover have "hb_tasks ?b' ! 1 = hb_tasks ex_subscribed ! 1"
    using f by (elim conjE) (simp add: d starts_with_def)
  moreover have "tracked (hb_events ?b') ''c'' = {}" "tracked (hb_events ?b') ''d'' \<noteq> {}"
    using f s by (elim conjE; simp)+
  ultimately show ?thesis by (simp add: t Let_def)
qed

end
