(* ===== verification/Handler_Messages.thy ===== *)
theory Handler_Messages
  imports Handler_Recipients
begin

text \<open>
  The types of the messages the bus sends: whatever arrives in whatever order, every message that has been
  sent comes from the bus and has the shape of its type.
\<close>

section \<open>Well-typed messages\<close>

text \<open>The keys of the payload of a message the bus writes, and whether it belongs to a session.\<close>

fun shape_of :: "message_type \<Rightarrow> (string list \<times> bool) option" where
  "shape_of MT_AGENT_REGISTERED = Some ([''agent_id'', ''conn_id'', ''status''], False)"
| "shape_of MT_AGENT_HEARTBEAT_ACK = Some ([''status''], False)"
| "shape_of MT_AGENT_LIST_RESULT = Some ([''agents''], False)"
| "shape_of MT_ERROR = Some ([''error_code'', ''error_message'', ''details''], False)"
| "shape_of MT_INTENT_DELIVER = Some ([''original_sender_id'', ''orchestration_role'', ''flow_step''], True)"
| "shape_of MT_INTENT_OFFERS = Some ([''offers''], True)"
| "shape_of MT_INTENT_OFFER_RECEIVED = Some ([''offer_id'', ''status''], True)"
| "shape_of MT_SESSION_CREATED =
     Some ([''requester_id'', ''provider_id'', ''chosen_offer_id'', ''expires_at'', ''flow_agents''], True)"
| "shape_of MT_SESSION_CLOSE = Some ([''reason'', ''closed_by''], True)"
| "shape_of MT_TRACE_RESULT = Some ([''events'', ''count'', ''truncated''], False)"
| "shape_of MT_EVENT_SUBSCRIBED = Some ([''session_id'', ''subscription_id''], True)"
| "shape_of _ = None"

definition well_typed :: "message_envelope \<Rightarrow> bool" where
  "well_typed m =
     (env_sender_id m = BUS_ID \<and>
      (env_message_type m \<in> provider_types \<or>
       (case shape_of (env_message_type m) of
          None \<Rightarrow> False
        | Some (keys, session) \<Rightarrow> (\<forall>k\<in>set keys. din k (env_payload m)) \<and> (session \<longrightarrow> env_ephemeral_interface_id m \<noteq> None))))"

lemma well_typed_forward: "env_sender_id e = BUS_ID \<Longrightarrow> env_message_type e \<in> provider_types \<Longrightarrow> well_typed e"
  by (simp add: well_typed_def)

lemma well_typed_created [simp]:
  "well_typed (create_error i t BUS_ID tenant corr code msg details)"
  "well_typed (create_agent_registered i t BUS_ID tenant corr2 g conn)"
  "well_typed (create_heartbeat_ack i t BUS_ID tenant corr2)"
  "well_typed (create_agent_list_result i t BUS_ID tenant corr2 ags)"
  "well_typed (create_intent_offers i t BUS_ID tenant corr2 session offs)"
  "well_typed (create_intent_offer_received i t BUS_ID tenant corr2 x session)"
  "well_typed (create_trace_result i t BUS_ID tenant eph events was_cut corr)"
  "well_typed (create_event_subscribed i t BUS_ID tenant corr2 session sid ps)"
  "well_typed (session_created_message c e x s)"
  "well_typed (close_message c e session r s)"
  "well_typed (deliver_envelope c k e session n)"
  "well_typed (backpressure_message c e session y)"
  by (simp_all add: well_typed_def create_error_def create_agent_registered_def create_heartbeat_ack_def
      create_agent_list_result_def create_intent_offers_def create_intent_offer_received_def create_trace_result_def
      create_event_subscribed_def session_created_message_def create_session_created_def close_message_def
      deliver_envelope_def create_intent_deliver_with_session_def deliver_payload_def backpressure_message_def
      create_exec_error_def new_envelope_def provider_types_def din_def Let_def dict_merge_def)

section \<open>Each handler\<close>

definition typed :: "sent \<Rightarrow> sent \<Rightarrow> bool" where
  "typed = grows (\<lambda>_. well_typed)"

lemma typed_refl [simp]: "typed l l"
  by (simp add: typed_def)

lemma typed_trans: "typed l l' \<Longrightarrow> typed l' l'' \<Longrightarrow> typed l l''"
  unfolding typed_def by (rule grows_trans)

lemma typed_send: "typed l (hb_sent b) \<Longrightarrow> well_typed e \<Longrightarrow> typed l (hb_sent (send_envelope c ws e b))"
  by (simp add: typed_def grows_send)

lemma typed_to_conn: "typed l (hb_sent b) \<Longrightarrow> well_typed e \<Longrightarrow> typed l (hb_sent (send_to_conn c conn e b))"
  unfolding typed_def by (rule grows_to_conn)

lemma typed_error: "typed l (hb_sent b) \<Longrightarrow> typed l (hb_sent (send_error c ws r t k x b))"
  by (simp add: send_error_def typed_send)

lemma typed_reply [simp]: "typed l (hb_sent b) \<Longrightarrow> typed l (hb_sent (snd (reply_error c ws e k x b)))"
  by (simp add: reply_error_def typed_error)

lemmas typed_intros = typed_send typed_to_conn typed_error typed_reply

lemma typed_ask: "typed l (hb_sent b) \<Longrightarrow> typed l (hb_sent (snd (ask_agents c e i k ns b)))"
proof (induction ns arbitrary: k b)
  case (Cons n ns)
  show ?case
    using Cons
    by (auto simp: route_to_agent_def typed_def grows_append Let_def case_prod_beta split: option.splits if_splits)
qed simp

lemma typed_finish: "typed l (hb_sent b) \<Longrightarrow> typed l (hb_sent (snd (finish_flow c ws fw xs b)))"
  by (simp add: finish_flow_def typed_send Let_def case_prod_beta)

lemma typed_broadcast: "typed (hb_sent b) (hb_sent (snd (handle_intent_broadcast c ws conn e b)))"
proof -
  have "typed (hb_sent b) (hb_sent (snd (execute_agent_flow c ws conn e f b)))" for f and b :: bus
    unfolding execute_agent_flow_def
    by (auto simp: Let_def case_prod_beta split: sum.split intro!: typed_ask)
  from this [where b = "b\<lparr>hb_router := r\<rparr>" for r] show ?thesis
    by (simp add: handle_intent_broadcast_def Let_def case_prod_beta split: option.split)
qed

lemma typed_plain:
  "typed (hb_sent b) (hb_sent (snd (handle_heartbeat c ws conn e b)))"
  "typed (hb_sent b) (hb_sent (snd (handle_list c ws conn e b)))"
  "typed (hb_sent b) (hb_sent (snd (handle_intent_offer c ws conn e b)))"
  "typed (hb_sent b) (hb_sent (snd (handle_intent_agree c ws conn e b)))"
  "typed (hb_sent b) (hb_sent (snd (handle_session_close c ws conn e b)))"
  "typed (hb_sent b) (hb_sent (snd (handle_exec_request c ws conn e b)))"
  "typed (hb_sent b) (hb_sent (snd (handle_trace_get c ws conn e b)))"
  "typed (hb_sent b) (hb_sent (snd (handle_event_subscribe c ws conn e b)))"
  "typed (hb_sent b) (hb_sent (snd (handle_event_unsubscribe c ws conn e b)))"
  "typed (hb_sent b) (hb_sent (snd (handle_emit_event c ws conn e b)))"
  by (simp_all add: handle_heartbeat_def handle_list_def handle_exec_request_def handle_trace_get_def handle_session_close_def
      handle_intent_offer_def handle_intent_agree_def
      handle_event_subscribe_def handle_event_unsubscribe_def handle_emit_event_def typed_intros Let_def case_prod_beta
      split: option.split sum.split prod.split bool.split)

lemma typed_register: "typed (hb_sent b) (hb_sent (snd (handle_register c ws e b)))"
  by (simp add: handle_register_def typed_intros Let_def case_prod_beta split: option.split)

text \<open>The messages of providers: forwarded only when they come from the bus itself.\<close>

lemma typed_queued: "hb_sent (snd (send_to_requester_queued c s e b)) = hb_sent b"
  by (simp add: send_to_requester_queued_def Let_def case_prod_beta split: option.split)

lemma typed_forward_stream: "hb_sent (snd (forward_stream c s e b)) = hb_sent b"
  using typed_queued [of c s e b] by (auto simp: forward_stream_def split: prod.split sum.split)

lemma typed_update [simp]:
  "hb_sent (update_execution c i x st kw s b) = hb_sent b" "hb_sent (update_if k c i x st kw s b) = hb_sent b"
  by (simp_all add: update_execution_def update_if_def case_prod_beta Let_def)

lemma typed_status:
  "well_typed e \<Longrightarrow> typed (hb_sent b) (hb_sent (snd (exec_status_handler st c ws conn e b)))"
  by (simp add: exec_status_handler_def typed_intros Let_def split: option.split prod.split)

lemma typed_result:
  assumes "env_sender_id e = BUS_ID"
  shows "typed (hb_sent b) (hb_sent (snd (handle_exec_result c ws conn e b)))"
proof -
  have "well_typed (forwarded_result e t i v x)" for t i v x
    using assms by (simp add: well_typed_def forwarded_result_def new_envelope_def provider_types_def)
  then have "typed (hb_sent b) (hb_sent (snd (finish_exec_result c ws e i s x known cap v b)))" for i s x known cap v
    by (simp add: finish_exec_result_def typed_intros Let_def split: option.split prod.split)
  then show ?thesis
    by (simp add: handle_exec_result_def typed_intros Let_def split: option.split sum.split prod.split)
qed

lemma typed_streams:
  "typed (hb_sent b) (hb_sent (snd (handle_stream_start c ws conn e b)))"
  "typed (hb_sent b) (hb_sent (snd (handle_stream_chunk c ws conn e b)))"
  "typed (hb_sent b) (hb_sent (snd (handle_stream_end c ws conn e b)))"
proof -
  show "typed (hb_sent b) (hb_sent (snd (handle_stream_start c ws conn e b)))"
    "typed (hb_sent b) (hb_sent (snd (handle_stream_end c ws conn e b)))"
    by (simp_all add: handle_stream_start_def handle_stream_end_def typed_forward_stream Let_def
        split: option.split prod.split)
  have "hb_sent b' = hb_sent b" if "send_to_requester_queued c s e (add_trace t b) = (r, b')" for s t r b'
    using typed_queued [of c s e "add_trace t b"] that by simp
  then show "typed (hb_sent b) (hb_sent (snd (handle_stream_chunk c ws conn e b)))"
    by (simp add: handle_stream_chunk_def typed_intros Let_def split: option.split prod.split sum.split out_error.split)
qed

lemma typed_provider:
  assumes "env_sender_id e = BUS_ID" and "env_message_type e \<in> provider_types"
  shows "typed (hb_sent b) (hb_sent (snd (handle_message c ws conn e b)))"
proof -
  have e: "well_typed e" using assms by (rule well_typed_forward)
  have "typed (hb_sent b) (hb_sent (snd (handle_exec_partial_failure c ws conn e b)))"
    using e by (simp add: handle_exec_partial_failure_def typed_intros split: option.split sum.split prod.split)
  then show ?thesis
    using assms(2) typed_status [OF e] typed_result [OF assms(1)] typed_streams
    by (auto simp: provider_types_def handle_message_def handle_exec_accepted_def handle_exec_progress_def
        handle_exec_error_from_provider_def)
qed

lemma typed_message:
  assumes inv: "bus_inv b"
  shows "typed (hb_sent b) (hb_sent (snd (handle_message c ws conn e b)))"
proof (cases "env_message_type e \<in> provider_types")
  case True
  then show ?thesis
    using typed_provider [of e b c ws conn] provider_silent [OF inv _ True, of c ws conn]
    by (cases "env_sender_id e = BUS_ID") auto
next
  case False
  then show ?thesis
    by (cases "env_message_type e")
      (simp_all add: provider_types_def handle_message_def typed_plain typed_broadcast)
qed

lemma typed_after: "typed l (hb_sent (snd res)) \<Longrightarrow> typed l (hb_sent (snd (after_handler conn res)))"
  by (auto simp: after_handler_def split: prod.split outcome.split)

lemma typed_receive: "bus_inv b \<Longrightarrow> typed (hb_sent b) (hb_sent (snd (receive c ws m ph b)))"
proof (induction c ws m ph b rule: receive.induct)
  case (1 c ws e b)
  show ?case using typed_register [of b c ws e] by (auto simp: shut_def typed_intros split: option.split prod.split)
next
  case (4 c ws e conn b)
  then show ?case by (simp add: typed_after typed_message)
qed (simp_all add: send_invalid_def typed_intros)

lemma typed_poll: "typed (hb_sent b) (hb_sent (snd (poll c ws ph b)))"
proof (induction c ws ph b rule: poll.induct)
  case (1 c ws conn fw b)
  have "typed (hb_sent b) (hb_sent (snd (poll_flow c ws fw b)))"
    by (simp add: poll_flow_cases typed_finish)
  then show ?case by (simp add: typed_after)
qed simp_all

section \<open>All messages\<close>

lemma typed_step: "world_step w w' \<Longrightarrow> bus_inv (w_bus w) \<Longrightarrow> typed (hb_sent (w_bus w)) (hb_sent (w_bus w'))"
  by (induction rule: world_step.induct)
    (simp_all add: w_conn_def typed_receive typed_poll deliver_inv(2) case_prod_beta Let_def)

lemma typed_run: "reachable w \<Longrightarrow> typed [] (hb_sent (w_bus w))"
proof (induction rule: reachable.induct)
  case (step w w')
  then show ?case using typed_step [OF step(2) reachable_inv [OF step(1)]] typed_trans by blast
qed (simp add: world_init_def bus_init_def)

text \<open>C11: every message the bus has ever sent, whatever arrived in whatever order, names the bus as its sender, has a type
  the bus writes or forwards, and, if the bus wrote it, has the keys of that type in its payload and the id
  of a session where the type belongs to one.\<close>

theorem messages_well_typed:
  assumes "reachable w" and "(ws, m) \<in> set (hb_sent (w_bus w))"
  shows "well_typed m"
  using typed_run [OF assms(1)] assms(2) by (auto simp: typed_def grows_def)

text \<open>A connection registers; the bus answers.\<close>

definition ex_registered :: world where
  "ex_registered = w_conn 7 (receive (ex_ctx 5 100) 7 (Message (ex_message MT_AGENT_REGISTER 2 None [])) PNew (w_bus ex_world)) ex_world"

theorem messages_well_typed_witness:
  "\<exists>m. (7, m) \<in> set (hb_sent (w_bus ex_registered)) \<and> env_message_type m = MT_AGENT_REGISTERED \<and> well_typed m"
proof -
  have fresh: "fresh_ctx (ex_ctx 5 100) (w_bus ex_world)"
    by (simp add: fresh_ctx_def ex_world_def world_init_def bus_init_def sm_init_def)
  have "w_conns ex_world 7 = PNew" by (simp add: ex_world_def world_init_def)
  then have "world_step ex_world ex_registered"
    using world_step.receive [OF fresh, of 7 "Message (ex_message MT_AGENT_REGISTER 2 None [])"] by (simp add: ex_registered_def)
  then have r: "reachable ex_registered" by (rule reachable.step [OF ex_world_reachable])
  obtain conn where m: "hb_sent (w_bus ex_registered) = [(7, create_agent_registered 100 5 BUS_ID ''acme'' 90 2 conn)]"
    by (auto simp: ex_registered_def w_conn_def handle_register_def ex_ctx_def send_envelope_def strs_or_empty_def
        schemas_or_empty_def dict_or_empty_def dget_or_def Let_def case_prod_beta ex_world_def world_init_def bus_init_def)
  then have "well_typed (create_agent_registered 100 5 BUS_ID ''acme'' 90 2 conn)"
    using messages_well_typed [OF r, of 7] by simp
  moreover have "env_message_type (create_agent_registered 100 5 BUS_ID ''acme'' 90 2 conn) = MT_AGENT_REGISTERED"
    by (simp add: create_agent_registered_def new_envelope_def)
  ultimately show ?thesis using m by (intro exI [of _ "create_agent_registered 100 5 BUS_ID ''acme'' 90 2 conn"]) simp
qed

end
