(* ===== verification/Handler_Life.thy ===== *)
theory Handler_Life
  imports Handler_Messages
begin

text \<open>
  The life of a session on the bus: every handler changes the sessions only by steps of the session manager, the two
  writes in place of \<open>src/transport/handler.py\<close> among them, so that what holds of the manager's sessions holds of the
  sessions of the bus whatever messages arrive. The lemmas follow the handlers.
\<close>

section \<open>Handlers\<close>

abbreviation sm_steps :: "session_manager \<Rightarrow> session_manager \<Rightarrow> bool" where
  "sm_steps \<equiv> sm_step\<^sup>*\<^sup>*"

lemma sm_steps_same: "m' = m \<Longrightarrow> sm_steps m m'"
  by simp

lemma update_execution_steps:
  assumes "sm_get_session i (hb_sessions b) = Some s"
  shows "sm_steps (hb_sessions b) (hb_sessions (update_execution c i x st kw s b))"
    "sm_steps (hb_sessions b) (hb_sessions (update_if known c i x st kw s b))"
proof -
  have "sm_step (hb_sessions b) (sm_put (snd (se_update_execution_status (cx_now c) (ctx_text c x) st kw s)) i (hb_sessions b))"
    using assms by (intro sm_step.update_in_place) (simp add: sm_get_session_def)
  then show "sm_steps (hb_sessions b) (hb_sessions (update_execution c i x st kw s b))"
    by (auto simp: update_execution_def case_prod_beta)
  then show "sm_steps (hb_sessions b) (hb_sessions (update_if known c i x st kw s b))"
    by (simp add: update_if_def)
qed

lemma execute_agent_flow_steps:
  assumes "fresh_ctx c b"
  shows "sm_steps (hb_sessions b) (hb_sessions (snd (execute_agent_flow c ws conn e f b)))"
proof -
  let ?m = "snd (sm_create_session (cx_ids c 0) (cx_now c) (env_tenant_id e) (env_sender_id e) conn (env_message_id e)
      (env_payload e) (flow_ids f) (Some (fl_entry_point f)) (hb_sessions b))"
  obtain s m where u: "sm_create_session (cx_ids c 0) (cx_now c) (env_tenant_id e) (env_sender_id e) conn (env_message_id e)
      (env_payload e) (flow_ids f) (Some (fl_entry_point f)) (hb_sessions b) = (s, m)" by fastforce
  have "sm_step (hb_sessions b) ?m"
    using assms by (intro sm_step.create) (simp add: fresh_ctx_def din_def)
  moreover obtain r b' where a: "ask_agents c e (se_ephemeral_interface_id s) 1 (fl_agents f) (b\<lparr>hb_sessions := m\<rparr>) = (r, b')"
    by fastforce
  moreover have "hb_sessions b' = m"
    using ask_agents_frame [of c e "se_ephemeral_interface_id s" 1 "fl_agents f" "b\<lparr>hb_sessions := m\<rparr>"] a by simp
  ultimately show ?thesis by (auto simp: execute_agent_flow_def u a split: sum.split)
qed

lemma finish_flow_steps: "sm_steps (hb_sessions b) (hb_sessions (snd (finish_flow c ws fw xs b)))"
  by (auto simp: finish_flow_def Let_def case_prod_beta intro: sm_step.set_flow)

lemma poll_flow_steps: "sm_steps (hb_sessions b) (hb_sessions (snd (poll_flow c ws fw b)))"
  by (simp add: poll_flow_def finish_flow_steps split: option.split)

lemma handle_intent_broadcast_steps:
  assumes "fresh_ctx c b"
  shows "sm_steps (hb_sessions b) (hb_sessions (snd (handle_intent_broadcast c ws conn e b)))"
proof -
  have "sm_steps (hb_sessions b) (hb_sessions (snd (execute_agent_flow c ws conn e f (b\<lparr>hb_router := R\<rparr>))))" for f R
    using execute_agent_flow_steps [of c "b\<lparr>hb_router := R\<rparr>" ws conn e f] assms by (simp add: fresh_ctx_def)
  then show ?thesis by (simp add: handle_intent_broadcast_def Let_def case_prod_beta split: option.split)
qed

lemma handle_intent_offer_steps: "sm_steps (hb_sessions b) (hb_sessions (snd (handle_intent_offer c ws conn e b)))"
proof -
  have "sm_add_offer f now i a cn sc v rq ac x md (hb_sessions b) = (r, m) \<Longrightarrow> sm_steps (hb_sessions b) m"
    for f now i a cn sc v rq ac x md r m
    using sm_step.add_offer [of "hb_sessions b" f now i a cn sc v rq ac x md] by auto
  then show ?thesis
    by (simp add: handle_intent_offer_def Let_def split: option.split prod.split sum.split)
qed

lemma handle_intent_agree_steps: "sm_steps (hb_sessions b) (hb_sessions (snd (handle_intent_agree c ws conn e b)))"
proof -
  have "sm_steps (hb_sessions b) (sm_put (activated (cx_now c) (the (se_aggregated_offer_id s)) s) i (hb_sessions b))"
    if got: "sm_get_session i (hb_sessions b) = Some s" and agg: "map_option JStr (se_aggregated_offer_id s) = Some v" for i s v
  proof -
    obtain x where x: "se_aggregated_offer_id s = Some x" using agg by auto
    show ?thesis
      using sm_step.agree_in_place [where m = "hb_sessions b" and s = s and x = x and now = "cx_now c" and p = BUS_ID and
          cn = "''bus-flow-executor''"] got x
      by (auto simp: activated_def sm_get_session_def)
  qed
  then show ?thesis by (simp add: handle_intent_agree_def Let_def split: option.split)
qed

lemma handle_session_close_steps: "sm_steps (hb_sessions b) (hb_sessions (snd (handle_session_close c ws conn e b)))"
proof -
  have "sm_close_session now i (hb_sessions b) = (r, m) \<Longrightarrow> sm_steps (hb_sessions b) m" for now i r m
    using sm_step.close [of "hb_sessions b" now i] by auto
  then show ?thesis
    by (simp add: handle_session_close_def Let_def split: option.split prod.split)
qed

lemma exec_status_handler_steps: "sm_steps (hb_sessions b) (hb_sessions (snd (exec_status_handler st c ws conn e b)))"
  by (auto simp: exec_status_handler_def Let_def update_execution_steps dest!: provider_session_get split: option.split)

lemma handle_exec_result_steps: "sm_steps (hb_sessions b) (hb_sessions (snd (handle_exec_result c ws conn e b)))"
proof -
  have "sm_steps (hb_sessions b) (hb_sessions (snd (finish_exec_result c ws e i s x known cap v b)))"
    if "sm_get_session i (hb_sessions b) = Some s" for i s x known cap v
    using that by (simp add: finish_exec_result_def Let_def update_execution_steps split: option.split)
  then show ?thesis
    by (auto simp: handle_exec_result_def Let_def update_execution_steps dest!: checked_provider_session_get split: sum.split)
qed

lemma stream_steps:
  "sm_steps (hb_sessions b) (hb_sessions (snd (handle_stream_start c ws conn e b)))"
  "sm_steps (hb_sessions b) (hb_sessions (snd (handle_stream_chunk c ws conn e b)))"
  "sm_steps (hb_sessions b) (hb_sessions (snd (handle_stream_end c ws conn e b)))"
proof -
  show "sm_steps (hb_sessions b) (hb_sessions (snd (handle_stream_start c ws conn e b)))"
    by (simp add: handle_stream_start_def Let_def forward_stream_sessions split: option.split)
  show "sm_steps (hb_sessions b) (hb_sessions (snd (handle_stream_chunk c ws conn e b)))"
    by (auto simp: handle_stream_chunk_def Let_def dest!: send_queued_sessions split: option.split prod.split sum.split out_error.split)
  have "sm_steps (hb_sessions b) (hb_sessions (update_execution c i x st kw s (add_trace t b)))"
    if "provider_session c e b = Some (i, s)" for i x st kw s t
    using update_execution_steps(1) [of i "add_trace t b" s] provider_session_get [OF that] by simp
  then show "sm_steps (hb_sessions b) (hb_sessions (snd (handle_stream_end c ws conn e b)))"
    by (simp add: handle_stream_end_def Let_def forward_stream_sessions split: option.split)
qed

lemma handle_message_steps:
  assumes "fresh_ctx c b"
  shows "sm_steps (hb_sessions b) (hb_sessions (snd (handle_message c ws conn e b)))"
  by (cases "env_message_type e")
    (simp_all add: handle_message_def other_sessions handle_intent_broadcast_steps [OF assms] handle_intent_offer_steps
      handle_intent_agree_steps handle_session_close_steps handle_exec_accepted_def handle_exec_progress_def
      handle_exec_error_from_provider_def exec_status_handler_steps handle_exec_result_steps stream_steps)

section \<open>Steps of the bus\<close>

lemma receive_steps:
  assumes "fresh_ctx c b"
  shows "sm_steps (hb_sessions b) (hb_sessions (snd (receive c ws m ph b)))"
proof (cases "(c, ws, m, ph, b)" rule: receive.cases)
  case (1 c' ws' e b')
  have "hb_sessions (snd (handle_register c ws e b)) = hb_sessions b" by (rule other_sessions)
  then show ?thesis using 1 by (auto simp: shut_def split: prod.splits option.splits)
next
  case (4 c' ws' e conn b')
  then show ?thesis using handle_message_steps [OF assms, of ws conn e] by auto
qed (simp_all add: send_invalid_def)

lemma poll_steps: "sm_steps (hb_sessions b) (hb_sessions (snd (poll c ws ph b)))"
  by (cases ph) (simp_all add: poll_flow_steps)

lemma world_step_steps: "world_step w w' \<Longrightarrow> sm_steps (hb_sessions (w_bus w)) (hb_sessions (w_bus w'))"
proof (induction rule: world_step.induct)
  case (receive c w ws m)
  then show ?case by (simp add: w_conn_def receive_steps)
next
  case (poll c w ws)
  then show ?case by (simp add: w_conn_def poll_steps)
next
  case (expire w now)
  then show ?case by (auto intro: sm_step.cleanup)
qed (simp_all add: deliver_sessions case_prod_beta)

lemma world_steps_steps: "world_step\<^sup>*\<^sup>* w w' \<Longrightarrow> sm_steps (hb_sessions (w_bus w)) (hb_sessions (w_bus w'))"
  by (induction rule: rtranclp_induct) (auto intro: rtranclp_trans dest: world_step_steps)

lemma reachable_steps: "reachable w \<Longrightarrow> world_step\<^sup>*\<^sup>* w w' \<Longrightarrow> reachable w'"
  by (rotate_tac, induction rule: rtranclp_induct) (auto intro: reachable.step)

lemma reachable_sessions: "reachable w \<Longrightarrow> sm_reachable (hb_sessions (w_bus w))"
proof (induction rule: reachable.induct)
  case (init timeout candidates neg_ttl ttl interval max_trace max_queue max_history max_subs)
  then show ?case by (simp add: world_init_def bus_init_def sm_reachable.init)
next
  case (step w w')
  then show ?case using sm_steps_reachable [OF world_step_steps] by blast
qed

text \<open>C25: whatever arrives at the bus, a session is never lost, and who asked for it, for what and when does not change. Its
  offers only grow, and only while it negotiates; once it does not negotiate it never does again; its provider, once it has
  one, is and stays the bus, and the times of its agreement and of its end, once set, are never unset.\<close>

theorem bus_session_life:
  assumes "reachable w" and "world_step\<^sup>*\<^sup>* w w'" and "sm_get_session i (hb_sessions (w_bus w)) = Some s"
  shows "\<exists>s'. sm_get_session i (hb_sessions (w_bus w')) = Some s' \<and>
    se_tenant_id s' = se_tenant_id s \<and> se_requester_agent_id s' = se_requester_agent_id s \<and>
    se_requester_conn_id s' = se_requester_conn_id s \<and> se_intent_message_id s' = se_intent_message_id s \<and>
    se_intent s' = se_intent s \<and> se_created_at s' = se_created_at s \<and>
    (\<exists>later. se_offers s' = se_offers s @ later \<and> (later \<noteq> [] \<longrightarrow> se_status s = SESS_NEGOTIATING)) \<and>
    (se_status s \<noteq> SESS_NEGOTIATING \<longrightarrow> se_status s' \<noteq> SESS_NEGOTIATING) \<and>
    (\<forall>p. se_provider_agent_id s = Some p \<longrightarrow> p = BUS_ID \<and> se_provider_agent_id s' = Some BUS_ID) \<and>
    (se_activated_at s \<noteq> None \<longrightarrow> se_activated_at s' \<noteq> None) \<and> (se_closed_at s \<noteq> None \<longrightarrow> se_closed_at s' \<noteq> None)"
proof -
  obtain s' where s': "sm_get_session i (hb_sessions (w_bus w')) = Some s'" and ev: "evolves s s'"
    using sm_steps_evolve [OF world_steps_steps [OF assms(2)] assms(3)] by blast
  have "bus_session_ok s" "bus_session_ok s'"
    using sess_invD(2) [OF bus_inv_parts(5) [OF reachable_inv] assms(3)] assms(1)
      sess_invD(2) [OF bus_inv_parts(5) [OF reachable_inv] s'] reachable_steps [OF assms(1,2)] by simp_all
  then have "p = BUS_ID \<and> se_provider_agent_id s' = Some BUS_ID" if "se_provider_agent_id s = Some p" for p
    using that ev by (auto simp: bus_session_ok_def evolves_def)
  then show ?thesis using s' ev by (auto simp: evolves_def)
qed

text \<open>C26: the sessions of the bus are the session manager's: every step of the bus, whatever it receives, changes them by
  steps of the manager, and every reachable bus has a reachable manager. So in it an active session has its provider,
  its chosen offer and the time of its agreement, a negotiating one none of them, one that has ended the time of its end,
  all offers have scores between 0 and 1, and the index by intent leads to the session of that intent.\<close>

theorem bus_sessions_refine:
  assumes "reachable w"
  shows "sm_reachable (hb_sessions (w_bus w)) \<and>
    (\<forall>w'. world_step w w' \<longrightarrow> sm_step\<^sup>*\<^sup>* (hb_sessions (w_bus w)) (hb_sessions (w_bus w'))) \<and>
    (\<forall>i s. sm_get_session i (hb_sessions (w_bus w)) = Some s \<longrightarrow> se_ephemeral_interface_id s = i \<and> agreement_ok s) \<and>
    (\<forall>t. dget (sm_sessions_by_intent (hb_sessions (w_bus w))) t \<noteq> None \<longrightarrow>
       (\<exists>s. sm_get_session_by_intent t (hb_sessions (w_bus w)) = Some s \<and> se_intent_message_id s = t))"
proof -
  have r: "sm_reachable (hb_sessions (w_bus w))" using assms by (rule reachable_sessions)
  show ?thesis
    using r world_step_steps sm_invD(1,2) [OF sm_reachable_inv [OF r]] sm_intent_index [OF r]
    unfolding sm_get_session_def by blast
qed

section \<open>A session on the bus\<close>

text \<open>A message arrives on a socket, at a time and with a fresh id.\<close>

definition ex_receive :: "datetime \<Rightarrow> uuid \<Rightarrow> websocket \<Rightarrow> message_envelope \<Rightarrow> world \<Rightarrow> world" where
  "ex_receive now fresh ws e w =
     (let c = (ex_ctx now fresh)\<lparr>cx_outside := ex_outside [] (Some (ex_flow [ex_node (uuid_str 5) []]))\<rparr>
      in w_conn ws (receive c ws (Message e) (w_conns w ws) (w_bus w)) w)"

text \<open>Two agents register, one asks, the other one offers, the first one ends the session.\<close>

definition ex_two_agents :: world where
  "ex_two_agents = ex_receive 6 100 8 (ex_message MT_AGENT_REGISTER 5 None [])
     (ex_receive 5 100 7 (ex_message MT_AGENT_REGISTER 2 None []) ex_world)"

definition ex_asked :: world where
  "ex_asked = ex_receive 7 101 7 (ex_message MT_INTENT_BROADCAST 2 None [(''intent'', JStr ''report'')]) ex_two_agents"

definition ex_answered :: world where
  "ex_answered = ex_receive 8 102 8 (ex_message MT_INTENT_OFFER 5 (Some 101) [(''score'', JFloat (1 / 2))]) ex_asked"

lemma ex_receive_step:
  assumes "sm_get_session fresh (hb_sessions (w_bus w)) = None"
  shows "world_step w (ex_receive now fresh ws e w)"
  unfolding ex_receive_def Let_def
  by (rule world_step.receive) (use assms in \<open>simp add: fresh_ctx_def ex_ctx_def sm_get_session_def\<close>)

lemma ex_two_agents_reachable: "reachable ex_two_agents"
proof -
  have 1: "sm_get_session 100 (hb_sessions (w_bus ex_world)) = None" by code_simp
  have 2: "sm_get_session 100 (hb_sessions (w_bus (ex_receive 5 100 7 (ex_message MT_AGENT_REGISTER 2 None []) ex_world))) = None"
    by code_simp
  show ?thesis unfolding ex_two_agents_def
    by (rule reachable.step [OF reachable.step [OF ex_world_reachable ex_receive_step [OF 1]] ex_receive_step [OF 2]])
qed

lemma ex_asked_reachable: "reachable ex_asked"
proof -
  have "sm_get_session 101 (hb_sessions (w_bus ex_two_agents)) = None" by code_simp
  then show ?thesis unfolding ex_asked_def by (intro reachable.step [OF ex_two_agents_reachable] ex_receive_step)
qed

text \<open>The broadcast goes to the other agent, as a request for an offer.\<close>

theorem recipients_witness:
  "let c = (ex_ctx 7 101)\<lparr>cx_outside := ex_outside [] (Some (ex_flow [ex_node (uuid_str 5) []]))\<rparr>;
       e = ex_message MT_INTENT_BROADCAST 2 None [(''intent'', JStr ''report'')]; b = w_bus ex_two_agents;
       b' = snd (handle_message c 7 ''c'' e b)
   in \<exists>m. hb_sent b' = hb_sent b @ [(8, m)] \<and> (asked c e b 8 m \<or> notified e b 8 m)"
proof -
  let ?c = "(ex_ctx 7 101)\<lparr>cx_outside := ex_outside [] (Some (ex_flow [ex_node (uuid_str 5) []]))\<rparr>"
  let ?e = "ex_message MT_INTENT_BROADCAST 2 None [(''intent'', JStr ''report'')]"
  let ?b = "w_bus ex_two_agents"
  let ?b' = "snd (handle_message ?c 7 ''c'' ?e ?b)"
  have "env_sender_id ?e \<noteq> BUS_ID" by (simp add: BUS_ID_def)
  from recipients [OF ex_two_agents_reachable this, of 7 ?c "''c''"]
  obtain new where new: "hb_sent ?b' = hb_sent ?b @ new"
    "\<forall>x\<in>set new. fst x = 7 \<or> asked ?c ?e ?b (fst x) (snd x) \<or> notified ?e ?b (fst x) (snd x)"
    unfolding told_def grows_def by blast
  have "map fst (drop (length (hb_sent ?b)) (hb_sent ?b')) = [8]" by code_simp
  then have "map fst new = [8]" by (simp add: new(1))
  then obtain m where "new = [(8, m)]" by auto
  with new show ?thesis by (simp add: Let_def)
qed

theorem bus_session_life_witness:
  "\<exists>s s'. sm_get_session 101 (hb_sessions (w_bus ex_asked)) = Some s \<and> se_status s = SESS_NEGOTIATING \<and>
     sm_get_session 101 (hb_sessions (w_bus ex_answered)) = Some s' \<and> length (se_offers s') = 1 \<and>
     se_requester_agent_id s' = se_requester_agent_id s"
proof -
  have f: "sm_get_session 102 (hb_sessions (w_bus ex_asked)) = None" by code_simp
  have s: "map_option se_status (sm_get_session 101 (hb_sessions (w_bus ex_asked))) = Some SESS_NEGOTIATING" by code_simp
  have l: "map_option (\<lambda>s. length (se_offers s)) (sm_get_session 101 (hb_sessions (w_bus ex_answered))) = Some 1" by code_simp
  obtain s where s: "sm_get_session 101 (hb_sessions (w_bus ex_asked)) = Some s" "se_status s = SESS_NEGOTIATING"
    using s by auto
  have "world_step\<^sup>*\<^sup>* ex_asked ex_answered" unfolding ex_answered_def by (rule r_into_rtranclp) (rule ex_receive_step [OF f])
  from bus_session_life [OF ex_asked_reachable this s(1)] obtain s' where
    s': "sm_get_session 101 (hb_sessions (w_bus ex_answered)) = Some s'" "se_requester_agent_id s' = se_requester_agent_id s"
    by blast
  then show ?thesis using s l by simp
qed

theorem bus_sessions_refine_witness:
  "\<exists>s. sm_get_session_by_intent 90 (hb_sessions (w_bus ex_asked)) = Some s \<and> agreement_ok s"
proof -
  have d: "dget (sm_sessions_by_intent (hb_sessions (w_bus ex_asked))) 90 = Some 101" by code_simp
  note f = bus_sessions_refine [OF ex_asked_reachable]
  from f d obtain s where s: "sm_get_session_by_intent 90 (hb_sessions (w_bus ex_asked)) = Some s" by fastforce
  then have "sm_get_session 101 (hb_sessions (w_bus ex_asked)) = Some s"
    using d by (simp add: sm_get_session_by_intent_def sm_get_session_def)
  then show ?thesis using f s by blast
qed

end
