(* ===== verification/Storage_Sql.thy ===== *)
theory Storage_Sql
  imports Storage_Memory Py_Parse
begin

text \<open>
  \<open>src/storage/models.py\<close> and \<open>src/storage/sqlalchemy.py\<close>: the columns and rows of the database and the
  adapters over it. The database is not part of the program: a table is the record \<open>table\<close> of what the
  adapters ask of it, and \<open>table_ok\<close> states what is documented of such a table. A method runs in one
  transaction, so it is one transition, and an exception leaves the state as it was.
\<close>

section \<open>Columns\<close>

datatype column = CNull | CText string | CJson json | CUuid uuid

text \<open>The texts of JSON come from the library; a value that cannot be read is an exception.\<close>

definition json_bind :: "(json \<Rightarrow> string) \<Rightarrow> bool \<Rightarrow> json \<Rightarrow> column" where
  "json_bind dumps postgres v = (if v = JNone then CNull else if postgres then CJson v else CText (dumps v))"

fun json_result :: "(string \<Rightarrow> json option) \<Rightarrow> bool \<Rightarrow> column \<Rightarrow> json option" where
  "json_result loads postgres CNull = Some JNone"
| "json_result loads postgres (CText t) = (if postgres then Some (JStr t) else loads t)"
| "json_result loads postgres (CJson v) = Some v"
| "json_result loads postgres (CUuid u) = None"

definition uuid_bind :: "bool \<Rightarrow> uuid option \<Rightarrow> column" where
  "uuid_bind postgres u = (case u of None \<Rightarrow> CNull | Some v \<Rightarrow> if postgres then CUuid v else CText (uuid_str v))"

fun uuid_result :: "column \<Rightarrow> uuid option option" where
  "uuid_result CNull = Some None"
| "uuid_result (CUuid u) = Some (Some u)"
| "uuid_result (CText t) = (case uuid_parse t of None \<Rightarrow> None | Some u \<Rightarrow> Some (Some u))"
| "uuid_result (CJson v) = None"

lemma columns_roundtrip:
  "(\<And>v. loads (dumps v) = Some v) \<Longrightarrow> json_result loads postgres (json_bind dumps postgres v) = Some v"
  "uuid_result (uuid_bind postgres u) = Some u"
  by (simp_all add: json_bind_def uuid_bind_def split: option.split)

section \<open>Rows\<close>

record session_model =
  sd_ephemeral_interface_id :: uuid
  sd_tenant_id :: string
  sd_requester_agent_id :: uuid
  sd_requester_conn_id :: string
  sd_provider_agent_id :: "uuid option"
  sd_provider_conn_id :: "string option"
  sd_intent_message_id :: uuid
  sd_intent_data :: payload
  sd_status :: string
  sd_offers :: "payload list"
  sd_chosen_offer_id :: "string option"
  sd_chosen_schema_id :: "string option"
  sd_chosen_view_id :: "string option"
  sd_created_at :: datetime
  sd_activated_at :: "datetime option"
  sd_closed_at :: "datetime option"
  sd_negotiation_ttl_seconds :: int
  sd_session_ttl_seconds :: int
  sd_metadata_json :: payload

record exec_model =
  xd_exec_id :: uuid
  xd_session_id :: uuid
  xd_correlation_id :: uuid
  xd_idempotency_key :: "string option"
  xd_status :: string
  xd_requester_conn_id :: string
  xd_action :: "string option"
  xd_result_view_id :: "string option"
  xd_result_valid :: "bool option"
  xd_policy_allowed :: bool
  xd_policy_reason :: "string option"
  xd_created_at :: datetime
  xd_accepted_at :: "datetime option"
  xd_completed_at :: "datetime option"
  xd_metadata_json :: payload

record trace_model =
  td_event_id :: uuid
  td_event_type :: string
  td_timestamp :: datetime
  td_tenant_id :: string
  td_ephemeral_interface_id :: "uuid option"
  td_exec_id :: "string option"
  td_agent_id :: "uuid option"
  td_conn_id :: "string option"
  td_data :: payload

record presence_model =
  pd_conn_id :: string
  pd_agent_id :: uuid
  pd_tenant_id :: string
  pd_status :: string
  pd_capabilities :: "string list"
  pd_tags :: "string list"
  pd_load :: rat
  pd_last_seen :: datetime
  pd_registered_at :: datetime
  pd_metadata_json :: payload

section \<open>Converters\<close>

definition session_model_to_record :: "session_model \<Rightarrow> session_record" where
  "session_model_to_record m =
     \<lparr>sr_ephemeral_interface_id = sd_ephemeral_interface_id m, sr_tenant_id = sd_tenant_id m,
      sr_requester_agent_id = sd_requester_agent_id m, sr_requester_conn_id = sd_requester_conn_id m,
      sr_provider_agent_id = sd_provider_agent_id m, sr_provider_conn_id = sd_provider_conn_id m,
      sr_intent_message_id = sd_intent_message_id m, sr_intent_data = sd_intent_data m,
      sr_status = sd_status m, sr_offers = sd_offers m, sr_chosen_offer_id = sd_chosen_offer_id m,
      sr_chosen_schema_id = sd_chosen_schema_id m, sr_chosen_view_id = sd_chosen_view_id m,
      sr_created_at = sd_created_at m, sr_activated_at = sd_activated_at m,
      sr_closed_at = sd_closed_at m, sr_negotiation_ttl_seconds = sd_negotiation_ttl_seconds m,
      sr_session_ttl_seconds = sd_session_ttl_seconds m, sr_metadata = sd_metadata_json m\<rparr>"

definition session_record_to_model :: "session_record \<Rightarrow> session_model" where
  "session_record_to_model m =
     \<lparr>sd_ephemeral_interface_id = sr_ephemeral_interface_id m, sd_tenant_id = sr_tenant_id m,
      sd_requester_agent_id = sr_requester_agent_id m, sd_requester_conn_id = sr_requester_conn_id m,
      sd_provider_agent_id = sr_provider_agent_id m, sd_provider_conn_id = sr_provider_conn_id m,
      sd_intent_message_id = sr_intent_message_id m, sd_intent_data = sr_intent_data m,
      sd_status = sr_status m, sd_offers = sr_offers m, sd_chosen_offer_id = sr_chosen_offer_id m,
      sd_chosen_schema_id = sr_chosen_schema_id m, sd_chosen_view_id = sr_chosen_view_id m,
      sd_created_at = sr_created_at m, sd_activated_at = sr_activated_at m,
      sd_closed_at = sr_closed_at m, sd_negotiation_ttl_seconds = sr_negotiation_ttl_seconds m,
      sd_session_ttl_seconds = sr_session_ttl_seconds m, sd_metadata_json = sr_metadata m\<rparr>"

definition exec_model_to_record :: "exec_model \<Rightarrow> exec_record" where
  "exec_model_to_record m =
     \<lparr>xr_exec_id = xd_exec_id m, xr_session_id = xd_session_id m,
      xr_correlation_id = xd_correlation_id m, xr_idempotency_key = xd_idempotency_key m,
      xr_status = xd_status m, xr_requester_conn_id = xd_requester_conn_id m, xr_action = xd_action m,
      xr_result_view_id = xd_result_view_id m, xr_result_valid = xd_result_valid m,
      xr_policy_allowed = xd_policy_allowed m, xr_policy_reason = xd_policy_reason m,
      xr_created_at = xd_created_at m, xr_accepted_at = xd_accepted_at m,
      xr_completed_at = xd_completed_at m, xr_metadata = xd_metadata_json m\<rparr>"

definition exec_record_to_model :: "exec_record \<Rightarrow> exec_model" where
  "exec_record_to_model m =
     \<lparr>xd_exec_id = xr_exec_id m, xd_session_id = xr_session_id m,
      xd_correlation_id = xr_correlation_id m, xd_idempotency_key = xr_idempotency_key m,
      xd_status = xr_status m, xd_requester_conn_id = xr_requester_conn_id m, xd_action = xr_action m,
      xd_result_view_id = xr_result_view_id m, xd_result_valid = xr_result_valid m,
      xd_policy_allowed = xr_policy_allowed m, xd_policy_reason = xr_policy_reason m,
      xd_created_at = xr_created_at m, xd_accepted_at = xr_accepted_at m,
      xd_completed_at = xr_completed_at m, xd_metadata_json = xr_metadata m\<rparr>"

definition trace_model_to_record :: "trace_model \<Rightarrow> trace_record" where
  "trace_model_to_record m =
     \<lparr>tc_event_id = td_event_id m, tc_event_type = td_event_type m, tc_timestamp = td_timestamp m,
      tc_tenant_id = td_tenant_id m, tc_ephemeral_interface_id = td_ephemeral_interface_id m,
      tc_exec_id = td_exec_id m, tc_agent_id = td_agent_id m, tc_conn_id = td_conn_id m,
      tc_data = td_data m\<rparr>"

definition trace_record_to_model :: "trace_record \<Rightarrow> trace_model" where
  "trace_record_to_model m =
     \<lparr>td_event_id = tc_event_id m, td_event_type = tc_event_type m, td_timestamp = tc_timestamp m,
      td_tenant_id = tc_tenant_id m, td_ephemeral_interface_id = tc_ephemeral_interface_id m,
      td_exec_id = tc_exec_id m, td_agent_id = tc_agent_id m, td_conn_id = tc_conn_id m,
      td_data = tc_data m\<rparr>"

definition presence_model_to_record :: "presence_model \<Rightarrow> presence_record" where
  "presence_model_to_record m =
     \<lparr>pz_agent_id = pd_agent_id m, pz_tenant_id = pd_tenant_id m, pz_conn_id = pd_conn_id m,
      pz_status = pd_status m, pz_capabilities = pd_capabilities m, pz_tags = pd_tags m,
      pz_load = pd_load m, pz_last_seen = pd_last_seen m, pz_registered_at = pd_registered_at m,
      pz_metadata = pd_metadata_json m\<rparr>"

definition presence_record_to_model :: "presence_record \<Rightarrow> presence_model" where
  "presence_record_to_model m =
     \<lparr>pd_conn_id = pz_conn_id m, pd_agent_id = pz_agent_id m, pd_tenant_id = pz_tenant_id m,
      pd_status = pz_status m, pd_capabilities = pz_capabilities m, pd_tags = pz_tags m,
      pd_load = pz_load m, pd_last_seen = pz_last_seen m, pd_registered_at = pz_registered_at m,
      pd_metadata_json = pz_metadata m\<rparr>"

lemma converters [simp]:
  "session_model_to_record (session_record_to_model r) = r" "session_record_to_model (session_model_to_record m) = m"
  "exec_model_to_record (exec_record_to_model x) = x" "exec_record_to_model (exec_model_to_record n) = n"
  "trace_model_to_record (trace_record_to_model e) = e" "trace_record_to_model (trace_model_to_record d) = d"
  "presence_model_to_record (presence_record_to_model p) = p" "presence_record_to_model (presence_model_to_record q) = q"
  by (simp_all add: session_model_to_record_def session_record_to_model_def exec_model_to_record_def exec_record_to_model_def
      trace_model_to_record_def trace_record_to_model_def presence_model_to_record_def presence_record_to_model_def)

section \<open>A table\<close>

text \<open>
  What the adapters ask of a table of rows \<open>'m\<close> with primary key \<open>'k\<close>: \<open>session.get\<close>; \<open>select\<close> with a
  condition, an optional \<open>order_by(t.desc())\<close> and an optional \<open>limit\<close>; the insertion of a row, None for
  an \<open>IntegrityError\<close>; the flush of a changed row; \<open>session.delete\<close>; and \<open>update().where().values()\<close>
  with its row count.
\<close>

record ('s, 'k, 'm) table =
  tb_get :: "'k \<Rightarrow> 's \<Rightarrow> 'm option"
  tb_select :: "('m \<Rightarrow> bool) \<Rightarrow> ('m \<Rightarrow> datetime) option \<Rightarrow> int option \<Rightarrow> 's \<Rightarrow> 'm list"
  tb_add :: "'m \<Rightarrow> 's \<Rightarrow> 's option"
  tb_set :: "'m \<Rightarrow> 's \<Rightarrow> 's"
  tb_del :: "'k \<Rightarrow> 's \<Rightarrow> 's"
  tb_update :: "('m \<Rightarrow> bool) \<Rightarrow> ('m \<Rightarrow> 'm) \<Rightarrow> 's \<Rightarrow> int \<times> 's"

datatype sql_error = IntegrityError | MultipleResultsFound | StorageError storage_error

fun scalar_one_or_none :: "'m list \<Rightarrow> sql_error + 'm option" where
  "scalar_one_or_none [] = Inr None"
| "scalar_one_or_none [m] = Inr (Some m)"
| "scalar_one_or_none (m # n # ms) = Inl MultipleResultsFound"

definition sq_add :: "('s, 'k, 'm) table \<Rightarrow> 'm \<Rightarrow> 'a \<Rightarrow> 's \<Rightarrow> (sql_error + 'a) \<times> 's" where
  "sq_add T m v s = (case tb_add T m s of None \<Rightarrow> (Inl IntegrityError, s) | Some s' \<Rightarrow> (Inr v, s'))"

section \<open>Sessions\<close>

definition sqs_create ::
  "('s, uuid, session_model) table \<Rightarrow> session_record \<Rightarrow> 's \<Rightarrow> (sql_error + session_record) \<times> 's" where
  "sqs_create T r s =
     (case tb_get T (sr_ephemeral_interface_id r) s of
        Some m \<Rightarrow> (Inr (session_model_to_record m), s)
      | None \<Rightarrow> sq_add T (session_record_to_model r) r s)"

definition sqs_get :: "('s, uuid, session_model) table \<Rightarrow> uuid \<Rightarrow> 's \<Rightarrow> session_record option" where
  "sqs_get T i s = map_option session_model_to_record (tb_get T i s)"

definition sqs_update ::
  "('s, uuid, session_model) table \<Rightarrow> session_record \<Rightarrow> 's \<Rightarrow> (sql_error + session_record) \<times> 's" where
  "sqs_update T r s =
     (case tb_get T (sr_ephemeral_interface_id r) s of
        None \<Rightarrow> (Inl (StorageError (NotFoundError
          (''Session '' @ uuid_str (sr_ephemeral_interface_id r) @ '' not found''))), s)
      | Some m \<Rightarrow> (Inr r, tb_set T (m\<lparr>sd_status := sr_status r, sd_provider_agent_id := sr_provider_agent_id r,
            sd_provider_conn_id := sr_provider_conn_id r, sd_offers := sr_offers r,
            sd_chosen_offer_id := sr_chosen_offer_id r, sd_chosen_schema_id := sr_chosen_schema_id r,
            sd_chosen_view_id := sr_chosen_view_id r, sd_activated_at := sr_activated_at r,
            sd_closed_at := sr_closed_at r, sd_metadata_json := sr_metadata r\<rparr>) s))"

text \<open>The common course of the methods that load a row, change it and answer with it.\<close>

definition sqs_modify ::
  "('s, uuid, session_model) table \<Rightarrow> uuid \<Rightarrow> (session_model \<Rightarrow> session_model) \<Rightarrow> 's \<Rightarrow> session_record option \<times> 's" where
  "sqs_modify T i f s =
     (case tb_get T i s of None \<Rightarrow> (None, s) | Some m \<Rightarrow> (Some (session_model_to_record (f m)), tb_set T (f m) s))"

definition sqs_add_offer ::
  "('s, uuid, session_model) table \<Rightarrow> uuid \<Rightarrow> payload \<Rightarrow> 's \<Rightarrow> session_record option \<times> 's" where
  "sqs_add_offer T i x s = sqs_modify T i (\<lambda>m. m\<lparr>sd_offers := sd_offers m @ [x]\<rparr>) s"

definition sqs_select_offer ::
  "('s, uuid, session_model) table \<Rightarrow> datetime \<Rightarrow> uuid \<Rightarrow> string \<Rightarrow> uuid \<Rightarrow> string \<Rightarrow> string option \<Rightarrow> string option \<Rightarrow>
     's \<Rightarrow> session_record option \<times> 's" where
  "sqs_select_offer T now i offer_id agent conn schema view s =
     sqs_modify T i (\<lambda>m. m\<lparr>sd_status := ''active'', sd_chosen_offer_id := Some offer_id,
       sd_provider_agent_id := Some agent, sd_provider_conn_id := Some conn,
       sd_chosen_schema_id := schema, sd_chosen_view_id := view, sd_activated_at := Some now\<rparr>) s"

definition sqs_close ::
  "('s, uuid, session_model) table \<Rightarrow> datetime \<Rightarrow> uuid \<Rightarrow> string option \<Rightarrow> 's \<Rightarrow> session_record option \<times> 's" where
  "sqs_close T now i reason s =
     sqs_modify T i (\<lambda>m.
       let m = m\<lparr>sd_status := ''closed'', sd_closed_at := Some now\<rparr> in
       if str_true reason then m\<lparr>sd_metadata_json := dset ''close_reason'' (JStr (the reason)) (sd_metadata_json m)\<rparr>
       else m) s"

definition sd_expires :: "session_model \<Rightarrow> datetime option" where
  "sd_expires m =
     (if sd_status m = ''negotiating'' then Some (sd_created_at m + td_sec (sd_negotiation_ttl_seconds m))
      else case sd_activated_at m of None \<Rightarrow> None | Some t \<Rightarrow> Some (t + td_sec (sd_session_ttl_seconds m)))"

fun sqs_expire_loop ::
  "('s, uuid, session_model) table \<Rightarrow> datetime \<Rightarrow> datetime \<Rightarrow> session_model list \<Rightarrow> int \<Rightarrow> 's \<Rightarrow> int \<times> 's" where
  "sqs_expire_loop T now cutoff [] n s = (n, s)"
| "sqs_expire_loop T now cutoff (m # ms) n s =
     (case sd_expires m of
        None \<Rightarrow> sqs_expire_loop T now cutoff ms n s
      | Some t \<Rightarrow>
          if t < cutoff then
            sqs_expire_loop T now cutoff ms (n + 1)
              (tb_set T (m\<lparr>sd_status := ''expired'', sd_closed_at := Some now\<rparr>) s)
          else sqs_expire_loop T now cutoff ms n s)"

definition sqs_expire_before ::
  "('s, uuid, session_model) table \<Rightarrow> datetime \<Rightarrow> datetime \<Rightarrow> 's \<Rightarrow> int \<times> 's" where
  "sqs_expire_before T now cutoff s =
     sqs_expire_loop T now cutoff
       (tb_select T (\<lambda>m. sd_status m \<in> {''negotiating'', ''active''}) None None s) 0 s"

definition sqs_list_by_tenant ::
  "('s, uuid, session_model) table \<Rightarrow> string \<Rightarrow> string option \<Rightarrow> int \<Rightarrow> 's \<Rightarrow> session_record list" where
  "sqs_list_by_tenant T tenant status limit s =
     map session_model_to_record
       (tb_select T (\<lambda>m. sd_tenant_id m = tenant \<and> str_filter status (sd_status m)) None (Some limit) s)"

section \<open>Trace\<close>

definition sqt_append ::
  "('s, uuid, trace_model) table \<Rightarrow> trace_record \<Rightarrow> 's \<Rightarrow> (sql_error + unit) \<times> 's" where
  "sqt_append T r s = sq_add T (trace_record_to_model r) () s"

definition sqt_tail ::
  "('s, uuid, trace_model) table \<Rightarrow> uuid option \<Rightarrow> string option \<Rightarrow> int \<Rightarrow> 's \<Rightarrow> trace_record list \<times> bool" where
  "sqt_tail T session exec limit s =
     (let events = tb_select T (\<lambda>e. (session \<noteq> None \<longrightarrow> td_ephemeral_interface_id e = session) \<and>
            (str_true exec \<longrightarrow> td_exec_id e = exec)) (Some td_timestamp) (Some (limit + 1)) s;
          truncated = limit < int (length events);
          events = rev (py_first limit events)
      in (map trace_model_to_record events, truncated))"

definition sqt_query ::
  "('s, uuid, trace_model) table \<Rightarrow> string option \<Rightarrow> uuid option \<Rightarrow> string option \<Rightarrow> string option \<Rightarrow>
     datetime option \<Rightarrow> datetime option \<Rightarrow> int \<Rightarrow> 's \<Rightarrow> trace_record list" where
  "sqt_query T tenant session exec ty since til limit s =
     map trace_model_to_record (rev (tb_select T (\<lambda>e. str_filter tenant (td_tenant_id e) \<and>
        (session \<noteq> None \<longrightarrow> td_ephemeral_interface_id e = session) \<and>
        (str_true exec \<longrightarrow> td_exec_id e = exec) \<and> str_filter ty (td_event_type e) \<and>
        (case since of None \<Rightarrow> True | Some a \<Rightarrow> a \<le> td_timestamp e) \<and>
        (case til of None \<Rightarrow> True | Some b \<Rightarrow> td_timestamp e \<le> b)) (Some td_timestamp) (Some limit) s))"

section \<open>Executions\<close>

definition sqe_by_key :: "('s, uuid, exec_model) table \<Rightarrow> string option \<Rightarrow> 's \<Rightarrow> sql_error + exec_model option" where
  "sqe_by_key T key s =
     (if str_true key then scalar_one_or_none (tb_select T (\<lambda>m. xd_idempotency_key m = key) None None s) else Inr None)"

definition sqe_put_if_absent ::
  "('s, uuid, exec_model) table \<Rightarrow> exec_record \<Rightarrow> 's \<Rightarrow> (sql_error + exec_record \<times> bool) \<times> 's" where
  "sqe_put_if_absent T r s =
     (case sqe_by_key T (xr_idempotency_key r) s of
        Inl e \<Rightarrow> (Inl e, s)
      | Inr (Some m) \<Rightarrow> (Inr (exec_model_to_record m, False), s)
      | Inr None \<Rightarrow>
          (case tb_get T (xr_exec_id r) s of
             Some m \<Rightarrow> (Inr (exec_model_to_record m, False), s)
           | None \<Rightarrow> sq_add T (exec_record_to_model r) (r, True) s))"

definition sqe_get ::
  "('s, uuid, exec_model) table \<Rightarrow> uuid option \<Rightarrow> string option \<Rightarrow> 's \<Rightarrow> sql_error + exec_record option" where
  "sqe_get T exec key s =
     (case (case exec of None \<Rightarrow> None | Some e \<Rightarrow> tb_get T e s) of
        Some m \<Rightarrow> Inr (Some (exec_model_to_record m))
      | None \<Rightarrow> (case sqe_by_key T key s of Inl e \<Rightarrow> Inl e | Inr m \<Rightarrow> Inr (map_option exec_model_to_record m)))"

definition sqe_set_status ::
  "('s, uuid, exec_model) table \<Rightarrow> uuid \<Rightarrow> string \<Rightarrow> exec_kwargs \<Rightarrow> 's \<Rightarrow> exec_record option \<times> 's" where
  "sqe_set_status T e status kw s =
     (case tb_get T e s of
        None \<Rightarrow> (None, s)
      | Some m \<Rightarrow>
          let m' = m\<lparr>xd_status := status,
                xd_accepted_at := given (kw_accepted_at kw) (xd_accepted_at m),
                xd_completed_at := given (kw_completed_at kw) (xd_completed_at m),
                xd_result_view_id := given (kw_result_view_id kw) (xd_result_view_id m),
                xd_result_valid := given (kw_result_valid kw) (xd_result_valid m)\<rparr>
          in (Some (exec_model_to_record m'), tb_set T m' s))"

definition sqe_list_by_session ::
  "('s, uuid, exec_model) table \<Rightarrow> uuid \<Rightarrow> string option \<Rightarrow> 's \<Rightarrow> exec_record list" where
  "sqe_list_by_session T session status s =
     map exec_model_to_record
       (tb_select T (\<lambda>m. xd_session_id m = session \<and> str_filter status (xd_status m)) None None s)"

section \<open>Presence\<close>

definition sqr_upsert_presence ::
  "('s, string, presence_model) table \<Rightarrow> presence_record \<Rightarrow> 's \<Rightarrow> (sql_error + presence_record) \<times> 's" where
  "sqr_upsert_presence T r s =
     (case scalar_one_or_none (tb_select T (\<lambda>m. pd_agent_id m = pz_agent_id r \<and> pd_conn_id m \<noteq> pz_conn_id r)
          None None s) of
        Inl e \<Rightarrow> (Inl e, s)
      | Inr old \<Rightarrow>
          let s' = (case old of None \<Rightarrow> s | Some m \<Rightarrow> tb_del T (pd_conn_id m) s) in
          (case tb_get T (pz_conn_id r) s' of
             Some m \<Rightarrow> (Inr r, tb_set T (m\<lparr>pd_status := pz_status r, pd_capabilities := pz_capabilities r,
                pd_tags := pz_tags r, pd_load := pz_load r, pd_last_seen := pz_last_seen r,
                pd_metadata_json := pz_metadata r\<rparr>) s')
           | None \<Rightarrow> (case tb_add T (presence_record_to_model r) s' of
                None \<Rightarrow> (Inl IntegrityError, s) | Some s'' \<Rightarrow> (Inr r, s''))))"

definition sqr_heartbeat ::
  "('s, string, presence_model) table \<Rightarrow> datetime \<Rightarrow> string \<Rightarrow> rat option \<Rightarrow> 's \<Rightarrow> bool \<times> 's" where
  "sqr_heartbeat T now conn load s =
     (case tb_get T conn s of
        None \<Rightarrow> (False, s)
      | Some m \<Rightarrow> (True, tb_set T (m\<lparr>pd_last_seen := now, pd_load := given load (pd_load m)\<rparr>) s))"

definition sqr_remove :: "('s, string, presence_model) table \<Rightarrow> string \<Rightarrow> 's \<Rightarrow> bool \<times> 's" where
  "sqr_remove T conn s = (case tb_get T conn s of None \<Rightarrow> (False, s) | Some m \<Rightarrow> (True, tb_del T conn s))"

definition sqr_list_by_tenant ::
  "('s, string, presence_model) table \<Rightarrow> string \<Rightarrow> string option \<Rightarrow> string option \<Rightarrow> string option \<Rightarrow> 's \<Rightarrow>
     presence_record list" where
  "sqr_list_by_tenant T tenant status capability tag s =
     map presence_model_to_record
       (filter (\<lambda>m. (str_true capability \<longrightarrow> the capability \<in> set (pd_capabilities m)) \<and>
            (str_true tag \<longrightarrow> the tag \<in> set (pd_tags m)))
          (tb_select T (\<lambda>m. pd_tenant_id m = tenant \<and> str_filter status (pd_status m)) None None s))"

definition sqr_expire_stale :: "('s, string, presence_model) table \<Rightarrow> datetime \<Rightarrow> rat \<Rightarrow> 's \<Rightarrow> int \<times> 's" where
  "sqr_expire_stale T now timeout s =
     (let cutoff = now - td_secf timeout in
      tb_update T (\<lambda>m. pd_status m = ''online'' \<and> pd_last_seen m < cutoff) (\<lambda>m. m\<lparr>pd_status := ''offline''\<rparr>) s)"

end
