(* ===== verification/Storage_Sql_Props.thy ===== *)
theory Storage_Sql_Props
  imports Storage_Sql
begin

text \<open>
  What the adapters of \<open>src/storage/sqlalchemy.py\<close> guarantee over any table with the documented laws:
  the session and execution adapters answer as the in-memory ones do, the tail of the trace is its newest
  part in order, and an agent is present in one row at most.
\<close>

section \<open>The laws of a table\<close>

text \<open>
  The rows that satisfy a condition, each once; \<open>ORDER BY\<close> sorts and \<open>LIMIT\<close> keeps the first rows. A row is
  refused when its primary key is taken or its unique column holds a value that another row holds.
\<close>

definition selects ::
  "('m \<Rightarrow> 'k) \<Rightarrow> ('s, 'k, 'm) table \<Rightarrow> ('m \<Rightarrow> bool) \<Rightarrow> ('m \<Rightarrow> datetime) option \<Rightarrow> 's \<Rightarrow> 'm list \<Rightarrow> bool" where
  "selects key T P by_time s ms =
     (distinct (map key ms) \<and> set ms = {m. (\<exists>k. tb_get T k s = Some m) \<and> P m} \<and>
      (\<forall>t. by_time = Some t \<longrightarrow> sorted_wrt (\<lambda>m n. t n \<le> t m) ms))"

definition clashes :: "('m \<Rightarrow> 'k) \<Rightarrow> ('m \<Rightarrow> 'u option) \<Rightarrow> ('s, 'k, 'm) table \<Rightarrow> 'm \<Rightarrow> 's \<Rightarrow> bool" where
  "clashes key uniq T m s =
     (tb_get T (key m) s \<noteq> None \<or> (\<exists>k n. tb_get T k s = Some n \<and> uniq n \<noteq> None \<and> uniq n = uniq m))"

definition rows_ok :: "('m \<Rightarrow> 'k) \<Rightarrow> ('m \<Rightarrow> 'u option) \<Rightarrow> ('s, 'k, 'm) table \<Rightarrow> bool" where
  "rows_ok key uniq T =
     ((\<forall>s k m. tb_get T k s = Some m \<longrightarrow> key m = k) \<and>
      (\<forall>s m. tb_add T m s = None \<longleftrightarrow> clashes key uniq T m s) \<and>
      (\<forall>s m s' k. tb_add T m s = Some s' \<longrightarrow> tb_get T k s' = (if k = key m then Some m else tb_get T k s)) \<and>
      (\<forall>s m n k. tb_get T (key m) s = Some n \<longrightarrow> uniq m = uniq n \<longrightarrow>
         tb_get T k (tb_set T m s) = (if k = key m then Some m else tb_get T k s)) \<and>
      (\<forall>s j k. tb_get T k (tb_del T j s) = (if k = j then None else tb_get T k s)))"

definition selects_ok :: "('m \<Rightarrow> 'k) \<Rightarrow> ('s, 'k, 'm) table \<Rightarrow> bool" where
  "selects_ok key T =
     ((\<forall>s P t. selects key T P t s (tb_select T P t None s)) \<and>
      (\<forall>s P t n. 0 \<le> n \<longrightarrow> (\<exists>ms. selects key T P t s ms \<and> tb_select T P t (Some n) s = take (nat n) ms)))"

definition updates_ok :: "('m \<Rightarrow> 'k) \<Rightarrow> ('m \<Rightarrow> 'u option) \<Rightarrow> ('s, 'k, 'm) table \<Rightarrow> bool" where
  "updates_ok key uniq T =
     (\<forall>s P f k. (\<forall>m. key (f m) = key m \<and> uniq (f m) = uniq m) \<longrightarrow>
         fst (tb_update T P f s) = int (length (tb_select T P None None s)) \<and>
         tb_get T k (snd (tb_update T P f s)) = map_option (\<lambda>m. if P m then f m else m) (tb_get T k s))"

definition table_ok :: "('m \<Rightarrow> 'k) \<Rightarrow> ('m \<Rightarrow> 'u option) \<Rightarrow> ('s, 'k, 'm) table \<Rightarrow> bool" where
  "table_ok key uniq T = (rows_ok key uniq T \<and> selects_ok key T \<and> updates_ok key uniq T)"

lemma tb_key: "table_ok key uniq T \<Longrightarrow> tb_get T k s = Some m \<Longrightarrow> key m = k"
  by (simp add: table_ok_def rows_ok_def)

lemma tb_add_None: "table_ok key uniq T \<Longrightarrow> tb_add T m s = None \<longleftrightarrow> clashes key uniq T m s"
  by (simp add: table_ok_def rows_ok_def)

lemma tb_add_Some:
  "table_ok key uniq T \<Longrightarrow> tb_add T m s = Some s' \<Longrightarrow> tb_get T k s' = (if k = key m then Some m else tb_get T k s)"
  by (simp add: table_ok_def rows_ok_def)

lemma tb_set_get:
  "table_ok key uniq T \<Longrightarrow> tb_get T (key m) s = Some n \<Longrightarrow> uniq m = uniq n \<Longrightarrow>
     tb_get T k (tb_set T m s) = (if k = key m then Some m else tb_get T k s)"
  by (simp add: table_ok_def rows_ok_def)

lemma tb_del_get: "table_ok key uniq T \<Longrightarrow> tb_get T k (tb_del T j s) = (if k = j then None else tb_get T k s)"
  by (simp add: table_ok_def rows_ok_def)

lemma tb_select_all: "table_ok key uniq T \<Longrightarrow> selects key T P t s (tb_select T P t None s)"
  by (simp add: table_ok_def selects_ok_def)

lemma tb_select_limit:
  "table_ok key uniq T \<Longrightarrow> 0 \<le> n \<Longrightarrow> \<exists>ms. selects key T P t s ms \<and> tb_select T P t (Some n) s = take (nat n) ms"
  by (simp add: table_ok_def selects_ok_def)

lemma tb_update_get:
  "table_ok key uniq T \<Longrightarrow> \<forall>m. key (f m) = key m \<and> uniq (f m) = uniq m \<Longrightarrow>
     fst (tb_update T P f s) = int (length (tb_select T P None None s)) \<and>
     tb_get T k (snd (tb_update T P f s)) = map_option (\<lambda>m. if P m then f m else m) (tb_get T k s)"
  by (simp add: table_ok_def updates_ok_def)

lemma in_select: "table_ok key uniq T \<Longrightarrow> m \<in> set (tb_select T P t None s) \<longleftrightarrow> tb_get T (key m) s = Some m \<and> P m"
  using tb_select_all [of key uniq T P t s] tb_key [of key uniq T] by (auto simp: selects_def)

text \<open>At most one row satisfies the condition: the result of \<open>scalar_one_or_none\<close>.\<close>

lemma scalar_one:
  assumes T: "table_ok key uniq T"
    and one: "\<And>j k m n. tb_get T j s = Some m \<Longrightarrow> P m \<Longrightarrow> tb_get T k s = Some n \<Longrightarrow> P n \<Longrightarrow> j = k"
  shows "\<exists>x. scalar_one_or_none (tb_select T P t None s) = Inr x \<and>
    (\<forall>m. x = Some m \<longleftrightarrow> tb_get T (key m) s = Some m \<and> P m)"
proof (cases "tb_select T P t None s" rule: scalar_one_or_none.cases)
  case 1
  then show ?thesis using in_select [OF T, of _ P t s] by simp
next
  case (2 m)
  then have "x = m \<longleftrightarrow> tb_get T (key x) s = Some x \<and> P x" for x using in_select [OF T, of x P t s] by simp
  then show ?thesis using 2 by (auto intro: sym)
next
  case (3 m n ms)
  then have "tb_get T (key m) s = Some m" "P m" "tb_get T (key n) s = Some n" "P n"
    using in_select [OF T, of _ P t s] by auto
  then have "key m = key n" by (rule one)
  then show ?thesis using tb_select_all [OF T, of P t s] 3 by (simp add: selects_def)
qed

section \<open>Sessions answer as the in-memory store\<close>

datatype session_op =
    CreateS session_record
  | UpdateS session_record
  | OfferS uuid payload
  | SelectS datetime uuid string uuid string "string option" "string option"
  | CloseS datetime uuid "string option"
  | ExpireS datetime datetime
  | GetS uuid

datatype session_answer = AnsRecord "sql_error + session_record" | AnsFound "session_record option" | AnsCount int

fun ss_step :: "session_op \<Rightarrow> session_store \<Rightarrow> session_answer \<times> session_store" where
  "ss_step (CreateS r) st = (AnsRecord (Inr (fst (ss_create r st))), snd (ss_create r st))"
| "ss_step (UpdateS r) st =
     (AnsRecord (map_sum StorageError id (fst (ss_update r st))), snd (ss_update r st))"
| "ss_step (OfferS i x) st = map_prod AnsFound id (ss_add_offer i x st)"
| "ss_step (SelectS now i k a c sc vw) st = map_prod AnsFound id (ss_select_offer now i k a c sc vw st)"
| "ss_step (CloseS now i reason) st = map_prod AnsFound id (ss_close now i reason st)"
| "ss_step (ExpireS now cutoff) st = map_prod AnsCount id (ss_expire_before now cutoff st)"
| "ss_step (GetS i) st = (AnsFound (ss_get i st), st)"

fun sqs_step :: "('s, uuid, session_model) table \<Rightarrow> session_op \<Rightarrow> 's \<Rightarrow> session_answer \<times> 's" where
  "sqs_step T (CreateS r) s = map_prod AnsRecord id (sqs_create T r s)"
| "sqs_step T (UpdateS r) s = map_prod AnsRecord id (sqs_update T r s)"
| "sqs_step T (OfferS i x) s = map_prod AnsFound id (sqs_add_offer T i x s)"
| "sqs_step T (SelectS now i k a c sc vw) s = map_prod AnsFound id (sqs_select_offer T now i k a c sc vw s)"
| "sqs_step T (CloseS now i reason) s = map_prod AnsFound id (sqs_close T now i reason s)"
| "sqs_step T (ExpireS now cutoff) s = map_prod AnsCount id (sqs_expire_before T now cutoff s)"
| "sqs_step T (GetS i) s = (AnsFound (sqs_get T i s), s)"

text \<open>Answers of a sequence of calls, and the condition that updates change only the columns an update writes.\<close>

fun answers :: "('p \<Rightarrow> 's \<Rightarrow> 'b \<times> 's) \<Rightarrow> 'p list \<Rightarrow> 's \<Rightarrow> 'b list \<times> 's" where
  "answers step [] s = ([], s)"
| "answers step (p # ps) s = (let (a, s') = step p s; (bs, s'') = answers step ps s' in (a # bs, s''))"

definition same_fixed :: "session_record \<Rightarrow> session_record \<Rightarrow> bool" where
  "same_fixed r q =
     (sr_tenant_id r = sr_tenant_id q \<and> sr_requester_agent_id r = sr_requester_agent_id q \<and>
      sr_requester_conn_id r = sr_requester_conn_id q \<and> sr_intent_message_id r = sr_intent_message_id q \<and>
      sr_intent_data r = sr_intent_data q \<and> sr_created_at r = sr_created_at q \<and>
      sr_negotiation_ttl_seconds r = sr_negotiation_ttl_seconds q \<and> sr_session_ttl_seconds r = sr_session_ttl_seconds q)"

fun keeps_fixed :: "session_op list \<Rightarrow> session_store \<Rightarrow> bool" where
  "keeps_fixed [] st = True"
| "keeps_fixed (p # ps) st =
     ((case p of UpdateS r \<Rightarrow>
         (case dget st (sr_ephemeral_interface_id r) of None \<Rightarrow> True | Some q \<Rightarrow> same_fixed r q) | _ \<Rightarrow> True) \<and>
      keeps_fixed ps (snd (ss_step p st)))"

definition no_unique :: "'m \<Rightarrow> unit option" where
  "no_unique m = None"

definition sess_sim :: "('s, uuid, session_model) table \<Rightarrow> 's \<Rightarrow> session_store \<Rightarrow> bool" where
  "sess_sim T s st = (dict_ok st \<and> (\<forall>i. tb_get T i s = map_option session_record_to_model (dget st i)))"

abbreviation sess_table :: "('s, uuid, session_model) table \<Rightarrow> bool" where
  "sess_table T \<equiv> table_ok sd_ephemeral_interface_id no_unique T"

lemma sd_key [simp]: "sd_ephemeral_interface_id (session_record_to_model r) = sr_ephemeral_interface_id r"
  by (simp add: session_record_to_model_def)

lemma sess_simD: "sess_sim T s st \<Longrightarrow> tb_get T i s = map_option session_record_to_model (dget st i)"
  by (simp add: sess_sim_def)

lemma sess_keyed:
  "sess_table T \<Longrightarrow> sess_sim T s st \<Longrightarrow> dget st i = Some r \<Longrightarrow> sr_ephemeral_interface_id r = i"
  using tb_key [of sd_ephemeral_interface_id no_unique T i s "session_record_to_model r"] by (simp add: sess_simD)

lemma sess_set:
  assumes T: "sess_table T" and sim: "sess_sim T s st" and old: "dget st i = Some r"
    and id: "sr_ephemeral_interface_id r' = i"
  shows "sess_sim T (tb_set T (session_record_to_model r') s) (dset i r' st)"
proof -
  have "tb_get T k (tb_set T (session_record_to_model r') s) =
      (if k = i then Some (session_record_to_model r') else tb_get T k s)" for k
    using tb_set_get [OF T, of "session_record_to_model r'" s "session_record_to_model r" k] old id
    by (simp add: sess_simD [OF sim] no_unique_def)
  then show ?thesis using sim by (simp add: sess_sim_def)
qed

lemma sess_modify:
  assumes T: "sess_table T" and sim: "sess_sim T s st"
    and f: "\<And>r. f (session_record_to_model r) = session_record_to_model (g r)"
    and id: "\<And>r. sr_ephemeral_interface_id (g r) = sr_ephemeral_interface_id r"
  shows "fst (sqs_modify T i f s) = fst (ss_modify i g st) \<and> sess_sim T (snd (sqs_modify T i f s)) (snd (ss_modify i g st))"
proof (cases "dget st i")
  case None
  then show ?thesis using sim by (simp add: sqs_modify_def ss_modify_def sess_simD [OF sim])
next
  case (Some r)
  then show ?thesis
    using sess_set [OF T sim Some, of "g r"] sess_keyed [OF T sim Some]
    by (simp add: sqs_modify_def ss_modify_def sess_simD [OF sim] f id)
qed

definition sd_hit :: "datetime \<Rightarrow> session_model \<Rightarrow> bool" where
  "sd_hit cutoff m = (case sd_expires m of None \<Rightarrow> False | Some t \<Rightarrow> t < cutoff)"

lemma sqs_expire_loop_spec:
  assumes T: "sess_table T"
  shows "distinct (map sd_ephemeral_interface_id ms) \<Longrightarrow>
    \<forall>m\<in>set ms. tb_get T (sd_ephemeral_interface_id m) s = Some m \<Longrightarrow>
    fst (sqs_expire_loop T now cutoff ms n s) = n + int (length (filter (sd_hit cutoff) ms)) \<and>
    (\<forall>k. tb_get T k (snd (sqs_expire_loop T now cutoff ms n s)) =
       map_option (\<lambda>m. if m \<in> set ms \<and> sd_hit cutoff m then m\<lparr>sd_status := ''expired'', sd_closed_at := Some now\<rparr> else m)
         (tb_get T k s))"
proof (induction ms arbitrary: n s)
  case Nil
  then show ?case by (simp add: option.map_ident)
next
  case (Cons m ms)
  let ?x = "m\<lparr>sd_status := ''expired'', sd_closed_at := Some now\<rparr>"
  have m: "tb_get T (sd_ephemeral_interface_id m) s = Some m" using Cons.prems by simp
  have dist: "distinct (map sd_ephemeral_interface_id ms)" using Cons.prems by simp
  have other: "tb_get T k s \<noteq> Some m" if "k \<noteq> sd_ephemeral_interface_id m" for k
    using that tb_key [OF T] by blast
  show ?case
  proof (cases "sd_hit cutoff m")
    case False
    then have skip: "sqs_expire_loop T now cutoff (m # ms) n s = sqs_expire_loop T now cutoff ms n s"
      by (auto simp: sd_hit_def split: option.splits)
    have "map_option (\<lambda>y. if y \<in> set ms \<and> sd_hit cutoff y then y\<lparr>sd_status := ''expired'', sd_closed_at := Some now\<rparr> else y) z =
        map_option (\<lambda>y. if y \<in> set (m # ms) \<and> sd_hit cutoff y then y\<lparr>sd_status := ''expired'', sd_closed_at := Some now\<rparr> else y) z" for z
      using False by (cases z) auto
    then show ?thesis using Cons.IH [of s n] dist Cons.prems(2) False unfolding skip by simp
  next
    case True
    let ?s = "tb_set T ?x s"
    from True have loop: "sqs_expire_loop T now cutoff (m # ms) n s = sqs_expire_loop T now cutoff ms (n + 1) ?s"
      by (auto simp: sd_hit_def split: option.splits)
    have set: "tb_get T k ?s = (if k = sd_ephemeral_interface_id m then Some ?x else tb_get T k s)" for k
      using tb_set_get [OF T, of ?x s m k] m by (simp add: no_unique_def)
    have ne: "sd_ephemeral_interface_id y \<noteq> sd_ephemeral_interface_id m" if "y \<in> set ms" for y
      using that Cons.prems(1) by (metis distinct.simps(2) imageI list.map(2) list.set_map)
    have "\<forall>y\<in>set ms. tb_get T (sd_ephemeral_interface_id y) ?s = Some y" using Cons.prems(2) ne by (simp add: set)
    note IH = Cons.IH [OF dist this, of "n + 1"]
    have "?x \<notin> set ms" using ne [of ?x] by auto
    moreover have "map_option (\<lambda>y. if y \<in> set ms \<and> sd_hit cutoff y then y\<lparr>sd_status := ''expired'', sd_closed_at := Some now\<rparr> else y) (tb_get T k s) =
        map_option (\<lambda>y. if y \<in> set (m # ms) \<and> sd_hit cutoff y then y\<lparr>sd_status := ''expired'', sd_closed_at := Some now\<rparr> else y) (tb_get T k s)"
      if "k \<noteq> sd_ephemeral_interface_id m" for k
      using other [OF that] by (cases "tb_get T k s") auto
    ultimately show ?thesis using IH m True unfolding loop by (simp add: set)
  qed
qed

lemma sess_expire:
  assumes T: "sess_table T" and sim: "sess_sim T s st"
  shows "fst (sqs_expire_before T now cutoff s) = fst (ss_expire_before now cutoff st) \<and>
    sess_sim T (snd (sqs_expire_before T now cutoff s)) (snd (ss_expire_before now cutoff st))"
proof -
  define ms where "ms = tb_select T (\<lambda>m. sd_status m \<in> {''negotiating'', ''active''}) None None s"
  have mem: "m \<in> set ms \<longleftrightarrow> tb_get T (sd_ephemeral_interface_id m) s = Some m \<and> sd_status m \<in> {''negotiating'', ''active''}" for m
    unfolding ms_def by (rule in_select [OF T])
  have dist: "distinct (map sd_ephemeral_interface_id ms)"
    using tb_select_all [OF T] unfolding ms_def selects_def by blast
  have ok: "dict_ok st" using sim by (simp add: sess_sim_def)
  have hit: "sr_overdue cutoff r \<longleftrightarrow> session_record_to_model r \<in> set ms \<and> sd_hit cutoff (session_record_to_model r)"
    if "dget st i = Some r" for i r
    using sess_keyed [OF T sim that] that
    by (auto simp: mem sess_simD [OF sim] sr_overdue_def sr_expires_def sd_hit_def sd_expires_def
        session_record_to_model_def split: option.split)
  note loop = sqs_expire_loop_spec [OF T dist, of s now cutoff 0]
  have all: "\<forall>m\<in>set ms. tb_get T (sd_ephemeral_interface_id m) s = Some m" by (simp add: mem)
  have "length (filter (sd_hit cutoff) ms) = card (sd_ephemeral_interface_id ` set (filter (sd_hit cutoff) ms))"
    using distinct_map_filter [OF dist, of "sd_hit cutoff"] distinct_card [of "map sd_ephemeral_interface_id (filter (sd_hit cutoff) ms)"] by simp
  also have "sd_ephemeral_interface_id ` set (filter (sd_hit cutoff) ms) = {i. \<exists>r. dget st i = Some r \<and> sr_overdue cutoff r}"
  proof (intro set_eqI iffI)
    fix i assume "i \<in> sd_ephemeral_interface_id ` set (filter (sd_hit cutoff) ms)"
    then obtain m where m: "m \<in> set ms" "sd_hit cutoff m" "i = sd_ephemeral_interface_id m" by auto
    then have "tb_get T i s = Some m" by (simp add: mem)
    then obtain r where r: "dget st i = Some r" "m = session_record_to_model r" by (auto simp: sess_simD [OF sim])
    then show "i \<in> {i. \<exists>r. dget st i = Some r \<and> sr_overdue cutoff r}" using m hit [OF r(1)] by simp
  next
    fix i assume "i \<in> {i. \<exists>r. dget st i = Some r \<and> sr_overdue cutoff r}"
    then obtain r where r: "dget st i = Some r" "sr_overdue cutoff r" by auto
    then show "i \<in> sd_ephemeral_interface_id ` set (filter (sd_hit cutoff) ms)"
      using hit [OF r(1)] sess_keyed [OF T sim r(1)] by force
  qed
  finally have n: "length (filter (sd_hit cutoff) ms) = length (filter (sr_overdue cutoff) (dvalues st))"
    using length_eq_card_dict [OF ok, of "sr_overdue cutoff"] by simp
  have before: "sqs_expire_before T now cutoff s = sqs_expire_loop T now cutoff ms 0 s"
    by (simp only: sqs_expire_before_def ms_def)
  have "tb_get T k (snd (sqs_expire_before T now cutoff s)) =
      map_option session_record_to_model (dget (snd (ss_expire_before now cutoff st)) k)" for k
  proof (cases "dget st k")
    case (Some r)
    then show ?thesis
      using loop [OF all] hit [OF Some] unfolding before
      by (simp add: sess_simD [OF sim] ss_expire_before_def ss_expire_loop_eq) (simp add: session_record_to_model_def)
  qed (use loop [OF all] in \<open>simp add: before sess_simD [OF sim]
      ss_expire_before_def ss_expire_loop_eq\<close>)
  moreover have "fst (sqs_expire_before T now cutoff s) = fst (ss_expire_before now cutoff st)"
    using loop [OF all] n by (simp add: before ss_expire_before_def ss_expire_loop_eq)
  ultimately show ?thesis using ok by (simp add: sess_sim_def ss_expire_before_def ss_expire_loop_eq)
qed

lemma sess_create:
  assumes T: "sess_table T" and sim: "sess_sim T s st"
  shows "fst (sqs_create T r s) = Inr (fst (ss_create r st)) \<and>
    sess_sim T (snd (sqs_create T r s)) (snd (ss_create r st))"
proof (cases "dget st (sr_ephemeral_interface_id r)")
  case None
  then have "tb_add T (session_record_to_model r) s \<noteq> None"
    using tb_add_None [OF T] by (simp add: clashes_def no_unique_def sess_simD [OF sim])
  then obtain s' where s': "tb_add T (session_record_to_model r) s = Some s'" by auto
  then have "sess_sim T s' (dset (sr_ephemeral_interface_id r) r st)"
    using tb_add_Some [OF T s'] sim by (simp add: sess_sim_def)
  then show ?thesis using None s' by (simp add: sqs_create_def ss_create_def sq_add_def sess_simD [OF sim])
qed (simp add: sqs_create_def ss_create_def sess_simD [OF sim] sim)

lemma sess_update:
  assumes T: "sess_table T" and sim: "sess_sim T s st"
    and fixed: "\<And>q. dget st (sr_ephemeral_interface_id r) = Some q \<Longrightarrow> same_fixed r q"
  shows "fst (sqs_update T r s) = map_sum StorageError id (fst (ss_update r st)) \<and>
    sess_sim T (snd (sqs_update T r s)) (snd (ss_update r st))"
proof (cases "dget st (sr_ephemeral_interface_id r)")
  case None
  then show ?thesis using sim by (simp add: sqs_update_def ss_update_def din_def sess_simD [OF sim])
next
  case (Some q)
  have "snd (sqs_update T r s) = tb_set T (session_record_to_model r) s"
    using fixed [OF Some] sess_keyed [OF T sim Some] Some
    by (simp add: sqs_update_def sess_simD [OF sim] session_record_to_model_def same_fixed_def)
  then show ?thesis
    using sess_set [OF T sim Some, of r] Some
    by (simp add: sqs_update_def ss_update_def din_def sess_simD [OF sim])
qed

lemma sess_step:
  assumes T: "sess_table T" and sim: "sess_sim T s st" and ok: "keeps_fixed [p] st"
  shows "fst (sqs_step T p s) = fst (ss_step p st) \<and> sess_sim T (snd (sqs_step T p s)) (snd (ss_step p st))"
proof (cases p)
  case (CreateS r)
  then show ?thesis using sess_create [OF T sim, of r] by simp
next
  case (UpdateS r)
  then have "same_fixed r q" if "dget st (sr_ephemeral_interface_id r) = Some q" for q using ok that by simp
  then show ?thesis using sess_update [OF T sim, of r] UpdateS by simp
next
  case (OfferS i x)
  then show ?thesis
    using sess_modify [OF T sim, of "\<lambda>m. m\<lparr>sd_offers := sd_offers m @ [x]\<rparr>" "\<lambda>r. r\<lparr>sr_offers := sr_offers r @ [x]\<rparr>" i]
    by (simp add: sqs_add_offer_def ss_add_offer_def session_record_to_model_def)
next
  case (SelectS now i k a c sc vw)
  then show ?thesis unfolding SelectS sqs_step.simps ss_step.simps sqs_select_offer_def ss_select_offer_def fst_map_prod snd_map_prod
    using sess_modify [OF T sim, of
      "\<lambda>m. m\<lparr>sd_status := ''active'', sd_chosen_offer_id := Some k, sd_provider_agent_id := Some a,
         sd_provider_conn_id := Some c, sd_chosen_schema_id := sc, sd_chosen_view_id := vw, sd_activated_at := Some now\<rparr>"
      "\<lambda>r. r\<lparr>sr_status := ''active'', sr_chosen_offer_id := Some k, sr_provider_agent_id := Some a,
         sr_provider_conn_id := Some c, sr_chosen_schema_id := sc, sr_chosen_view_id := vw, sr_activated_at := Some now\<rparr>" i]
    by (simp add: session_record_to_model_def)
next
  case (CloseS now i reason)
  have "fst (sqs_close T now i reason s) = fst (ss_close now i reason st) \<and>
      sess_sim T (snd (sqs_close T now i reason s)) (snd (ss_close now i reason st))"
    unfolding sqs_close_def ss_close_def
    by (rule sess_modify [OF T sim]) (simp_all add: session_record_to_model_def Let_def)
  then show ?thesis by (simp add: CloseS)
next
  case (ExpireS now cutoff)
  then show ?thesis using sess_expire [OF T sim, of now cutoff] by simp
next
  case (GetS i)
  have "map_option session_model_to_record (map_option session_record_to_model z) = z" for z
    by (cases z) simp_all
  then show ?thesis using sim GetS by (simp add: sqs_get_def ss_get_def sess_simD [OF sim])
qed

text \<open>C18: over any database table with the documented laws the SQL session store is the in-memory one as long as updates
  keep the columns that the SQL update does not write (the tenant, the requester, the intent, the time of the creation
  and the two lifetimes): from states that agree, every sequence of creations, such updates, offers, selections,
  closings, expiries and lookups gets the same answers and ends in states that agree. An update that changes one of these
  columns is stored by the in-memory store and dropped by the SQL store, so that it is left out.\<close>

theorem sql_sessions_equal_memory:
  assumes "table_ok sd_ephemeral_interface_id no_unique T" and "sess_sim T s st" and "keeps_fixed ps st"
  shows "fst (answers (sqs_step T) ps s) = fst (answers ss_step ps st) \<and>
    sess_sim T (snd (answers (sqs_step T) ps s)) (snd (answers ss_step ps st))"
  using assms(2,3)
proof (induction ps arbitrary: s st)
  case (Cons p ps)
  have "keeps_fixed [p] st" "keeps_fixed ps (snd (ss_step p st))" using Cons.prems(2) by simp_all
  with sess_step [OF assms(1) Cons.prems(1)] Cons.IH [of "snd (sqs_step T p s)" "snd (ss_step p st)"]
  show ?case by (simp add: Let_def case_prod_beta)
qed simp

section \<open>Executions answer as the in-memory store\<close>

datatype exec_call = PutC exec_record | SetC uuid string exec_kwargs | GetC "uuid option" "string option"

datatype exec_answer = AnsPut "sql_error + exec_record \<times> bool" | AnsSet "exec_record option"
  | AnsGet "sql_error + exec_record option"

fun xm_step :: "exec_call \<Rightarrow> exec_mem \<Rightarrow> exec_answer \<times> exec_mem" where
  "xm_step (PutC r) x = (AnsPut (Inr (fst (xm_put_if_absent r x))), snd (xm_put_if_absent r x))"
| "xm_step (SetC e st kw) x = map_prod AnsSet id (xm_set_status e st kw x)"
| "xm_step (GetC e k) x = (AnsGet (Inr (xm_get e k x)), x)"

fun sqe_step :: "('s, uuid, exec_model) table \<Rightarrow> exec_call \<Rightarrow> 's \<Rightarrow> exec_answer \<times> 's" where
  "sqe_step T (PutC r) s = map_prod AnsPut id (sqe_put_if_absent T r s)"
| "sqe_step T (SetC e st kw) s = map_prod AnsSet id (sqe_set_status T e st kw s)"
| "sqe_step T (GetC e k) s = (AnsGet (sqe_get T e k s), s)"

text \<open>Calls on which the two agree: no empty key is stored, and a lookup is by the id or by the key.\<close>

fun exec_call_ok :: "exec_call \<Rightarrow> bool" where
  "exec_call_ok (PutC r) = (xr_idempotency_key r \<noteq> Some [])"
| "exec_call_ok (SetC e st kw) = True"
| "exec_call_ok (GetC e k) = (e = None \<or> k = None)"

definition exec_sim :: "('s, uuid, exec_model) table \<Rightarrow> 's \<Rightarrow> exec_mem \<Rightarrow> bool" where
  "exec_sim T s x =
     (xm_inv x \<and> (\<forall>e. tb_get T e s = map_option exec_record_to_model (dget (xm_execs x) e)) \<and>
      (\<forall>k e. k \<noteq> [] \<longrightarrow> dget (xm_by_idempotency x) k = Some e \<longleftrightarrow>
         (\<exists>r. dget (xm_execs x) e = Some r \<and> xr_idempotency_key r = Some k)) \<and>
      (\<forall>e r. dget (xm_execs x) e = Some r \<longrightarrow> xr_idempotency_key r \<noteq> Some []))"

lemma xd_fields [simp]:
  "xd_exec_id (exec_record_to_model r) = xr_exec_id r"
  "xd_idempotency_key (exec_record_to_model r) = xr_idempotency_key r"
  "xd_session_id (exec_record_to_model r) = xr_session_id r"
  "xd_status (exec_record_to_model r) = xr_status r"
  by (simp_all add: exec_record_to_model_def)

lemma exec_simD:
  assumes "exec_sim T s x"
  shows "xm_inv x" "tb_get T e s = map_option exec_record_to_model (dget (xm_execs x) e)"
    "k \<noteq> [] \<Longrightarrow> dget (xm_by_idempotency x) k = Some e \<longleftrightarrow>
         (\<exists>r. dget (xm_execs x) e = Some r \<and> xr_idempotency_key r = Some k)"
    "dget (xm_execs x) e = Some r \<Longrightarrow> xr_idempotency_key r \<noteq> Some []"
  using assms by (simp_all add: exec_sim_def)

lemma exec_by_key:
  assumes T: "table_ok xd_exec_id xd_idempotency_key T" and sim: "exec_sim T s x"
  shows "sqe_by_key T k s = Inr (map_option exec_record_to_model (if str_true k then xm_get None k x else None))"
proof (cases "str_true k")
  case True
  then obtain j where j: "k = Some j" "j \<noteq> []" by (cases k) auto
  note ix = exec_simD(3) [OF sim j(2)]
  have row: "(\<exists>r. dget (xm_execs x) e = Some r \<and> xr_idempotency_key r = k \<and> m = exec_record_to_model r) \<longleftrightarrow>
      tb_get T e s = Some m \<and> xd_idempotency_key m = k" for e m
    by (auto simp: exec_simD(2) [OF sim])
  have "e = f" if "tb_get T e s = Some m" "xd_idempotency_key m = k" "tb_get T f s = Some n" "xd_idempotency_key n = k" for e f m n
  proof -
    have "dget (xm_by_idempotency x) j = Some e" "dget (xm_by_idempotency x) j = Some f"
      using row [of e m] row [of f n] that j(1) unfolding ix by auto
    then show ?thesis by simp
  qed
  then obtain y where y: "sqe_by_key T k s = Inr y"
      "\<And>m. y = Some m \<longleftrightarrow> tb_get T (xd_exec_id m) s = Some m \<and> xd_idempotency_key m = k"
    using scalar_one [OF T, of s "\<lambda>m. xd_idempotency_key m = k" None] True by (auto simp: sqe_by_key_def)
  have "y = Some m \<longleftrightarrow> map_option exec_record_to_model (xm_get None k x) = Some m" for m
  proof -
    have "y = Some m \<longleftrightarrow> (\<exists>e. tb_get T e s = Some m \<and> xd_idempotency_key m = k)"
      using y(2) tb_key [OF T] by blast
    also have "\<dots> \<longleftrightarrow> (\<exists>e r. dget (xm_by_idempotency x) j = Some e \<and> dget (xm_execs x) e = Some r \<and> m = exec_record_to_model r)"
      by (simp only: row [symmetric] ix) (metis j(1) option.inject)
    also have "\<dots> \<longleftrightarrow> map_option exec_record_to_model (xm_get None k x) = Some m"
      using j by (auto simp: xm_get_def split: option.split)
    finally show ?thesis .
  qed
  then show ?thesis using y(1) True by (metis option.exhaust)
qed (simp add: sqe_by_key_def)

lemma exec_put:
  assumes T: "table_ok xd_exec_id xd_idempotency_key T" and sim: "exec_sim T s x"
    and key: "xr_idempotency_key r \<noteq> Some []"
  shows "fst (sqe_put_if_absent T r s) = Inr (fst (xm_put_if_absent r x)) \<and>
    exec_sim T (snd (sqe_put_if_absent T r s)) (snd (xm_put_if_absent r x))"
proof (cases "exec_lookup xm_get r x")
  case (Some old)
  have "xm_put_if_absent r x = ((old, False), x)" by (rule xm.put_old [OF exec_simD(1) [OF sim] Some])
  moreover have "sqe_put_if_absent T r s = (Inr (old, False), s)"
    using Some by (auto simp: sqe_put_if_absent_def exec_by_key [OF T sim] exec_simD(2) [OF sim] exec_lookup_def
        xm_get_def split: option.splits if_splits)
  ultimately show ?thesis using sim by simp
next
  case None
  note inv = exec_simD(1) [OF sim]
  have fresh: "dget (xm_execs x) (xr_exec_id r) = None" using None by (rule exec_lookup_NoneD)
  have nokey: "xr_idempotency_key n \<noteq> xr_idempotency_key r"
    if n: "dget (xm_execs x) e = Some n" "xr_idempotency_key n \<noteq> None" for e n
  proof
    assume same: "xr_idempotency_key n = xr_idempotency_key r"
    then obtain k where k: "xr_idempotency_key r = Some k" "k \<noteq> []" using n(2) key by auto
    then have "dget (xm_by_idempotency x) k = Some e" using exec_simD(3) [OF sim k(2)] n same by auto
    then show False using None n(1) k by (simp add: exec_lookup_def xm_get_def)
  qed
  have "tb_add T (exec_record_to_model r) s \<noteq> None"
  proof
    assume "tb_add T (exec_record_to_model r) s = None"
    then have "\<exists>e n. tb_get T e s = Some n \<and> xd_idempotency_key n \<noteq> None \<and> xd_idempotency_key n = xr_idempotency_key r"
      using fresh exec_simD(2) [OF sim, of "xr_exec_id r"] by (simp add: tb_add_None [OF T] clashes_def)
    then obtain e n where n: "tb_get T e s = Some n" "xd_idempotency_key n \<noteq> None"
        "xd_idempotency_key n = xr_idempotency_key r" by blast
    then obtain z where "dget (xm_execs x) e = Some z" "n = exec_record_to_model z"
      by (auto simp: exec_simD(2) [OF sim])
    with nokey [of e z] n show False by simp
  qed
  then obtain s' where s': "tb_add T (exec_record_to_model r) s = Some s'" by auto
  have "sqe_put_if_absent T r s = (Inr (r, True), s')"
    using None s' fresh by (auto simp: sqe_put_if_absent_def exec_by_key [OF T sim] exec_simD(2) [OF sim]
        exec_lookup_def sq_add_def split: option.splits if_splits)
  moreover have "exec_sim T s' (snd (xm_put_if_absent r x))"
  proof -
    have put: "snd (xm_put_if_absent r x) =
          x\<lparr>xm_execs := dset (xr_exec_id r) r (xm_execs x),
            xm_by_idempotency := (if str_true (xr_idempotency_key r)
              then dset (the (xr_idempotency_key r)) (xr_exec_id r) (xm_by_idempotency x)
              else xm_by_idempotency x),
            xm_by_session := ix_append (xr_session_id r) (xr_exec_id r) (xm_by_session x)\<rparr>"
      using None by (simp add: xm_put_if_absent_def xm_existing_lookup [OF inv])
    have "tb_get T e s' = map_option exec_record_to_model (dget (xm_execs (snd (xm_put_if_absent r x))) e)" for e
      using tb_add_Some [OF T s', of e] exec_simD(2) [OF sim, of e] by (simp add: put)
    moreover have "dget (xm_by_idempotency (snd (xm_put_if_absent r x))) k = Some e \<longleftrightarrow>
         (\<exists>y. dget (xm_execs (snd (xm_put_if_absent r x))) e = Some y \<and> xr_idempotency_key y = Some k)"
      if k: "k \<noteq> []" for k e
    proof (cases "xr_idempotency_key r = Some k")
      case True
      then show ?thesis using nokey k by (auto simp: put)
    next
      case False
      have "dget (xm_by_idempotency (snd (xm_put_if_absent r x))) k = dget (xm_by_idempotency x) k"
        using False by (cases "xr_idempotency_key r") (auto simp: put)
      then show ?thesis using exec_simD(3) [OF sim k, of e] False fresh by (auto simp: put)
    qed
    moreover have "xr_idempotency_key y \<noteq> Some []"
      if "dget (xm_execs (snd (xm_put_if_absent r x))) e = Some y" for e y
      using that exec_simD(4) [OF sim] key by (auto simp: put split: if_splits)
    ultimately show ?thesis using xm_put_new [OF inv None] by (simp add: exec_sim_def)
  qed
  ultimately show ?thesis using xm_put_new [OF inv None] by simp
qed

lemma exec_set:
  assumes T: "table_ok xd_exec_id xd_idempotency_key T" and sim: "exec_sim T s x"
  shows "fst (sqe_set_status T e st kw s) = fst (xm_set_status e st kw x) \<and>
    exec_sim T (snd (sqe_set_status T e st kw s)) (snd (xm_set_status e st kw x))"
proof (cases "dget (xm_execs x) e")
  case None
  then show ?thesis using sim by (simp add: sqe_set_status_def xm_set_status_def exec_simD(2) [OF sim])
next
  case (Some r)
  have id: "xr_exec_id r = e" using exec_simD(1) [OF sim] Some by (simp add: xm_inv_def)
  have same: "xr_exec_id (xr_set_status st kw r) = xr_exec_id r"
      "xr_idempotency_key (xr_set_status st kw r) = xr_idempotency_key r" by (simp_all add: xr_set_status_def)
  have sq: "sqe_set_status T e st kw s = (Some (xr_set_status st kw r), tb_set T (exec_record_to_model (xr_set_status st kw r)) s)"
    by (simp add: sqe_set_status_def exec_simD(2) [OF sim] Some Let_def xr_set_status_def exec_record_to_model_def
        exec_model_to_record_def)
  have "tb_get T k (tb_set T (exec_record_to_model (xr_set_status st kw r)) s) =
      (if k = e then Some (exec_record_to_model (xr_set_status st kw r)) else tb_get T k s)" for k
    using tb_set_get [OF T, of "exec_record_to_model (xr_set_status st kw r)" s "exec_record_to_model r" k]
    by (simp add: same id exec_simD(2) [OF sim] Some)
  moreover have "xm_inv (snd (xm_set_status e st kw x))" by (rule xm_set_status_inv [OF exec_simD(1) [OF sim]])
  ultimately have "exec_sim T (snd (sqe_set_status T e st kw s)) (snd (xm_set_status e st kw x))"
    using sim Some by (auto simp: exec_sim_def sq xm_set_status_def same)
  then show ?thesis by (simp add: sq xm_set_status_def Some)
qed

lemma exec_get:
  assumes T: "table_ok xd_exec_id xd_idempotency_key T" and sim: "exec_sim T s x" and "e = None \<or> k = None"
  shows "sqe_get T e k s = Inr (xm_get e k x)"
proof -
  have id: "map_option exec_model_to_record (map_option exec_record_to_model z) = z" for z by (cases z) simp_all
  show ?thesis
    using assms(3) by (auto simp: sqe_get_def exec_by_key [OF T sim] exec_simD(2) [OF sim] id xm_get_def split: option.split)
qed

lemma exec_step:
  assumes T: "table_ok xd_exec_id xd_idempotency_key T" and sim: "exec_sim T s x" and ok: "exec_call_ok p"
  shows "fst (sqe_step T p s) = fst (xm_step p x) \<and> exec_sim T (snd (sqe_step T p s)) (snd (xm_step p x))"
proof (cases p)
  case (PutC r)
  then show ?thesis using exec_put [OF T sim, of r] ok by simp
next
  case (SetC e st kw)
  then show ?thesis using exec_set [OF T sim, of e st kw] by simp
next
  case (GetC e k)
  then show ?thesis using exec_get [OF T sim, of e k] ok sim by simp
qed

lemma set_map_filter: "y \<in> set (List.map_filter f xs) \<longleftrightarrow> (\<exists>x\<in>set xs. f x = Some y)"
  by (force simp: List.map_filter_def image_iff)

lemma exec_list:
  assumes T: "table_ok xd_exec_id xd_idempotency_key T" and sim: "exec_sim T s x" and st: "status \<noteq> Some []"
  shows "set (sqe_list_by_session T i status s) = set (xm_list_by_session i status x)"
proof -
  have keyed: "xr_exec_id r = e" if "dget (xm_execs x) e = Some r" for e r
    using exec_simD(1) [OF sim] that by (simp add: xm_inv_def)
  have "r \<in> set (sqe_list_by_session T i status s) \<longleftrightarrow>
      (\<exists>e. dget (xm_execs x) e = Some r \<and> xr_session_id r = i \<and> (status = None \<or> status = Some (xr_status r)))" for r
  proof -
    have "r \<in> set (sqe_list_by_session T i status s) \<longleftrightarrow>
        exec_record_to_model r \<in> set (tb_select T (\<lambda>m. xd_session_id m = i \<and> str_filter status (xd_status m)) None None s)"
      by (force simp: sqe_list_by_session_def image_iff)
    also have "\<dots> \<longleftrightarrow> dget (xm_execs x) (xr_exec_id r) = Some r \<and> xr_session_id r = i \<and> str_filter status (xr_status r)"
    proof -
      have "map_option exec_record_to_model z = Some (exec_record_to_model r) \<longleftrightarrow> z = Some r" for z
        by (cases z) (auto dest: arg_cong [of _ _ exec_model_to_record])
      then show ?thesis by (simp add: in_select [OF T] exec_simD(2) [OF sim])
    qed
    finally show ?thesis using keyed st by (cases status) (auto simp: str_filter_def)
  qed
  moreover have "r \<in> set (xm_list_by_session i status x) \<longleftrightarrow>
      (\<exists>e. dget (xm_execs x) e = Some r \<and> xr_session_id r = i \<and> (status = None \<or> status = Some (xr_status r)))" for r
  proof -
    have "e \<in> set (dget_or (xm_by_session x) i []) \<longleftrightarrow> (\<exists>r. dget (xm_execs x) e = Some r \<and> xr_session_id r = i)" for e
      using exec_simD(1) [OF sim] by (simp add: xm_inv_def)
    then have "r \<in> set (List.map_filter (dget (xm_execs x)) (dget_or (xm_by_session x) i [])) \<longleftrightarrow>
        (\<exists>e. dget (xm_execs x) e = Some r \<and> xr_session_id r = i)"
      unfolding set_map_filter by (metis option.inject)
    then show ?thesis by (auto simp: xm_list_by_session_def)
  qed
  ultimately show ?thesis by blast
qed

text \<open>C17: from states that agree, the SQL execution store answers every sequence of creations without an empty idempotency
  key, of status changes and of lookups by an id or by a key, not by both, exactly as the in-memory store does; in
  particular a key creates one execution only. For a status filter that is not empty, the lists of a session's executions hold the same records, perhaps in another
  order. With an empty key, which the unique column takes for a key, and with a lookup by both, which has to match both,
  the stores differ, so that these calls are left out.\<close>

theorem sql_execs_equal_memory:
  assumes "table_ok xd_exec_id xd_idempotency_key T" and "exec_sim T s x" and "\<forall>p\<in>set ps. exec_call_ok p"
  shows "fst (answers (sqe_step T) ps s) = fst (answers xm_step ps x) \<and>
    exec_sim T (snd (answers (sqe_step T) ps s)) (snd (answers xm_step ps x)) \<and>
    (\<forall>i status. status \<noteq> Some [] \<longrightarrow> set (sqe_list_by_session T i status (snd (answers (sqe_step T) ps s))) =
       set (xm_list_by_session i status (snd (answers xm_step ps x))))"
proof -
  have "fst (answers (sqe_step T) ps s) = fst (answers xm_step ps x) \<and>
      exec_sim T (snd (answers (sqe_step T) ps s)) (snd (answers xm_step ps x))"
    using assms(2,3)
  proof (induction ps arbitrary: s x)
    case (Cons p ps)
    have ok: "exec_call_ok p" "\<forall>p\<in>set ps. exec_call_ok p" using Cons.prems(2) by simp_all
    with exec_step [OF assms(1) Cons.prems(1) ok(1)] Cons.IH [of "snd (sqe_step T p s)" "snd (xm_step p x)"]
    show ?case by (simp add: Let_def case_prod_beta)
  qed simp
  then show ?thesis using exec_list [OF assms(1)] by blast
qed

section \<open>The tail of the trace\<close>

text \<open>For a limit that is not negative, \<open>tail\<close> answers with matching events in chronological order, as many as
  there are up to the limit, none of the others being newer, and says whether there are others.\<close>

theorem sql_tail_newest:
  assumes "table_ok td_event_id no_unique T" and "0 \<le> limit"
    and "sqt_tail T session exec limit s = (es, truncated)"
    and "M = {tc_event_id e |e. \<exists>k. tb_get T k s = Some (trace_record_to_model e) \<and>
      (session \<noteq> None \<longrightarrow> tc_ephemeral_interface_id e = session) \<and> (str_true exec \<longrightarrow> tc_exec_id e = exec)}"
  shows "sorted_wrt (\<lambda>a b. tc_timestamp a \<le> tc_timestamp b) es \<and> distinct (map tc_event_id es) \<and>
    tc_event_id ` set es \<subseteq> M \<and> int (length es) = min limit (int (card M)) \<and>
    truncated = (limit < int (card M)) \<and>
    (\<forall>k m e. tb_get T k s = Some m \<longrightarrow> td_event_id m \<in> M - tc_event_id ` set es \<longrightarrow> e \<in> set es \<longrightarrow>
       td_timestamp m \<le> tc_timestamp e)"
proof -
  define P where "P = (\<lambda>e :: trace_model. (session \<noteq> None \<longrightarrow> td_ephemeral_interface_id e = session) \<and>
      (str_true exec \<longrightarrow> td_exec_id e = exec))"
  obtain ms where ms: "selects td_event_id T P (Some td_timestamp) s ms"
      "tb_select T P (Some td_timestamp) (Some (limit + 1)) s = take (nat (limit + 1)) ms"
    using tb_select_limit [OF assms(1), of "limit + 1"] assms(2) by fastforce
  have dist: "distinct (map td_event_id ms)" and sort: "sorted_wrt (\<lambda>m n. td_timestamp n \<le> td_timestamp m) ms"
    and rows: "m \<in> set ms \<longleftrightarrow> (\<exists>k. tb_get T k s = Some m) \<and> P m" for m
    using ms(1) by (auto simp: selects_def)
  have es: "es = map trace_model_to_record (rev (take (nat limit) ms))" "truncated = (limit < int (length ms))"
  proof -
    have tail: "sqt_tail T session exec limit s =
        (map trace_model_to_record (rev (py_first limit (take (nat (limit + 1)) ms))), limit < int (length (take (nat (limit + 1)) ms)))"
      using ms(2) by (simp add: sqt_tail_def P_def Let_def)
    have "py_first limit (take (nat (limit + 1)) ms) = take (nat limit) ms"
      using assms(2) by (simp add: py_first_def min_def)
    moreover have "limit < int (length (take (nat (limit + 1)) ms)) \<longleftrightarrow> limit < int (length ms)"
      using assms(2) by auto
    ultimately show "es = map trace_model_to_record (rev (take (nat limit) ms))" "truncated = (limit < int (length ms))"
      using assms(3) tail by simp_all
  qed
  have tm: "tc_event_id (trace_model_to_record m) = td_event_id m" "tc_timestamp (trace_model_to_record m) = td_timestamp m"
      "tc_ephemeral_interface_id (trace_model_to_record m) = td_ephemeral_interface_id m"
      "tc_exec_id (trace_model_to_record m) = td_exec_id m" for m
    by (simp_all add: trace_model_to_record_def)
  have M: "M = td_event_id ` set ms"
  proof (intro set_eqI iffI)
    fix i assume "i \<in> M"
    then obtain e k where e: "i = tc_event_id e" "tb_get T k s = Some (trace_record_to_model e)"
        "P (trace_record_to_model e)"
      using assms(4) by (auto simp: P_def trace_record_to_model_def)
    then have "trace_record_to_model e \<in> set ms" using rows by blast
    then show "i \<in> td_event_id ` set ms" using e(1) by (force simp: trace_record_to_model_def)
  next
    fix i assume "i \<in> td_event_id ` set ms"
    then obtain m k where m: "i = td_event_id m" "tb_get T k s = Some m" "P m" using rows by auto
    then show "i \<in> M" unfolding assms(4)
      by (intro CollectI exI [of _ "trace_model_to_record m"]) (auto simp: P_def tm)
  qed
  have card: "card M = length ms" unfolding M using distinct_card [OF dist] by simp
  have shown: "set (take (nat limit) ms) \<subseteq> set ms" by (rule set_take_subset)
  have sorted: "sorted_wrt (\<lambda>m n. td_timestamp n \<le> td_timestamp m) (take (nat limit) ms @ drop (nat limit) ms)"
    using sort by simp
  have "sorted_wrt (\<lambda>a b. tc_timestamp a \<le> tc_timestamp b) es"
    using sort by (simp add: es(1) sorted_wrt_map sorted_wrt_rev tm sorted_wrt_take)
  moreover have "distinct (map tc_event_id es)"
  proof -
    have "map tc_event_id es = rev (take (nat limit) (map td_event_id ms))"
      by (simp add: es(1) rev_map comp_def tm take_map)
    then show ?thesis using dist by (simp add: distinct_take)
  qed
  moreover have "td_timestamp m \<le> tc_timestamp e"
    if m: "tb_get T k s = Some m" "td_event_id m \<in> M - tc_event_id ` set es" "e \<in> set es" for k m e
  proof -
    obtain n where n: "n \<in> set ms" "td_event_id n = td_event_id m" using m(2) M by auto
    then obtain j where "tb_get T j s = Some n" using rows by blast
    then have "n = m" using n(2) tb_key [OF assms(1)] m(1) by (metis option.inject)
    moreover have "n \<notin> set (take (nat limit) ms)" using m(2) n(2) by (auto simp: es(1) tm image_iff)
    ultimately have "m \<in> set (drop (nat limit) ms)"
      using n(1) append_take_drop_id [of "nat limit" ms] by (metis Un_iff set_append)
    moreover obtain d where "d \<in> set (take (nat limit) ms)" "e = trace_model_to_record d" using m(3) by (auto simp: es(1))
    ultimately show ?thesis using sorted unfolding sorted_wrt_append by (auto simp: tm)
  qed
  moreover have "tc_event_id ` set es \<subseteq> M" unfolding M es(1) using shown by (auto simp: tm)
  moreover have "int (length es) = min limit (int (card M))" using assms(2) by (simp add: es(1) card)
  ultimately show ?thesis using es(2) card by auto
qed

section \<open>An agent is present once\<close>

definition one_row :: "('s, string, presence_model) table \<Rightarrow> 's \<Rightarrow> bool" where
  "one_row T s = (\<forall>c d m n. tb_get T c s = Some m \<longrightarrow> tb_get T d s = Some n \<longrightarrow> pd_agent_id m = pd_agent_id n \<longrightarrow> c = d)"

inductive sqr_reachable :: "('s, string, presence_model) table \<Rightarrow> 's \<Rightarrow> bool" for T where
  empty: "\<forall>c. tb_get T c s = None \<Longrightarrow> sqr_reachable T s"
| upsert: "sqr_reachable T s \<Longrightarrow> sqr_reachable T (snd (sqr_upsert_presence T r s))"
| heartbeat: "sqr_reachable T s \<Longrightarrow> sqr_reachable T (snd (sqr_heartbeat T now c l s))"
| remove: "sqr_reachable T s \<Longrightarrow> sqr_reachable T (snd (sqr_remove T c s))"
| expire: "sqr_reachable T s \<Longrightarrow> sqr_reachable T (snd (sqr_expire_stale T now t s))"

text \<open>What the row of a connection holds after an upsert: an existing row keeps its agent, tenant and registration time.\<close>

definition upserted :: "presence_record \<Rightarrow> presence_model option \<Rightarrow> presence_model" where
  "upserted r old =
     (case old of
        None \<Rightarrow> presence_record_to_model r
      | Some m \<Rightarrow> (presence_record_to_model r)\<lparr>pd_conn_id := pd_conn_id m, pd_agent_id := pd_agent_id m,
          pd_tenant_id := pd_tenant_id m, pd_registered_at := pd_registered_at m\<rparr>)"

lemma sqr_upsert:
  assumes T: "table_ok pd_conn_id no_unique T" and one: "one_row T s"
  shows "fst (sqr_upsert_presence T r s) = Inr r \<and>
    (\<forall>k. tb_get T k (snd (sqr_upsert_presence T r s)) =
       (if k = pz_conn_id r then Some (upserted r (tb_get T k s))
        else case tb_get T k s of None \<Rightarrow> None | Some m \<Rightarrow> if pd_agent_id m = pz_agent_id r then None else Some m))"
proof -
  let ?P = "\<lambda>m. pd_agent_id m = pz_agent_id r \<and> pd_conn_id m \<noteq> pz_conn_id r"
  have "\<exists>y. scalar_one_or_none (tb_select T ?P None None s) = Inr y \<and>
      (\<forall>m. y = Some m \<longleftrightarrow> tb_get T (pd_conn_id m) s = Some m \<and> ?P m)"
  proof (rule scalar_one [OF T])
    fix j k m n assume "tb_get T j s = Some m" "?P m" "tb_get T k s = Some n" "?P n"
    then show "j = k" using one by (simp add: one_row_def)
  qed
  then obtain y where y: "scalar_one_or_none (tb_select T ?P None None s) = Inr y"
      "\<And>m. y = Some m \<longleftrightarrow> tb_get T (pd_conn_id m) s = Some m \<and> ?P m" by blast
  define s' where "s' = (case y of None \<Rightarrow> s | Some m \<Rightarrow> tb_del T (pd_conn_id m) s)"
  have gone: "tb_get T k s' = (case tb_get T k s of None \<Rightarrow> None | Some m \<Rightarrow>
      if pd_agent_id m = pz_agent_id r \<and> k \<noteq> pz_conn_id r then None else Some m)" for k
  proof (cases y)
    case None
    then show ?thesis using y(2) tb_key [OF T, of k s] by (auto simp: s'_def split: option.split)
  next
    case (Some o')
    then have o': "tb_get T (pd_conn_id o') s = Some o'" "?P o'" using y(2) by simp_all
    have only: "k = pd_conn_id o'" if "tb_get T k s = Some m" "pd_agent_id m = pz_agent_id r" for m
      using one o' that by (simp add: one_row_def)
    have "tb_get T k s' = (if k = pd_conn_id o' then None else tb_get T k s)" by (simp add: s'_def Some tb_del_get [OF T])
    then show ?thesis using o' only by (cases "tb_get T k s") auto
  qed
  have run: "sqr_upsert_presence T r s = (case tb_get T (pz_conn_id r) s' of
       Some m \<Rightarrow> (Inr r, tb_set T (upserted r (Some m)) s')
     | None \<Rightarrow> (case tb_add T (presence_record_to_model r) s' of None \<Rightarrow> (Inl IntegrityError, s) | Some s'' \<Rightarrow> (Inr r, s'')))"
  proof -
    have "m\<lparr>pd_status := pz_status r, pd_capabilities := pz_capabilities r, pd_tags := pz_tags r, pd_load := pz_load r,
        pd_last_seen := pz_last_seen r, pd_metadata_json := pz_metadata r\<rparr> = upserted r (Some m)" for m
      by (rule presence_model.equality) (simp_all add: upserted_def presence_record_to_model_def)
    then show ?thesis by (simp add: sqr_upsert_presence_def y(1) s'_def [symmetric] Let_def split: option.split)
  qed
  have same: "tb_get T (pz_conn_id r) s' = tb_get T (pz_conn_id r) s"
    by (simp add: gone split: option.split)
  have other: "tb_get T k s' = (case tb_get T k s of None \<Rightarrow> None | Some m \<Rightarrow> if pd_agent_id m = pz_agent_id r then None else Some m)"
    if "k \<noteq> pz_conn_id r" for k using that by (simp add: gone split: option.split)
  have conn: "pd_conn_id (presence_record_to_model r) = pz_conn_id r" by (simp add: presence_record_to_model_def)
  show ?thesis
  proof (cases "tb_get T (pz_conn_id r) s")
    case None
    then have "tb_add T (presence_record_to_model r) s' \<noteq> None"
      by (simp add: tb_add_None [OF T] clashes_def no_unique_def conn same)
    then obtain s'' where s'': "tb_add T (presence_record_to_model r) s' = Some s''" by auto
    show ?thesis using tb_add_Some [OF T s''] None other
      by (simp add: run same s'' conn upserted_def)
  next
    case (Some m)
    have id: "pd_conn_id (upserted r (Some m)) = pz_conn_id r"
      using tb_key [OF T Some] by (simp add: upserted_def)
    have "tb_get T k (tb_set T (upserted r (Some m)) s') = (if k = pz_conn_id r then Some (upserted r (Some m)) else tb_get T k s')" for k
      using tb_set_get [OF T, of "upserted r (Some m)" s' m k] Some by (simp add: id same no_unique_def)
    then show ?thesis using Some other by (simp add: run same)
  qed
qed

lemma one_row_map:
  assumes "one_row T s" and "\<And>k. tb_get T k s' = map_option (f k) (tb_get T k s)" "\<And>k m. pd_agent_id (f k m) = pd_agent_id m"
  shows "one_row T s'"
  using assms by (fastforce simp: one_row_def)

lemma one_row_set:
  assumes T: "table_ok pd_conn_id no_unique T" and "one_row T s" and m: "tb_get T c s = Some m"
    and f: "\<And>m. pd_conn_id (f m) = pd_conn_id m" "\<And>m. pd_agent_id (f m) = pd_agent_id m"
  shows "one_row T (tb_set T (f m) s)"
proof (rule one_row_map [OF assms(2)])
  fix k show "tb_get T k (tb_set T (f m) s) = map_option (if k = c then f else id) (tb_get T k s)"
    using tb_set_get [OF T, of "f m" s m k] m tb_key [OF T m] by (simp add: f no_unique_def option.map_id)
qed (simp add: f)

lemma sqr_reachable_one_row:
  assumes T: "table_ok pd_conn_id no_unique T"
  shows "sqr_reachable T s \<Longrightarrow> one_row T s"
proof (induction rule: sqr_reachable.induct)
  case (upsert s r)
  note rows = conjunct2 [OF sqr_upsert [OF T upsert.IH, of r], THEN spec]
  have agent: "pd_agent_id (upserted r z) = (case z of None \<Rightarrow> pz_agent_id r | Some m \<Rightarrow> pd_agent_id m)" for z
    by (cases z) (simp_all add: upserted_def presence_record_to_model_def)
  have row: "(c = pz_conn_id r \<and> m = upserted r (tb_get T c s)) \<or>
      (c \<noteq> pz_conn_id r \<and> tb_get T c s = Some m \<and> pd_agent_id m \<noteq> pz_agent_id r)"
    if "tb_get T c (snd (sqr_upsert_presence T r s)) = Some m" for c m
    using that unfolding rows by (auto split: if_splits option.splits)
  have apart: "pd_agent_id (upserted r (tb_get T (pz_conn_id r) s)) \<noteq> pd_agent_id n"
    if "c \<noteq> pz_conn_id r" "tb_get T c s = Some n" "pd_agent_id n \<noteq> pz_agent_id r" for c n
    using that upsert.IH unfolding one_row_def agent by (cases "tb_get T (pz_conn_id r) s") auto
  show ?case unfolding one_row_def
  proof (intro allI impI)
    fix c d m n
    assume "tb_get T c (snd (sqr_upsert_presence T r s)) = Some m"
      "tb_get T d (snd (sqr_upsert_presence T r s)) = Some n" "pd_agent_id m = pd_agent_id n"
    then show "c = d" using row [of c m] row [of d n] apart [of c m] apart [of d n] upsert.IH
      unfolding one_row_def by auto
  qed
next
  case (heartbeat s now c l)
  then show ?case using one_row_set [OF T heartbeat.IH, of c _ "\<lambda>m. m\<lparr>pd_last_seen := now, pd_load := given l (pd_load m)\<rparr>"]
    by (simp add: sqr_heartbeat_def split: option.split)
next
  case (remove s c)
  then show ?case by (auto simp: sqr_remove_def one_row_def tb_del_get [OF T] split: option.split)
next
  case (expire s now t)
  let ?P = "\<lambda>m. pd_status m = ''online'' \<and> pd_last_seen m < now - td_secf t" and ?f = "\<lambda>m. m\<lparr>pd_status := ''offline''\<rparr>"
  show ?case unfolding sqr_expire_stale_def Let_def
    by (rule one_row_map [OF expire.IH, of _ "\<lambda>k m. if ?P m then ?f m else m"])
      (use tb_update_get [OF T, of ?f ?P s] in \<open>auto simp: no_unique_def\<close>)
qed (simp add: one_row_def)

text \<open>C34: whatever calls came before, an agent has at most one row, so an upsert never meets two; it answers
  with the record and leaves the agent's other row deleted, the row of the connection with the given status,
  capabilities, tags, load and time, and every other agent's rows as they were. A row that was there already
  keeps its agent, its tenant and its registration time.\<close>

theorem sql_presence_unique:
  assumes "table_ok pd_conn_id no_unique T" and "sqr_reachable T s"
  shows "(\<forall>c d m n. tb_get T c s = Some m \<and> tb_get T d s = Some n \<and> pd_agent_id m = pd_agent_id n \<longrightarrow> c = d) \<and>
    (\<exists>s'. sqr_upsert_presence T r s = (Inr r, s') \<and>
       (\<forall>k. tb_get T k s' =
          (if k = pz_conn_id r then Some (upserted r (tb_get T k s))
           else case tb_get T k s of None \<Rightarrow> None | Some m \<Rightarrow> if pd_agent_id m = pz_agent_id r then None else Some m)))"
proof -
  have one: "one_row T s" by (rule sqr_reachable_one_row [OF assms])
  note up = sqr_upsert [OF assms(1) one, of r]
  show ?thesis
  proof (intro conjI exI)
    show "sqr_upsert_presence T r s = (Inr r, snd (sqr_upsert_presence T r s))" using up by (simp add: prod_eq_iff)
  qed (use up one in \<open>simp_all add: one_row_def\<close>)
qed

section \<open>A table of rows in a list\<close>

fun keyed :: "('m \<Rightarrow> 'k) \<Rightarrow> 'm list \<Rightarrow> 'm list" where
  "keyed key [] = []"
| "keyed key (m # ms) = m # filter (\<lambda>n. key n \<noteq> key m) (keyed key ms)"

definition ex_table :: "('m \<Rightarrow> 'k) \<Rightarrow> ('m \<Rightarrow> 'u option) \<Rightarrow> ('m list, 'k, 'm) table" where
  "ex_table key uniq =
     \<lparr>tb_get = \<lambda>k s. find (\<lambda>m. key m = k) s,
      tb_select = \<lambda>P t n s. (case n of None \<Rightarrow> id | Some n \<Rightarrow> take (nat n))
        ((case t of None \<Rightarrow> id | Some t \<Rightarrow> (\<lambda>ms. rev (sort_key t ms))) (filter P (keyed key s))),
      tb_add = \<lambda>m s. if find (\<lambda>n. key n = key m \<or> uniq n \<noteq> None \<and> uniq n = uniq m) (keyed key s) = None
        then Some (m # s) else None,
      tb_set = \<lambda>m s. m # s,
      tb_del = \<lambda>k s. filter (\<lambda>m. key m \<noteq> k) s,
      tb_update = \<lambda>P f s. (int (length (filter P (keyed key s))), map (\<lambda>m. if P m then f m else m) (keyed key s))\<rparr>"

lemma keyed_iff: "m \<in> set (keyed key s) \<longleftrightarrow> find (\<lambda>n. key n = key m) s = Some m"
  by (induction s) auto

lemma distinct_keyed: "distinct (map key (keyed key s))"
  by (induction s) (auto simp: distinct_map_filter)

lemma find_filter: "k \<noteq> j \<Longrightarrow> find (\<lambda>m. key m = k) (filter (\<lambda>m. key m \<noteq> j) s) = find (\<lambda>m. key m = k) s"
  by (induction s) auto

lemma find_key_None: "find (\<lambda>m. key m = k) (filter (\<lambda>m. key m \<noteq> k) s) = None"
  by (simp add: find_None_iff)

lemma find_keyed: "find (\<lambda>m. key m = k) (keyed key s) = find (\<lambda>m. key m = k) s"
  by (induction s) (auto simp: find_filter)

lemma find_map_key: "(\<And>m. key (g m) = key m) \<Longrightarrow> find (\<lambda>m. key m = k) (map g s) = map_option g (find (\<lambda>m. key m = k) s)"
  by (induction s) auto

lemma find_key: "find (\<lambda>m. key m = k) s = Some n \<Longrightarrow> key n = k"
  by (drule find_SomeD) simp

lemma ex_selects: "selects key (ex_table key uniq) P t s (tb_select (ex_table key uniq) P t None s)"
proof -
  have set: "(m \<in> set (keyed key s) \<and> P m) \<longleftrightarrow> (\<exists>k. find (\<lambda>n. key n = k) s = Some m) \<and> P m" for m
    by (auto simp: keyed_iff dest: find_SomeD)
  have dist: "distinct (map key (filter P (keyed key s)))" by (rule distinct_map_filter [OF distinct_keyed])
  have srt: "distinct (map key (rev (sort_key f (filter P (keyed key s)))))" for f :: "'a \<Rightarrow> int"
    using dist by (metis (no_types) distinct_rev mset_map mset_sort mset_eq_imp_distinct_iff rev_map)
  have "sorted_wrt (\<lambda>m n. f n \<le> f m) (rev (sort_key f xs))" for f :: "'a \<Rightarrow> int" and xs
    using sorted_sort_key [of f xs] by (simp add: sorted_wrt_rev sorted_wrt_map)
  then show ?thesis using set dist srt by (cases t) (auto simp: selects_def ex_table_def)
qed

lemma ex_get: "(\<exists>k. tb_get (ex_table key uniq) k s = Some n) \<longleftrightarrow> n \<in> set (keyed key s)"
proof
  assume "\<exists>k. tb_get (ex_table key uniq) k s = Some n"
  then obtain k where k: "find (\<lambda>m. key m = k) s = Some n" by (auto simp: ex_table_def)
  with find_key [OF k] show "n \<in> set (keyed key s)" by (simp add: keyed_iff)
qed (auto simp: ex_table_def keyed_iff)

lemma ex_clashes:
  "clashes key uniq (ex_table key uniq) m s \<longleftrightarrow>
     (\<exists>n\<in>set (keyed key s). key n = key m \<or> uniq n \<noteq> None \<and> uniq n = uniq m)"
proof -
  have "tb_get (ex_table key uniq) (key m) s \<noteq> None \<longleftrightarrow> (\<exists>n\<in>set (keyed key s). key n = key m)"
  proof
    assume "tb_get (ex_table key uniq) (key m) s \<noteq> None"
    then obtain n where n: "find (\<lambda>n. key n = key m) s = Some n" by (auto simp: ex_table_def)
    with find_key [OF n] show "\<exists>n\<in>set (keyed key s). key n = key m" by (auto simp: keyed_iff)
  qed (auto simp: ex_table_def keyed_iff)
  moreover have "(\<exists>k n. tb_get (ex_table key uniq) k s = Some n \<and> uniq n \<noteq> None \<and> uniq n = uniq m) \<longleftrightarrow>
      (\<exists>n\<in>set (keyed key s). uniq n \<noteq> None \<and> uniq n = uniq m)"
    using ex_get [of key uniq s] by blast
  ultimately show ?thesis unfolding clashes_def by blast
qed

lemma ex_table_ok: "table_ok key uniq (ex_table key uniq)"
proof -
  have "rows_ok key uniq (ex_table key uniq)"
    unfolding rows_ok_def
  proof (intro conjI allI impI)
    fix s m
    show "tb_add (ex_table key uniq) m s = None \<longleftrightarrow> clashes key uniq (ex_table key uniq) m s"
      unfolding ex_clashes by (simp add: ex_table_def find_None_iff) blast
  qed (auto simp: ex_table_def find_filter find_key_None dest: find_SomeD split: if_splits)
  moreover have "selects_ok key (ex_table key uniq)"
    unfolding selects_ok_def
    using ex_selects by (fastforce simp: ex_table_def)
  moreover have "updates_ok key uniq (ex_table key uniq)"
    unfolding updates_ok_def by (simp add: ex_table_def find_map_key find_keyed)
  ultimately show ?thesis by (simp add: table_ok_def)
qed

definition ex_session :: "uuid \<Rightarrow> session_record" where
  "ex_session i = \<lparr>sr_ephemeral_interface_id = i, sr_tenant_id = ''acme'', sr_requester_agent_id = 2,
     sr_requester_conn_id = ''c'', sr_provider_agent_id = None, sr_provider_conn_id = None, sr_intent_message_id = 3,
     sr_intent_data = [], sr_status = ''negotiating'', sr_offers = [], sr_chosen_offer_id = None,
     sr_chosen_schema_id = None, sr_chosen_view_id = None, sr_created_at = 0, sr_activated_at = None,
     sr_closed_at = None, sr_negotiation_ttl_seconds = 30, sr_session_ttl_seconds = 300, sr_metadata = []\<rparr>"

abbreviation "ex_sess_table \<equiv> ex_table sd_ephemeral_interface_id no_unique"

theorem sql_sessions_equal_memory_witness:
  "fst (answers (sqs_step ex_sess_table) [CreateS (ex_session 1), UpdateS (ex_session 1), ExpireS 50000000 40000000] []) =
     [AnsRecord (Inr (ex_session 1)), AnsRecord (Inr (ex_session 1)), AnsCount 1]"
proof -
  have sim: "sess_sim ex_sess_table [] []" by (simp add: sess_sim_def ex_table_def)
  have "keeps_fixed [CreateS (ex_session 1), UpdateS (ex_session 1), ExpireS 50000000 40000000] []"
    by (simp add: ss_create_def same_fixed_def)
  from sql_sessions_equal_memory [OF ex_table_ok sim this]
  have "fst (answers (sqs_step ex_sess_table) [CreateS (ex_session 1), UpdateS (ex_session 1), ExpireS 50000000 40000000] []) =
      fst (answers ss_step [CreateS (ex_session 1), UpdateS (ex_session 1), ExpireS 50000000 40000000] [])" by (rule conjunct1)
  also have "\<dots> = [AnsRecord (Inr (ex_session 1)), AnsRecord (Inr (ex_session 1)), AnsCount 1]"
    by (simp add: ss_create_def ss_update_def ss_expire_before_def din_def ex_session_def sr_overdue_def sr_expires_def td_sec_def)
  finally show ?thesis .
qed

abbreviation "ex_exec_table \<equiv> ex_table xd_exec_id xd_idempotency_key"

theorem sql_execs_equal_memory_witness:
  "fst (answers (sqe_step ex_exec_table) [PutC (ex_request 5), PutC (ex_request 6)] []) =
     [AnsPut (Inr (ex_request 5, True)), AnsPut (Inr (ex_request 5, False))]"
proof -
  have sim: "exec_sim ex_exec_table [] xm_init"
    by (simp add: exec_sim_def xm_init_inv) (simp add: ex_table_def xm_init_def)
  have "\<forall>p\<in>set [PutC (ex_request 5), PutC (ex_request 6)]. exec_call_ok p" by (simp add: ex_request_def)
  from sql_execs_equal_memory [OF ex_table_ok sim this]
  have "fst (answers (sqe_step ex_exec_table) [PutC (ex_request 5), PutC (ex_request 6)] []) =
      fst (answers xm_step [PutC (ex_request 5), PutC (ex_request 6)] xm_init)" by (rule conjunct1)
  also have "\<dots> = [AnsPut (Inr (ex_request 5, True)), AnsPut (Inr (ex_request 5, False))]"
    by (simp add: xm_put_if_absent_def xm_existing_def xm_init_def ex_request_def)
  finally show ?thesis .
qed

definition ex_event :: "uuid \<Rightarrow> datetime \<Rightarrow> trace_record" where
  "ex_event i t = \<lparr>tc_event_id = i, tc_event_type = ''x'', tc_timestamp = t, tc_tenant_id = ''acme'',
     tc_ephemeral_interface_id = None, tc_exec_id = None, tc_agent_id = None, tc_conn_id = None, tc_data = []\<rparr>"

abbreviation "ex_trace_table \<equiv> ex_table td_event_id no_unique"

definition ex_events :: "trace_model list" where
  "ex_events = snd (sqt_append ex_trace_table (ex_event 3 5)
     (snd (sqt_append ex_trace_table (ex_event 1 9) (snd (sqt_append ex_trace_table (ex_event 2 7) [])))))"

theorem sql_tail_newest_witness:
  "length (fst (sqt_tail ex_trace_table None None 2 ex_events)) = 2 \<and> snd (sqt_tail ex_trace_table None None 2 ex_events)"
proof -
  have ev: "ex_events = map trace_record_to_model [ex_event 3 5, ex_event 1 9, ex_event 2 7]"
    by (simp add: ex_events_def sqt_append_def sq_add_def ex_table_def no_unique_def trace_record_to_model_def ex_event_def)
  have "{tc_event_id e |e. \<exists>k. tb_get ex_trace_table k ex_events = Some (trace_record_to_model e) \<and>
      ((None :: uuid option) \<noteq> None \<longrightarrow> tc_ephemeral_interface_id e = None) \<and> (str_true None \<longrightarrow> tc_exec_id e = None)} = {1, 2, 3}"
    (is "?M = _")
  proof -
    have "?M = td_event_id ` {m. \<exists>k. tb_get ex_trace_table k ex_events = Some m}"
    proof (intro set_eqI iffI)
      fix i assume "i \<in> td_event_id ` {m. \<exists>k. tb_get ex_trace_table k ex_events = Some m}"
      then obtain m k where "i = td_event_id m" "tb_get ex_trace_table k ex_events = Some m" by blast
      then show "i \<in> ?M" by (intro CollectI exI [of _ "trace_model_to_record m"]) (auto simp: trace_model_to_record_def [of m, THEN arg_cong, of tc_event_id])
    qed (force simp: trace_record_to_model_def)
    also have "\<dots> = td_event_id ` set (keyed td_event_id ex_events)" by (simp add: ex_get)
    also have "\<dots> = {1, 2, 3}"
      by (auto simp: ev trace_record_to_model_def ex_event_def)
    finally show ?thesis .
  qed
  then show ?thesis
    using sql_tail_newest [OF ex_table_ok _ prod.collapse [symmetric] refl, of 2 None None ex_events] by simp
qed

abbreviation "ex_presence_table \<equiv> ex_table pd_conn_id no_unique"

theorem sql_presence_unique_witness:
  "\<exists>s'. sqr_upsert_presence ex_presence_table (ex_presence ''b'')
     (snd (sqr_upsert_presence ex_presence_table (ex_presence ''a'') [])) = (Inr (ex_presence ''b''), s')"
proof -
  have "sqr_reachable ex_presence_table []"
    by (rule sqr_reachable.empty) (simp add: ex_table_def)
  then have "sqr_reachable ex_presence_table (snd (sqr_upsert_presence ex_presence_table (ex_presence ''a'') []))"
    by (rule sqr_reachable.upsert)
  then show ?thesis using sql_presence_unique [OF ex_table_ok] by blast
qed

end
