(* ===== verification/Py_Json.thy ===== *)
theory Py_Json
  imports Py_Parse "HOL-Library.Monad_Syntax"
begin

text \<open>
  What the clients of the external stores and brokers use of \<open>json\<close> and \<open>datetime\<close>: \<open>dumps\<close>, \<open>loads\<close>,
  \<open>isoformat\<close> and \<open>fromisoformat\<close> as the record \<open>codec\<close>, None for an exception. \<open>codec_ok\<close> states that reading
  what was written gives it back; a concrete codec shows that it can hold.
\<close>

record codec =
  cd_dumps :: "json \<Rightarrow> string"
  cd_loads :: "string \<Rightarrow> json option"
  cd_isoformat :: "datetime \<Rightarrow> string"
  cd_fromiso :: "string \<Rightarrow> datetime option"

definition codec_ok :: "codec \<Rightarrow> bool" where
  "codec_ok c =
     ((\<forall>v. cd_loads c (cd_dumps c v) = Some v \<and> cd_dumps c v \<noteq> []) \<and>
      (\<forall>t. cd_fromiso c (cd_isoformat c t) = Some t \<and> cd_isoformat c t \<noteq> []))"

lemma codec_okD [simp]:
  assumes "codec_ok c"
  shows "cd_loads c (cd_dumps c v) = Some v" "cd_fromiso c (cd_isoformat c t) = Some t"
    "cd_dumps c v \<noteq> []" "cd_isoformat c t \<noteq> []"
  using assms by (simp_all add: codec_ok_def)

section \<open>Fields of a decoded object\<close>

text \<open>
  \<open>d["k"]\<close> and \<open>d.get("k")\<close> where a value of the field's type is expected. None stands for the exception
  (\<open>KeyError\<close>, \<open>ValueError\<close>, \<open>TypeError\<close>) and for a value of another type, which the record could not hold.
\<close>

definition fld_str :: "payload \<Rightarrow> string \<Rightarrow> string option" where
  "fld_str d k = (case dget d k of Some (JStr s) \<Rightarrow> Some s | _ \<Rightarrow> None)"

definition fld_opt_str :: "payload \<Rightarrow> string \<Rightarrow> string option option" where
  "fld_opt_str d k = (case pget d k JNone of JNone \<Rightarrow> Some None | JStr s \<Rightarrow> Some (Some s) | _ \<Rightarrow> None)"

definition fld_int :: "payload \<Rightarrow> string \<Rightarrow> int option" where
  "fld_int d k = (case dget d k of Some (JInt i) \<Rightarrow> Some i | _ \<Rightarrow> None)"

definition fld_bool :: "payload \<Rightarrow> string \<Rightarrow> bool option" where
  "fld_bool d k = (case dget d k of Some (JBool b) \<Rightarrow> Some b | _ \<Rightarrow> None)"

definition fld_opt_bool :: "payload \<Rightarrow> string \<Rightarrow> bool option option" where
  "fld_opt_bool d k = (case pget d k JNone of JNone \<Rightarrow> Some None | JBool b \<Rightarrow> Some (Some b) | _ \<Rightarrow> None)"

definition fld_rat :: "payload \<Rightarrow> string \<Rightarrow> rat \<Rightarrow> rat option" where
  "fld_rat d k x = (case pget d k (JFloat x) of JFloat y \<Rightarrow> Some y | JInt i \<Rightarrow> Some (of_int i) | _ \<Rightarrow> None)"

definition fld_dict :: "payload \<Rightarrow> string \<Rightarrow> payload option" where
  "fld_dict d k = (case pget d k (JDict []) of JDict m \<Rightarrow> Some m | _ \<Rightarrow> None)"

fun strs_of :: "json list \<Rightarrow> string list option" where
  "strs_of [] = Some []"
| "strs_of (JStr s # xs) = (case strs_of xs of None \<Rightarrow> None | Some ss \<Rightarrow> Some (s # ss))"
| "strs_of (x # xs) = None"

definition fld_strs :: "payload \<Rightarrow> string \<Rightarrow> string list option" where
  "fld_strs d k = (case pget d k (JList []) of JList xs \<Rightarrow> strs_of xs | _ \<Rightarrow> None)"

definition fld_uuid :: "payload \<Rightarrow> string \<Rightarrow> uuid option" where
  "fld_uuid d k = Option.bind (fld_str d k) uuid_parse"

text \<open>\<open>UUID(d["k"]) if d.get("k") else None\<close>.\<close>

definition fld_opt_uuid :: "payload \<Rightarrow> string \<Rightarrow> uuid option option" where
  "fld_opt_uuid d k = (if py_bool (pget d k JNone) then map_option Some (fld_uuid d k) else Some None)"

definition fld_time :: "codec \<Rightarrow> payload \<Rightarrow> string \<Rightarrow> datetime option" where
  "fld_time c d k = Option.bind (fld_str d k) (cd_fromiso c)"

definition fld_opt_time :: "codec \<Rightarrow> payload \<Rightarrow> string \<Rightarrow> datetime option option" where
  "fld_opt_time c d k =
     Option.bind (fld_opt_str d k) (\<lambda>s. case s of None \<Rightarrow> Some None | Some t \<Rightarrow> map_option Some (cd_fromiso c t))"

lemma strs_of_map [simp]: "strs_of (map JStr ss) = Some ss"
  by (induction ss) simp_all

lemma uuid_parse_JStr [simp]: "Option.bind (Some (uuid_str u)) uuid_parse = Some u"
  by simp

lemma jopt_simps [simp]: "jopt None = JNone" "jopt (Some s) = JStr s"
  by (simp_all add: jopt_def)

lemmas fld_defs = fld_str_def fld_opt_str_def fld_int_def fld_bool_def fld_opt_bool_def fld_rat_def fld_dict_def
  fld_strs_def fld_uuid_def fld_opt_uuid_def fld_time_def fld_opt_time_def dget_or_def

section \<open>A codec\<close>

definition enc_nat :: "nat \<Rightarrow> string" where
  "enc_nat n = replicate n (CHR ''1'') @ ''0''"

fun dec_nat :: "string \<Rightarrow> nat \<times> string" where
  "dec_nat [] = (0, [])"
| "dec_nat (c # s) = (if c = CHR ''1'' then (let (n, r) = dec_nat s in (Suc n, r)) else (0, s))"

definition enc_int :: "int \<Rightarrow> string" where
  "enc_int i = (if i < 0 then CHR ''-'' # enc_nat (nat (- i)) else CHR ''+'' # enc_nat (nat i))"

definition dec_int :: "string \<Rightarrow> int \<times> string" where
  "dec_int s = (let (n, r) = dec_nat (tl s) in (if s \<noteq> [] \<and> hd s = CHR ''-'' then - int n else int n, r))"

definition enc_str :: "string \<Rightarrow> string" where
  "enc_str s = enc_nat (length s) @ s"

definition dec_str :: "string \<Rightarrow> string \<times> string" where
  "dec_str s = (let (n, r) = dec_nat s in (take n r, drop n r))"

fun enc :: "json \<Rightarrow> string" where
  "enc JNone = ''n''"
| "enc (JBool b) = (if b then ''t'' else ''f'')"
| "enc (JInt i) = CHR ''i'' # enc_int i"
| "enc (JFloat x) = CHR ''x'' # enc_int (fst (quotient_of x)) @ enc_int (snd (quotient_of x))"
| "enc (JStr s) = CHR ''s'' # enc_str s"
| "enc (JList xs) = CHR ''l'' # enc_nat (length xs) @ concat (map enc xs)"
| "enc (JDict d) = CHR ''d'' # enc_nat (length d) @ concat (map (\<lambda>(k, v). enc_str k @ enc v) d)"

fun dec :: "nat \<Rightarrow> string \<Rightarrow> (json \<times> string) option"
  and dec_list :: "nat \<Rightarrow> nat \<Rightarrow> string \<Rightarrow> (json list \<times> string) option"
  and dec_dict :: "nat \<Rightarrow> nat \<Rightarrow> string \<Rightarrow> ((string \<times> json) list \<times> string) option" where
  "dec 0 s = None"
| "dec (Suc f) [] = None"
| "dec (Suc f) (c # s) =
     (if c = CHR ''n'' then Some (JNone, s) else if c = CHR ''t'' then Some (JBool True, s)
      else if c = CHR ''f'' then Some (JBool False, s)
      else if c = CHR ''i'' then (let (i, r) = dec_int s in Some (JInt i, r))
      else if c = CHR ''x'' then
        (let (i, r) = dec_int s; (j, r) = dec_int r in Some (JFloat (Fract i j), r))
      else if c = CHR ''s'' then (let (t, r) = dec_str s in Some (JStr t, r))
      else if c = CHR ''l'' then
        (let (n, r) = dec_nat s in case dec_list f n r of None \<Rightarrow> None | Some (xs, r) \<Rightarrow> Some (JList xs, r))
      else (let (n, r) = dec_nat s in case dec_dict f n r of None \<Rightarrow> None | Some (d, r) \<Rightarrow> Some (JDict d, r)))"
| "dec_list f 0 s = Some ([], s)"
| "dec_list f (Suc n) s =
     (case dec f s of None \<Rightarrow> None
      | Some (v, r) \<Rightarrow> (case dec_list f n r of None \<Rightarrow> None | Some (vs, r) \<Rightarrow> Some (v # vs, r)))"
| "dec_dict f 0 s = Some ([], s)"
| "dec_dict f (Suc n) s =
     (let (k, r) = dec_str s in
      case dec f r of None \<Rightarrow> None
      | Some (v, r) \<Rightarrow> (case dec_dict f n r of None \<Rightarrow> None | Some (d, r) \<Rightarrow> Some ((k, v) # d, r)))"

lemma dec_enc_nat [simp]: "dec_nat (enc_nat n @ r) = (n, r)"
  by (induction n) (simp_all add: enc_nat_def)

lemma dec_enc_int [simp]: "dec_int (enc_int i @ r) = (i, r)"
  by (simp add: enc_int_def dec_int_def)

lemma dec_enc_str [simp]: "dec_str (enc_str s @ r) = (s, r)"
  by (simp add: enc_str_def dec_str_def)

lemma dec_list_enc:
  "(\<And>v r. v \<in> set xs \<Longrightarrow> dec f (enc v @ r) = Some (v, r)) \<Longrightarrow>
     dec_list f (length xs) (concat (map enc xs) @ r) = Some (xs, r)"
  by (induction xs arbitrary: r) simp_all

lemma dec_dict_enc:
  "(\<And>v r. v \<in> snd ` set d \<Longrightarrow> dec f (enc v @ r) = Some (v, r)) \<Longrightarrow>
     dec_dict f (length d) (concat (map (\<lambda>(k, v). enc_str k @ enc v) d) @ r) = Some (d, r)"
  by (induction d arbitrary: r) (auto simp: case_prod_beta)

lemma length_concat_mem: "x \<in> set xs \<Longrightarrow> length (f x) \<le> length (concat (map f xs))"
  by (induction xs) auto

lemma dec_enc: "length (enc v) \<le> f \<Longrightarrow> dec f (enc v @ r) = Some (v, r)"
proof (induction v arbitrary: f r)
  case (JFloat x)
  then obtain g where f: "f = Suc g" by (cases f) auto
  have "Fract (fst (quotient_of x)) (snd (quotient_of x)) = x"
    using quotient_of_div [of x] by (metis Fract_of_int_quotient prod.collapse)
  then show ?case by (simp add: f)
next
  case (JList xs)
  then obtain g where f: "f = Suc g" by (cases f) auto
  have "length (enc v) \<le> g" if "v \<in> set xs" for v
    using JList.prems length_concat_mem [OF that, of enc] by (simp add: f)
  then have "dec g (enc v @ r) = Some (v, r)" if "v \<in> set xs" for v r using JList.IH that by blast
  from dec_list_enc [of xs g r, OF this] show ?case by (simp add: f)
next
  case (JDict d)
  then obtain g where f: "f = Suc g" by (cases f) auto
  have "dec g (enc v @ r) = Some (v, r)" if v: "v \<in> snd ` set d" for v r
  proof -
    obtain k where k: "(k, v) \<in> set d" using v by auto
    have "length (enc v) \<le> g"
      using JDict.prems length_concat_mem [OF k, of "\<lambda>(k, v). enc_str k @ enc v"] by (simp add: f)
    then show ?thesis using JDict.IH [OF k, of v] by simp
  qed
  from dec_dict_enc [of d g r, OF this] show ?case by (simp add: f)
next
  case JNone
  then show ?case by (cases f) simp_all
next
  case (JBool b)
  then show ?case by (cases f) (simp_all split: if_splits)
next
  case (JInt i)
  then show ?case by (cases f) simp_all
next
  case (JStr s)
  then show ?case by (cases f) simp_all
qed

definition ex_codec :: codec where
  "ex_codec = \<lparr>cd_dumps = enc, cd_loads = \<lambda>s. case dec (length s) s of Some (v, []) \<Rightarrow> Some v | _ \<Rightarrow> None,
     cd_isoformat = enc_int, cd_fromiso = \<lambda>s. Some (fst (dec_int s))\<rparr>"

lemma ex_codec_ok [simp]: "codec_ok ex_codec"
proof -
  have "dec (length (enc v)) (enc v) = Some (v, [])" for v using dec_enc [of v _ "[]"] by simp
  moreover have "enc v \<noteq> []" for v by (cases v) simp_all
  moreover have "fst (dec_int (enc_int t)) = t" for t using dec_enc_int [of t "[]"] by simp
  ultimately show ?thesis by (simp add: codec_ok_def ex_codec_def enc_int_def)
qed

end
