(* ===== verification/Storage_Redis.thy ===== *)
theory Storage_Redis
  imports Storage_Memory Py_Json
begin

text \<open>
  \<open>src/storage/redis.py\<close>: executions and presence in Redis. The client is not part of the program: it is
  the record \<open>redis\<close> of the commands the adapters send, over a state that is left open. Redis expires keys
  on its own; the operations only pass the time to live on. A method sends its commands one after the other,
  and here nothing comes between them.
\<close>

section \<open>The client\<close>

record 's redis =
  rd_get :: "string \<Rightarrow> 's \<Rightarrow> string option"
  rd_set :: "string \<Rightarrow> string \<Rightarrow> int \<Rightarrow> 's \<Rightarrow> 's"
  rd_setnx :: "string \<Rightarrow> string \<Rightarrow> int \<Rightarrow> 's \<Rightarrow> bool \<times> 's"
  rd_delete :: "string \<Rightarrow> 's \<Rightarrow> int \<times> 's"
  rd_sadd :: "string \<Rightarrow> string \<Rightarrow> 's \<Rightarrow> 's"
  rd_srem :: "string \<Rightarrow> string \<Rightarrow> 's \<Rightarrow> 's"
  rd_smembers :: "string \<Rightarrow> 's \<Rightarrow> string list"
  rd_expire :: "string \<Rightarrow> int \<Rightarrow> 's \<Rightarrow> 's"
  rd_scan :: "int \<Rightarrow> string \<Rightarrow> int \<Rightarrow> 's \<Rightarrow> int \<times> string list"

text \<open>The exception of a record that cannot be read back.\<close>

datatype redis_error = Unreadable

record redis_store =
  rs_prefix :: string
  rs_ttl :: int
  rs_codec :: codec

section \<open>Executions\<close>

definition rx_init :: "string \<Rightarrow> int \<Rightarrow> codec \<Rightarrow> redis_store" where
  "rx_init key_prefix default_ttl_seconds c = \<lparr>rs_prefix = key_prefix, rs_ttl = default_ttl_seconds, rs_codec = c\<rparr>"

definition exec_key :: "redis_store \<Rightarrow> uuid \<Rightarrow> string" where
  "exec_key st e = rs_prefix st @ '':exec:'' @ uuid_str e"

definition idem_key :: "redis_store \<Rightarrow> uuid \<Rightarrow> string \<Rightarrow> string" where
  "idem_key st i k = rs_prefix st @ '':exec:idem:'' @ uuid_str i @ '':'' @ k"

definition session_index_key :: "redis_store \<Rightarrow> uuid \<Rightarrow> string" where
  "session_index_key st i = rs_prefix st @ '':exec:session:'' @ uuid_str i"

definition exec_fields :: "codec \<Rightarrow> exec_record \<Rightarrow> payload" where
  "exec_fields c r =
     [(''exec_id'', JStr (uuid_str (xr_exec_id r))),
      (''session_id'', JStr (uuid_str (xr_session_id r))),
      (''correlation_id'', JStr (uuid_str (xr_correlation_id r))),
      (''idempotency_key'', jopt (xr_idempotency_key r)),
      (''status'', JStr (xr_status r)),
      (''requester_conn_id'', JStr (xr_requester_conn_id r)),
      (''action'', jopt (xr_action r)),
      (''result_view_id'', jopt (xr_result_view_id r)),
      (''result_valid'', case xr_result_valid r of None \<Rightarrow> JNone | Some b \<Rightarrow> JBool b),
      (''policy_allowed'', JBool (xr_policy_allowed r)),
      (''policy_reason'', jopt (xr_policy_reason r)),
      (''created_at'', JStr (cd_isoformat c (xr_created_at r))),
      (''accepted_at'', jopt (map_option (cd_isoformat c) (xr_accepted_at r))),
      (''completed_at'', jopt (map_option (cd_isoformat c) (xr_completed_at r))),
      (''metadata'', JDict (xr_metadata r))]"

definition rx_serialize :: "redis_store \<Rightarrow> exec_record \<Rightarrow> string" where
  "rx_serialize st r = cd_dumps (rs_codec st) (JDict (exec_fields (rs_codec st) r))"

definition exec_of_fields :: "codec \<Rightarrow> payload \<Rightarrow> exec_record option" where
  "exec_of_fields c d =
     do {
       exec_id \<leftarrow> fld_uuid d ''exec_id'';
       session_id \<leftarrow> fld_uuid d ''session_id'';
       correlation_id \<leftarrow> fld_uuid d ''correlation_id'';
       _ \<leftarrow> dget d ''idempotency_key'';
       idempotency_key \<leftarrow> fld_opt_str d ''idempotency_key'';
       status \<leftarrow> fld_str d ''status'';
       requester_conn_id \<leftarrow> fld_str d ''requester_conn_id'';
       action \<leftarrow> fld_opt_str d ''action'';
       result_view_id \<leftarrow> fld_opt_str d ''result_view_id'';
       result_valid \<leftarrow> fld_opt_bool d ''result_valid'';
       policy_allowed \<leftarrow> fld_bool d ''policy_allowed'';
       policy_reason \<leftarrow> fld_opt_str d ''policy_reason'';
       created_at \<leftarrow> fld_time c d ''created_at'';
       accepted_at \<leftarrow> fld_opt_time c d ''accepted_at'';
       completed_at \<leftarrow> fld_opt_time c d ''completed_at'';
       metadata \<leftarrow> fld_dict d ''metadata'';
       Some \<lparr>xr_exec_id = exec_id, xr_session_id = session_id, xr_correlation_id = correlation_id,
         xr_idempotency_key = idempotency_key, xr_status = status, xr_requester_conn_id = requester_conn_id,
         xr_action = action, xr_result_view_id = result_view_id, xr_result_valid = result_valid,
         xr_policy_allowed = policy_allowed, xr_policy_reason = policy_reason, xr_created_at = created_at,
         xr_accepted_at = accepted_at, xr_completed_at = completed_at, xr_metadata = metadata\<rparr>
     }"

definition rx_deserialize :: "redis_store \<Rightarrow> string \<Rightarrow> exec_record option" where
  "rx_deserialize st data =
     (case cd_loads (rs_codec st) data of Some (JDict d) \<Rightarrow> exec_of_fields (rs_codec st) d | _ \<Rightarrow> None)"

text \<open>The record under a key, if the key is there and its value is not empty.\<close>

definition rx_fetch :: "'s redis \<Rightarrow> redis_store \<Rightarrow> string \<Rightarrow> 's \<Rightarrow> redis_error + exec_record option" where
  "rx_fetch R st k s =
     (case rd_get R k s of
        None \<Rightarrow> Inr None
      | Some data \<Rightarrow>
          if data = [] then Inr None
          else (case rx_deserialize st data of None \<Rightarrow> Inl Unreadable | Some r \<Rightarrow> Inr (Some r)))"

definition rx_get ::
  "'s redis \<Rightarrow> redis_store \<Rightarrow> uuid option \<Rightarrow> string option \<Rightarrow> 's \<Rightarrow> redis_error + exec_record option" where
  "rx_get R st exec key s = (case exec of None \<Rightarrow> Inr None | Some e \<Rightarrow> rx_fetch R st (exec_key st e) s)"

definition rx_by_key ::
  "'s redis \<Rightarrow> redis_store \<Rightarrow> exec_record \<Rightarrow> 's \<Rightarrow> redis_error + exec_record option" where
  "rx_by_key R st r s =
     (if \<not> str_true (xr_idempotency_key r) then Inr None
      else case rd_get R (idem_key st (xr_session_id r) (the (xr_idempotency_key r))) s of
        None \<Rightarrow> Inr None
      | Some e \<Rightarrow>
          if e = [] then Inr None
          else (case uuid_parse e of None \<Rightarrow> Inl Unreadable | Some u \<Rightarrow> rx_get R st (Some u) None s))"

text \<open>The mapping of the key and the index of the session.\<close>

definition rx_index :: "'s redis \<Rightarrow> redis_store \<Rightarrow> exec_record \<Rightarrow> 's \<Rightarrow> 's" where
  "rx_index R st r s =
     (let s = (if str_true (xr_idempotency_key r)
            then rd_set R (idem_key st (xr_session_id r) (the (xr_idempotency_key r))) (uuid_str (xr_exec_id r)) (rs_ttl st) s
            else s);
          k = session_index_key st (xr_session_id r)
      in rd_expire R k (rs_ttl st) (rd_sadd R k (uuid_str (xr_exec_id r)) s))"

definition rx_put_if_absent ::
  "'s redis \<Rightarrow> redis_store \<Rightarrow> exec_record \<Rightarrow> 's \<Rightarrow> (redis_error + exec_record \<times> bool) \<times> 's" where
  "rx_put_if_absent R st r s =
     (case rx_by_key R st r s of
        Inl e \<Rightarrow> (Inl e, s)
      | Inr (Some old) \<Rightarrow> (Inr (old, False), s)
      | Inr None \<Rightarrow>
          (case rd_setnx R (exec_key st (xr_exec_id r)) (rx_serialize st r) (rs_ttl st) s of
             (True, s') \<Rightarrow> (Inr (r, True), rx_index R st r s')
           | (False, s') \<Rightarrow>
               (case rx_fetch R st (exec_key st (xr_exec_id r)) s' of
                  Inl e \<Rightarrow> (Inl e, s')
                | Inr (Some old) \<Rightarrow> (Inr (old, False), s')
                | Inr None \<Rightarrow> (Inr (r, True), rx_index R st r s'))))"

definition rx_set_status ::
  "'s redis \<Rightarrow> redis_store \<Rightarrow> uuid \<Rightarrow> string \<Rightarrow> exec_kwargs \<Rightarrow> 's \<Rightarrow> (redis_error + exec_record option) \<times> 's" where
  "rx_set_status R st e status kw s =
     (case rx_get R st (Some e) None s of
        Inl err \<Rightarrow> (Inl err, s)
      | Inr None \<Rightarrow> (Inr None, s)
      | Inr (Some r) \<Rightarrow>
          let r = xr_set_status status kw r in
          (Inr (Some r), rd_set R (exec_key st e) (rx_serialize st r) (rs_ttl st) s))"

fun rx_load_all :: "redis_store \<Rightarrow> string option list \<Rightarrow> exec_record list option" where
  "rx_load_all st [] = Some []"
| "rx_load_all st (v # vs) =
     (if v = None \<or> v = Some [] then rx_load_all st vs
      else do { r \<leftarrow> rx_deserialize st (the v); rs \<leftarrow> rx_load_all st vs; Some (r # rs) })"

fun uuids_of :: "string list \<Rightarrow> uuid list option" where
  "uuids_of [] = Some []"
| "uuids_of (s # ss) = do { u \<leftarrow> uuid_parse s; us \<leftarrow> uuids_of ss; Some (u # us) }"

definition rx_list_by_session ::
  "'s redis \<Rightarrow> redis_store \<Rightarrow> uuid \<Rightarrow> string option \<Rightarrow> 's \<Rightarrow> redis_error + exec_record list" where
  "rx_list_by_session R st i status s =
     (case do {
         ids \<leftarrow> uuids_of (rd_smembers R (session_index_key st i) s);
         rx_load_all st (map (\<lambda>e. rd_get R (exec_key st e) s) ids)
       } of
        None \<Rightarrow> Inl Unreadable
      | Some rs \<Rightarrow> Inr (sort_key xr_created_at (filter (\<lambda>r. status = None \<or> status = Some (xr_status r)) rs)))"

section \<open>Presence\<close>

record redis_registry = redis_store +
  rs_heartbeat_interval :: int

definition rr_init :: "string \<Rightarrow> int \<Rightarrow> int \<Rightarrow> codec \<Rightarrow> redis_registry" where
  "rr_init key_prefix presence_ttl_seconds heartbeat_interval_seconds c =
     \<lparr>rs_prefix = key_prefix, rs_ttl = presence_ttl_seconds, rs_codec = c,
      rs_heartbeat_interval = heartbeat_interval_seconds\<rparr>"

definition presence_key :: "redis_registry \<Rightarrow> string \<Rightarrow> string" where
  "presence_key st conn = rs_prefix st @ '':presence:'' @ conn"

definition tenant_index_key :: "redis_registry \<Rightarrow> string \<Rightarrow> string" where
  "tenant_index_key st tenant = rs_prefix st @ '':presence:tenant:'' @ tenant"

definition presence_fields :: "codec \<Rightarrow> presence_record \<Rightarrow> payload" where
  "presence_fields c r =
     [(''agent_id'', JStr (uuid_str (pz_agent_id r))),
      (''tenant_id'', JStr (pz_tenant_id r)),
      (''conn_id'', JStr (pz_conn_id r)),
      (''status'', JStr (pz_status r)),
      (''capabilities'', JList (map JStr (pz_capabilities r))),
      (''tags'', JList (map JStr (pz_tags r))),
      (''load'', JFloat (pz_load r)),
      (''last_seen'', JStr (cd_isoformat c (pz_last_seen r))),
      (''registered_at'', JStr (cd_isoformat c (pz_registered_at r))),
      (''metadata'', JDict (pz_metadata r))]"

definition rr_serialize :: "redis_registry \<Rightarrow> presence_record \<Rightarrow> string" where
  "rr_serialize st r = cd_dumps (rs_codec st) (JDict (presence_fields (rs_codec st) r))"

definition presence_of_fields :: "codec \<Rightarrow> payload \<Rightarrow> presence_record option" where
  "presence_of_fields c d =
     do {
       agent_id \<leftarrow> fld_uuid d ''agent_id'';
       tenant_id \<leftarrow> fld_str d ''tenant_id'';
       conn_id \<leftarrow> fld_str d ''conn_id'';
       status \<leftarrow> fld_str d ''status'';
       capabilities \<leftarrow> fld_strs d ''capabilities'';
       tags \<leftarrow> fld_strs d ''tags'';
       ld \<leftarrow> fld_rat d ''load'' 0;
       last_seen \<leftarrow> fld_time c d ''last_seen'';
       registered_at \<leftarrow> fld_time c d ''registered_at'';
       metadata \<leftarrow> fld_dict d ''metadata'';
       Some \<lparr>pz_agent_id = agent_id, pz_tenant_id = tenant_id, pz_conn_id = conn_id, pz_status = status,
         pz_capabilities = capabilities, pz_tags = tags, pz_load = ld, pz_last_seen = last_seen,
         pz_registered_at = registered_at, pz_metadata = metadata\<rparr>
     }"

definition rr_deserialize :: "redis_registry \<Rightarrow> string \<Rightarrow> presence_record option" where
  "rr_deserialize st data =
     (case cd_loads (rs_codec st) data of Some (JDict d) \<Rightarrow> presence_of_fields (rs_codec st) d | _ \<Rightarrow> None)"

definition rr_fetch :: "'s redis \<Rightarrow> redis_registry \<Rightarrow> string \<Rightarrow> 's \<Rightarrow> redis_error + presence_record option" where
  "rr_fetch R st k s =
     (case rd_get R k s of
        None \<Rightarrow> Inr None
      | Some data \<Rightarrow>
          if data = [] then Inr None
          else (case rr_deserialize st data of None \<Rightarrow> Inl Unreadable | Some r \<Rightarrow> Inr (Some r)))"

definition rr_upsert ::
  "'s redis \<Rightarrow> redis_registry \<Rightarrow> datetime \<Rightarrow> presence_record \<Rightarrow> 's \<Rightarrow> presence_record \<times> 's" where
  "rr_upsert R st now r s =
     (let r = r\<lparr>pz_last_seen := now\<rparr>;
          s = rd_set R (presence_key st (pz_conn_id r)) (rr_serialize st r) (rs_ttl st) s;
          k = tenant_index_key st (pz_tenant_id r)
      in (r, rd_expire R k (rs_ttl st) (rd_sadd R k (pz_conn_id r) s)))"

definition rr_heartbeat ::
  "'s redis \<Rightarrow> redis_registry \<Rightarrow> datetime \<Rightarrow> string \<Rightarrow> rat option \<Rightarrow> 's \<Rightarrow> (redis_error + bool) \<times> 's" where
  "rr_heartbeat R st now conn load s =
     (case rr_fetch R st (presence_key st conn) s of
        Inl e \<Rightarrow> (Inl e, s)
      | Inr None \<Rightarrow> (Inr False, s)
      | Inr (Some r) \<Rightarrow>
          let r = r\<lparr>pz_last_seen := now, pz_load := given load (pz_load r)\<rparr> in
          (Inr True, rd_set R (presence_key st conn) (rr_serialize st r) (rs_ttl st) s))"

definition rr_remove :: "'s redis \<Rightarrow> redis_registry \<Rightarrow> string \<Rightarrow> 's \<Rightarrow> (redis_error + bool) \<times> 's" where
  "rr_remove R st conn s =
     (case rr_fetch R st (presence_key st conn) s of
        Inl e \<Rightarrow> (Inl e, s)
      | Inr None \<Rightarrow> (Inr False, s)
      | Inr (Some r) \<Rightarrow>
          let s = rd_srem R (tenant_index_key st (pz_tenant_id r)) conn s;
              (n, s) = rd_delete R (presence_key st conn) s
          in (Inr (0 < n), s))"

fun rr_load_all :: "redis_registry \<Rightarrow> string option list \<Rightarrow> presence_record list option" where
  "rr_load_all st [] = Some []"
| "rr_load_all st (v # vs) =
     (if v = None \<or> v = Some [] then rr_load_all st vs
      else do { r \<leftarrow> rr_deserialize st (the v); rs \<leftarrow> rr_load_all st vs; Some (r # rs) })"

definition rr_list_by_tenant ::
  "'s redis \<Rightarrow> redis_registry \<Rightarrow> string \<Rightarrow> string option \<Rightarrow> string option \<Rightarrow> string option \<Rightarrow> 's \<Rightarrow>
     redis_error + presence_record list" where
  "rr_list_by_tenant R st tenant status capability tag s =
     (case rr_load_all st (map (\<lambda>c. rd_get R (presence_key st c) s) (rd_smembers R (tenant_index_key st tenant) s)) of
        None \<Rightarrow> Inl Unreadable
      | Some rs \<Rightarrow> Inr (sort_key pz_registered_at (filter (\<lambda>r. str_filter status (pz_status r) \<and>
            (str_true capability \<longrightarrow> the capability \<in> set (pz_capabilities r)) \<and>
            (str_true tag \<longrightarrow> the tag \<in> set (pz_tags r))) rs)))"

definition rr_stale :: "datetime \<Rightarrow> rat \<Rightarrow> presence_record \<Rightarrow> bool" where
  "rr_stale cutoff timeout r = (timeout < of_int (cutoff - pz_last_seen r) / 1000000 \<and> pz_status r = ''online'')"

text \<open>One page of the scan; the count is of the records marked so far.\<close>

fun rr_expire_keys ::
  "'s redis \<Rightarrow> redis_registry \<Rightarrow> datetime \<Rightarrow> rat \<Rightarrow> string list \<Rightarrow> int \<Rightarrow> 's \<Rightarrow> (redis_error + int) \<times> 's" where
  "rr_expire_keys R st cutoff timeout [] n s = (Inr n, s)"
| "rr_expire_keys R st cutoff timeout (k # ks) n s =
     (if sublist '':tenant:'' k then rr_expire_keys R st cutoff timeout ks n s
      else case rr_fetch R st k s of
        Inl e \<Rightarrow> (Inl e, s)
      | Inr None \<Rightarrow> rr_expire_keys R st cutoff timeout ks n s
      | Inr (Some r) \<Rightarrow>
          if rr_stale cutoff timeout r then
            rr_expire_keys R st cutoff timeout ks (n + 1)
              (rd_set R k (rr_serialize st (r\<lparr>pz_status := ''offline''\<rparr>)) (rs_ttl st) s)
          else rr_expire_keys R st cutoff timeout ks n s)"

text \<open>The scan goes on until the cursor is 0 again; None when it never is.\<close>

partial_function (option) rr_expire_scan ::
  "'s redis \<Rightarrow> redis_registry \<Rightarrow> datetime \<Rightarrow> rat \<Rightarrow> int \<Rightarrow> int \<Rightarrow> 's \<Rightarrow> ((redis_error + int) \<times> 's) option" where
  "rr_expire_scan R st cutoff timeout cursor n s =
     (let (cursor, keys) = rd_scan R cursor (rs_prefix st @ '':presence:*'') 100 s in
      case rr_expire_keys R st cutoff timeout keys n s of
        (Inl e, s) \<Rightarrow> Some (Inl e, s)
      | (Inr n, s) \<Rightarrow> if cursor = 0 then Some (Inr n, s) else rr_expire_scan R st cutoff timeout cursor n s)"

definition rr_expire_stale ::
  "'s redis \<Rightarrow> redis_registry \<Rightarrow> datetime \<Rightarrow> rat \<Rightarrow> 's \<Rightarrow> ((redis_error + int) \<times> 's) option" where
  "rr_expire_stale R st cutoff timeout s = rr_expire_scan R st cutoff timeout 0 0 s"

section \<open>What is written can be read\<close>

lemma rx_roundtrip [simp]: "codec_ok (rs_codec st) \<Longrightarrow> rx_deserialize st (rx_serialize st r) = Some r"
  by (cases r) (auto simp: rx_serialize_def rx_deserialize_def exec_fields_def exec_of_fields_def fld_defs
      jopt_def split: option.split)

lemma rr_roundtrip [simp]: "codec_ok (rs_codec st) \<Longrightarrow> rr_deserialize st (rr_serialize st r) = Some r"
  by (simp add: rr_serialize_def rr_deserialize_def presence_fields_def presence_of_fields_def fld_defs)

lemma serialize_not_Nil [simp]:
  "codec_ok (rs_codec st) \<Longrightarrow> rx_serialize st r \<noteq> []" "codec_ok (rs_codec reg) \<Longrightarrow> rr_serialize reg p \<noteq> []"
  by (simp_all add: rx_serialize_def rr_serialize_def)

end
