(* ===== verification/Storage_Redis_Props.thy ===== *)
theory Storage_Redis_Props
  imports Storage_Redis Storage_Sql_Props
begin

text \<open>
  What the adapters of \<open>src/storage/redis.py\<close> guarantee while no key expires: the execution store is the
  in-memory one with keys scoped by the session, and the registry is a table of connections.
\<close>

section \<open>The laws of the client\<close>

text \<open>
  Keys that hold sets are told from keys that hold strings by \<open>S\<close>: a command for one kind is not defined on
  the other. A time to live is positive.
\<close>

definition strings_ok :: "(string \<Rightarrow> bool) \<Rightarrow> 's redis \<Rightarrow> bool" where
  "strings_ok S R =
     ((\<forall>s k j v ttl. \<not> S k \<longrightarrow> 0 < ttl \<longrightarrow> \<not> S j \<longrightarrow>
         rd_get R j (rd_set R k v ttl s) = (if j = k then Some v else rd_get R j s)) \<and>
      (\<forall>s k v ttl. \<not> S k \<longrightarrow> 0 < ttl \<longrightarrow>
         rd_setnx R k v ttl s = (if rd_get R k s = None then (True, rd_set R k v ttl s) else (False, s))) \<and>
      (\<forall>s k j. \<not> S k \<longrightarrow> \<not> S j \<longrightarrow> rd_get R j (snd (rd_delete R k s)) = (if j = k then None else rd_get R j s)) \<and>
      (\<forall>s k. \<not> S k \<longrightarrow> fst (rd_delete R k s) = (if rd_get R k s = None then 0 else 1)))"

definition sets_ok :: "(string \<Rightarrow> bool) \<Rightarrow> 's redis \<Rightarrow> bool" where
  "sets_ok S R =
     ((\<forall>s k j v. S k \<longrightarrow> S j \<longrightarrow> set (rd_smembers R j (rd_sadd R k v s)) =
         (if j = k then insert v (set (rd_smembers R j s)) else set (rd_smembers R j s))) \<and>
      (\<forall>s k j v. S k \<longrightarrow> S j \<longrightarrow> set (rd_smembers R j (rd_srem R k v s)) =
         (if j = k then set (rd_smembers R j s) - {v} else set (rd_smembers R j s))) \<and>
      (\<forall>s k. S k \<longrightarrow> distinct (rd_smembers R k s)))"

definition apart_ok :: "(string \<Rightarrow> bool) \<Rightarrow> 's redis \<Rightarrow> bool" where
  "apart_ok S R =
     ((\<forall>s k j v ttl. \<not> S k \<longrightarrow> S j \<longrightarrow> 0 < ttl \<longrightarrow> set (rd_smembers R j (rd_set R k v ttl s)) = set (rd_smembers R j s)) \<and>
      (\<forall>s k j. \<not> S k \<longrightarrow> S j \<longrightarrow> set (rd_smembers R j (snd (rd_delete R k s))) = set (rd_smembers R j s)) \<and>
      (\<forall>s k j v. S k \<longrightarrow> \<not> S j \<longrightarrow> rd_get R j (rd_sadd R k v s) = rd_get R j s) \<and>
      (\<forall>s k j v. S k \<longrightarrow> \<not> S j \<longrightarrow> rd_get R j (rd_srem R k v s) = rd_get R j s) \<and>
      (\<forall>s k j ttl. 0 < ttl \<longrightarrow> \<not> S j \<longrightarrow> rd_get R j (rd_expire R k ttl s) = rd_get R j s) \<and>
      (\<forall>s k j ttl. 0 < ttl \<longrightarrow> S j \<longrightarrow> set (rd_smembers R j (rd_expire R k ttl s)) = set (rd_smembers R j s)))"

definition redis_ok :: "(string \<Rightarrow> bool) \<Rightarrow> 's redis \<Rightarrow> bool" where
  "redis_ok S R = (strings_ok S R \<and> sets_ok S R \<and> apart_ok S R)"

lemma rd_strings:
  assumes "redis_ok S R"
  shows "\<not> S k \<Longrightarrow> 0 < ttl \<Longrightarrow> \<not> S j \<Longrightarrow> rd_get R j (rd_set R k v ttl s) = (if j = k then Some v else rd_get R j s)"
    "\<not> S k \<Longrightarrow> 0 < ttl \<Longrightarrow> rd_setnx R k v ttl s = (if rd_get R k s = None then (True, rd_set R k v ttl s) else (False, s))"
    "\<not> S k \<Longrightarrow> \<not> S j \<Longrightarrow> rd_get R j (snd (rd_delete R k s)) = (if j = k then None else rd_get R j s)"
    "\<not> S k \<Longrightarrow> fst (rd_delete R k s) = (if rd_get R k s = None then 0 else 1)"
  using assms by (simp_all add: redis_ok_def strings_ok_def)

lemma rd_sets:
  assumes "redis_ok S R"
  shows "S k \<Longrightarrow> S j \<Longrightarrow> set (rd_smembers R j (rd_sadd R k v s)) =
       (if j = k then insert v (set (rd_smembers R j s)) else set (rd_smembers R j s))"
    "S k \<Longrightarrow> S j \<Longrightarrow> set (rd_smembers R j (rd_srem R k v s)) =
       (if j = k then set (rd_smembers R j s) - {v} else set (rd_smembers R j s))"
    "S k \<Longrightarrow> distinct (rd_smembers R k s)"
  using assms by (simp_all add: redis_ok_def sets_ok_def)

lemma rd_apart:
  assumes "redis_ok S R"
  shows "\<not> S k \<Longrightarrow> S j \<Longrightarrow> 0 < ttl \<Longrightarrow> set (rd_smembers R j (rd_set R k v ttl s)) = set (rd_smembers R j s)"
    "\<not> S k \<Longrightarrow> S j \<Longrightarrow> set (rd_smembers R j (snd (rd_delete R k s))) = set (rd_smembers R j s)"
    "S k \<Longrightarrow> \<not> S j \<Longrightarrow> rd_get R j (rd_sadd R k v s) = rd_get R j s"
    "S k \<Longrightarrow> \<not> S j \<Longrightarrow> rd_get R j (rd_srem R k v s) = rd_get R j s"
    "0 < ttl \<Longrightarrow> \<not> S j \<Longrightarrow> rd_get R j (rd_expire R k ttl s) = rd_get R j s"
    "0 < ttl \<Longrightarrow> S j \<Longrightarrow> set (rd_smembers R j (rd_expire R k ttl s)) = set (rd_smembers R j s)"
  using assms by (simp_all add: redis_ok_def apart_ok_def)

section \<open>Keys\<close>

definition exec_set_key :: "redis_store \<Rightarrow> string \<Rightarrow> bool" where
  "exec_set_key st k = (\<exists>i. k = session_index_key st i)"

lemma exec_keys [simp]:
  "exec_key st e = exec_key st f \<longleftrightarrow> e = f"
  "session_index_key st i = session_index_key st j \<longleftrightarrow> i = j"
  "\<not> exec_set_key st (exec_key st e)" "\<not> exec_set_key st (idem_key st i k)" "exec_set_key st (session_index_key st i)"
proof -
  have "exec_key st e \<noteq> session_index_key st i" for i
  proof
    assume "exec_key st e = session_index_key st i"
    then have "length (exec_key st e) = length (session_index_key st i)" by simp
    then show False by (simp add: exec_key_def session_index_key_def)
  qed
  then show "\<not> exec_set_key st (exec_key st e)" by (simp add: exec_set_key_def)
qed (auto simp: exec_key_def session_index_key_def idem_key_def exec_set_key_def)

lemma idem_not_exec [simp]: "idem_key st i k \<noteq> exec_key st e" "exec_key st e \<noteq> idem_key st i k"
proof -
  show "idem_key st i k \<noteq> exec_key st e"
  proof
    assume "idem_key st i k = exec_key st e"
    then have "length (idem_key st i k) = length (exec_key st e)" by simp
    then show False by (simp add: exec_key_def idem_key_def)
  qed
  then show "exec_key st e \<noteq> idem_key st i k" by (rule not_sym)
qed

lemma idem_inject [simp]: "idem_key st i k = idem_key st j l \<longleftrightarrow> i = j \<and> k = l"
  by (auto simp: idem_key_def append_eq_append_conv)

section \<open>Executions are those of the in-memory store\<close>

text \<open>A record as the in-memory store has to be given it: the key is scoped by the session.\<close>

definition scoped_key :: "uuid \<Rightarrow> string \<Rightarrow> string" where
  "scoped_key i k = uuid_str i @ '':'' @ k"

definition scoped :: "exec_record \<Rightarrow> exec_record" where
  "scoped r = (if str_true (xr_idempotency_key r)
     then r\<lparr>xr_idempotency_key := Some (scoped_key (xr_session_id r) (the (xr_idempotency_key r)))\<rparr> else r)"

fun rx_step :: "'s redis \<Rightarrow> redis_store \<Rightarrow> exec_call \<Rightarrow> 's \<Rightarrow> (redis_error + exec_answer) \<times> 's" where
  "rx_step R st (PutC r) s = map_prod (map_sum id (\<lambda>a. AnsPut (Inr a))) id (rx_put_if_absent R st r s)"
| "rx_step R st (SetC e status kw) s = map_prod (map_sum id AnsSet) id (rx_set_status R st e status kw s)"
| "rx_step R st (GetC e k) s = (map_sum id (\<lambda>a. AnsGet (Inr a)) (rx_get R st e k s), s)"

text \<open>The same call and the same answer with scoped keys, for the in-memory store.\<close>

fun scoped_call :: "exec_call \<Rightarrow> exec_call" where
  "scoped_call (PutC r) = PutC (scoped r)"
| "scoped_call p = p"

fun scoped_answer :: "exec_answer \<Rightarrow> exec_answer" where
  "scoped_answer (AnsPut a) = AnsPut (map_sum id (map_prod scoped id) a)"
| "scoped_answer (AnsSet a) = AnsSet (map_option scoped a)"
| "scoped_answer (AnsGet a) = AnsGet (map_sum id (map_option scoped) a)"

text \<open>A lookup by a key alone, which Redis does not answer.\<close>

fun by_key_alone :: "exec_call \<Rightarrow> bool" where
  "by_key_alone (GetC e k) = (e = None \<and> str_true k)"
| "by_key_alone p = False"

definition rx_sim :: "'s redis \<Rightarrow> redis_store \<Rightarrow> 's \<Rightarrow> exec_mem \<Rightarrow> bool" where
  "rx_sim R st s x =
     (xm_inv x \<and>
      (\<forall>e. (dget (xm_execs x) e = None \<and> rd_get R (exec_key st e) s = None) \<or>
         (\<exists>r. dget (xm_execs x) e = Some (scoped r) \<and> rd_get R (exec_key st e) s = Some (rx_serialize st r))) \<and>
      (\<forall>i k. k \<noteq> [] \<longrightarrow> rd_get R (idem_key st i k) s = map_option uuid_str (dget (xm_by_idempotency x) (scoped_key i k))) \<and>
      (\<forall>i. set (rd_smembers R (session_index_key st i) s) = uuid_str ` set (dget_or (xm_by_session x) i [])))"

lemma scoped_simps [simp]:
  "xr_exec_id (scoped r) = xr_exec_id r" "xr_session_id (scoped r) = xr_session_id r"
  "xr_status (scoped r) = xr_status r" "xr_created_at (scoped r) = xr_created_at r"
  "str_true (xr_idempotency_key (scoped r)) = str_true (xr_idempotency_key r)"
  "xr_set_status status kw (scoped r) = scoped (xr_set_status status kw r)"
  by (simp_all add: scoped_def xr_set_status_def scoped_key_def)

lemma scoped_key_of:
  "str_true (xr_idempotency_key r) \<Longrightarrow> the (xr_idempotency_key (scoped r)) = scoped_key (xr_session_id r) (the (xr_idempotency_key r))"
  by (simp add: scoped_def)

lemma scoped_key_inject [simp]: "scoped_key i k = scoped_key j l \<longleftrightarrow> i = j \<and> k = l"
  by (auto simp: scoped_key_def append_eq_append_conv)

definition rx_ok :: "'s redis \<Rightarrow> redis_store \<Rightarrow> bool" where
  "rx_ok R st = (redis_ok (exec_set_key st) R \<and> codec_ok (rs_codec st) \<and> 0 < rs_ttl st)"

lemma rx_okD:
  assumes "rx_ok R st"
  shows "redis_ok (exec_set_key st) R" "codec_ok (rs_codec st)" "0 < rs_ttl st"
  using assms by (simp_all add: rx_ok_def)


lemma rx_fetch_sim:
  assumes ok: "rx_ok R st" and sim: "rx_sim R st s x"
  shows "\<exists>y. rx_fetch R st (exec_key st e) s = Inr y \<and> dget (xm_execs x) e = map_option scoped y"
proof -
  have "(dget (xm_execs x) e = None \<and> rd_get R (exec_key st e) s = None) \<or>
      (\<exists>r. dget (xm_execs x) e = Some (scoped r) \<and> rd_get R (exec_key st e) s = Some (rx_serialize st r))"
    using sim by (simp add: rx_sim_def)
  then show ?thesis by (auto simp: rx_fetch_def rx_okD(2) [OF ok])
qed

lemma rx_by_key_sim:
  assumes ok: "rx_ok R st" and sim: "rx_sim R st s x"
  shows "\<exists>y. rx_by_key R st r s = Inr y \<and>
    map_option scoped y = (if str_true (xr_idempotency_key r) then xm_get None (xr_idempotency_key (scoped r)) x else None)"
proof (cases "str_true (xr_idempotency_key r)")
  case True
  then obtain k where k: "xr_idempotency_key r = Some k" "k \<noteq> []" by (cases "xr_idempotency_key r") auto
  have sk: "xr_idempotency_key (scoped r) = Some (scoped_key (xr_session_id r) k)" using k by (simp add: scoped_def)
  have idem: "rd_get R (idem_key st (xr_session_id r) k) s =
      map_option uuid_str (dget (xm_by_idempotency x) (scoped_key (xr_session_id r) k))"
    using sim k(2) by (simp add: rx_sim_def)
  show ?thesis
  proof (cases "dget (xm_by_idempotency x) (scoped_key (xr_session_id r) k)")
    case None
    then show ?thesis using idem k sk by (simp add: rx_by_key_def xm_get_def)
  next
    case (Some e)
    obtain y where "rx_fetch R st (exec_key st e) s = Inr y" "dget (xm_execs x) e = map_option scoped y"
      using rx_fetch_sim [OF ok sim] by blast
    then show ?thesis using idem k sk Some by (simp add: rx_by_key_def rx_get_def xm_get_def scoped_key_def)
  qed
qed (simp add: rx_by_key_def)

lemma rx_create_sim:
  assumes ok: "rx_ok R st" and sim: "rx_sim R st s x" and none: "exec_lookup xm_get (scoped r) x = None"
  shows "rx_sim R st (rx_index R st r (rd_set R (exec_key st (xr_exec_id r)) (rx_serialize st r) (rs_ttl st) s))
    (snd (xm_put_if_absent (scoped r) x))"
proof -
  have inv: "xm_inv x" using sim by (simp add: rx_sim_def)
  have fresh: "dget (xm_execs x) (xr_exec_id r) = None" using exec_lookup_NoneD [OF none] by simp
  let ?s = "rx_index R st r (rd_set R (exec_key st (xr_exec_id r)) (rx_serialize st r) (rs_ttl st) s)"
  let ?x = "snd (xm_put_if_absent (scoped r) x)"
  have put: "?x = x\<lparr>xm_execs := dset (xr_exec_id r) (scoped r) (xm_execs x),
            xm_by_idempotency := (if str_true (xr_idempotency_key r)
              then dset (the (xr_idempotency_key (scoped r))) (xr_exec_id r) (xm_by_idempotency x)
              else xm_by_idempotency x),
            xm_by_session := ix_append (xr_session_id r) (xr_exec_id r) (xm_by_session x)\<rparr>"
    using none by (simp add: xm_put_if_absent_def xm_existing_lookup [OF inv])
  have execs: "rd_get R (exec_key st e) ?s = (if e = xr_exec_id r then Some (rx_serialize st r) else rd_get R (exec_key st e) s)" for e
    by (auto simp: rx_index_def Let_def rd_strings [OF rx_okD(1) [OF ok]] rd_apart [OF rx_okD(1) [OF ok]] rx_okD(3) [OF ok])
  have idem: "rd_get R (idem_key st i k) ?s =
      (if str_true (xr_idempotency_key r) \<and> i = xr_session_id r \<and> k = the (xr_idempotency_key r)
       then Some (uuid_str (xr_exec_id r)) else rd_get R (idem_key st i k) s)" for i k
    by (auto simp: rx_index_def Let_def rd_strings [OF rx_okD(1) [OF ok]] rd_apart [OF rx_okD(1) [OF ok]] rx_okD(3) [OF ok])
  have mem: "set (rd_smembers R (session_index_key st i) ?s) =
      (if i = xr_session_id r then insert (uuid_str (xr_exec_id r)) (set (rd_smembers R (session_index_key st i) s))
       else set (rd_smembers R (session_index_key st i) s))" for i
    by (auto simp: rx_index_def Let_def rd_sets [OF rx_okD(1) [OF ok]] rd_apart [OF rx_okD(1) [OF ok]] rx_okD(3) [OF ok])
  have "xm_inv ?x" using xm_put_new [OF inv none] by simp
  moreover have "(dget (xm_execs ?x) e = None \<and> rd_get R (exec_key st e) ?s = None) \<or>
      (\<exists>r. dget (xm_execs ?x) e = Some (scoped r) \<and> rd_get R (exec_key st e) ?s = Some (rx_serialize st r))" for e
    using sim by (auto simp: put execs rx_sim_def)
  moreover have "rd_get R (idem_key st i k) ?s = map_option uuid_str (dget (xm_by_idempotency ?x) (scoped_key i k))"
    if "k \<noteq> []" for i k
    using sim that by (auto simp: put idem rx_sim_def scoped_key_of)
  moreover have "set (rd_smembers R (session_index_key st i) ?s) = uuid_str ` set (dget_or (xm_by_session ?x) i [])" for i
    using sim by (auto simp: put mem rx_sim_def)
  ultimately show ?thesis unfolding rx_sim_def by blast
qed

lemma rx_put_sim:
  assumes ok: "rx_ok R st" and sim: "rx_sim R st s x"
  shows "\<exists>old b. fst (rx_put_if_absent R st r s) = Inr (old, b) \<and> fst (xm_put_if_absent (scoped r) x) = (scoped old, b) \<and>
    rx_sim R st (snd (rx_put_if_absent R st r s)) (snd (xm_put_if_absent (scoped r) x))"
proof -
  have inv: "xm_inv x" using sim by (simp add: rx_sim_def)
  obtain y where y: "rx_by_key R st r s = Inr y"
      "map_option scoped y = (if str_true (xr_idempotency_key r) then xm_get None (xr_idempotency_key (scoped r)) x else None)"
    using rx_by_key_sim [OF ok sim] by blast
  obtain z where z: "rx_fetch R st (exec_key st (xr_exec_id r)) s = Inr z" "dget (xm_execs x) (xr_exec_id r) = map_option scoped z"
    using rx_fetch_sim [OF ok sim] by blast
  have lookup: "exec_lookup xm_get (scoped r) x = (case y of None \<Rightarrow> map_option scoped z | Some old \<Rightarrow> Some (scoped old))"
    using y(2) [symmetric] z(2) by (cases y) (auto simp: exec_lookup_def xm_get_def [of "Some _"] split: if_splits)
  have nx: "rd_setnx R (exec_key st (xr_exec_id r)) (rx_serialize st r) (rs_ttl st) s =
      (if rd_get R (exec_key st (xr_exec_id r)) s = None
       then (True, rd_set R (exec_key st (xr_exec_id r)) (rx_serialize st r) (rs_ttl st) s) else (False, s))"
    by (rule rd_strings [OF rx_okD(1) [OF ok]]) (simp_all add: rx_okD(3) [OF ok])
  have here: "rd_get R (exec_key st (xr_exec_id r)) s = None \<longleftrightarrow> z = None"
  proof -
    have "(dget (xm_execs x) (xr_exec_id r) = None \<and> rd_get R (exec_key st (xr_exec_id r)) s = None) \<or>
        (\<exists>q. dget (xm_execs x) (xr_exec_id r) = Some (scoped q) \<and>
           rd_get R (exec_key st (xr_exec_id r)) s = Some (rx_serialize st q))"
      using sim by (simp add: rx_sim_def)
    then show ?thesis using z(2) by auto
  qed
  show ?thesis
  proof (cases "exec_lookup xm_get (scoped r) x")
    case (Some old)
    have "fst (rx_put_if_absent R st r s) = Inr (the (case y of None \<Rightarrow> z | Some o' \<Rightarrow> Some o'), False) \<and>
        snd (rx_put_if_absent R st r s) = s"
      using Some lookup here by (cases y; cases z) (simp_all add: rx_put_if_absent_def y(1) z(1) nx)
    moreover have "old = scoped (the (case y of None \<Rightarrow> z | Some o' \<Rightarrow> Some o'))"
      using Some lookup by (cases y; cases z) simp_all
    moreover have "xm_put_if_absent (scoped r) x = ((old, False), x)" by (rule xm.put_old [OF inv Some])
    ultimately show ?thesis using sim by auto
  next
    case None
    then have "y = None" "z = None" using lookup by (auto split: option.splits)
    then have "rx_put_if_absent R st r s =
        (Inr (r, True), rx_index R st r (rd_set R (exec_key st (xr_exec_id r)) (rx_serialize st r) (rs_ttl st) s))"
      using here by (simp add: rx_put_if_absent_def y(1) nx)
    moreover have "fst (xm_put_if_absent (scoped r) x) = (scoped r, True)" using xm_put_new [OF inv None] by simp
    ultimately show ?thesis using rx_create_sim [OF ok sim None] by auto
  qed
qed

lemma rx_set_sim:
  assumes ok: "rx_ok R st" and sim: "rx_sim R st s x"
  shows "\<exists>y. fst (rx_set_status R st e status kw s) = Inr y \<and> fst (xm_set_status e status kw x) = map_option scoped y \<and>
    rx_sim R st (snd (rx_set_status R st e status kw s)) (snd (xm_set_status e status kw x))"
proof -
  obtain z where z: "rx_fetch R st (exec_key st e) s = Inr z" "dget (xm_execs x) e = map_option scoped z"
    using rx_fetch_sim [OF ok sim] by blast
  show ?thesis
  proof (cases z)
    case None
    then show ?thesis using z sim by (simp add: rx_set_status_def rx_get_def xm_set_status_def)
  next
    case (Some r)
    let ?r = "xr_set_status status kw r"
    let ?s = "rd_set R (exec_key st e) (rx_serialize st ?r) (rs_ttl st) s"
    have x: "xm_set_status e status kw x = (Some (scoped ?r), x\<lparr>xm_execs := dset e (scoped ?r) (xm_execs x)\<rparr>)"
      using z(2) Some by (simp add: xm_set_status_def)
    have "xm_inv (x\<lparr>xm_execs := dset e (scoped ?r) (xm_execs x)\<rparr>)"
      using xm_set_status_inv [of x e status kw] sim by (simp add: x rx_sim_def)
    then have "rx_sim R st ?s (x\<lparr>xm_execs := dset e (scoped ?r) (xm_execs x)\<rparr>)"
      using sim by (auto simp: rx_sim_def rd_strings [OF rx_okD(1) [OF ok]] rd_apart [OF rx_okD(1) [OF ok]] rx_okD(3) [OF ok])
    then show ?thesis using z(1) Some by (simp add: rx_set_status_def rx_get_def x Let_def)
  qed
qed

lemma rx_step_sim:
  assumes ok: "rx_ok R st" and sim: "rx_sim R st s x" and "\<not> by_key_alone p"
  shows "map_sum id scoped_answer (fst (rx_step R st p s)) = Inr (fst (xm_step (scoped_call p) x)) \<and>
    rx_sim R st (snd (rx_step R st p s)) (snd (xm_step (scoped_call p) x))"
proof (cases p)
  case (PutC r)
  then show ?thesis using rx_put_sim [OF ok sim, of r] by (auto simp: case_prod_beta)
next
  case (SetC e status kw)
  then show ?thesis using rx_set_sim [OF ok sim, of e status kw] by (auto simp: case_prod_beta)
next
  case (GetC e k)
  then show ?thesis using rx_fetch_sim [OF ok sim, of "the e"] sim assms(3)
    by (cases e) (auto simp: rx_get_def xm_get_def)
qed

text \<open>What a lookup by a key alone answers: nothing, where the in-memory store has the execution of the key.\<close>

lemma rx_get_by_key_alone: "rx_get R st None k s = Inr None"
  by (simp add: rx_get_def)

lemma uuids_of_map: "set ss \<subseteq> range uuid_str \<Longrightarrow> \<exists>us. uuids_of ss = Some us \<and> ss = map uuid_str us"
  by (induction ss) (auto intro: exI [of _ "_ # _"])

lemma rx_load_all_map:
  "codec_ok (rs_codec st) \<Longrightarrow> rx_load_all st (map (\<lambda>e. Some (rx_serialize st (f e))) es) = Some (map f es)"
  by (induction es) simp_all

lemma rx_list_sim:
  assumes ok: "rx_ok R st" and sim: "rx_sim R st s x"
  shows "\<exists>rs. rx_list_by_session R st i status s = Inr rs \<and> sorted (map xr_created_at rs) \<and>
    scoped ` set rs = set (xm_list_by_session i status x)"
proof -
  let ?es = "dget_or (xm_by_session x) i []"
  have mem: "set (rd_smembers R (session_index_key st i) s) = uuid_str ` set ?es" using sim by (simp add: rx_sim_def)
  then have "set (rd_smembers R (session_index_key st i) s) \<subseteq> range uuid_str" by auto
  then obtain us where us': "uuids_of (rd_smembers R (session_index_key st i) s) = Some us"
      "rd_smembers R (session_index_key st i) s = map uuid_str us" using uuids_of_map by blast
  have "uuid_str ` set us = uuid_str ` set ?es" using mem us'(2) by simp
  then have "set us = set ?es" by (simp add: inj_image_eq_iff inj_def)
  note us = us'(1) this
  have "\<forall>e\<in>set us. \<exists>r. dget (xm_execs x) e = Some (scoped r) \<and> rd_get R (exec_key st e) s = Some (rx_serialize st r)"
  proof
    fix e assume "e \<in> set us"
    then have "dget (xm_execs x) e \<noteq> None" using sim us(2) by (auto simp: rx_sim_def xm_inv_def)
    then show "\<exists>r. dget (xm_execs x) e = Some (scoped r) \<and> rd_get R (exec_key st e) s = Some (rx_serialize st r)"
      using sim unfolding rx_sim_def by metis
  qed
  then obtain f where f: "\<forall>e\<in>set us. dget (xm_execs x) e = Some (scoped (f e)) \<and>
      rd_get R (exec_key st e) s = Some (rx_serialize st (f e))" by metis
  then have vals: "map (\<lambda>e. rd_get R (exec_key st e) s) us = map (\<lambda>e. Some (rx_serialize st (f e))) us" by simp
  have "rx_load_all st (map (\<lambda>e. rd_get R (exec_key st e) s) us) = Some (map f us)"
    unfolding vals by (rule rx_load_all_map [OF rx_okD(2) [OF ok]])
  then have list: "rx_list_by_session R st i status s =
      Inr (sort_key xr_created_at (filter (\<lambda>r. status = None \<or> status = Some (xr_status r)) (map f us)))"
    by (simp add: rx_list_by_session_def us(1))
  have "set (List.map_filter (dget (xm_execs x)) ?es) = (\<lambda>e. scoped (f e)) ` set us"
    using f us(2) by (auto simp: set_map_filter image_iff)
  then have "scoped ` set (filter (\<lambda>r. status = None \<or> status = Some (xr_status r)) (map f us)) =
      set (xm_list_by_session i status x)"
    by (auto simp: xm_list_by_session_def)
  then show ?thesis using list by auto
qed

text \<open>C19: as long as no key expires, the Redis execution store answers every sequence of calls without a lookup by an
  idempotency key alone exactly as the in-memory store answers the same calls with keys that begin with the session: an
  idempotency key is honoured within its session, and only there. No call fails to read what an earlier one wrote, and the
  executions of a session are those of the in-memory store, listed by the time of their creation. A lookup by a key alone,
  in whatever state, answers that there is none.\<close>

theorem redis_execs_equal_memory:
  assumes "rx_ok R st" and "rx_sim R st s x" and "\<forall>p\<in>set ps. \<not> by_key_alone p"
  shows "map (map_sum id scoped_answer) (fst (answers (rx_step R st) ps s)) =
      map Inr (fst (answers xm_step (map scoped_call ps) x)) \<and>
    rx_sim R st (snd (answers (rx_step R st) ps s)) (snd (answers xm_step (map scoped_call ps) x)) \<and>
    (\<forall>i status. \<exists>rs. rx_list_by_session R st i status (snd (answers (rx_step R st) ps s)) = Inr rs \<and>
       sorted (map xr_created_at rs) \<and>
       scoped ` set rs = set (xm_list_by_session i status (snd (answers xm_step (map scoped_call ps) x)))) \<and>
    (\<forall>k s. rx_get R st None k s = Inr None)"
proof -
  have "map (map_sum id scoped_answer) (fst (answers (rx_step R st) ps s)) =
      map Inr (fst (answers xm_step (map scoped_call ps) x)) \<and>
    rx_sim R st (snd (answers (rx_step R st) ps s)) (snd (answers xm_step (map scoped_call ps) x))"
    using assms(2,3)
  proof (induction ps arbitrary: s x)
    case (Cons p ps)
    have "map_sum id scoped_answer (fst (rx_step R st p s)) = Inr (fst (xm_step (scoped_call p) x))"
        "rx_sim R st (snd (rx_step R st p s)) (snd (xm_step (scoped_call p) x))"
      using rx_step_sim [OF assms(1) Cons.prems(1), of p] Cons.prems(2) by simp_all
    with Cons.IH Cons.prems(2) show ?case by (simp add: Let_def case_prod_beta id_def)
  qed simp
  then show ?thesis using rx_list_sim [OF assms(1)] by (simp add: rx_get_by_key_alone)
qed

section \<open>A client that keeps its keys in lists\<close>

type_synonym ex_redis_state = "(string, string) pydict \<times> (string, string list) pydict"

definition ex_redis :: "ex_redis_state redis" where
  "ex_redis =
     \<lparr>rd_get = \<lambda>k s. dget (fst s) k,
      rd_set = \<lambda>k v ttl s. (dset k v (fst s), snd s),
      rd_setnx = \<lambda>k v ttl s. if dget (fst s) k = None then (True, (dset k v (fst s), snd s)) else (False, s),
      rd_delete = \<lambda>k s. (if dget (fst s) k = None then 0 else 1, (dpop k (fst s), snd s)),
      rd_sadd = \<lambda>k v s. (fst s, dset k (v # dget_or (snd s) k []) (snd s)),
      rd_srem = \<lambda>k v s. (fst s, dset k (filter (\<lambda>w. w \<noteq> v) (dget_or (snd s) k [])) (snd s)),
      rd_smembers = \<lambda>k s. remdups (dget_or (snd s) k []),
      rd_expire = \<lambda>k ttl s. s,
      rd_scan = \<lambda>cursor pat n s. (0, filter (\<lambda>k. prefix (butlast pat) k \<and> \<not> sublist '':tenant:'' k)
        (remdups (map fst (fst s))))\<rparr>"

lemma ex_redis_ok [simp]: "redis_ok S ex_redis"
  by (auto simp: redis_ok_def strings_ok_def sets_ok_def apart_ok_def ex_redis_def dget_or_def)

definition ex_redis_store :: redis_store where
  "ex_redis_store = rx_init ''lip'' 60 ex_codec"

fun put_new :: "redis_error + exec_answer \<Rightarrow> bool option" where
  "put_new (Inr (AnsPut (Inr (r, new)))) = Some new"
| "put_new a = None"

lemma put_new_scoped: "put_new (map_sum id scoped_answer a) = put_new a"
  by (cases a rule: put_new.cases) auto

theorem redis_execs_equal_memory_witness:
  "map put_new (fst (answers (rx_step ex_redis ex_redis_store)
     [PutC (ex_request 5), PutC (ex_request 6), PutC ((ex_request 7)\<lparr>xr_session_id := 9\<rparr>), GetC (Some 5) None] ([], []))) =
     [Some True, Some False, Some True, None]"
proof -
  let ?ps = "[PutC (ex_request 5), PutC (ex_request 6), PutC ((ex_request 7)\<lparr>xr_session_id := 9\<rparr>), GetC (Some 5) None]"
  let ?as = "fst (answers (rx_step ex_redis ex_redis_store) ?ps ([], []))"
  have ok: "rx_ok ex_redis ex_redis_store" by (simp add: rx_ok_def ex_redis_store_def rx_init_def)
  have sim: "rx_sim ex_redis ex_redis_store ([], []) xm_init"
    by (simp add: rx_sim_def xm_init_inv) (simp add: ex_redis_def xm_init_def dget_or_def)
  let ?bs = "fst (answers xm_step (map scoped_call ?ps) xm_init)"
  have "\<forall>p\<in>set ?ps. \<not> by_key_alone p" by simp
  note f = redis_execs_equal_memory [OF ok sim this]
  have bs: "map put_new (map Inr ?bs) = [Some True, Some False, Some True, None]"
    by (simp add: xm_put_if_absent_def xm_existing_def xm_init_def ex_request_def scoped_def scoped_key_def)
  have "map put_new (map (map_sum id scoped_answer) ?as) = map put_new (map Inr ?bs)"
    by (rule arg_cong [OF conjunct1 [OF f]])
  moreover have "map put_new (map (map_sum id scoped_answer) zs) = map put_new zs" for zs
    unfolding map_map comp_def put_new_scoped ..
  ultimately show ?thesis unfolding bs by (rule trans [OF sym, rotated])
qed

end
