(* ===== verification/Presence_Redis.thy ===== *)
theory Presence_Redis
  imports Storage_Redis_Props
begin

text \<open>
  The registry of \<open>src/storage/redis.py\<close> refines a table of connections: the abstract state is a map from the
  connection to its presence record.
\<close>

section \<open>The abstract registry\<close>

type_synonym connections = "string \<Rightarrow> presence_record option"

datatype presence_op =
    UpsertP datetime presence_record
  | BeatP datetime string "rat option"
  | RemoveP string
  | ExpireP datetime rat

datatype presence_answer = AnsPresence presence_record | AnsBool bool | AnsMarked int

definition mark_stale :: "datetime \<Rightarrow> rat \<Rightarrow> presence_record \<Rightarrow> presence_record" where
  "mark_stale cutoff timeout r = (if rr_stale cutoff timeout r then r\<lparr>pz_status := ''offline''\<rparr> else r)"

fun reg_step :: "presence_op \<Rightarrow> connections \<Rightarrow> presence_answer \<times> connections" where
  "reg_step (UpsertP now r) P = (let r = r\<lparr>pz_last_seen := now\<rparr> in (AnsPresence r, P(pz_conn_id r \<mapsto> r)))"
| "reg_step (BeatP now conn l) P =
     (case P conn of
        None \<Rightarrow> (AnsBool False, P)
      | Some r \<Rightarrow> (AnsBool True, P(conn \<mapsto> r\<lparr>pz_last_seen := now, pz_load := given l (pz_load r)\<rparr>)))"
| "reg_step (RemoveP conn) P = (AnsBool (P conn \<noteq> None), P(conn := None))"
| "reg_step (ExpireP cutoff timeout) P =
     (AnsMarked (int (card {c. \<exists>r. P c = Some r \<and> rr_stale cutoff timeout r})), map_option (mark_stale cutoff timeout) \<circ> P)"

fun rr_step ::
  "'s redis \<Rightarrow> redis_registry \<Rightarrow> presence_op \<Rightarrow> 's \<Rightarrow> ((redis_error + presence_answer) \<times> 's) option" where
  "rr_step R st (UpsertP now r) s = Some (map_prod (Inr \<circ> AnsPresence) id (rr_upsert R st now r s))"
| "rr_step R st (BeatP now conn l) s = Some (map_prod (map_sum id AnsBool) id (rr_heartbeat R st now conn l s))"
| "rr_step R st (RemoveP conn) s = Some (map_prod (map_sum id AnsBool) id (rr_remove R st conn s))"
| "rr_step R st (ExpireP cutoff timeout) s =
     map_option (map_prod (map_sum id AnsMarked) id) (rr_expire_stale R st cutoff timeout s)"

section \<open>The abstraction\<close>

definition tenant_set_key :: "redis_registry \<Rightarrow> string \<Rightarrow> bool" where
  "tenant_set_key st k = (\<exists>t. k = tenant_index_key st t)"

text \<open>A connection id whose key is not taken for an index.\<close>

definition conn_ok :: "redis_registry \<Rightarrow> string \<Rightarrow> bool" where
  "conn_ok st c = (\<not> sublist '':tenant:'' (presence_key st c))"

definition rr_ok :: "'s redis \<Rightarrow> redis_registry \<Rightarrow> bool" where
  "rr_ok R st = (redis_ok (tenant_set_key st) R \<and> codec_ok (rs_codec st) \<and> 0 < rs_ttl st)"

definition rr_sim :: "'s redis \<Rightarrow> redis_registry \<Rightarrow> 's \<Rightarrow> connections \<Rightarrow> bool" where
  "rr_sim R st s P =
     ((\<forall>c. conn_ok st c \<longrightarrow> rd_get R (presence_key st c) s = map_option (rr_serialize st) (P c)) \<and>
      (\<forall>c r. P c = Some r \<longrightarrow> pz_conn_id r = c \<and> conn_ok st c) \<and>
      (\<forall>t. set (rd_smembers R (tenant_index_key st t) s) = {c. \<exists>r. P c = Some r \<and> pz_tenant_id r = t}))"

text \<open>
  \<open>SCAN\<close>: from the cursor 0 a finite sequence of pages, the same as long as no key comes or goes, that shows every
  key of the pattern at least once.
\<close>

fun pages_of :: "'s redis \<Rightarrow> string \<Rightarrow> int \<Rightarrow> (int \<times> string list) list \<Rightarrow> 's \<Rightarrow> bool" where
  "pages_of R pat cursor [] s = False"
| "pages_of R pat cursor (p # ps) s =
     (rd_scan R cursor pat 100 s = p \<and> (if fst p = 0 then ps = [] else pages_of R pat (fst p) ps s))"

definition same_keys :: "'s redis \<Rightarrow> redis_registry \<Rightarrow> 's \<Rightarrow> 's \<Rightarrow> bool" where
  "same_keys R st s s' =
     ((\<forall>k. \<not> tenant_set_key st k \<longrightarrow> (rd_get R k s' = None) = (rd_get R k s = None)) \<and>
      (\<forall>k. tenant_set_key st k \<longrightarrow> set (rd_smembers R k s') = set (rd_smembers R k s)))"

definition scan_ok :: "'s redis \<Rightarrow> redis_registry \<Rightarrow> 's \<Rightarrow> bool" where
  "scan_ok R st s =
     (\<exists>ps. (\<forall>s'. same_keys R st s s' \<longrightarrow> pages_of R (rs_prefix st @ '':presence:*'') 0 ps s') \<and>
        {k \<in> set (concat (map snd ps)). \<not> tenant_set_key st k} =
          {k. \<not> tenant_set_key st k \<and> rd_get R k s \<noteq> None \<and> prefix (rs_prefix st @ '':presence:'') k})"

lemma rr_okD:
  assumes "rr_ok R st"
  shows "redis_ok (tenant_set_key st) R" "codec_ok (rs_codec st)" "0 < rs_ttl st"
  using assms by (simp_all add: rr_ok_def)

lemma presence_key_inject [simp]: "presence_key st c = presence_key st d \<longleftrightarrow> c = d"
  by (simp add: presence_key_def)

lemma tenant_index_key_inject [simp]: "tenant_index_key st t = tenant_index_key st u \<longleftrightarrow> t = u"
  by (simp add: tenant_index_key_def)

lemma tenant_set_key_index [simp]: "tenant_set_key st (tenant_index_key st t)"
  by (auto simp: tenant_set_key_def)

lemma sublist_index: "tenant_set_key st k \<Longrightarrow> sublist '':tenant:'' k"
proof -
  assume "tenant_set_key st k"
  then obtain t where "k = (rs_prefix st @ '':presence'') @ '':tenant:'' @ t"
    by (auto simp: tenant_set_key_def tenant_index_key_def)
  then show ?thesis unfolding sublist_def by blast
qed

lemma conn_ok_key: "conn_ok st c \<Longrightarrow> \<not> tenant_set_key st (presence_key st c)"
  using sublist_index by (auto simp: conn_ok_def)

lemma rr_simD:
  assumes "rr_sim R st s P"
  shows "conn_ok st c \<Longrightarrow> rd_get R (presence_key st c) s = map_option (rr_serialize st) (P c)"
    "P c = Some r \<Longrightarrow> pz_conn_id r = c" "P c = Some r \<Longrightarrow> conn_ok st c"
    "set (rd_smembers R (tenant_index_key st t) s) = {c. \<exists>r. P c = Some r \<and> pz_tenant_id r = t}"
  using assms by (simp_all add: rr_sim_def)

lemma rr_fetch_sim:
  assumes ok: "rr_ok R st" and sim: "rr_sim R st s P" and c: "conn_ok st c"
  shows "rr_fetch R st (presence_key st c) s = Inr (P c)"
  using rr_simD(1) [OF sim c] by (cases "P c") (simp_all add: rr_fetch_def rr_okD(2) [OF ok])

text \<open>A record written over that of its connection, with the same tenant.\<close>

lemma rr_set_sim:
  assumes ok: "rr_ok R st" and sim: "rr_sim R st s P" and old: "P c = Some r"
    and new: "pz_conn_id q = c" "pz_tenant_id q = pz_tenant_id r"
  shows "rr_sim R st (rd_set R (presence_key st c) (rr_serialize st q) (rs_ttl st) s) (P(c \<mapsto> q)) \<and>
    same_keys R st s (rd_set R (presence_key st c) (rr_serialize st q) (rs_ttl st) s)"
proof -
  have key: "\<not> tenant_set_key st (presence_key st c)" using rr_simD(3) [OF sim old] by (rule conn_ok_key)
  let ?s = "rd_set R (presence_key st c) (rr_serialize st q) (rs_ttl st) s"
  have get: "rd_get R k ?s = (if k = presence_key st c then Some (rr_serialize st q) else rd_get R k s)"
    if "\<not> tenant_set_key st k" for k
    using rd_strings(1) [OF rr_okD(1) [OF ok] key rr_okD(3) [OF ok] that] .
  have mem: "set (rd_smembers R k ?s) = set (rd_smembers R k s)" if "tenant_set_key st k" for k
    using rd_apart(1) [OF rr_okD(1) [OF ok] key that rr_okD(3) [OF ok]] .
  have "same_keys R st s ?s"
    using rr_simD(1) [OF sim rr_simD(3) [OF sim old]] old by (auto simp: same_keys_def get mem)
  moreover have "rr_sim R st ?s (P(c \<mapsto> q))"
    unfolding rr_sim_def
  proof (intro conjI allI impI)
    fix d assume "conn_ok st d"
    then show "rd_get R (presence_key st d) ?s = map_option (rr_serialize st) ((P(c \<mapsto> q)) d)"
      using rr_simD(1) [OF sim] by (simp add: get conn_ok_key)
  next
    fix d x assume "(P(c \<mapsto> q)) d = Some x"
    then show "pz_conn_id x = d" "conn_ok st d"
      using rr_simD(2,3) [OF sim] old new(1) by (auto split: if_splits)
  next
    fix t
    show "set (rd_smembers R (tenant_index_key st t) ?s) = {d. \<exists>x. (P(c \<mapsto> q)) d = Some x \<and> pz_tenant_id x = t}"
      using old new(2) by (auto simp: mem rr_simD(4) [OF sim])
  qed
  ultimately show ?thesis by simp
qed

lemma same_keys_trans: "same_keys R st s s' \<Longrightarrow> same_keys R st s' s'' \<Longrightarrow> same_keys R st s s''"
  by (simp add: same_keys_def)

lemma same_keys_refl: "same_keys R st s s"
  by (simp add: same_keys_def)

section \<open>Expiry\<close>

lemma rr_stale_marked: "\<not> rr_stale cutoff timeout (r\<lparr>pz_status := ''offline''\<rparr>)"
  by (simp add: rr_stale_def)

definition marked :: "redis_registry \<Rightarrow> datetime \<Rightarrow> rat \<Rightarrow> string list \<Rightarrow> connections \<Rightarrow> connections" where
  "marked st cutoff timeout ks P c =
     (if presence_key st c \<in> set ks then map_option (mark_stale cutoff timeout) (P c) else P c)"

definition hits :: "redis_registry \<Rightarrow> datetime \<Rightarrow> rat \<Rightarrow> string list \<Rightarrow> connections \<Rightarrow> string set" where
  "hits st cutoff timeout ks P = {c. presence_key st c \<in> set ks \<and> (\<exists>r. P c = Some r \<and> rr_stale cutoff timeout r)}"

lemma finite_hits: "finite (hits st cutoff timeout ks P)"
proof (rule finite_subset)
  show "hits st cutoff timeout ks P \<subseteq> presence_key st -` set ks" by (auto simp: hits_def)
  show "finite (presence_key st -` set ks)" by (rule finite_vimageI) (auto simp: inj_def)
qed

lemma mark_stale_idem: "mark_stale cutoff timeout (mark_stale cutoff timeout r) = mark_stale cutoff timeout r"
  by (simp add: mark_stale_def rr_stale_marked)

lemma rr_expire_keys_sim:
  assumes ok: "rr_ok R st"
  shows "rr_sim R st s P \<Longrightarrow> \<forall>k\<in>set ks. sublist '':tenant:'' k \<or> (\<exists>c. k = presence_key st c) \<Longrightarrow>
    \<exists>s'. rr_expire_keys R st cutoff timeout ks n s = (Inr (n + int (card (hits st cutoff timeout ks P))), s') \<and>
      rr_sim R st s' (marked st cutoff timeout ks P) \<and> same_keys R st s s'"
proof (induction ks arbitrary: n s P)
  case Nil
  have "marked st cutoff timeout [] P = P" by (rule ext) (simp add: marked_def)
  then show ?case using Nil by (simp add: hits_def same_keys_refl)
next
  case (Cons k ks)
  have rest: "\<forall>k\<in>set ks. sublist '':tenant:'' k \<or> (\<exists>c. k = presence_key st c)" using Cons.prems(2) by simp
  consider (index) "sublist '':tenant:'' k" | (conn) c where "k = presence_key st c" "conn_ok st c"
    using Cons.prems(2) by (auto simp: conn_ok_def)
  then show ?case
  proof cases
    case index
    then have no: "k \<noteq> presence_key st c" if "P c = Some r" for c r
      using rr_simD(3) [OF Cons.prems(1) that] by (auto simp: conn_ok_def)
    have "marked st cutoff timeout (k # ks) P = marked st cutoff timeout ks P"
    proof
      fix c show "marked st cutoff timeout (k # ks) P c = marked st cutoff timeout ks P c"
        using no [of c] by (cases "P c") (simp_all add: marked_def)
    qed
    moreover have "hits st cutoff timeout (k # ks) P = hits st cutoff timeout ks P" using no by (auto simp: hits_def)
    ultimately show ?thesis using Cons.IH [OF Cons.prems(1) rest, of n] index by simp
  next
    case (conn c)
    note fetch = rr_fetch_sim [OF ok Cons.prems(1) conn(2)]
    show ?thesis
    proof (cases "\<exists>r. P c = Some r \<and> rr_stale cutoff timeout r")
      case False
      have "marked st cutoff timeout (k # ks) P = marked st cutoff timeout ks P"
      proof
        fix d show "marked st cutoff timeout (k # ks) P d = marked st cutoff timeout ks P d"
          using False conn(1) by (cases "P d") (auto simp: marked_def mark_stale_def)
      qed
      moreover have "hits st cutoff timeout (k # ks) P = hits st cutoff timeout ks P" using False conn(1) by (auto simp: hits_def)
      moreover have "rr_expire_keys R st cutoff timeout (k # ks) n s = rr_expire_keys R st cutoff timeout ks n s"
        using False conn fetch by (auto simp: conn_ok_def split: option.split)
      ultimately show ?thesis using Cons.IH [OF Cons.prems(1) rest, of n] by simp
    next
      case True
      then obtain r where r: "P c = Some r" "rr_stale cutoff timeout r" by blast
      let ?q = "r\<lparr>pz_status := ''offline''\<rparr>"
      let ?s = "rd_set R (presence_key st c) (rr_serialize st ?q) (rs_ttl st) s"
      have run: "rr_expire_keys R st cutoff timeout (k # ks) n s = rr_expire_keys R st cutoff timeout ks (n + 1) ?s"
        using conn fetch r by (simp add: conn_ok_def)
      define Q where "Q = P(c \<mapsto> ?q)"
      have new: "rr_sim R st ?s Q" "same_keys R st s ?s"
        using rr_set_sim [OF ok Cons.prems(1) r(1), of ?q] rr_simD(2) [OF Cons.prems(1) r(1)] by (simp_all add: Q_def)
      have m: "marked st cutoff timeout ks Q = marked st cutoff timeout (k # ks) P"
        by (rule ext) (use r conn(1) in \<open>auto simp: Q_def marked_def mark_stale_def rr_stale_marked split: option.split\<close>)
      have h: "hits st cutoff timeout (k # ks) P = insert c (hits st cutoff timeout ks Q)"
        using r conn(1) by (auto simp: Q_def hits_def rr_stale_marked)
      have "c \<notin> hits st cutoff timeout ks Q" by (simp add: Q_def hits_def rr_stale_marked)
      then have count: "int (card (hits st cutoff timeout (k # ks) P)) = 1 + int (card (hits st cutoff timeout ks Q))"
        by (simp add: h finite_hits)
      obtain s' where "rr_expire_keys R st cutoff timeout ks (n + 1) ?s =
            (Inr (n + 1 + int (card (hits st cutoff timeout ks Q))), s')"
          "rr_sim R st s' (marked st cutoff timeout ks Q)" "same_keys R st ?s s'"
        using Cons.IH [OF new(1) rest, of "n + 1"] by blast
      then show ?thesis unfolding run count m using same_keys_trans [OF new(2)] by (auto simp: add.assoc)
    qed
  qed
qed

lemma mark_not_stale [simp]: "\<not> rr_stale cutoff timeout (mark_stale cutoff timeout r)"
  by (simp add: mark_stale_def rr_stale_marked)

lemma hits_append:
  "card (hits st cutoff timeout (ks @ ls) P) =
     card (hits st cutoff timeout ks P) + card (hits st cutoff timeout ls (marked st cutoff timeout ks P))"
proof -
  have "hits st cutoff timeout (ks @ ls) P = hits st cutoff timeout ks P \<union> hits st cutoff timeout ls (marked st cutoff timeout ks P)"
    by (auto simp: hits_def marked_def split: if_splits)
  moreover have "hits st cutoff timeout ks P \<inter> hits st cutoff timeout ls (marked st cutoff timeout ks P) = {}"
    by (auto simp: hits_def marked_def split: if_splits)
  ultimately show ?thesis by (simp add: card_Un_disjoint finite_hits)
qed

lemma marked_append: "marked st cutoff timeout ls (marked st cutoff timeout ks P) = marked st cutoff timeout (ks @ ls) P"
  by (rule ext) (auto simp: marked_def mark_stale_idem option.map_comp comp_def)

lemma rr_expire_scan_sim:
  assumes ok: "rr_ok R st"
  shows "rr_sim R st s P \<Longrightarrow>
    (\<forall>s'. same_keys R st s s' \<longrightarrow> pages_of R (rs_prefix st @ '':presence:*'') cursor ps s') \<Longrightarrow>
    \<forall>k\<in>set (concat (map snd ps)). sublist '':tenant:'' k \<or> (\<exists>c. k = presence_key st c) \<Longrightarrow>
    \<exists>s'. rr_expire_scan R st cutoff timeout cursor n s =
        Some (Inr (n + int (card (hits st cutoff timeout (concat (map snd ps)) P))), s') \<and>
      rr_sim R st s' (marked st cutoff timeout (concat (map snd ps)) P)"
proof (induction ps arbitrary: cursor n s P)
  case Nil
  then show ?case using same_keys_refl by fastforce
next
  case (Cons p ps)
  have page: "rd_scan R cursor (rs_prefix st @ '':presence:*'') 100 s = p"
    and more: "if fst p = 0 then ps = [] else True"
    using Cons.prems(2) same_keys_refl [of R st s] by auto
  have keys: "\<forall>k\<in>set (snd p). sublist '':tenant:'' k \<or> (\<exists>c. k = presence_key st c)"
    "\<forall>k\<in>set (concat (map snd ps)). sublist '':tenant:'' k \<or> (\<exists>c. k = presence_key st c)"
    using Cons.prems(3) by auto
  obtain s' where s': "rr_expire_keys R st cutoff timeout (snd p) n s =
        (Inr (n + int (card (hits st cutoff timeout (snd p) P))), s')"
      "rr_sim R st s' (marked st cutoff timeout (snd p) P)" "same_keys R st s s'"
    using rr_expire_keys_sim [OF ok Cons.prems(1) keys(1)] by blast
  have run: "rr_expire_scan R st cutoff timeout cursor n s =
      (if fst p = 0 then Some (Inr (n + int (card (hits st cutoff timeout (snd p) P))), s')
       else rr_expire_scan R st cutoff timeout (fst p) (n + int (card (hits st cutoff timeout (snd p) P))) s')"
    by (subst rr_expire_scan.simps) (simp add: page s'(1) case_prod_beta)
  show ?case
  proof (cases "fst p = 0")
    case True
    then show ?thesis using run more s'(2) by simp
  next
    case False
    have "\<forall>t. same_keys R st s' t \<longrightarrow> pages_of R (rs_prefix st @ '':presence:*'') (fst p) ps t"
    proof (intro allI impI)
      fix t assume "same_keys R st s' t"
      then have "same_keys R st s t" by (rule same_keys_trans [OF s'(3)])
      then show "pages_of R (rs_prefix st @ '':presence:*'') (fst p) ps t" using Cons.prems(2) False by auto
    qed
    from Cons.IH [OF s'(2) this keys(2), of "n + int (card (hits st cutoff timeout (snd p) P))"] show ?thesis
      using run False by (simp add: hits_append marked_append add.assoc)
  qed
qed

lemma rr_expire_sim:
  assumes ok: "rr_ok R st" and sim: "rr_sim R st s P" and scan: "scan_ok R st s"
  shows "\<exists>s'. rr_expire_stale R st cutoff timeout s =
      Some (Inr (int (card {c. \<exists>r. P c = Some r \<and> rr_stale cutoff timeout r})), s') \<and>
    rr_sim R st s' (map_option (mark_stale cutoff timeout) \<circ> P)"
proof -
  obtain ps where ps: "\<forall>s'. same_keys R st s s' \<longrightarrow> pages_of R (rs_prefix st @ '':presence:*'') 0 ps s'"
      "{k \<in> set (concat (map snd ps)). \<not> tenant_set_key st k} =
          {k. \<not> tenant_set_key st k \<and> rd_get R k s \<noteq> None \<and> prefix (rs_prefix st @ '':presence:'') k}"
    using scan unfolding scan_ok_def by blast
  have keys: "\<forall>k\<in>set (concat (map snd ps)). sublist '':tenant:'' k \<or> (\<exists>c. k = presence_key st c)"
  proof
    fix k assume k: "k \<in> set (concat (map snd ps))"
    show "sublist '':tenant:'' k \<or> (\<exists>c. k = presence_key st c)"
    proof (cases "tenant_set_key st k")
      case False
      then have "prefix (rs_prefix st @ '':presence:'') k" using k ps(2) by blast
      then show ?thesis by (auto simp: prefix_def presence_key_def)
    qed (use sublist_index in blast)
  qed
  have shown: "presence_key st c \<in> set (concat (map snd ps))" if "P c = Some r" for c r
  proof -
    have c: "conn_ok st c" using that by (rule rr_simD(3) [OF sim])
    then have "rd_get R (presence_key st c) s \<noteq> None" using that by (simp add: rr_simD(1) [OF sim])
    moreover have "prefix (rs_prefix st @ '':presence:'') (presence_key st c)" by (simp add: presence_key_def)
    ultimately show ?thesis using ps(2) conn_ok_key [OF c] by blast
  qed
  have "hits st cutoff timeout (concat (map snd ps)) P = {c. \<exists>r. P c = Some r \<and> rr_stale cutoff timeout r}"
    unfolding hits_def using shown by blast
  moreover have "marked st cutoff timeout (concat (map snd ps)) P = map_option (mark_stale cutoff timeout) \<circ> P"
  proof
    fix c show "marked st cutoff timeout (concat (map snd ps)) P c = (map_option (mark_stale cutoff timeout) \<circ> P) c"
      using shown [of c] by (cases "P c") (simp_all add: marked_def)
  qed
  ultimately show ?thesis using rr_expire_scan_sim [OF ok sim ps(1) keys, of cutoff timeout 0]
    by (simp add: rr_expire_stale_def)
qed

section \<open>Refinement\<close>

text \<open>
  The calls the registry is made for: connection ids that are not taken for an index, a connection that keeps its
  tenant, and a scan that ends.
\<close>

definition presence_call_ok :: "'s redis \<Rightarrow> redis_registry \<Rightarrow> presence_op \<Rightarrow> 's \<Rightarrow> connections \<Rightarrow> bool" where
  "presence_call_ok R st p s P =
     (case p of
        UpsertP now r \<Rightarrow> conn_ok st (pz_conn_id r) \<and>
          (\<forall>old. P (pz_conn_id r) = Some old \<longrightarrow> pz_tenant_id old = pz_tenant_id r)
      | BeatP now conn l \<Rightarrow> conn_ok st conn
      | RemoveP conn \<Rightarrow> conn_ok st conn
      | ExpireP cutoff timeout \<Rightarrow> scan_ok R st s)"

lemma rr_upsert_sim:
  assumes ok: "rr_ok R st" and sim: "rr_sim R st s P" and c: "conn_ok st (pz_conn_id r)"
    and same: "\<And>old. P (pz_conn_id r) = Some old \<Longrightarrow> pz_tenant_id old = pz_tenant_id r"
  shows "rr_sim R st (snd (rr_upsert R st now r s)) (P(pz_conn_id r \<mapsto> r\<lparr>pz_last_seen := now\<rparr>))"
proof -
  note R = rr_okD(1) [OF ok] and ttl = rr_okD(3) [OF ok] and key = conn_ok_key [OF c]
  let ?s = "snd (rr_upsert R st now r s)" and ?r = "r\<lparr>pz_last_seen := now\<rparr>"
  have get: "rd_get R (presence_key st d) ?s =
      (if d = pz_conn_id r then Some (rr_serialize st ?r) else rd_get R (presence_key st d) s)" if "conn_ok st d" for d
    using that by (simp add: rr_upsert_def Let_def rd_strings(1) [OF R key ttl] rd_apart(3,5) [OF R] conn_ok_key ttl)
  have mem: "set (rd_smembers R (tenant_index_key st t) ?s) =
      (if t = pz_tenant_id r then insert (pz_conn_id r) (set (rd_smembers R (tenant_index_key st t) s))
       else set (rd_smembers R (tenant_index_key st t) s))" for t
    by (simp add: rr_upsert_def Let_def rd_sets(1) [OF R] rd_apart(1) [OF R key] rd_apart(6) [OF R] ttl)
  show ?thesis unfolding rr_sim_def
  proof (intro conjI allI impI)
    fix d assume "conn_ok st d"
    then show "rd_get R (presence_key st d) ?s = map_option (rr_serialize st) ((P(pz_conn_id r \<mapsto> ?r)) d)"
      using rr_simD(1) [OF sim] by (simp add: get)
  next
    fix d x assume "(P(pz_conn_id r \<mapsto> ?r)) d = Some x"
    then show "pz_conn_id x = d" "conn_ok st d" using rr_simD(2,3) [OF sim] c by (auto split: if_splits)
  next
    fix t show "set (rd_smembers R (tenant_index_key st t) ?s) =
        {d. \<exists>x. (P(pz_conn_id r \<mapsto> ?r)) d = Some x \<and> pz_tenant_id x = t}"
      using same by (auto simp: mem rr_simD(4) [OF sim])
  qed
qed

lemma rr_remove_sim:
  assumes ok: "rr_ok R st" and sim: "rr_sim R st s P" and c: "conn_ok st conn"
  shows "fst (rr_remove R st conn s) = Inr (P conn \<noteq> None) \<and> rr_sim R st (snd (rr_remove R st conn s)) (P(conn := None))"
proof (cases "P conn")
  case None
  then have "P(conn := None) = P" by auto
  then show ?thesis using None sim by (simp add: rr_remove_def rr_fetch_sim [OF ok sim c])
next
  case (Some r)
  note R = rr_okD(1) [OF ok] and key = conn_ok_key [OF c]
  let ?t = "rd_srem R (tenant_index_key st (pz_tenant_id r)) conn s"
  have run: "rr_remove R st conn s = (let (n, s') = rd_delete R (presence_key st conn) ?t in (Inr (0 < n), s'))"
    using Some by (simp add: rr_remove_def rr_fetch_sim [OF ok sim c] Let_def)
  have here: "rd_get R (presence_key st conn) ?t = Some (rr_serialize st r)"
    using rr_simD(1) [OF sim c] Some by (simp add: rd_apart(4) [OF R _ key])
  have get: "rd_get R (presence_key st d) (snd (rd_delete R (presence_key st conn) ?t)) =
      (if d = conn then None else rd_get R (presence_key st d) s)" if "conn_ok st d" for d
    using that by (simp add: rd_strings(3) [OF R key] rd_apart(4) [OF R] conn_ok_key)
  have mem: "set (rd_smembers R (tenant_index_key st t) (snd (rd_delete R (presence_key st conn) ?t))) =
      (if t = pz_tenant_id r then set (rd_smembers R (tenant_index_key st t) s) - {conn}
       else set (rd_smembers R (tenant_index_key st t) s))" for t
    by (simp add: rd_apart(2) [OF R key] rd_sets(2) [OF R])
  have "rr_sim R st (snd (rd_delete R (presence_key st conn) ?t)) (P(conn := None))"
    unfolding rr_sim_def
  proof (intro conjI allI impI)
    fix d assume "conn_ok st d"
    then show "rd_get R (presence_key st d) (snd (rd_delete R (presence_key st conn) ?t)) =
        map_option (rr_serialize st) ((P(conn := None)) d)"
      using rr_simD(1) [OF sim] by (simp add: get)
  next
    fix d x assume "(P(conn := None)) d = Some x"
    then show "pz_conn_id x = d" "conn_ok st d" using rr_simD(2,3) [OF sim] by (auto split: if_splits)
  next
    fix t show "set (rd_smembers R (tenant_index_key st t) (snd (rd_delete R (presence_key st conn) ?t))) =
        {d. \<exists>x. (P(conn := None)) d = Some x \<and> pz_tenant_id x = t}"
      using Some by (auto simp: mem rr_simD(4) [OF sim])
  qed
  then show ?thesis using Some here by (simp add: run case_prod_beta rd_strings(4) [OF R key])
qed

lemma rr_beat_sim:
  assumes ok: "rr_ok R st" and sim: "rr_sim R st s P" and c: "conn_ok st conn"
  shows "map_prod (map_sum id AnsBool) id (rr_heartbeat R st now conn l s) =
      (Inr (fst (reg_step (BeatP now conn l) P)), snd (rr_heartbeat R st now conn l s)) \<and>
    rr_sim R st (snd (rr_heartbeat R st now conn l s)) (snd (reg_step (BeatP now conn l) P))"
proof (cases "P conn")
  case (Some r)
  let ?q = "r\<lparr>pz_last_seen := now, pz_load := given l (pz_load r)\<rparr>"
  have "rr_sim R st (rd_set R (presence_key st conn) (rr_serialize st ?q) (rs_ttl st) s) (P(conn \<mapsto> ?q))"
    using rr_set_sim [OF ok sim Some, of ?q] rr_simD(2) [OF sim Some] by simp
  then show ?thesis using Some by (simp add: rr_heartbeat_def rr_fetch_sim [OF ok sim c] Let_def)
qed (simp add: rr_heartbeat_def rr_fetch_sim [OF ok sim c] sim)

lemma rr_load_all_map:
  "codec_ok (rs_codec st) \<Longrightarrow> rr_load_all st (map (map_option (rr_serialize st)) zs) = Some (List.map_filter id zs)"
  by (induction zs) (auto simp: map_filter_simps split: option.split)

lemma rr_list_sim:
  assumes ok: "rr_ok R st" and sim: "rr_sim R st s P"
  shows "\<exists>rs. rr_list_by_tenant R st tenant status capability tag s = Inr rs \<and> sorted (map pz_registered_at rs) \<and>
    set rs = {r. (\<exists>c. P c = Some r) \<and> pz_tenant_id r = tenant \<and> str_filter status (pz_status r) \<and>
      (str_true capability \<longrightarrow> the capability \<in> set (pz_capabilities r)) \<and> (str_true tag \<longrightarrow> the tag \<in> set (pz_tags r))}"
proof -
  let ?cs = "rd_smembers R (tenant_index_key st tenant) s"
  have mem: "set ?cs = {c. \<exists>r. P c = Some r \<and> pz_tenant_id r = tenant}" by (rule rr_simD(4) [OF sim])
  have "map (\<lambda>c. rd_get R (presence_key st c) s) ?cs = map (map_option (rr_serialize st)) (map P ?cs)"
    using mem rr_simD(1,3) [OF sim] by (auto intro!: map_cong)
  then have "rr_load_all st (map (\<lambda>c. rd_get R (presence_key st c) s) ?cs) = Some (List.map_filter id (map P ?cs))"
    using rr_load_all_map [OF rr_okD(2) [OF ok], of "map P ?cs"] by presburger
  moreover have "set (List.map_filter id (map P ?cs)) = {r. (\<exists>c. P c = Some r) \<and> pz_tenant_id r = tenant}"
    unfolding set_eq_iff set_map_filter using mem by force
  ultimately show ?thesis by (auto simp: rr_list_by_tenant_def)
qed

text \<open>C16: the Redis registry refines a table of connections as long as no key expires on its own, a connection registers
  again only under the tenant it has, no connection id makes a key that reads as the key of a tenant (contains
  \<open>:tenant:\<close>), and a scan ends: each such call ends, reads what was written, answers as the call on the table and leaves
  a state that represents the table's next state; the list of a tenant is that of its connections that pass the filters, by
  registration time. A connection that changes its tenant stays listed under the old one, and one with such an id is taken
  for a set by a scan, so that these calls are left out.\<close>

theorem redis_registry_refines:
  assumes "rr_ok R st" and "rr_sim R st s P" and "presence_call_ok R st p s P"
  shows "(\<exists>s'. rr_step R st p s = Some (Inr (fst (reg_step p P)), s') \<and> rr_sim R st s' (snd (reg_step p P))) \<and>
    (\<forall>tenant status capability tag. \<exists>rs. rr_list_by_tenant R st tenant status capability tag s = Inr rs \<and>
       sorted (map pz_registered_at rs) \<and>
       set rs = {r. (\<exists>c. P c = Some r) \<and> pz_tenant_id r = tenant \<and> str_filter status (pz_status r) \<and>
         (str_true capability \<longrightarrow> the capability \<in> set (pz_capabilities r)) \<and>
         (str_true tag \<longrightarrow> the tag \<in> set (pz_tags r))})"
proof (intro conjI)
  show "\<exists>s'. rr_step R st p s = Some (Inr (fst (reg_step p P)), s') \<and> rr_sim R st s' (snd (reg_step p P))"
  proof (cases p)
    case (UpsertP now r)
    then show ?thesis using rr_upsert_sim [OF assms(1,2), of r now] assms(3)
      by (simp add: presence_call_ok_def Let_def) (simp add: rr_upsert_def Let_def)
  next
    case (BeatP now conn l)
    then show ?thesis using rr_beat_sim [OF assms(1,2), of conn now l] assms(3)
      by (simp add: presence_call_ok_def del: reg_step.simps)
  next
    case (RemoveP conn)
    then show ?thesis using rr_remove_sim [OF assms(1,2), of conn] assms(3)
      by (cases "rr_remove R st conn s") (simp add: presence_call_ok_def)
  next
    case (ExpireP cutoff timeout)
    then have "scan_ok R st s" using assms(3) by (simp add: presence_call_ok_def)
    from rr_expire_sim [OF assms(1,2) this, of cutoff timeout] show ?thesis by (auto simp: ExpireP)
  qed
qed (use rr_list_sim [OF assms(1,2)] in blast)

definition ex_registry :: redis_registry where
  "ex_registry = rr_init ''lip'' 300 30 ex_codec"

definition ex_present :: ex_redis_state where
  "ex_present = snd (rr_upsert ex_redis ex_registry 0 (ex_presence ''a'') ([], []))"

lemma singleton_list: "distinct xs \<Longrightarrow> set xs = {k} \<Longrightarrow> xs = [k]"
proof (cases xs)
  case (Cons a ys)
  assume "distinct xs" "set xs = {k}"
  with Cons have "a = k" "set ys \<subseteq> {k}" "k \<notin> set ys" by auto
  then show ?thesis using Cons by (cases ys) auto
qed simp

lemma ex_present_scan: "scan_ok ex_redis ex_registry ex_present"
proof -
  let ?k = "presence_key ex_registry ''a''" and ?pat = "rs_prefix ex_registry @ '':presence:*''"
  have get: "rd_get ex_redis k ex_present \<noteq> None \<longleftrightarrow> k = ?k" for k
    by (simp add: ex_present_def rr_upsert_def ex_redis_def Let_def ex_presence_def)
  have k: "\<not> sublist '':tenant:'' ?k" unfolding ex_registry_def by code_simp
  have pat: "butlast ?pat = rs_prefix ex_registry @ '':presence:''" by (simp add: butlast_append)
  have pre: "prefix (butlast ?pat) ?k" unfolding pat by (simp add: presence_key_def)
  have "pages_of ex_redis ?pat 0 [(0, [?k])] s'" if same: "same_keys ex_redis ex_registry ex_present s'" for s'
  proof -
    have "j \<in> set (map fst (fst s')) \<longleftrightarrow> j = ?k" if "\<not> sublist '':tenant:'' j" for j
    proof -
      have "\<not> tenant_set_key ex_registry j" using that sublist_index by blast
      then have "rd_get ex_redis j s' \<noteq> None \<longleftrightarrow> j = ?k" using same get [of j] by (simp add: same_keys_def)
      then show ?thesis by (simp add: ex_redis_def map_of_eq_None_iff)
    qed
    then have "set (filter (\<lambda>k. prefix (butlast ?pat) k \<and> \<not> sublist '':tenant:'' k) (remdups (map fst (fst s')))) = {?k}"
      using k pre by auto
    from singleton_list [OF _ this] have "rd_scan ex_redis 0 ?pat 100 s' = (0, [?k])"
      by (simp add: ex_redis_def)
    then show ?thesis by simp
  qed
  moreover have "\<not> tenant_set_key ex_registry ?k" using k sublist_index by blast
  moreover have "prefix (rs_prefix ex_registry @ '':presence:'') ?k" by (simp add: presence_key_def)
  ultimately show ?thesis unfolding scan_ok_def get by (intro exI [of _ "[(0, [?k])]"]) auto
qed

theorem redis_registry_refines_witness:
  "\<exists>s'. rr_step ex_redis ex_registry (ExpireP 9000000 1) ex_present = Some (Inr (AnsMarked 1), s')"
proof -
  have ok: "rr_ok ex_redis ex_registry" by (simp add: rr_ok_def ex_registry_def rr_init_def)
  have start: "rr_sim ex_redis ex_registry ([], []) Map.empty"
    by (simp add: rr_sim_def ex_redis_def dget_or_def)
  have conn: "conn_ok ex_registry ''a''" unfolding conn_ok_def ex_registry_def by code_simp
  let ?r = "ex_presence ''a''"
  let ?P = "[''a'' \<mapsto> ?r]"
  have upd: "?r\<lparr>pz_last_seen := 0\<rparr> = ?r" "pz_conn_id ?r = ''a''" by (simp_all add: ex_presence_def)
  have sim: "rr_sim ex_redis ex_registry ex_present ?P"
    using rr_upsert_sim [OF ok start, of ?r 0] conn by (simp add: upd ex_present_def)
  have call: "presence_call_ok ex_redis ex_registry (ExpireP 9000000 1) ex_present ?P"
    by (simp add: presence_call_ok_def ex_present_scan)
  have "{c. \<exists>r. ?P c = Some r \<and> rr_stale 9000000 1 r} = {''a''}"
    by (auto simp: ex_presence_def rr_stale_def)
  then show ?thesis using redis_registry_refines [OF ok sim call] by auto
qed

end
