(* ===== verification/Task_Wire.thy ===== *)
theory Task_Wire
  imports Task_Ports Py_Json
begin

text \<open>
  How the queues over external brokers write tasks: \<open>_serialize_task\<close> and \<open>_deserialize_task\<close> of
  \<open>src/queue/kafka_queue.py\<close> and \<open>src/queue/rabbitmq_queue.py\<close> (an object of JSON) and of
  \<open>src/queue/redis_queue.py\<close> (a hash of strings), the backoff, and the names of the priorities.
\<close>

section \<open>Calls that may raise\<close>

text \<open>The rest of a method after a call: not run when the call raised.\<close>

definition andthen :: "('e + 'a) \<times> 'q \<Rightarrow> ('a \<Rightarrow> 'q \<Rightarrow> ('e + 'b) \<times> 'q) \<Rightarrow> ('e + 'b) \<times> 'q" where
  "andthen r f = (case r of (Inl e, q) \<Rightarrow> (Inl e, q) | (Inr a, q) \<Rightarrow> f a q)"

lemma andthen_simps [simp]: "andthen (Inl e, q) f = (Inl e, q)" "andthen (Inr a, q) f = f a q"
  by (simp_all add: andthen_def)

section \<open>Priorities\<close>

fun prio_name_lower :: "task_priority \<Rightarrow> string" where
  "prio_name_lower PRIO_CRITICAL = ''critical''"
| "prio_name_lower PRIO_HIGH = ''high''"
| "prio_name_lower PRIO_NORMAL = ''normal''"
| "prio_name_lower PRIO_LOW = ''low''"
| "prio_name_lower PRIO_BACKGROUND = ''background''"

definition all_priorities :: "task_priority list" where
  "all_priorities = [PRIO_CRITICAL, PRIO_HIGH, PRIO_NORMAL, PRIO_LOW, PRIO_BACKGROUND]"

text \<open>\<open>TaskPriority(n)\<close>.\<close>

definition prio_of_value :: "int \<Rightarrow> task_priority option" where
  "prio_of_value n = find (\<lambda>p. task_priority_value p = n) all_priorities"

lemma prio_of_value [simp]: "prio_of_value (task_priority_value p) = Some p"
  by (cases p) (simp_all add: prio_of_value_def all_priorities_def)

definition backoff :: "rat \<Rightarrow> rat \<Rightarrow> int \<Rightarrow> rat" where
  "backoff base_delay max_delay n = min (base_delay * 2 ^ nat n) max_delay"

section \<open>An object of JSON\<close>

definition opt_uuid_json :: "uuid option \<Rightarrow> json" where
  "opt_uuid_json u = jopt (map_option uuid_str u)"

definition task_fields :: "codec \<Rightarrow> task_payload \<Rightarrow> payload" where
  "task_fields c t =
     [(''task_id'', JStr (uuid_str (tp_task_id t))),
      (''tenant_id'', JStr (tp_tenant_id t)),
      (''target_agent_id'', opt_uuid_json (tp_target_agent_id t)),
      (''target_conn_id'', jopt (tp_target_conn_id t)),
      (''message_type'', JStr (tp_message_type t)),
      (''envelope_json'', JStr (tp_envelope_json t)),
      (''session_id'', opt_uuid_json (tp_session_id t)),
      (''exec_id'', opt_uuid_json (tp_exec_id t)),
      (''priority'', JInt (task_priority_value (tp_priority t))),
      (''created_at'', JStr (cd_isoformat c (tp_created_at t))),
      (''ttl_seconds'', JInt (tp_ttl_seconds t)),
      (''retry_count'', JInt (tp_retry_count t)),
      (''max_retries'', JInt (tp_max_retries t)),
      (''correlation_id'', opt_uuid_json (tp_correlation_id t)),
      (''metadata'', JDict (tp_metadata t))]"

definition task_of_fields :: "codec \<Rightarrow> payload \<Rightarrow> task_payload option" where
  "task_of_fields c d =
     do {
       task_id \<leftarrow> fld_uuid d ''task_id'';
       tenant_id \<leftarrow> fld_str d ''tenant_id'';
       target_agent_id \<leftarrow> fld_opt_uuid d ''target_agent_id'';
       target_conn_id \<leftarrow> fld_opt_str d ''target_conn_id'';
       message_type \<leftarrow> fld_str d ''message_type'';
       envelope_json \<leftarrow> fld_str d ''envelope_json'';
       session_id \<leftarrow> fld_opt_uuid d ''session_id'';
       exec_id \<leftarrow> fld_opt_uuid d ''exec_id'';
       priority \<leftarrow> Option.bind (fld_int d ''priority'') prio_of_value;
       created_at \<leftarrow> fld_time c d ''created_at'';
       ttl_seconds \<leftarrow> fld_int d ''ttl_seconds'';
       retry_count \<leftarrow> fld_int d ''retry_count'';
       max_retries \<leftarrow> fld_int d ''max_retries'';
       correlation_id \<leftarrow> fld_opt_uuid d ''correlation_id'';
       metadata \<leftarrow> fld_dict d ''metadata'';
       Some \<lparr>tp_task_id = task_id, tp_tenant_id = tenant_id, tp_target_agent_id = target_agent_id,
         tp_target_conn_id = target_conn_id, tp_message_type = message_type, tp_envelope_json = envelope_json,
         tp_session_id = session_id, tp_exec_id = exec_id, tp_priority = priority, tp_created_at = created_at,
         tp_ttl_seconds = ttl_seconds, tp_retry_count = retry_count, tp_max_retries = max_retries,
         tp_correlation_id = correlation_id, tp_metadata = metadata\<rparr>
     }"

lemma fld_opt_uuid_json:
  "pget d k JNone = opt_uuid_json u \<Longrightarrow> fld_opt_uuid d k = Some u"
  by (cases u) (auto simp: fld_opt_uuid_def opt_uuid_json_def fld_uuid_def fld_str_def dget_or_def split: option.splits)

lemma task_fields_roundtrip [simp]:
  "codec_ok c \<Longrightarrow> task_of_fields c (task_fields c t @ extra) = Some t"
proof -
  assume c: "codec_ok c"
  have u: "fld_opt_uuid (task_fields c t @ extra) ''target_agent_id'' = Some (tp_target_agent_id t)"
    "fld_opt_uuid (task_fields c t @ extra) ''session_id'' = Some (tp_session_id t)"
    "fld_opt_uuid (task_fields c t @ extra) ''exec_id'' = Some (tp_exec_id t)"
    "fld_opt_uuid (task_fields c t @ extra) ''correlation_id'' = Some (tp_correlation_id t)"
    by (rule fld_opt_uuid_json, simp add: task_fields_def dget_or_def)+
  have s: "fld_opt_str (task_fields c t @ extra) ''target_conn_id'' = Some (tp_target_conn_id t)"
    by (cases "tp_target_conn_id t") (simp_all add: fld_opt_str_def dget_or_def task_fields_def)
  show ?thesis
    by (simp add: task_of_fields_def u s)
      (simp add: task_fields_def fld_str_def fld_int_def fld_uuid_def fld_time_def fld_dict_def dget_or_def c)
qed

section \<open>A hash of strings\<close>

definition dec_val :: "char \<Rightarrow> int option" where
  "dec_val c = (let n = of_char c :: nat in if 48 \<le> n \<and> n \<le> 57 then Some (int n - 48) else None)"

text \<open>\<open>int(s)\<close>: digits with single underscores between them, a sign, blanks around.\<close>

fun read_dec :: "bool \<Rightarrow> int \<Rightarrow> string \<Rightarrow> int option" where
  "read_dec digit acc [] = (if digit then Some acc else None)"
| "read_dec digit acc (c # cs) =
     (if c = CHR ''_'' then (if digit then read_dec False acc cs else None)
      else case dec_val c of None \<Rightarrow> None | Some d \<Rightarrow> read_dec True (10 * acc + d) cs)"

definition py_int :: "string \<Rightarrow> int option" where
  "py_int s =
     (case strip py_blanks s of
        [] \<Rightarrow> None
      | c # cs \<Rightarrow>
          if c = CHR ''-'' then map_option uminus (read_dec False 0 cs)
          else if c = CHR ''+'' then read_dec False 0 cs
          else read_dec False 0 (c # cs))"

type_synonym hash = "(string, string) pydict"

definition opt_uuid_text :: "uuid option \<Rightarrow> string" where
  "opt_uuid_text u = (case u of None \<Rightarrow> [] | Some v \<Rightarrow> uuid_str v)"

definition task_hash :: "codec \<Rightarrow> task_payload \<Rightarrow> hash" where
  "task_hash c t =
     [(''task_id'', uuid_str (tp_task_id t)),
      (''tenant_id'', tp_tenant_id t),
      (''target_agent_id'', opt_uuid_text (tp_target_agent_id t)),
      (''target_conn_id'', if str_true (tp_target_conn_id t) then the (tp_target_conn_id t) else []),
      (''message_type'', tp_message_type t),
      (''envelope_json'', tp_envelope_json t),
      (''session_id'', opt_uuid_text (tp_session_id t)),
      (''exec_id'', opt_uuid_text (tp_exec_id t)),
      (''priority'', int_str (task_priority_value (tp_priority t))),
      (''created_at'', cd_isoformat c (tp_created_at t)),
      (''ttl_seconds'', int_str (tp_ttl_seconds t)),
      (''retry_count'', int_str (tp_retry_count t)),
      (''max_retries'', int_str (tp_max_retries t)),
      (''correlation_id'', opt_uuid_text (tp_correlation_id t)),
      (''metadata'', cd_dumps c (JDict (tp_metadata t)))]"

definition hash_uuid :: "hash \<Rightarrow> string \<Rightarrow> uuid option option" where
  "hash_uuid d k = (if str_true (dget d k) then map_option Some (uuid_parse (the (dget d k))) else Some None)"

definition task_of_hash :: "codec \<Rightarrow> hash \<Rightarrow> task_payload option" where
  "task_of_hash c d =
     do {
       task_id \<leftarrow> Option.bind (dget d ''task_id'') uuid_parse;
       tenant_id \<leftarrow> dget d ''tenant_id'';
       target_agent_id \<leftarrow> hash_uuid d ''target_agent_id'';
       target_conn_id \<leftarrow> Some (if str_true (dget d ''target_conn_id'') then dget d ''target_conn_id'' else None);
       message_type \<leftarrow> dget d ''message_type'';
       envelope_json \<leftarrow> dget d ''envelope_json'';
       session_id \<leftarrow> hash_uuid d ''session_id'';
       exec_id \<leftarrow> hash_uuid d ''exec_id'';
       prio \<leftarrow> Option.bind (dget d ''priority'') py_int;
       priority \<leftarrow> prio_of_value prio;
       created_at \<leftarrow> Option.bind (dget d ''created_at'') (cd_fromiso c);
       ttl_seconds \<leftarrow> Option.bind (dget d ''ttl_seconds'') py_int;
       retry_count \<leftarrow> Option.bind (dget d ''retry_count'') py_int;
       max_retries \<leftarrow> Option.bind (dget d ''max_retries'') py_int;
       correlation_id \<leftarrow> hash_uuid d ''correlation_id'';
       metadata \<leftarrow> (case cd_loads c (dget_or d ''metadata'' ''{}'') of Some (JDict m) \<Rightarrow> Some m | _ \<Rightarrow> None);
       Some \<lparr>tp_task_id = task_id, tp_tenant_id = tenant_id, tp_target_agent_id = target_agent_id,
         tp_target_conn_id = target_conn_id, tp_message_type = message_type, tp_envelope_json = envelope_json,
         tp_session_id = session_id, tp_exec_id = exec_id, tp_priority = priority, tp_created_at = created_at,
         tp_ttl_seconds = ttl_seconds, tp_retry_count = retry_count, tp_max_retries = max_retries,
         tp_correlation_id = correlation_id, tp_metadata = metadata\<rparr>
     }"

lemma mod_10_cases: "(n::nat) mod 10 \<in> {0, 1, 2, 3, 4, 5, 6, 7, 8, 9}"
proof -
  have "n mod 10 = 0 \<or> n mod 10 = 1 \<or> n mod 10 = 2 \<or> n mod 10 = 3 \<or> n mod 10 = 4 \<or> n mod 10 = 5 \<or> n mod 10 = 6 \<or>
      n mod 10 = 7 \<or> n mod 10 = 8 \<or> n mod 10 = 9" by presburger
  then show ?thesis by simp
qed

lemma dec_val_digit [simp]: "dec_val (dec_digit n) = Some (int (n mod 10))"
proof -
  show ?thesis using mod_10_cases [of n] by (auto simp: dec_digit_def dec_val_def)
qed

lemma dec_digit_plain [simp]: "dec_digit n \<noteq> CHR ''_''" "dec_digit n \<noteq> CHR ''-''" "dec_digit n \<noteq> CHR ''+''"
proof -
  show "dec_digit n \<noteq> CHR ''_''" "dec_digit n \<noteq> CHR ''-''" "dec_digit n \<noteq> CHR ''+''"
    using mod_10_cases [of n] by (auto simp: dec_digit_def)
qed

lemma read_dec_nat_str: "read_dec digit acc (nat_str n @ s) = read_dec True (acc * 10 ^ length (nat_str n) + int n) s"
proof (induction n arbitrary: digit acc s rule: nat_str.induct)
  case (1 n)
  show ?case
  proof (cases "n < 10")
    case True
    then have "nat_str n = [dec_digit n]" by (simp add: nat_str.simps [of n])
    then show ?thesis using True by (simp add: mult.commute)
  next
    case False
    then have split: "nat_str n = nat_str (n div 10) @ [dec_digit n]" by (simp add: nat_str.simps [of n])
    have "10 * int (n div 10) + int (n mod 10) = int n" by presburger
    then have eq: "10 * (acc * 10 ^ length (nat_str (n div 10)) + int (n div 10)) + int (n mod 10) =
        acc * 10 ^ length (nat_str n) + int n"
      by (simp add: split algebra_simps)
    have "read_dec digit acc (nat_str n @ s) =
        read_dec True (10 * (acc * 10 ^ length (nat_str (n div 10)) + int (n div 10)) + int (n mod 10)) s"
      unfolding split append_assoc "1.IH" [OF False] by simp
    then show ?thesis by (simp only: eq)
  qed
qed

lemma nat_str_Cons: "\<exists>d ds. nat_str n = dec_digit d # ds"
proof (induction n rule: nat_str.induct)
  case (1 n)
  then show ?case by (cases "n < 10") (auto simp: nat_str.simps [of n])
qed

lemma strip_int_str: "strip py_blanks (int_str i) = int_str i"
proof (rule strip_absent)
  have "set (int_str i) \<subseteq> insert (CHR ''-'') dec_digits"
    using set_nat_str by (auto simp: int_str_def)
  moreover have "insert (CHR ''-'') dec_digits \<inter> py_blanks = {}" by code_simp
  ultimately show "set (int_str i) \<inter> py_blanks = {}" by blast
qed

lemma py_int_str [simp]: "py_int (int_str i) = Some i"
proof (cases "i < 0")
  case True
  then show ?thesis using read_dec_nat_str [of False 0 "nat (- i)" "[]"]
    by (simp add: py_int_def strip_int_str) (simp add: int_str_def)
next
  case False
  obtain d ds where d: "nat_str (nat i) = dec_digit d # ds" using nat_str_Cons by blast
  with False show ?thesis using read_dec_nat_str [of False 0 "nat i" "[]"]
    by (simp add: py_int_def strip_int_str) (simp add: int_str_def d)
qed

lemma hash_uuid_text: "dget d k = Some (opt_uuid_text u) \<Longrightarrow> hash_uuid d k = Some u"
  by (cases u) (simp_all add: hash_uuid_def opt_uuid_text_def)

text \<open>An empty connection id comes back as none.\<close>

definition no_empty_conn :: "task_payload \<Rightarrow> task_payload" where
  "no_empty_conn t = t\<lparr>tp_target_conn_id := if str_true (tp_target_conn_id t) then tp_target_conn_id t else None\<rparr>"

lemma task_hash_roundtrip [simp]:
  "codec_ok c \<Longrightarrow> task_of_hash c (task_hash c t) = Some (no_empty_conn t)"
proof -
  assume c: "codec_ok c"
  have u: "hash_uuid (task_hash c t) ''target_agent_id'' = Some (tp_target_agent_id t)"
    "hash_uuid (task_hash c t) ''session_id'' = Some (tp_session_id t)"
    "hash_uuid (task_hash c t) ''exec_id'' = Some (tp_exec_id t)"
    "hash_uuid (task_hash c t) ''correlation_id'' = Some (tp_correlation_id t)"
    by (rule hash_uuid_text, simp add: task_hash_def)+
  show ?thesis
    by (simp add: task_of_hash_def u) (cases "tp_target_conn_id t"; simp add: task_hash_def dget_or_def c no_empty_conn_def)
qed

end
