(* ===== verification/Kafka_Queue.thy ===== *)
theory Kafka_Queue
  imports Task_Wire
begin

text \<open>
  \<open>src/queue/kafka_queue.py\<close>: the queue over Kafka. The producer and the consumer of \<open>aiokafka\<close> are the record
  \<open>kafka\<close> over a state that is left open; a call answers whether it went through, False or None standing for a
  \<open>KafkaError\<close>. What goes to the broker and comes from it is the text of a message: the serializers that the
  queue gives to its producer and consumer (\<open>json.dumps\<close>, \<open>json.loads\<close>, the codec) are applied here, their encoding
  as UTF-8 apart. A method of the queue runs here without interruption. The times of the delay are in seconds;
  the offset of the local time zone, which \<open>timestamp()\<close> of a naive time brings in, is left out: it is the same
  on both sides of the comparison within one zone.
\<close>

section \<open>The client and the state\<close>

text \<open>A message as it is on a topic: topic and partition, offset, and the text of its value.\<close>

type_synonym kafka_message = "(string \<times> int) \<times> int \<times> string"

record 's kafka =
  kf_start_producer :: "'s \<Rightarrow> bool \<times> 's"
  kf_start_consumer :: "string list \<Rightarrow> string \<Rightarrow> 's \<Rightarrow> bool \<times> 's"
  kf_send_and_wait :: "string \<Rightarrow> string \<Rightarrow> string option \<Rightarrow> 's \<Rightarrow> bool \<times> 's"
  kf_getmany :: "int \<Rightarrow> 's \<Rightarrow> kafka_message list option \<times> 's"
  kf_commit :: "'s \<Rightarrow> bool \<times> 's"
  kf_stop_producer :: "'s \<Rightarrow> 's"
  kf_stop_consumer :: "'s \<Rightarrow> 's"

record 's kafka_queue =
  kq_prefix :: string
  kq_group :: string
  kq_retry_base_delay :: rat
  kq_retry_max_delay :: rat
  kq_producer :: bool
  kq_consumer :: bool
  kq_closed :: bool
  kq_tasks :: "(uuid, task_payload) pydict"
  kq_results :: "(uuid, task_result) pydict"
  kq_pending_count :: int
  kq_broker :: 's

datatype kafka_failure =
    KafkaFailure
  | EnqueueFailure
  | KafkaClosed string
  | KafkaUnreadable

definition kq_init :: "string \<Rightarrow> string \<Rightarrow> rat \<Rightarrow> rat \<Rightarrow> 's \<Rightarrow> 's kafka_queue" where
  "kq_init topic_prefix consumer_group base_delay max_delay broker =
     \<lparr>kq_prefix = topic_prefix, kq_group = consumer_group, kq_retry_base_delay = base_delay,
      kq_retry_max_delay = max_delay, kq_producer = False, kq_consumer = False, kq_closed = False,
      kq_tasks = [], kq_results = [], kq_pending_count = 0, kq_broker = broker\<rparr>"

definition kq_topic_name :: "'s kafka_queue \<Rightarrow> task_priority \<Rightarrow> string" where
  "kq_topic_name q p = kq_prefix q @ ''.tasks.'' @ prio_name_lower p"

definition kq_results_topic :: "'s kafka_queue \<Rightarrow> string" where
  "kq_results_topic q = kq_prefix q @ ''.results''"

definition kq_dlq_topic :: "'s kafka_queue \<Rightarrow> string" where
  "kq_dlq_topic q = kq_prefix q @ ''.dlq''"

section \<open>Connections\<close>

definition kq_ensure_producer :: "'s kafka \<Rightarrow> 's kafka_queue \<Rightarrow> (kafka_failure + unit) \<times> 's kafka_queue" where
  "kq_ensure_producer B q =
     (if kq_producer q then (Inr (), q)
      else let (ok, b) = kf_start_producer B (kq_broker q) in
        if ok then (Inr (), q\<lparr>kq_producer := True, kq_broker := b\<rparr>)
        else (Inl KafkaFailure, q\<lparr>kq_producer := True, kq_broker := b\<rparr>))"

definition kq_ensure_consumer :: "'s kafka \<Rightarrow> 's kafka_queue \<Rightarrow> (kafka_failure + unit) \<times> 's kafka_queue" where
  "kq_ensure_consumer B q =
     (if kq_consumer q then (Inr (), q)
      else let (ok, b) = kf_start_consumer B (map (kq_topic_name q) all_priorities) (kq_group q) (kq_broker q) in
        if ok then (Inr (), q\<lparr>kq_consumer := True, kq_broker := b\<rparr>)
        else (Inl KafkaFailure, q\<lparr>kq_consumer := True, kq_broker := b\<rparr>))"

definition kq_commit :: "'s kafka \<Rightarrow> 's kafka_queue \<Rightarrow> (kafka_failure + unit) \<times> 's kafka_queue" where
  "kq_commit B q =
     (let (ok, b) = kf_commit B (kq_broker q) in (if ok then Inr () else Inl KafkaFailure, q\<lparr>kq_broker := b\<rparr>))"

text \<open>The serializers of the producer: a value becomes the text of its JSON, a key that is empty no key.\<close>

definition kq_serialize :: "codec \<Rightarrow> payload \<Rightarrow> string" where
  "kq_serialize c val = cd_dumps c (JDict val)"

definition kq_serialize_key :: "string \<Rightarrow> string option" where
  "kq_serialize_key key = (if key = [] then None else Some key)"

definition kq_send ::
  "'s kafka \<Rightarrow> codec \<Rightarrow> string \<Rightarrow> payload \<Rightarrow> string \<Rightarrow> 's kafka_queue \<Rightarrow> (kafka_failure + unit) \<times> 's kafka_queue" where
  "kq_send B c topic val key q =
     (let (ok, b) = kf_send_and_wait B topic (kq_serialize c val) (kq_serialize_key key) (kq_broker q) in
      (if ok then Inr () else Inl KafkaFailure, q\<lparr>kq_broker := b\<rparr>))"

text \<open>The deserializer of the consumer reads the messages of a poll; None when one of them is not JSON, for which the poll
  raises.\<close>

type_synonym kafka_record = "(string \<times> int) \<times> int \<times> json"

fun kq_deserialize :: "codec \<Rightarrow> kafka_message list \<Rightarrow> kafka_record list option" where
  "kq_deserialize c [] = Some []"
| "kq_deserialize c ((tp, offset, body) # ms) =
     (case cd_loads c body of
        None \<Rightarrow> None
      | Some val \<Rightarrow> map_option (Cons (tp, offset, val)) (kq_deserialize c ms))"

section \<open>Operations\<close>

text \<open>\<open>utcnow().timestamp()\<close>.\<close>

definition timestamp :: "datetime \<Rightarrow> rat" where
  "timestamp now = of_int now / 1000000"

definition kq_value :: "codec \<Rightarrow> datetime \<Rightarrow> task_payload \<Rightarrow> rat \<Rightarrow> payload" where
  "kq_value c now t delay =
     task_fields c t @ (if 0 < delay then [(''_delay_until'', JFloat (timestamp now + delay))] else [])"

definition kq_enqueue ::
  "'s kafka \<Rightarrow> codec \<Rightarrow> datetime \<Rightarrow> task_payload \<Rightarrow> rat \<Rightarrow> 's kafka_queue \<Rightarrow> (kafka_failure + task_payload) \<times> 's kafka_queue" where
  "kq_enqueue B c now t delay q =
     (if kq_closed q then (Inl (KafkaClosed ''Queue is shutdown''), q)
      else andthen (kq_ensure_producer B q) (\<lambda>_ q.
        case kq_send B c (kq_topic_name q (tp_priority t)) (kq_value c now t delay) (tp_tenant_id t) q of
          (Inl _, q) \<Rightarrow> (Inl EnqueueFailure, q)
        | (Inr _, q) \<Rightarrow> (Inr t, q\<lparr>kq_tasks := dset (tp_task_id t) t (kq_tasks q),
              kq_pending_count := kq_pending_count q + 1\<rparr>)))"

definition kq_outcome :: "datetime \<Rightarrow> uuid \<Rightarrow> task_status \<Rightarrow> string \<Rightarrow> string \<Rightarrow> task_result" where
  "kq_outcome now i st code msg =
     (new_task_result i st now)\<lparr>tr_error_code := Some code, tr_error_message := Some msg\<rparr>"

text \<open>The result of a task, which is tracked no longer.\<close>

definition kq_settle :: "uuid \<Rightarrow> task_result \<Rightarrow> 's kafka_queue \<Rightarrow> 's kafka_queue" where
  "kq_settle i r q =
     q\<lparr>kq_results := dset i r (kq_results q), kq_tasks := dpop i (kq_tasks q),
       kq_pending_count := max 0 (kq_pending_count q - 1)\<rparr>"

definition kq_mark_expired :: "datetime \<Rightarrow> task_payload \<Rightarrow> 's kafka_queue \<Rightarrow> 's kafka_queue" where
  "kq_mark_expired now t q =
     kq_settle (tp_task_id t) (kq_outcome now (tp_task_id t) TASK_EXPIRED ''TASK_EXPIRED''
       (''Task exceeded TTL of '' @ int_str (tp_ttl_seconds t) @ ''s'')) q"

text \<open>\<open>delay_until and timestamp < delay_until\<close>; None when the value is no number.\<close>

definition kq_delayed :: "datetime \<Rightarrow> payload \<Rightarrow> bool option" where
  "kq_delayed now d =
     (case pget d ''_delay_until'' JNone of
        JFloat x \<Rightarrow> Some (x \<noteq> 0 \<and> timestamp now < x)
      | JInt i \<Rightarrow> Some (i \<noteq> 0 \<and> timestamp now < of_int i)
      | JBool b \<Rightarrow> Some (b \<and> timestamp now < 1)
      | v \<Rightarrow> if py_bool v then None else Some False)"

text \<open>The messages of a poll; a \<open>KafkaError\<close> of the commit ends the call without a task. A value that is not an
  object has no fields to read.\<close>

fun kq_scan ::
  "'s kafka \<Rightarrow> codec \<Rightarrow> datetime \<Rightarrow> string option \<Rightarrow> kafka_record list \<Rightarrow> 's kafka_queue \<Rightarrow>
     (kafka_failure + task_payload option) \<times> 's kafka_queue" where
  "kq_scan B c now tenant [] q = (Inr None, q)"
| "kq_scan B c now tenant (((topic, part), offset, JDict val) # ms) q =
     (case task_of_fields c val of
        None \<Rightarrow> (Inl KafkaUnreadable, q)
      | Some t \<Rightarrow>
         (case kq_delayed now val of
            None \<Rightarrow> (Inl KafkaUnreadable, q)
          | Some True \<Rightarrow> kq_scan B c now tenant ms q
          | Some False \<Rightarrow>
              if \<not> str_filter tenant (tp_tenant_id t) then kq_scan B c now tenant ms q
              else if task_is_expired now t then
                (case kq_commit B (kq_mark_expired now t q) of
                   (Inl _, q) \<Rightarrow> (Inr None, q)
                 | (Inr _, q) \<Rightarrow> kq_scan B c now tenant ms q)
              else
                let t = t\<lparr>tp_metadata := dset ''_kafka_offset'' (JInt offset)
                      (dset ''_kafka_tp'' (JList [JStr topic, JInt part]) (tp_metadata t))\<rparr>
                in (Inr (Some t), q\<lparr>kq_tasks := dset (tp_task_id t) t (kq_tasks q)\<rparr>)))"
| "kq_scan B c now tenant (m # ms) q = (Inl KafkaUnreadable, q)"

definition kq_dequeue ::
  "'s kafka \<Rightarrow> codec \<Rightarrow> datetime \<Rightarrow> string option \<Rightarrow> rat \<Rightarrow> 's kafka_queue \<Rightarrow>
     (kafka_failure + task_payload option) \<times> 's kafka_queue" where
  "kq_dequeue B c now tenant timeout q =
     (if kq_closed q then (Inr None, q)
      else andthen (kq_ensure_consumer B q) (\<lambda>_ q.
        let timeout_ms = (if 0 < timeout then \<lfloor>timeout * 1000\<rfloor> else 100);
            (polled, b) = kf_getmany B timeout_ms (kq_broker q);
            q = q\<lparr>kq_broker := b\<rparr>
        in case polled of
             None \<Rightarrow> (Inr None, q)
           | Some ms \<Rightarrow>
               (case kq_deserialize c ms of
                  None \<Rightarrow> (Inl KafkaUnreadable, q)
                | Some records \<Rightarrow> kq_scan B c now tenant records q)))"

definition kq_complete ::
  "'s kafka \<Rightarrow> codec \<Rightarrow> uuid \<Rightarrow> task_result \<Rightarrow> 's kafka_queue \<Rightarrow> (kafka_failure + bool) \<times> 's kafka_queue" where
  "kq_complete B c i r q =
     (if dget (kq_tasks q) i = None then (Inr False, q)
      else andthen (kq_ensure_consumer B q) (\<lambda>_ q.
        andthen (kq_commit B q) (\<lambda>_ q.
        andthen (kq_ensure_producer B (q\<lparr>kq_results := dset i r (kq_results q)\<rparr>)) (\<lambda>_ q.
        andthen (kq_send B c (kq_results_topic q)
            [(''task_id'', JStr (uuid_str i)), (''status'', JStr (task_status_value (tr_status r))),
             (''result'', tr_result r), (''processed_at'', JStr (cd_isoformat c (tr_processed_at r)))]
            (uuid_str i) q) (\<lambda>_ q.
        (Inr True, kq_settle i r q))))))"

definition kq_fail ::
  "'s kafka \<Rightarrow> codec \<Rightarrow> datetime \<Rightarrow> uuid \<Rightarrow> string \<Rightarrow> string \<Rightarrow> bool \<Rightarrow> 's kafka_queue \<Rightarrow>
     (kafka_failure + bool) \<times> 's kafka_queue" where
  "kq_fail B c now i code msg retry q =
     (case dget (kq_tasks q) i of
        None \<Rightarrow> (Inr False, q)
      | Some t \<Rightarrow>
          andthen (kq_ensure_consumer B q) (\<lambda>_ q.
          andthen (kq_commit B q) (\<lambda>_ q.
            if retry \<and> task_can_retry t then
              let t = t\<lparr>tp_retry_count := tp_retry_count t + 1\<rparr>;
                  delay = backoff (kq_retry_base_delay q) (kq_retry_max_delay q) (tp_retry_count t)
              in andthen (kq_enqueue B c now t delay (q\<lparr>kq_tasks := dpop i (kq_tasks q)\<rparr>)) (\<lambda>_ q. (Inr True, q))
            else
              andthen (kq_ensure_producer B q) (\<lambda>_ q.
              andthen (kq_send B c (kq_dlq_topic q)
                  [(''task'', JDict (task_fields c t)), (''error_code'', JStr code),
                   (''error_message'', JStr msg), (''failed_at'', JStr (cd_isoformat c now))] (uuid_str i) q) (\<lambda>_ q.
              (Inr True, kq_settle i ((kq_outcome now i TASK_FAILED code msg)\<lparr>tr_retry_count := tp_retry_count t\<rparr>) q))))))"

definition kq_get :: "uuid \<Rightarrow> 's kafka_queue \<Rightarrow> task_payload option" where
  "kq_get i q = dget (kq_tasks q) i"

definition kq_get_result :: "uuid \<Rightarrow> 's kafka_queue \<Rightarrow> task_result option" where
  "kq_get_result i q = dget (kq_results q) i"

definition kq_cancel :: "datetime \<Rightarrow> uuid \<Rightarrow> 's kafka_queue \<Rightarrow> bool \<times> 's kafka_queue" where
  "kq_cancel now i q =
     (if dget (kq_tasks q) i = None then (False, q)
      else (True, kq_settle i (kq_outcome now i TASK_CANCELLED ''TASK_CANCELLED'' ''Task cancelled by user'') q))"

definition kq_size :: "string option \<Rightarrow> 's kafka_queue \<Rightarrow> int" where
  "kq_size tenant q =
     (if str_true tenant then int (length (filter (\<lambda>t. Some (tp_tenant_id t) = tenant) (dvalues (kq_tasks q))))
      else kq_pending_count q)"

definition kq_pending_by_agent :: "uuid \<Rightarrow> 's kafka_queue \<Rightarrow> int" where
  "kq_pending_by_agent a q = int (length (filter (\<lambda>t. tp_target_agent_id t = Some a) (dvalues (kq_tasks q))))"

fun kq_clear_loop :: "datetime \<Rightarrow> (uuid, task_payload) pydict \<Rightarrow> int \<Rightarrow> 's kafka_queue \<Rightarrow> int \<times> 's kafka_queue" where
  "kq_clear_loop now [] n q = (n, q)"
| "kq_clear_loop now ((i, t) # ts) n q =
     (if task_is_expired now t then kq_clear_loop now ts (n + 1) (kq_mark_expired now t q)
      else kq_clear_loop now ts n q)"

definition kq_clear_expired :: "datetime \<Rightarrow> 's kafka_queue \<Rightarrow> int \<times> 's kafka_queue" where
  "kq_clear_expired now q = kq_clear_loop now (kq_tasks q) 0 q"

definition kq_shutdown :: "'s kafka \<Rightarrow> 's kafka_queue \<Rightarrow> 's kafka_queue" where
  "kq_shutdown B q =
     (let q = q\<lparr>kq_closed := True\<rparr>;
          q = (if kq_producer q then q\<lparr>kq_broker := kf_stop_producer B (kq_broker q), kq_producer := False\<rparr> else q)
      in if kq_consumer q then q\<lparr>kq_broker := kf_stop_consumer B (kq_broker q), kq_consumer := False\<rparr> else q)"

end
