(* ===== verification/Kafka_Props.thy ===== *)
theory Kafka_Props
  imports Kafka_Queue
begin

text \<open>
  What \<open>src/queue/kafka_queue.py\<close> guarantees whatever the broker does: what is dequeued from the text of a message is
  what was enqueued,
  where a call that raises leaves a task, and that tasks stay under their ids.
\<close>

section \<open>Round trip\<close>

lemma kq_value_task [simp]: "codec_ok c \<Longrightarrow> task_of_fields c (kq_value c now t delay) = Some t"
  by (simp add: kq_value_def)

lemma kq_value_delayed:
  "kq_delayed now' (kq_value c now t delay) =
     Some (0 < delay \<and> timestamp now + delay \<noteq> 0 \<and> timestamp now' < timestamp now + delay)"
  by (auto simp: kq_delayed_def kq_value_def task_fields_def dget_or_def)

definition with_offset :: "string \<Rightarrow> int \<Rightarrow> int \<Rightarrow> task_payload \<Rightarrow> task_payload" where
  "with_offset topic part offset t =
     t\<lparr>tp_metadata := dset ''_kafka_offset'' (JInt offset)
         (dset ''_kafka_tp'' (JList [JStr topic, JInt part]) (tp_metadata t))\<rparr>"

definition kq_late :: "datetime \<Rightarrow> datetime \<Rightarrow> rat \<Rightarrow> bool" where
  "kq_late now' now delay = (0 < delay \<and> timestamp now + delay \<noteq> 0 \<and> timestamp now' < timestamp now + delay)"

text \<open>What a poll makes of one message that \<open>enqueue\<close> wrote.\<close>

definition kq_handed_out ::
  "'s kafka \<Rightarrow> datetime \<Rightarrow> datetime \<Rightarrow> rat \<Rightarrow> string option \<Rightarrow> string \<times> int \<Rightarrow> int \<Rightarrow> task_payload \<Rightarrow> 's kafka_queue \<Rightarrow>
     (kafka_failure + task_payload option) \<times> 's kafka_queue" where
  "kq_handed_out B now now' delay tenant tp offset t q =
     (if kq_late now' now delay \<or> \<not> str_filter tenant (tp_tenant_id t) then (Inr None, q)
      else if task_is_expired now' t then (Inr None, snd (kq_commit B (kq_mark_expired now' t q)))
      else (Inr (Some (with_offset (fst tp) (snd tp) offset t)),
        q\<lparr>kq_tasks := dset (tp_task_id t) (with_offset (fst tp) (snd tp) offset t) (kq_tasks q)\<rparr>))"

lemma kq_scan_value:
  assumes "codec_ok c"
  shows "kq_scan B c now' tenant [((topic, part), offset, JDict (kq_value c now t delay))] q =
    kq_handed_out B now now' delay tenant (topic, part) offset t q"
proof (cases "kq_late now' now delay")
  case True
  then have "kq_delayed now' (kq_value c now t delay) = Some True" by (simp add: kq_value_delayed kq_late_def)
  with True assms show ?thesis by (simp add: kq_handed_out_def)
next
  case False
  then have "kq_delayed now' (kq_value c now t delay) = Some False" by (auto simp: kq_value_delayed kq_late_def)
  with False assms show ?thesis
    by (simp add: with_offset_def Let_def kq_handed_out_def split: prod.split sum.split)
qed

lemma kq_dequeue_value:
  assumes "codec_ok c" and "\<not> kq_closed q" and "kq_consumer q"
    and "kf_getmany B (if 0 < timeout then \<lfloor>timeout * 1000\<rfloor> else 100) (kq_broker q) =
      (Some [(tp, offset, kq_serialize c (kq_value c now t delay))], b)"
  shows "kq_dequeue B c now' tenant timeout q = kq_handed_out B now now' delay tenant tp offset t (q\<lparr>kq_broker := b\<rparr>)"
  using assms(2-4) kq_scan_value [OF assms(1), of B now' tenant "fst tp" "snd tp" offset now t delay "q\<lparr>kq_broker := b\<rparr>"]
  by (simp add: kq_dequeue_def kq_ensure_consumer_def kq_serialize_def assms(1) Let_def)

text \<open>C29: when \<open>enqueue\<close> of a task succeeds, it has sent one message to the topic of the task's priority, under its tenant
  as the key, and any consumer that later polls that message gets the task back from its text as it was, with only the
  place of the message added to its metadata, and tracks it, with three exceptions: before the delay of the
  task is over, or when it is of another tenant, the call returns nothing and the message is passed over; when it is overdue
  it is marked expired and its offset committed.\<close>

theorem kafka_roundtrip:
  assumes "codec_ok c" and "kq_enqueue B c now t delay p = (Inr t', p')"
  shows "t' = t \<and> kq_get (tp_task_id t) p' = Some t \<and>
    (\<exists>body. kf_send_and_wait B (kq_topic_name p (tp_priority t)) body
         (if tp_tenant_id t = [] then None else Some (tp_tenant_id t)) (kq_broker (snd (kq_ensure_producer B p))) =
         (True, kq_broker p') \<and>
       (\<forall>q tp offset b now' tenant timeout. \<not> kq_closed q \<longrightarrow> kq_consumer q \<longrightarrow>
          kf_getmany B (if 0 < timeout then \<lfloor>timeout * 1000\<rfloor> else 100) (kq_broker q) = (Some [(tp, offset, body)], b) \<longrightarrow>
          kq_dequeue B c now' tenant timeout q =
            (let q = q\<lparr>kq_broker := b\<rparr>; t = with_offset (fst tp) (snd tp) offset t in
             if kq_late now' now delay \<or> \<not> str_filter tenant (tp_tenant_id t) then (Inr None, q)
             else if task_is_expired now' t then (Inr None, snd (kq_commit B (kq_mark_expired now' t q)))
             else (Inr (Some t), q\<lparr>kq_tasks := dset (tp_task_id t) t (kq_tasks q)\<rparr>))))"
proof -
  let ?body = "kq_serialize c (kq_value c now t delay)"
  obtain y p1 where p1: "kq_ensure_producer B p = (y, p1)" by fastforce
  then have "kq_prefix p1 = kq_prefix p"
    by (auto simp: kq_ensure_producer_def split: if_splits prod.splits)
  then have topic: "kq_topic_name p1 x = kq_topic_name p x" for x by (simp add: kq_topic_name_def)
  have sent: "t' = t \<and> kq_get (tp_task_id t) p' = Some t \<and>
    kf_send_and_wait B (kq_topic_name p (tp_priority t)) ?body
         (if tp_tenant_id t = [] then None else Some (tp_tenant_id t)) (kq_broker p1) = (True, kq_broker p')"
  proof -
    obtain ok b where b: "kf_send_and_wait B (kq_topic_name p (tp_priority t)) ?body (kq_serialize_key (tp_tenant_id t))
        (kq_broker p1) = (ok, b)" by fastforce
    show ?thesis
      using assms(2) b unfolding kq_serialize_key_def
      by (cases y; cases ok) (auto simp: kq_enqueue_def p1 topic kq_send_def kq_serialize_key_def kq_get_def split: if_splits)
  qed
  have out: "kq_handed_out B now now' delay tenant tp offset t q =
      (let t = with_offset (fst tp) (snd tp) offset t in
       if kq_late now' now delay \<or> \<not> str_filter tenant (tp_tenant_id t) then (Inr None, q)
       else if task_is_expired now' t then (Inr None, snd (kq_commit B (kq_mark_expired now' t q)))
       else (Inr (Some t), q\<lparr>kq_tasks := dset (tp_task_id t) t (kq_tasks q)\<rparr>))" for now' tenant tp offset and q :: "'a kafka_queue"
    by (simp add: kq_handed_out_def with_offset_def task_is_expired_def kq_mark_expired_def Let_def)
  show ?thesis
  proof (intro conjI exI [of _ ?body] allI impI)
    fix q :: "'a kafka_queue" and tp offset b now' tenant and timeout :: rat
    assume "\<not> kq_closed q" "kq_consumer q" "kf_getmany B (if 0 < timeout then \<lfloor>timeout * 1000\<rfloor> else 100) (kq_broker q) =
      (Some [(tp, offset, ?body)], b)"
    from kq_dequeue_value [OF assms(1) this]
    show "kq_dequeue B c now' tenant timeout q =
            (let q = q\<lparr>kq_broker := b\<rparr>; t = with_offset (fst tp) (snd tp) offset t in
             if kq_late now' now delay \<or> \<not> str_filter tenant (tp_tenant_id t) then (Inr None, q)
             else if task_is_expired now' t then (Inr None, snd (kq_commit B (kq_mark_expired now' t q)))
             else (Inr (Some t), q\<lparr>kq_tasks := dset (tp_task_id t) t (kq_tasks q)\<rparr>))"
      unfolding out Let_def .
  qed (use sent in \<open>simp_all add: p1\<close>)
qed

section \<open>Calls that raise\<close>

lemma andthen_Inl:
  "andthen r f = (Inl e, q) \<Longrightarrow> (fst r = Inl e \<and> snd r = q) \<or> (\<exists>a q'. r = (Inr a, q') \<and> f a q' = (Inl e, q))"
  by (auto simp: andthen_def split: prod.splits sum.splits)

lemma andthen_Inr: "andthen r f = (Inr x, q) \<Longrightarrow> \<exists>a q'. r = (Inr a, q') \<and> f a q' = (Inr x, q)"
  by (auto simp: andthen_def split: prod.splits sum.splits)

text \<open>Connecting, sending and committing leave the records of the tasks alone.\<close>

definition same_tasks :: "'s kafka_queue \<Rightarrow> 's kafka_queue \<Rightarrow> bool" where
  "same_tasks q q' =
     (kq_tasks q' = kq_tasks q \<and> kq_results q' = kq_results q \<and> kq_pending_count q' = kq_pending_count q \<and>
      kq_retry_base_delay q' = kq_retry_base_delay q \<and> kq_retry_max_delay q' = kq_retry_max_delay q \<and>
      kq_prefix q' = kq_prefix q \<and> kq_closed q' = kq_closed q)"

lemma same_tasks_trans: "same_tasks q q' \<Longrightarrow> same_tasks q' q'' \<Longrightarrow> same_tasks q q''"
  by (simp add: same_tasks_def)

lemma kq_quiet:
  "kq_ensure_producer B q = (x, q') \<Longrightarrow> same_tasks q q'"
  "kq_ensure_consumer B q = (x, q') \<Longrightarrow> same_tasks q q'"
  "kq_commit B q = (x, q') \<Longrightarrow> same_tasks q q'"
  "kq_send B c topic val key q = (x, q') \<Longrightarrow> same_tasks q q'"
  by (auto simp: kq_ensure_producer_def kq_ensure_consumer_def kq_commit_def kq_send_def same_tasks_def
      split: if_splits prod.splits)

lemma kq_enqueue_cases:
  assumes "kq_enqueue B c now t delay q = (x, q')"
  shows "(\<exists>e. x = Inl e \<and> same_tasks q q') \<or>
    (x = Inr t \<and> kq_tasks q' = dset (tp_task_id t) t (kq_tasks q) \<and> kq_results q' = kq_results q \<and>
       kq_pending_count q' = kq_pending_count q + 1)"
proof (cases "kq_closed q")
  case False
  obtain y p where p: "kq_ensure_producer B q = (y, p)" by fastforce
  obtain z s where s: "kq_send B c (kq_topic_name p (tp_priority t)) (kq_value c now t delay) (tp_tenant_id t) p = (z, s)"
    by fastforce
  have "same_tasks q p" "same_tasks p s" using kq_quiet(1) [OF p] kq_quiet(4) [OF s] by simp_all
  with assms False p s show ?thesis
    by (cases y; cases z) (auto simp: kq_enqueue_def same_tasks_def)
qed (use assms in \<open>auto simp: kq_enqueue_def same_tasks_def\<close>)

lemma kq_complete_Inl:
  assumes "kq_complete B c i r q = (Inl e, q')"
  shows "kq_tasks q' = kq_tasks q \<and> kq_pending_count q' = kq_pending_count q"
proof -
  obtain x1 q1 where 1: "kq_ensure_consumer B q = (x1, q1)" by fastforce
  obtain x2 q2 where 2: "kq_commit B q1 = (x2, q2)" by fastforce
  let ?q2 = "q2\<lparr>kq_results := dset i r (kq_results q2)\<rparr>"
  obtain x3 q3 where 3: "kq_ensure_producer B ?q2 = (x3, q3)" by fastforce
  let ?v = "[(''task_id'', JStr (uuid_str i)), (''status'', JStr (task_status_value (tr_status r))),
             (''result'', tr_result r), (''processed_at'', JStr (cd_isoformat c (tr_processed_at r)))]"
  obtain x4 q4 where 4: "kq_send B c (kq_results_topic q3) ?v (uuid_str i) q3 = (x4, q4)" by fastforce
  have "same_tasks q q1" "same_tasks q1 q2" "same_tasks ?q2 q3" "same_tasks q3 q4"
    using kq_quiet(2) [OF 1] kq_quiet(3) [OF 2] kq_quiet(1) [OF 3] kq_quiet(4) [OF 4] by simp_all
  moreover have "q' \<in> {q1, q2, q3, q4}"
    using assms by (cases x1; cases x2; cases x3; cases x4) (auto simp: kq_complete_def 1 2 3 4 split: if_splits)
  ultimately show ?thesis by (auto simp: same_tasks_def)
qed

lemma kq_fail_cases:
  assumes t: "dget (kq_tasks q) i = Some t" and run: "kq_fail B c now i code msg retry q = (x, q')"
  shows "(\<exists>e. x = Inl e \<and> same_tasks q q') \<or>
    (\<exists>e. x = Inl e \<and> retry \<and> task_can_retry t \<and> kq_tasks q' = dpop i (kq_tasks q) \<and> kq_results q' = kq_results q \<and>
       kq_pending_count q' = kq_pending_count q) \<or>
    (x = Inr True \<and> retry \<and> task_can_retry t \<and> kq_results q' = kq_results q \<and>
       kq_tasks q' = dset (tp_task_id t) (t\<lparr>tp_retry_count := tp_retry_count t + 1\<rparr>) (dpop i (kq_tasks q)) \<and>
       kq_pending_count q' = kq_pending_count q + 1) \<or>
    (x = Inr True \<and> \<not> (retry \<and> task_can_retry t) \<and> kq_tasks q' = dpop i (kq_tasks q) \<and>
       kq_pending_count q' = max 0 (kq_pending_count q - 1) \<and>
       kq_results q' = dset i ((kq_outcome now i TASK_FAILED code msg)\<lparr>tr_retry_count := tp_retry_count t\<rparr>) (kq_results q))"
proof -
  obtain x1 q1 where 1: "kq_ensure_consumer B q = (x1, q1)" by fastforce
  obtain x2 q2 where 2: "kq_commit B q1 = (x2, q2)" by fastforce
  have s: "same_tasks q q1" "same_tasks q1 q2" using kq_quiet(2) [OF 1] kq_quiet(3) [OF 2] by simp_all
  show ?thesis
  proof (cases x1)
    case (Inl e)
    then show ?thesis using run t 1 s by (auto simp: kq_fail_def)
  next
    case y1: (Inr a)
    show ?thesis
    proof (cases x2)
      case (Inl e)
      then show ?thesis using run t 1 2 y1 same_tasks_trans [OF s] by (auto simp: kq_fail_def)
    next
      case y2: (Inr b)
      show ?thesis
      proof (cases "retry \<and> task_can_retry t")
        case True
        let ?t = "t\<lparr>tp_retry_count := tp_retry_count t + 1\<rparr>" and ?q = "q2\<lparr>kq_tasks := dpop i (kq_tasks q2)\<rparr>"
        let ?d = "backoff (kq_retry_base_delay q2) (kq_retry_max_delay q2) (tp_retry_count t + 1)"
        obtain x3 q3 where 3: "kq_enqueue B c now ?t ?d ?q = (x3, q3)" by fastforce
        have "kq_fail B c now i code msg retry q = andthen (x3, q3) (\<lambda>_ q. (Inr True, q))"
          using t 1 2 y1 y2 True 3 by (simp add: kq_fail_def Let_def)
        then show ?thesis using kq_enqueue_cases [OF 3] run s True
          by (cases x3) (auto simp: same_tasks_def)
      next
        case False
        obtain x3 q3 where 3: "kq_ensure_producer B q2 = (x3, q3)" by fastforce
        let ?v = "[(''task'', JDict (task_fields c t)), (''error_code'', JStr code),
                   (''error_message'', JStr msg), (''failed_at'', JStr (cd_isoformat c now))]"
        obtain x4 q4 where 4: "kq_send B c (kq_dlq_topic q3) ?v (uuid_str i) q3 = (x4, q4)" by fastforce
        have "same_tasks q2 q3" "same_tasks q3 q4" using kq_quiet(1) [OF 3] kq_quiet(4) [OF 4] by simp_all
        moreover have "kq_fail B c now i code msg retry q = andthen (x3, q3) (\<lambda>_ q. andthen (kq_send B c (kq_dlq_topic q) ?v (uuid_str i) q)
            (\<lambda>_ q. (Inr True, kq_settle i ((kq_outcome now i TASK_FAILED code msg)\<lparr>tr_retry_count := tp_retry_count t\<rparr>) q)))"
          using t 1 2 y1 y2 False 3 by (auto simp: kq_fail_def)
        ultimately show ?thesis using run s False 4
          by (cases x3; cases x4) (auto simp: same_tasks_def kq_settle_def)
      qed
    qed
  qed
qed

text \<open>C20: whatever calls to the broker fail: a \<open>complete\<close> that raises leaves the task tracked. A \<open>fail\<close> that raises
  either leaves the task tracked and its result as it was, or it was to be retried and could not be sent again:
  then it is tracked no longer and has no outcome. A \<open>fail\<close> that returns True tracks the task with one retry more,
  or has put it away with the result failed.\<close>

theorem kafka_failure_outcomes:
  assumes "dget (kq_tasks q) i = Some t" and "tp_task_id t = i"
  shows "(kq_complete B c i r q = (Inl e, q1) \<longrightarrow> kq_get i q1 = Some t) \<and>
    (kq_fail B c now i code msg retry q = (Inl e, q2) \<longrightarrow> kq_get_result i q2 = kq_get_result i q \<and>
       (kq_get i q2 = Some t \<or> (retry \<and> task_can_retry t \<and> kq_get i q2 = None))) \<and>
    (kq_fail B c now i code msg retry q = (Inr ok, q3) \<longrightarrow> ok \<and>
       (if retry \<and> task_can_retry t
        then kq_get i q3 = Some (t\<lparr>tp_retry_count := tp_retry_count t + 1\<rparr>) \<and> kq_get_result i q3 = kq_get_result i q
        else kq_get i q3 = None \<and> map_option tr_status (kq_get_result i q3) = Some TASK_FAILED))"
proof (intro conjI impI)
  assume "kq_complete B c i r q = (Inl e, q1)"
  then show "kq_get i q1 = Some t" using kq_complete_Inl assms(1) by (fastforce simp: kq_get_def)
next
  assume "kq_fail B c now i code msg retry q = (Inl e, q2)"
  from kq_fail_cases [OF assms(1) this]
  show "kq_get_result i q2 = kq_get_result i q"
    "kq_get i q2 = Some t \<or> (retry \<and> task_can_retry t \<and> kq_get i q2 = None)"
    using assms(1) by (auto simp: kq_get_def kq_get_result_def same_tasks_def)
next
  assume "kq_fail B c now i code msg retry q = (Inr ok, q3)"
  from kq_fail_cases [OF assms(1) this]
  show ok "if retry \<and> task_can_retry t
        then kq_get i q3 = Some (t\<lparr>tp_retry_count := tp_retry_count t + 1\<rparr>) \<and> kq_get_result i q3 = kq_get_result i q
        else kq_get i q3 = None \<and> map_option tr_status (kq_get_result i q3) = Some TASK_FAILED"
    using assms by (auto simp: kq_get_def kq_get_result_def kq_outcome_def new_task_result_def)
qed

section \<open>What the book-keeping misses\<close>

text \<open>A retry counts the task a second time, although as many tasks are tracked as before.\<close>

lemma kafka_retry_counts_twice:
  assumes "dget (kq_tasks q) i = Some t" and "tp_task_id t = i" and "dict_ok (kq_tasks q)"
    and "retry" and "task_can_retry t" and "kq_fail B c now i code msg retry q = (Inr True, q')"
  shows "kq_size None q' = kq_size None q + 1 \<and> {j. kq_get j q' \<noteq> None} = {j. kq_get j q \<noteq> None}"
  using kq_fail_cases [OF assms(1,6)] assms(1,2,4,5) by (auto simp: kq_size_def kq_get_def)

text \<open>A cancelled task is handed out all the same when its message is polled.\<close>

lemma kafka_cancelled_is_delivered:
  assumes "codec_ok c" and "\<not> kq_closed q" and "kq_consumer q" and "kq_cancel now' (tp_task_id t) q = (True, q')"
    and "kf_getmany B 100 (kq_broker q) = (Some [(tp, offset, kq_serialize c (kq_value c now t 0))], b)"
    and "\<not> task_is_expired now' t"
  shows "fst (kq_dequeue B c now' None 0 q') = Inr (Some (with_offset (fst tp) (snd tp) offset t)) \<and>
    map_option tr_status (kq_get_result (tp_task_id t) q') = Some TASK_CANCELLED"
proof -
  have q': "q' = kq_settle (tp_task_id t) (kq_outcome now' (tp_task_id t) TASK_CANCELLED ''TASK_CANCELLED'' ''Task cancelled by user'') q"
    using assms(4) by (auto simp: kq_cancel_def split: if_splits)
  then have "kq_closed q' = kq_closed q" "kq_consumer q' = kq_consumer q" "kq_broker q' = kq_broker q"
    by (simp_all add: kq_settle_def)
  then show ?thesis using kq_dequeue_value [OF assms(1), of q' B 0 tp offset now t 0 b now' None] assms
    by (simp add: q' kq_get_result_def kq_settle_def kq_outcome_def new_task_result_def kq_late_def kq_handed_out_def)
qed

section \<open>Tasks stay under their ids\<close>

definition kq_keyed :: "'s kafka_queue \<Rightarrow> bool" where
  "kq_keyed q =
     (dict_ok (kq_tasks q) \<and> (\<forall>i t. dget (kq_tasks q) i = Some t \<longrightarrow> tp_task_id t = i) \<and>
      (\<forall>i r. dget (kq_results q) i = Some r \<longrightarrow> tr_task_id r = i) \<and> 0 \<le> kq_pending_count q)"

inductive kq_reachable :: "'s kafka \<Rightarrow> codec \<Rightarrow> 's kafka_queue \<Rightarrow> bool" for B c where
  init: "kq_reachable B c (kq_init p g bd md b)"
| enqueue: "kq_reachable B c q \<Longrightarrow> kq_enqueue B c now t delay q = (x, q') \<Longrightarrow> kq_reachable B c q'"
| dequeue: "kq_reachable B c q \<Longrightarrow> kq_dequeue B c now tenant timeout q = (y, q') \<Longrightarrow> kq_reachable B c q'"
| completed: "kq_reachable B c q \<Longrightarrow> tr_task_id r = i \<Longrightarrow> kq_complete B c i r q = (z, q') \<Longrightarrow> kq_reachable B c q'"
| failed: "kq_reachable B c q \<Longrightarrow> kq_fail B c now i code msg retry q = (z, q') \<Longrightarrow> kq_reachable B c q'"
| cancel: "kq_reachable B c q \<Longrightarrow> kq_cancel now i q = (done', q') \<Longrightarrow> kq_reachable B c q'"
| clear: "kq_reachable B c q \<Longrightarrow> kq_clear_expired now q = (n, q') \<Longrightarrow> kq_reachable B c q'"
| shutdown: "kq_reachable B c q \<Longrightarrow> kq_reachable B c (kq_shutdown B q)"

lemma kq_keyed_same: "kq_keyed q \<Longrightarrow> same_tasks q q' \<Longrightarrow> kq_keyed q'"
  by (simp add: kq_keyed_def same_tasks_def)

lemma kq_keyed_settle: "kq_keyed q \<Longrightarrow> tr_task_id r = i \<Longrightarrow> kq_keyed (kq_settle i r q)"
  by (auto simp: kq_keyed_def kq_settle_def)

lemma kq_keyed_track: "kq_keyed q \<Longrightarrow> kq_keyed (q\<lparr>kq_tasks := dset (tp_task_id t) t (kq_tasks q)\<rparr>)"
  by (auto simp: kq_keyed_def)

lemma tr_task_id_outcome [simp]: "tr_task_id (kq_outcome now i st code msg) = i"
  by (simp add: kq_outcome_def new_task_result_def)

lemma kq_keyed_expired: "kq_keyed q \<Longrightarrow> kq_keyed (kq_mark_expired now t q)"
  by (simp add: kq_mark_expired_def kq_keyed_settle)

lemma kq_scan_Cons_cases:
  "(\<exists>x. kq_scan B c now tenant (m # ms) q = (x, q)) \<or> kq_scan B c now tenant (m # ms) q = kq_scan B c now tenant ms q \<or>
   (\<exists>t x q'. kq_commit B (kq_mark_expired now t q) = (x, q') \<and>
      (kq_scan B c now tenant (m # ms) q = (Inr None, q') \<or> kq_scan B c now tenant (m # ms) q = kq_scan B c now tenant ms q')) \<or>
   (\<exists>t. kq_scan B c now tenant (m # ms) q = (Inr (Some t), q\<lparr>kq_tasks := dset (tp_task_id t) t (kq_tasks q)\<rparr>))"
proof -
  obtain topic part offset v where v: "m = ((topic, part), offset, v)" by (metis prod.collapse)
  show ?thesis
  proof (cases "\<exists>val. v = JDict val")
    case False
    then show ?thesis by (cases v) (simp_all add: v)
  next
  case True
  then obtain val where m: "m = ((topic, part), offset, JDict val)" using v by blast
  show ?thesis
  proof (cases "task_of_fields c val")
    case (Some t)
    show ?thesis
    proof (cases "kq_delayed now val")
      case Some': (Some late)
      show ?thesis
      proof (cases "late \<or> \<not> str_filter tenant (tp_tenant_id t)")
        case True
        then show ?thesis using Some Some' by (cases late) (simp_all add: m)
      next
        case False
        then have not_late: "kq_delayed now val = Some False" "str_filter tenant (tp_tenant_id t)" using Some' by simp_all
        show ?thesis
        proof (cases "task_is_expired now t")
          case True
          obtain x q' where c: "kq_commit B (kq_mark_expired now t q) = (x, q')" by fastforce
          then have "kq_scan B c now tenant (m # ms) q = (Inr None, q') \<or>
              kq_scan B c now tenant (m # ms) q = kq_scan B c now tenant ms q'"
            using Some not_late True by (cases x) (simp_all add: m)
          then show ?thesis using c by blast
        next
          case fresh: False
          let ?t = "with_offset topic part offset t"
          have "kq_scan B c now tenant (m # ms) q = (Inr (Some ?t), q\<lparr>kq_tasks := dset (tp_task_id ?t) ?t (kq_tasks q)\<rparr>)"
            using Some not_late fresh by (simp add: m with_offset_def Let_def)
          then show ?thesis by blast
        qed
      qed
    qed (simp add: m Some)
  qed (simp add: m)
  qed
qed

lemma kq_scan_keyed: "kq_keyed q \<Longrightarrow> kq_keyed (snd (kq_scan B c now tenant ms q))"
proof (induction ms arbitrary: q)
  case (Cons m ms)
  have "kq_keyed q'" if "kq_commit B (kq_mark_expired now t q) = (x, q')" for t x q'
    using kq_keyed_same [OF kq_keyed_expired [OF Cons.prems] kq_quiet(3) [OF that]] .
  then show ?case using kq_scan_Cons_cases [of B c now tenant m ms q] Cons kq_keyed_track [OF Cons.prems] by fastforce
qed simp

lemma kq_clear_loop_keyed: "kq_keyed q \<Longrightarrow> kq_keyed (snd (kq_clear_loop now ts n q))"
  by (induction now ts n q rule: kq_clear_loop.induct) (simp_all add: kq_keyed_expired)

lemma kq_dequeue_keyed:
  assumes "kq_keyed q" and run: "kq_dequeue B c now tenant timeout q = (x, q')"
  shows "kq_keyed q'"
proof (cases "kq_closed q")
  case False
  obtain y p where p: "kq_ensure_consumer B q = (y, p)" by fastforce
  have keyed: "kq_keyed (p\<lparr>kq_broker := b\<rparr>)" for b
    using kq_keyed_same [OF assms(1) kq_quiet(2) [OF p]] by (simp add: kq_keyed_def)
  obtain r b where b: "kf_getmany B (if 0 < timeout then \<lfloor>timeout * 1000\<rfloor> else 100) (kq_broker p) = (r, b)" by fastforce
  have "kq_keyed p" using kq_keyed_same [OF assms(1) kq_quiet(2) [OF p]] .
  then show ?thesis using run False p b keyed [of b] kq_scan_keyed [OF keyed [of b], of B c now tenant]
    by (cases y; cases r) (auto simp: kq_dequeue_def Let_def split: option.splits, metis snd_conv)
qed (use assms in \<open>simp add: kq_dequeue_def\<close>)

lemma kq_complete_keyed:
  assumes "kq_keyed q" and "tr_task_id r = i" and run: "kq_complete B c i r q = (z, q')"
  shows "kq_keyed q'"
proof -
  obtain x1 q1 where 1: "kq_ensure_consumer B q = (x1, q1)" by fastforce
  obtain x2 q2 where 2: "kq_commit B q1 = (x2, q2)" by fastforce
  let ?q2 = "q2\<lparr>kq_results := dset i r (kq_results q2)\<rparr>"
  obtain x3 q3 where 3: "kq_ensure_producer B ?q2 = (x3, q3)" by fastforce
  let ?v = "[(''task_id'', JStr (uuid_str i)), (''status'', JStr (task_status_value (tr_status r))),
             (''result'', tr_result r), (''processed_at'', JStr (cd_isoformat c (tr_processed_at r)))]"
  obtain x4 q4 where 4: "kq_send B c (kq_results_topic q3) ?v (uuid_str i) q3 = (x4, q4)" by fastforce
  have k: "kq_keyed q1" using kq_keyed_same [OF assms(1) kq_quiet(2) [OF 1]] .
  have k2: "kq_keyed q2" using kq_keyed_same [OF k kq_quiet(3) [OF 2]] .
  then have "kq_keyed ?q2" using assms(2) by (simp add: kq_keyed_def)
  then have k3: "kq_keyed q3" using kq_keyed_same kq_quiet(1) [OF 3] by blast
  have k4: "kq_keyed q4" using kq_keyed_same [OF k3 kq_quiet(4) [OF 4]] .
  show ?thesis
    using run k k2 k3 k4 kq_keyed_settle [OF k4 assms(2)] assms(1)
    by (cases x1; cases x2; cases x3; cases x4) (auto simp: kq_complete_def 1 2 3 4 split: if_splits)
qed

text \<open>In every state the queue can reach, whatever the broker answers, every tracked task and every result is
  under its own id, each id is tracked once, and the count of pending tasks is not negative.\<close>

theorem kafka_keyed: "kq_reachable B c q \<Longrightarrow> kq_keyed q"
proof (induction rule: kq_reachable.induct)
  case (init p g bd md b)
  then show ?case by (simp add: kq_keyed_def kq_init_def)
next
  case (enqueue q now t delay x q')
  then show ?case using kq_enqueue_cases [OF enqueue.hyps(2)] kq_keyed_same [OF enqueue.IH]
    by (auto simp: kq_keyed_def split: if_splits)
next
  case (failed q now i code msg retry z q')
  show ?case
  proof (cases "dget (kq_tasks q) i")
    case None
    then show ?thesis using failed by (auto simp: kq_fail_def)
  next
    case (Some t)
    then show ?thesis using kq_fail_cases [OF Some failed.hyps(2)] kq_keyed_same [OF failed.IH] failed.IH
      by (auto simp: kq_keyed_def split: if_splits)
  qed
next
  case (cancel q now i done' q')
  then show ?case by (auto simp: kq_cancel_def kq_keyed_settle split: if_splits)
next
  case (clear q now n q')
  then show ?case using kq_clear_loop_keyed [of q now "kq_tasks q" 0] by (simp add: kq_clear_expired_def)
next
  case (shutdown q)
  then show ?case by (auto simp: kq_shutdown_def kq_keyed_def Let_def)
qed (blast intro: kq_dequeue_keyed kq_complete_keyed)+

section \<open>A broker in memory\<close>

text \<open>Whether the broker is up, and the messages to deliver.\<close>

definition ex_kafka :: "(bool \<times> kafka_message list) kafka" where
  "ex_kafka =
     \<lparr>kf_start_producer = \<lambda>s. (True, s), kf_start_consumer = \<lambda>topics g s. (True, s),
      kf_send_and_wait = \<lambda>topic v key s. (fst s, s),
      kf_getmany = \<lambda>ms s. (Some (take 1 (snd s)), (fst s, drop 1 (snd s))),
      kf_commit = \<lambda>s. (True, s), kf_stop_producer = id, kf_stop_consumer = id\<rparr>"

definition ex_task :: task_payload where
  "ex_task = (new_task_payload 7 0)\<lparr>tp_tenant_id := ''acme''\<rparr>"

definition ex_kafka_queue :: "bool \<Rightarrow> kafka_message list \<Rightarrow> (bool \<times> kafka_message list) kafka_queue" where
  "ex_kafka_queue up ms = (kq_init ''lip'' ''g'' 1 60 (up, ms))\<lparr>kq_consumer := True\<rparr>"

text \<open>A broker that keeps what is sent, as the only message to deliver.\<close>

definition ex_kafka_topic :: "(string \<times> string) option kafka" where
  "ex_kafka_topic =
     \<lparr>kf_start_producer = \<lambda>s. (True, s), kf_start_consumer = \<lambda>topics g s. (True, s),
      kf_send_and_wait = \<lambda>topic v key s. (True, Some (topic, v)),
      kf_getmany = \<lambda>ms s. (Some (case s of None \<Rightarrow> [] | Some (topic, v) \<Rightarrow> [((topic, 0), 3, v)]), None),
      kf_commit = \<lambda>s. (True, s), kf_stop_producer = id, kf_stop_consumer = id\<rparr>"

theorem kafka_roundtrip_witness:
  "\<exists>p'. kq_enqueue ex_kafka_topic ex_codec 0 ex_task 0 (kq_init ''lip'' ''g'' 1 60 None) = (Inr ex_task, p') \<and>
     map_sum id (map_option tp_task_id) (fst (kq_dequeue ex_kafka_topic ex_codec 1000000 None 0 (p'\<lparr>kq_consumer := True\<rparr>))) =
       Inr (Some 7)"
proof -
  let ?p = "kq_init ''lip'' ''g'' 1 60 None :: (string \<times> string) option kafka_queue"
  obtain x p' where p': "kq_enqueue ex_kafka_topic ex_codec 0 ex_task 0 ?p = (x, p')" by fastforce
  then have x: "x = Inr ex_task" "kq_closed p' = False" "kq_broker p' \<noteq> None"
    by (auto simp: kq_enqueue_def kq_ensure_producer_def kq_send_def kq_init_def ex_kafka_topic_def)
  note f = kafka_roundtrip [OF ex_codec_ok p' [unfolded x(1)]]
  obtain topic where topic: "topic = kq_topic_name ?p (tp_priority ex_task)" by blast
  from f obtain body where send: "kf_send_and_wait ex_kafka_topic topic body
         (if tp_tenant_id ex_task = [] then None else Some (tp_tenant_id ex_task)) (kq_broker (snd (kq_ensure_producer ex_kafka_topic ?p))) =
         (True, kq_broker p')"
    and poll: "\<And>q tp offset b now' tenant timeout. \<not> kq_closed q \<Longrightarrow> kq_consumer q \<Longrightarrow>
          kf_getmany ex_kafka_topic (if 0 < timeout then \<lfloor>timeout * 1000\<rfloor> else 100) (kq_broker q) = (Some [(tp, offset, body)], b) \<Longrightarrow>
          kq_dequeue ex_kafka_topic ex_codec now' tenant timeout q =
            (let q = q\<lparr>kq_broker := b\<rparr>; t = with_offset (fst tp) (snd tp) offset ex_task in
             if kq_late now' 0 0 \<or> \<not> str_filter tenant (tp_tenant_id t) then (Inr None, q)
             else if task_is_expired now' t then (Inr None, snd (kq_commit ex_kafka_topic (kq_mark_expired now' t q)))
             else (Inr (Some t), q\<lparr>kq_tasks := dset (tp_task_id t) t (kq_tasks q)\<rparr>))"
    unfolding topic by blast
  have "kq_broker p' = Some (topic, body)" using send by (simp add: ex_kafka_topic_def)
  then have "kf_getmany ex_kafka_topic (if 0 < (0::rat) then \<lfloor>(0::rat) * 1000\<rfloor> else 100) (kq_broker (p'\<lparr>kq_consumer := True\<rparr>)) =
      (Some [((topic, 0), 3, body)], None)" by (simp add: ex_kafka_topic_def)
  from poll [OF _ _ this, of 1000000 None] x(2)
  have "fst (kq_dequeue ex_kafka_topic ex_codec 1000000 None 0 (p'\<lparr>kq_consumer := True\<rparr>)) =
      Inr (Some (with_offset topic 0 3 ex_task))"
    by (simp add: kq_late_def with_offset_def ex_task_def task_is_expired_def new_task_payload_def td_sec_def Let_def)
  then show ?thesis using p' x(1) by (simp add: with_offset_def ex_task_def new_task_payload_def)
qed

theorem kafka_failure_outcomes_witness:
  "\<exists>q'. kq_fail ex_kafka ex_codec 5 7 ''E'' ''m'' True ((ex_kafka_queue False [])\<lparr>kq_tasks := [(7, ex_task)]\<rparr>) =
     (Inl EnqueueFailure, q') \<and> kq_get_result 7 q' = None \<and> kq_get 7 q' = None"
proof -
  let ?q = "(ex_kafka_queue False [])\<lparr>kq_tasks := [(7, ex_task)]\<rparr>"
  have t: "dget (kq_tasks ?q) 7 = Some ex_task" "tp_task_id ex_task = 7" by (simp_all add: ex_task_def new_task_payload_def)
  have e: "fst (kq_fail ex_kafka ex_codec 5 7 ''E'' ''m'' True ?q) = Inl EnqueueFailure"
    and none: "kq_get 7 (snd (kq_fail ex_kafka ex_codec 5 7 ''E'' ''m'' True ?q)) = None"
    by (simp_all add: kq_fail_def kq_ensure_consumer_def kq_commit_def kq_enqueue_def kq_ensure_producer_def kq_send_def
        ex_kafka_queue_def kq_init_def ex_kafka_def task_can_retry_def ex_task_def new_task_payload_def Let_def kq_get_def)
  have run: "kq_fail ex_kafka ex_codec 5 7 ''E'' ''m'' True ?q =
      (Inl EnqueueFailure, snd (kq_fail ex_kafka ex_codec 5 7 ''E'' ''m'' True ?q))" using e by (simp add: prod_eq_iff)
  have "kq_get_result 7 (snd (kq_fail ex_kafka ex_codec 5 7 ''E'' ''m'' True ?q)) = kq_get_result 7 ?q"
    using kafka_failure_outcomes [OF t] run by blast
  then show ?thesis using run none by (intro exI) (auto simp: kq_get_result_def ex_kafka_queue_def kq_init_def)
qed

theorem kafka_keyed_witness:
  "kq_keyed (snd (kq_enqueue ex_kafka ex_codec 0 ex_task 0 (kq_init ''lip'' ''g'' 1 60 (True, []))))"
  by (rule kafka_keyed [of ex_kafka ex_codec], rule kq_reachable.enqueue [OF kq_reachable.init prod.collapse [symmetric]])

end
