(* ===== verification/Rabbit_Queue.thy ===== *)
theory Rabbit_Queue
  imports Task_Wire
begin

text \<open>
  \<open>src/queue/rabbitmq_queue.py\<close>: the queue over RabbitMQ. The connection, the channel and the messages of
  \<open>aio_pika\<close> are the record \<open>amqp\<close> over a state that is left open: every request is a value of \<open>amqp_request\<close>, and
  the answer says whether it went through or raised. A delivery is named by its tag. A method of the queue runs
  here without interruption.
\<close>

section \<open>The client and the state\<close>

record amqp_message =
  ms_body :: string
  ms_priority :: int
  ms_expiration :: int
  ms_message_id :: string
  ms_correlation_id :: "string option"
  ms_headers :: payload

datatype amqp_request =
    AmConnect string
  | AmChannel
  | AmQos int
  | AmDeclareExchange string
  | AmGetExchange string
  | AmDeclareQueue string payload
  | AmBind string string string
  | AmPublish string amqp_message string
  | AmAck nat
  | AmReject nat bool
  | AmCloseChannel
  | AmCloseConnection

datatype amqp_delivery = Delivery nat string | NoDelivery | DeliveryTimeout | DeliveryError

record 's amqp =
  am_request :: "amqp_request \<Rightarrow> 's \<Rightarrow> bool \<times> 's"
  am_get :: "string \<Rightarrow> rat \<Rightarrow> 's \<Rightarrow> amqp_delivery \<times> 's"
  am_connection_closed :: "'s \<Rightarrow> bool"
  am_channel_closed :: "'s \<Rightarrow> bool"
  am_declared_count :: "string \<Rightarrow> 's \<Rightarrow> int"

record 's rabbit_queue =
  rb_url :: string
  rb_prefix :: string
  rb_retry_base_delay :: rat
  rb_retry_max_delay :: rat
  rb_prefetch_count :: int
  rb_message_ttl_ms :: int
  rb_connection :: bool
  rb_channel :: bool
  rb_queues :: "task_priority list"
  rb_closed :: bool
  rb_tasks :: "(uuid, task_payload) pydict"
  rb_results :: "(uuid, task_result) pydict"
  rb_pending_messages :: "(uuid, nat) pydict"
  rb_broker :: 's

datatype rabbit_failure = AmqpFailure | RabbitClosed string

definition rb_init :: "string \<Rightarrow> string \<Rightarrow> rat \<Rightarrow> rat \<Rightarrow> int \<Rightarrow> int \<Rightarrow> 's \<Rightarrow> 's rabbit_queue" where
  "rb_init url queue_prefix base_delay max_delay prefetch ttl_ms broker =
     \<lparr>rb_url = url, rb_prefix = queue_prefix, rb_retry_base_delay = base_delay, rb_retry_max_delay = max_delay,
      rb_prefetch_count = prefetch, rb_message_ttl_ms = ttl_ms, rb_connection = False, rb_channel = False,
      rb_queues = [], rb_closed = False, rb_tasks = [], rb_results = [], rb_pending_messages = [], rb_broker = broker\<rparr>"

definition rb_queue_name :: "'s rabbit_queue \<Rightarrow> task_priority \<Rightarrow> string" where
  "rb_queue_name q p = rb_prefix q @ ''.tasks.'' @ prio_name_lower p"

definition rb_exchange_name :: "'s rabbit_queue \<Rightarrow> string" where
  "rb_exchange_name q = rb_prefix q @ ''.tasks''"

definition rb_dlx_name :: "'s rabbit_queue \<Rightarrow> string" where
  "rb_dlx_name q = rb_prefix q @ ''.dlx''"

definition rb_delay_exchange_name :: "'s rabbit_queue \<Rightarrow> string" where
  "rb_delay_exchange_name q = rb_prefix q @ ''.delay''"

section \<open>Connecting\<close>

definition rb_request :: "'s amqp \<Rightarrow> amqp_request \<Rightarrow> 's rabbit_queue \<Rightarrow> (rabbit_failure + unit) \<times> 's rabbit_queue" where
  "rb_request C x q =
     (let (ok, b) = am_request C x (rb_broker q) in (if ok then Inr () else Inl AmqpFailure, q\<lparr>rb_broker := b\<rparr>))"

fun rb_requests :: "'s amqp \<Rightarrow> amqp_request list \<Rightarrow> 's rabbit_queue \<Rightarrow> (rabbit_failure + unit) \<times> 's rabbit_queue" where
  "rb_requests C [] q = (Inr (), q)"
| "rb_requests C (x # xs) q = andthen (rb_request C x q) (\<lambda>_ q. rb_requests C xs q)"

fun rb_declare_queues ::
  "'s amqp \<Rightarrow> task_priority list \<Rightarrow> 's rabbit_queue \<Rightarrow> (rabbit_failure + unit) \<times> 's rabbit_queue" where
  "rb_declare_queues C [] q = (Inr (), q)"
| "rb_declare_queues C (p # ps) q =
     andthen (rb_requests C
       [AmDeclareQueue (rb_queue_name q p)
          [(''x-dead-letter-exchange'', JStr (rb_dlx_name q)),
           (''x-dead-letter-routing-key'', JStr ''dead''),
           (''x-message-ttl'', JInt (rb_message_ttl_ms q)),
           (''x-max-priority'', JInt 10)],
        AmBind (rb_queue_name q p) (rb_exchange_name q) (prio_name_lower p)] q)
     (\<lambda>_ q. rb_declare_queues C ps (q\<lparr>rb_queues := List.insert p (rb_queues q)\<rparr>))"

definition rb_open_channel :: "'s amqp \<Rightarrow> 's rabbit_queue \<Rightarrow> (rabbit_failure + unit) \<times> 's rabbit_queue" where
  "rb_open_channel C q =
     andthen (rb_request C AmChannel q) (\<lambda>_ q.
     andthen (rb_requests C
       [AmQos (rb_prefetch_count q), AmDeclareExchange (rb_exchange_name q), AmDeclareExchange (rb_dlx_name q),
        AmDeclareExchange (rb_delay_exchange_name q), AmDeclareQueue (rb_prefix q @ ''.dlq'') [],
        AmBind (rb_prefix q @ ''.dlq'') (rb_dlx_name q) ''dead''] (q\<lparr>rb_channel := True\<rparr>)) (\<lambda>_ q.
     rb_declare_queues C all_priorities q))"

definition rb_ensure_connected :: "'s amqp \<Rightarrow> 's rabbit_queue \<Rightarrow> (rabbit_failure + unit) \<times> 's rabbit_queue" where
  "rb_ensure_connected C q =
     andthen (if \<not> rb_connection q \<or> am_connection_closed C (rb_broker q)
              then andthen (rb_request C (AmConnect (rb_url q)) q) (\<lambda>_ q. (Inr (), q\<lparr>rb_connection := True\<rparr>))
              else (Inr (), q)) (\<lambda>_ q.
     if \<not> rb_channel q \<or> am_channel_closed C (rb_broker q) then rb_open_channel C q else (Inr (), q))"

section \<open>Operations\<close>

definition rb_serialize :: "codec \<Rightarrow> task_payload \<Rightarrow> string" where
  "rb_serialize c t = cd_dumps c (JDict (task_fields c t))"

definition rb_deserialize :: "codec \<Rightarrow> string \<Rightarrow> task_payload option" where
  "rb_deserialize c body = (case cd_loads c body of Some (JDict d) \<Rightarrow> task_of_fields c d | _ \<Rightarrow> None)"

definition rb_message :: "codec \<Rightarrow> task_payload \<Rightarrow> amqp_message" where
  "rb_message c t =
     \<lparr>ms_body = rb_serialize c t, ms_priority = 10 - task_priority_value (tp_priority t) * 2,
      ms_expiration = tp_ttl_seconds t * 1000, ms_message_id = uuid_str (tp_task_id t),
      ms_correlation_id = map_option uuid_str (tp_correlation_id t),
      ms_headers = [(''tenant_id'', JStr (tp_tenant_id t)), (''retry_count'', JInt (tp_retry_count t))]\<rparr>"

text \<open>\<open>int(x)\<close> of a float.\<close>

definition py_trunc :: "rat \<Rightarrow> int" where
  "py_trunc x = (if 0 \<le> x then \<lfloor>x\<rfloor> else \<lceil>x\<rceil>)"

definition rb_publish ::
  "'s amqp \<Rightarrow> codec \<Rightarrow> task_payload \<Rightarrow> rat \<Rightarrow> 's rabbit_queue \<Rightarrow> (rabbit_failure + unit) \<times> 's rabbit_queue" where
  "rb_publish C c t delay q =
     (if 0 < delay then
        let ms = py_trunc (delay * 1000);
            name = rb_prefix q @ ''.delay.'' @ int_str ms
        in rb_requests C
            [AmDeclareQueue name
               [(''x-dead-letter-exchange'', JStr (rb_exchange_name q)),
                (''x-dead-letter-routing-key'', JStr (prio_name_lower (tp_priority t))),
                (''x-message-ttl'', JInt ms), (''x-expires'', JInt (ms + 60000))],
             AmGetExchange (rb_delay_exchange_name q),
             AmBind name (rb_delay_exchange_name q) name,
             AmPublish (rb_delay_exchange_name q) (rb_message c t) name] q
      else rb_request C (AmPublish (rb_exchange_name q) (rb_message c t) (prio_name_lower (tp_priority t))) q)"

definition rb_enqueue ::
  "'s amqp \<Rightarrow> codec \<Rightarrow> task_payload \<Rightarrow> rat \<Rightarrow> 's rabbit_queue \<Rightarrow> (rabbit_failure + task_payload) \<times> 's rabbit_queue" where
  "rb_enqueue C c t delay q =
     (if rb_closed q then (Inl (RabbitClosed ''Queue is shutdown''), q)
      else andthen (rb_ensure_connected C q) (\<lambda>_ q.
        andthen (rb_request C (AmGetExchange (rb_exchange_name q)) q) (\<lambda>_ q.
        andthen (rb_publish C c t delay q) (\<lambda>_ q.
        (Inr t, q\<lparr>rb_tasks := dset (tp_task_id t) t (rb_tasks q)\<rparr>)))))"

definition rb_outcome :: "datetime \<Rightarrow> uuid \<Rightarrow> task_status \<Rightarrow> string \<Rightarrow> string \<Rightarrow> task_result" where
  "rb_outcome now i st code msg =
     (new_task_result i st now)\<lparr>tr_error_code := Some code, tr_error_message := Some msg\<rparr>"

text \<open>One turn of the loop over the priorities: \<open>Some t\<close> is returned, None goes on.\<close>

definition rb_try ::
  "'s amqp \<Rightarrow> codec \<Rightarrow> datetime \<Rightarrow> string option \<Rightarrow> rat \<Rightarrow> task_priority \<Rightarrow> 's rabbit_queue \<Rightarrow>
     task_payload option \<times> 's rabbit_queue" where
  "rb_try C c now tenant timeout p q =
     (let (d, b) = am_get C (rb_queue_name q p) (if 0 < timeout then timeout else 1 / 10) (rb_broker q);
          q = q\<lparr>rb_broker := b\<rparr>
      in case d of
        Delivery tag body \<Rightarrow>
          (case rb_deserialize c body of
             None \<Rightarrow> (None, q)
           | Some t \<Rightarrow>
               if \<not> str_filter tenant (tp_tenant_id t) then (None, snd (rb_request C (AmReject tag True) q))
               else if task_is_expired now t then
                 (case rb_request C (AmReject tag False) q of
                    (Inl _, q) \<Rightarrow> (None, q)
                  | (Inr _, q) \<Rightarrow> (None, q\<lparr>rb_results := dset (tp_task_id t)
                      (rb_outcome now (tp_task_id t) TASK_EXPIRED ''TASK_EXPIRED'' ''Task exceeded TTL'') (rb_results q)\<rparr>))
               else (Some t, q\<lparr>rb_pending_messages := dset (tp_task_id t) tag (rb_pending_messages q),
                     rb_tasks := dset (tp_task_id t) t (rb_tasks q)\<rparr>))
      | NoDelivery \<Rightarrow> (None, q)
      | DeliveryTimeout \<Rightarrow> (None, q)
      | DeliveryError \<Rightarrow> (None, q))"

fun rb_scan ::
  "'s amqp \<Rightarrow> codec \<Rightarrow> datetime \<Rightarrow> string option \<Rightarrow> rat \<Rightarrow> task_priority list \<Rightarrow> 's rabbit_queue \<Rightarrow>
     task_payload option \<times> 's rabbit_queue" where
  "rb_scan C c now tenant timeout [] q = (None, q)"
| "rb_scan C c now tenant timeout (p # ps) q =
     (if p \<notin> set (rb_queues q) then rb_scan C c now tenant timeout ps q
      else case rb_try C c now tenant timeout p q of
        (Some t, q) \<Rightarrow> (Some t, q)
      | (None, q) \<Rightarrow> rb_scan C c now tenant timeout ps q)"

definition rb_dequeue ::
  "'s amqp \<Rightarrow> codec \<Rightarrow> datetime \<Rightarrow> string option \<Rightarrow> rat \<Rightarrow> 's rabbit_queue \<Rightarrow>
     (rabbit_failure + task_payload option) \<times> 's rabbit_queue" where
  "rb_dequeue C c now tenant timeout q =
     (if rb_closed q then (Inr None, q)
      else andthen (rb_ensure_connected C q) (\<lambda>_ q.
        let (t, q) = rb_scan C c now tenant timeout all_priorities q in (Inr t, q)))"

definition rb_complete ::
  "'s amqp \<Rightarrow> uuid \<Rightarrow> task_result \<Rightarrow> 's rabbit_queue \<Rightarrow> (rabbit_failure + bool) \<times> 's rabbit_queue" where
  "rb_complete C i r q =
     (case dget (rb_pending_messages q) i of
        None \<Rightarrow> (Inr False, q)
      | Some tag \<Rightarrow>
          andthen (rb_request C (AmAck tag) (q\<lparr>rb_pending_messages := dpop i (rb_pending_messages q)\<rparr>)) (\<lambda>_ q.
          (Inr True, q\<lparr>rb_results := dset i r (rb_results q), rb_tasks := dpop i (rb_tasks q)\<rparr>)))"

definition rb_fail ::
  "'s amqp \<Rightarrow> codec \<Rightarrow> datetime \<Rightarrow> uuid \<Rightarrow> string \<Rightarrow> string \<Rightarrow> bool \<Rightarrow> 's rabbit_queue \<Rightarrow>
     (rabbit_failure + bool) \<times> 's rabbit_queue" where
  "rb_fail C c now i code msg retry q =
     (let message = dget (rb_pending_messages q) i;
          q = q\<lparr>rb_pending_messages := dpop i (rb_pending_messages q)\<rparr>
      in case (message, dget (rb_tasks q) i) of
        (Some tag, Some t) \<Rightarrow>
          andthen (rb_request C (AmAck tag) q) (\<lambda>_ q.
            if retry \<and> task_can_retry t then
              let t = t\<lparr>tp_retry_count := tp_retry_count t + 1\<rparr>;
                  delay = backoff (rb_retry_base_delay q) (rb_retry_max_delay q) (tp_retry_count t)
              in andthen (rb_enqueue C c t delay (q\<lparr>rb_tasks := dpop i (rb_tasks q)\<rparr>)) (\<lambda>_ q. (Inr True, q))
            else
              (Inr True, q\<lparr>rb_results := dset i ((rb_outcome now i TASK_FAILED code msg)\<lparr>tr_retry_count := tp_retry_count t\<rparr>)
                  (rb_results q), rb_tasks := dpop i (rb_tasks q)\<rparr>))
      | _ \<Rightarrow> (Inr False, q))"

definition rb_get :: "uuid \<Rightarrow> 's rabbit_queue \<Rightarrow> task_payload option" where
  "rb_get i q = dget (rb_tasks q) i"

definition rb_get_result :: "uuid \<Rightarrow> 's rabbit_queue \<Rightarrow> task_result option" where
  "rb_get_result i q = dget (rb_results q) i"

definition rb_cancel :: "'s amqp \<Rightarrow> datetime \<Rightarrow> uuid \<Rightarrow> 's rabbit_queue \<Rightarrow> (rabbit_failure + bool) \<times> 's rabbit_queue" where
  "rb_cancel C now i q =
     (let message = dget (rb_pending_messages q) i;
          q = q\<lparr>rb_pending_messages := dpop i (rb_pending_messages q), rb_tasks := dpop i (rb_tasks q)\<rparr>
      in case message of
        None \<Rightarrow> (Inr False, q)
      | Some tag \<Rightarrow>
          andthen (rb_request C (AmReject tag False) q) (\<lambda>_ q.
          (Inr True, q\<lparr>rb_results := dset i (rb_outcome now i TASK_CANCELLED ''TASK_CANCELLED'' ''Task cancelled by user'')
              (rb_results q)\<rparr>)))"

definition rb_size :: "'s amqp \<Rightarrow> string option \<Rightarrow> 's rabbit_queue \<Rightarrow> int" where
  "rb_size C tenant q =
     (if str_true tenant then int (length (filter (\<lambda>t. Some (tp_tenant_id t) = tenant) (dvalues (rb_tasks q))))
      else sum_list (map (\<lambda>p. am_declared_count C (rb_queue_name q p) (rb_broker q)) (rb_queues q)))"

definition rb_pending_by_agent :: "uuid \<Rightarrow> 's rabbit_queue \<Rightarrow> int" where
  "rb_pending_by_agent a q = int (length (filter (\<lambda>t. tp_target_agent_id t = Some a) (dvalues (rb_tasks q))))"

fun rb_clear_loop ::
  "'s amqp \<Rightarrow> datetime \<Rightarrow> (uuid, task_payload) pydict \<Rightarrow> int \<Rightarrow> 's rabbit_queue \<Rightarrow> (rabbit_failure + int) \<times> 's rabbit_queue" where
  "rb_clear_loop C now [] n q = (Inr n, q)"
| "rb_clear_loop C now ((i, t) # ts) n q =
     (if \<not> task_is_expired now t then rb_clear_loop C now ts n q
      else
        let message = dget (rb_pending_messages q) i;
            q = q\<lparr>rb_pending_messages := dpop i (rb_pending_messages q)\<rparr>
        in andthen (case message of None \<Rightarrow> (Inr (), q) | Some tag \<Rightarrow> rb_request C (AmReject tag False) q) (\<lambda>_ q.
           rb_clear_loop C now ts (n + 1)
             (q\<lparr>rb_tasks := dpop i (rb_tasks q), rb_results := dset i
                (rb_outcome now i TASK_EXPIRED ''TASK_EXPIRED'' ''Task exceeded TTL'') (rb_results q)\<rparr>)))"

definition rb_clear_expired :: "'s amqp \<Rightarrow> datetime \<Rightarrow> 's rabbit_queue \<Rightarrow> (rabbit_failure + int) \<times> 's rabbit_queue" where
  "rb_clear_expired C now q = rb_clear_loop C now (rb_tasks q) 0 q"

fun rb_requeue_all :: "'s amqp \<Rightarrow> nat list \<Rightarrow> 's rabbit_queue \<Rightarrow> 's rabbit_queue" where
  "rb_requeue_all C [] q = q"
| "rb_requeue_all C (tag # tags) q = rb_requeue_all C tags (snd (rb_request C (AmReject tag True) q))"

definition rb_shutdown :: "'s amqp \<Rightarrow> 's rabbit_queue \<Rightarrow> (rabbit_failure + unit) \<times> 's rabbit_queue" where
  "rb_shutdown C q =
     (let q = rb_requeue_all C (dvalues (rb_pending_messages q)) (q\<lparr>rb_closed := True\<rparr>);
          q = q\<lparr>rb_pending_messages := []\<rparr>
      in andthen (if rb_channel q \<and> \<not> am_channel_closed C (rb_broker q)
                  then andthen (rb_request C AmCloseChannel q) (\<lambda>_ q. (Inr (), q\<lparr>rb_channel := False\<rparr>))
                  else (Inr (), q)) (\<lambda>_ q.
         if rb_connection q \<and> \<not> am_connection_closed C (rb_broker q)
         then andthen (rb_request C AmCloseConnection q) (\<lambda>_ q. (Inr (), q\<lparr>rb_connection := False\<rparr>))
         else (Inr (), q)))"

end
