(* ===== verification/Rabbit_Props.thy ===== *)
theory Rabbit_Props
  imports Rabbit_Queue
begin

text \<open>
  What \<open>src/queue/rabbitmq_queue.py\<close> guarantees whatever the broker does: a claimed task is tracked, it is
  settled once, and a call hands out the task of the most urgent queue that delivers.
\<close>

section \<open>Requests leave the records alone\<close>

definition rb_same :: "'s rabbit_queue \<Rightarrow> 's rabbit_queue \<Rightarrow> bool" where
  "rb_same q q' =
     (rb_tasks q' = rb_tasks q \<and> rb_results q' = rb_results q \<and> rb_pending_messages q' = rb_pending_messages q \<and>
      rb_closed q' = rb_closed q)"

lemma rb_same_refl [simp]: "rb_same q q"
  by (simp add: rb_same_def)

lemma rb_same_trans: "rb_same q q' \<Longrightarrow> rb_same q' q'' \<Longrightarrow> rb_same q q''"
  by (simp add: rb_same_def)

lemma rb_same_andthen:
  "rb_same q (snd r) \<Longrightarrow> (\<And>a p. r = (Inr a, p) \<Longrightarrow> rb_same p (snd (f a p))) \<Longrightarrow> rb_same q (snd (andthen r f))"
  by (cases r; cases "fst r") (auto intro: rb_same_trans)

lemma rb_request_same [simp]: "rb_same q (snd (rb_request C x q))"
  by (simp add: rb_request_def rb_same_def case_prod_beta)

lemma rb_requests_same [simp]: "rb_same q (snd (rb_requests C xs q))"
proof (induction xs arbitrary: q)
  case (Cons x xs)
  show ?case unfolding rb_requests.simps by (rule rb_same_andthen) (simp_all add: Cons)
qed simp

lemma rb_declare_queues_same [simp]: "rb_same q (snd (rb_declare_queues C ps q))"
proof (induction ps arbitrary: q)
  case (Cons p ps)
  have "rb_same r (r\<lparr>rb_queues := List.insert p (rb_queues r)\<rparr>)" for r :: "'a rabbit_queue"
    by (simp add: rb_same_def)
  then show ?case unfolding rb_declare_queues.simps
    by (intro rb_same_andthen rb_requests_same) (rule rb_same_trans, assumption, rule Cons)
qed simp

lemma rb_ensure_same [simp]: "rb_same q (snd (rb_ensure_connected C q))"
proof -
  have open_same: "rb_same r (snd (rb_open_channel C r))" for r
  proof -
    have "rb_same p (snd (andthen (rb_requests C xs (p\<lparr>rb_channel := True\<rparr>)) (\<lambda>_ q. rb_declare_queues C all_priorities q)))" for p xs
    proof (rule rb_same_andthen)
      have "rb_same p (p\<lparr>rb_channel := True\<rparr>)" by (simp add: rb_same_def)
      then show "rb_same p (snd (rb_requests C xs (p\<lparr>rb_channel := True\<rparr>)))"
        by (rule rb_same_trans) simp
    qed simp
    then show ?thesis unfolding rb_open_channel_def by (rule rb_same_andthen [OF rb_request_same])
  qed
  have conn_same: "rb_same r (snd (andthen (rb_request C x r) (\<lambda>_ q. (Inr (), q\<lparr>rb_connection := True\<rparr>))))" for r x
    by (rule rb_same_andthen [OF rb_request_same]) (simp add: rb_same_def)
  show ?thesis unfolding rb_ensure_connected_def
    by (rule rb_same_andthen) (simp_all add: conn_same open_same)
qed

lemma rb_publish_same [simp]: "rb_same q (snd (rb_publish C c t delay q))"
  unfolding rb_publish_def Let_def by (cases "0 < delay") (simp_all only: if_True if_False rb_requests_same rb_request_same)

lemma rb_enqueue_cases:
  assumes "rb_enqueue C c t delay q = (x, q')"
  shows "(\<exists>e. x = Inl e \<and> rb_same q q') \<or>
    (x = Inr t \<and> rb_tasks q' = dset (tp_task_id t) t (rb_tasks q) \<and> rb_results q' = rb_results q \<and>
       rb_pending_messages q' = rb_pending_messages q)"
proof (cases "rb_closed q")
  case False
  obtain x1 q1 where 1: "rb_ensure_connected C q = (x1, q1)" by fastforce
  obtain x2 q2 where 2: "rb_request C (AmGetExchange (rb_exchange_name q1)) q1 = (x2, q2)" by fastforce
  obtain x3 q3 where 3: "rb_publish C c t delay q2 = (x3, q3)" by fastforce
  have "rb_same q q1" "rb_same q1 q2" "rb_same q2 q3"
    using rb_ensure_same [of q C] rb_request_same [of q1 C "AmGetExchange (rb_exchange_name q1)"]
      rb_publish_same [of q2 C c t delay] by (simp_all add: 1 2 3)
  then show ?thesis using assms False 1 2 3
    by (cases x1; cases x2; cases x3) (auto simp: rb_enqueue_def rb_same_def)
qed (use assms in \<open>auto simp: rb_enqueue_def\<close>)

section \<open>Settling\<close>

datatype rabbit_settle =
    CompleteR uuid task_result
  | FailR datetime uuid string string bool
  | CancelR datetime uuid

fun rb_settle ::
  "'s amqp \<Rightarrow> codec \<Rightarrow> rabbit_settle \<Rightarrow> 's rabbit_queue \<Rightarrow> (rabbit_failure + bool) \<times> 's rabbit_queue" where
  "rb_settle C c (CompleteR i r) q = rb_complete C i r q"
| "rb_settle C c (FailR now i code msg retry) q = rb_fail C c now i code msg retry q"
| "rb_settle C c (CancelR now i) q = rb_cancel C now i q"

fun settled_id :: "rabbit_settle \<Rightarrow> uuid" where
  "settled_id (CompleteR i r) = i"
| "settled_id (FailR now i code msg retry) = i"
| "settled_id (CancelR now i) = i"

lemma rb_complete_cases:
  assumes "rb_complete C i r q = (x, q')"
  shows "rb_pending_messages q' = dpop i (rb_pending_messages q) \<and>
    ((rb_tasks q' = rb_tasks q \<and> rb_results q' = rb_results q) \<or>
     (x = Inr True \<and> dget (rb_pending_messages q) i \<noteq> None \<and> rb_tasks q' = dpop i (rb_tasks q) \<and>
        rb_results q' = dset i r (rb_results q)))"
proof (cases "dget (rb_pending_messages q) i")
  case None
  then show ?thesis using assms dpop_absent [OF None] by (auto simp: rb_complete_def)
next
  case (Some tag)
  let ?q = "q\<lparr>rb_pending_messages := dpop i (rb_pending_messages q)\<rparr>"
  obtain y p where p: "rb_request C (AmAck tag) ?q = (y, p)" by fastforce
  have "rb_same ?q p" using rb_request_same [of ?q C "AmAck tag"] by (simp add: p)
  then show ?thesis using assms Some p by (cases y) (auto simp: rb_complete_def rb_same_def)
qed

lemma rb_fail_cases:
  assumes run: "rb_fail C c now i code msg retry q = (x, q')"
  shows "rb_pending_messages q' = dpop i (rb_pending_messages q) \<and>
    ((rb_tasks q' = rb_tasks q \<and> rb_results q' = rb_results q) \<or>
     (rb_tasks q' = dpop i (rb_tasks q) \<and> (rb_results q' = rb_results q \<or>
        (\<exists>t. dget (rb_tasks q) i = Some t \<and> rb_results q' =
           dset i ((rb_outcome now i TASK_FAILED code msg)\<lparr>tr_retry_count := tp_retry_count t\<rparr>) (rb_results q)))) \<or>
     (\<exists>t. dget (rb_tasks q) i = Some t \<and> task_can_retry t \<and> rb_results q' = rb_results q \<and>
        rb_tasks q' = dset (tp_task_id t) (t\<lparr>tp_retry_count := tp_retry_count t + 1\<rparr>) (dpop i (rb_tasks q))))"
proof (cases "\<exists>tag t. dget (rb_pending_messages q) i = Some tag \<and> dget (rb_tasks q) i = Some t")
  case False
  then have "rb_fail C c now i code msg retry q = (Inr False, q\<lparr>rb_pending_messages := dpop i (rb_pending_messages q)\<rparr>)"
    by (auto simp: rb_fail_def Let_def split: option.split)
  then show ?thesis using run by auto
next
  case True
  then obtain tag t where t: "dget (rb_pending_messages q) i = Some tag" "dget (rb_tasks q) i = Some t" by blast
  let ?q = "q\<lparr>rb_pending_messages := dpop i (rb_pending_messages q)\<rparr>"
  obtain y p where p: "rb_request C (AmAck tag) ?q = (y, p)" by fastforce
  have same: "rb_same ?q p" using rb_request_same [of ?q C "AmAck tag"] by (simp add: p)
  show ?thesis
  proof (cases y)
    case (Inl e)
    then show ?thesis using run t p same by (auto simp: rb_fail_def Let_def rb_same_def)
  next
    case y: (Inr u)
    show ?thesis
    proof (cases "retry \<and> task_can_retry t")
      case False
      then have "rb_fail C c now i code msg retry q = (Inr True,
          p\<lparr>rb_results := dset i ((rb_outcome now i TASK_FAILED code msg)\<lparr>tr_retry_count := tp_retry_count t\<rparr>) (rb_results p),
            rb_tasks := dpop i (rb_tasks p)\<rparr>)"
        using t p y by (auto simp: rb_fail_def Let_def)
      then show ?thesis using run same t(2) by (auto simp: rb_same_def)
    next
      case True
      let ?t = "t\<lparr>tp_retry_count := tp_retry_count t + 1\<rparr>" and ?p = "p\<lparr>rb_tasks := dpop i (rb_tasks p)\<rparr>"
      let ?d = "backoff (rb_retry_base_delay p) (rb_retry_max_delay p) (tp_retry_count t + 1)"
      obtain z r where r: "rb_enqueue C c ?t ?d ?p = (z, r)" by fastforce
      have "rb_fail C c now i code msg retry q = andthen (z, r) (\<lambda>_ q. (Inr True, q))"
        using t p y True r by (simp add: rb_fail_def Let_def)
      then show ?thesis using rb_enqueue_cases [OF r] run same t(2) True
        by (cases z) (auto simp: rb_same_def)
    qed
  qed
qed

lemma rb_cancel_cases:
  assumes "rb_cancel C now i q = (x, q')"
  shows "rb_pending_messages q' = dpop i (rb_pending_messages q) \<and> rb_tasks q' = dpop i (rb_tasks q) \<and>
    (rb_results q' = rb_results q \<or> (x = Inr True \<and> rb_results q' =
       dset i (rb_outcome now i TASK_CANCELLED ''TASK_CANCELLED'' ''Task cancelled by user'') (rb_results q)))"
proof (cases "dget (rb_pending_messages q) i")
  case None
  then show ?thesis using assms by (auto simp: rb_cancel_def Let_def)
next
  case (Some tag)
  let ?q = "q\<lparr>rb_pending_messages := dpop i (rb_pending_messages q), rb_tasks := dpop i (rb_tasks q)\<rparr>"
  obtain y p where p: "rb_request C (AmReject tag False) ?q = (y, p)" by fastforce
  have "rb_same ?q p" using rb_request_same [of ?q C "AmReject tag False"] by (simp add: p)
  then show ?thesis using assms Some p by (cases y) (auto simp: rb_cancel_def Let_def rb_same_def)
qed

text \<open>What a settlement asks of the broker, and the further one when nothing is pending.\<close>

fun settle_request :: "rabbit_settle \<Rightarrow> nat \<Rightarrow> amqp_request" where
  "settle_request (CancelR now i) tag = AmReject tag False"
| "settle_request p tag = AmAck tag"

fun is_cancel :: "rabbit_settle \<Rightarrow> bool" where
  "is_cancel (CancelR now i) = True"
| "is_cancel p = False"

lemma rb_settle_none:
  assumes "dget (rb_pending_messages q) (settled_id p) = None"
  shows "rb_settle C c p q =
    (Inr False, if is_cancel p then q\<lparr>rb_tasks := dpop (settled_id p) (rb_tasks q)\<rparr> else q)"
  using assms by (cases p) (simp_all add: rb_complete_def rb_fail_def rb_cancel_def dpop_absent Let_def)

lemma rb_settle_pending:
  "rb_pending_messages (snd (rb_settle C c p q)) = dpop (settled_id p) (rb_pending_messages q)"
proof (cases p)
  case (CompleteR i r)
  then show ?thesis using rb_complete_cases [of C i r q, OF prod.collapse [symmetric]] by simp
next
  case (FailR now i code msg retry)
  then show ?thesis using rb_fail_cases [of C c now i code msg retry q, OF prod.collapse [symmetric]] by simp
next
  case (CancelR now i)
  then show ?thesis using rb_cancel_cases [of C now i q, OF prod.collapse [symmetric]] by simp
qed

text \<open>A settlement of a pending delivery whose request the broker refuses, and one it grants.\<close>

lemma rb_settle_request:
  assumes "rb_settle C c p q = (x, q')" and "dget (rb_pending_messages q) (settled_id p) = Some tag"
    and "dget (rb_tasks q) (settled_id p) = Some t" and "am_request C (settle_request p tag) (rb_broker q) = (ok, b)"
  shows "(\<not> ok \<longrightarrow> x = Inl AmqpFailure \<and> rb_broker q' = b \<and> rb_results q' = rb_results q) \<and> (ok \<longrightarrow> x \<noteq> Inr False)"
proof (cases p)
  case (CompleteR i r)
  then show ?thesis using assms by (auto simp: rb_complete_def rb_request_def)
next
  case (FailR now i code msg retry)
  then show ?thesis using assms by (auto simp: rb_fail_def rb_request_def andthen_def Let_def split: if_splits prod.splits sum.splits)
next
  case (CancelR now i)
  then show ?thesis using assms by (auto simp: rb_cancel_def rb_request_def Let_def)
qed

lemma rb_settles_pending:
  "dget (rb_pending_messages q) i = None \<Longrightarrow> dget (rb_pending_messages (fold (\<lambda>p q. snd (rb_settle C c p q)) ps q)) i = None"
  by (induction ps arbitrary: q) (simp_all add: rb_settle_pending)

text \<open>C22: a delivery is settled once. A \<open>complete\<close>, \<open>fail\<close> or \<open>cancel\<close> of a tracked task with a pending delivery
  asks the broker to acknowledge or reject exactly that delivery; when the broker refuses, the call raises and no result is
  changed, otherwise it does not answer False. Either way, after any further settlements of any tasks, another one of this
  task answers False and leaves the whole queue, the broker and every result included, as it is, with one exception: a
  \<open>cancel\<close> still drops the record of a task that is tracked, as one that waits for its retry is.\<close>

theorem rabbit_settled_once:
  assumes "rb_settle C c p q = (x, q')" and "settled_id p = i" and "settled_id p' = i"
    and "dget (rb_pending_messages q) i = Some tag" and "dget (rb_tasks q) i = Some t"
    and "q'' = fold (\<lambda>p q. snd (rb_settle C c p q)) ps q'"
  shows "(case am_request C (settle_request p tag) (rb_broker q) of
      (False, b) \<Rightarrow> x = Inl AmqpFailure \<and> rb_broker q' = b \<and> rb_results q' = rb_results q
    | (True, b) \<Rightarrow> x \<noteq> Inr False) \<and>
    rb_settle C c p' q'' = (Inr False, if is_cancel p' then q''\<lparr>rb_tasks := dpop i (rb_tasks q'')\<rparr> else q'')"
proof
  obtain ok b where b: "am_request C (settle_request p tag) (rb_broker q) = (ok, b)" by fastforce
  show "case am_request C (settle_request p tag) (rb_broker q) of
      (False, b) \<Rightarrow> x = Inl AmqpFailure \<and> rb_broker q' = b \<and> rb_results q' = rb_results q
    | (True, b) \<Rightarrow> x \<noteq> Inr False"
    using rb_settle_request [OF assms(1) _ _ b, of t] assms(2,4,5) by (cases ok) (simp_all add: b)
  have "dget (rb_pending_messages q') i = None"
    using rb_settle_pending [of C c p q] assms(1,2) by simp
  then have "dget (rb_pending_messages q'') (settled_id p') = None"
    by (simp add: assms(3,6) rb_settles_pending)
  from rb_settle_none [OF this, of C c]
  show "rb_settle C c p' q'' = (Inr False, if is_cancel p' then q''\<lparr>rb_tasks := dpop i (rb_tasks q'')\<rparr> else q'')"
    by (simp add: assms(3))
qed

text \<open>Without a pending delivery nothing is settled: the first call is already one of those.\<close>

lemma rabbit_nothing_pending:
  assumes "dget (rb_pending_messages q) i = None"
  shows "rb_complete C i r q = (Inr False, q)" "rb_fail C c now i code msg retry q = (Inr False, q)"
    "rb_cancel C now i q = (Inr False, q\<lparr>rb_tasks := dpop i (rb_tasks q)\<rparr>)"
  using rb_settle_none [of q "CompleteR i r"] rb_settle_none [of q "FailR now i code msg retry"]
    rb_settle_none [of q "CancelR now i"] assms by simp_all

section \<open>What is claimed is tracked\<close>

definition rb_inv :: "'s rabbit_queue \<Rightarrow> bool" where
  "rb_inv q =
     ((\<forall>i. dget (rb_pending_messages q) i \<noteq> None \<longrightarrow> dget (rb_tasks q) i \<noteq> None) \<and>
      (\<forall>i t. dget (rb_tasks q) i = Some t \<longrightarrow> tp_task_id t = i) \<and>
      (\<forall>i r. dget (rb_results q) i = Some r \<longrightarrow> tr_task_id r = i))"

inductive rb_reachable :: "'s amqp \<Rightarrow> codec \<Rightarrow> 's rabbit_queue \<Rightarrow> bool" for C c where
  init: "rb_reachable C c (rb_init url p bd md n ttl b)"
| enqueue: "rb_reachable C c q \<Longrightarrow> rb_enqueue C c t delay q = (x, q') \<Longrightarrow> rb_reachable C c q'"
| dequeue: "rb_reachable C c q \<Longrightarrow> rb_dequeue C c now tenant timeout q = (y, q') \<Longrightarrow> rb_reachable C c q'"
| settle: "rb_reachable C c q \<Longrightarrow> (\<And>i r. p = CompleteR i r \<Longrightarrow> tr_task_id r = i) \<Longrightarrow>
    rb_settle C c p q = (z, q') \<Longrightarrow> rb_reachable C c q'"
| clear: "rb_reachable C c q \<Longrightarrow> rb_clear_expired C now q = (n', q') \<Longrightarrow> rb_reachable C c q'"
| shutdown: "rb_reachable C c q \<Longrightarrow> rb_shutdown C q = (u, q') \<Longrightarrow> rb_reachable C c q'"

lemma rb_inv_same: "rb_inv q \<Longrightarrow> rb_same q q' \<Longrightarrow> rb_inv q'"
  by (simp add: rb_inv_def rb_same_def)

lemma rb_outcome_id [simp]: "tr_task_id (rb_outcome now i st code msg) = i"
  by (simp add: rb_outcome_def new_task_result_def)

lemma rb_inv_result: "rb_inv q \<Longrightarrow> tr_task_id r = i \<Longrightarrow> rb_inv (q\<lparr>rb_results := dset i r (rb_results q)\<rparr>)"
  by (auto simp: rb_inv_def)

lemma rb_inv_claim:
  "rb_inv q \<Longrightarrow> rb_inv (q\<lparr>rb_pending_messages := dset (tp_task_id t) tag (rb_pending_messages q),
     rb_tasks := dset (tp_task_id t) t (rb_tasks q)\<rparr>)"
  by (auto simp: rb_inv_def)

lemma rb_try_inv:
  assumes inv: "rb_inv q" shows "rb_inv (snd (rb_try C c now tenant timeout p q))"
proof -
  obtain d b where d: "am_get C (rb_queue_name q p) (if 0 < timeout then timeout else 1 / 10) (rb_broker q) = (d, b)" by fastforce
  let ?q = "q\<lparr>rb_broker := b\<rparr>"
  have inv': "rb_inv ?q" using inv by (simp add: rb_inv_def)
  show ?thesis
  proof (cases d)
    case (Delivery tag body)
    show ?thesis
    proof (cases "rb_deserialize c body")
      case None
      then show ?thesis using d Delivery inv' by (simp add: rb_try_def Let_def)
    next
      case (Some t)
      have req: "rb_inv (snd (rb_request C x ?q))" for x by (rule rb_inv_same [OF inv' rb_request_same])
      obtain y r where r: "rb_request C (AmReject tag False) ?q = (y, r)" by fastforce
      have "rb_inv r" using req [of "AmReject tag False"] r by simp
      then show ?thesis
        using d Delivery Some req r rb_inv_claim [OF inv', of t tag] rb_inv_result [of r "rb_outcome now (tp_task_id t) TASK_EXPIRED
          ''TASK_EXPIRED'' ''Task exceeded TTL''" "tp_task_id t"]
        by (cases y) (auto simp: rb_try_def Let_def)
    qed
  qed (use d inv' in \<open>simp_all add: rb_try_def Let_def\<close>)
qed

lemma rb_scan_inv: "rb_inv q \<Longrightarrow> rb_inv (snd (rb_scan C c now tenant timeout ps q))"
proof (induction ps arbitrary: q)
  case (Cons p ps)
  obtain x r where r: "rb_try C c now tenant timeout p q = (x, r)" by fastforce
  have "rb_inv r" using rb_try_inv [OF Cons.prems, of C c now tenant timeout p] r by simp
  then show ?case using Cons r by (cases x) simp_all
qed simp

lemma rb_settle_inv:
  assumes inv: "rb_inv q" and own: "\<And>i r. p = CompleteR i r \<Longrightarrow> tr_task_id r = i" and run: "rb_settle C c p q = (z, q')"
  shows "rb_inv q'"
proof (cases p)
  case (CompleteR i r)
  with own have r: "tr_task_id r = i" by simp
  show ?thesis using rb_complete_cases [of C i r q z q'] run CompleteR inv r
    unfolding rb_inv_def by (auto split: if_splits)
next
  case (FailR now i code msg retry)
  from inv have keyed: "\<And>t. dget (rb_tasks q) i = Some t \<Longrightarrow> tp_task_id t = i" by (simp add: rb_inv_def)
  have ids: "tr_task_id ((rb_outcome now i TASK_FAILED code msg)\<lparr>tr_retry_count := n\<rparr>) = i" for n
    by (simp add: rb_outcome_def new_task_result_def)
  show ?thesis using rb_fail_cases [of C c now i code msg retry q z q'] run FailR inv keyed ids
    unfolding rb_inv_def by (auto split: if_splits)
next
  case (CancelR now i)
  then show ?thesis using rb_cancel_cases [of C now i q z q'] run inv
    unfolding rb_inv_def by (auto split: if_splits)
qed

lemma rb_clear_loop_inv: "rb_inv q \<Longrightarrow> rb_inv (snd (rb_clear_loop C now ts n q))"
proof (induction ts arbitrary: n q)
  case (Cons e ts)
  obtain i t where e: "e = (i, t)" by fastforce
  let ?q = "q\<lparr>rb_pending_messages := dpop i (rb_pending_messages q)\<rparr>"
  let ?r = "case dget (rb_pending_messages q) i of None \<Rightarrow> (Inr (), ?q) | Some tag \<Rightarrow> rb_request C (AmReject tag False) ?q"
  obtain x r where r: "?r = (x, r)" by fastforce
  have "rb_same ?q (snd ?r)" by (simp split: option.split)
  then have same: "rb_same ?q r" by (simp add: r)
  have "rb_inv (r\<lparr>rb_tasks := dpop i (rb_tasks r), rb_results := dset i
      (rb_outcome now i TASK_EXPIRED ''TASK_EXPIRED'' ''Task exceeded TTL'') (rb_results r)\<rparr>)"
    using same Cons.prems unfolding rb_inv_def rb_same_def by (auto split: if_splits)
  moreover have "rb_inv r" using same Cons.prems by (auto simp: rb_inv_def rb_same_def)
  moreover have "rb_clear_loop C now (e # ts) n q = (if \<not> task_is_expired now t then rb_clear_loop C now ts n q
      else andthen (x, r) (\<lambda>_ q. rb_clear_loop C now ts (n + 1) (q\<lparr>rb_tasks := dpop i (rb_tasks q), rb_results := dset i
        (rb_outcome now i TASK_EXPIRED ''TASK_EXPIRED'' ''Task exceeded TTL'') (rb_results q)\<rparr>)))"
    unfolding e by (simp only: rb_clear_loop.simps Let_def r)
  ultimately show ?case using Cons by (cases x) simp_all
qed simp

lemma rb_requeue_all_same: "rb_same q (rb_requeue_all C tags q)"
proof (induction tags arbitrary: q)
  case (Cons tag tags)
  show ?case using rb_same_trans [OF rb_request_same Cons] by simp
qed simp

lemma rb_shutdown_inv:
  assumes inv: "rb_inv q" shows "rb_inv (snd (rb_shutdown C q))"
proof -
  let ?q = "(rb_requeue_all C (dvalues (rb_pending_messages q)) (q\<lparr>rb_closed := True\<rparr>))\<lparr>rb_pending_messages := []\<rparr>"
  have "rb_inv ?q"
    using inv rb_requeue_all_same [of "q\<lparr>rb_closed := True\<rparr>" C "dvalues (rb_pending_messages q)"]
    by (auto simp: rb_inv_def rb_same_def)
  moreover have "rb_same ?q (snd (rb_shutdown C q))"
    unfolding rb_shutdown_def Let_def
    by (rule rb_same_andthen) (auto intro!: rb_same_andthen simp: rb_same_def rb_request_def case_prod_beta)
  ultimately show ?thesis by (rule rb_inv_same)
qed

text \<open>C32: in every state the queue can reach, whatever the broker answers, a task whose delivery waits for its
  settlement is tracked, so that \<open>fail\<close> always has the task it acknowledges, and tasks and results are under
  their own ids.\<close>

theorem rabbit_pending_tracked: "rb_reachable C c q \<Longrightarrow> rb_inv q"
proof (induction rule: rb_reachable.induct)
  case (init url p bd md n ttl b)
  then show ?case by (simp add: rb_inv_def rb_init_def)
next
  case (enqueue q t delay x q')
  then show ?case using rb_enqueue_cases [OF enqueue.hyps(2)] rb_inv_same [OF enqueue.IH]
    unfolding rb_inv_def by (auto split: if_splits)
next
  case (dequeue q now tenant timeout y q')
  obtain x r where r: "rb_ensure_connected C q = (x, r)" by fastforce
  have "rb_inv r" using rb_inv_same [OF dequeue.IH rb_ensure_same [of q C]] by (simp add: r)
  then show ?case using dequeue rb_scan_inv [of r C c now tenant timeout all_priorities] r
    by (cases x) (auto simp: rb_dequeue_def case_prod_beta split: if_splits)
next
  case (settle q p z q')
  show ?case by (rule rb_settle_inv [OF settle.IH settle.hyps(2,3)])
next
  case (clear q now n' q')
  then show ?case using rb_clear_loop_inv [of q C now "rb_tasks q" 0] by (simp add: rb_clear_expired_def)
next
  case (shutdown q u q')
  then show ?case using rb_shutdown_inv [of q C] by simp
qed

section \<open>The most urgent queue first\<close>

lemma rb_roundtrip [simp]: "codec_ok c \<Longrightarrow> rb_deserialize c (rb_serialize c t) = Some t"
  using task_fields_roundtrip [of c t "[]"] by (simp add: rb_serialize_def rb_deserialize_def)

lemma rb_scan_silent:
  assumes "\<And>p. p \<in> set ps \<Longrightarrow> am_get C (rb_queue_name q p) (if 0 < timeout then timeout else 1 / 10) (rb_broker q) = (NoDelivery, rb_broker q)"
  shows "rb_scan C c now tenant timeout (ps @ rest) q = rb_scan C c now tenant timeout rest q"
  using assms
proof (induction ps)
  case (Cons p ps)
  have "rb_try C c now tenant timeout p q = (None, q)" using Cons.prems [of p] by (simp add: rb_try_def Let_def)
  then show ?case using Cons by simp
qed simp

text \<open>C33: on an open connection a call hands out the task of the most urgent queue that delivers one for the tenant
  that is not overdue, exactly as it was enqueued, and remembers its delivery for the settlement.\<close>

theorem rabbit_most_urgent:
  assumes "codec_ok c" and "\<not> rb_closed q" and "rb_ensure_connected C q = (Inr (), q)"
    and "all_priorities = more_urgent @ p # rest" and "set all_priorities \<subseteq> set (rb_queues q)"
    and "\<forall>p'\<in>set more_urgent. am_get C (rb_queue_name q p') (if 0 < timeout then timeout else 1 / 10) (rb_broker q) =
      (NoDelivery, rb_broker q)"
    and "am_get C (rb_queue_name q p) (if 0 < timeout then timeout else 1 / 10) (rb_broker q) =
      (Delivery tag (rb_serialize c t), b)"
    and "str_filter tenant (tp_tenant_id t)" and "\<not> task_is_expired now t"
  shows "\<exists>q'. rb_dequeue C c now tenant timeout q = (Inr (Some t), q') \<and> rb_get (tp_task_id t) q' = Some t \<and>
    dget (rb_pending_messages q') (tp_task_id t) = Some tag"
proof -
  have scan: "rb_scan C c now tenant timeout all_priorities q = rb_scan C c now tenant timeout (p # rest) q"
    unfolding assms(4) by (rule rb_scan_silent) (use assms(6) in simp)
  have "p \<in> set all_priorities" unfolding assms(4) by simp
  then have "p \<in> set (rb_queues q)" using assms(5) by blast
  then have "rb_scan C c now tenant timeout (p # rest) q =
      (Some t, q\<lparr>rb_broker := b, rb_pending_messages := dset (tp_task_id t) tag (rb_pending_messages q),
         rb_tasks := dset (tp_task_id t) t (rb_tasks q)\<rparr>)"
    using assms(1,7,8,9) by (simp add: rb_try_def Let_def)
  then show ?thesis using assms(2,3) by (simp add: rb_dequeue_def scan rb_get_def)
qed

section \<open>A broker in memory\<close>

text \<open>It grants every request; its state holds the deliveries of each queue.\<close>

definition ex_amqp :: "(string \<Rightarrow> (nat \<times> string) list) amqp" where
  "ex_amqp =
     \<lparr>am_request = \<lambda>x s. (True, s),
      am_get = \<lambda>n t s. (case s n of [] \<Rightarrow> (NoDelivery, s) | (tag, body) # ds \<Rightarrow> (Delivery tag body, s(n := ds))),
      am_connection_closed = \<lambda>s. False, am_channel_closed = \<lambda>s. False, am_declared_count = \<lambda>n s. 0\<rparr>"

definition ex_rabbit_task :: task_payload where
  "ex_rabbit_task = (new_task_payload 7 0)\<lparr>tp_tenant_id := ''acme''\<rparr>"

definition ex_rabbit :: "(string \<Rightarrow> (nat \<times> string) list) rabbit_queue" where
  "ex_rabbit = (rb_init ''amqp'' ''lip'' 1 60 10 1000 ((\<lambda>n. [])(''lip.tasks.normal'' := [(4, rb_serialize ex_codec ex_rabbit_task)])))
     \<lparr>rb_connection := True, rb_channel := True, rb_queues := all_priorities\<rparr>"

lemma ex_rabbit_poll:
  "am_get ex_amqp (rb_queue_name ex_rabbit p) w (rb_broker ex_rabbit) =
     (if p = PRIO_NORMAL then (Delivery 4 (rb_serialize ex_codec ex_rabbit_task), (\<lambda>n. [])) else (NoDelivery, rb_broker ex_rabbit))"
  by (cases p) (simp_all add: ex_amqp_def ex_rabbit_def rb_init_def rb_queue_name_def fun_upd_idem)

theorem rabbit_most_urgent_witness:
  "\<exists>q'. rb_dequeue ex_amqp ex_codec 1 None 0 ex_rabbit = (Inr (Some ex_rabbit_task), q')"
proof -
  have q: "\<not> rb_closed ex_rabbit" "rb_ensure_connected ex_amqp ex_rabbit = (Inr (), ex_rabbit)"
    "set all_priorities \<subseteq> set (rb_queues ex_rabbit)"
    by (simp_all add: ex_rabbit_def rb_init_def rb_ensure_connected_def ex_amqp_def)
  have ps: "all_priorities = [PRIO_CRITICAL, PRIO_HIGH] @ PRIO_NORMAL # [PRIO_LOW, PRIO_BACKGROUND]"
    by (simp add: all_priorities_def)
  have t: "str_filter None (tp_tenant_id ex_rabbit_task)" "\<not> task_is_expired 1 ex_rabbit_task"
    by (simp_all add: ex_rabbit_task_def task_is_expired_def new_task_payload_def td_sec_def)
  have "am_get ex_amqp (rb_queue_name ex_rabbit PRIO_NORMAL) (if 0 < (0::rat) then 0 else 1 / 10) (rb_broker ex_rabbit) =
      (Delivery 4 (rb_serialize ex_codec ex_rabbit_task), (\<lambda>n. []))" by (simp add: ex_rabbit_poll)
  then show ?thesis
    using rabbit_most_urgent [OF ex_codec_ok q(1,2) ps q(3) _ _ t] by (auto simp: ex_rabbit_poll)
qed

text \<open>The queue with its one task claimed.\<close>

definition ex_claimed :: "(string \<Rightarrow> (nat \<times> string) list) rabbit_queue" where
  "ex_claimed = snd (rb_dequeue ex_amqp ex_codec 1 None 0 ex_rabbit)"

lemma ex_claimed_tables:
  "dget (rb_pending_messages ex_claimed) 7 = Some 4" "dget (rb_tasks ex_claimed) 7 = Some ex_rabbit_task"
proof -
  have none: "rb_try ex_amqp ex_codec 1 None 0 p ex_rabbit = (None, ex_rabbit)" if "p \<noteq> PRIO_NORMAL" for p
    using that by (simp add: rb_try_def ex_rabbit_poll)
  have got: "rb_try ex_amqp ex_codec 1 None 0 PRIO_NORMAL ex_rabbit = (Some ex_rabbit_task, ex_rabbit\<lparr>rb_broker := \<lambda>n. [],
      rb_pending_messages := [(7, 4)], rb_tasks := [(7, ex_rabbit_task)]\<rparr>)"
    by (simp add: rb_try_def ex_rabbit_poll ex_rabbit_task_def task_is_expired_def new_task_payload_def td_sec_def)
      (simp add: ex_rabbit_def rb_init_def)
  have "rb_ensure_connected ex_amqp ex_rabbit = (Inr (), ex_rabbit)" "rb_queues ex_rabbit = all_priorities" "\<not> rb_closed ex_rabbit"
    by (simp_all add: ex_rabbit_def rb_init_def rb_ensure_connected_def ex_amqp_def)
  then have "rb_dequeue ex_amqp ex_codec 1 None 0 ex_rabbit = (Inr (Some ex_rabbit_task), ex_rabbit\<lparr>rb_broker := \<lambda>n. [],
      rb_pending_messages := [(7, 4)], rb_tasks := [(7, ex_rabbit_task)]\<rparr>)"
    by (simp add: rb_dequeue_def all_priorities_def none got)
  then show "dget (rb_pending_messages ex_claimed) 7 = Some 4" "dget (rb_tasks ex_claimed) 7 = Some ex_rabbit_task"
    by (simp_all add: ex_claimed_def)
qed

theorem rabbit_settled_once_witness:
  "fst (rb_fail ex_amqp ex_codec 1 7 ''E'' ''m'' False ex_claimed) = Inr True \<and>
   (let q' = snd (rb_fail ex_amqp ex_codec 1 7 ''E'' ''m'' False ex_claimed) in
    rb_complete ex_amqp 7 (new_task_result 7 TASK_COMPLETED 2) q' = (Inr False, q') \<and>
    map_option tr_status (rb_get_result 7 q') = Some TASK_FAILED)"
proof -
  let ?q' = "snd (rb_fail ex_amqp ex_codec 1 7 ''E'' ''m'' False ex_claimed)"
  have first: "fst (rb_fail ex_amqp ex_codec 1 7 ''E'' ''m'' False ex_claimed) = Inr True"
    "map_option tr_status (rb_get_result 7 ?q') = Some TASK_FAILED"
    by (simp_all add: rb_fail_def ex_claimed_tables rb_request_def ex_amqp_def rb_get_result_def rb_outcome_def
        new_task_result_def Let_def case_prod_beta)
  have "rb_settle ex_amqp ex_codec (FailR 1 7 ''E'' ''m'' False) ex_claimed =
      (fst (rb_fail ex_amqp ex_codec 1 7 ''E'' ''m'' False ex_claimed), ?q')" by simp
  from rabbit_settled_once [OF this _ _ ex_claimed_tables, of "CompleteR 7 (new_task_result 7 TASK_COMPLETED 2)" ?q' "[]"]
  show ?thesis using first by (simp add: Let_def)
qed

theorem rabbit_pending_tracked_witness:
  "rb_inv (snd (rb_enqueue ex_amqp ex_codec ex_rabbit_task 0 (rb_init ''amqp'' ''lip'' 1 60 10 1000 (\<lambda>n. []))))"
  by (rule rabbit_pending_tracked [of ex_amqp ex_codec], rule rb_reachable.enqueue [OF rb_reachable.init prod.collapse [symmetric]])

end
