(* ===== verification/Redis_Queue.thy ===== *)
theory Redis_Queue
  imports Task_Wire
begin

text \<open>
  \<open>src/queue/redis_queue.py\<close>: the queue over Redis streams. The client is the record \<open>redis_streams\<close> of the
  commands the queue sends, over a state that is left open; False or None is an exception. All the data of the
  queue is in Redis. A method runs here without interruption.
\<close>

section \<open>The client and the state\<close>

record 's redis_streams =
  xs_xgroup_create :: "string \<Rightarrow> string \<Rightarrow> 's \<Rightarrow> string option \<times> 's"
  xs_hset :: "string \<Rightarrow> hash \<Rightarrow> 's \<Rightarrow> bool \<times> 's"
  xs_hgetall :: "string \<Rightarrow> 's \<Rightarrow> hash option \<times> 's"
  xs_expire :: "string \<Rightarrow> int \<Rightarrow> 's \<Rightarrow> bool \<times> 's"
  xs_set :: "string \<Rightarrow> string \<Rightarrow> int option \<Rightarrow> 's \<Rightarrow> bool \<times> 's"
  xs_get :: "string \<Rightarrow> 's \<Rightarrow> string option option \<times> 's"
  xs_sadd :: "string \<Rightarrow> string \<Rightarrow> 's \<Rightarrow> bool \<times> 's"
  xs_srem :: "string \<Rightarrow> string \<Rightarrow> 's \<Rightarrow> bool \<times> 's"
  xs_smembers :: "string \<Rightarrow> 's \<Rightarrow> string list option \<times> 's"
  xs_zadd :: "string \<Rightarrow> string \<Rightarrow> rat \<Rightarrow> 's \<Rightarrow> bool \<times> 's"
  xs_zrem :: "string \<Rightarrow> string \<Rightarrow> 's \<Rightarrow> bool \<times> 's"
  xs_zrangebyscore :: "string \<Rightarrow> rat \<Rightarrow> rat \<Rightarrow> nat \<Rightarrow> 's \<Rightarrow> string list option \<times> 's"
  xs_xadd :: "string \<Rightarrow> hash \<Rightarrow> 's \<Rightarrow> bool \<times> 's"
  xs_xreadgroup :: "string \<Rightarrow> string \<Rightarrow> string \<Rightarrow> int option \<Rightarrow> 's \<Rightarrow> (string \<times> hash) list option \<times> 's"
  xs_xack :: "json \<Rightarrow> string \<Rightarrow> json \<Rightarrow> 's \<Rightarrow> bool \<times> 's"
  xs_xinfo_length :: "string \<Rightarrow> 's \<Rightarrow> int option \<times> 's"
  xs_close :: "'s \<Rightarrow> 's"

record 's redis_queue =
  rq_prefix :: string
  rq_group :: string
  rq_consumer :: string
  rq_retry_base_delay :: rat
  rq_retry_max_delay :: rat
  rq_result_ttl :: int
  rq_connected :: bool
  rq_closed :: bool
  rq_show_float :: "rat \<Rightarrow> string"
  rq_read_float :: "string \<Rightarrow> rat option"
  rq_broker :: 's

datatype redis_failure = RedisFailure | RedisUnreadable | RedisClosed string

text \<open>A consumer name is made up from the identity of the object when none is given: \<open>own_name\<close>.\<close>

definition rq_init ::
  "string \<Rightarrow> string \<Rightarrow> string option \<Rightarrow> string \<Rightarrow> rat \<Rightarrow> rat \<Rightarrow> int \<Rightarrow> (rat \<Rightarrow> string) \<Rightarrow> (string \<Rightarrow> rat option) \<Rightarrow>
     's \<Rightarrow> 's redis_queue" where
  "rq_init key_prefix consumer_group consumer_name own_name base_delay max_delay result_ttl show_float read_float broker =
     \<lparr>rq_prefix = key_prefix, rq_group = consumer_group,
      rq_consumer = (if str_true consumer_name then the consumer_name else own_name),
      rq_retry_base_delay = base_delay, rq_retry_max_delay = max_delay, rq_result_ttl = result_ttl,
      rq_connected = False, rq_closed = False, rq_show_float = show_float, rq_read_float = read_float,
      rq_broker = broker\<rparr>"

definition rq_stream_key :: "'s redis_queue \<Rightarrow> task_priority \<Rightarrow> string" where
  "rq_stream_key q p = rq_prefix q @ '':queue:'' @ int_str (task_priority_value p)"

definition rq_task_key :: "'s redis_queue \<Rightarrow> uuid \<Rightarrow> string" where
  "rq_task_key q i = rq_prefix q @ '':task:'' @ uuid_str i"

definition rq_status_key :: "'s redis_queue \<Rightarrow> uuid \<Rightarrow> string" where
  "rq_status_key q i = rq_prefix q @ '':status:'' @ uuid_str i"

definition rq_result_key :: "'s redis_queue \<Rightarrow> uuid \<Rightarrow> string" where
  "rq_result_key q i = rq_prefix q @ '':result:'' @ uuid_str i"

definition rq_tenant_index_key :: "'s redis_queue \<Rightarrow> string \<Rightarrow> string" where
  "rq_tenant_index_key q t = rq_prefix q @ '':idx:tenant:'' @ t"

definition rq_agent_index_key :: "'s redis_queue \<Rightarrow> uuid \<Rightarrow> string" where
  "rq_agent_index_key q a = rq_prefix q @ '':idx:agent:'' @ uuid_str a"

definition rq_delayed_key :: "'s redis_queue \<Rightarrow> string" where
  "rq_delayed_key q = rq_prefix q @ '':delayed''"

section \<open>Commands\<close>

definition rq_do :: "('s \<Rightarrow> bool \<times> 's) \<Rightarrow> 's redis_queue \<Rightarrow> (redis_failure + unit) \<times> 's redis_queue" where
  "rq_do f q = (let (ok, b) = f (rq_broker q) in (if ok then Inr () else Inl RedisFailure, q\<lparr>rq_broker := b\<rparr>))"

definition rq_ask :: "('s \<Rightarrow> 'a option \<times> 's) \<Rightarrow> 's redis_queue \<Rightarrow> (redis_failure + 'a) \<times> 's redis_queue" where
  "rq_ask f q =
     (let (x, b) = f (rq_broker q) in
      (case x of None \<Rightarrow> Inl RedisFailure | Some y \<Rightarrow> Inr y, q\<lparr>rq_broker := b\<rparr>))"

fun rq_all :: "('s \<Rightarrow> bool \<times> 's) list \<Rightarrow> 's redis_queue \<Rightarrow> (redis_failure + unit) \<times> 's redis_queue" where
  "rq_all [] q = (Inr (), q)"
| "rq_all (f # fs) q = andthen (rq_do f q) (\<lambda>_ q. rq_all fs q)"

definition rq_read :: "'a option \<Rightarrow> 's redis_queue \<Rightarrow> (redis_failure + 'a) \<times> 's redis_queue" where
  "rq_read x q = (case x of None \<Rightarrow> (Inl RedisUnreadable, q) | Some y \<Rightarrow> (Inr y, q))"

fun rq_create_groups ::
  "'s redis_streams \<Rightarrow> task_priority list \<Rightarrow> 's redis_queue \<Rightarrow> (redis_failure + unit) \<times> 's redis_queue" where
  "rq_create_groups T [] q = (Inr (), q)"
| "rq_create_groups T (p # ps) q =
     (let (err, b) = xs_xgroup_create T (rq_stream_key q p) (rq_group q) (rq_broker q);
          q = q\<lparr>rq_broker := b\<rparr>
      in case err of
        None \<Rightarrow> rq_create_groups T ps q
      | Some msg \<Rightarrow> if sublist ''BUSYGROUP'' msg then rq_create_groups T ps q else (Inl RedisFailure, q))"

definition rq_ensure_connected :: "'s redis_streams \<Rightarrow> 's redis_queue \<Rightarrow> (redis_failure + unit) \<times> 's redis_queue" where
  "rq_ensure_connected T q =
     (if rq_connected q then (Inr (), q) else rq_create_groups T all_priorities (q\<lparr>rq_connected := True\<rparr>))"

definition rq_hgetall :: "'s redis_streams \<Rightarrow> string \<Rightarrow> 's redis_queue \<Rightarrow> (redis_failure + hash) \<times> 's redis_queue" where
  "rq_hgetall T k q = rq_ask (xs_hgetall T k) q"

section \<open>Enqueue\<close>

definition rq_now :: "datetime \<Rightarrow> rat" where
  "rq_now now = of_int now / 1000000"

definition rq_enqueue ::
  "'s redis_streams \<Rightarrow> codec \<Rightarrow> datetime \<Rightarrow> task_payload \<Rightarrow> rat \<Rightarrow> 's redis_queue \<Rightarrow>
     (redis_failure + task_payload) \<times> 's redis_queue" where
  "rq_enqueue T c now t delay q =
     (if rq_closed q then (Inl (RedisClosed ''Queue is shutdown''), q)
      else andthen (rq_ensure_connected T q) (\<lambda>_ q.
        let i = tp_task_id t; ttl = tp_ttl_seconds t + 60 in
        andthen (rq_all
          ([xs_hset T (rq_task_key q i) (task_hash c t), xs_expire T (rq_task_key q i) ttl,
            xs_set T (rq_status_key q i) (task_status_value TASK_PENDING) (Some ttl),
            xs_sadd T (rq_tenant_index_key q (tp_tenant_id t)) (uuid_str i)] @
           (case tp_target_agent_id t of None \<Rightarrow> [] | Some a \<Rightarrow> [xs_sadd T (rq_agent_index_key q a) (uuid_str i)]) @
           [if 0 < delay then xs_zadd T (rq_delayed_key q) (uuid_str i) (rq_now now + delay)
            else xs_xadd T (rq_stream_key q (tp_priority t)) [(''task_id'', uuid_str i)]]) q)
        (\<lambda>_ q. (Inr t, q))))"

section \<open>Dequeue\<close>

fun rq_move_due ::
  "'s redis_streams \<Rightarrow> codec \<Rightarrow> string list \<Rightarrow> 's redis_queue \<Rightarrow> (redis_failure + unit) \<times> 's redis_queue" where
  "rq_move_due T c [] q = (Inr (), q)"
| "rq_move_due T c (m # ms) q =
     andthen (rq_read (uuid_parse m) q) (\<lambda>i q.
     andthen (rq_hgetall T (rq_task_key q i) q) (\<lambda>d q.
     andthen
       (if d = [] then (Inr (), q)
        else andthen (rq_read (task_of_hash c d) q) (\<lambda>t q.
          rq_do (xs_xadd T (rq_stream_key q (tp_priority t)) [(''task_id'', uuid_str i)]) q)) (\<lambda>_ q.
     andthen (rq_do (xs_zrem T (rq_delayed_key q) m) q) (\<lambda>_ q.
     rq_move_due T c ms q))))"

definition rq_process_delayed_tasks ::
  "'s redis_streams \<Rightarrow> codec \<Rightarrow> datetime \<Rightarrow> 's redis_queue \<Rightarrow> (redis_failure + unit) \<times> 's redis_queue" where
  "rq_process_delayed_tasks T c now q =
     andthen (rq_ensure_connected T q) (\<lambda>_ q.
     andthen (rq_ask (xs_zrangebyscore T (rq_delayed_key q) 0 (rq_now now) 100) q) (\<lambda>due q.
     rq_move_due T c due q))"

definition rq_mark_expired ::
  "'s redis_streams \<Rightarrow> codec \<Rightarrow> datetime \<Rightarrow> uuid \<Rightarrow> string \<Rightarrow> string \<Rightarrow> 's redis_queue \<Rightarrow>
     (redis_failure + unit) \<times> 's redis_queue" where
  "rq_mark_expired T c now i message_id stream q =
     andthen (rq_ensure_connected T q) (\<lambda>_ q.
     rq_all
       [xs_set T (rq_status_key q i) (task_status_value TASK_EXPIRED) None,
        xs_xack T (JStr stream) (rq_group q) (JStr message_id),
        xs_hset T (rq_result_key q i)
          [(''status'', task_status_value TASK_EXPIRED), (''error_code'', ''TASK_EXPIRED''),
           (''error_message'', ''Task exceeded TTL''), (''processed_at'', cd_isoformat c now)],
        xs_expire T (rq_result_key q i) (rq_result_ttl q)] q)"

text \<open>One turn of the loop over the priorities.\<close>

definition rq_try ::
  "'s redis_streams \<Rightarrow> codec \<Rightarrow> datetime \<Rightarrow> string option \<Rightarrow> int option \<Rightarrow> task_priority \<Rightarrow> 's redis_queue \<Rightarrow>
     (redis_failure + task_payload option) \<times> 's redis_queue" where
  "rq_try T c now tenant block p q =
     (let stream = rq_stream_key q p in
      andthen (rq_ask (xs_xreadgroup T (rq_group q) (rq_consumer q) stream block) q) (\<lambda>ms q.
      case ms of
        [] \<Rightarrow> (Inr None, q)
      | (message_id, fs) # _ \<Rightarrow>
          andthen (rq_read (Option.bind (dget fs ''task_id'') uuid_parse) q) (\<lambda>i q.
          andthen (rq_hgetall T (rq_task_key q i) q) (\<lambda>d q.
          if d = [] then
            andthen (rq_do (xs_xack T (JStr stream) (rq_group q) (JStr message_id)) q) (\<lambda>_ q. (Inr None, q))
          else andthen (rq_read (task_of_hash c d) q) (\<lambda>t q.
            if \<not> str_filter tenant (tp_tenant_id t) then (Inr None, q)
            else if task_is_expired now t then
              andthen (rq_mark_expired T c now i message_id stream q) (\<lambda>_ q. (Inr None, q))
            else
              andthen (rq_do (xs_set T (rq_status_key q i) (task_status_value TASK_PROCESSING) None) q) (\<lambda>_ q.
              (Inr (Some (t\<lparr>tp_metadata := dset ''_redis_stream'' (JStr stream)
                   (dset ''_redis_msg_id'' (JStr message_id) (tp_metadata t))\<rparr>)), q)))))))"

fun rq_scan ::
  "'s redis_streams \<Rightarrow> codec \<Rightarrow> datetime \<Rightarrow> string option \<Rightarrow> int option \<Rightarrow> task_priority list \<Rightarrow> 's redis_queue \<Rightarrow>
     task_payload option \<times> 's redis_queue" where
  "rq_scan T c now tenant block [] q = (None, q)"
| "rq_scan T c now tenant block (p # ps) q =
     (case rq_try T c now tenant block p q of
        (Inr (Some t), q) \<Rightarrow> (Some t, q)
      | (_, q) \<Rightarrow> rq_scan T c now tenant block ps q)"

definition rq_dequeue ::
  "'s redis_streams \<Rightarrow> codec \<Rightarrow> datetime \<Rightarrow> string option \<Rightarrow> rat \<Rightarrow> 's redis_queue \<Rightarrow>
     (redis_failure + task_payload option) \<times> 's redis_queue" where
  "rq_dequeue T c now tenant timeout q =
     (if rq_closed q then (Inr None, q)
      else andthen (rq_ensure_connected T q) (\<lambda>_ q.
        andthen (rq_process_delayed_tasks T c now q) (\<lambda>_ q.
        let (t, q) = rq_scan T c now tenant (if 0 < timeout then Some \<lfloor>timeout * 1000\<rfloor> else None) all_priorities q
        in (Inr t, q))))"

section \<open>Settling a task\<close>

text \<open>The acknowledgement, when the stored metadata names the message.\<close>

definition rq_ack ::
  "'s redis_streams \<Rightarrow> payload \<Rightarrow> 's redis_queue \<Rightarrow> (redis_failure + unit) \<times> 's redis_queue" where
  "rq_ack T meta q =
     (let m = pget meta ''_redis_msg_id'' JNone; stream = pget meta ''_redis_stream'' JNone in
      if py_bool m \<and> py_bool stream then rq_do (xs_xack T stream (rq_group q) m) q else (Inr (), q))"

definition rq_unindex ::
  "'s redis_streams \<Rightarrow> task_payload \<Rightarrow> uuid \<Rightarrow> 's redis_queue \<Rightarrow> ('s \<Rightarrow> bool \<times> 's) list" where
  "rq_unindex T t i q =
     xs_srem T (rq_tenant_index_key q (tp_tenant_id t)) (uuid_str i) #
     (case tp_target_agent_id t of None \<Rightarrow> [] | Some a \<Rightarrow> [xs_srem T (rq_agent_index_key q a) (uuid_str i)])"

definition rq_complete ::
  "'s redis_streams \<Rightarrow> codec \<Rightarrow> uuid \<Rightarrow> task_result \<Rightarrow> 's redis_queue \<Rightarrow> (redis_failure + bool) \<times> 's redis_queue" where
  "rq_complete T c i r q =
     andthen (rq_ensure_connected T q) (\<lambda>_ q.
     andthen (rq_hgetall T (rq_task_key q i) q) (\<lambda>d q.
     if d = [] then (Inr False, q)
     else
       andthen (rq_read (task_of_hash c d) q) (\<lambda>t q.
       andthen (rq_ack T (tp_metadata t) q) (\<lambda>_ q.
       andthen (rq_all
         ([xs_set T (rq_status_key q i) (task_status_value TASK_COMPLETED) None,
           xs_hset T (rq_result_key q i)
             [(''status'', task_status_value (tr_status r)),
              (''result'', if py_bool (tr_result r) then cd_dumps c (tr_result r) else []),
              (''processed_at'', cd_isoformat c (tr_processed_at r)),
              (''duration_ms'', rq_show_float q (tr_duration_ms r))],
           xs_expire T (rq_result_key q i) (rq_result_ttl q)] @ rq_unindex T t i q) q) (\<lambda>_ q.
       (Inr True, q))))))"

definition rq_fail ::
  "'s redis_streams \<Rightarrow> codec \<Rightarrow> datetime \<Rightarrow> uuid \<Rightarrow> string \<Rightarrow> string \<Rightarrow> bool \<Rightarrow> 's redis_queue \<Rightarrow>
     (redis_failure + bool) \<times> 's redis_queue" where
  "rq_fail T c now i code msg retry q =
     andthen (rq_ensure_connected T q) (\<lambda>_ q.
     andthen (rq_hgetall T (rq_task_key q i) q) (\<lambda>d q.
     if d = [] then (Inr False, q)
     else
       andthen (rq_read (task_of_hash c d) q) (\<lambda>t q.
       andthen (rq_ack T (tp_metadata t) q) (\<lambda>_ q.
       let t = t\<lparr>tp_metadata := dpop ''_redis_stream'' (dpop ''_redis_msg_id'' (tp_metadata t))\<rparr> in
       if retry \<and> task_can_retry t then
         let t = t\<lparr>tp_retry_count := tp_retry_count t + 1\<rparr>;
             delay = backoff (rq_retry_base_delay q) (rq_retry_max_delay q) (tp_retry_count t)
         in andthen (rq_all
           [xs_hset T (rq_task_key q i) (task_hash c t),
            xs_set T (rq_status_key q i) (task_status_value TASK_PENDING) None,
            xs_zadd T (rq_delayed_key q) (uuid_str i) (rq_now now + delay)] q) (\<lambda>_ q. (Inr True, q))
       else
         andthen (rq_all
           ([xs_set T (rq_status_key q i) (task_status_value TASK_FAILED) None,
             xs_hset T (rq_result_key q i)
               [(''status'', task_status_value TASK_FAILED), (''error_code'', code), (''error_message'', msg),
                (''retry_count'', int_str (tp_retry_count t)), (''processed_at'', cd_isoformat c now)],
             xs_expire T (rq_result_key q i) (rq_result_ttl q)] @ rq_unindex T t i q) q) (\<lambda>_ q. (Inr True, q))))))"

definition rq_cancel ::
  "'s redis_streams \<Rightarrow> codec \<Rightarrow> datetime \<Rightarrow> uuid \<Rightarrow> 's redis_queue \<Rightarrow> (redis_failure + bool) \<times> 's redis_queue" where
  "rq_cancel T c now i q =
     andthen (rq_ensure_connected T q) (\<lambda>_ q.
     andthen (rq_ask (xs_get T (rq_status_key q i)) q) (\<lambda>status q.
     if status \<noteq> Some (task_status_value TASK_PENDING) then (Inr False, q)
     else
       andthen (rq_all
         [xs_set T (rq_status_key q i) (task_status_value TASK_CANCELLED) None,
          xs_zrem T (rq_delayed_key q) (uuid_str i),
          xs_hset T (rq_result_key q i)
            [(''status'', task_status_value TASK_CANCELLED), (''error_code'', ''TASK_CANCELLED''),
             (''error_message'', ''Task cancelled by user''), (''processed_at'', cd_isoformat c now)],
          xs_expire T (rq_result_key q i) (rq_result_ttl q)] q) (\<lambda>_ q. (Inr True, q))))"

section \<open>Queries\<close>

definition rq_get ::
  "'s redis_streams \<Rightarrow> codec \<Rightarrow> uuid \<Rightarrow> 's redis_queue \<Rightarrow> (redis_failure + task_payload option) \<times> 's redis_queue" where
  "rq_get T c i q =
     andthen (rq_ensure_connected T q) (\<lambda>_ q.
     andthen (rq_hgetall T (rq_task_key q i) q) (\<lambda>d q.
     if d = [] then (Inr None, q) else andthen (rq_read (task_of_hash c d) q) (\<lambda>t q. (Inr (Some t), q))))"

text \<open>\<open>TaskStatus(s)\<close>.\<close>

definition status_of_value :: "string \<Rightarrow> task_status option" where
  "status_of_value s =
     find (\<lambda>x. task_status_value x = s)
       [TASK_PENDING, TASK_PROCESSING, TASK_COMPLETED, TASK_FAILED, TASK_CANCELLED, TASK_EXPIRED]"

definition text_or_none :: "hash \<Rightarrow> string \<Rightarrow> string option" where
  "text_or_none d k = (if str_true (dget d k) then dget d k else None)"

definition result_of_hash :: "codec \<Rightarrow> (string \<Rightarrow> rat option) \<Rightarrow> uuid \<Rightarrow> hash \<Rightarrow> task_result option" where
  "result_of_hash c read_float i d =
     do {
       status \<leftarrow> Option.bind (dget d ''status'') status_of_value;
       res \<leftarrow> (case text_or_none d ''result'' of None \<Rightarrow> Some JNone | Some s \<Rightarrow> cd_loads c s);
       processed_at \<leftarrow> Option.bind (dget d ''processed_at'') (cd_fromiso c);
       duration_ms \<leftarrow> (case dget d ''duration_ms'' of None \<Rightarrow> Some 0 | Some s \<Rightarrow> read_float s);
       retry_count \<leftarrow> (case dget d ''retry_count'' of None \<Rightarrow> Some 0 | Some s \<Rightarrow> py_int s);
       Some \<lparr>tr_task_id = i, tr_status = status, tr_result = res,
         tr_error_code = text_or_none d ''error_code'', tr_error_message = text_or_none d ''error_message'',
         tr_processed_at = processed_at, tr_duration_ms = duration_ms, tr_retry_count = retry_count\<rparr>
     }"

definition rq_get_result ::
  "'s redis_streams \<Rightarrow> codec \<Rightarrow> uuid \<Rightarrow> 's redis_queue \<Rightarrow> (redis_failure + task_result option) \<times> 's redis_queue" where
  "rq_get_result T c i q =
     andthen (rq_ensure_connected T q) (\<lambda>_ q.
     andthen (rq_hgetall T (rq_result_key q i) q) (\<lambda>d q.
     if d = [] then (Inr None, q)
     else andthen (rq_read (result_of_hash c (rq_read_float q) i d) q) (\<lambda>r q. (Inr (Some r), q))))"

text \<open>How many of the ids of an index have the status pending.\<close>

fun rq_count_pending ::
  "'s redis_streams \<Rightarrow> string list \<Rightarrow> int \<Rightarrow> 's redis_queue \<Rightarrow> (redis_failure + int) \<times> 's redis_queue" where
  "rq_count_pending T [] n q = (Inr n, q)"
| "rq_count_pending T (m # ms) n q =
     andthen (rq_read (uuid_parse m) q) (\<lambda>i q.
     andthen (rq_ask (xs_get T (rq_status_key q i)) q) (\<lambda>status q.
     rq_count_pending T ms (if status = Some (task_status_value TASK_PENDING) then n + 1 else n) q))"

fun rq_stream_lengths ::
  "'s redis_streams \<Rightarrow> task_priority list \<Rightarrow> int \<Rightarrow> 's redis_queue \<Rightarrow> (redis_failure + int) \<times> 's redis_queue" where
  "rq_stream_lengths T [] n q = (Inr n, q)"
| "rq_stream_lengths T (p # ps) n q =
     andthen (rq_ask (xs_xinfo_length T (rq_stream_key q p)) q) (\<lambda>m q. rq_stream_lengths T ps (n + m) q)"

definition rq_size ::
  "'s redis_streams \<Rightarrow> string option \<Rightarrow> 's redis_queue \<Rightarrow> (redis_failure + int) \<times> 's redis_queue" where
  "rq_size T tenant q =
     andthen (rq_ensure_connected T q) (\<lambda>_ q.
     if str_true tenant then
       andthen (rq_ask (xs_smembers T (rq_tenant_index_key q (the tenant))) q) (\<lambda>ids q. rq_count_pending T ids 0 q)
     else rq_stream_lengths T all_priorities 0 q)"

definition rq_pending_by_agent ::
  "'s redis_streams \<Rightarrow> uuid \<Rightarrow> 's redis_queue \<Rightarrow> (redis_failure + int) \<times> 's redis_queue" where
  "rq_pending_by_agent T a q =
     andthen (rq_ensure_connected T q) (\<lambda>_ q.
     andthen (rq_ask (xs_smembers T (rq_agent_index_key q a)) q) (\<lambda>ids q. rq_count_pending T ids 0 q))"

definition rq_clear_expired ::
  "'s redis_streams \<Rightarrow> codec \<Rightarrow> datetime \<Rightarrow> 's redis_queue \<Rightarrow> (redis_failure + int) \<times> 's redis_queue" where
  "rq_clear_expired T c now q =
     andthen (rq_ensure_connected T q) (\<lambda>_ q. andthen (rq_process_delayed_tasks T c now q) (\<lambda>_ q. (Inr 0, q)))"

definition rq_shutdown :: "'s redis_streams \<Rightarrow> 's redis_queue \<Rightarrow> 's redis_queue" where
  "rq_shutdown T q =
     (let q = q\<lparr>rq_closed := True\<rparr> in
      if rq_connected q then q\<lparr>rq_broker := xs_close T (rq_broker q), rq_connected := False\<rparr> else q)"

end
