(* ===== verification/Redis_Queue_Props.thy ===== *)
theory Redis_Queue_Props
  imports Redis_Queue
begin

text \<open>
  What \<open>src/queue/redis_queue.py\<close> stores and reads back over a Redis that keeps what it is given, and what it does
  not do: acknowledge a message, or respect a cancellation.
\<close>

section \<open>The laws of the client\<close>

text \<open>
  The hashes \<open>H\<close> and the texts \<open>V\<close> of a state, on the keys \<open>hs\<close> and \<open>vs\<close> that hold them: \<open>HSET\<close> merges fields
  into a hash, \<open>SET\<close> writes a text, and the other commands the queue settles tasks with leave both alone.
\<close>

definition quiet ::
  "string set \<Rightarrow> string set \<Rightarrow> ('s \<Rightarrow> string \<Rightarrow> hash) \<Rightarrow> ('s \<Rightarrow> string \<Rightarrow> string option) \<Rightarrow> ('s \<Rightarrow> bool \<times> 's) \<Rightarrow> bool" where
  "quiet hs vs H V f =
     (\<forall>s. fst (f s) \<and> (\<forall>k\<in>hs. H (snd (f s)) k = H s k) \<and> (\<forall>k\<in>vs. V (snd (f s)) k = V s k))"

definition streams_ok ::
  "string set \<Rightarrow> string set \<Rightarrow> ('s \<Rightarrow> string \<Rightarrow> hash) \<Rightarrow> ('s \<Rightarrow> string \<Rightarrow> string option) \<Rightarrow> 's redis_streams \<Rightarrow> bool" where
  "streams_ok hs vs H V T =
     ((\<forall>k\<in>hs. \<forall>s. xs_hgetall T k s = (Some (H s k), s)) \<and>
      (\<forall>k\<in>vs. \<forall>s. xs_get T k s = (Some (V s k), s)) \<and>
      (\<forall>k\<in>hs. \<forall>m s. fst (xs_hset T k m s) \<and> (\<forall>j\<in>hs. H (snd (xs_hset T k m s)) j =
         (if j = k then dict_merge (H s k) m else H s j)) \<and> (\<forall>j\<in>vs. V (snd (xs_hset T k m s)) j = V s j)) \<and>
      (\<forall>k\<in>vs. \<forall>v ex s. fst (xs_set T k v ex s) \<and> (\<forall>j\<in>vs. V (snd (xs_set T k v ex s)) j =
         (if j = k then Some v else V s j)) \<and> (\<forall>j\<in>hs. H (snd (xs_set T k v ex s)) j = H s j)) \<and>
      (\<forall>k ttl. 0 < ttl \<longrightarrow> quiet hs vs H V (xs_expire T k ttl)) \<and>
      (\<forall>k m. k \<notin> hs \<union> vs \<longrightarrow> quiet hs vs H V (xs_srem T k m)) \<and>
      (\<forall>k m x. k \<notin> hs \<union> vs \<longrightarrow> quiet hs vs H V (xs_zadd T k m x)) \<and>
      (\<forall>k g m. k \<notin> JStr ` (hs \<union> vs) \<longrightarrow> quiet hs vs H V (xs_xack T k g m)))"

definition hash_keys :: "'s redis_queue \<Rightarrow> string set" where
  "hash_keys q = range (rq_task_key q) \<union> range (rq_result_key q)"

definition text_keys :: "'s redis_queue \<Rightarrow> string set" where
  "text_keys q = range (rq_status_key q)"

definition rq_ok :: "('s \<Rightarrow> string \<Rightarrow> hash) \<Rightarrow> ('s \<Rightarrow> string \<Rightarrow> string option) \<Rightarrow> 's redis_streams \<Rightarrow> codec \<Rightarrow> 's redis_queue \<Rightarrow> bool" where
  "rq_ok H V T c q =
     (streams_ok (hash_keys q) (text_keys q) H V T \<and> codec_ok c \<and> rq_connected q \<and> 0 < rq_result_ttl q \<and>
      (\<forall>x. rq_read_float q (rq_show_float q x) = Some x))"

lemma rq_keys [simp]:
  "rq_task_key q i \<in> hash_keys q" "rq_result_key q i \<in> hash_keys q" "rq_status_key q i \<in> text_keys q"
  "rq_task_key q i \<noteq> rq_result_key q j" "rq_result_key q j \<noteq> rq_task_key q i"
  by (simp_all add: hash_keys_def text_keys_def rq_task_key_def rq_result_key_def)

lemma rq_other_keys [simp]:
  "rq_tenant_index_key q t \<notin> hash_keys q \<union> text_keys q" "rq_agent_index_key q a \<notin> hash_keys q \<union> text_keys q"
  "rq_delayed_key q \<notin> hash_keys q \<union> text_keys q"
  by (auto simp: hash_keys_def text_keys_def rq_tenant_index_key_def rq_agent_index_key_def rq_delayed_key_def
      rq_task_key_def rq_result_key_def rq_status_key_def)

lemma rq_keys_broker [simp]:
  "rq_task_key (q\<lparr>rq_broker := b\<rparr>) i = rq_task_key q i" "rq_result_key (q\<lparr>rq_broker := b\<rparr>) i = rq_result_key q i"
  "rq_status_key (q\<lparr>rq_broker := b\<rparr>) i = rq_status_key q i" "rq_delayed_key (q\<lparr>rq_broker := b\<rparr>) = rq_delayed_key q"
  "rq_tenant_index_key (q\<lparr>rq_broker := b\<rparr>) t = rq_tenant_index_key q t"
  "rq_agent_index_key (q\<lparr>rq_broker := b\<rparr>) a = rq_agent_index_key q a"
  "hash_keys (q\<lparr>rq_broker := b\<rparr>) = hash_keys q" "text_keys (q\<lparr>rq_broker := b\<rparr>) = text_keys q"
  by (simp_all add: rq_task_key_def rq_result_key_def rq_status_key_def rq_delayed_key_def hash_keys_def text_keys_def
      rq_tenant_index_key_def rq_agent_index_key_def rq_task_key_def [abs_def] rq_result_key_def [abs_def] rq_status_key_def [abs_def])

lemma rq_okD:
  assumes "rq_ok H V T c q"
  shows "codec_ok c" "rq_connected q" "0 < rq_result_ttl q" "rq_read_float q (rq_show_float q x) = Some x"
    "k \<in> hash_keys q \<Longrightarrow> xs_hgetall T k s = (Some (H s k), s)"
    "k \<in> text_keys q \<Longrightarrow> xs_get T k s = (Some (V s k), s)"
  using assms by (simp_all add: rq_ok_def streams_ok_def)

lemma rq_hset:
  assumes "rq_ok H V T c q" and "k \<in> hash_keys q"
  shows "fst (xs_hset T k m s)" "j \<in> hash_keys q \<Longrightarrow> H (snd (xs_hset T k m s)) j = (if j = k then dict_merge (H s k) m else H s j)"
    "j \<in> text_keys q \<Longrightarrow> V (snd (xs_hset T k m s)) j = V s j"
  using assms by (simp_all add: rq_ok_def streams_ok_def)

lemma rq_set:
  assumes "rq_ok H V T c q" and "k \<in> text_keys q"
  shows "fst (xs_set T k v ex s)" "j \<in> text_keys q \<Longrightarrow> V (snd (xs_set T k v ex s)) j = (if j = k then Some v else V s j)"
    "j \<in> hash_keys q \<Longrightarrow> H (snd (xs_set T k v ex s)) j = H s j"
  using assms by (simp_all add: rq_ok_def streams_ok_def)

lemma rq_quiet:
  assumes "rq_ok H V T c q"
  shows "0 < ttl \<Longrightarrow> quiet (hash_keys q) (text_keys q) H V (xs_expire T k ttl)"
    "k \<notin> hash_keys q \<union> text_keys q \<Longrightarrow> quiet (hash_keys q) (text_keys q) H V (xs_srem T k m)"
    "k \<notin> hash_keys q \<union> text_keys q \<Longrightarrow> quiet (hash_keys q) (text_keys q) H V (xs_zadd T k m x)"
    "stream \<notin> JStr ` (hash_keys q \<union> text_keys q) \<Longrightarrow> quiet (hash_keys q) (text_keys q) H V (xs_xack T stream g n)"
  using assms by (simp_all add: rq_ok_def streams_ok_def)

lemma quietD:
  assumes "quiet hs vs H V f"
  shows "fst (f s)" "k \<in> hs \<Longrightarrow> H (snd (f s)) k = H s k" "j \<in> vs \<Longrightarrow> V (snd (f s)) j = V s j"
  using assms by (simp_all add: quiet_def)

lemma rq_do_eq: "fst (f (rq_broker q)) \<Longrightarrow> rq_do f q = (Inr (), q\<lparr>rq_broker := snd (f (rq_broker q))\<rparr>)"
  by (simp add: rq_do_def case_prod_beta)

text \<open>A list of quiet commands.\<close>

lemma rq_all_quiet:
  "\<forall>f\<in>set fs. quiet hs vs H V f \<Longrightarrow>
     \<exists>b. rq_all fs q = (Inr (), q\<lparr>rq_broker := b\<rparr>) \<and> (\<forall>k\<in>hs. H b k = H (rq_broker q) k) \<and> (\<forall>k\<in>vs. V b k = V (rq_broker q) k)"
proof (induction fs arbitrary: q)
  case Nil
  then show ?case by (intro exI [of _ "rq_broker q"]) simp
next
  case (Cons f fs)
  have f: "fst (f (rq_broker q))" "\<forall>k\<in>hs. H (snd (f (rq_broker q))) k = H (rq_broker q) k"
    "\<forall>k\<in>vs. V (snd (f (rq_broker q))) k = V (rq_broker q) k"
    using Cons.prems by (simp_all add: quiet_def)
  show ?case using Cons.IH [of "q\<lparr>rq_broker := snd (f (rq_broker q))\<rparr>"] Cons.prems f by (auto simp: rq_do_eq)
qed

lemma rq_ack_quiet:
  assumes "rq_ok H V T c q" and "pget meta ''_redis_stream'' JNone \<notin> JStr ` (hash_keys q \<union> text_keys q)"
  shows "\<exists>b. rq_ack T meta q = (Inr (), q\<lparr>rq_broker := b\<rparr>) \<and> (\<forall>k\<in>hash_keys q. H b k = H (rq_broker q) k) \<and>
    (\<forall>k\<in>text_keys q. V b k = V (rq_broker q) k)"
proof -
  have "rq_ack T meta q = (Inr (), q\<lparr>rq_broker := rq_broker q\<rparr>) \<or>
      rq_ack T meta q = rq_all [xs_xack T (pget meta ''_redis_stream'' JNone) (rq_group q) (pget meta ''_redis_msg_id'' JNone)] q"
    by (cases "rq_do (xs_xack T (pget meta ''_redis_stream'' JNone) (rq_group q) (pget meta ''_redis_msg_id'' JNone)) q")
      (auto simp: rq_ack_def Let_def andthen_def split: sum.split)
  then show ?thesis
  proof
    assume "rq_ack T meta q = (Inr (), q\<lparr>rq_broker := rq_broker q\<rparr>)"
    then show ?thesis by blast
  next
    assume run: "rq_ack T meta q = rq_all [xs_xack T (pget meta ''_redis_stream'' JNone) (rq_group q) (pget meta ''_redis_msg_id'' JNone)] q"
    show ?thesis unfolding run by (rule rq_all_quiet) (simp add: rq_quiet(4) [OF assms])
  qed
qed

lemma rq_ok_broker: "rq_ok H V T c q \<Longrightarrow> rq_ok H V T c (q\<lparr>rq_broker := b\<rparr>)"
  by (simp add: rq_ok_def)

text \<open>A hash and a status written, then quiet commands.\<close>

lemma rq_write:
  assumes ok: "rq_ok H V T c q" and k: "k \<in> hash_keys q" and j: "j \<in> text_keys q"
    and fs: "\<forall>f\<in>set fs. quiet (hash_keys q) (text_keys q) H V f"
  shows "\<exists>b. rq_all (xs_set T j v None # xs_hset T k m # fs) q = (Inr (), q\<lparr>rq_broker := b\<rparr>) \<and>
    (\<forall>l\<in>hash_keys q. H b l = (if l = k then dict_merge (H (rq_broker q) k) m else H (rq_broker q) l)) \<and>
    (\<forall>l\<in>text_keys q. V b l = (if l = j then Some v else V (rq_broker q) l))"
proof -
  let ?s = "snd (xs_hset T k m (snd (xs_set T j v None (rq_broker q))))"
  have "rq_all (xs_set T j v None # xs_hset T k m # fs) q = rq_all fs (q\<lparr>rq_broker := ?s\<rparr>)"
    by (simp add: rq_do_eq rq_set(1) [OF ok j] rq_hset(1) [OF ok k])
  then show ?thesis using rq_all_quiet [OF fs, of "q\<lparr>rq_broker := ?s\<rparr>"]
    by (auto simp: rq_set [OF ok j] rq_hset [OF ok k] k)
qed

lemma unindex_quiet:
  "rq_ok H V T c q \<Longrightarrow> \<forall>f\<in>set (rq_unindex T t i (q\<lparr>rq_broker := b\<rparr>)). quiet (hash_keys q) (text_keys q) H V f"
  using rq_other_keys [of q] by (auto simp: rq_unindex_def rq_quiet split: option.split)

section \<open>What is stored is read back\<close>

lemma status_of_value [simp]: "status_of_value (task_status_value s) = Some s"
  by (cases s) (simp_all add: status_of_value_def)

lemma dget_merge_Nil: "dict_ok m \<Longrightarrow> dget (dict_merge [] m) k = dget m k"
  by (simp add: dget_dict_merge split: option.split)

lemma rq_get_result_eq:
  assumes ok: "rq_ok H V T c q"
  shows "fst (rq_get_result T c i q) =
    (if H (rq_broker q) (rq_result_key q i) = [] then Inr None
     else case result_of_hash c (rq_read_float q) i (H (rq_broker q) (rq_result_key q i)) of
       None \<Rightarrow> Inl RedisUnreadable | Some r \<Rightarrow> Inr (Some r))"
  by (simp add: rq_get_result_def rq_ensure_connected_def rq_okD(2) [OF ok] rq_hgetall_def rq_ask_def rq_okD(5) [OF ok]
      rq_read_def split: option.split)

definition stored_result :: "uuid \<Rightarrow> task_result \<Rightarrow> task_result" where
  "stored_result i r =
     r\<lparr>tr_task_id := i, tr_result := (if py_bool (tr_result r) then tr_result r else JNone),
       tr_error_code := None, tr_error_message := None, tr_retry_count := 0\<rparr>"

lemma result_of_completed:
  assumes "codec_ok c" and "\<And>x. rd (sh x) = Some x"
  shows "result_of_hash c rd i (dict_merge [] [(''status'', task_status_value (tr_status r)),
      (''result'', if py_bool (tr_result r) then cd_dumps c (tr_result r) else []),
      (''processed_at'', cd_isoformat c (tr_processed_at r)), (''duration_ms'', sh (tr_duration_ms r))]) =
    Some (stored_result i r)"
proof -
  let ?m = "[(''status'', task_status_value (tr_status r)),
      (''result'', if py_bool (tr_result r) then cd_dumps c (tr_result r) else []),
      (''processed_at'', cd_isoformat c (tr_processed_at r)), (''duration_ms'', sh (tr_duration_ms r))]"
  have get: "dget (dict_merge [] ?m) k = dget ?m k" for k by (rule dget_merge_Nil) (simp add: dict_ok_def)
  show ?thesis unfolding result_of_hash_def text_or_none_def get
    by (cases r) (simp add: assms stored_result_def)
qed

text \<open>Completing a stored task that has no result yet answers True, sets its status to completed, and the result
  can be read back: its status, time and duration, and its value when that is truthy, but neither an error nor
  the number of retries.\<close>

theorem redis_result_readback:
  assumes "rq_ok H V T c q" and "task_of_hash c (H (rq_broker q) (rq_task_key q i)) = Some t"
    and "H (rq_broker q) (rq_task_key q i) \<noteq> []" and "H (rq_broker q) (rq_result_key q i) = []"
    and "pget (tp_metadata t) ''_redis_stream'' JNone \<notin> JStr ` (hash_keys q \<union> text_keys q)"
  shows "\<exists>q'. rq_complete T c i r q = (Inr True, q') \<and> fst (rq_get_result T c i q') = Inr (Some (stored_result i r)) \<and>
    V (rq_broker q') (rq_status_key q i) = Some (task_status_value TASK_COMPLETED)"
proof -
  note ok = assms(1)
  obtain b where b: "rq_ack T (tp_metadata t) q = (Inr (), q\<lparr>rq_broker := b\<rparr>)"
      "\<forall>k\<in>hash_keys q. H b k = H (rq_broker q) k"
    using rq_ack_quiet [OF ok assms(5)] by blast
  let ?q = "q\<lparr>rq_broker := b\<rparr>"
  let ?m = "[(''status'', task_status_value (tr_status r)),
              (''result'', if py_bool (tr_result r) then cd_dumps c (tr_result r) else []),
              (''processed_at'', cd_isoformat c (tr_processed_at r)),
              (''duration_ms'', rq_show_float q (tr_duration_ms r))]"
  let ?fs = "xs_expire T (rq_result_key q i) (rq_result_ttl q) # rq_unindex T t i ?q"
  have "\<forall>f\<in>set ?fs. quiet (hash_keys ?q) (text_keys ?q) H V f"
    using unindex_quiet [OF ok, of t i b] rq_quiet(1) [OF ok rq_okD(3) [OF ok]] by simp
  from rq_write [OF rq_ok_broker [OF ok] _ _ this, of "rq_result_key q i" "rq_status_key q i"
      "task_status_value TASK_COMPLETED" ?m]
  obtain b' where b': "rq_all (xs_set T (rq_status_key q i) (task_status_value TASK_COMPLETED) None #
        xs_hset T (rq_result_key q i) ?m # ?fs) ?q = (Inr (), ?q\<lparr>rq_broker := b'\<rparr>)"
      "\<forall>l\<in>hash_keys q. H b' l = (if l = rq_result_key q i then dict_merge (H b (rq_result_key q i)) ?m else H b l)"
      "\<forall>l\<in>text_keys q. V b' l = (if l = rq_status_key q i then Some (task_status_value TASK_COMPLETED) else V b l)"
    by auto
  have run: "rq_complete T c i r q = (Inr True, ?q\<lparr>rq_broker := b'\<rparr>)"
    using b(1) b'(1) assms(2,3)
    by (simp add: rq_complete_def rq_ensure_connected_def rq_okD(2) [OF ok] rq_hgetall_def rq_ask_def rq_okD(5) [OF ok]
        rq_read_def)
  have "H b' (rq_result_key q i) = dict_merge [] ?m" using b'(2) b(2) assms(4) by simp
  moreover have "dict_merge [] ?m \<noteq> []"
    using dget_merge_Nil [of ?m "''status''"] by (auto simp: dict_ok_def)
  ultimately have "fst (rq_get_result T c i (?q\<lparr>rq_broker := b'\<rparr>)) = Inr (Some (stored_result i r))"
    using rq_get_result_eq [OF rq_ok_broker [OF ok], of i b']
      result_of_completed [OF rq_okD(1) [OF ok], of "rq_read_float q" "rq_show_float q" i r] rq_okD(4) [OF ok] by simp
  then show ?thesis using run b'(3) by auto
qed

lemma task_of_hash_cong: "(\<And>k. k \<in> fst ` set (task_hash c t) \<Longrightarrow> dget d k = dget e k) \<Longrightarrow> task_of_hash c d = task_of_hash c e"
  by (simp add: task_of_hash_def task_hash_def hash_uuid_def dget_or_def)

lemma task_hash_merge: "task_of_hash c (dict_merge d (task_hash c t)) = task_of_hash c (task_hash c t)"
proof (rule task_of_hash_cong [of c t])
  fix k assume k: "k \<in> fst ` set (task_hash c t)"
  have "dict_ok (task_hash c t)" by (simp add: dict_ok_def task_hash_def)
  moreover have "dget (task_hash c t) k \<noteq> None" using k by (simp add: map_of_eq_None_iff)
  ultimately show "dget (dict_merge d (task_hash c t)) k = dget (task_hash c t) k"
    by (auto simp: dget_dict_merge)
qed

definition without_message :: "task_payload \<Rightarrow> task_payload" where
  "without_message t = t\<lparr>tp_metadata := dpop ''_redis_stream'' (dpop ''_redis_msg_id'' (tp_metadata t))\<rparr>"

definition failed_result :: "datetime \<Rightarrow> uuid \<Rightarrow> string \<Rightarrow> string \<Rightarrow> int \<Rightarrow> task_result" where
  "failed_result now i code msg n =
     (new_task_result i TASK_FAILED now)\<lparr>tr_error_code := (if code = [] then None else Some code),
       tr_error_message := (if msg = [] then None else Some msg), tr_retry_count := n\<rparr>"

lemma result_of_failed:
  assumes "codec_ok c"
  shows "result_of_hash c rd i (dict_merge [] [(''status'', task_status_value TASK_FAILED), (''error_code'', code),
      (''error_message'', msg), (''retry_count'', int_str n), (''processed_at'', cd_isoformat c now)]) =
    Some (failed_result now i code msg n)"
proof -
  let ?m = "[(''status'', task_status_value TASK_FAILED), (''error_code'', code),
      (''error_message'', msg), (''retry_count'', int_str n), (''processed_at'', cd_isoformat c now)]"
  have get: "dget (dict_merge [] ?m) k = dget ?m k" for k by (rule dget_merge_Nil) (simp add: dict_ok_def)
  have "status_of_value ''failed'' = Some TASK_FAILED" using status_of_value [of TASK_FAILED] by simp
  then show ?thesis unfolding result_of_hash_def text_or_none_def get
    by (simp add: assms failed_result_def new_task_result_def)
qed

text \<open>Failing a stored task answers True. With a retry asked for and left, the task is stored with one retry more
  and is pending again; otherwise its status is failed and the error and the number of retries can be read back.\<close>

theorem redis_fail_outcome:
  assumes "rq_ok H V T c q" and "task_of_hash c (H (rq_broker q) (rq_task_key q i)) = Some t"
    and "H (rq_broker q) (rq_task_key q i) \<noteq> []" and "H (rq_broker q) (rq_result_key q i) = []"
    and "pget (tp_metadata t) ''_redis_stream'' JNone \<notin> JStr ` (hash_keys q \<union> text_keys q)"
  shows "\<exists>q'. rq_fail T c now i code msg retry q = (Inr True, q') \<and>
    (if retry \<and> task_can_retry t
     then task_of_hash c (H (rq_broker q') (rq_task_key q i)) =
         Some (no_empty_conn ((without_message t)\<lparr>tp_retry_count := tp_retry_count t + 1\<rparr>)) \<and>
       V (rq_broker q') (rq_status_key q i) = Some (task_status_value TASK_PENDING)
     else fst (rq_get_result T c i q') = Inr (Some (failed_result now i code msg (tp_retry_count t))) \<and>
       V (rq_broker q') (rq_status_key q i) = Some (task_status_value TASK_FAILED))"
proof -
  note ok = assms(1)
  obtain b where b: "rq_ack T (tp_metadata t) q = (Inr (), q\<lparr>rq_broker := b\<rparr>)"
      "\<forall>k\<in>hash_keys q. H b k = H (rq_broker q) k"
    using rq_ack_quiet [OF ok assms(5)] by blast
  let ?q = "q\<lparr>rq_broker := b\<rparr>" and ?w = "without_message t"
  have start: "rq_fail T c now i code msg retry q =
      (if retry \<and> task_can_retry t then
         let t = ?w\<lparr>tp_retry_count := tp_retry_count t + 1\<rparr>;
             delay = backoff (rq_retry_base_delay q) (rq_retry_max_delay q) (tp_retry_count t)
         in andthen (rq_all
           [xs_hset T (rq_task_key q i) (task_hash c t),
            xs_set T (rq_status_key q i) (task_status_value TASK_PENDING) None,
            xs_zadd T (rq_delayed_key q) (uuid_str i) (rq_now now + delay)] ?q) (\<lambda>_ q. (Inr True, q))
       else
         andthen (rq_all
           (xs_set T (rq_status_key q i) (task_status_value TASK_FAILED) None #
             xs_hset T (rq_result_key q i)
               [(''status'', task_status_value TASK_FAILED), (''error_code'', code), (''error_message'', msg),
                (''retry_count'', int_str (tp_retry_count t)), (''processed_at'', cd_isoformat c now)] #
             xs_expire T (rq_result_key q i) (rq_result_ttl q) # rq_unindex T ?w i ?q) ?q) (\<lambda>_ q. (Inr True, q)))"
    using b(1) assms(2,3)
    by (simp add: rq_fail_def rq_ensure_connected_def rq_okD(2) [OF ok] rq_hgetall_def rq_ask_def rq_okD(5) [OF ok]
        rq_read_def without_message_def task_can_retry_def Let_def)
  show ?thesis
  proof (cases "retry \<and> task_can_retry t")
    case True
    let ?t = "?w\<lparr>tp_retry_count := tp_retry_count t + 1\<rparr>"
    let ?s1 = "snd (xs_hset T (rq_task_key q i) (task_hash c ?t) b)"
    let ?s2 = "snd (xs_set T (rq_status_key q i) (task_status_value TASK_PENDING) None ?s1)"
    let ?z = "xs_zadd T (rq_delayed_key q) (uuid_str i) (rq_now now +
        backoff (rq_retry_base_delay q) (rq_retry_max_delay q) (tp_retry_count t + 1))"
    note z = quietD [OF rq_quiet(3) [OF ok rq_other_keys(3)]]
    have run: "rq_fail T c now i code msg retry q = (Inr True, ?q\<lparr>rq_broker := snd (?z ?s2)\<rparr>)"
      using True start by (simp add: Let_def rq_do_eq rq_hset(1) [OF ok] rq_set(1) [OF ok] z(1))
    have "H (snd (?z ?s2)) (rq_task_key q i) = dict_merge (H b (rq_task_key q i)) (task_hash c ?t)"
      by (simp add: z(2) rq_set(3) [OF ok] rq_hset(2) [OF ok])
    moreover have "V (snd (?z ?s2)) (rq_status_key q i) = Some (task_status_value TASK_PENDING)"
      by (simp add: z(3) rq_set(2) [OF ok])
    ultimately show ?thesis using True run by (simp add: task_hash_merge rq_okD(1) [OF ok])
  next
    case False
    let ?m = "[(''status'', task_status_value TASK_FAILED), (''error_code'', code), (''error_message'', msg),
                (''retry_count'', int_str (tp_retry_count t)), (''processed_at'', cd_isoformat c now)]"
    let ?fs = "xs_expire T (rq_result_key q i) (rq_result_ttl q) # rq_unindex T ?w i ?q"
    have "\<forall>f\<in>set ?fs. quiet (hash_keys ?q) (text_keys ?q) H V f"
      using unindex_quiet [OF ok, of ?w i b] rq_quiet(1) [OF ok rq_okD(3) [OF ok]] by simp
    from rq_write [OF rq_ok_broker [OF ok] _ _ this, of "rq_result_key q i" "rq_status_key q i"
        "task_status_value TASK_FAILED" ?m]
    obtain b' where b': "rq_all (xs_set T (rq_status_key q i) (task_status_value TASK_FAILED) None #
          xs_hset T (rq_result_key q i) ?m # ?fs) ?q = (Inr (), ?q\<lparr>rq_broker := b'\<rparr>)"
        "\<forall>l\<in>hash_keys q. H b' l = (if l = rq_result_key q i then dict_merge (H b (rq_result_key q i)) ?m else H b l)"
        "\<forall>l\<in>text_keys q. V b' l = (if l = rq_status_key q i then Some (task_status_value TASK_FAILED) else V b l)"
      by auto
    have run: "rq_fail T c now i code msg retry q = (Inr True, ?q\<lparr>rq_broker := b'\<rparr>)"
      using start False b'(1) by auto
    have "H b' (rq_result_key q i) = dict_merge [] ?m" using b'(2) b(2) assms(4) by simp
    moreover have "dict_merge [] ?m \<noteq> []"
      using dget_merge_Nil [of ?m "''status''"] by (auto simp: dict_ok_def)
    ultimately have "fst (rq_get_result T c i (?q\<lparr>rq_broker := b'\<rparr>)) = Inr (Some (failed_result now i code msg (tp_retry_count t)))"
      using rq_get_result_eq [OF rq_ok_broker [OF ok], of i b']
        result_of_failed [OF rq_okD(1) [OF ok], of "rq_read_float q" i code msg "tp_retry_count t" now] by simp
    then show ?thesis using run b'(3) False by auto
  qed
qed

section \<open>What the queue does not do\<close>

text \<open>Whatever its status says, a task whose message is delivered is handed out and set to processing: also a cancelled one.\<close>

lemma redis_cancelled_is_delivered:
  assumes ok: "rq_ok H V T c q"
    and "xs_xreadgroup T (rq_group q) (rq_consumer q) (rq_stream_key q p) block (rq_broker q) =
      (Some [(m, [(''task_id'', uuid_str i)])], b)"
    and "task_of_hash c (H b (rq_task_key q i)) = Some t" and "H b (rq_task_key q i) \<noteq> []"
    and "V b (rq_status_key q i) = Some (task_status_value TASK_CANCELLED)"
    and "\<not> task_is_expired now t"
  shows "\<exists>t' q'. rq_try T c now None block p q = (Inr (Some t'), q') \<and> tp_task_id t' = tp_task_id t \<and>
    V (rq_broker q') (rq_status_key q i) = Some (task_status_value TASK_PROCESSING)"
  using assms(2-4,6)
  by (auto simp: rq_try_def rq_ask_def rq_read_def rq_hgetall_def rq_okD(5) [OF ok] rq_do_eq rq_set [OF ok] Let_def)

text \<open>The message of a task whose stored metadata does not name it, as \<open>enqueue\<close> stores it, is never acknowledged.\<close>

lemma unindex_xack: "rq_unindex (T\<lparr>xs_xack := f\<rparr>) t i q = rq_unindex T t i q"
  by (simp add: rq_unindex_def split: option.split)

lemma redis_never_acks:
  assumes ok: "rq_ok H V T c q" and "task_of_hash c (H (rq_broker q) (rq_task_key q i)) = Some t"
    and "dget (tp_metadata t) ''_redis_msg_id'' = None"
  shows "rq_complete (T\<lparr>xs_xack := f\<rparr>) c i r q = rq_complete T c i r q"
  using assms(2,3)
  by (simp add: rq_complete_def rq_ensure_connected_def rq_okD(2) [OF ok] rq_hgetall_def rq_ask_def rq_okD(5) [OF ok]
      rq_read_def rq_ack_def dget_or_def unindex_xack Let_def)

section \<open>A client that keeps its keys in lists\<close>

type_synonym ex_streams_state = "(string, hash) pydict \<times> (string, string) pydict"

definition ex_streams :: "ex_streams_state redis_streams" where
  "ex_streams =
     \<lparr>xs_xgroup_create = \<lambda>k g s. (None, s),
      xs_hset = \<lambda>k m s. (True, (dset k (dict_merge (dget_or (fst s) k []) m) (fst s), snd s)),
      xs_hgetall = \<lambda>k s. (Some (dget_or (fst s) k []), s), xs_expire = \<lambda>k n s. (True, s),
      xs_set = \<lambda>k v ex s. (True, (fst s, dset k v (snd s))), xs_get = \<lambda>k s. (Some (dget (snd s) k), s),
      xs_sadd = \<lambda>k m s. (True, s), xs_srem = \<lambda>k m s. (True, s), xs_smembers = \<lambda>k s. (Some [], s),
      xs_zadd = \<lambda>k m x s. (True, s), xs_zrem = \<lambda>k m s. (True, s), xs_zrangebyscore = \<lambda>k a b n s. (Some [], s),
      xs_xadd = \<lambda>k m s. (True, s), xs_xreadgroup = \<lambda>g w k b s. (Some [], s), xs_xack = \<lambda>k g m s. (True, s),
      xs_xinfo_length = \<lambda>k s. (Some 0, s), xs_close = id\<rparr>"

definition ex_H :: "ex_streams_state \<Rightarrow> string \<Rightarrow> hash" where
  "ex_H s k = dget_or (fst s) k []"

definition ex_V :: "ex_streams_state \<Rightarrow> string \<Rightarrow> string option" where
  "ex_V s k = dget (snd s) k"

definition ex_redis_task :: task_payload where
  "ex_redis_task = (new_task_payload 7 0)\<lparr>tp_tenant_id := ''acme''\<rparr>"

definition ex_redis_queue :: "ex_streams_state redis_queue" where
  "ex_redis_queue =
     (rq_init ''lip'' ''g'' None ''w'' 1 60 3600 (\<lambda>x. cd_dumps ex_codec (JFloat x))
       (\<lambda>t. case cd_loads ex_codec t of Some (JFloat x) \<Rightarrow> Some x | _ \<Rightarrow> None)
       ([(''lip:task:'' @ uuid_str 7, task_hash ex_codec ex_redis_task)], []))\<lparr>rq_connected := True\<rparr>"

lemma ex_redis_queue_ok: "rq_ok ex_H ex_V ex_streams ex_codec ex_redis_queue"
proof -
  have "streams_ok hs vs ex_H ex_V ex_streams" for hs vs
    by (simp add: streams_ok_def quiet_def ex_streams_def ex_H_def ex_V_def dget_or_def)
  then show ?thesis by (simp add: rq_ok_def ex_redis_queue_def rq_init_def)
qed

lemma ex_redis_task_stored:
  "task_of_hash ex_codec (ex_H (rq_broker ex_redis_queue) (rq_task_key ex_redis_queue 7)) = Some ex_redis_task"
  "ex_H (rq_broker ex_redis_queue) (rq_task_key ex_redis_queue 7) \<noteq> []"
  "ex_H (rq_broker ex_redis_queue) (rq_result_key ex_redis_queue 7) = []"
  "pget (tp_metadata ex_redis_task) ''_redis_stream'' JNone \<notin> JStr ` (hash_keys ex_redis_queue \<union> text_keys ex_redis_queue)"
proof -
  have h: "ex_H (rq_broker ex_redis_queue) (rq_task_key ex_redis_queue 7) = task_hash ex_codec ex_redis_task"
    by (simp add: ex_H_def ex_redis_queue_def rq_init_def rq_task_key_def dget_or_def)
  have "no_empty_conn ex_redis_task = ex_redis_task"
    by (simp add: no_empty_conn_def ex_redis_task_def new_task_payload_def)
  then show "task_of_hash ex_codec (ex_H (rq_broker ex_redis_queue) (rq_task_key ex_redis_queue 7)) = Some ex_redis_task"
    by (simp add: h)
  show "ex_H (rq_broker ex_redis_queue) (rq_task_key ex_redis_queue 7) \<noteq> []" by (simp add: h task_hash_def)
  show "ex_H (rq_broker ex_redis_queue) (rq_result_key ex_redis_queue 7) = []"
    by (simp add: ex_H_def ex_redis_queue_def rq_init_def rq_result_key_def dget_or_def)
qed (auto simp: ex_redis_task_def new_task_payload_def dget_or_def)

theorem redis_result_readback_witness:
  "\<exists>q'. rq_complete ex_streams ex_codec 7 (new_task_result 7 TASK_COMPLETED 5) ex_redis_queue = (Inr True, q') \<and>
     fst (rq_get_result ex_streams ex_codec 7 q') = Inr (Some (new_task_result 7 TASK_COMPLETED 5))"
proof -
  have "stored_result 7 (new_task_result 7 TASK_COMPLETED 5) = new_task_result 7 TASK_COMPLETED 5"
    by (simp add: stored_result_def new_task_result_def)
  then show ?thesis
    using redis_result_readback [OF ex_redis_queue_ok ex_redis_task_stored, of "new_task_result 7 TASK_COMPLETED 5"] by auto
qed

theorem redis_fail_outcome_witness:
  "\<exists>q'. rq_fail ex_streams ex_codec 9 7 ''E'' ''m'' True ex_redis_queue = (Inr True, q') \<and>
     map_option tp_retry_count (task_of_hash ex_codec (ex_H (rq_broker q') (rq_task_key ex_redis_queue 7))) = Some 1"
proof -
  have "task_can_retry ex_redis_task" "tp_retry_count ex_redis_task = 0"
    by (simp_all add: task_can_retry_def ex_redis_task_def new_task_payload_def)
  then show ?thesis
    using redis_fail_outcome [OF ex_redis_queue_ok ex_redis_task_stored, of 9 "''E''" "''m''" True]
    by (auto simp: no_empty_conn_def)
qed

end
