(* ===== verification/Storage_Ports.thy ===== *)
theory Storage_Ports
  imports Storage_Memory "HOL-Library.Sublist"
begin

text \<open>
  The contract of \<open>SessionStore\<close> in \<open>src/storage/ports.py\<close> as the locale \<open>session_port\<close>: what a lookup
  returns after each operation. Its clients' lemma is that the record of a session only moves forward;
  the in-memory adapter is an instance. The contract of \<open>ExecStore\<close> is in \<open>Storage_Memory\<close>, that of
  \<open>TaskQueue\<close> in \<open>Task_Ports\<close>.
\<close>

section \<open>The contract of \<open>SessionStore\<close>\<close>

datatype session_call =
    CallCreate session_record
  | CallOffer uuid payload
  | CallSelect datetime uuid string uuid string "string option" "string option"
  | CallClose datetime uuid "string option"
  | CallExpire datetime datetime

fun port_call ::
  "(session_record \<Rightarrow> 's \<Rightarrow> session_record \<times> 's) \<Rightarrow> (uuid \<Rightarrow> payload \<Rightarrow> 's \<Rightarrow> session_record option \<times> 's) \<Rightarrow>
   (datetime \<Rightarrow> uuid \<Rightarrow> string \<Rightarrow> uuid \<Rightarrow> string \<Rightarrow> string option \<Rightarrow> string option \<Rightarrow> 's \<Rightarrow> session_record option \<times> 's) \<Rightarrow>
   (datetime \<Rightarrow> uuid \<Rightarrow> string option \<Rightarrow> 's \<Rightarrow> session_record option \<times> 's) \<Rightarrow> (datetime \<Rightarrow> datetime \<Rightarrow> 's \<Rightarrow> int \<times> 's) \<Rightarrow>
   session_call \<Rightarrow> 's \<Rightarrow> 's" where
  "port_call create add_offer select_offer finish expire (CallCreate r) s = snd (create r s)"
| "port_call create add_offer select_offer finish expire (CallOffer i x) s = snd (add_offer i x s)"
| "port_call create add_offer select_offer finish expire (CallSelect now i offer agent conn schema view) s =
     snd (select_offer now i offer agent conn schema view s)"
| "port_call create add_offer select_offer finish expire (CallClose now i reason) s = snd (finish now i reason s)"
| "port_call create add_offer select_offer finish expire (CallExpire now cutoff) s = snd (expire now cutoff s)"

text \<open>What is fixed when a session is created, the offers that it had, and a negotiation that is over.\<close>

definition moved_on :: "session_record \<Rightarrow> session_record \<Rightarrow> bool" where
  "moved_on r r' =
     (sr_ephemeral_interface_id r' = sr_ephemeral_interface_id r \<and> sr_tenant_id r' = sr_tenant_id r \<and>
      sr_requester_agent_id r' = sr_requester_agent_id r \<and> sr_requester_conn_id r' = sr_requester_conn_id r \<and>
      sr_intent_message_id r' = sr_intent_message_id r \<and> sr_intent_data r' = sr_intent_data r \<and>
      sr_created_at r' = sr_created_at r \<and> prefix (sr_offers r) (sr_offers r') \<and>
      (sr_status r \<noteq> ''negotiating'' \<longrightarrow> sr_status r' \<noteq> ''negotiating''))"

lemma moved_on_refl [simp]: "moved_on r r" by (simp add: moved_on_def)

lemma moved_on_trans: "moved_on a b \<Longrightarrow> moved_on b c \<Longrightarrow> moved_on a c"
  unfolding moved_on_def by (elim conjE, intro conjI) (auto intro: prefix_order.trans)

locale session_port =
  fixes create :: "session_record \<Rightarrow> 's \<Rightarrow> session_record \<times> 's"
    and get :: "uuid \<Rightarrow> 's \<Rightarrow> session_record option"
    and add_offer :: "uuid \<Rightarrow> payload \<Rightarrow> 's \<Rightarrow> session_record option \<times> 's"
    and select_offer :: "datetime \<Rightarrow> uuid \<Rightarrow> string \<Rightarrow> uuid \<Rightarrow> string \<Rightarrow> string option \<Rightarrow> string option \<Rightarrow> 's \<Rightarrow>
      session_record option \<times> 's"
    and finish :: "datetime \<Rightarrow> uuid \<Rightarrow> string option \<Rightarrow> 's \<Rightarrow> session_record option \<times> 's"
    and expire :: "datetime \<Rightarrow> datetime \<Rightarrow> 's \<Rightarrow> int \<times> 's"
  assumes create_get: "get i (snd (create r s)) =
      (if i = sr_ephemeral_interface_id r \<and> get i s = None then Some r else get i s)"
    and offer_get: "get j (snd (add_offer i x s)) =
      (if j = i then map_option (\<lambda>r. r\<lparr>sr_offers := sr_offers r @ [x]\<rparr>) (get i s) else get j s)"
    and select_get: "get j (snd (select_offer now i offer agent conn schema view s)) =
      (if j = i then map_option (\<lambda>r. r\<lparr>sr_status := ''active'', sr_chosen_offer_id := Some offer,
         sr_provider_agent_id := Some agent, sr_provider_conn_id := Some conn,
         sr_chosen_schema_id := schema, sr_chosen_view_id := view, sr_activated_at := Some now\<rparr>) (get i s) else get j s)"
    and finish_get: "\<exists>meta. get j (snd (finish now i reason s)) =
      (if j = i then map_option (\<lambda>r. r\<lparr>sr_status := ''closed'', sr_closed_at := Some now, sr_metadata := meta\<rparr>) (get i s)
       else get j s)"
    and expire_get: "get j (snd (expire now cutoff s)) =
      map_option (\<lambda>r. if sr_overdue cutoff r then r\<lparr>sr_status := ''expired'', sr_closed_at := Some now\<rparr> else r) (get j s)"
begin

abbreviation call :: "session_call \<Rightarrow> 's \<Rightarrow> 's" where
  "call \<equiv> port_call create add_offer select_offer finish expire"

lemma call_moves_on: "get j s = Some r \<Longrightarrow> \<exists>r'. get j (call p s) = Some r' \<and> moved_on r r'"
proof (cases p)
  case (CallClose now i reason)
  moreover assume "get j s = Some r"
  moreover obtain meta where "get j (snd (finish now i reason s)) =
      (if j = i then map_option (\<lambda>r. r\<lparr>sr_status := ''closed'', sr_closed_at := Some now, sr_metadata := meta\<rparr>) (get i s)
       else get j s)" using finish_get by blast
  ultimately show ?thesis by (auto simp: moved_on_def)
qed (auto simp: create_get offer_get select_get expire_get moved_on_def)

lemma calls_move_on: "get j s = Some r \<Longrightarrow> \<exists>r'. get j (fold call ps s) = Some r' \<and> moved_on r r'"
proof (induction ps arbitrary: s r)
  case (Cons p ps)
  obtain a where a: "get j (call p s) = Some a" "moved_on r a" using call_moves_on [OF Cons.prems] by blast
  then show ?case using Cons.IH [OF a(1)] by (auto intro: moved_on_trans)
qed simp

end

section \<open>The in-memory adapter\<close>

lemma ss_modify_get: "dget (snd (ss_modify i f st)) j = (if j = i then map_option f (dget st i) else dget st j)"
  by (auto simp: ss_modify_def split: option.split)

lemma ss_close_get:
  "\<exists>meta. ss_get j (snd (ss_close now i reason s)) =
     (if j = i then map_option (\<lambda>r. r\<lparr>sr_status := ''closed'', sr_closed_at := Some now, sr_metadata := meta\<rparr>) (ss_get i s)
      else ss_get j s)"
  by (rule exI [of _ "let meta = sr_metadata (the (ss_get i s)) in
        if str_true reason then dset ''close_reason'' (JStr (the reason)) meta else meta"])
    (cases "ss_get i s", auto simp: ss_close_def ss_get_def ss_modify_get Let_def)

interpretation sp: session_port ss_create ss_get ss_add_offer ss_select_offer ss_close ss_expire_before
proof
  fix i r and s :: session_store
  show "ss_get i (snd (ss_create r s)) = (if i = sr_ephemeral_interface_id r \<and> ss_get i s = None then Some r else ss_get i s)"
    by (auto simp: ss_get_def ss_create_def split: option.split)
next
  fix j now cutoff and s :: session_store
  show "ss_get j (snd (ss_expire_before now cutoff s)) =
      map_option (\<lambda>r. if sr_overdue cutoff r then r\<lparr>sr_status := ''expired'', sr_closed_at := Some now\<rparr> else r) (ss_get j s)"
    by (simp add: ss_expire_before_def ss_expire_loop_eq ss_get_def)
qed (rule ss_close_get | simp add: ss_get_def ss_add_offer_def ss_select_offer_def ss_modify_get)+

definition ss_call :: "session_call \<Rightarrow> session_store \<Rightarrow> session_store" where
  "ss_call = port_call ss_create ss_add_offer ss_select_offer ss_close ss_expire_before"

text \<open>Whatever operations a session store gets, a stored session stays stored, keeps its requester, tenant, intent
  and time of creation, keeps the offers it had in their order, and never returns to its negotiation.\<close>

theorem stored_sessions_move_on:
  assumes "ss_get i st = Some r"
  shows "\<exists>r'. ss_get i (fold ss_call ps st) = Some r' \<and> moved_on r r'"
  unfolding ss_call_def using assms by (rule sp.calls_move_on)

theorem stored_sessions_move_on_witness:
  "\<exists>r. ss_get 1 (fold ss_call [CallOffer 1 [(''price'', JInt 3)], CallSelect 5 1 ''o'' 7 ''p'' None None, CallExpire 9 8,
     CallClose 9 1 (Some ''bye'')] ex_stored) = Some r \<and> sr_tenant_id r = ''acme'' \<and> sr_status r = ''closed''"
proof -
  let ?ps = "[CallOffer 1 [(''price'', JInt 3)], CallSelect 5 1 ''o'' 7 ''p'' None None, CallExpire 9 8, CallClose 9 1 (Some ''bye'')]"
  have "map_option sr_tenant_id (ss_get 1 ex_stored) = Some ''acme''" by code_simp
  then obtain r where r: "ss_get 1 ex_stored = Some r" "sr_tenant_id r = ''acme''" by auto
  moreover have "map_option sr_status (ss_get 1 (fold ss_call ?ps ex_stored)) = Some ''closed''" by code_simp
  ultimately show ?thesis using stored_sessions_move_on [OF r(1), of ?ps] by (auto simp: moved_on_def)
qed

end
