(* ===== verification/Bus_App.thy ===== *)
theory Bus_App
  imports Bus_Config Handler_Inv
begin

text \<open>
  \<open>src/transport/app.py\<close>: the application makes the storage and the components when it starts, hands every
  WebSocket to the handler, reports its health, and stops. The web framework is not part of it. Then what
  the configuration guarantees, and what the health report says of a running bus.
\<close>

section \<open>The application\<close>

text \<open>The global variables: the storage, and the bus with its connections when the handler exists.\<close>

record app =
  ap_storage :: "storage_bundle option"
  ap_world :: "world option"
  ap_llm_model :: "string option"
  ap_refused :: "websocket list"
  ap_registry_loop :: bool
  ap_session_loop :: bool

definition app_init :: app where
  "app_init = \<lparr>ap_storage = None, ap_world = None, ap_llm_model = None, ap_refused = [],
     ap_registry_loop = False, ap_session_loop = False\<rparr>"

text \<open>
  The background tasks of the registry and of the session manager: whether they run, and one round of their
  loops after a sleep. The objects are made anew at each start of the application.
\<close>

definition registry_start :: "app \<Rightarrow> app" where
  "registry_start a = a\<lparr>ap_registry_loop := True\<rparr>"

definition registry_stop :: "app \<Rightarrow> app" where
  "registry_stop a = a\<lparr>ap_registry_loop := False\<rparr>"

definition registry_round :: "datetime \<Rightarrow> app \<Rightarrow> app" where
  "registry_round now a =
     (case ap_world a of
        None \<Rightarrow> a
      | Some w \<Rightarrow>
          if ap_registry_loop a then
            let (ws, r) = rg_cleanup now (hb_registry (w_bus w)) in
            a\<lparr>ap_world := Some (w\<lparr>w_bus := (w_bus w)\<lparr>hb_registry := r, hb_shut := hb_shut (w_bus w) @ ws\<rparr>\<rparr>)\<rparr>
          else a)"

definition session_start :: "app \<Rightarrow> app" where
  "session_start a = a\<lparr>ap_session_loop := True\<rparr>"

definition session_stop :: "app \<Rightarrow> app" where
  "session_stop a = a\<lparr>ap_session_loop := False\<rparr>"

definition session_round :: "datetime \<Rightarrow> app \<Rightarrow> app" where
  "session_round now a =
     (case ap_world a of
        None \<Rightarrow> a
      | Some w \<Rightarrow>
          if ap_session_loop a then
            a\<lparr>ap_world := Some (w\<lparr>w_bus := (w_bus w)\<lparr>hb_sessions := sm_cleanup_expired now (hb_sessions (w_bus w))\<rparr>\<rparr>)\<rparr>
          else a)"

definition started_world :: world where
  "started_world = world_init 30 3 30 300 10 10000 200 1000 10000"

definition lifespan_start ::
  "(engine \<Rightarrow> string option) \<Rightarrow> (engine \<Rightarrow> string option) \<Rightarrow> (string \<Rightarrow> string option) option \<Rightarrow> codec \<Rightarrow> env \<Rightarrow> app \<Rightarrow> (config_error + unit) \<times> app" where
  "lifespan_start opens tables redis_package c env a =
     (case create_storage_from_env opens tables redis_package c env of
        Inl e \<Rightarrow> (Inl e, a)
      | Inr st \<Rightarrow> (Inr (), session_start (registry_start (a\<lparr>ap_storage := Some st, ap_world := Some started_world,
          ap_llm_model := Some (getenv env ''LIP_LLM_MODEL'' ''gpt-4o-mini'')\<rparr>))))"

text \<open>A message on a socket: the first call for a socket accepts it.\<close>

definition websocket_endpoint :: "unit ctx \<Rightarrow> websocket \<Rightarrow> incoming \<Rightarrow> app \<Rightarrow> app" where
  "websocket_endpoint c ws m a =
     (case ap_world a of
        None \<Rightarrow> a\<lparr>ap_refused := ap_refused a @ [ws]\<rparr>
      | Some w \<Rightarrow> a\<lparr>ap_world := Some (w_conn ws (receive c ws m (w_conns w ws) (w_bus w)) w)\<rparr>)"

definition health_check :: "app \<Rightarrow> (string \<times> json) list" where
  "health_check a =
     (let count = (\<lambda>f. case ap_world a of None \<Rightarrow> JInt 0 | Some w \<Rightarrow> JInt (f (w_bus w))) in
      [(''status'', JStr ''healthy''),
       (''agents'', count (\<lambda>b. rg_agent_count (hb_registry b))),
       (''online'', count (\<lambda>b. rg_online_count (hb_registry b))),
       (''sessions'', count (\<lambda>b. sm_session_count (hb_sessions b))),
       (''active_sessions'', count (\<lambda>b. sm_active_count (hb_sessions b))),
       (''trace_events'', count (\<lambda>b. ts_total_events (hb_trace b))),
       (''connection_queues'', count (\<lambda>b. cm_connection_count (hb_queues b)))])"

text \<open>The variables keep their objects after the end.\<close>

definition lifespan_stop :: "app \<Rightarrow> resource list \<times> app" where
  "lifespan_stop a =
     ((case ap_storage a of None \<Rightarrow> [] | Some st \<Rightarrow> bundle_close st),
      registry_stop (session_stop (a\<lparr>ap_world := map_option (\<lambda>w. w\<lparr>w_bus := (w_bus w)\<lparr>hb_queues :=
        snd (cm_shutdown (hb_queues (w_bus w)))\<rparr>\<rparr>) (ap_world a)\<rparr>)))"

section \<open>Task queues\<close>

fun queue_kind :: "('r, 'k, 'a) created_queue \<Rightarrow> string" where
  "queue_kind (MemoryQueue q) = ''memory''"
| "queue_kind (RedisQueue url q) = ''redis''"
| "queue_kind (KafkaQueue servers q) = ''kafka''"
| "queue_kind (RabbitQueue q) = ''rabbitmq''"

definition chosen_backend :: "env \<Rightarrow> string option \<Rightarrow> string" where
  "chosen_backend env backend = lower (case backend of None \<Rightarrow> lower (getenv env ''TASK_QUEUE_BACKEND'' ''memory'') | Some b \<Rightarrow> b)"

text \<open>The factory makes a queue of the kind that is asked for, in any case of letters, exactly when that kind is among
  the available ones; a known kind without its package is an \<open>ImportError\<close>, any other name a \<open>ValueError\<close>.\<close>

theorem create_task_queue_kind:
  "(case create_task_queue env inst backend ru ks mu n bd md kw own show read objs rr kk aa of
      Inr q \<Rightarrow> queue_kind q = chosen_backend env backend \<and> queue_kind q \<in> set (get_available_backends inst)
    | Inl (ImportError _) \<Rightarrow> chosen_backend env backend \<in> set valid_backends - set (get_available_backends inst)
    | Inl (ValueError _) \<Rightarrow> chosen_backend env backend \<notin> set valid_backends
    | Inl (ClientError _) \<Rightarrow> False)"
  unfolding create_task_queue_def chosen_backend_def [symmetric]
  by (auto simp: valid_backends_def get_available_backends_def Let_def)

section \<open>Storage\<close>

lemma replace_all_front:
  "p \<noteq> [] \<Longrightarrow> replace_all p r (p @ s) = r @ replace_all p r s"
  by (cases p) simp_all

lemma replace_all_skip:
  "p = c # p' \<Longrightarrow> c \<notin> set u \<Longrightarrow> replace_all p r (u @ s) = u @ replace_all p r s"
  by (induction u) auto

text \<open>The asynchronous driver of a database, and the schemes its URLs may have.\<close>

fun driver_url :: "storage_backend \<Rightarrow> string" where
  "driver_url SB_MEMORY = []"
| "driver_url SB_SQLITE = ''sqlite+aiosqlite://''"
| "driver_url SB_POSTGRESQL = ''postgresql+asyncpg://''"
| "driver_url SB_MYSQL = ''mysql+aiomysql://''"

fun plain_schemes :: "storage_backend \<Rightarrow> string list" where
  "plain_schemes SB_MEMORY = []"
| "plain_schemes SB_SQLITE = [''sqlite://'']"
| "plain_schemes SB_POSTGRESQL = [''postgresql://'', ''postgres://'']"
| "plain_schemes SB_MYSQL = [''mysql://'']"

text \<open>The word that \<open>create_storage\<close> looks for before it changes the URL.\<close>

fun driver_mark :: "storage_backend \<Rightarrow> string" where
  "driver_mark SB_MEMORY = []"
| "driver_mark SB_SQLITE = ''+aiosqlite''"
| "driver_mark SB_POSTGRESQL = ''+asyncpg''"
| "driver_mark SB_MYSQL = ''+aiomysql''"

lemma async_url_driver:
  "scheme \<in> set (plain_schemes b) \<Longrightarrow> \<not> sublist (driver_mark b) (scheme @ rest) \<Longrightarrow>
   \<exists>rest'. async_url b (scheme @ rest) = driver_url b @ rest'"
  by (cases b) auto

lemma engine_for_cases:
  "engine_for s = Inr eng \<Longrightarrow>
     (eng = None \<and> st_backend s = SB_MEMORY) \<or>
     (\<exists>url e. eng = Some e \<and> st_backend s \<noteq> SB_MEMORY \<and> st_database_url s = Some url \<and> en_url e = async_url (st_backend s) url)"
  by (cases "st_database_url s") (auto simp: engine_for_def split: if_splits)

text \<open>C10: the stores of a bundle are those its backend asks for. Without an engine (the memory backend) sessions and traces
  are in memory, with one they are in its database; executions are in Redis exactly when there is a Redis URL, under the
  key prefix and the time to live of the settings, and otherwise where the sessions are; the registry is in Redis when there
  is a URL, in memory for the memory backend, and absent over SQL without Redis. What the stores use is what \<open>close\<close>
  closes; and a URL with the plain scheme of the backend is opened with the asynchronous driver.\<close>

theorem storage_bundle_spec:
  assumes "create_storage opens tables redis_package c s = Inr b"
  shows "(sb_engine b = None \<longleftrightarrow> st_backend s = SB_MEMORY) \<and>
    sb_sessions b = (case sb_engine b of None \<Rightarrow> MemoryStore [] | Some e \<Rightarrow> SqlStore e) \<and>
    sb_trace b = (case sb_engine b of None \<Rightarrow> MemoryStore (tm_init 100000) | Some e \<Rightarrow> SqlStore e) \<and>
    sb_execs b =
      (if str_true (st_redis_url s)
       then ExecsInRedis (the (st_redis_url s)) (rx_init (st_key_prefix s) (st_exec_ttl_seconds s) c)
       else ExecsIn (case sb_engine b of None \<Rightarrow> MemoryStore xm_init | Some e \<Rightarrow> SqlStore e)) \<and>
    sb_registry b =
      (if str_true (st_redis_url s)
       then Some (RegistryInRedis (the (st_redis_url s)) (rr_init (st_key_prefix s) (st_presence_ttl_seconds s) 30 c))
       else if st_backend s = SB_MEMORY then Some (RegistryIn (MemoryStore pm_init)) else None) \<and>
    (\<forall>e. sb_engine b = Some e \<longrightarrow> DisposeEngine e \<in> set (bundle_close b)) \<and>
    (\<forall>u x. sb_execs b = ExecsInRedis u x \<longrightarrow> CloseRedis u \<in> set (bundle_close b)) \<and>
    (\<forall>e scheme rest. sb_engine b = Some e \<longrightarrow> st_database_url s = Some (scheme @ rest) \<longrightarrow>
       scheme \<in> set (plain_schemes (st_backend s)) \<longrightarrow> \<not> sublist (driver_mark (st_backend s)) (scheme @ rest) \<longrightarrow>
       starts_with (en_url e) (driver_url (st_backend s)))"
proof -
  obtain eng where e: "engine_for s = Inr eng" using assms by (auto simp: create_storage_def split: sum.splits)
  have b: "b = \<lparr>sb_sessions = (case eng of None \<Rightarrow> MemoryStore [] | Some e \<Rightarrow> SqlStore e),
      sb_trace = (case eng of None \<Rightarrow> MemoryStore (tm_init 100000) | Some e \<Rightarrow> SqlStore e),
      sb_execs = (if str_true (st_redis_url s)
        then ExecsInRedis (the (st_redis_url s)) (rx_init (st_key_prefix s) (st_exec_ttl_seconds s) c)
        else ExecsIn (case eng of None \<Rightarrow> MemoryStore xm_init | Some e \<Rightarrow> SqlStore e)),
      sb_registry = (if str_true (st_redis_url s)
        then Some (RegistryInRedis (the (st_redis_url s)) (rr_init (st_key_prefix s) (st_presence_ttl_seconds s) 30 c))
        else case eng of None \<Rightarrow> Some (RegistryIn (MemoryStore pm_init)) | Some e \<Rightarrow> None),
      sb_engine = eng, sb_redis = (if str_true (st_redis_url s) then st_redis_url s else None)\<rparr>"
    using assms
    by (cases "st_redis_url s") (auto simp: create_storage_def e Let_def split: option.splits if_splits)
  from engine_for_cases [OF e] show ?thesis
  proof
    assume "eng = None \<and> st_backend s = SB_MEMORY"
    then show ?thesis by (cases "st_redis_url s") (auto simp: b bundle_close_def)
  next
    assume "\<exists>url e. eng = Some e \<and> st_backend s \<noteq> SB_MEMORY \<and> st_database_url s = Some url \<and>
      en_url e = async_url (st_backend s) url"
    then obtain url x where x: "eng = Some x" "st_backend s \<noteq> SB_MEMORY" "st_database_url s = Some url"
      "en_url x = async_url (st_backend s) url" by blast
    have "starts_with (en_url x) (driver_url (st_backend s))"
      if "url = scheme @ rest" "scheme \<in> set (plain_schemes (st_backend s))"
        "\<not> sublist (driver_mark (st_backend s)) (scheme @ rest)" for scheme rest
      using async_url_driver [OF that(2,3)] by (auto simp: x(4) that(1) starts_with_def)
    then show ?thesis using x by (cases "st_redis_url s") (auto simp: b bundle_close_def)
  qed
qed

text \<open>Naming the memory backend does not choose it when there is a database URL.\<close>

lemma named_memory_is_overridden:
  "settings_from_env ((\<lambda>k. None)(''LIP_STORAGE_BACKEND'' \<mapsto> ''memory'', ''LIP_DATABASE_URL'' \<mapsto> ''sqlite:///bus.db'')) =
    Inr (default_settings\<lparr>st_backend := SB_SQLITE, st_database_url := Some ''sqlite:///bus.db''\<rparr>)"
  by code_simp

section \<open>Language models\<close>

fun llm_key :: "llm_client \<Rightarrow> string option" where
  "llm_key (AzureChatOpenAI m e k v opts) = Some k"
| "llm_key (ChatOllama m t n w) = None"
| "llm_key (ChatGoogleGenerativeAI m k opts) = Some k"
| "llm_key (ChatAnthropic m k opts) = Some k"
| "llm_key (ChatOpenAI m k opts) = Some k"

lemma need_key_Inr: "need_key v msg f = Inr x \<longleftrightarrow> (\<exists>k. v = Some k \<and> k \<noteq> [] \<and> f k = Inr x)"
  by (cases v) (auto simp: need_key_def)

text \<open>A client is only made with a key from the environment that is not empty, except for local models, and the error of
  a missing key or package does not depend on the options.\<close>

theorem create_llm_keyed:
  "create_llm env has model opts = Inr client \<Longrightarrow>
     (case llm_key client of
        None \<Rightarrow> starts_with model ''ollama/''
      | Some k \<Rightarrow> k \<noteq> [] \<and> (\<exists>name\<in>{''AZURE_OPENAI_API_KEY'', ''GOOGLE_API_KEY'', ''ANTHROPIC_API_KEY'', ''OPENAI_API_KEY''}.
          env name = Some k)) \<and>
     (\<forall>opts'. \<exists>client'. create_llm env has model opts' = Inr client')"
  unfolding create_llm_def by (auto simp: need_key_Inr split: if_splits)

section \<open>Health\<close>

text \<open>The bus that the application runs is one of the reachable buses, so all that is proved of these holds of it.\<close>

inductive app_run :: "app \<Rightarrow> app \<Rightarrow> bool" for a where
  start: "app_run a a"
| message: "app_run a b \<Longrightarrow> ap_world b = Some w \<Longrightarrow> fresh_ctx c (w_bus w) \<Longrightarrow> app_run a (websocket_endpoint c ws m b)"
| refused: "app_run a b \<Longrightarrow> ap_world b = None \<Longrightarrow> app_run a (websocket_endpoint c ws m b)"
| reap: "app_run a b \<Longrightarrow> app_run a (registry_round now b)"
| expire: "app_run a b \<Longrightarrow> app_run a (session_round now b)"
| inside: "app_run a b \<Longrightarrow> ap_world b = Some w \<Longrightarrow> world_step w w' \<Longrightarrow> app_run a (b\<lparr>ap_world := Some w'\<rparr>)"

lemma registry_round_step:
  "ap_world a = Some w \<Longrightarrow> \<exists>w'. ap_world (registry_round now a) = Some w' \<and> (w' = w \<or> world_step w w')"
  using world_step.reap [of w now] by (auto simp: registry_round_def case_prod_beta Let_def)

lemma session_round_step:
  "ap_world a = Some w \<Longrightarrow> \<exists>w'. ap_world (session_round now a) = Some w' \<and> (w' = w \<or> world_step w w')"
  using world_step.expire [of w now] by (auto simp: session_round_def)

lemma app_run_started: "app_run a b \<Longrightarrow> ap_world a = None \<longleftrightarrow> ap_world b = None"
proof (induction rule: app_run.induct)
  case (reap b now)
  then show ?case using registry_round_step [of b _ now] by (cases "ap_world b") (auto simp: registry_round_def)
next
  case (expire b now)
  then show ?case using session_round_step [of b _ now] by (cases "ap_world b") (auto simp: session_round_def)
qed (auto simp: websocket_endpoint_def)

lemma app_run_reachable:
  assumes "app_run a b" and "ap_world a = Some started_world"
  shows "\<exists>w. ap_world b = Some w \<and> reachable w"
  using assms(1)
proof induction
  case start
  then show ?case using assms(2) reachable.init by (simp add: started_world_def)
next
  case (message b w c ws m)
  then show ?case using reachable.step [OF _ world_step.receive, of w c ws m] by (auto simp: websocket_endpoint_def)
next
  case (reap b now)
  then show ?case using registry_round_step [of b _ now] reachable.step by blast
next
  case (expire b now)
  then show ?case using session_round_step [of b _ now] reachable.step by blast
next
  case (inside b w w')
  then show ?case using reachable.step by auto
qed simp

lemma dict_keys_dget: "set (map fst d) = {k. dget d k \<noteq> None}"
  by (rule set_eqI) (simp only: din_iff_mem [symmetric] din_def mem_Collect_eq)

text \<open>As many agents as connections are registered, and each is found by its id.\<close>

lemma agents_by_id:
  assumes r: "rg_inv r"
  shows "length (rg_agents_by_conn r) = card {g. rg_get_agent_by_id g r \<noteq> None}"
proof -
  note I = rg_invD(4-6) [OF r]
  let ?A = "{c. dget (rg_agents_by_conn r) c \<noteq> None}"
  have found: "{g. rg_get_agent_by_id g r \<noteq> None} = {g. dget (rg_conn_by_agent r) g \<noteq> None}"
  proof (rule Collect_cong)
    fix g show "(rg_get_agent_by_id g r \<noteq> None) = (dget (rg_conn_by_agent r) g \<noteq> None)"
    proof (cases "dget (rg_conn_by_agent r) g")
      case (Some c)
      then obtain a where a: "dget (rg_agents_by_conn r) c = Some a" using I(3) by blast
      then obtain ws where "c = conn_id_of (ar_tenant_id a) (ar_agent_id a) ws" using I(2) by blast
      then have "c \<noteq> []" using conn_id_not_Nil by simp
      then show ?thesis using Some a by (simp add: rg_get_agent_by_id_def)
    qed (simp add: rg_get_agent_by_id_def)
  qed
  have "bij_betw (\<lambda>c. ar_agent_id (the (dget (rg_agents_by_conn r) c))) ?A {g. dget (rg_conn_by_agent r) g \<noteq> None}"
    unfolding bij_betw_def
  proof
    show "inj_on (\<lambda>c. ar_agent_id (the (dget (rg_agents_by_conn r) c))) ?A"
    proof (rule inj_onI, clarsimp)
      fix c c' x y assume "dget (rg_agents_by_conn r) c = Some x" "dget (rg_agents_by_conn r) c' = Some y"
        "ar_agent_id x = ar_agent_id y"
      then show "c = c'" using I(1) [of c x] I(1) [of c' y] by simp
    qed
    show "(\<lambda>c. ar_agent_id (the (dget (rg_agents_by_conn r) c))) ` ?A = {g. dget (rg_conn_by_agent r) g \<noteq> None}"
    proof
      show "(\<lambda>c. ar_agent_id (the (dget (rg_agents_by_conn r) c))) ` ?A \<subseteq> {g. dget (rg_conn_by_agent r) g \<noteq> None}"
        using I(1) by force
      show "{g. dget (rg_conn_by_agent r) g \<noteq> None} \<subseteq> (\<lambda>c. ar_agent_id (the (dget (rg_agents_by_conn r) c))) ` ?A"
        using I(3) by (force simp: image_iff)
    qed
  qed
  then have "card {g. rg_get_agent_by_id g r \<noteq> None} = card ?A"
    unfolding found by (rule bij_betw_same_card [symmetric])
  also have "\<dots> = length (rg_agents_by_conn r)"
    unfolding dict_keys_dget [symmetric]
    using distinct_card [of "map fst (rg_agents_by_conn r)"] rg_invD(1) [OF r] by (simp add: dict_ok_def)
  finally show ?thesis ..
qed

text \<open>C9: while the application runs the health report counts each agent once, no more of them online than there are, and
  no more sessions active than there are; before the start and when the start failed it counts nothing.\<close>

theorem health_counts:
  assumes "lifespan_start opens tables pkg c env app_init = (res, a)" and "app_run a b"
  shows "\<exists>agents online sessions active events queues.
    health_check b = [(''status'', JStr ''healthy''), (''agents'', JInt agents), (''online'', JInt online),
      (''sessions'', JInt sessions), (''active_sessions'', JInt active), (''trace_events'', JInt events),
      (''connection_queues'', JInt queues)] \<and>
    0 \<le> online \<and> online \<le> agents \<and> 0 \<le> active \<and> active \<le> sessions \<and> 0 \<le> events \<and> 0 \<le> queues \<and>
    (case ap_world b of
       None \<Rightarrow> res \<noteq> Inr () \<and> agents = 0 \<and> sessions = 0 \<and> events = 0 \<and> queues = 0
     | Some w \<Rightarrow> res = Inr () \<and> reachable w \<and> agents = int (card {g. rg_get_agent_by_id g (hb_registry (w_bus w)) \<noteq> None}))"
proof (cases res)
  case (Inl e)
  then have "ap_world a = None" using assms(1) by (auto simp: lifespan_start_def app_init_def split: sum.splits)
  then have "ap_world b = None" using app_run_started [OF assms(2)] by simp
  then show ?thesis using Inl by (simp add: health_check_def Let_def)
next
  case (Inr u)
  then have "ap_world a = Some started_world"
    using assms(1) by (auto simp: lifespan_start_def registry_start_def session_start_def split: sum.splits)
  then obtain w where w: "ap_world b = Some w" "reachable w" using app_run_reachable [OF assms(2)] by blast
  let ?b = "w_bus w"
  have "0 \<le> ts_total_events (hb_trace ?b)"
    by (auto simp: ts_total_events_def intro!: add_nonneg_nonneg sum_list_nonneg)
  moreover have "0 \<le> rg_online_count (hb_registry ?b)" "rg_online_count (hb_registry ?b) \<le> rg_agent_count (hb_registry ?b)"
    by (simp_all add: rg_online_count_def rg_agent_count_def dvalues_def length_filter_le [THEN order_trans])
  moreover have "0 \<le> sm_active_count (hb_sessions ?b)" "sm_active_count (hb_sessions ?b) \<le> sm_session_count (hb_sessions ?b)"
    by (simp_all add: sm_active_count_def sm_session_count_def dvalues_def length_filter_le [THEN order_trans])
  moreover have "rg_agent_count (hb_registry ?b) = int (card {g. rg_get_agent_by_id g (hb_registry ?b) \<noteq> None})"
    using agents_by_id [of "hb_registry ?b"] reachable_inv [OF w(2)] by (simp add: rg_agent_count_def bus_inv_def)
  moreover have "0 \<le> cm_connection_count (hb_queues ?b)" by (simp add: cm_connection_count_def)
  ultimately show ?thesis unfolding health_check_def Let_def w(1) option.case
    using w(2) Inr by (intro exI conjI) (rule refl | simp)+
qed

text \<open>After the end of the application its background tasks change nothing any more, and it can be started again.\<close>

lemma stopped_is_quiet:
  assumes "lifespan_stop a = (freed, b)"
  shows "registry_round now b = b \<and> session_round now b = b \<and>
    (\<forall>w. ap_world b = Some w \<longrightarrow> cm_connection_count (hb_queues (w_bus w)) = 0) \<and>
    (\<forall>st. ap_storage a = Some st \<longrightarrow> freed = bundle_close st) \<and>
    (\<forall>st opens tables pkg c env. create_storage_from_env opens tables pkg c env = Inr st \<longrightarrow>
       ap_world (snd (lifespan_start opens tables pkg c env b)) = Some started_world)"
  using assms
  by (auto simp: lifespan_stop_def registry_round_def session_round_def registry_stop_def session_stop_def cm_shutdown_def
      cm_connection_count_def lifespan_start_def registry_start_def session_start_def split: option.split)

definition no_env :: env where
  "no_env = (\<lambda>_. None)"

theorem health_counts_witness:
  "\<exists>a. lifespan_start (\<lambda>_. None) (\<lambda>_. None) None ex_codec no_env app_init = (Inr (), a) \<and>
     health_check a ! 1 = (''agents'', JInt 0) \<and> ap_world a \<noteq> None"
proof -
  have "settings_from_env no_env = Inr default_settings" by code_simp
  then obtain st where "create_storage_from_env (\<lambda>_. None) (\<lambda>_. None) None ex_codec no_env = Inr st"
    by (simp add: create_storage_from_env_def create_storage_def engine_for_def default_settings_def Let_def)
  then obtain a where a: "lifespan_start (\<lambda>_. None) (\<lambda>_. None) None ex_codec no_env app_init = (Inr (), a)"
    "ap_world a = Some started_world"
    by (simp add: lifespan_start_def registry_start_def session_start_def)
  moreover have "{g. rg_get_agent_by_id g (hb_registry (w_bus started_world)) \<noteq> None} = {}"
    by (simp add: started_world_def world_init_def bus_init_def rg_init_def rg_get_agent_by_id_def)
  ultimately show ?thesis using health_counts [OF a(1) app_run.start] by auto
qed

theorem storage_bundle_spec_witness:
  "\<exists>b e. create_storage (\<lambda>_. None) (\<lambda>_. None) None ex_codec
     (default_settings\<lparr>st_backend := SB_POSTGRESQL, st_database_url := Some ''postgres://h/bus''\<rparr>) = Inr b \<and>
     sb_engine b = Some e \<and> sb_sessions b = SqlStore e \<and> sb_execs b = ExecsIn (SqlStore e) \<and> sb_registry b = None \<and>
     starts_with (en_url e) ''postgresql+asyncpg://''"
proof -
  let ?s = "default_settings\<lparr>st_backend := SB_POSTGRESQL, st_database_url := Some ''postgres://h/bus''\<rparr>"
  have "create_storage (\<lambda>_. None) (\<lambda>_. None) None ex_codec ?s \<noteq> Inl e" for e
    by (simp add: create_storage_def engine_for_def default_settings_def Let_def)
  then obtain b where b: "create_storage (\<lambda>_. None) (\<lambda>_. None) None ex_codec ?s = Inr b"
    by (cases "create_storage (\<lambda>_. None) (\<lambda>_. None) None ex_codec ?s") auto
  note f = storage_bundle_spec [OF b]
  then obtain e where e: "sb_engine b = Some e" by (cases "sb_engine b") (auto simp: default_settings_def)
  have n: "\<not> sublist ''+asyncpg'' ''postgres://h/bus''" by code_simp
  have "starts_with (en_url e) ''postgresql+asyncpg://''"
    using f e n by (elim conjE) (drule spec2 [where x = e and y = "''postgres://''"], simp)
  moreover have "sb_registry b = None \<and> sb_sessions b = SqlStore e \<and> sb_execs b = ExecsIn (SqlStore e)"
    using f e by (elim conjE) (simp add: default_settings_def)
  ultimately show ?thesis using b e by blast
qed

theorem create_llm_keyed_witness:
  "\<exists>client. create_llm (no_env(''OPENAI_API_KEY'' \<mapsto> ''k'')) (\<lambda>_. True) ''gpt-4o-mini''
     \<lparr>lo_temperature = 0, lo_max_tokens = None, lo_timeout = None, lo_max_retries = 2\<rparr> = Inr client \<and> llm_key client = Some ''k''"
proof -
  let ?o = "\<lparr>lo_temperature = 0, lo_max_tokens = None, lo_timeout = None, lo_max_retries = 2\<rparr>"
  have c: "create_llm (no_env(''OPENAI_API_KEY'' \<mapsto> ''k'')) (\<lambda>_. True) ''gpt-4o-mini'' ?o = Inr (ChatOpenAI ''gpt-4o-mini'' ''k'' ?o)"
    by (simp add: create_llm_def need_key_def starts_with_def no_env_def)
  show ?thesis using create_llm_keyed [OF c] c by auto
qed

end
