(* ===== verification/Agent_Delivery.thy ===== *)
theory Agent_Delivery
  imports Task_Queue_Refine Task_Worker Queued_Router
begin

text \<open>
  The way of a queued message: the router puts a task for each candidate into the in-memory queue, and a
  worker of \<open>src/queue/worker.py\<close> with the executor of agents takes the tasks and sends each to the socket of
  its connection. What was sent is recorded.
\<close>

section \<open>The worker of agents\<close>

text \<open>\<open>str(e)\<close> of what the executor raises.\<close>

fun exec_error_text :: "exec_error \<Rightarrow> string" where
  "exec_error_text (AttributeError s) = s"
| "exec_error_text (exec_error.ValueError s) = s"
| "exec_error_text (ConnectionError s) = s"

definition agent_outcome ::
  "(string \<Rightarrow> 'ws option) \<Rightarrow> ('ws \<Rightarrow> string \<Rightarrow> string option) \<Rightarrow> datetime \<Rightarrow> task_payload \<Rightarrow> exec_outcome" where
  "agent_outcome get_websocket send now task =
     (case agent_execute get_websocket send now task of
        Inl e \<Rightarrow> ExecError (exec_error_text e)
      | Inr r \<Rightarrow> ExecOk r)"

text \<open>What reaches a socket when the task is executed.\<close>

definition sent_for ::
  "(string \<Rightarrow> 'ws option) \<Rightarrow> ('ws \<Rightarrow> string \<Rightarrow> string option) \<Rightarrow> task_payload \<Rightarrow> ('ws \<times> string) list" where
  "sent_for get_websocket send task =
     (case Option.bind (tp_target_conn_id task) get_websocket of
        None \<Rightarrow> []
      | Some ws \<Rightarrow>
          if str_true (tp_target_conn_id task) \<and> send ws (tp_envelope_json task) = None
          then [(ws, tp_envelope_json task)] else [])"

lemma sent_for_executed: "sent_for gw send t \<noteq> [] \<longleftrightarrow> (\<exists>r. agent_execute gw send now t = Inr r)"
  by (cases "tp_target_conn_id t") (auto simp: sent_for_def agent_execute_def split: option.split)

text \<open>At most \<open>n\<close> rounds of the worker loop at the time \<open>now\<close>, for all tenants; \<open>duration\<close> is what the clock measures.\<close>

fun deliver_loop ::
  "(string \<Rightarrow> 'ws option) \<Rightarrow> ('ws \<Rightarrow> string \<Rightarrow> string option) \<Rightarrow> (task_payload \<Rightarrow> rat) \<Rightarrow> datetime \<Rightarrow> nat \<Rightarrow>
     worker_stats \<times> mem_queue \<Rightarrow> ('ws \<times> string) list \<times> worker_stats \<times> mem_queue" where
  "deliver_loop get_websocket send duration now 0 sq = ([], sq)"
| "deliver_loop get_websocket send duration now (Suc n) (stats, q) =
     (case mq_deq now None q of
        (None, q) \<Rightarrow> deliver_loop get_websocket send duration now n (stats, q)
      | (Some task, q) \<Rightarrow>
          let (_, stats, q) = process_task mq_complete mq_fail mem_reread now (duration task)
                (agent_outcome get_websocket send now task) task (stats, q);
              (sent, sq) = deliver_loop get_websocket send duration now n (stats, q)
          in (sent_for get_websocket send task @ sent, sq))"

lemma process_agent_task:
  "fst (process_task c f rr now d (agent_outcome gw send now task) task sq)"
  by (auto simp: process_task_def agent_outcome_def case_prod_beta split: sum.split)

text \<open>It is a run of \<open>worker_loop\<close>, in which the outcomes are those of the executor.\<close>

lemma deliver_loop_is_worker_loop:
  "\<exists>rs. length rs = n \<and> worker_loop mq_deq mq_complete mq_fail mem_reread None rs sq =
     snd (deliver_loop gw send duration now n sq)"
proof (induction n arbitrary: sq)
  case (Suc n)
  obtain stats q where sq: "sq = (stats, q)" by (cases sq)
  show ?case
  proof (cases "mq_deq now None q")
    case (Pair r q1)
    let ?round = "\<lambda>t. \<lparr>wr_shutdown = False, wr_now = now, wr_during = id, wr_duration_ms = duration t,
      wr_outcome = agent_outcome gw send now t\<rparr>"
    show ?thesis
    proof (cases r)
      case None
      obtain rs where "length rs = n" "worker_loop mq_deq mq_complete mq_fail mem_reread None rs (stats, q1) =
        snd (deliver_loop gw send duration now n (stats, q1))" using Suc.IH by blast
      then show ?thesis using Pair None by (intro exI [of _ "?round undefined # rs"]) (simp add: sq)
    next
      case (Some t)
      obtain b s2 q2 where p: "process_task mq_complete mq_fail mem_reread now (duration t) (agent_outcome gw send now t) t (stats, q1) =
        (b, s2, q2)" by (rule prod_cases3)
      then have "b" using process_agent_task by (metis fst_conv)
      obtain rs where "length rs = n" "worker_loop mq_deq mq_complete mq_fail mem_reread None rs (s2, q2) =
        snd (deliver_loop gw send duration now n (s2, q2))" using Suc.IH by blast
      then show ?thesis using Pair Some p \<open>b\<close>
        by (intro exI [of _ "?round t # rs"]) (simp add: sq case_prod_beta)
    qed
  qed
qed simp

section \<open>Every waiting task reaches its socket\<close>

text \<open>The task's connection has a socket, and sending to it succeeds.\<close>

definition deliverable :: "(string \<Rightarrow> 'ws option) \<Rightarrow> ('ws \<Rightarrow> string \<Rightarrow> string option) \<Rightarrow> task_payload \<Rightarrow> bool" where
  "deliverable get_websocket send task =
     (\<exists>c ws. tp_target_conn_id task = Some c \<and> c \<noteq> [] \<and> get_websocket c = Some ws \<and> send ws (tp_envelope_json task) = None)"

definition delivered :: "datetime \<Rightarrow> (task_payload \<Rightarrow> rat) \<Rightarrow> task_payload \<Rightarrow> mem_queue \<Rightarrow> bool" where
  "delivered now duration task q =
     (dget (mq_status q) (tp_task_id task) = Some TASK_COMPLETED \<and>
      mq_get_result (tp_task_id task) q = Some ((new_task_result (tp_task_id task) TASK_COMPLETED now)
        \<lparr>tr_result := JDict [(''delivered'', JBool True)], tr_duration_ms := duration task\<rparr>))"

lemma deliverable_outcome:
  "deliverable gw send t \<Longrightarrow> agent_outcome gw send now t =
     ExecOk ((new_task_result (tp_task_id t) TASK_COMPLETED now)\<lparr>tr_result := JDict [(''delivered'', JBool True)]\<rparr>)"
  "deliverable gw send t \<Longrightarrow> \<exists>ws. gw (the (tp_target_conn_id t)) = Some ws \<and> sent_for gw send t = [(ws, tp_envelope_json t)]"
  by (auto simp: deliverable_def agent_outcome_def agent_execute_def sent_for_def)

lemma completed_effect:
  assumes "mq_complete i r q = (b, q')" and "dget (mq_tasks q) i \<noteq> None"
  shows "mq_status q' = dset i TASK_COMPLETED (mq_status q)" "mq_results q' = dset i r (mq_results q)"
    "mq_objs q' = mq_objs q" "mq_tasks q' = mq_tasks q" "mq_heap q' = mq_heap q" "mq_closed q' = mq_closed q"
  using assms by (auto simp: mq_complete_def mq_unindex_def Let_def split: option.splits)

lemma claimed_step:
  assumes life: "mq_life q" and vis: "all_visible now q" and op: "\<not> mq_closed q"
    and deq: "mq_deq now None q = (Some p, q1)" and send: "deliverable gw send p"
    and run: "process_task mq_complete mq_fail mem_reread now (duration p) (agent_outcome gw send now p) p (stats, q1) = (b, s2, q2)"
  shows "mq_life q2" "all_visible now q2" "\<not> mq_closed q2" "mq_payload q2 = mq_payload q"
    "waiting now q2 = waiting now q - {tp_task_id p}" "is_pending q2 = is_pending q1"
    "delivered now duration p q2" "s2 = record_success now (duration p) stats"
    "settled q t \<Longrightarrow> dget (mq_status q2) t = dget (mq_status q) t \<and> mq_get_result t q2 = mq_get_result t q"
proof -
  note d = deq_some [OF life vis op deq]
  let ?r = "(new_task_result (tp_task_id p) TASK_COMPLETED now)\<lparr>tr_result := JDict [(''delivered'', JBool True)],
    tr_duration_ms := duration p\<rparr>"
  have st: "dget (mq_status q1) (tp_task_id p) = Some TASK_PROCESSING"
    using mem.deq_claims [OF mq_life_inv [OF life] deq] by simp
  obtain ok where c: "mq_complete (tp_task_id p) ?r q1 = (ok, q2)" and s2: "s2 = record_success now (duration p) stats"
    using run by (auto simp: process_task_def deliverable_outcome(1) [OF send] split: prod.splits)
  have known: "dget (mq_tasks q1) (tp_task_id p) \<noteq> None"
    using mq_inv_known [OF mq_life_inv [OF d(7)], of "tp_task_id p"] st by (simp add: din_def)
  note e = completed_effect [OF c known]
  show "mq_life q2" using mq_life_complete [OF d(7) st, of ?r] c by simp
  show "all_visible now q2" using d(8) by (simp add: all_visible_def e)
  show "\<not> mq_closed q2" using d(9) by (simp add: e)
  have pay: "mq_payload q2 = mq_payload q1" by (rule ext) (simp add: mq_payload_def mq_get_def e)
  then show "mq_payload q2 = mq_payload q" using d(4) by simp
  show pend: "is_pending q2 = is_pending q1" using st by (intro ext) (auto simp: is_pending_def e)
  then show "waiting now q2 = waiting now q - {tp_task_id p}" using d(2) by (simp add: waiting_def pay)
  show "delivered now duration p q2" by (simp add: delivered_def mq_get_result_def e)
  show "s2 = record_success now (duration p) stats" by (rule s2)
  show "settled q t \<Longrightarrow> dget (mq_status q2) t = dget (mq_status q) t \<and> mq_get_result t q2 = mq_get_result t q"
  proof -
    assume t: "settled q t"
    obtain r where find: "mq_find_next_visible now None q = (r, q1)"
      using deq op by (auto simp: mq_deq_find split: prod.splits)
    have same: "dget (mq_status q1) t = dget (mq_status q) t \<and> dget (mq_results q1) t = dget (mq_results q) t"
      using scan_keeps_settled [OF life t find] .
    moreover have "t \<noteq> tp_task_id p" using t same st by (auto simp: settled_def)
    ultimately show ?thesis by (simp add: e mq_get_result_def)
  qed
qed

lemma idle_step:
  assumes life: "mq_life q" and vis: "all_visible now q" and op: "\<not> mq_closed q" and deq: "mq_deq now None q = (None, q1)"
  shows "mq_life q1" "all_visible now q1" "\<not> mq_closed q1" "waiting now q = {}" "waiting now q1 = {}" "{t. is_pending q1 t} = {}"
    "settled q t \<Longrightarrow> dget (mq_status q1) t = dget (mq_status q) t \<and> mq_get_result t q1 = mq_get_result t q"
proof -
  have find: "mq_find_next_visible now None q = (None, q1)" using deq op by (auto simp: mq_deq_find split: prod.splits)
  show "mq_life q1" using mq_find_next_visible_life [OF life, of now None] find by simp
  show "all_visible now q1" using vis mq_find_next_visible_heap [OF find] by (auto simp: all_visible_def)
  show "\<not> mq_closed q1" using op mq_find_next_visible_frame [OF find] by simp
  show "waiting now q = {}" by (rule deq_none [OF life vis op deq])
  show none: "{t. is_pending q1 t} = {}" using deq_none [OF life vis op deq] by simp
  then show "waiting now q1 = {}" by (auto simp: waiting_def)
  show "settled q t \<Longrightarrow> dget (mq_status q1) t = dget (mq_status q) t \<and> mq_get_result t q1 = mq_get_result t q"
    using scan_keeps_settled [OF life _ find] by (simp add: mq_get_result_def)
qed

lemma record_success_counts [simp]:
  "ws_tasks_succeeded (record_success now d s) = ws_tasks_succeeded s + 1"
  "ws_tasks_failed (record_success now d s) = ws_tasks_failed s"
  by (simp_all add: record_success_def update_avg_duration_def Let_def)

lemma delivered_settled: "delivered now duration p q \<Longrightarrow> settled q (tp_task_id p)"
  by (simp add: delivered_def settled_def)

lemma deliver_loop_run:
  assumes "mq_life q" and "\<not> mq_closed q" and "all_visible now q" and "card {t. is_pending q t} \<le> n"
    and "\<forall>t\<in>waiting now q. deliverable gw send (the (mq_payload q t))"
    and "deliver_loop gw send duration now n (stats, q) = (sent, stats', q')"
  shows "\<exists>ps. (\<forall>p\<in>set ps. mq_payload q (tp_task_id p) = Some p \<and> delivered now duration p q') \<and>
    tp_task_id ` set ps = waiting now q \<and> distinct (map tp_task_id ps) \<and> sorted (map urgency ps) \<and>
    sent = map (\<lambda>p. (the (gw (the (tp_target_conn_id p))), tp_envelope_json p)) ps \<and>
    ws_tasks_succeeded stats' = ws_tasks_succeeded stats + int (length ps) \<and>
    ws_tasks_failed stats' = ws_tasks_failed stats \<and>
    (\<forall>t. \<not> is_pending q' t) \<and>
    (\<forall>t. settled q t \<longrightarrow> dget (mq_status q') t = dget (mq_status q) t \<and> mq_get_result t q' = mq_get_result t q)"
  using assms
proof (induction n arbitrary: q stats sent)
  case 0
  then have "{t. is_pending q t} = {}" using finite_pending [of q] by simp
  then show ?case using 0 by (auto simp: waiting_def)
next
  case (Suc n)
  show ?case
  proof (cases "mq_deq now None q")
    case (Pair r q1)
    show ?thesis
    proof (cases r)
      case None
      note idle = idle_step [OF Suc.prems(1,3,2) Pair [unfolded None]]
      have "deliver_loop gw send duration now n (stats, q1) = (sent, stats', q')"
        using Suc.prems(6) Pair None by simp
      from Suc.IH [OF idle(1,3,2) _ _ this] obtain ps where
        "tp_task_id ` set ps = {}" "sent = map (\<lambda>p. (the (gw (the (tp_target_conn_id p))), tp_envelope_json p)) ps"
        "ws_tasks_succeeded stats' = ws_tasks_succeeded stats + int (length ps)"
        "ws_tasks_failed stats' = ws_tasks_failed stats" "\<forall>t. \<not> is_pending q' t"
        "\<forall>t. settled q1 t \<longrightarrow> dget (mq_status q') t = dget (mq_status q1) t \<and> mq_get_result t q' = mq_get_result t q1"
        by (auto simp: idle(5,6))
      then show ?thesis using idle(4,7) by (intro exI [of _ "[]"]) (auto simp: settled_def)
    next
      case (Some p)
      note deq = Pair [unfolded Some]
      note d = deq_some [OF Suc.prems(1,3,2) deq]
      have ok: "deliverable gw send p" using Suc.prems(5) d(1,3) by force
      obtain b s2 q2 where run: "process_task mq_complete mq_fail mem_reread now (duration p) (agent_outcome gw send now p) p (stats, q1) =
        (b, s2, q2)" by (rule prod_cases3)
      note c = claimed_step [where duration = duration, OF Suc.prems(1,3,2) deq ok run]
      obtain sent2 where rest: "deliver_loop gw send duration now n (s2, q2) = (sent2, stats', q')"
        and sent: "sent = sent_for gw send p @ sent2"
        using Suc.prems(6) deq run by (auto split: prod.splits)
      have "{t. is_pending q2 t} \<subset> {t. is_pending q t}" using d(1,6) by (auto simp: c(6) waiting_def)
      then have "card {t. is_pending q2 t} \<le> n"
        using psubset_card_mono [OF finite_pending [of q], of "{t. is_pending q2 t}"] Suc.prems(4) by linarith
      moreover have "\<forall>t\<in>waiting now q2. deliverable gw send (the (mq_payload q2 t))" using Suc.prems(5) by (simp add: c(4,5))
      ultimately obtain ps where ps: "\<forall>x\<in>set ps. mq_payload q (tp_task_id x) = Some x \<and> delivered now duration x q'"
        and ids: "tp_task_id ` set ps = waiting now q - {tp_task_id p}" "distinct (map tp_task_id ps)" "sorted (map urgency ps)"
        and out: "sent2 = map (\<lambda>p. (the (gw (the (tp_target_conn_id p))), tp_envelope_json p)) ps"
        and stats: "ws_tasks_succeeded stats' = ws_tasks_succeeded s2 + int (length ps)" "ws_tasks_failed stats' = ws_tasks_failed s2"
        and final: "\<forall>t. \<not> is_pending q' t"
          "\<forall>t. settled q2 t \<longrightarrow> dget (mq_status q') t = dget (mq_status q2) t \<and> mq_get_result t q' = mq_get_result t q2"
        using Suc.IH [OF c(1,3,2) _ _ rest] by (simp add: c(4,5)) blast
      have "urgency p \<le> urgency x" if "x \<in> set ps" for x
        using d(5) [of "tp_task_id x" x] ids(1) ps that by blast
      moreover have "delivered now duration p q'"
        using c(7) final(2) delivered_settled [OF c(7)] by (simp add: delivered_def)
      moreover have "settled q t \<Longrightarrow> dget (mq_status q') t = dget (mq_status q) t \<and> mq_get_result t q' = mq_get_result t q" for t
        using c(9) [of t] final(2) by (auto simp: settled_def)
      moreover obtain ws where "gw (the (tp_target_conn_id p)) = Some ws" "sent_for gw send p = [(ws, tp_envelope_json p)]"
        using deliverable_outcome(2) [OF ok] by blast
      moreover have "tp_task_id p \<notin> tp_task_id ` set ps" using ids(1) by simp
      ultimately show ?thesis
        using d(1,3) ps ids stats final(1) by (intro exI [of _ "p # ps"]) (auto simp: sent out c(8))
    qed
  qed
qed

text \<open>C8: a worker of agents that runs as many rounds as there are pending tasks, on an open queue whose items are visible
  and whose tasks can be delivered, sends the message of every task that is not overdue to the socket of its connection,
  once and the most urgent first, and nothing else; these tasks are completed with the result delivered, the
  statistics count them, no task is pending any more, and earlier outcomes stay.\<close>

theorem queued_messages_delivered:
  assumes "mq_reachable q" and "\<not> mq_closed q" and "all_visible now q" and "mq_size None q \<le> int n"
    and "\<forall>t\<in>waiting now q. deliverable gw send (the (mq_payload q t))"
    and "deliver_loop gw send duration now n (new_worker_stats, q) = (sent, stats, q')"
  shows "\<exists>ps. tp_task_id ` set ps = waiting now q \<and> distinct (map tp_task_id ps) \<and> sorted (map urgency ps) \<and>
    (\<forall>p\<in>set ps. mq_payload q (tp_task_id p) = Some p \<and> delivered now duration p q') \<and>
    sent = map (\<lambda>p. (the (gw (the (tp_target_conn_id p))), tp_envelope_json p)) ps \<and>
    ws_tasks_succeeded stats = int (length ps) \<and> ws_tasks_failed stats = 0 \<and> (\<forall>t. \<not> is_pending q' t) \<and>
    (\<forall>t. settled q t \<longrightarrow> dget (mq_status q') t = dget (mq_status q) t \<and> mq_get_result t q' = mq_get_result t q)"
proof -
  have "card {t. is_pending q t} \<le> n" using mq_counts [OF assms(1)] assms(4) by simp
  then show ?thesis
    using deliver_loop_run [OF mq_reachable_life [OF assms(1)] assms(2,3) _ assms(5,6)] by (auto simp: new_worker_stats_def)
qed

text \<open>A task that cannot be sent reaches nobody in the round that takes it: it waits for its next try, or has failed with
  the error of the executor when its retries are used up.\<close>

lemma undeliverable_round:
  assumes q: "mq_reachable q" "\<not> mq_closed q" "all_visible now q" and deq: "mq_deq now None q = (Some p, q1)" and fails: "agent_execute gw send now p = Inl e"
    and run: "deliver_loop gw send duration now 1 (stats, q) = (sent, stats', q')"
  shows "sent = []" and "dget (mq_status q') (tp_task_id p) = Some (if task_can_retry p then TASK_PENDING else TASK_FAILED)"
    and "ws_tasks_failed stats' = ws_tasks_failed stats + 1" and "ws_tasks_succeeded stats' = ws_tasks_succeeded stats"
proof -
  have out: "agent_outcome gw send now p = ExecError (exec_error_text e)" by (simp add: agent_outcome_def fails)
  have "sent_for gw send p = []" using sent_for_executed [of gw send p now] by (simp add: fails)
  then show "sent = []" using run by (simp add: deq process_task_def out case_prod_beta)
  obtain b s2 q2 where p: "process_task mq_complete mq_fail mem_reread now (duration p) (ExecError (exec_error_text e)) p (stats, q1) =
    (b, s2, q2)" by (rule prod_cases3)
  have same: "stats' = s2" "q' = q2" using run by (simp_all add: deq out p)
  note d = deq_some [OF mq_reachable_life [OF q(1)] q(3,2) deq]
  have inv1: "mq_inv q1" and pay: "mq_payload q1 (tp_task_id p) = Some p" using mq_life_inv [OF d(7)] d(3,4) by simp_all
  show "dget (mq_status q') (tp_task_id p) = Some (if task_can_retry p then TASK_PENDING else TASK_FAILED)"
    using mem.processed [OF inv1 pay p] p by (auto simp: same task_can_retry_def)
  show "ws_tasks_failed stats' = ws_tasks_failed stats + 1" "ws_tasks_succeeded stats' = ws_tasks_succeeded stats"
    using p by (auto simp: same process_task_def record_failure_def Let_def split: prod.splits)
qed

text \<open>A queue with a task for each of two connections.\<close>

definition ex_delivery_queue :: mem_queue where
  "ex_delivery_queue = snd (mq_put 1 ((new_task_payload 2 0)\<lparr>tp_target_conn_id := Some ''b'', tp_envelope_json := ''to b''\<rparr>)
     (snd (mq_put 0 ((new_task_payload 1 0)\<lparr>tp_target_conn_id := Some ''a'', tp_envelope_json := ''to a''\<rparr>)
       (mq_init (\<lambda>_. new_task_payload 0 0) 10 1 60))))"

lemma mq_put_reachable: "mq_reachable q \<Longrightarrow> \<not> din (tp_task_id t) (mq_tasks q) \<Longrightarrow> mq_reachable (snd (mq_put now t q))"
proof -
  assume q: "mq_reachable q" and new: "\<not> din (tp_task_id t) (mq_tasks q)"
  have "mq_reachable q2" if "mq_step\<^sup>*\<^sup>* q q2" for q2
    using that by induction (auto intro: q mq_reachable.step)
  then show ?thesis using mq_put_steps [OF new] by blast
qed

theorem queued_messages_delivered_witness:
  "fst (deliver_loop Some (\<lambda>ws text. None) (\<lambda>_. 1) 5 2 (new_worker_stats, ex_delivery_queue)) = [(''a'', ''to a''), (''b'', ''to b'')] \<and>
   ws_tasks_succeeded (fst (snd (deliver_loop Some (\<lambda>ws text. None) (\<lambda>_. 1) 5 2 (new_worker_stats, ex_delivery_queue)))) = 2"
proof -
  let ?gw = "Some :: string \<Rightarrow> string option" and ?send = "\<lambda>(ws :: string) (text :: string). None :: string option"
  have r: "mq_reachable ex_delivery_queue"
    unfolding ex_delivery_queue_def by (intro mq_put_reachable mq_reachable.init) code_simp+
  have op: "\<not> mq_closed ex_delivery_queue" and vis: "all_visible 5 ex_delivery_queue" and n: "mq_size None ex_delivery_queue \<le> int 2"
    and out: "fst (deliver_loop ?gw ?send (\<lambda>_. 1) 5 2 (new_worker_stats, ex_delivery_queue)) = [(''a'', ''to a''), (''b'', ''to b'')]"
    and ids: "map fst (mq_tasks ex_delivery_queue) = [1, 2]"
    and conns: "map (\<lambda>t. tp_target_conn_id (the (mq_payload ex_delivery_queue t))) [1, 2] = [Some ''a'', Some ''b'']" by code_simp+
  have all: "\<forall>t\<in>waiting 5 ex_delivery_queue. deliverable ?gw ?send (the (mq_payload ex_delivery_queue t))"
  proof
    fix t assume "t \<in> waiting 5 ex_delivery_queue"
    then have "din t (mq_tasks ex_delivery_queue)"
      by (auto simp: waiting_def mq_payload_def mq_get_def din_def split: option.splits)
    then have "t \<in> {1, 2}" using ids by (simp add: din_iff_mem)
    then show "deliverable ?gw ?send (the (mq_payload ex_delivery_queue t))" using conns by (auto simp: deliverable_def)
  qed
  obtain sent stats q' where run: "deliver_loop ?gw ?send (\<lambda>_. 1) 5 2 (new_worker_stats, ex_delivery_queue) = (sent, stats, q')"
    by (rule prod_cases3)
  have "ws_tasks_succeeded stats = int (length sent)"
    using queued_messages_delivered [OF r op vis n all run] by (elim exE conjE) simp
  then show ?thesis using out by (simp add: run)
qed

section \<open>From the router to the sockets\<close>

lemma mq_put_room:
  assumes "mq_inv q" and "\<not> mq_closed q" and "int (length (mq_tasks q)) < mq_max_size q"
    and "all_visible now' q" and "now \<le> now'" and "mq_put now t q = (res, q')"
  shows "res = Inr ()" "\<not> mq_closed q'" "all_visible now' q'" "mq_max_size q' = mq_max_size q"
    "length (mq_tasks q') \<le> Suc (length (mq_tasks q))"
proof -
  show r: "res = Inr ()" using mq_put_cases(3) [OF assms(1,6)] assms(2,3) by (cases res) auto
  define a where "a = Suc (foldr max (dvalues (mq_tasks q)) 0)"
  have "mq_enqueue now a 0 (q\<lparr>mq_objs := (mq_objs q)(a := t)\<rparr>) = (Inr a, q')"
    using mq_put_cases(4) [OF assms(1,6) r] by (simp add: a_def)
  then show "\<not> mq_closed q'" "all_visible now' q'" "mq_max_size q' = mq_max_size q"
    "length (mq_tasks q') \<le> Suc (length (mq_tasks q))"
    using assms(2-5) by (auto simp: mq_enqueue_def Let_def all_visible_def length_dset split: if_splits)
qed

lemma queue_loop_room:
  assumes "mq_reachable q" and "\<not> mq_closed q" and "all_visible now' q" and "now \<le> now'"
    and "int (length (mq_tasks q)) + int (length as) \<le> mq_max_size q"
    and "inj_on fresh {i..<i + length as}" and "\<forall>j\<in>{i..<i + length as}. dget (mq_status q) (fresh j) = None"
    and "queue_loop mq_put dump Q fresh now i as e p ttl s q = (res, q')"
  shows "mq_reachable q' \<and> \<not> mq_closed q' \<and> all_visible now' q' \<and> (\<exists>us. res = Inr us)"
  using assms
proof (induction as arbitrary: i q res)
  case (Cons a as)
  let ?t = "task_to_agent dump Q (fresh i) now a e p ttl s None"
  obtain r q1 where put: "mq_put now ?t q = (r, q1)" by fastforce
  have inv: "mq_inv q" using Cons.prems(1) by (simp add: mq_reachable_life mq_life_inv)
  note room = mq_put_room [OF inv Cons.prems(2) _ Cons.prems(3,4) put]
  have r: "r = Inr ()" using room(1) Cons.prems(5) by simp
  have "dget (mq_status q) (fresh i) = None" using Cons.prems(7) by simp
  then have "\<not> din (tp_task_id ?t) (mq_tasks q)" using mq_inv_known [OF inv, of "fresh i"] by (auto simp: din_def)
  then have reach: "mq_reachable q1" using mq_put_reachable [OF Cons.prems(1), of ?t now] put by simp
  have "dget (mq_status q1) k = (if k = fresh i then Some TASK_PENDING else dget (mq_status q) k)" for k
    using sink.enq_ok [OF inv, of ?t now "()" q1] put r Cons.prems(7) by simp
  moreover have "fresh j \<noteq> fresh i" if "j \<in> {Suc i..<Suc i + length as}" for j
    using inj_onD [OF Cons.prems(6), of j i] that by auto
  ultimately have new: "\<forall>j\<in>{Suc i..<Suc i + length as}. dget (mq_status q1) (fresh j) = None"
    using Cons.prems(7) by auto
  have inj: "inj_on fresh {Suc i..<Suc i + length as}" using Cons.prems(6) by (rule inj_on_subset) auto
  obtain r2 where rest: "queue_loop mq_put dump Q fresh now (Suc i) as e p ttl s q1 = (r2, q')"
    and res: "res = map_sum id ((#) ?t) r2"
    using Cons.prems(8) put r by (auto simp: queue_to_agent_def Let_def split: prod.splits sum.splits)
  have "mq_reachable q' \<and> \<not> mq_closed q' \<and> all_visible now' q' \<and> (\<exists>us. r2 = Inr us)"
    using room Cons.prems(5) by (intro Cons.IH [OF reach _ _ Cons.prems(4) _ inj new rest]) auto
  then show ?case using res by auto
qed simp

lemma queued_for_candidates:
  assumes q: "mq_reachable q" "\<not> mq_closed q" "all_visible now' q" "\<forall>t. \<not> is_pending q t"
    and room: "int (length (mq_tasks q)) + int (length as) \<le> mq_max_size q"
    and ids: "inj_on fresh {0..<length as}" "\<forall>j<length as. dget (mq_status q) (fresh j) = None"
    and time: "now \<le> now'" "now' - now \<le> td_sec (ttl_or ttl (qr_default_ttl Q))"
    and sockets: "\<forall>a\<in>set as. ar_conn_id a \<noteq> [] \<and> (\<exists>ws. gw (ar_conn_id a) = Some ws \<and> send ws (dump e) = None)"
    and queued: "queue_to_candidates mq_put dump Q fresh now as e p ttl s q = (res, q1)"
  defines "ts \<equiv> map (\<lambda>(j, a). task_to_agent dump Q (fresh j) now a e p ttl s None) (enumerate 0 as)"
  shows "mq_reachable q1" "\<not> mq_closed q1" "all_visible now' q1" "\<exists>us. res = Inr us"
    and "\<forall>t\<in>set ts. mq_payload q1 (tp_task_id t) = Some t \<and> deliverable gw send t"
    and "{t. is_pending q1 t} = tp_task_id ` set ts" "waiting now' q1 = tp_task_id ` set ts"
proof -
  have inv: "mq_inv q" using q(1) by (simp add: mq_reachable_life mq_life_inv)
  have loop: "queue_loop mq_put dump Q fresh now 0 as e p ttl s q = (res, q1)" using queued by (simp add: queue_to_candidates_def)
  have ids': "inj_on fresh {0..<0 + length as}" "\<forall>j\<in>{0..<0 + length as}. dget (mq_status q) (fresh j) = None"
    using ids by simp_all
  note all = queue_loop_room [OF q(1-3) time(1) room ids' loop]
  then show "mq_reachable q1" "\<not> mq_closed q1" "all_visible now' q1" and "\<exists>us. res = Inr us" by blast+
  then obtain us where us: "res = Inr us" by blast
  have spec: "\<forall>x. dget (mq_status q1) x = (if x \<in> tp_task_id ` set ts then Some TASK_PENDING else dget (mq_status q) x)"
    "\<forall>t\<in>set ts. mq_payload q1 (tp_task_id t) = Some t"
    using sink.queue_loop_spec [OF inv ids' loop] by (auto simp: us ts_def Let_def)
  have each: "\<not> task_is_expired now' t \<and> deliverable gw send t" if t: "t \<in> set ts" for t
  proof -
    obtain j where j: "j < length as" "t = task_to_agent dump Q (fresh j) now (as ! j) e p ttl s None"
      using t by (auto simp: ts_def in_set_enumerate_eq)
    then have "deliverable gw send t" using sockets nth_mem [OF j(1)] by (auto simp: deliverable_def)
    moreover have "\<not> task_is_expired now' t"
      using time(2) by (simp add: j(2) task_is_expired_def task_to_agent_def new_task_payload_def)
    ultimately show ?thesis by blast
  qed
  then show "\<forall>t\<in>set ts. mq_payload q1 (tp_task_id t) = Some t \<and> deliverable gw send t" using spec(2) by blast
  show pend: "{t. is_pending q1 t} = tp_task_id ` set ts" using spec(1) q(4) by (auto simp: is_pending_def)
  show "waiting now' q1 = tp_task_id ` set ts" unfolding waiting_def using pend spec(2) each by blast
qed

lemma same_tasks:
  assumes "distinct (map tp_task_id ps)" and "distinct (map tp_task_id ts)" and "tp_task_id ` set ps = tp_task_id ` set ts"
    and "\<forall>x\<in>set ps. pay (tp_task_id x) = Some x" and "\<forall>x\<in>set ts. pay (tp_task_id x) = Some x"
  shows "mset ps = mset ts"
proof -
  have sub: "set xs \<subseteq> set ys" if incl: "tp_task_id ` set xs \<subseteq> tp_task_id ` set ys"
    and pay: "\<forall>x\<in>set xs. pay (tp_task_id x) = Some x" "\<forall>x\<in>set ys. pay (tp_task_id x) = Some x" for xs ys
  proof
    fix x assume x: "x \<in> set xs"
    then obtain y where y: "y \<in> set ys" "tp_task_id x = tp_task_id y" using x incl by blast
    then have "Some x = Some y" using x pay by metis
    then show "x \<in> set ys" using y(1) by simp
  qed
  have "set ps = set ts" by (rule subset_antisym; rule sub) (use assms in simp_all)
  then show ?thesis using assms(1,2) by (simp add: distinct_map set_eq_iff_mset_eq_distinct)
qed

text \<open>C4: a message that the router queues for candidates, on a queue that has room and nothing pending, is sent by a worker
  of agents to the socket of each candidate, once each and nothing else, as long as the sockets take it and its lifetime
  is not over; all the tasks are completed.\<close>

theorem routed_message_delivered:
  assumes q: "mq_reachable q" "\<not> mq_closed q" "all_visible now' q" "\<forall>t. \<not> is_pending q t"
    and room: "int (length (mq_tasks q)) + int (length as) \<le> mq_max_size q"
    and ids: "inj_on fresh {0..<length as}" "\<forall>j<length as. dget (mq_status q) (fresh j) = None"
    and time: "now \<le> now'" "now' - now \<le> td_sec (ttl_or ttl (qr_default_ttl Q))"
    and sockets: "\<forall>a\<in>set as. ar_conn_id a \<noteq> [] \<and> (\<exists>ws. gw (ar_conn_id a) = Some ws \<and> send ws (dump e) = None)"
    and queued: "queue_to_candidates mq_put dump Q fresh now as e p ttl s q = (res, q1)"
    and run: "deliver_loop gw send duration now' (length as) (new_worker_stats, q1) = (sent, stats, q')"
  shows "(\<exists>ts. res = Inr ts) \<and> mset sent = mset (map (\<lambda>a. (the (gw (ar_conn_id a)), dump e)) as) \<and>
    ws_tasks_succeeded stats = int (length as) \<and> (\<forall>j<length as. dget (mq_status q') (fresh j) = Some TASK_COMPLETED)"
proof -
  note one = queued_for_candidates [where send = send and gw = gw and dump = dump and e = e, OF q room ids time sockets queued]
  define ts where "ts = map (\<lambda>(j, a). task_to_agent dump Q (fresh j) now a e p ttl s None) (enumerate 0 as)"
  note one = one [folded ts_def]
  have tids: "map tp_task_id ts = map fresh [0..<length as]"
    by (simp add: ts_def comp_def case_prod_beta flip: map_map [of fresh fst, unfolded comp_def])
  then have dist: "distinct (map tp_task_id ts)" using ids(1) by (simp add: distinct_map)
  have len: "length ts = length as" by (simp add: ts_def)
  have "card {t. is_pending q1 t} \<le> length as" unfolding one(6) using card_length [of "map tp_task_id ts"] len by simp
  moreover have "\<forall>t\<in>waiting now' q1. deliverable gw send (the (mq_payload q1 t))" using one(5) by (auto simp: one(7))
  ultimately show ?thesis using deliver_loop_run [OF mq_reachable_life [OF one(1)] one(2,3) _ _ run]
  proof (elim meta_impE exE conjE)
    fix ps
    assume ps: "\<forall>x\<in>set ps. mq_payload q1 (tp_task_id x) = Some x \<and> delivered now' duration x q'"
      "tp_task_id ` set ps = waiting now' q1" "distinct (map tp_task_id ps)"
      and out: "sent = map (\<lambda>p. (the (gw (the (tp_target_conn_id p))), tp_envelope_json p)) ps"
      and n: "ws_tasks_succeeded stats = ws_tasks_succeeded new_worker_stats + int (length ps)"
    have same: "mset ps = mset ts"
      using ps one(5) by (intro same_tasks [where pay = "mq_payload q1"]) (simp_all add: one(7) dist)
    let ?out = "\<lambda>p. (the (gw (the (tp_target_conn_id p))), tp_envelope_json p)"
    have "map ?out ts = map (\<lambda>a. (the (gw (ar_conn_id a)), dump e)) as"
      by (simp add: ts_def comp_def case_prod_beta flip: map_map [of "\<lambda>a. (the (gw (ar_conn_id a)), dump e)" snd, unfolded comp_def])
    moreover have "mset sent = mset (map ?out ts)" unfolding out mset_map same ..
    ultimately have "mset sent = mset (map (\<lambda>a. (the (gw (ar_conn_id a)), dump e)) as)" by (rule subst)
    moreover have "length ps = length as" using arg_cong [OF same, of size] len by simp
    moreover have "dget (mq_status q') (fresh j) = Some TASK_COMPLETED" if "j < length as" for j
    proof -
      have "fresh j \<in> set (map tp_task_id ts)" using that unfolding tids by simp
      then obtain x where x: "x \<in> set ps" "tp_task_id x = fresh j"
        unfolding set_map ps(2) [unfolded one(7), symmetric] by auto
      then show ?thesis using bspec [OF ps(1) x(1)] by (simp add: delivered_def)
    qed
    ultimately show ?thesis using one(4) n by (simp add: new_worker_stats_def)
  qed
qed

theorem routed_message_delivered_witness:
  "let (res, q1) = queue_to_candidates mq_put (\<lambda>_. ''hello'') (qr_init PRIO_NORMAL 300) (\<lambda>j. word_of_nat j) 5
         [ex_agent 1, ex_agent 2] (ex_intent 3 ''acme'') None None None (mq_init (\<lambda>_. new_task_payload 0 0) 10 1 60);
       (sent, _) = deliver_loop Some (\<lambda>ws text. None) (\<lambda>_. 1) 6 2 (new_worker_stats, q1)
   in mset sent = {#(ar_conn_id (ex_agent 1), ''hello''), (ar_conn_id (ex_agent 2), ''hello'')#}"
proof -
  let ?fresh = "\<lambda>j. word_of_nat j :: uuid" and ?q = "mq_init (\<lambda>_. new_task_payload 0 0) 10 1 60"
  let ?gw = "Some :: string \<Rightarrow> string option" and ?send = "\<lambda>(ws :: string) (text :: string). None :: string option"
  let ?as = "[ex_agent 1, ex_agent 2]"
  obtain res q1 where queued: "queue_to_candidates mq_put (\<lambda>_. ''hello'') (qr_init PRIO_NORMAL 300) ?fresh 5 ?as
    (ex_intent 3 ''acme'') None None None ?q = (res, q1)" by fastforce
  obtain sent stats q' where run: "deliver_loop ?gw ?send (\<lambda>_. 1) 6 (length ?as) (new_worker_stats, q1) = (sent, stats, q')"
    by (rule prod_cases3)
  have conns: "\<forall>a\<in>set ?as. ar_conn_id a \<noteq> [] \<and> (\<exists>ws. ?gw (ar_conn_id a) = Some ws \<and> ?send ws ((\<lambda>_. ''hello'') (ex_intent 3 ''acme'')) = None)"
    by (simp add: ex_agent_def new_agent_record_def)
  have "mset sent = mset (map (\<lambda>a. (the (?gw (ar_conn_id a)), (\<lambda>_. ''hello'') (ex_intent 3 ''acme''))) ?as)"
    by (rule routed_message_delivered [THEN conjunct2, THEN conjunct1, OF mq_reachable.init _ _ _ _ _ _ _ _ conns queued run])
      (auto simp: mq_init_def all_visible_def is_pending_def inj_on_def less_Suc_eq qr_init_def ttl_or_def td_sec_def)
  moreover have "length ?as = 2" by simp
  ultimately show ?thesis using queued run unfolding \<open>length ?as = 2\<close> by simp
qed

end
