(* ===== verification/Spec2Isabelle.thy ===== *)
theory Spec2Isabelle
  imports Task_Worker Policy_Engine Session_Manager Storage_Memory Trace_Store Event_Manager Out_Queue Queued_Router
    Task_Queue_Refine Handler_Messages Handler_Life
    Storage_Sql_Props Presence_Redis Kafka_Props Rabbit_Props Redis_Queue_Props Storage_Ports Bus_App Agent_Delivery
begin

text \<open>
  \<^bold>\<open>The semantic bus\<close>

  A model of the bus under \<open>src/src\<close>: agents connect over WebSockets and register, broadcast intents, which
  the bus matches with agents, offer, agree on a session, execute in it, and watch events. Every
  component that keeps state is a record, every method a function from the old state to the result and the
  new one; a method that may raise returns a sum or an option. The clock, fresh ids, what a language model
  answers, and what a socket does are arguments, so that the theorems hold for all of them.

  \<^bold>\<open>Theories and what they model\<close>

  \<^item> \<open>Bus_Prelude\<close>: dictionaries in insertion order, times, ids, slices, the collections of lemmas;
    \<open>Py_Values\<close>: values of a payload, truth, texts; \<open>Py_Parse\<close>: ids read and written.
  \<^item> \<open>Heapq\<close> (the library's \<open>heapq\<close>), \<open>Task_Ports\<close> (\<open>queue/ports.py\<close>, with the locale \<open>task_queue\<close> as the contract of
    a queue), \<open>Task_Queue\<close> (\<open>queue/memory.py\<close>), its invariant \<open>Task_Queue_Inv\<close>, its reachable states
    \<open>Task_Queue_Life\<close>, what they guarantee \<open>Task_Queue_Props\<close>, and its refinement of a board of tasks \<open>Task_Queue_Refine\<close>; \<open>Task_Worker\<close> (\<open>queue/worker.py\<close>, over the contract).
  \<^item> \<open>View_Registry\<close> (\<open>schema/view_registry.py\<close>), \<open>Agent_Registry\<close> (\<open>registry/agent.py\<close>, \<open>registry/registry.py\<close>).
  \<^item> \<open>Session_Model\<close>, \<open>Session_Manager\<close> (\<open>session\<close>), \<open>Policy_Engine\<close> (\<open>policy/engine.py\<close>),
    \<open>Trace_Store\<close> (\<open>trace/store.py\<close>), \<open>Storage_Memory\<close> (\<open>storage/memory.py\<close>) and \<open>Storage_Ports\<close> (the contract of \<open>SessionStore\<close> in
    \<open>storage/ports.py\<close> as the locale \<open>session_port\<close>; that of \<open>ExecStore\<close> is \<open>exec_store\<close> in \<open>Storage_Memory\<close>).
  \<^item> \<open>Event_Models\<close>, \<open>Event_Stream\<close>, \<open>Event_Manager\<close> (\<open>events\<close>), \<open>Out_Queue\<close> (\<open>transport/queue.py\<close>),
    \<open>Envelope\<close> (\<open>protocol/envelope.py\<close>).
  \<^item> \<open>Semantic_Matcher\<close>, \<open>Intent_Router\<close>, \<open>Queued_Router\<close> (\<open>routing\<close>), \<open>Flow_Planner\<close> (\<open>orchestration/flow_planner.py\<close>).
  \<^item> \<open>Storage_Sql\<close> (\<open>storage/models.py\<close>, \<open>storage/sqlalchemy.py\<close>) with \<open>Storage_Sql_Props\<close>; \<open>Storage_Redis\<close>
    (\<open>storage/redis.py\<close>) with \<open>Storage_Redis_Props\<close> and \<open>Presence_Redis\<close>; \<open>Py_Json\<close>: what is written as JSON.
  \<^item> \<open>Task_Wire\<close>: how tasks are written; \<open>Kafka_Queue\<close>, \<open>Rabbit_Queue\<close>, \<open>Redis_Queue\<close> (the files of \<open>queue\<close> of
    these names) with \<open>Kafka_Props\<close>, \<open>Rabbit_Props\<close>, \<open>Redis_Queue_Props\<close>.
  \<^item> \<open>Handler_Base\<close>, \<open>Handler_Intent\<close>, \<open>Handler_Exec\<close>, \<open>Handler_Events\<close>, \<open>Handler_Loop\<close>: \<open>transport/handler.py\<close>, all
    handlers over one record \<open>bus\<close> made of the components above, and the whole bus as the step relation \<open>world_step\<close>:
    connections receive messages, flows poll, deliveries run and clean-ups happen in any order.
    \<open>Handler_Inv\<close> proves its invariant, \<open>Handler_Props\<close>, \<open>Handler_Sessions\<close>, \<open>Handler_Flows\<close>,
    \<open>Handler_Recipients\<close>, \<open>Handler_Messages\<close> and \<open>Handler_Life\<close> what follows for the users of the bus.
  \<^item> \<open>Bus_Config\<close> (\<open>queue/factory.py\<close>, \<open>storage/factory.py\<close>, \<open>llm/factory.py\<close>, the constructors of bundles) and
    \<open>Bus_App\<close> (\<open>transport/app.py\<close>: start and stop, the background tasks, the endpoint and the health report).
  \<^item> \<open>Agent_Delivery\<close>: router, queue, worker and sockets together (\<open>AgentTaskExecutor\<close> of \<open>queue/worker.py\<close> run by
    its loop over the in-memory queue).

  \<^bold>\<open>What the lemmas show\<close>

  Each component has an invariant that all its operations keep and a description of each operation on
  all branches; the names of the theorems say which. Beyond single components: a worker settles every task
  it takes, whatever queue keeps the contract; a broadcast reaches agents of the tenant only, if the
  tenant is not empty; a message leads to messages for its sender and, in two cases, for one other kind
  of recipient; a session becomes active by agreement of its requester only; a flow that waits for offers
  ends; a connection that ends leaves nothing behind and takes nothing of others with it.

  The steps of the sessions (\<open>sm_step\<close>) are the operations of the manager and what the handler writes into a session in
  place, since the bus never agrees through the manager. Every step of the bus changes its sessions by such steps
  (\<open>bus_sessions_refine\<close>), so that the life of a session is that of the manager's (\<open>bus_session_life\<close>). The steps of the
  in-memory queue (\<open>mq_step\<close>) are its operations under the discipline that its worker keeps: a task is completed or
  failed while it is processed, and an id is enqueued once. The operations themselves look at neither; what holds
  without the discipline is stated with \<open>other_step\<close> (\<open>mq_outcome_stable\<close>), what does not in \<open>mq_settled_again\<close>.

  The stores and queues over external services are compared with what they stand in for. The SQL stores answer
  as the in-memory stores do (\<open>sql_sessions_equal_memory\<close>, \<open>sql_execs_equal_memory\<close>), the Redis store of executions as
  the in-memory store called with keys scoped by session (\<open>redis_execs_equal_memory\<close>), and the Redis registry refines a
  table of connections (\<open>redis_registry_refines\<close>). Where the implementations differ the calls are left out by a
  named condition, which the text of the theorem explains: \<open>keeps_fixed\<close> (an update of a column that the SQL update does
  not write), \<open>exec_call_ok\<close> (empty keys, lookups by id and key), \<open>by_key_alone\<close> (a lookup that Redis does not answer),
  \<open>presence_call_ok\<close> (a connection that changes its tenant or has an id that reads as the key of a tenant). For the queues the theorems say what
  survives the failures of the broker: \<open>kafka_failure_outcomes\<close>, \<open>rabbit_settled_once\<close>, \<open>rabbit_pending_tracked\<close>, and
  that a task is handed out as it was enqueued, and a result read as it was given: \<open>kafka_roundtrip\<close>,
  \<open>rabbit_most_urgent\<close>, \<open>redis_result_readback\<close>.

  The parts are put together in three places. A message that the router queues is sent to the socket of every
  candidate exactly once (\<open>routed_message_delivered\<close>, by \<open>queued_messages_delivered\<close> for any reachable queue; as many
  rounds as pending tasks are enough; \<open>undeliverable_round\<close> is the case of an agent that is gone). The application that was started runs a reachable bus, so that all theorems on
  these hold of it, and its health report counts it (\<open>health_counts\<close>). The factories make what the settings ask for
  (\<open>storage_bundle_spec\<close>, \<open>create_task_queue_kind\<close>, \<open>create_llm_keyed\<close>).

  Some theorems describe what the code does where it cannot be what it means to do: valid requests to execute
  end the connection (\<open>exec_request_fails\<close>), providers cannot answer (\<open>agents_cannot_answer\<close>), no event is
  published (\<open>bus_invariant\<close>).

  \<^bold>\<open>How the model abstracts\<close>

  \<^item> Floats are rationals, times are integers of microseconds. Integers are unbounded, as in the language.
  \<^item> The locks of \<open>asyncio\<close> are not contended across a suspension except where the code waits: a waiting dequeue
    is a run over wake-ups in which the state may have changed; a flow that waits for offers is a state of its own.
    The other suspensions of a handler, inside a send or a lookup, are not modelled: a handler is one transition.
  \<^item> The writer of an outbound queue runs concurrently; in the reachable states of the bus any change of the outbound
    queues is allowed (\<open>flush\<close>).
  \<^item> Fresh ids are arguments. The steps of the bus ask that they are not ids of sessions (\<open>fresh_ctx\<close>).
  \<^item> The wait for offers adds a float fifty-one times before it reaches ten seconds: \<open>max_polls\<close>.
  \<^item> The language model and the library that runs graphs are not under \<open>src\<close>: the field \<open>cx_outside\<close> and
    parameters of the matcher and the planner stand for them.
  \<^item> The external services are records of functions on a state of their own: \<open>table\<close> (the statements on a table of
    the database), \<open>redis\<close> and \<open>redis_streams\<close> (the commands), \<open>kafka\<close> and \<open>amqp\<close> (the clients). Every request to a
    queue's broker may fail. The theorems about brokers in Kafka and RabbitMQ hold for all answers; those about stores
    assume the documented laws \<open>table_ok\<close>, \<open>rx_ok\<close>, \<open>rr_ok\<close>, \<open>rq_ok\<close>: what a write stores is read back, other keys
    stay, and no key expires between two calls. \<open>codec\<close> stands for the writing of JSON and of times, also in the serializers
    that the Kafka queue gives to its client; \<open>codec_ok\<close> says that what is written is read back. The witnesses use concrete tables, brokers and a concrete codec.
  \<^item> A method of a store or a queue runs without interruption by another.

  \<^bold>\<open>Not modelled\<close>

  Logging, the web framework that calls the application, what the constructors of other packages' clients do with their
  options (their errors are parameters), the sleep of the background tasks (a round is a step at any time), the
  re-exports of the packages, the unused class \<open>LLMConfig\<close>, and the scripts, which are clients for trying out the bus
  and are not part of it. The abstract methods of \<open>TraceStore\<close> and \<open>RegistryStore\<close> have no contract of their own:
  their implementations keep different ones (a trace in memory forgets its oldest events, a presence in Redis expires).
\<close>

end
